(* ===== verification/Prelude.thy ===== *)
theory Prelude
  imports
    Complex_Main
    "HOL-Library.AList"
    "HOL-Library.Char_ord"
    "HOL-Library.List_Lexorder"
    "HOL-Library.Product_Lexorder"
begin

text \<open>
  What every component shares: the types that stand for the source's identifiers, times and
  JSON values, the exceptions of \<^verbatim>\<open>core/exceptions\<close> as a datatype, SQL's comparisons with NULL,
  tables as lists of rows with the \<^verbatim>\<open>SELECT\<close> and \<^verbatim>\<open>UPDATE\<close> forms the services use, the string helpers
  that appear in several services, and three interfaces (locales) that the components interpret:
  \<^item> \<open>row_update\<close>: an update that keeps the primary key keeps the table's identity;
  \<^item> \<open>invariant_system\<close>: an operation set that keeps an invariant keeps it along every run;
  \<^item> \<open>fenced_store\<close>: a store whose writes are guarded by ownership ignores an owner that lost it.
\<close>

named_theorems row_simps \<open>reading a table after a write\<close>
named_theorems null_simps \<open>comparisons with a nullable column\<close>

section \<open>Identifiers, times and errors\<close>

text \<open>
  A UUID is the 128-bit number it denotes; Python and PostgreSQL both order UUIDs as these
  numbers. A time-zone aware datetime is its distance from the epoch in microseconds, the
  resolution of both Python and PostgreSQL.
\<close>

type_synonym uuid = nat
type_synonym timestamp = int

definition timedelta_seconds :: "int \<Rightarrow> int" where
  "timedelta_seconds s = s * 1000000"

definition timedelta_minutes :: "int \<Rightarrow> int" where
  "timedelta_minutes m = m * 60000000"

definition timedelta_days :: "int \<Rightarrow> int" where
  "timedelta_days d = d * 86400000000"

lemmas timedelta_defs = timedelta_seconds_def timedelta_minutes_def timedelta_days_def

text \<open>
  The exceptions the modelled code raises. The payload is the message; where the source
  interpolates values into it, the payload is the constant part of the message.
\<close>

datatype app_error =
    NotFoundError string
  | ConflictError string
  | AuthorizationError string
  | AppValidationError string
  | CustomValueError string
  | ValueError string
  | RuntimeError string
  | IntegrityError string
  | InvalidRequestError string
  | AuthenticationError string
  | RateLimitError string

text \<open>Sequencing of code that may raise: the first exception ends the operation.\<close>

definition bind_result :: "'e + 'a \<Rightarrow> ('a \<Rightarrow> 'e + 'b) \<Rightarrow> 'e + 'b" where
  "bind_result r f = (case r of Inl e \<Rightarrow> Inl e | Inr x \<Rightarrow> f x)"

lemma bind_result_simps [simp]: "bind_result (Inl e) f = Inl e" "bind_result (Inr x) f = f x"
  by (simp_all add: bind_result_def)

lemma bind_result_Inr: "bind_result r f = Inr y \<longleftrightarrow> (\<exists>x. r = Inr x \<and> f x = Inr y)"
  by (cases r) simp_all

section \<open>Optional values as the source tests them\<close>

text \<open>
  \<^verbatim>\<open>column <= now\<close> in a WHERE clause is not true for NULL; the Python code that reads the same
  columns writes \<^verbatim>\<open>x is not None and x <= now\<close>. The clauses use no negation, so collapsing SQL's
  third truth value to False is exact.
\<close>

definition null_le :: "timestamp option \<Rightarrow> timestamp \<Rightarrow> bool" where
  "null_le c t = (case c of None \<Rightarrow> False | Some x \<Rightarrow> x \<le> t)"

definition null_lt :: "timestamp option \<Rightarrow> timestamp \<Rightarrow> bool" where
  "null_lt c t = (case c of None \<Rightarrow> False | Some x \<Rightarrow> x < t)"

definition null_gt :: "timestamp option \<Rightarrow> timestamp \<Rightarrow> bool" where
  "null_gt c t = (case c of None \<Rightarrow> False | Some x \<Rightarrow> x > t)"

lemma null_cmp_simps [simp, null_simps]:
  "null_le None t = False" "null_le (Some x) t = (x \<le> t)"
  "null_lt None t = False" "null_lt (Some x) t = (x < t)"
  "null_gt None t = False" "null_gt (Some x) t = (x > t)"
  by (simp_all add: null_le_def null_lt_def null_gt_def)

lemma null_le_iff: "null_le c t \<longleftrightarrow> (\<exists>x. c = Some x \<and> x \<le> t)"
  by (cases c) simp_all

lemma null_gt_iff: "null_gt c t \<longleftrightarrow> (\<exists>x. c = Some x \<and> x > t)"
  by (cases c) simp_all

text \<open>\<^verbatim>\<open>x or d\<close> for an optional integer: a missing or zero value is replaced.\<close>

definition or_default :: "int option \<Rightarrow> int \<Rightarrow> int" where
  "or_default x d = (case x of None \<Rightarrow> d | Some n \<Rightarrow> if n = 0 then d else n)"

text \<open>\<^verbatim>\<open>d if x is None else x\<close>.\<close>

definition if_none :: "'a option \<Rightarrow> 'a \<Rightarrow> 'a" where
  "if_none x d = (case x of None \<Rightarrow> d | Some y \<Rightarrow> y)"

lemma if_none_simps [simp]: "if_none None d = d" "if_none (Some y) d = y"
  by (simp_all add: if_none_def)

text \<open>\<^verbatim>\<open>s or d\<close> for an optional string: a missing or empty value is replaced.\<close>

definition or_string :: "string option \<Rightarrow> string \<Rightarrow> string" where
  "or_string x d = (case x of None \<Rightarrow> d | Some s \<Rightarrow> if s = [] then d else s)"

section \<open>Tables\<close>

text \<open>
  A table is the list of its rows. \<^verbatim>\<open>db.scalar(select(...).where(P))\<close> is the library's \<open>find P\<close>,
  \<^verbatim>\<open>update(...).where(P).values(...)\<close> is \<open>update_where\<close>, its \<^verbatim>\<open>rowcount\<close> (or the number of rows
  RETURNING yields) is \<open>rowcount\<close>, and flushing a loaded and mutated object is \<open>write_row\<close>.
\<close>

definition update_where :: "('r \<Rightarrow> bool) \<Rightarrow> ('r \<Rightarrow> 'r) \<Rightarrow> 'r list \<Rightarrow> 'r list" where
  "update_where P f T = map (\<lambda>r. if P r then f r else r) T"

definition rowcount :: "('r \<Rightarrow> bool) \<Rightarrow> 'r list \<Rightarrow> nat" where
  "rowcount P T = length (filter P T)"

definition write_row :: "('r \<Rightarrow> uuid) \<Rightarrow> 'r \<Rightarrow> 'r list \<Rightarrow> 'r list" where
  "write_row key r T = update_where (\<lambda>x. key x = key r) (\<lambda>_. r) T"

definition row_by_id :: "('r \<Rightarrow> uuid) \<Rightarrow> uuid \<Rightarrow> 'r list \<Rightarrow> 'r option" where
  "row_by_id key i T = find (\<lambda>r. key r = i) T"

lemma length_update_where [simp]: "length (update_where P f T) = length T"
  by (simp add: update_where_def)

lemma length_write_row [simp]: "length (write_row key r T) = length T"
  by (simp add: write_row_def)

lemma update_where_Nil [simp]: "update_where P f [] = []"
  by (simp add: update_where_def)

lemma update_where_Cons [simp]:
  "update_where P f (r # T) = (if P r then f r else r) # update_where P f T"
  by (simp add: update_where_def)

lemma in_update_where:
  "r \<in> set (update_where P f T) \<longleftrightarrow> (\<exists>q \<in> set T. r = (if P q then f q else q))"
  by (auto simp: update_where_def)

lemma update_where_none: "(\<And>r. r \<in> set T \<Longrightarrow> \<not> P r) \<Longrightarrow> update_where P f T = T"
  by (induction T) auto

lemma rowcount_0_iff: "rowcount P T = 0 \<longleftrightarrow> (\<forall>r \<in> set T. \<not> P r)"
  by (auto simp: rowcount_def filter_empty_conv)

lemma update_where_rowcount_0 [row_simps]: "rowcount P T = 0 \<Longrightarrow> update_where P f T = T"
  by (rule update_where_none) (simp add: rowcount_0_iff)

lemma in_write_row:
  "r \<in> set (write_row key q T) \<longleftrightarrow>
     (r = q \<and> key q \<in> key ` set T) \<or> (r \<in> set T \<and> key r \<noteq> key q)"
  unfolding write_row_def in_update_where image_iff by (metis (full_types))

lemma find_SomeD: "find P T = Some r \<Longrightarrow> r \<in> set T \<and> P r"
  by (auto simp: find_Some_iff)

lemma find_ex: "r \<in> set T \<Longrightarrow> P r \<Longrightarrow> \<exists>q. find P T = Some q \<and> q \<in> set T \<and> P q"
  by (induction T) auto

text \<open>A search that can only match one row finds it.\<close>

lemma find_unique:
  assumes "r \<in> set T" and "P r" and "\<And>q. q \<in> set T \<Longrightarrow> P q \<Longrightarrow> q = r"
  shows "find P T = Some r"
  using find_ex [of r T P, OF assms(1,2)] assms(3) by blast

lemma row_by_id_Some: "row_by_id key i T = Some r \<Longrightarrow> r \<in> set T \<and> key r = i"
  by (auto simp: row_by_id_def find_Some_iff)

lemma row_by_id_in_keys: "row_by_id key i T = Some r \<Longrightarrow> i \<in> key ` set T"
  by (auto dest!: row_by_id_Some)

lemma row_by_id_None: "row_by_id key i T = None \<longleftrightarrow> i \<notin> key ` set T"
  by (auto simp: row_by_id_def find_None_iff)

lemma row_by_id_unique:
  "distinct (map key T) \<Longrightarrow> r \<in> set T \<Longrightarrow> row_by_id key (key r) T = Some r"
  by (induction T) (auto simp: row_by_id_def)

lemma distinct_key_eq:
  "distinct (map key T) \<Longrightarrow> r \<in> set T \<Longrightarrow> q \<in> set T \<Longrightarrow> key r = key q \<Longrightarrow> r = q"
  by (simp add: distinct_map inj_on_def)

lemma rowcount_card: "distinct T \<Longrightarrow> rowcount P T = card {r \<in> set T. P r}"
proof -
  assume "distinct T"
  moreover have "{x. P x} \<inter> set T = {r \<in> set T. P r}" by blast
  ultimately show ?thesis by (simp add: rowcount_def distinct_length_filter)
qed

lemma distinct_rows: "distinct (map key T) \<Longrightarrow> distinct T"
  by (simp add: distinct_map)

lemma rowcount_mono:
  "(\<And>r. r \<in> set T \<Longrightarrow> P r \<Longrightarrow> Q r) \<Longrightarrow> rowcount P T \<le> rowcount Q T"
  by (induction T) (auto simp: rowcount_def le_Suc_eq)

lemma rowcount_update_where:
  "rowcount P (update_where G f T) = rowcount (\<lambda>r. P (if G r then f r else r)) T"
  by (induction T) (auto simp: rowcount_def)

text \<open>
  A partial unique index (\<open>K\<close> unique among the rows with \<open>Q\<close>) survives an update that keeps the
  indexed expressions and brings no new row under the index.
\<close>

lemma partial_index_keys:
  assumes "\<And>r. r \<in> set T \<Longrightarrow> P r \<Longrightarrow> K (f r) = K r \<and> (Q (f r) \<longrightarrow> Q r)"
  shows "set (map K (filter Q (update_where P f T))) \<subseteq> set (map K (filter Q T))"
proof
  fix k
  assume "k \<in> set (map K (filter Q (update_where P f T)))"
  then obtain r where r: "r \<in> set T" "Q (if P r then f r else r)" "k = K (if P r then f r else r)"
    by (auto simp: in_update_where)
  then have "Q r \<and> k = K r" using assms [of r] by (cases "P r") simp_all
  with r(1) show "k \<in> set (map K (filter Q T))" by auto
qed

lemma partial_index_update:
  assumes "\<And>r. r \<in> set T \<Longrightarrow> P r \<Longrightarrow> K (f r) = K r \<and> (Q (f r) \<longrightarrow> Q r)"
    and "distinct (map K (filter Q T))"
  shows "distinct (map K (filter Q (update_where P f T)))"
  using assms
proof (induction T)
  case Nil
  then show ?case by simp
next
  case (Cons r T)
  have keys: "set (map K (filter Q (update_where P f T))) \<subseteq> set (map K (filter Q T))"
    by (rule partial_index_keys) (simp add: Cons.prems(1))
  have rest: "distinct (map K (filter Q (update_where P f T)))"
    using Cons by (simp split: if_splits)
  let ?r = "if P r then f r else r"
  show ?case
  proof (cases "Q ?r")
    case True
    with Cons.prems(1) [of r] have "Q r" and "K ?r = K r" by (cases "P r"; simp)+
    with Cons.prems(2) have "K ?r \<notin> set (map K (filter Q T))" by simp
    with keys have "K ?r \<notin> set (map K (filter Q (update_where P f T)))" by blast
    with True rest show ?thesis by simp
  next
    case False
    with rest show ?thesis by simp
  qed
qed

text \<open>
  Keeping only the rows whose rank (one plus the number of smaller rows) is at most \<open>m\<close> keeps at
  most \<open>m\<close> rows.
\<close>

lemma card_rank_le:
  fixes k :: "'r \<Rightarrow> 'k :: linorder"
  assumes "finite E" and "inj_on k E"
  shows "int (card {j \<in> E. 1 + int (card {i \<in> E. k i < k j}) \<le> m}) \<le> max 0 m"
proof (cases "{j \<in> E. 1 + int (card {i \<in> E. k i < k j}) \<le> m} = {}")
  case True
  show ?thesis unfolding True by simp
next
  case False
  let ?S = "{j \<in> E. 1 + int (card {i \<in> E. k i < k j}) \<le> m}"
  have fin: "finite ?S" using assms(1) by simp
  then have "Max (k ` ?S) \<in> k ` ?S" using False by (intro Max_in) auto
  then obtain t where t: "t \<in> ?S" and kt: "k t = Max (k ` ?S)" by auto
  have "?S \<subseteq> insert t {i \<in> E. k i < k t}"
  proof
    fix j
    assume j: "j \<in> ?S"
    then have "k j \<le> k t" unfolding kt using fin by (intro Max_ge) auto
    moreover have "k j = k t \<Longrightarrow> j = t"
      using assms(2) j t by (auto dest: inj_onD)
    ultimately show "j \<in> insert t {i \<in> E. k i < k t}" using j by auto
  qed
  then have "card ?S \<le> card (insert t {i \<in> E. k i < k t})"
    using assms(1) by (intro card_mono) auto
  also have "\<dots> \<le> Suc (card {i \<in> E. k i < k t})" using card_insert_le_m1 [of "Suc (card {i \<in> E. k i < k t})" "{i \<in> E. k i < k t}" t] by simp
  finally show ?thesis using t by simp
qed

section \<open>Interfaces\<close>

subsection \<open>Updates that keep the primary key\<close>

locale row_update =
  fixes key :: "'r \<Rightarrow> uuid" and f :: "'r \<Rightarrow> 'r"
  assumes key_kept: "key (f r) = key r"
begin

lemma keys_update_where: "map key (update_where P f T) = map key T"
  by (induction T) (simp_all add: key_kept)

lemma distinct_update_where: "distinct (map key (update_where P f T)) = distinct (map key T)"
  by (simp add: keys_update_where)

lemma row_by_id_update_where:
  "row_by_id key i (update_where P f T) =
     map_option (\<lambda>r. if P r then f r else r) (row_by_id key i T)"
  by (induction T) (auto simp: row_by_id_def key_kept)

end

lemma keys_write_row [simp]: "map key (write_row key q T) = map key T"
  by (induction T) (auto simp: write_row_def)

lemma key_image_write_row [simp]: "key ` set (write_row key q T) = key ` set T"
proof -
  have "set (map key (write_row key q T)) = set (map key T)" by (simp only: keys_write_row)
  then show ?thesis by (simp only: set_map)
qed

lemma row_by_id_write_row [row_simps]:
  "row_by_id key i (write_row key q T) =
     (if i = key q then (if i \<in> key ` set T then Some q else None) else row_by_id key i T)"
  by (induction T) (auto simp: row_by_id_def write_row_def)

subsection \<open>Operations that keep an invariant\<close>

locale invariant_system =
  fixes step :: "'s \<Rightarrow> 'e \<Rightarrow> 's" and inv :: "'s \<Rightarrow> bool"
  assumes step_inv: "inv s \<Longrightarrow> inv (step s e)"
begin

lemma run_inv: "inv s \<Longrightarrow> inv (foldl step s es)"
  by (induction es arbitrary: s) (auto intro: step_inv)

lemma run_prefix_inv: "inv s \<Longrightarrow> inv (foldl step s (take n es))"
  by (rule run_inv)

end

subsection \<open>Stores whose writes are fenced by ownership\<close>

text \<open>
  \<open>holder s k\<close> is the owner recorded for resource \<open>k\<close>. An event \<open>e\<close> with \<open>acts e o k\<close> is a write
  of owner \<open>o\<close> to \<open>k\<close>; an event with \<open>grants e o\<close> may make \<open>o\<close> the holder of something. The store
  promises that a write of a non-holder changes nothing, and that only granting events create a
  holder. The client's lemma: an owner that lost its resource stays harmless until it is granted
  the resource again, whatever else happens in between.
\<close>

locale fenced_store = invariant_system step inv
  for step :: "'s \<Rightarrow> 'e \<Rightarrow> 's" and inv :: "'s \<Rightarrow> bool" +
  fixes holder :: "'s \<Rightarrow> 'k \<Rightarrow> 'o option"
    and acts :: "'e \<Rightarrow> 'o \<Rightarrow> 'k \<Rightarrow> bool"
    and grants :: "'e \<Rightarrow> 'o \<Rightarrow> bool"
  assumes fenced: "inv s \<Longrightarrow> acts e w k \<Longrightarrow> holder s k \<noteq> Some w \<Longrightarrow> step s e = s"
    and granted: "inv s \<Longrightarrow> \<not> grants e w \<Longrightarrow> holder s k \<noteq> Some w \<Longrightarrow> holder (step s e) k \<noteq> Some w"
begin

lemma lost_stays_lost:
  "inv s \<Longrightarrow> holder s k \<noteq> Some w \<Longrightarrow> (\<forall>e \<in> set es. \<not> grants e w) \<Longrightarrow>
     holder (foldl step s es) k \<noteq> Some w"
  by (induction es arbitrary: s) (auto dest: granted intro: step_inv)

lemma stale_owner_harmless:
  assumes "inv s" and "holder s k \<noteq> Some w" and "\<forall>e \<in> set es. \<not> grants e w" and "acts e w k"
  shows "step (foldl step s es) e = foldl step s es"
  using fenced [OF run_inv [OF assms(1)] assms(4)] lost_stays_lost [OF assms(1-3)] by blast

end

section \<open>Strings\<close>

text \<open>
  A string is the list of its code points, for code points below 256. \<open>py_space\<close> is
  \<^verbatim>\<open>str.isspace\<close> on them, \<open>py_split\<close> is \<^verbatim>\<open>str.split()\<close> and \<open>py_strip\<close> is \<^verbatim>\<open>str.strip()\<close>.
\<close>

definition py_space :: "char \<Rightarrow> bool" where
  "py_space c = (of_char c \<in> {9, 10, 11, 12, 13, 28, 29, 30, 31, 32, 133, 160 :: nat})"

fun split_words :: "string \<Rightarrow> string \<Rightarrow> string list" where
  "split_words acc [] = (if acc = [] then [] else [rev acc])"
| "split_words acc (c # cs) =
     (if py_space c then (if acc = [] then split_words [] cs else rev acc # split_words [] cs)
      else split_words (c # acc) cs)"

definition py_split :: "string \<Rightarrow> string list" where
  "py_split s = split_words [] s"

fun join_with :: "string \<Rightarrow> string list \<Rightarrow> string" where
  "join_with sep [] = []"
| "join_with sep [w] = w"
| "join_with sep (w # v # ws) = w @ sep @ join_with sep (v # ws)"

definition collapse_whitespace :: "string \<Rightarrow> string" where
  "collapse_whitespace s = join_with '' '' (py_split s)"

definition py_strip :: "string \<Rightarrow> string" where
  "py_strip s = rev (dropWhile py_space (rev (dropWhile py_space s)))"

text \<open>\<open>py_lower\<close> is \<^verbatim>\<open>str.lower()\<close> on code points below 256.\<close>

definition lower_char :: "char \<Rightarrow> char" where
  "lower_char c =
     (let n = (of_char c :: nat)
      in if (65 \<le> n \<and> n \<le> 90) \<or> (192 \<le> n \<and> n \<le> 222 \<and> n \<noteq> 215) then char_of (n + 32) else c)"

definition py_lower :: "string \<Rightarrow> string" where
  "py_lower s = map lower_char s"

text \<open>A CITEXT column compares without regard to case.\<close>

definition citext_eq :: "string \<Rightarrow> string \<Rightarrow> bool" where
  "citext_eq a b \<longleftrightarrow> py_lower a = py_lower b"

text \<open>
  \<^verbatim>\<open>validate_email\<close>: an \<^verbatim>\<open>@\<close> inside, and a dot inside the part after the first one.
\<close>

definition email_domain :: "string \<Rightarrow> string" where
  "email_domain s = drop 1 (dropWhile (\<lambda>c. c \<noteq> CHR ''@'') s)"

definition validate_email :: "string \<Rightarrow> app_error + unit" where
  "validate_email s =
     (if CHR ''@'' \<notin> set s \<or> hd s = CHR ''@'' \<or> last s = CHR ''@''
      then Inl (AppValidationError ''Invalid email address'')
      else if takeWhile (\<lambda>c. c \<noteq> CHR ''@'') s = [] \<or> CHR ''.'' \<notin> set (email_domain s) \<or>
              hd (email_domain s) = CHR ''.'' \<or> last (email_domain s) = CHR ''.''
      then Inl (AppValidationError ''Invalid email address'')
      else Inr ())"

text \<open>\<^verbatim>\<open>s.startswith(p)\<close>, \<^verbatim>\<open>s.endswith(p)\<close>, \<^verbatim>\<open>p in s\<close>, \<^verbatim>\<open>s.split(c)\<close> and \<^verbatim>\<open>s.strip(c)\<close> for one character.\<close>

definition starts_with :: "string \<Rightarrow> string \<Rightarrow> bool" where
  "starts_with p s \<longleftrightarrow> take (length p) s = p"

definition ends_with :: "string \<Rightarrow> string \<Rightarrow> bool" where
  "ends_with p s \<longleftrightarrow> starts_with (rev p) (rev s)"

fun contains_text :: "string \<Rightarrow> string \<Rightarrow> bool" where
  "contains_text p [] = (p = [])"
| "contains_text p (c # s) = (starts_with p (c # s) \<or> contains_text p s)"

fun split_on :: "char \<Rightarrow> string \<Rightarrow> string list" where
  "split_on c [] = [[]]"
| "split_on c (x # s) =
     (if x = c then [] # split_on c s
      else case split_on c s of [] \<Rightarrow> [[x]] | w # ws \<Rightarrow> (x # w) # ws)"

definition rstrip_char :: "char \<Rightarrow> string \<Rightarrow> string" where
  "rstrip_char c s = rev (dropWhile ((=) c) (rev s))"

definition strip_char :: "char \<Rightarrow> string \<Rightarrow> string" where
  "strip_char c s = rstrip_char c (dropWhile ((=) c) s)"

text \<open>\<open>nat_text\<close> is the decimal numeral of a counter.\<close>

fun nat_text :: "nat \<Rightarrow> string" where
  "nat_text n = (if n < 10 then [char_of (48 + n)] else nat_text (n div 10) @ [char_of (48 + n mod 10)])"

declare nat_text.simps [simp del]

lemma split_words_word:
  "\<forall>c \<in> set acc. \<not> py_space c \<Longrightarrow>
     \<forall>w \<in> set (split_words acc s). w \<noteq> [] \<and> (\<forall>c \<in> set w. \<not> py_space c)"
proof (induction s arbitrary: acc)
  case Nil
  then show ?case by simp
next
  case (Cons c cs)
  have fresh: "\<forall>w \<in> set (split_words [] cs). w \<noteq> [] \<and> (\<forall>c \<in> set w. \<not> py_space c)"
    by (rule Cons.IH) simp
  show ?case
  proof (cases "py_space c")
    case True
    with fresh Cons.prems show ?thesis by simp
  next
    case False
    with Cons.prems have "\<forall>x \<in> set (c # acc). \<not> py_space x" by simp
    then have "\<forall>w \<in> set (split_words (c # acc) cs). w \<noteq> [] \<and> (\<forall>c \<in> set w. \<not> py_space c)"
      by (rule Cons.IH)
    with False show ?thesis by simp
  qed
qed

lemma py_split_word: "w \<in> set (py_split s) \<Longrightarrow> w \<noteq> [] \<and> (\<forall>c \<in> set w. \<not> py_space c)"
  using split_words_word [of "[]" s] by (simp add: py_split_def)

lemma set_join_with: "set (join_with sep ws) \<subseteq> set sep \<union> (\<Union>w \<in> set ws. set w)"
  by (induction sep ws rule: join_with.induct) auto

lemma join_with_eq_Nil: "join_with sep ws = [] \<Longrightarrow> \<forall>w \<in> set ws. w \<noteq> [] \<Longrightarrow> ws = []"
  by (induction sep ws rule: join_with.induct) auto

lemma split_words_Nil: "split_words acc s = [] \<longleftrightarrow> acc = [] \<and> (\<forall>c \<in> set s. py_space c)"
  by (induction acc s rule: split_words.induct) auto

lemma collapse_whitespace_eq_Nil: "collapse_whitespace s = [] \<longleftrightarrow> (\<forall>c \<in> set s. py_space c)"
proof -
  have "collapse_whitespace s = [] \<longleftrightarrow> py_split s = []"
    using join_with_eq_Nil [of "'' ''" "py_split s"] py_split_word [of _ s]
    by (auto simp: collapse_whitespace_def)
  then show ?thesis by (simp add: py_split_def split_words_Nil)
qed

lemma collapse_whitespace_only_blank:
  assumes "c \<in> set (collapse_whitespace s)" and "py_space c"
  shows "c = CHR '' ''"
proof -
  have "c \<in> set '' '' \<union> (\<Union>w \<in> set (py_split s). set w)"
    using assms(1) set_join_with unfolding collapse_whitespace_def by blast
  moreover have "c \<notin> (\<Union>w \<in> set (py_split s). set w)"
    using assms(2) py_split_word by blast
  ultimately show ?thesis by simp
qed

text \<open>
  Three services carry their own copy of \<^verbatim>\<open>sanitize_error_message\<close> with the same body; each
  component declares its copy over this function.
\<close>

definition concise_message :: "nat \<Rightarrow> string option \<Rightarrow> string option" where
  "concise_message limit message =
     (case message of
        None \<Rightarrow> None
      | Some m \<Rightarrow>
          (let normalized = collapse_whitespace m
           in if normalized = [] then None else Some (take limit normalized)))"

lemma concise_message_None:
  "concise_message n m = None \<longleftrightarrow> (m = None \<or> (\<exists>s. m = Some s \<and> (\<forall>c \<in> set s. py_space c)))"
  by (auto simp: concise_message_def Let_def collapse_whitespace_eq_Nil split: option.splits)

lemma concise_message_Some:
  assumes "concise_message n m = Some r" and "0 < n"
  shows "r \<noteq> []" and "length r \<le> n" and "\<And>c. c \<in> set r \<Longrightarrow> py_space c \<Longrightarrow> c = CHR '' ''"
proof -
  from assms(1) obtain s where s: "r = take n (collapse_whitespace s)"
    and ne: "collapse_whitespace s \<noteq> []"
    by (auto simp: concise_message_def Let_def split: option.splits if_splits)
  show "r \<noteq> []" using s ne assms(2) by simp
  show "length r \<le> n" using s by simp
  show "c = CHR '' ''" if "c \<in> set r" and "py_space c" for c
    using that s by (auto dest: in_set_takeD intro: collapse_whitespace_only_blank)
qed

section \<open>JSON values and dictionaries\<close>

text \<open>
  A JSON column. Numbers are integers: none of the modelled code stores a float in JSON. An
  object is a Python dict, which keeps its keys in insertion order: \<open>AList.update\<close> replaces a
  value in place or appends the pair, as item assignment does, and \<open>AList.delete\<close> is \<^verbatim>\<open>pop(k, None)\<close>.
\<close>

datatype json =
    JNull
  | JBool bool
  | JInt int
  | JStr string
  | JArr "json list"
  | JObj "(string \<times> json) list"

type_synonym pydict = "(string \<times> json) list"

definition dict_get :: "pydict \<Rightarrow> string \<Rightarrow> json option" where
  "dict_get d k = map_of d k"

definition dict_set :: "string \<Rightarrow> json \<Rightarrow> pydict \<Rightarrow> pydict" where
  "dict_set k v d = AList.update k v d"

definition dict_pop :: "string \<Rightarrow> pydict \<Rightarrow> pydict" where
  "dict_pop k d = AList.delete k d"

lemma dict_get_set [simp]: "dict_get (dict_set k v d) j = (if j = k then Some v else dict_get d j)"
  by (simp add: dict_get_def dict_set_def update_conv')

lemma dict_get_pop [simp]: "dict_get (dict_pop k d) j = (if j = k then None else dict_get d j)"
  by (simp add: dict_get_def dict_pop_def delete_conv')

lemma dict_get_Nil [simp]: "dict_get [] k = None"
  by (simp add: dict_get_def)

text \<open>
  The number of bytes of \<^verbatim>\<open>json.dumps(v, ensure_ascii=False)\<close> in UTF-8, with the default separators:
  a quote, a backslash and the named control characters take two bytes, the other control
  characters six, and code points from 128 to 255 two. The order of the keys does not matter.
\<close>

definition json_char_bytes :: "char \<Rightarrow> nat" where
  "json_char_bytes c =
     (let n = (of_char c :: nat)
      in if n = 34 \<or> n = 92 \<or> n \<in> {8, 9, 10, 12, 13} then 2
         else if n < 32 then 6 else if n < 128 then 1 else 2)"

definition json_string_bytes :: "string \<Rightarrow> nat" where
  "json_string_bytes s = 2 + sum_list (map json_char_bytes s)"

fun decimal_digits :: "nat \<Rightarrow> nat" where
  "decimal_digits n = (if n < 10 then 1 else 1 + decimal_digits (n div 10))"

declare decimal_digits.simps [simp del]

fun json_bytes :: "json \<Rightarrow> nat" where
  "json_bytes JNull = 4"
| "json_bytes (JBool b) = (if b then 4 else 5)"
| "json_bytes (JInt n) = (if n < 0 then 1 else 0) + decimal_digits (nat \<bar>n\<bar>)"
| "json_bytes (JStr s) = json_string_bytes s"
| "json_bytes (JArr xs) = 2 + sum_list (map json_bytes xs) + 2 * (length xs - 1)"
| "json_bytes (JObj d) =
     2 + sum_list (map (\<lambda>(k, v). json_string_bytes k + 2 + json_bytes v) d) + 2 * (length d - 1)"

text \<open>\<^verbatim>\<open>(run.metadata_json or {})\<close>: a NULL column and an empty object read alike.\<close>

definition or_empty :: "pydict option \<Rightarrow> pydict" where
  "or_empty m = (case m of None \<Rightarrow> [] | Some d \<Rightarrow> d)"

lemma or_empty_simps [simp]: "or_empty None = []" "or_empty (Some d) = d"
  by (simp_all add: or_empty_def)

end
