(* ===== verification/Settings.thy ===== *)
theory Settings
  imports Prelude
begin

text \<open>
  The settings the modelled services read (\<^verbatim>\<open>core/settings\<close>), one record per settings mixin, with the
  defaults the source declares and the bounds its \<^verbatim>\<open>Field\<close> declarations enforce at start-up. Every
  operation that reads \<^verbatim>\<open>settings.X\<close> takes the record as an argument.
\<close>

record job_settings =
  JOBS_WORKER_BATCH_SIZE :: int
  JOBS_LOCK_TTL_SECONDS :: int
  JOBS_DEFAULT_MAX_ATTEMPTS :: int
  JOBS_RETRY_BACKOFF_BASE_SECONDS :: int
  JOBS_RETRY_BACKOFF_CAP_SECONDS :: int
  JOBS_TERMINAL_RETENTION_DAYS :: int
  JOBS_SWEEP_INTERVAL_SECONDS :: int
  JOBS_WORKSPACE_CONCURRENCY_LIMIT :: int

definition default_job_settings :: job_settings where
  "default_job_settings =
     \<lparr>JOBS_WORKER_BATCH_SIZE = 10, JOBS_LOCK_TTL_SECONDS = 300, JOBS_DEFAULT_MAX_ATTEMPTS = 5,
      JOBS_RETRY_BACKOFF_BASE_SECONDS = 30, JOBS_RETRY_BACKOFF_CAP_SECONDS = 3600,
      JOBS_TERMINAL_RETENTION_DAYS = 30, JOBS_SWEEP_INTERVAL_SECONDS = 3600,
      JOBS_WORKSPACE_CONCURRENCY_LIMIT = 4\<rparr>"

definition valid_job_settings :: "job_settings \<Rightarrow> bool" where
  "valid_job_settings cfg \<longleftrightarrow>
     JOBS_WORKER_BATCH_SIZE cfg > 0 \<and> JOBS_LOCK_TTL_SECONDS cfg > 0 \<and>
     JOBS_DEFAULT_MAX_ATTEMPTS cfg > 0 \<and> JOBS_RETRY_BACKOFF_BASE_SECONDS cfg > 0 \<and>
     JOBS_RETRY_BACKOFF_CAP_SECONDS cfg > 0 \<and> JOBS_TERMINAL_RETENTION_DAYS cfg > 0 \<and>
     JOBS_SWEEP_INTERVAL_SECONDS cfg > 0 \<and> JOBS_WORKSPACE_CONCURRENCY_LIMIT cfg > 0"

lemma valid_default_job_settings [simp]: "valid_job_settings default_job_settings"
  by (simp add: valid_job_settings_def default_job_settings_def)

datatype side_effect_policy = Allow | RequireApproval | Deny

record agent_settings =
  AGENT_SCHEDULE_RUN_CLAIM_TTL_SECONDS :: int
  AGENT_SCHEDULE_RUN_MAX_ATTEMPTS :: int
  AGENT_RUN_LEASE_TTL_SECONDS :: int
  AGENT_RUN_MAX_DURATION_SECONDS :: int
  AGENT_RUN_PENDING_GRACE_SECONDS :: int
  AGENT_RUN_APPROVAL_EXPIRY_DAYS :: int
  AGENT_TOOL_RESULT_MAX_CHARS :: "int option"
  AGENT_SCHEDULED_SIDE_EFFECT_POLICY :: side_effect_policy
  AGENT_MAX_DELEGATION_DEPTH :: int

definition default_agent_settings :: agent_settings where
  "default_agent_settings =
     \<lparr>AGENT_SCHEDULE_RUN_CLAIM_TTL_SECONDS = 300, AGENT_SCHEDULE_RUN_MAX_ATTEMPTS = 3,
      AGENT_RUN_LEASE_TTL_SECONDS = 90, AGENT_RUN_MAX_DURATION_SECONDS = 1200,
      AGENT_RUN_PENDING_GRACE_SECONDS = 60, AGENT_RUN_APPROVAL_EXPIRY_DAYS = 7,
      AGENT_TOOL_RESULT_MAX_CHARS = Some 16000,
      AGENT_SCHEDULED_SIDE_EFFECT_POLICY = RequireApproval, AGENT_MAX_DELEGATION_DEPTH = 1\<rparr>"

definition valid_agent_settings :: "agent_settings \<Rightarrow> bool" where
  "valid_agent_settings cfg \<longleftrightarrow>
     AGENT_SCHEDULE_RUN_CLAIM_TTL_SECONDS cfg > 0 \<and> AGENT_SCHEDULE_RUN_MAX_ATTEMPTS cfg > 0 \<and>
     AGENT_RUN_LEASE_TTL_SECONDS cfg > 0 \<and> AGENT_RUN_MAX_DURATION_SECONDS cfg > 0 \<and>
     AGENT_RUN_PENDING_GRACE_SECONDS cfg > 0 \<and> AGENT_RUN_APPROVAL_EXPIRY_DAYS cfg \<ge> 0 \<and>
     (case AGENT_TOOL_RESULT_MAX_CHARS cfg of None \<Rightarrow> True | Some n \<Rightarrow> n > 0) \<and>
     0 \<le> AGENT_MAX_DELEGATION_DEPTH cfg \<and> AGENT_MAX_DELEGATION_DEPTH cfg \<le> 1"

lemma valid_default_agent_settings [simp]: "valid_agent_settings default_agent_settings"
  by (simp add: valid_agent_settings_def default_agent_settings_def)

record rate_limit_settings =
  RATE_LIMIT_ENABLED :: bool
  RATE_LIMIT_REQUESTS_PER_MINUTE :: int
  RATE_LIMIT_REQUESTS_PER_HOUR :: int
  RATE_LIMIT_LOGIN_ATTEMPTS_PER_HOUR :: int
  RATE_LIMIT_REGISTRATION_PER_DAY :: int
  RATE_LIMIT_PASSWORD_RESET_PER_DAY :: int
  RATE_LIMIT_RETENTION_SECONDS :: int

definition default_rate_limit_settings :: rate_limit_settings where
  "default_rate_limit_settings =
     \<lparr>RATE_LIMIT_ENABLED = True, RATE_LIMIT_REQUESTS_PER_MINUTE = 60,
      RATE_LIMIT_REQUESTS_PER_HOUR = 1000, RATE_LIMIT_LOGIN_ATTEMPTS_PER_HOUR = 5,
      RATE_LIMIT_REGISTRATION_PER_DAY = 3, RATE_LIMIT_PASSWORD_RESET_PER_DAY = 3,
      RATE_LIMIT_RETENTION_SECONDS = 172800\<rparr>"

definition valid_rate_limit_settings :: "rate_limit_settings \<Rightarrow> bool" where
  "valid_rate_limit_settings cfg \<longleftrightarrow>
     1 \<le> RATE_LIMIT_REQUESTS_PER_MINUTE cfg \<and> RATE_LIMIT_REQUESTS_PER_MINUTE cfg \<le> 1000 \<and>
     1 \<le> RATE_LIMIT_REQUESTS_PER_HOUR cfg \<and> RATE_LIMIT_REQUESTS_PER_HOUR cfg \<le> 10000 \<and>
     1 \<le> RATE_LIMIT_LOGIN_ATTEMPTS_PER_HOUR cfg \<and> RATE_LIMIT_LOGIN_ATTEMPTS_PER_HOUR cfg \<le> 20 \<and>
     1 \<le> RATE_LIMIT_REGISTRATION_PER_DAY cfg \<and> RATE_LIMIT_REGISTRATION_PER_DAY cfg \<le> 10 \<and>
     1 \<le> RATE_LIMIT_PASSWORD_RESET_PER_DAY cfg \<and> RATE_LIMIT_PASSWORD_RESET_PER_DAY cfg \<le> 10 \<and>
     86400 \<le> RATE_LIMIT_RETENTION_SECONDS cfg"

lemma valid_default_rate_limit_settings [simp]: "valid_rate_limit_settings default_rate_limit_settings"
  by (simp add: valid_rate_limit_settings_def default_rate_limit_settings_def)

record auth_settings =
  SESSION_DURATION_DAYS :: int
  SECURITY_LOCKOUT_DURATION_MINUTES :: int
  SECURITY_SUSPICIOUS_ACTIVITY_THRESHOLD :: int
  EMAIL_AUTH_ENABLED :: bool
  ALLOW_SIGNUP :: bool
  super_admin_emails_list :: "string list"

definition default_auth_settings :: auth_settings where
  "default_auth_settings =
     \<lparr>SESSION_DURATION_DAYS = 7, SECURITY_LOCKOUT_DURATION_MINUTES = 60,
      SECURITY_SUSPICIOUS_ACTIVITY_THRESHOLD = 10, EMAIL_AUTH_ENABLED = True, ALLOW_SIGNUP = True,
      super_admin_emails_list = []\<rparr>"

definition valid_auth_settings :: "auth_settings \<Rightarrow> bool" where
  "valid_auth_settings cfg \<longleftrightarrow>
     1 \<le> SESSION_DURATION_DAYS cfg \<and> SESSION_DURATION_DAYS cfg \<le> 30 \<and>
     5 \<le> SECURITY_LOCKOUT_DURATION_MINUTES cfg \<and> SECURITY_LOCKOUT_DURATION_MINUTES cfg \<le> 1440 \<and>
     3 \<le> SECURITY_SUSPICIOUS_ACTIVITY_THRESHOLD cfg \<and> SECURITY_SUSPICIOUS_ACTIVITY_THRESHOLD cfg \<le> 50"

lemma valid_default_auth_settings [simp]: "valid_auth_settings default_auth_settings"
  by (simp add: valid_auth_settings_def default_auth_settings_def)

end
