(* ===== verification/Jobs.thy ===== *)
theory Jobs
  imports Settings
begin

text \<open>
  The background job queue (\<^verbatim>\<open>services/jobs\<close>, \<^verbatim>\<open>models/jobs.py\<close>): kinds and handler registration,
  enqueueing with in-flight deduplication, claiming under row locks with a concurrency limit per
  workspace or user, lease renewal, finalising an attempt, and reclaiming expired leases.

  The state of the queue is the list of \<^verbatim>\<open>jobs\<close> rows together with the notifications that a terminal
  failure writes. A row lock held by another transaction is the argument \<open>unlocked\<close>; the hash of
  \<^verbatim>\<open>hashlib\<close> and the JSON encoder are the arguments \<open>sha256\<close> and \<open>encode\<close>; the random jitter is an
  argument.
\<close>

section \<open>Data\<close>

datatype job_status = JobPending | JobRunning | JobSucceeded | JobFailed | JobCancelled

record job =
  j_id :: uuid
  j_workspace_id :: "uuid option"
  j_concurrency_user_id :: "uuid option"
  j_kind :: string
  j_subject_type :: "string option"
  j_subject_id :: "uuid option"
  j_content_hash :: string
  j_payload :: pydict
  j_priority :: int
  j_status :: job_status
  j_run_after :: timestamp
  j_attempts :: int
  j_max_attempts :: int
  j_locked_by :: "string option"
  j_locked_at :: "timestamp option"
  j_lock_expires_at :: "timestamp option"
  j_initiated_by_user_id :: "uuid option"
  j_last_error_code :: "string option"
  j_last_error_message :: "string option"
  j_finished_at :: "timestamp option"
  j_created_at :: timestamp

text \<open>The row-level CHECK constraints of the table.\<close>

definition job_checks :: "job \<Rightarrow> bool" where
  "job_checks j \<longleftrightarrow> j_attempts j \<ge> 0 \<and> j_max_attempts j > 0 \<and>
     (j_workspace_id j = None \<or> j_concurrency_user_id j = None)"

text \<open>
  The expression list of the unique index \<^verbatim>\<open>uq_jobs_in_flight\<close>: it coalesces a NULL subject type with
  the empty string. (The text of a UUID is never empty, so coalescing the UUID columns is injective.)
\<close>

definition in_flight :: "job_status \<Rightarrow> bool" where
  "in_flight s \<longleftrightarrow> s = JobPending \<or> s = JobRunning"

definition terminal_job :: "job_status \<Rightarrow> bool" where
  "terminal_job s \<longleftrightarrow> s = JobSucceeded \<or> s = JobFailed \<or> s = JobCancelled"

definition in_flight_key ::
    "job \<Rightarrow> uuid option \<times> uuid option \<times> string \<times> string \<times> uuid option \<times> string" where
  "in_flight_key j = (j_workspace_id j, j_concurrency_user_id j, j_kind j,
     if_none (j_subject_type j) [], j_subject_id j, j_content_hash j)"

record notification =
  n_type :: string
  n_title :: string
  n_body :: "string option"
  n_job_id :: uuid
  n_kind :: string
  n_error_code :: string
  n_recipient_user_id :: uuid
  n_workspace_id :: "uuid option"
  n_source :: string

record job_db =
  jobs :: "job list"
  notifications :: "notification list"

section \<open>Kinds and handler registration\<close>

definition lower_ascii :: "char \<Rightarrow> bool" where
  "lower_ascii c \<longleftrightarrow> (97 :: nat) \<le> of_char c \<and> (of_char c :: nat) \<le> 122"

definition digit_ascii :: "char \<Rightarrow> bool" where
  "digit_ascii c \<longleftrightarrow> (48 :: nat) \<le> of_char c \<and> (of_char c :: nat) \<le> 57"

definition is_valid_job_kind :: "string \<Rightarrow> bool" where
  "is_valid_job_kind kind =
     (case kind of
        [] \<Rightarrow> False
      | c # cs \<Rightarrow> lower_ascii c \<and>
          list_all (\<lambda>d. lower_ascii d \<or> digit_ascii d \<or> d = CHR ''_'' \<or> d = CHR ''.'') cs)"

record job_handler_definition =
  h_kind :: string
  h_timeout :: "rat option"
  h_max_attempts :: "int option"

type_synonym job_registry = "string \<rightharpoonup> job_handler_definition"

definition job_handler ::
    "job_registry \<Rightarrow> string \<Rightarrow> rat option \<Rightarrow> int option \<Rightarrow> bool \<Rightarrow> app_error + job_registry" where
  "job_handler registry kind timeout max_attempts is_coroutine =
     (if \<not> is_valid_job_kind kind then Inl (RuntimeError ''Invalid job kind'')
      else if kind \<in> dom registry then Inl (RuntimeError ''Duplicate job handler kind'')
      else if (case timeout of None \<Rightarrow> False | Some t \<Rightarrow> t \<le> 0)
        then Inl (RuntimeError ''Job handler timeout must be greater than zero'')
      else if (case max_attempts of None \<Rightarrow> False | Some n \<Rightarrow> n \<le> 0)
        then Inl (RuntimeError ''Job handler max_attempts must be greater than zero'')
      else if \<not> is_coroutine then Inl (RuntimeError ''Job handler must be async'')
      else Inr (registry(kind \<mapsto>
        \<lparr>h_kind = kind, h_timeout = timeout, h_max_attempts = max_attempts\<rparr>)))"

definition get_job_handler :: "job_registry \<Rightarrow> string \<Rightarrow> job_handler_definition option" where
  "get_job_handler registry kind = registry kind"

text \<open>What registration guarantees of every handler.\<close>

definition registry_ok :: "job_registry \<Rightarrow> bool" where
  "registry_ok registry \<longleftrightarrow>
     (\<forall>kind h. registry kind = Some h \<longrightarrow> is_valid_job_kind kind \<and> h_kind h = kind \<and>
        (\<forall>n. h_max_attempts h = Some n \<longrightarrow> n > 0))"

section \<open>Helpers\<close>

definition normalize_content_hash :: "(string \<Rightarrow> string) \<Rightarrow> string \<Rightarrow> string" where
  "normalize_content_hash sha256 v = (if length v \<le> 64 then v else sha256 v)"

definition sanitize_error_message :: "string option \<Rightarrow> string option" where
  "sanitize_error_message message = concise_message 1000 message"

text \<open>
  \<^verbatim>\<open>timedelta(seconds=x)\<close> rounds to the microsecond, ties to even. Seconds computed in floating
  point are modelled by the exact rational.
\<close>

definition round_half_even :: "rat \<Rightarrow> int" where
  "round_half_even x =
     (let f = \<lfloor>x\<rfloor>; d = x - of_int f
      in if d < 1 / 2 then f else if d > 1 / 2 then f + 1 else if even f then f else f + 1)"

definition timedelta_fractional :: "rat \<Rightarrow> int" where
  "timedelta_fractional s = round_half_even (s * 1000000)"

definition retry_backoff :: "job_settings \<Rightarrow> rat \<Rightarrow> int \<Rightarrow> rat" where
  "retry_backoff cfg jitter_multiplier attempts =
     (let exponent = max (attempts - 1) 0;
          base_delay = JOBS_RETRY_BACKOFF_BASE_SECONDS cfg * 2 ^ nat exponent;
          capped_delay = min base_delay (JOBS_RETRY_BACKOFF_CAP_SECONDS cfg)
      in of_int capped_delay * jitter_multiplier)"

section \<open>Enqueue\<close>

record enqueue_request =
  q_kind :: string
  q_workspace_id :: "uuid option"
  q_concurrency_user_id :: "uuid option"
  q_subject_type :: "string option"
  q_subject_id :: "uuid option"
  q_payload :: "pydict option"
  q_content_hash :: "string option"
  q_priority :: int
  q_run_after :: "timestamp option"
  q_max_attempts :: "int option"
  q_initiated_by_user_id :: "uuid option"

definition get_existing_in_flight_job :: "job list \<Rightarrow> enqueue_request \<Rightarrow> string \<Rightarrow> job option" where
  "get_existing_in_flight_job T q hash =
     find (\<lambda>j. j_kind j = q_kind q \<and> j_content_hash j = hash \<and> in_flight (j_status j) \<and>
               j_workspace_id j = q_workspace_id q \<and>
               j_concurrency_user_id j = q_concurrency_user_id q \<and>
               j_subject_type j = q_subject_type q \<and> j_subject_id j = q_subject_id q) T"

text \<open>
  \<open>in_flight_collision\<close> is a violation of the unique index by an inserted row: the flush raises
  IntegrityError and the savepoint is rolled back. A colliding primary key raises the same
  exception, but not for the in-flight index, so it is re-raised.
\<close>

definition in_flight_collision :: "job list \<Rightarrow> job \<Rightarrow> bool" where
  "in_flight_collision T j \<longleftrightarrow>
     in_flight (j_status j) \<and>
     list_ex (\<lambda>r. in_flight (j_status r) \<and> in_flight_key r = in_flight_key j) T"

definition new_job ::
    "enqueue_request \<Rightarrow> uuid \<Rightarrow> string \<Rightarrow> pydict \<Rightarrow> timestamp \<Rightarrow> int \<Rightarrow> timestamp \<Rightarrow> job" where
  "new_job q fresh hash payload scheduled_at attempts_limit now =
     \<lparr>j_id = fresh, j_workspace_id = q_workspace_id q,
      j_concurrency_user_id = q_concurrency_user_id q, j_kind = q_kind q,
      j_subject_type = q_subject_type q, j_subject_id = q_subject_id q, j_content_hash = hash,
      j_payload = payload, j_priority = q_priority q, j_status = JobPending,
      j_run_after = scheduled_at, j_attempts = 0, j_max_attempts = attempts_limit,
      j_locked_by = None, j_locked_at = None, j_lock_expires_at = None,
      j_initiated_by_user_id = q_initiated_by_user_id q, j_last_error_code = None,
      j_last_error_message = None, j_finished_at = None, j_created_at = now\<rparr>"

definition enqueue_job ::
    "job_settings \<Rightarrow> job_registry \<Rightarrow> (string \<Rightarrow> string) \<Rightarrow> (pydict \<Rightarrow> string) \<Rightarrow> timestamp \<Rightarrow> uuid \<Rightarrow>
     job list \<Rightarrow> enqueue_request \<Rightarrow> app_error + job \<times> job list" where
  "enqueue_job cfg registry sha256 encode now fresh T q =
     (case get_job_handler registry (q_kind q) of
        None \<Rightarrow> Inl (AppValidationError ''Unknown job kind'')
      | Some handler \<Rightarrow>
          (let payload = or_empty (q_payload q)
           in if q_workspace_id q \<noteq> None \<and> q_concurrency_user_id q \<noteq> None
              then Inl (AppValidationError
                ''Jobs cannot have both workspace and user concurrency owners'')
              else
                (let hash = normalize_content_hash sha256
                       (or_string (q_content_hash q) (sha256 (encode payload)))
                 in if (case q_max_attempts q of None \<Rightarrow> False | Some n \<Rightarrow> n \<le> 0)
                    then Inl (AppValidationError ''max_attempts must be greater than zero'')
                    else
                      (let attempts_limit = (case q_max_attempts q of
                             Some n \<Rightarrow> n
                           | None \<Rightarrow> or_default (h_max_attempts handler) (JOBS_DEFAULT_MAX_ATTEMPTS cfg));
                           scheduled_at = if_none (q_run_after q) now;
                           j = new_job q fresh hash payload scheduled_at attempts_limit now
                       in if fresh \<in> j_id ` set T
                          then Inl (IntegrityError ''jobs_pkey'')
                          else if in_flight_collision T j
                          then (case get_existing_in_flight_job T q hash of
                                  None \<Rightarrow> Inl (IntegrityError ''uq_jobs_in_flight'')
                                | Some existing \<Rightarrow> Inr (existing, T))
                          else Inr (j, T @ [j])))))"

section \<open>Claim\<close>

definition workspace_running_count :: "job list \<Rightarrow> uuid \<Rightarrow> nat" where
  "workspace_running_count T w =
     rowcount (\<lambda>j. j_status j = JobRunning \<and> j_workspace_id j = Some w) T"

definition user_running_count :: "job list \<Rightarrow> uuid \<Rightarrow> nat" where
  "user_running_count T u =
     rowcount (\<lambda>j. j_status j = JobRunning \<and> j_concurrency_user_id j = Some u) T"

text \<open>
  The two grouped counts reach a job through outer joins, so a group without running rows (or a
  NULL owner) contributes NULL to \<^verbatim>\<open>coalesce(workspace_count, user_count, 0)\<close>.
\<close>

definition joined_count :: "(uuid \<Rightarrow> nat) \<Rightarrow> uuid option \<Rightarrow> nat option" where
  "joined_count count owner =
     (case owner of None \<Rightarrow> None | Some w \<Rightarrow> if count w = 0 then None else Some (count w))"

definition running_count :: "job list \<Rightarrow> job \<Rightarrow> int" where
  "running_count T j =
     (case joined_count (workspace_running_count T) (j_workspace_id j) of
        Some n \<Rightarrow> int n
      | None \<Rightarrow> (case joined_count (user_running_count T) (j_concurrency_user_id j) of
                  Some n \<Rightarrow> int n
                | None \<Rightarrow> 0))"

definition has_no_concurrency_owner :: "job \<Rightarrow> bool" where
  "has_no_concurrency_owner j \<longleftrightarrow> j_workspace_id j = None \<and> j_concurrency_user_id j = None"

definition due :: "timestamp \<Rightarrow> job \<Rightarrow> bool" where
  "due now j \<longleftrightarrow> j_status j = JobPending \<and> j_run_after j \<le> now"

definition ranked_pending :: "job_settings \<Rightarrow> timestamp \<Rightarrow> job list \<Rightarrow> job \<Rightarrow> bool" where
  "ranked_pending cfg now T j \<longleftrightarrow>
     due now j \<and>
     (has_no_concurrency_owner j \<or> running_count T j < JOBS_WORKSPACE_CONCURRENCY_LIMIT cfg)"

definition same_owner :: "job \<Rightarrow> job \<Rightarrow> bool" where
  "same_owner i j \<longleftrightarrow>
     j_workspace_id i = j_workspace_id j \<and> j_concurrency_user_id i = j_concurrency_user_id j"

definition claim_order :: "job \<Rightarrow> int \<times> int \<times> int \<times> uuid" where
  "claim_order j = (j_priority j, j_run_after j, j_created_at j, j_id j)"

text \<open>
  \<^verbatim>\<open>row_number()\<close> over the rows of one owner, ordered by a key that ends in the primary key: one
  more than the number of rows of the owner that come before.
\<close>

definition owner_pending_rank :: "job_settings \<Rightarrow> timestamp \<Rightarrow> job list \<Rightarrow> job \<Rightarrow> int" where
  "owner_pending_rank cfg now T j =
     1 + int (rowcount (\<lambda>i. ranked_pending cfg now T i \<and> same_owner i j \<and>
                            claim_order i < claim_order j) T)"

definition claimable :: "job_settings \<Rightarrow> timestamp \<Rightarrow> job list \<Rightarrow> job \<Rightarrow> bool" where
  "claimable cfg now T j \<longleftrightarrow>
     ranked_pending cfg now T j \<and> due now j \<and>
     (has_no_concurrency_owner j \<or>
      owner_pending_rank cfg now T j \<le> JOBS_WORKSPACE_CONCURRENCY_LIMIT cfg - running_count T j)"

definition select_jobs_to_claim ::
    "job_settings \<Rightarrow> timestamp \<Rightarrow> int option \<Rightarrow> (uuid \<Rightarrow> bool) \<Rightarrow> job list \<Rightarrow> job list" where
  "select_jobs_to_claim cfg now batch_size unlocked T =
     take (nat (or_default batch_size (JOBS_WORKER_BATCH_SIZE cfg)))
       (filter (\<lambda>j. unlocked (j_id j))
         (sort_key (\<lambda>j. (j_priority j, j_run_after j, j_created_at j))
           (filter (claimable cfg now T) T)))"

definition claim_job :: "string \<Rightarrow> timestamp \<Rightarrow> timestamp \<Rightarrow> job \<Rightarrow> job" where
  "claim_job owner now expires_at j =
     j\<lparr>j_status := JobRunning, j_locked_by := Some owner, j_locked_at := Some now,
       j_lock_expires_at := Some expires_at, j_attempts := j_attempts j + 1,
       j_last_error_code := None, j_last_error_message := None\<rparr>"

definition claim_jobs ::
    "job_settings \<Rightarrow> string \<Rightarrow> timestamp \<Rightarrow> int option \<Rightarrow> int option \<Rightarrow> (uuid \<Rightarrow> bool) \<Rightarrow> job list \<Rightarrow>
     job list \<times> job list" where
  "claim_jobs cfg owner now batch_size lock_ttl_seconds unlocked T =
     (let selected = select_jobs_to_claim cfg now batch_size unlocked T;
          expires_at = now + timedelta_seconds (or_default lock_ttl_seconds (JOBS_LOCK_TTL_SECONDS cfg));
          ids = map j_id selected
      in (map (claim_job owner now expires_at) selected,
          update_where (\<lambda>j. j_id j \<in> set ids) (claim_job owner now expires_at) T))"

section \<open>Renew, finalise, reclaim\<close>

definition owned_running :: "uuid \<Rightarrow> string \<Rightarrow> job \<Rightarrow> bool" where
  "owned_running i owner j \<longleftrightarrow>
     j_id j = i \<and> j_status j = JobRunning \<and> j_locked_by j = Some owner"

definition renew_job_lease ::
    "job_settings \<Rightarrow> uuid \<Rightarrow> string \<Rightarrow> timestamp \<Rightarrow> rat option \<Rightarrow> job list \<Rightarrow> bool \<times> job list" where
  "renew_job_lease cfg i owner now lock_ttl_seconds T =
     (let ttl = if_none lock_ttl_seconds (of_int (JOBS_LOCK_TTL_SECONDS cfg))
      in (rowcount (owned_running i owner) T \<noteq> 0,
          update_where (owned_running i owner)
            (\<lambda>j. j\<lparr>j_lock_expires_at := Some (now + timedelta_fractional ttl)\<rparr>) T))"

definition succeed_job :: "timestamp \<Rightarrow> job \<Rightarrow> job" where
  "succeed_job now j =
     j\<lparr>j_status := JobSucceeded, j_finished_at := Some now, j_locked_by := None,
       j_locked_at := None, j_lock_expires_at := None, j_last_error_code := None,
       j_last_error_message := None\<rparr>"

definition finalize_job_success :: "uuid \<Rightarrow> string \<Rightarrow> timestamp \<Rightarrow> job list \<Rightarrow> bool \<times> job list" where
  "finalize_job_success i owner now T =
     (rowcount (owned_running i owner) T \<noteq> 0,
      update_where (owned_running i owner) (succeed_job now) T)"

definition fail_job ::
    "job_settings \<Rightarrow> rat \<Rightarrow> timestamp \<Rightarrow> int \<Rightarrow> string \<Rightarrow> string option \<Rightarrow> bool \<Rightarrow> job \<Rightarrow> job" where
  "fail_job cfg jitter now attempts error_code error_message terminal j =
     (let failed = j\<lparr>j_last_error_code := Some error_code, j_last_error_message := error_message,
            j_locked_by := None, j_locked_at := None, j_lock_expires_at := None,
            j_status := (if terminal then JobFailed else JobPending),
            j_finished_at := (if terminal then Some now else None)\<rparr>
      in if terminal then failed
         else failed\<lparr>j_run_after := now + timedelta_fractional
                (retry_backoff cfg jitter (if attempts = 0 then 1 else attempts))\<rparr>)"

text \<open>
  \<open>job\<close> is the loaded object the caller holds: its attempt counters decide whether the failure is
  terminal, while the guarded UPDATE decides whether the attempt is still owned. The result is
  None after the ownership was lost, as in the source.
\<close>

definition finalize_job_failure ::
    "job_settings \<Rightarrow> rat \<Rightarrow> job \<Rightarrow> string \<Rightarrow> string \<Rightarrow> string option \<Rightarrow> timestamp \<Rightarrow> bool \<Rightarrow> job_db \<Rightarrow>
     bool option \<times> job_db" where
  "finalize_job_failure cfg jitter job owner code message now force_terminal db =
     (let error_code = take 64 code;
          error_message = sanitize_error_message message;
          terminal = (force_terminal \<or> j_attempts job \<ge> j_max_attempts job);
          guard = owned_running (j_id job) owner;
          rows = update_where guard
            (fail_job cfg jitter now (j_attempts job) error_code error_message terminal) (jobs db)
      in if rowcount guard (jobs db) = 0 then (None, db)
         else if terminal then
           (Some True,
            db\<lparr>jobs := rows,
               notifications := (case j_initiated_by_user_id job of
                   None \<Rightarrow> notifications db
                 | Some user \<Rightarrow> notifications db @
                     [\<lparr>n_type = ''job_failed'', n_title = ''Background job failed'',
                       n_body = error_message, n_job_id = j_id job, n_kind = j_kind job,
                       n_error_code = error_code, n_recipient_user_id = user,
                       n_workspace_id = j_workspace_id job, n_source = ''jobs''\<rparr>])\<rparr>)
         else (Some False, db\<lparr>jobs := rows\<rparr>))"

definition lease_expired :: "timestamp \<Rightarrow> job \<Rightarrow> bool" where
  "lease_expired now j \<longleftrightarrow> j_status j = JobRunning \<and> null_lt (j_lock_expires_at j) now"

fun reclaim_loop :: "job_settings \<Rightarrow> (job \<Rightarrow> rat) \<Rightarrow> timestamp \<Rightarrow> job list \<Rightarrow> nat \<Rightarrow> job_db \<Rightarrow> nat \<times> job_db" where
  "reclaim_loop cfg jitter now [] n db = (n, db)"
| "reclaim_loop cfg jitter now (j # js) n db =
     (case j_locked_by j of
        None \<Rightarrow> reclaim_loop cfg jitter now js n db
      | Some owner \<Rightarrow>
          (case finalize_job_failure cfg (jitter j) j owner ''lease_expired''
                  (Some ''Worker lease expired before job completed'') now False db of
             (None, db') \<Rightarrow> reclaim_loop cfg jitter now js n db'
           | (Some _, db') \<Rightarrow> reclaim_loop cfg jitter now js (n + 1) db'))"

definition reclaim_stale_jobs ::
    "job_settings \<Rightarrow> (job \<Rightarrow> rat) \<Rightarrow> timestamp \<Rightarrow> (uuid \<Rightarrow> bool) \<Rightarrow> job_db \<Rightarrow> nat \<times> job_db" where
  "reclaim_stale_jobs cfg jitter now unlocked db =
     reclaim_loop cfg jitter now
       (filter (\<lambda>j. unlocked (j_id j)) (filter (lease_expired now) (jobs db))) 0 db"

section \<open>Counting\<close>

definition count_in_flight_jobs ::
    "uuid option \<Rightarrow> string option \<Rightarrow> job list \<Rightarrow> (uuid option \<times> nat) list" where
  "count_in_flight_jobs workspace kind T =
     (let rows = filter (\<lambda>j. in_flight (j_status j) \<and>
            (case workspace of None \<Rightarrow> True | Some w \<Rightarrow> j_workspace_id j = Some w) \<and>
            (case kind of None \<Rightarrow> True | Some k \<Rightarrow> j_kind j = k)) T
      in map (\<lambda>w. (w, length (filter (\<lambda>j. j_workspace_id j = w) rows)))
           (remdups (map j_workspace_id rows)))"

definition log_job_concurrency_warnings :: "job_settings \<Rightarrow> job list \<Rightarrow> (uuid \<times> nat) list" where
  "log_job_concurrency_warnings cfg T =
     List.map_filter (\<lambda>(w, count).
       (case w of
          None \<Rightarrow> None
        | Some v \<Rightarrow> if int count \<le> JOBS_WORKSPACE_CONCURRENCY_LIMIT cfg then None else Some (v, count)))
       (count_in_flight_jobs None None T)"

end
