(* ===== verification/Job_Runner.thy ===== *)
theory Job_Runner
  imports Jobs
begin

text \<open>
  The worker side of the job queue (\<^verbatim>\<open>workers/job_runner.py\<close>) and the retention sweep
  (\<^verbatim>\<open>services/jobs/handlers/sweep_terminal_jobs.py\<close>).

  A handler is code that the runner only calls: it is the argument \<open>result\<close>, what happened to the
  handler task, together with \<open>work\<close>, the writes it made in the runner's session. Other transactions
  commit while a handler runs: \<open>meanwhile\<close> is what they did to the database between the runner's
  read of the job and its final write. A session that is rolled back leaves \<open>meanwhile\<close>'s database.
  The state is a pair of the job tables and of \<open>'a\<close>, every other table.
\<close>

datatype handler_result =
    HandlerReturned
  | HandlerTimedOut
  | HandlerRaised string string
  | HandlerCancelled bool bool

text \<open>
  \<open>HandlerRaised\<close> carries the class name and the text of the exception. \<open>HandlerCancelled lost shut\<close>
  is a cancellation: \<open>lost\<close> after the heartbeat set \<^verbatim>\<open>lease_lost\<close>, \<open>shut\<close> when the runner's own task
  is being cancelled.
\<close>

datatype attempt_outcome = NotExecutable | Committed | Dropped | FailureRecorded | Reraised

definition executable_claim :: "uuid \<Rightarrow> string \<Rightarrow> timestamp \<Rightarrow> job \<Rightarrow> bool" where
  "executable_claim i owner now j \<longleftrightarrow>
     j_id j = i \<and> j_status j = JobRunning \<and> j_locked_by j = Some owner \<and>
     j_lock_expires_at j \<noteq> None \<and> null_gt (j_lock_expires_at j) now"

definition claim_one_job ::
    "job_settings \<Rightarrow> string \<Rightarrow> timestamp \<Rightarrow> (uuid \<Rightarrow> bool) \<Rightarrow> job_db \<Rightarrow> uuid option \<times> job_db" where
  "claim_one_job cfg owner now unlocked db =
     (case claim_jobs cfg owner now (Some 1) (Some (JOBS_LOCK_TTL_SECONDS cfg)) unlocked (jobs db) of
        (claimed, T) \<Rightarrow>
          (if claimed = [] then None else Some (j_id (hd claimed)), db\<lparr>jobs := T\<rparr>))"

definition record_job_failure ::
    "job_settings \<Rightarrow> rat \<Rightarrow> uuid \<Rightarrow> string \<Rightarrow> string \<Rightarrow> string \<Rightarrow> timestamp \<Rightarrow> job_db \<Rightarrow> job_db" where
  "record_job_failure cfg jitter i owner code message now db =
     (case find (owned_running i owner) (jobs db) of
        None \<Rightarrow> db
      | Some job \<Rightarrow>
          (case finalize_job_failure cfg jitter job owner code (Some message) now False db of
             (None, _) \<Rightarrow> db
           | (Some terminal, db') \<Rightarrow> db'))"

text \<open>
  \<open>t0\<close>, \<open>t1\<close> and \<open>t2\<close> are the clock at the maintenance read, at the session's own read and at the
  final write.
\<close>

definition execute_claimed_job ::
    "job_settings \<Rightarrow> job_registry \<Rightarrow> rat \<Rightarrow> (job \<Rightarrow> handler_result) \<Rightarrow>
     (job_db \<times> 'a \<Rightarrow> job_db \<times> 'a) \<Rightarrow> (job_db \<times> 'a \<Rightarrow> job_db \<times> 'a) \<Rightarrow>
     uuid \<Rightarrow> string \<Rightarrow> timestamp \<Rightarrow> timestamp \<Rightarrow> timestamp \<Rightarrow> job_db \<times> 'a \<Rightarrow>
     attempt_outcome \<times> job_db \<times> 'a" where
  "execute_claimed_job cfg registry jitter result work meanwhile i owner t0 t1 t2 s =
     (case find (executable_claim i owner t0) (jobs (fst s)) of
        None \<Rightarrow> (NotExecutable, s)
      | Some claimed_job \<Rightarrow>
     (case find (executable_claim i owner t1) (jobs (fst s)) of
        None \<Rightarrow> (NotExecutable, s)
      | Some job \<Rightarrow>
     (case get_job_handler registry (j_kind job) of
        None \<Rightarrow>
          (case finalize_job_failure cfg jitter job owner ''unknown_kind''
                  (Some (''No handler is registered for job kind '' @ [CHR 39] @ j_kind job @ [CHR 39]))
                  t2 True (fst (meanwhile s)) of
             (None, _) \<Rightarrow> (Dropped, meanwhile s)
           | (Some _, db') \<Rightarrow> (FailureRecorded, db', snd (meanwhile s)))
      | Some definition \<Rightarrow>
          (case result job of
             HandlerReturned \<Rightarrow>
               (case work (meanwhile s) of
                  (db', rest) \<Rightarrow>
                    (case finalize_job_success i owner t2 (jobs db') of
                       (finalized, T) \<Rightarrow>
                         if \<not> finalized then (Dropped, meanwhile s)
                         else (Committed, db'\<lparr>jobs := T\<rparr>, rest)))
           | HandlerCancelled lost shutting_down \<Rightarrow>
               if \<not> lost \<or> shutting_down then (Reraised, meanwhile s)
               else (Dropped, meanwhile s)
           | HandlerTimedOut \<Rightarrow>
               (FailureRecorded,
                record_job_failure cfg jitter i owner ''handler_timeout''
                  (''Job handler exceeded timeout for kind '' @ [CHR 39] @ h_kind definition @ [CHR 39])
                  t2 (fst (meanwhile s)),
                snd (meanwhile s))
           | HandlerRaised class_name text \<Rightarrow>
               (FailureRecorded,
                record_job_failure cfg jitter i owner class_name
                  (if text = [] then class_name else text) t2 (fst (meanwhile s)),
                snd (meanwhile s))))))"

section \<open>The retention sweep\<close>

definition SWEEP_TERMINAL_JOBS_KIND :: string where
  "SWEEP_TERMINAL_JOBS_KIND = ''jobs.sweep_terminal''"

definition CLEANUP_KINDS :: "string list" where
  "CLEANUP_KINDS = [''platform.artifacts.cleanup_object'', ''artifacts.cleanup_copy'']"

definition sweepable :: "timestamp \<Rightarrow> job \<Rightarrow> bool" where
  "sweepable cutoff j \<longleftrightarrow>
     terminal_job (j_status j) \<and> j_finished_at j \<noteq> None \<and> null_lt (j_finished_at j) cutoff \<and>
     (j_kind j \<notin> set CLEANUP_KINDS \<or> j_status j = JobSucceeded)"

definition delete_where :: "('r \<Rightarrow> bool) \<Rightarrow> 'r list \<Rightarrow> 'r list" where
  "delete_where P T = filter (\<lambda>r. \<not> P r) T"

definition system_request :: "string \<Rightarrow> pydict option \<Rightarrow> string \<Rightarrow> timestamp \<Rightarrow> enqueue_request" where
  "system_request kind payload content_hash run_after =
     \<lparr>q_kind = kind, q_workspace_id = None, q_concurrency_user_id = None, q_subject_type = None,
      q_subject_id = None, q_payload = payload, q_content_hash = Some content_hash, q_priority = 100,
      q_run_after = Some run_after, q_max_attempts = None, q_initiated_by_user_id = None\<rparr>"

definition sweep_terminal_jobs ::
    "job_settings \<Rightarrow> job_registry \<Rightarrow> (string \<Rightarrow> string) \<Rightarrow> (pydict \<Rightarrow> string) \<Rightarrow> (uuid \<Rightarrow> string) \<Rightarrow>
     timestamp \<Rightarrow> uuid \<Rightarrow> uuid \<Rightarrow> job list \<Rightarrow> app_error + job \<times> job list" where
  "sweep_terminal_jobs cfg registry sha256 encode uuid_text now fresh i T =
     (let cutoff = now - timedelta_days (JOBS_TERMINAL_RETENTION_DAYS cfg)
      in enqueue_job cfg registry sha256 encode now fresh (delete_where (sweepable cutoff) T)
           (system_request SWEEP_TERMINAL_JOBS_KIND
              (Some [(''scheduled_by_job_id'', JStr (uuid_text i))])
              (''sweep-terminal:'' @ uuid_text i)
              (now + timedelta_seconds (JOBS_SWEEP_INTERVAL_SECONDS cfg))))"

definition ensure_sweep_job ::
    "job_settings \<Rightarrow> job_registry \<Rightarrow> (string \<Rightarrow> string) \<Rightarrow> (pydict \<Rightarrow> string) \<Rightarrow> timestamp \<Rightarrow> uuid \<Rightarrow>
     job list \<Rightarrow> app_error + job \<times> job list" where
  "ensure_sweep_job cfg registry sha256 encode now fresh T =
     (case find (\<lambda>j. j_kind j = SWEEP_TERMINAL_JOBS_KIND \<and> in_flight (j_status j)) T of
        Some existing \<Rightarrow> Inr (existing, T)
      | None \<Rightarrow> enqueue_job cfg registry sha256 encode now fresh T
          (system_request SWEEP_TERMINAL_JOBS_KIND None ''sweep-terminal:ensure'' now))"

end
