(* ===== verification/Job_Queue.thy ===== *)
theory Job_Queue
  imports Job_Runner
begin

text \<open>
  Correctness of the job queue. The invariant \<open>queue_inv\<close> says what a row's lock, attempt and
  finish columns look like in each status, that primary keys are unique and that the in-flight
  index is respected; every operation keeps it. On top of it: the concurrency limit, exact effect
  of a claim, deduplication, fencing of stale workers, and completeness of reclaiming.
\<close>

named_theorems job_simps \<open>what each row operation does to a job\<close>

section \<open>The row invariant\<close>

definition job_row_ok :: "job \<Rightarrow> bool" where
  "job_row_ok j \<longleftrightarrow> job_checks j \<and> j_attempts j \<le> j_max_attempts j \<and>
     (case j_status j of
        JobPending \<Rightarrow> j_locked_by j = None \<and> j_lock_expires_at j = None \<and> j_finished_at j = None \<and>
          j_attempts j < j_max_attempts j
      | JobRunning \<Rightarrow> j_locked_by j \<noteq> None \<and> j_lock_expires_at j \<noteq> None \<and> j_finished_at j = None \<and>
          0 < j_attempts j
      | _ \<Rightarrow> j_locked_by j = None \<and> j_lock_expires_at j = None \<and> j_finished_at j \<noteq> None)"

definition in_flight_row :: "job \<Rightarrow> bool" where
  "in_flight_row j = in_flight (j_status j)"

definition queue_inv :: "job list \<Rightarrow> bool" where
  "queue_inv T \<longleftrightarrow> distinct (map j_id T) \<and> (\<forall>j \<in> set T. job_row_ok j) \<and>
     distinct (map in_flight_key (filter in_flight_row T))"

lemma queue_invD:
  assumes "queue_inv T"
  shows "distinct (map j_id T)" and "distinct T" and "\<And>j. j \<in> set T \<Longrightarrow> job_row_ok j"
    and "\<And>j. j \<in> set T \<Longrightarrow> job_checks j"
  using assms by (auto simp: queue_inv_def job_row_ok_def distinct_map)

lemma queue_inv_same_id:
  "queue_inv T \<Longrightarrow> i \<in> set T \<Longrightarrow> j \<in> set T \<Longrightarrow> j_id i = j_id j \<Longrightarrow> i = j"
  by (rule distinct_key_eq [of j_id]) (simp_all add: queue_inv_def)

subsection \<open>What the row operations change\<close>

lemma claim_job_simps [simp, job_simps]:
  "j_id (claim_job w n e j) = j_id j"
  "j_workspace_id (claim_job w n e j) = j_workspace_id j"
  "j_concurrency_user_id (claim_job w n e j) = j_concurrency_user_id j"
  "in_flight_key (claim_job w n e j) = in_flight_key j"
  "j_status (claim_job w n e j) = JobRunning"
  "j_locked_by (claim_job w n e j) = Some w"
  "j_lock_expires_at (claim_job w n e j) = Some e"
  "j_attempts (claim_job w n e j) = j_attempts j + 1"
  "j_max_attempts (claim_job w n e j) = j_max_attempts j"
  "j_finished_at (claim_job w n e j) = j_finished_at j"
  by (simp_all add: claim_job_def in_flight_key_def)

lemma succeed_job_simps [simp, job_simps]:
  "j_id (succeed_job n j) = j_id j"
  "in_flight_key (succeed_job n j) = in_flight_key j"
  "j_status (succeed_job n j) = JobSucceeded"
  "j_locked_by (succeed_job n j) = None"
  by (simp_all add: succeed_job_def in_flight_key_def)

lemma fail_job_simps [simp, job_simps]:
  "j_id (fail_job cfg jit n a c m t j) = j_id j"
  "in_flight_key (fail_job cfg jit n a c m t j) = in_flight_key j"
  "j_status (fail_job cfg jit n a c m t j) = (if t then JobFailed else JobPending)"
  "j_locked_by (fail_job cfg jit n a c m t j) = None"
  "j_lock_expires_at (fail_job cfg jit n a c m t j) = None"
  "j_attempts (fail_job cfg jit n a c m t j) = j_attempts j"
  by (simp_all add: fail_job_def in_flight_key_def Let_def)

interpretation claim_update: row_update j_id "claim_job w n e"
  by unfold_locales simp

interpretation succeed_update: row_update j_id "succeed_job n"
  by unfold_locales simp

interpretation fail_update: row_update j_id "fail_job cfg jit n a c m t"
  by unfold_locales simp

interpretation renew_update: row_update j_id "\<lambda>j :: job. j\<lparr>j_lock_expires_at := e\<rparr>"
  by unfold_locales simp

text \<open>One lemma carries every guarded update of the table through the invariant.\<close>

lemma queue_inv_update:
  assumes "queue_inv T"
    and "\<And>j. j_id (f j) = j_id j"
    and "\<And>j. j \<in> set T \<Longrightarrow> P j \<Longrightarrow> job_row_ok (f j)"
    and "\<And>j. j \<in> set T \<Longrightarrow> P j \<Longrightarrow> in_flight_key (f j) = in_flight_key j \<and> in_flight_row j"
  shows "queue_inv (update_where P f T)"
proof -
  have ids: "map j_id (update_where P f T) = map j_id T"
    by (rule row_update.keys_update_where) (unfold_locales, rule assms(2))
  have index: "distinct (map in_flight_key (filter in_flight_row (update_where P f T)))"
    by (rule partial_index_update) (use assms(1,4) in \<open>auto simp: queue_inv_def\<close>)
  have rows: "\<forall>j \<in> set (update_where P f T). job_row_ok j"
    using assms(3) queue_invD(3) [OF assms(1)] by (auto simp: in_update_where)
  from ids index rows show ?thesis
    using queue_invD(1) [OF assms(1)] by (simp add: queue_inv_def)
qed

section \<open>Every operation keeps the invariant\<close>

lemma claimable_pending: "claimable cfg now T j \<Longrightarrow> j_status j = JobPending \<and> j_run_after j \<le> now"
  by (simp add: claimable_def due_def)

lemma selected_claimable:
  "j \<in> set (select_jobs_to_claim cfg now b unl T) \<Longrightarrow>
     j \<in> set T \<and> claimable cfg now T j \<and> unl (j_id j)"
  by (auto simp: select_jobs_to_claim_def dest!: in_set_takeD)

lemma claim_jobs_inv:
  assumes "queue_inv T"
  shows "queue_inv (snd (claim_jobs cfg w now b ttl unl T))"
proof -
  let ?ids = "map j_id (select_jobs_to_claim cfg now b unl T)"
  have pend: "j_status j = JobPending" if j: "j \<in> set T" and i: "j_id j \<in> set ?ids" for j
  proof -
    from i obtain q where "q \<in> set (select_jobs_to_claim cfg now b unl T)" and "j_id q = j_id j"
      by auto
    with j queue_inv_same_id [OF assms] have "claimable cfg now T j"
      using selected_claimable by metis
    then show ?thesis by (simp add: claimable_pending)
  qed
  have "queue_inv (update_where (\<lambda>j. j_id j \<in> set ?ids) (claim_job w now e) T)" for e
  proof (rule queue_inv_update [OF assms])
    show "job_row_ok (claim_job w now e j)" if "j \<in> set T" and "j_id j \<in> set ?ids" for j
      using queue_invD(3) [OF assms that(1)] pend [OF that]
      by (auto simp: job_row_ok_def job_checks_def)
    show "in_flight_key (claim_job w now e j) = in_flight_key j \<and> in_flight_row j"
      if "j \<in> set T" and "j_id j \<in> set ?ids" for j
      using pend [OF that] by (simp add: in_flight_row_def in_flight_def)
  qed simp
  then show ?thesis by (simp add: claim_jobs_def Let_def)
qed

lemma owned_running_iff:
  "owned_running i w j \<longleftrightarrow> j_id j = i \<and> j_status j = JobRunning \<and> j_locked_by j = Some w"
  by (simp add: owned_running_def)

lemma renew_job_lease_inv:
  assumes "queue_inv T"
  shows "queue_inv (snd (renew_job_lease cfg i w now ttl T))"
proof -
  have "queue_inv (update_where (owned_running i w) (\<lambda>j. j\<lparr>j_lock_expires_at := Some e\<rparr>) T)" for e
  proof (rule queue_inv_update [OF assms])
    show "job_row_ok (j\<lparr>j_lock_expires_at := Some e\<rparr>)"
      if "j \<in> set T" and "owned_running i w j" for j
      using queue_invD(3) [OF assms that(1)] that(2)
      by (simp add: owned_running_iff job_row_ok_def job_checks_def)
    show "in_flight_key (j\<lparr>j_lock_expires_at := Some e\<rparr>) = in_flight_key j \<and> in_flight_row j"
      if "j \<in> set T" and "owned_running i w j" for j
      using that(2) by (simp add: owned_running_iff in_flight_key_def in_flight_row_def in_flight_def)
  qed simp
  then show ?thesis by (simp add: renew_job_lease_def Let_def)
qed

lemma finalize_job_success_inv:
  assumes "queue_inv T"
  shows "queue_inv (snd (finalize_job_success i w now T))"
proof -
  have "queue_inv (update_where (owned_running i w) (succeed_job now) T)"
  proof (rule queue_inv_update [OF assms])
    show "job_row_ok (succeed_job now j)" if "j \<in> set T" and "owned_running i w j" for j
      using queue_invD(3) [OF assms that(1)] that(2)
      by (simp add: owned_running_iff job_row_ok_def job_checks_def succeed_job_def)
    show "in_flight_key (succeed_job now j) = in_flight_key j \<and> in_flight_row j"
      if "j \<in> set T" and "owned_running i w j" for j
      using that(2) by (simp add: owned_running_iff in_flight_row_def in_flight_def)
  qed simp
  then show ?thesis by (simp add: finalize_job_success_def)
qed

lemma finalize_job_failure_jobs:
  "jobs (snd (finalize_job_failure cfg jit job w c m now ft db)) =
     update_where (owned_running (j_id job) w)
       (fail_job cfg jit now (j_attempts job) (take 64 c) (sanitize_error_message m)
          (ft \<or> j_attempts job \<ge> j_max_attempts job)) (jobs db)"
  by (auto simp: finalize_job_failure_def Let_def update_where_rowcount_0)

lemma finalize_job_failure_inv:
  assumes "queue_inv (jobs db)" and "job \<in> set (jobs db)"
  shows "queue_inv (jobs (snd (finalize_job_failure cfg jit job w c m now ft db)))"
  unfolding finalize_job_failure_jobs
proof (rule queue_inv_update [OF assms(1)])
  let ?t = "ft \<or> j_attempts job \<ge> j_max_attempts job"
  let ?f = "fail_job cfg jit now (j_attempts job) (take 64 c) (sanitize_error_message m) ?t"
  show "job_row_ok (?f j)" if "j \<in> set (jobs db)" and "owned_running (j_id job) w j" for j
  proof -
    have "j = job"
      using queue_inv_same_id [OF assms(1) that(1) assms(2)] that(2) by (simp add: owned_running_iff)
    with queue_invD(3) [OF assms(1) that(1)] that(2) show ?thesis
      by (auto simp: owned_running_iff job_row_ok_def job_checks_def fail_job_def Let_def)
  qed
  show "in_flight_key (?f j) = in_flight_key j \<and> in_flight_row j"
    if "j \<in> set (jobs db)" and "owned_running (j_id job) w j" for j
    using that(2) by (simp add: owned_running_iff in_flight_row_def in_flight_def)
qed simp

text \<open>Failing one row leaves the other rows where they are.\<close>

lemma finalize_job_failure_other:
  "q \<in> set (jobs db) \<Longrightarrow> j_id q \<noteq> j_id job \<Longrightarrow>
     q \<in> set (jobs (snd (finalize_job_failure cfg jit job w c m now ft db)))"
  by (auto simp: finalize_job_failure_jobs in_update_where owned_running_iff)

text \<open>The reclaim loop: the rows still to visit are rows of the current table.\<close>

lemma reclaim_loop_inv:
  assumes "queue_inv (jobs db)" and "set js \<subseteq> set (jobs db)" and "distinct (map j_id js)"
  shows "queue_inv (jobs (snd (reclaim_loop cfg jit now js n db)))"
  using assms
proof (induction js arbitrary: n db)
  case Nil
  then show ?case by simp
next
  case (Cons j js)
  show ?case
  proof (cases "j_locked_by j")
    case None
    with Cons show ?thesis by simp
  next
    case (Some w)
    let ?m = "Some ''Worker lease expired before job completed''"
    obtain r db' where fin:
      "finalize_job_failure cfg (jit j) j w ''lease_expired'' ?m now False db = (r, db')"
      by fastforce
    then have db': "db' = snd (finalize_job_failure cfg (jit j) j w ''lease_expired'' ?m now False db)"
      by simp
    have inv: "queue_inv (jobs db')"
      unfolding db' using Cons.prems by (intro finalize_job_failure_inv) simp_all
    have "q \<in> set (jobs db')" if q: "q \<in> set js" for q
    proof -
      have "j_id q \<in> set (map j_id js)" using q by simp
      then have "j_id q \<noteq> j_id j" using Cons.prems(3) by auto
      moreover have "q \<in> set (jobs db)" using q Cons.prems(2) by auto
      ultimately show ?thesis unfolding db' by (intro finalize_job_failure_other)
    qed
    then have "set js \<subseteq> set (jobs db')" by blast
    with Cons.IH [OF inv] Cons.prems(3) Some fin show ?thesis
      by (cases r) simp_all
  qed
qed

lemma stale_rows:
  "set (filter (\<lambda>j. unl (j_id j)) (filter (lease_expired now) T)) \<subseteq> set T"
  "distinct (map j_id T) \<Longrightarrow>
     distinct (map j_id (filter (\<lambda>j. unl (j_id j)) (filter (lease_expired now) T)))"
  by (auto simp: distinct_map inj_on_def)

lemma reclaim_stale_jobs_inv:
  assumes "queue_inv (jobs db)"
  shows "queue_inv (jobs (snd (reclaim_stale_jobs cfg jit now unl db)))"
  unfolding reclaim_stale_jobs_def
  by (rule reclaim_loop_inv) (use assms stale_rows queue_invD(1) in blast)+

lemma enqueue_job_cases:
  assumes "enqueue_job cfg registry sha256 encode now fresh T q = Inr (j, T')"
  obtains (duplicate) hash where "T' = T" "get_existing_in_flight_job T q hash = Some j"
  | (inserted) hash payload due_at n where "T' = T @ [j]" "j = new_job q fresh hash payload due_at n now"
      "fresh \<notin> j_id ` set T" "\<not> in_flight_collision T j" "n > 0 \<or> n = JOBS_DEFAULT_MAX_ATTEMPTS cfg \<or>
        (\<exists>h. registry (q_kind q) = Some h \<and> h_max_attempts h = Some n)"
      "q_workspace_id q = None \<or> q_concurrency_user_id q = None"
proof -
  from assms obtain h where h: "registry (q_kind q) = Some h"
    by (auto simp: enqueue_job_def get_job_handler_def split: option.splits)
  let ?payload = "or_empty (q_payload q)"
  let ?hash = "normalize_content_hash sha256 (or_string (q_content_hash q) (sha256 (encode ?payload)))"
  let ?n = "case q_max_attempts q of Some n \<Rightarrow> n
            | None \<Rightarrow> or_default (h_max_attempts h) (JOBS_DEFAULT_MAX_ATTEMPTS cfg)"
  let ?j = "new_job q fresh ?hash ?payload (if_none (q_run_after q) now) ?n now"
  from assms h have own: "q_workspace_id q = None \<or> q_concurrency_user_id q = None"
    and lim: "\<not> (case q_max_attempts q of None \<Rightarrow> False | Some n \<Rightarrow> n \<le> 0)"
    and fresh: "fresh \<notin> j_id ` set T"
    and res: "(if in_flight_collision T ?j
               then (case get_existing_in_flight_job T q ?hash of
                       None \<Rightarrow> Inl (IntegrityError ''uq_jobs_in_flight'')
                     | Some existing \<Rightarrow> Inr (existing, T))
               else Inr (?j, T @ [?j])) = Inr (j, T')"
    by (auto simp: enqueue_job_def get_job_handler_def Let_def split: if_splits)
  show ?thesis
  proof (cases "in_flight_collision T ?j")
    case True
    with res have "T' = T" and "get_existing_in_flight_job T q ?hash = Some j"
      by (auto split: option.splits)
    then show ?thesis by (rule duplicate)
  next
    case False
    have n: "?n > 0 \<or> ?n = JOBS_DEFAULT_MAX_ATTEMPTS cfg \<or>
        (\<exists>h. registry (q_kind q) = Some h \<and> h_max_attempts h = Some ?n)"
      using lim h by (auto simp: or_default_def split: option.splits if_splits)
    from res False have "T' = T @ [j]" and "j = ?j" by auto
    with False fresh own n show ?thesis by (intro inserted) simp_all
  qed
qed

lemma new_job_row_ok:
  assumes "n > 0" and "q_workspace_id q = None \<or> q_concurrency_user_id q = None"
  shows "job_row_ok (new_job q fresh hash payload due_at n now)"
  using assms by (simp add: new_job_def job_row_ok_def job_checks_def)

lemma enqueue_job_inv:
  assumes "queue_inv T" and "valid_job_settings cfg" and "registry_ok registry"
    and "enqueue_job cfg registry sha256 encode now fresh T q = Inr (j, T')"
  shows "queue_inv T'"
  using assms(4)
proof (cases rule: enqueue_job_cases)
  case duplicate
  with assms(1) show ?thesis by simp
next
  case (inserted hash payload due_at n)
  have "n > 0"
    using inserted(5) assms(2,3) by (auto simp: valid_job_settings_def registry_ok_def)
  then have "job_row_ok j" using inserted(2,6) by (simp add: new_job_row_ok)
  moreover have "j_id j \<notin> j_id ` set T" and "in_flight_row j"
    using inserted(2,3) by (simp_all add: new_job_def in_flight_row_def in_flight_def)
  moreover have "in_flight_key j \<notin> in_flight_key ` set (filter in_flight_row T)"
  proof
    assume "in_flight_key j \<in> in_flight_key ` set (filter in_flight_row T)"
    then obtain r where "r \<in> set T" and "in_flight_row r" and "in_flight_key r = in_flight_key j"
      by auto
    with \<open>in_flight_row j\<close> have "in_flight_collision T j"
      by (auto simp: in_flight_collision_def in_flight_row_def list_ex_iff)
    with inserted(4) show False by simp
  qed
  ultimately show ?thesis using assms(1) inserted(1) by (auto simp: queue_inv_def)
qed

section \<open>The concurrency limit\<close>

text \<open>
  \<open>own\<close> picks the jobs of one concurrency owner. The rows a claim selects for that owner are among
  the ones whose rank fits into what the limit leaves.
\<close>

lemma selected_count_le:
  assumes inv: "queue_inv T"
    and same: "\<And>i j. i \<in> set T \<Longrightarrow> j \<in> set T \<Longrightarrow> own i \<Longrightarrow> own j \<Longrightarrow> same_owner i j"
    and owned: "\<And>j. own j \<Longrightarrow> \<not> has_no_concurrency_owner j"
    and count: "\<And>j. j \<in> set T \<Longrightarrow> own j \<Longrightarrow> running_count T j = c"
  shows "int (card {j \<in> set T. claimable cfg now T j \<and> own j})
           \<le> max 0 (JOBS_WORKSPACE_CONCURRENCY_LIMIT cfg - c)"
proof -
  let ?E = "{j \<in> set T. ranked_pending cfg now T j \<and> own j}"
  let ?m = "JOBS_WORKSPACE_CONCURRENCY_LIMIT cfg - c"
  have inj: "inj_on claim_order ?E"
    using queue_inv_same_id [OF inv] by (auto simp: inj_on_def claim_order_def)
  have "{j \<in> set T. claimable cfg now T j \<and> own j}
          \<subseteq> {j \<in> ?E. 1 + int (card {i \<in> ?E. claim_order i < claim_order j}) \<le> ?m}"
  proof
    fix j
    assume "j \<in> {j \<in> set T. claimable cfg now T j \<and> own j}"
    then have j: "j \<in> set T" "claimable cfg now T j" "own j" by simp_all
    have "{i \<in> ?E. claim_order i < claim_order j} \<subseteq>
        {i \<in> set T. ranked_pending cfg now T i \<and> same_owner i j \<and> claim_order i < claim_order j}"
      using same j(1,3) by blast
    then have "card {i \<in> ?E. claim_order i < claim_order j} \<le>
        rowcount (\<lambda>i. ranked_pending cfg now T i \<and> same_owner i j \<and> claim_order i < claim_order j) T"
      unfolding rowcount_card [OF queue_invD(2) [OF inv]] by (intro card_mono) auto
    moreover have "owner_pending_rank cfg now T j \<le> ?m"
      using j owned [OF j(3)] count [OF j(1,3)] by (simp add: claimable_def)
    ultimately have "1 + int (card {i \<in> ?E. claim_order i < claim_order j}) \<le> ?m"
      by (simp add: owner_pending_rank_def)
    with j show "j \<in> {j \<in> ?E. 1 + int (card {i \<in> ?E. claim_order i < claim_order j}) \<le> ?m}"
      by (simp add: claimable_def)
  qed
  then have "card {j \<in> set T. claimable cfg now T j \<and> own j}
      \<le> card {j \<in> ?E. 1 + int (card {i \<in> ?E. claim_order i < claim_order j}) \<le> ?m}"
    by (intro card_mono) auto
  moreover have "int (card {j \<in> ?E. 1 + int (card {i \<in> ?E. claim_order i < claim_order j}) \<le> ?m})
      \<le> max 0 ?m"
    by (rule card_rank_le [OF _ inj]) simp
  ultimately show ?thesis by linarith
qed

lemma claim_ids:
  assumes "queue_inv T" and "j \<in> set T"
    and "j_id j \<in> set (map j_id (select_jobs_to_claim cfg now b unl T))"
  shows "claimable cfg now T j"
proof -
  from assms(3) obtain q where "q \<in> set (select_jobs_to_claim cfg now b unl T)" and "j_id q = j_id j"
    by auto
  with assms(2) queue_inv_same_id [OF assms(1)] show ?thesis using selected_claimable by metis
qed

lemma claim_count_le:
  assumes inv: "queue_inv T"
    and own_claim: "\<And>e j. own (claim_job w now e j) = own j"
    and same: "\<And>i j. i \<in> set T \<Longrightarrow> j \<in> set T \<Longrightarrow> own i \<Longrightarrow> own j \<Longrightarrow> same_owner i j"
    and owned: "\<And>j. own j \<Longrightarrow> \<not> has_no_concurrency_owner j"
    and count: "\<And>j. j \<in> set T \<Longrightarrow> own j \<Longrightarrow>
      running_count T j = int (rowcount (\<lambda>j. j_status j = JobRunning \<and> own j) T)"
  shows "int (rowcount (\<lambda>j. j_status j = JobRunning \<and> own j)
                (snd (claim_jobs cfg w now b ttl unl T)))
           \<le> max (JOBS_WORKSPACE_CONCURRENCY_LIMIT cfg)
               (int (rowcount (\<lambda>j. j_status j = JobRunning \<and> own j) T))"
proof -
  let ?ids = "set (map j_id (select_jobs_to_claim cfg now b unl T))"
  let ?R = "\<lambda>j. j_status j = JobRunning \<and> own j"
  let ?C = "\<lambda>j. claimable cfg now T j \<and> own j"
  have dist: "distinct T" by (rule queue_invD(2) [OF inv])
  have "rowcount ?R (update_where (\<lambda>j. j_id j \<in> ?ids) (claim_job w now e) T)
          \<le> rowcount (\<lambda>j. ?R j \<or> ?C j) T" for e
  proof -
    have "?R j \<or> ?C j"
      if "j \<in> set T" and "?R (if j_id j \<in> ?ids then claim_job w now e j else j)" for j
    proof (cases "j_id j \<in> ?ids")
      case True
      with claim_ids [OF inv that(1)] have "claimable cfg now T j" by blast
      with True that(2) show ?thesis by (simp only: if_True own_claim simp_thms)
    next
      case False
      with that(2) show ?thesis by (simp only: if_False simp_thms)
    qed
    then show ?thesis unfolding rowcount_update_where by (rule rowcount_mono)
  qed
  then have "rowcount ?R (snd (claim_jobs cfg w now b ttl unl T)) \<le> rowcount (\<lambda>j. ?R j \<or> ?C j) T"
    by (simp add: claim_jobs_def Let_def)
  also have "\<dots> \<le> rowcount ?R T + card {j \<in> set T. ?C j}"
  proof -
    have "{j \<in> set T. ?R j \<or> ?C j} = {j \<in> set T. ?R j} \<union> {j \<in> set T. ?C j}" by blast
    then have "card {j \<in> set T. ?R j \<or> ?C j} \<le> card {j \<in> set T. ?R j} + card {j \<in> set T. ?C j}"
      by (simp only: card_Un_le)
    then show ?thesis by (simp only: rowcount_card [OF dist])
  qed
  finally have "int (rowcount ?R (snd (claim_jobs cfg w now b ttl unl T)))
      \<le> int (rowcount ?R T) + int (card {j \<in> set T. ?C j})" by linarith
  moreover have "int (card {j \<in> set T. ?C j})
      \<le> max 0 (JOBS_WORKSPACE_CONCURRENCY_LIMIT cfg - int (rowcount ?R T))"
    by (rule selected_count_le [OF inv same owned count])
  ultimately show ?thesis by linarith
qed

lemma same_workspace_owner:
  "job_checks i \<Longrightarrow> job_checks j \<Longrightarrow> j_workspace_id i = Some v \<Longrightarrow> j_workspace_id j = Some v \<Longrightarrow>
     same_owner i j"
  by (simp add: same_owner_def job_checks_def)

lemma same_user_owner:
  "job_checks i \<Longrightarrow> job_checks j \<Longrightarrow> j_concurrency_user_id i = Some u \<Longrightarrow>
     j_concurrency_user_id j = Some u \<Longrightarrow> same_owner i j"
  by (simp add: same_owner_def job_checks_def)

lemma running_count_workspace:
  assumes "job_checks j" and "j_workspace_id j = Some v"
  shows "running_count T j = int (workspace_running_count T v)"
  using assms by (auto simp: running_count_def joined_count_def job_checks_def)

lemma running_count_user:
  assumes "job_checks j" and "j_concurrency_user_id j = Some u"
  shows "running_count T j = int (user_running_count T u)"
  using assms by (auto simp: running_count_def joined_count_def job_checks_def)

section \<open>The effect of a claim\<close>

lemma select_batch: "length (select_jobs_to_claim cfg now b unl T) \<le> nat (or_default b (JOBS_WORKER_BATCH_SIZE cfg))"
  by (simp add: select_jobs_to_claim_def)

lemma claim_jobs_row:
  "row_by_id j_id i (snd (claim_jobs cfg w now b ttl unl T)) =
     map_option (\<lambda>j. if i \<in> j_id ` set (select_jobs_to_claim cfg now b unl T)
        then claim_job w now (now + timedelta_seconds (or_default ttl (JOBS_LOCK_TTL_SECONDS cfg))) j
        else j) (row_by_id j_id i T)"
proof -
  have "row_by_id j_id i T = Some j \<Longrightarrow> j_id j = i" for j by (simp add: row_by_id_Some)
  then show ?thesis
    by (cases "row_by_id j_id i T") (simp_all add: claim_jobs_def Let_def claim_update.row_by_id_update_where)
qed

text \<open>
  The smallest due row of an owner has rank one, so an owner below its limit always has a claimable
  row.
\<close>

lemma running_count_same_owner:
  assumes "same_owner i j"
  shows "running_count T i = running_count T j"
proof -
  have "j_workspace_id i = j_workspace_id j" and "j_concurrency_user_id i = j_concurrency_user_id j"
    using assms by (simp_all add: same_owner_def)
  then show ?thesis by (simp only: running_count_def)
qed

lemma owner_has_claimable:
  assumes "queue_inv T" and "j \<in> set T" and "due now j"
    and "has_no_concurrency_owner j \<or> running_count T j < JOBS_WORKSPACE_CONCURRENCY_LIMIT cfg"
  shows "\<exists>q \<in> set T. claimable cfg now T q"
proof (cases "has_no_concurrency_owner j")
  case True
  with assms(2,3) show ?thesis by (auto simp: claimable_def ranked_pending_def)
next
  case False
  with assms(4) have room: "running_count T j < JOBS_WORKSPACE_CONCURRENCY_LIMIT cfg" by simp
  let ?S = "{i \<in> set T. ranked_pending cfg now T i \<and> same_owner i j}"
  have "j \<in> ?S" using assms(2,3) room by (simp add: ranked_pending_def same_owner_def)
  moreover have "finite ?S" by simp
  ultimately have "Min (claim_order ` ?S) \<in> claim_order ` ?S" by (intro Min_in) auto
  then obtain q where q: "q \<in> ?S" "claim_order q = Min (claim_order ` ?S)" by auto
  have least: "\<not> claim_order i < claim_order q" if "i \<in> ?S" for i
    using that \<open>finite ?S\<close> by (simp add: q(2) leD)
  have "same_owner i q \<longleftrightarrow> same_owner i j" for i
    using q(1) by (simp add: same_owner_def)
  then have "rowcount (\<lambda>i. ranked_pending cfg now T i \<and> same_owner i q \<and> claim_order i < claim_order q) T = 0"
    using least by (auto simp: rowcount_0_iff)
  then have rank: "owner_pending_rank cfg now T q = 1" by (simp add: owner_pending_rank_def)
  have "running_count T q = running_count T j"
    using q(1) by (intro running_count_same_owner) simp
  with rank room q(1) have "claimable cfg now T q"
    by (simp add: claimable_def ranked_pending_def)
  with q(1) show ?thesis by blast
qed

lemma select_nonempty:
  assumes "q \<in> set T" and "claimable cfg now T q" and "unl (j_id q)"
    and "0 < or_default b (JOBS_WORKER_BATCH_SIZE cfg)"
  shows "select_jobs_to_claim cfg now b unl T \<noteq> []"
proof -
  have "q \<in> set (filter (\<lambda>j. unl (j_id j)) (sort_key (\<lambda>j. (j_priority j, j_run_after j, j_created_at j))
      (filter (claimable cfg now T) T)))"
    using assms(1-3) by simp
  then show ?thesis using assms(4) unfolding select_jobs_to_claim_def take_eq_Nil
    by (metis empty_iff empty_set linorder_not_less nat_0_iff)
qed

text \<open>The rows are taken in the order of the index: what is left out comes after what is taken.\<close>

lemma select_sorted:
  "sorted (map (\<lambda>j. (j_priority j, j_run_after j, j_created_at j)) (select_jobs_to_claim cfg now b unl T))"
proof -
  have "sorted (map f (take n (filter P (sort_key f xs))))" for f :: "job \<Rightarrow> int \<times> int \<times> int" and n P xs
    by (simp add: take_map [symmetric] sorted_filter sorted_wrt_take)
  then show ?thesis by (simp add: select_jobs_to_claim_def)
qed

lemma select_first:
  assumes "q \<in> set T" and "claimable cfg now T q" and "unl (j_id q)"
    and "q \<notin> set (select_jobs_to_claim cfg now b unl T)"
    and "j \<in> set (select_jobs_to_claim cfg now b unl T)"
  shows "(j_priority j, j_run_after j, j_created_at j) \<le> (j_priority q, j_run_after q, j_created_at q)"
proof -
  let ?f = "\<lambda>j. (j_priority j, j_run_after j, j_created_at j)"
  let ?n = "nat (or_default b (JOBS_WORKER_BATCH_SIZE cfg))"
  let ?xs = "filter (\<lambda>j. unl (j_id j)) (sort_key ?f (filter (claimable cfg now T) T))"
  have "sorted (map ?f ?xs)" by (rule sorted_filter) (rule sorted_sort_key)
  then have sorted: "sorted_wrt (\<lambda>i j. ?f i \<le> ?f j) (take ?n ?xs @ drop ?n ?xs)"
    by (simp only: sorted_map append_take_drop_id)
  have "q \<in> set (take ?n ?xs) \<union> set (drop ?n ?xs)"
    using assms(1-3) by (simp flip: set_append)
  with assms(4) have "q \<in> set (drop ?n ?xs)" by (simp add: select_jobs_to_claim_def)
  with sorted assms(5) show ?thesis unfolding select_jobs_to_claim_def sorted_wrt_append by blast
qed

section \<open>Reclaiming\<close>

text \<open>What became of a row whose lease had expired: it is pending again or terminally failed.\<close>

definition lease_expiry_outcome :: "timestamp \<Rightarrow> job \<Rightarrow> job \<Rightarrow> bool" where
  "lease_expiry_outcome now j j' \<longleftrightarrow>
     j_id j' = j_id j \<and> j_locked_by j' = None \<and> j_lock_expires_at j' = None \<and>
     j_attempts j' = j_attempts j \<and> j_last_error_code j' = Some ''lease_expired'' \<and>
     (if j_attempts j < j_max_attempts j
      then j_status j' = JobPending \<and> j_finished_at j' = None
      else j_status j' = JobFailed \<and> j_finished_at j' = Some now)"

lemma reclaim_row:
  assumes "queue_inv (jobs db)" and "j \<in> set (jobs db)" and "owned_running (j_id j) w j"
  shows "\<exists>r. fst (finalize_job_failure cfg jit j w ''lease_expired'' m now False db) = Some r"
    and "\<exists>j'. row_by_id j_id (j_id j) (jobs (snd (finalize_job_failure cfg jit j w ''lease_expired'' m now False db)))
           = Some j' \<and> lease_expiry_outcome now j j'"
proof -
  have "rowcount (owned_running (j_id j) w) (jobs db) \<noteq> 0"
    using assms(2,3) by (auto simp: rowcount_0_iff)
  then show "\<exists>r. fst (finalize_job_failure cfg jit j w ''lease_expired'' m now False db) = Some r"
    by (simp add: finalize_job_failure_def Let_def ex_bool_eq)
  have "row_by_id j_id (j_id j) (jobs db) = Some j"
    by (rule row_by_id_unique [OF queue_invD(1) [OF assms(1)] assms(2)])
  then show "\<exists>j'. row_by_id j_id (j_id j) (jobs (snd (finalize_job_failure cfg jit j w ''lease_expired'' m now False db)))
           = Some j' \<and> lease_expiry_outcome now j j'"
    using assms(3) unfolding finalize_job_failure_jobs
    by (auto simp: fail_update.row_by_id_update_where lease_expiry_outcome_def fail_job_def Let_def)
qed

text \<open>One round of the loop, over a list of running rows of the table.\<close>

definition reclaimable :: "job list \<Rightarrow> job_db \<Rightarrow> bool" where
  "reclaimable js db \<longleftrightarrow> queue_inv (jobs db) \<and> set js \<subseteq> set (jobs db) \<and> distinct (map j_id js) \<and>
     (\<forall>j \<in> set js. j_status j = JobRunning)"

lemma reclaim_loop_step:
  assumes "reclaimable (j # js) db"
  obtains db' j' where
    "\<And>n. reclaim_loop cfg jit now (j # js) n db = reclaim_loop cfg jit now js (n + 1) db'"
    "reclaimable js db'" "row_by_id j_id (j_id j) (jobs db') = Some j'" "lease_expiry_outcome now j j'"
    "\<And>k. k \<noteq> j_id j \<Longrightarrow> row_by_id j_id k (jobs db') = row_by_id j_id k (jobs db)"
proof -
  have inv: "queue_inv (jobs db)" and jrow: "j \<in> set (jobs db)" and run: "j_status j = JobRunning"
    and rest: "set js \<subseteq> set (jobs db)" "distinct (map j_id js)" "\<forall>j \<in> set js. j_status j = JobRunning"
    and fresh: "j_id j \<notin> j_id ` set js"
    using assms by (simp_all add: reclaimable_def)
  from run queue_invD(3) [OF inv jrow] obtain w where w: "j_locked_by j = Some w"
    by (auto simp: job_row_ok_def)
  with run have own: "owned_running (j_id j) w j" by (simp add: owned_running_def)
  let ?m = "Some ''Worker lease expired before job completed''"
  obtain res db' where fin:
    "finalize_job_failure cfg (jit j) j w ''lease_expired'' ?m now False db = (res, db')" by fastforce
  have db': "db' = snd (finalize_job_failure cfg (jit j) j w ''lease_expired'' ?m now False db)"
    using fin by simp
  obtain r where "res = Some r"
    using reclaim_row(1) [OF inv jrow own, of cfg "jit j" ?m now] fin by auto
  with w fin have step: "reclaim_loop cfg jit now (j # js) n db = reclaim_loop cfg jit now js (n + 1) db'" for n
    by simp
  obtain j' where j': "row_by_id j_id (j_id j) (jobs db') = Some j'" "lease_expiry_outcome now j j'"
    using reclaim_row(2) [OF inv jrow own, of cfg "jit j" ?m now] unfolding db' by blast
  have other: "row_by_id j_id k (jobs db') = row_by_id j_id k (jobs db)" if "k \<noteq> j_id j" for k
    using that unfolding db' finalize_job_failure_jobs
    by (cases "row_by_id j_id k (jobs db)")
       (auto simp: fail_update.row_by_id_update_where owned_running_def dest: row_by_id_Some)
  have "q \<in> set (jobs db')" if q: "q \<in> set js" for q
  proof -
    have "j_id q \<noteq> j_id j" using q fresh by (metis image_eqI)
    moreover have "q \<in> set (jobs db)" using q rest(1) by auto
    ultimately show ?thesis unfolding db' by (intro finalize_job_failure_other)
  qed
  moreover have "queue_inv (jobs db')" unfolding db' by (rule finalize_job_failure_inv [OF inv jrow])
  ultimately have "reclaimable js db'" using rest by (auto simp: reclaimable_def)
  from that [OF step this j' other] show ?thesis .
qed

lemma reclaim_loop_row:
  "reclaimable js db \<Longrightarrow>
     (if i \<in> j_id ` set js
      then \<exists>j \<in> set js. \<exists>j'. j_id j = i \<and> lease_expiry_outcome now j j' \<and>
             row_by_id j_id i (jobs (snd (reclaim_loop cfg jit now js n db))) = Some j'
      else row_by_id j_id i (jobs (snd (reclaim_loop cfg jit now js n db))) = row_by_id j_id i (jobs db))"
proof (induction js arbitrary: n db)
  case Nil
  then show ?case by simp
next
  case (Cons j js)
  obtain db' j' where step: "reclaim_loop cfg jit now (j # js) n db = reclaim_loop cfg jit now js (n + 1) db'"
    and rec: "reclaimable js db'"
    and j': "row_by_id j_id (j_id j) (jobs db') = Some j'" "lease_expiry_outcome now j j'"
    and other: "\<And>k. k \<noteq> j_id j \<Longrightarrow> row_by_id j_id k (jobs db') = row_by_id j_id k (jobs db)"
    using reclaim_loop_step [OF Cons.prems] by metis
  have fresh: "j_id j \<notin> j_id ` set js" using Cons.prems by (simp add: reclaimable_def)
  show ?case
    using Cons.IH [OF rec, of "n + 1"] j' other [of i] fresh unfolding step
    by (cases "i = j_id j") (auto split: if_splits)
qed

lemma reclaim_loop_count: "reclaimable js db \<Longrightarrow> fst (reclaim_loop cfg jit now js n db) = n + length js"
proof (induction js arbitrary: n db)
  case Nil
  then show ?case by simp
next
  case (Cons j js)
  obtain db' where step: "reclaim_loop cfg jit now (j # js) n db = reclaim_loop cfg jit now js (n + 1) db'"
    and rec: "reclaimable js db'"
    using reclaim_loop_step [OF Cons.prems] by metis
  show ?case unfolding step using Cons.IH [OF rec, of "n + 1"] by simp
qed

lemma stale_reclaimable:
  "queue_inv (jobs db) \<Longrightarrow>
     reclaimable (filter (\<lambda>j. unl (j_id j)) (filter (lease_expired now) (jobs db))) db"
  using stale_rows(2) [OF queue_invD(1)] by (auto simp: reclaimable_def lease_expired_def)

section \<open>Deduplication\<close>

definition request_key ::
    "enqueue_request \<Rightarrow> string \<Rightarrow> uuid option \<times> uuid option \<times> string \<times> string \<times> uuid option \<times> string" where
  "request_key q hash = (q_workspace_id q, q_concurrency_user_id q, q_kind q,
     if_none (q_subject_type q) [], q_subject_id q, hash)"

lemma in_flight_key_new_job [simp]:
  "in_flight_key (new_job q fresh hash payload due_at n now) = request_key q hash"
  by (simp add: in_flight_key_def new_job_def request_key_def)

lemma collision_key:
  "in_flight_collision T (new_job q fresh hash payload due_at n now) \<longleftrightarrow>
     (\<exists>r \<in> set T. in_flight (j_status r) \<and> in_flight_key r = request_key q hash)"
  by (simp add: in_flight_collision_def list_ex_iff) (simp add: new_job_def in_flight_def)

lemma existing_key:
  "get_existing_in_flight_job T q hash = Some j \<Longrightarrow>
     j \<in> set T \<and> in_flight (j_status j) \<and> in_flight_key j = request_key q hash"
  by (auto simp: get_existing_in_flight_job_def find_Some_iff in_flight_key_def request_key_def)

lemma existing_appended:
  assumes "\<not> (\<exists>r \<in> set T. in_flight (j_status r) \<and> in_flight_key r = request_key q hash)"
  shows "get_existing_in_flight_job (T @ [new_job q fresh hash payload due_at n now]) q hash
           = Some (new_job q fresh hash payload due_at n now)"
proof -
  have "find P (T @ [r]) = Some r" if "find P T = None" and "P r" for P and r :: job
    using that by (induction T) (auto split: if_splits)
  moreover have "get_existing_in_flight_job T q hash = None"
    using assms existing_key [of T q hash] by (cases "get_existing_in_flight_job T q hash") auto
  ultimately show ?thesis
    unfolding get_existing_in_flight_job_def by (simp add: new_job_def in_flight_def)
qed

text \<open>An accepted request, seen from the result: its key and how the table was extended.\<close>

lemma enqueue_job_result:
  assumes "enqueue_job cfg registry sha256 encode now fresh T q = Inr (j, T')"
  shows "let hash = normalize_content_hash sha256
               (or_string (q_content_hash q) (sha256 (encode (or_empty (q_payload q)))))
         in get_existing_in_flight_job T' q hash = Some j \<and> j \<in> set T' \<and> in_flight (j_status j) \<and>
            in_flight_key j = request_key q hash \<and>
            (\<forall>now2 fresh2. fresh2 \<notin> j_id ` set T' \<longrightarrow>
               enqueue_job cfg registry sha256 encode now2 fresh2 T' q = Inr (j, T'))"
proof -
  let ?hash = "normalize_content_hash sha256
       (or_string (q_content_hash q) (sha256 (encode (or_empty (q_payload q)))))"
  obtain h where h: "registry (q_kind q) = Some h"
    using assms by (auto simp: enqueue_job_def get_job_handler_def split: option.splits)
  let ?n = "case q_max_attempts q of Some n \<Rightarrow> n
            | None \<Rightarrow> or_default (h_max_attempts h) (JOBS_DEFAULT_MAX_ATTEMPTS cfg)"
  let ?j = "\<lambda>fresh now. new_job q fresh ?hash (or_empty (q_payload q)) (if_none (q_run_after q) now) ?n now"
  have ok: "\<not> (q_workspace_id q \<noteq> None \<and> q_concurrency_user_id q \<noteq> None)"
      "\<not> (case q_max_attempts q of None \<Rightarrow> False | Some n \<Rightarrow> n \<le> 0)" "fresh \<notin> j_id ` set T"
    and res: "(if in_flight_collision T (?j fresh now)
       then (case get_existing_in_flight_job T q ?hash of None \<Rightarrow> Inl (IntegrityError ''uq_jobs_in_flight'')
             | Some existing \<Rightarrow> Inr (existing, T))
       else Inr (?j fresh now, T @ [?j fresh now])) = Inr (j, T')"
    using assms h by (auto simp: enqueue_job_def get_job_handler_def Let_def split: if_splits)
  have again: "enqueue_job cfg registry sha256 encode now2 fresh2 T' q = Inr (j, T')"
    if "get_existing_in_flight_job T' q ?hash = Some j" and "fresh2 \<notin> j_id ` set T'" for now2 fresh2
  proof -
    have "in_flight_collision T' (?j fresh2 now2)"
      unfolding collision_key using existing_key [OF that(1)] by blast
    with that ok(1,2) h show ?thesis by (simp add: enqueue_job_def get_job_handler_def Let_def)
  qed
  have "get_existing_in_flight_job T' q ?hash = Some j"
  proof (cases "in_flight_collision T (?j fresh now)")
    case True
    with res show ?thesis by (auto split: option.splits)
  next
    case False
    with res have "T' = T @ [?j fresh now]" and "j = ?j fresh now" by auto
    with existing_appended [OF False [unfolded collision_key]] show ?thesis by simp
  qed
  with again existing_key [OF this] show ?thesis by (simp add: Let_def)
qed

text \<open>
  A request with a registered kind and a non-empty subject type is never refused: a collision is
  answered with the colliding job.
\<close>

lemma enqueue_job_total:
  assumes "registry (q_kind q) = Some h" and "q_workspace_id q = None" and "q_max_attempts q = None"
    and "fresh \<notin> j_id ` set T" and "q_subject_type q = Some s" and "s \<noteq> []"
  shows "\<exists>j T'. enqueue_job cfg registry sha256 encode now fresh T q = Inr (j, T') \<and>
    j_id ` set T' \<subseteq> insert fresh (j_id ` set T)"
proof -
  let ?hash = "normalize_content_hash sha256
       (or_string (q_content_hash q) (sha256 (encode (or_empty (q_payload q)))))"
  let ?j = "new_job q fresh ?hash (or_empty (q_payload q)) (if_none (q_run_after q) now)
    (or_default (h_max_attempts h) (JOBS_DEFAULT_MAX_ATTEMPTS cfg)) now"
  have eq: "enqueue_job cfg registry sha256 encode now fresh T q =
      (if in_flight_collision T ?j
       then (case get_existing_in_flight_job T q ?hash of None \<Rightarrow> Inl (IntegrityError ''uq_jobs_in_flight'')
             | Some existing \<Rightarrow> Inr (existing, T))
       else Inr (?j, T @ [?j]))"
    using assms by (simp add: enqueue_job_def get_job_handler_def Let_def)
  show ?thesis
  proof (cases "in_flight_collision T ?j")
    case False
    then have "enqueue_job cfg registry sha256 encode now fresh T q = Inr (?j, T @ [?j])" by (simp add: eq)
    then show ?thesis by (intro exI conjI) (auto simp: new_job_def)
  next
    case True
    then obtain r where r: "r \<in> set T" "in_flight (j_status r)" "in_flight_key r = request_key q ?hash"
      unfolding collision_key by blast
    have "j_subject_type r = Some s"
      using r(3) assms(5,6) by (cases "j_subject_type r") (auto simp: in_flight_key_def request_key_def)
    with r assms(5) have "\<exists>x. get_existing_in_flight_job T q ?hash = Some x"
      unfolding get_existing_in_flight_job_def
      by (cases "find (\<lambda>j. j_kind j = q_kind q \<and> j_content_hash j = ?hash \<and> in_flight (j_status j) \<and>
               j_workspace_id j = q_workspace_id q \<and>
               j_concurrency_user_id j = q_concurrency_user_id q \<and>
               j_subject_type j = q_subject_type q \<and> j_subject_id j = q_subject_id q) T")
         (auto simp: find_None_iff in_flight_key_def request_key_def)
    with True show ?thesis by (auto simp: eq)
  qed
qed

section \<open>Backoff\<close>

lemma round_half_even_ge_int:
  assumes "of_int m \<le> x"
  shows "m \<le> round_half_even x"
proof -
  have "m \<le> \<lfloor>x\<rfloor>" using assms by (simp add: le_floor_iff)
  then show ?thesis by (simp add: round_half_even_def Let_def)
qed

lemma round_half_even_le_int:
  assumes "x \<le> of_int m"
  shows "round_half_even x \<le> m"
proof (cases "x = of_int m")
  case True
  then show ?thesis by (simp add: round_half_even_def Let_def)
next
  case False
  with assms have "x < of_int m" by simp
  then have "\<lfloor>x\<rfloor> < m" by (simp add: floor_less_iff)
  then show ?thesis by (simp add: round_half_even_def Let_def)
qed

end
