(* ===== verification/Job_System.thy ===== *)
theory Job_System
  imports Job_Queue
begin

text \<open>
  The queue as a system of events, each one a committed transaction of some process: enqueueing,
  claiming, a heartbeat, the two ways to finish an attempt, reclaiming, and the retention sweep. An
  event whose code raises is rolled back. The invariant of \<open>Job_Queue\<close> and the fencing of workers
  by \<^verbatim>\<open>locked_by\<close> are the two contracts interpreted here.
\<close>

record job_world =
  w_settings :: job_settings
  w_registry :: job_registry
  w_sha256 :: "string \<Rightarrow> string"
  w_encode :: "pydict \<Rightarrow> string"
  w_uuid_text :: "uuid \<Rightarrow> string"

datatype job_event =
    Enqueue timestamp uuid enqueue_request
  | Claim string timestamp "int option" "int option" "uuid \<Rightarrow> bool"
  | Renew uuid string timestamp "rat option"
  | Succeed uuid string timestamp
  | RecordFailure rat uuid string string string timestamp
  | Reclaim "job \<Rightarrow> rat" timestamp "uuid \<Rightarrow> bool"
  | SweepTerminal timestamp uuid uuid

definition committed_jobs :: "job_db \<Rightarrow> app_error + job \<times> job list \<Rightarrow> job_db" where
  "committed_jobs db r = (case r of Inl e \<Rightarrow> db | Inr (j, T) \<Rightarrow> db\<lparr>jobs := T\<rparr>)"

fun job_step :: "job_world \<Rightarrow> job_db \<Rightarrow> job_event \<Rightarrow> job_db" where
  "job_step W db (Enqueue now fresh q) = committed_jobs db
     (enqueue_job (w_settings W) (w_registry W) (w_sha256 W) (w_encode W) now fresh (jobs db) q)"
| "job_step W db (Claim owner now b ttl unlocked) =
     db\<lparr>jobs := snd (claim_jobs (w_settings W) owner now b ttl unlocked (jobs db))\<rparr>"
| "job_step W db (Renew i owner now ttl) =
     db\<lparr>jobs := snd (renew_job_lease (w_settings W) i owner now ttl (jobs db))\<rparr>"
| "job_step W db (Succeed i owner now) =
     db\<lparr>jobs := snd (finalize_job_success i owner now (jobs db))\<rparr>"
| "job_step W db (RecordFailure jitter i owner code message now) =
     record_job_failure (w_settings W) jitter i owner code message now db"
| "job_step W db (Reclaim jitter now unlocked) =
     snd (reclaim_stale_jobs (w_settings W) jitter now unlocked db)"
| "job_step W db (SweepTerminal now fresh i) = committed_jobs db
     (sweep_terminal_jobs (w_settings W) (w_registry W) (w_sha256 W) (w_encode W) (w_uuid_text W)
        now fresh i (jobs db))"

definition job_inv :: "job_world \<Rightarrow> job_db \<Rightarrow> bool" where
  "job_inv W db \<longleftrightarrow> valid_job_settings (w_settings W) \<and> registry_ok (w_registry W) \<and> queue_inv (jobs db)"

definition holder :: "job_db \<Rightarrow> uuid \<Rightarrow> string option" where
  "holder db i = (case row_by_id j_id i (jobs db) of
     None \<Rightarrow> None
   | Some j \<Rightarrow> if j_status j = JobRunning then j_locked_by j else None)"

fun acts_on :: "job_event \<Rightarrow> string \<Rightarrow> uuid \<Rightarrow> bool" where
  "acts_on (Renew i w _ _) owner k = (i = k \<and> w = owner)"
| "acts_on (Succeed i w _) owner k = (i = k \<and> w = owner)"
| "acts_on (RecordFailure _ i w _ _ _) owner k = (i = k \<and> w = owner)"
| "acts_on _ _ _ = False"

fun claims_for :: "job_event \<Rightarrow> string \<Rightarrow> bool" where
  "claims_for (Claim w _ _ _ _) owner = (w = owner)"
| "claims_for _ _ = False"

section \<open>The invariant\<close>

lemma queue_inv_delete:
  assumes "queue_inv T"
  shows "queue_inv (delete_where P T)"
proof -
  have swap: "filter in_flight_row (delete_where P T) = filter (\<lambda>r. \<not> P r) (filter in_flight_row T)"
    by (simp add: delete_where_def conj_commute)
  have "distinct (map in_flight_key (filter in_flight_row (delete_where P T)))"
    unfolding swap by (rule distinct_map_filter) (use assms in \<open>simp add: queue_inv_def\<close>)
  moreover have "distinct (map j_id (delete_where P T))"
    unfolding delete_where_def by (rule distinct_map_filter [OF queue_invD(1) [OF assms]])
  moreover have "\<forall>j \<in> set (delete_where P T). job_row_ok j"
    using queue_invD(3) [OF assms] by (simp add: delete_where_def)
  ultimately show ?thesis by (simp add: queue_inv_def)
qed

lemma record_job_failure_inv:
  assumes "queue_inv (jobs db)"
  shows "queue_inv (jobs (record_job_failure cfg jit i w c m now db))"
proof (cases "find (owned_running i w) (jobs db)")
  case None
  with assms show ?thesis by (simp add: record_job_failure_def)
next
  case (Some j)
  then have "j \<in> set (jobs db)" by (auto simp: find_Some_iff)
  from finalize_job_failure_inv [OF assms this] Some assms show ?thesis
    by (auto simp: record_job_failure_def split: prod.splits option.splits) (metis snd_conv)
qed

lemma committed_jobs_inv:
  "queue_inv (jobs db) \<Longrightarrow> (\<And>j T. r = Inr (j, T) \<Longrightarrow> queue_inv T) \<Longrightarrow> queue_inv (jobs (committed_jobs db r))"
  by (auto simp: committed_jobs_def split: sum.splits)

lemma job_step_inv:
  assumes "job_inv W db"
  shows "job_inv W (job_step W db e)"
proof -
  have inv: "queue_inv (jobs db)" and env: "valid_job_settings (w_settings W)" "registry_ok (w_registry W)"
    using assms by (simp_all add: job_inv_def)
  have "queue_inv (jobs (job_step W db e))"
  proof (cases e)
    case (Enqueue now fresh q)
    then show ?thesis
      using inv by (auto intro!: committed_jobs_inv dest: enqueue_job_inv [OF inv env])
  next
    case (SweepTerminal now fresh i)
    then show ?thesis
      using inv by (auto simp: sweep_terminal_jobs_def Let_def intro!: committed_jobs_inv
          dest: enqueue_job_inv [OF queue_inv_delete [OF inv] env])
  qed (use inv in \<open>simp_all add: claim_jobs_inv renew_job_lease_inv finalize_job_success_inv
        record_job_failure_inv reclaim_stale_jobs_inv\<close>)
  with env show ?thesis by (simp add: job_inv_def)
qed

interpretation job_system: invariant_system "job_step W" "job_inv W" for W
  by unfold_locales (rule job_step_inv)

section \<open>Fencing\<close>

lemma holder_Some_iff:
  assumes "queue_inv (jobs db)"
  shows "holder db i = Some w \<longleftrightarrow> (\<exists>j \<in> set (jobs db). owned_running i w j)"
proof
  assume "holder db i = Some w"
  then show "\<exists>j \<in> set (jobs db). owned_running i w j"
    by (auto simp: holder_def owned_running_def split: option.splits if_splits dest: row_by_id_Some)
next
  assume "\<exists>j \<in> set (jobs db). owned_running i w j"
  then obtain j where j: "j \<in> set (jobs db)" "owned_running i w j" by blast
  from row_by_id_unique [OF queue_invD(1) [OF assms] j(1)] j(2) show "holder db i = Some w"
    by (simp add: holder_def owned_running_def)
qed

lemma not_held_rowcount:
  assumes "queue_inv (jobs db)" and "holder db i \<noteq> Some w"
  shows "rowcount (owned_running i w) (jobs db) = 0"
  using assms by (auto simp: rowcount_0_iff holder_Some_iff)

text \<open>
  A guarded write with no matching row is the identity, for each of the three writes of a worker.
\<close>

lemma unowned_write_ignored:
  assumes "queue_inv (jobs db)" and "holder db i \<noteq> Some w" and "acts_on e w i"
  shows "job_step W db e = db"
proof -
  have none: "rowcount (owned_running i w) (jobs db) = 0"
    by (rule not_held_rowcount [OF assms(1,2)])
  then have "find (owned_running i w) (jobs db) = None"
    by (simp add: rowcount_0_iff find_None_iff)
  with none assms(3) show ?thesis
    by (cases e) (auto simp: renew_job_lease_def finalize_job_success_def record_job_failure_def
        update_where_rowcount_0)
qed

lemma not_owned_update:
  assumes "\<And>j. owned_running i w (f j) \<Longrightarrow> owned_running i w j"
    and "\<not> (\<exists>j \<in> set T. owned_running i w j)"
  shows "\<not> (\<exists>j \<in> set (update_where P f T). owned_running i w j)"
proof
  assume "\<exists>j \<in> set (update_where P f T). owned_running i w j"
  then obtain q where "q \<in> set T" and "owned_running i w (if P q then f q else q)"
    by (auto simp: in_update_where)
  then have "owned_running i w q" using assms(1) [of q] by (cases "P q") simp_all
  with \<open>q \<in> set T\<close> assms(2) show False by blast
qed

lemma not_owned_failure:
  assumes "\<not> (\<exists>j \<in> set (jobs db). owned_running i w j)"
  shows "\<not> (\<exists>j \<in> set (jobs (snd (finalize_job_failure cfg jit job v c m now ft db))).
              owned_running i w j)"
  unfolding finalize_job_failure_jobs
  by (rule not_owned_update [OF _ assms]) (simp add: owned_running_def split: if_splits)

lemma not_owned_reclaim_loop:
  "\<not> (\<exists>j \<in> set (jobs db). owned_running i w j) \<Longrightarrow>
   \<not> (\<exists>j \<in> set (jobs (snd (reclaim_loop cfg jit now js n db))). owned_running i w j)"
proof (induction js arbitrary: n db)
  case Nil
  then show ?case by simp
next
  case (Cons j js)
  show ?case
  proof (cases "j_locked_by j")
    case None
    with Cons show ?thesis by simp
  next
    case (Some v)
    obtain r db' where fin: "finalize_job_failure cfg (jit j) j v ''lease_expired''
        (Some ''Worker lease expired before job completed'') now False db = (r, db')"
      by fastforce
    have "\<not> (\<exists>j \<in> set (jobs db'). owned_running i w j)"
      using not_owned_failure [OF Cons.prems, of cfg "jit j" j v "''lease_expired''"
          "Some ''Worker lease expired before job completed''" now False] fin by simp
    from Cons.IH [OF this] Some fin show ?thesis by (cases r) simp_all
  qed
qed

lemma not_owned_enqueue:
  assumes "enqueue_job cfg registry sha256 encode now fresh T q = Inr (j, T')"
    and "\<not> (\<exists>j \<in> set T. owned_running i w j)"
  shows "\<not> (\<exists>j \<in> set T'. owned_running i w j)"
  using assms(1)
  by (cases rule: enqueue_job_cases) (use assms(2) in \<open>auto simp: new_job_def owned_running_def\<close>)

lemma not_owned_record_failure:
  assumes "\<not> (\<exists>j \<in> set (jobs db). owned_running i w j)"
  shows "\<not> (\<exists>j \<in> set (jobs (record_job_failure cfg jit k v c m now db)). owned_running i w j)"
proof (cases "find (owned_running k v) (jobs db)")
  case None
  with assms show ?thesis by (simp add: record_job_failure_def)
next
  case (Some j)
  from not_owned_failure [OF assms, of cfg jit j v c "Some m" now False] Some assms show ?thesis
    by (simp add: record_job_failure_def split: prod.splits option.splits)
qed

lemma unclaimed_not_granted:
  assumes inv: "job_inv W db" and quiet: "\<not> claims_for e w" and lost: "holder db i \<noteq> Some w"
  shows "holder (job_step W db e) i \<noteq> Some w"
proof -
  have q: "queue_inv (jobs db)" and q': "queue_inv (jobs (job_step W db e))"
    using inv job_step_inv [OF inv] by (simp_all add: job_inv_def)
  have none: "\<not> (\<exists>j \<in> set (jobs db). owned_running i w j)"
    using lost holder_Some_iff [OF q] by blast
  have "\<not> (\<exists>j \<in> set (jobs (job_step W db e)). owned_running i w j)"
  proof (cases e)
    case (Enqueue now fresh q)
    with none show ?thesis
      by (auto simp: committed_jobs_def dest: not_owned_enqueue [OF _ none] split: sum.splits)
  next
    case (Claim v now b ttl unl)
    with quiet have "v \<noteq> w" by simp
    then have "owned_running i w (claim_job v now x j) \<Longrightarrow> owned_running i w j" for j x
      by (simp add: owned_running_def)
    then have "\<not> (\<exists>j \<in> set (update_where P (claim_job v now x) (jobs db)). owned_running i w j)" for P x
      by (rule not_owned_update [OF _ none])
    then show ?thesis by (simp add: Claim claim_jobs_def Let_def)
  next
    case (Renew k v now ttl)
    have "owned_running i w (j\<lparr>j_lock_expires_at := x\<rparr>) \<Longrightarrow> owned_running i w j" for j x
      by (simp add: owned_running_def)
    then have "\<not> (\<exists>j \<in> set (update_where P (\<lambda>j. j\<lparr>j_lock_expires_at := x\<rparr>) (jobs db)). owned_running i w j)" for P x
      by (rule not_owned_update [OF _ none])
    then show ?thesis by (simp add: Renew renew_job_lease_def Let_def)
  next
    case (Succeed k v now)
    have "owned_running i w (succeed_job now j) \<Longrightarrow> owned_running i w j" for j
      by (simp add: owned_running_def)
    then have "\<not> (\<exists>j \<in> set (update_where P (succeed_job now) (jobs db)). owned_running i w j)" for P
      by (rule not_owned_update [OF _ none])
    then show ?thesis by (simp add: Succeed finalize_job_success_def)
  next
    case (RecordFailure jit k v c m now)
    then show ?thesis using not_owned_record_failure [OF none] by simp
  next
    case (Reclaim jit now unl)
    then show ?thesis using not_owned_reclaim_loop [OF none] by (simp add: reclaim_stale_jobs_def)
  next
    case (SweepTerminal now fresh k)
    have kept: "\<not> (\<exists>j \<in> set (delete_where P (jobs db)). owned_running i w j)" for P
      using none by (simp add: delete_where_def)
    show ?thesis
    proof (cases "sweep_terminal_jobs (w_settings W) (w_registry W) (w_sha256 W) (w_encode W)
        (w_uuid_text W) now fresh k (jobs db)")
      case (Inl err)
      with none show ?thesis by (simp add: SweepTerminal committed_jobs_def)
    next
      case (Inr r)
      obtain j T where r: "r = (j, T)" by fastforce
      from Inr [unfolded r sweep_terminal_jobs_def Let_def] have "\<not> (\<exists>j \<in> set T. owned_running i w j)"
        by (rule not_owned_enqueue [OF _ kept])
      with Inr r show ?thesis by (simp add: SweepTerminal committed_jobs_def)
    qed
  qed
  then show ?thesis using holder_Some_iff [OF q'] by blast
qed

interpretation job_fencing: fenced_store "job_step W" "job_inv W" holder acts_on claims_for for W
proof unfold_locales
  show "job_step W db e = db" if "job_inv W db" and "acts_on e w k" and "holder db k \<noteq> Some w" for db e w k
    using that by (simp add: job_inv_def unowned_write_ignored)
  show "holder (job_step W db e) k \<noteq> Some w"
    if "job_inv W db" and "\<not> claims_for e w" and "holder db k \<noteq> Some w" for db e w k
    by (rule unclaimed_not_granted [OF that])
qed

end
