(* ===== verification/Job_Properties.thy ===== *)
theory Job_Properties
  imports Job_System
begin

text \<open>
  The properties of the job queue, each with a witness on a small concrete queue.
\<close>

section \<open>A concrete queue\<close>

definition sample_job :: "uuid \<Rightarrow> uuid option \<Rightarrow> timestamp \<Rightarrow> job" where
  "sample_job i w t =
     \<lparr>j_id = i, j_workspace_id = w, j_concurrency_user_id = None, j_kind = ''kb.embed'',
      j_subject_type = None, j_subject_id = Some i, j_content_hash = ''h'', j_payload = [],
      j_priority = 100, j_status = JobPending, j_run_after = t, j_attempts = 0, j_max_attempts = 2,
      j_locked_by = None, j_locked_at = None, j_lock_expires_at = None,
      j_initiated_by_user_id = Some 5, j_last_error_code = None, j_last_error_message = None,
      j_finished_at = None, j_created_at = 0\<rparr>"

definition sample_queue :: "job list" where
  "sample_queue = [sample_job 1 (Some 7) 0, sample_job 2 (Some 7) 0, sample_job 3 None 0]"

definition sample_registry :: job_registry where
  "sample_registry = [''kb.embed'' \<mapsto> \<lparr>h_kind = ''kb.embed'', h_timeout = None, h_max_attempts = None\<rparr>]"

definition sample_world :: job_world where
  "sample_world = \<lparr>w_settings = default_job_settings, w_registry = sample_registry,
     w_sha256 = take 64, w_encode = (\<lambda>_. ''{}''), w_uuid_text = (\<lambda>_. ''u'')\<rparr>"

lemmas sample_defs = sample_job_def sample_queue_def default_job_settings_def

lemma sample_queue_inv: "queue_inv sample_queue"
  by (simp add: queue_inv_def sample_defs job_row_ok_def job_checks_def in_flight_row_def
      in_flight_def in_flight_key_def)

lemma sample_world_inv: "job_inv sample_world \<lparr>jobs = sample_queue, notifications = []\<rparr>"
  by (simp add: job_inv_def sample_world_def sample_queue_inv registry_ok_def sample_registry_def
      is_valid_job_kind_def lower_ascii_def)

section \<open>Claiming\<close>

text \<open>
  C1: one claim never takes a workspace (or a user-owned bucket) above the concurrency limit: the
  number of its running jobs afterwards is at most the limit, or what it already was.
\<close>

theorem claim_respects_concurrency_limit:
  assumes "queue_inv T"
  shows "(\<forall>v. int (workspace_running_count (snd (claim_jobs cfg owner now b ttl unlocked T)) v)
            \<le> max (JOBS_WORKSPACE_CONCURRENCY_LIMIT cfg) (int (workspace_running_count T v))) \<and>
         (\<forall>u. int (user_running_count (snd (claim_jobs cfg owner now b ttl unlocked T)) u)
            \<le> max (JOBS_WORKSPACE_CONCURRENCY_LIMIT cfg) (int (user_running_count T u)))"
proof (intro conjI allI)
  note checks = queue_invD(4) [OF assms]
  show "int (workspace_running_count (snd (claim_jobs cfg owner now b ttl unlocked T)) v)
          \<le> max (JOBS_WORKSPACE_CONCURRENCY_LIMIT cfg) (int (workspace_running_count T v))" for v
    unfolding workspace_running_count_def
  proof (rule claim_count_le [OF assms])
    show "same_owner i j" if "i \<in> set T" "j \<in> set T" "j_workspace_id i = Some v" "j_workspace_id j = Some v"
      for i j using that checks same_workspace_owner by blast
    show "running_count T j = int (rowcount (\<lambda>j. j_status j = JobRunning \<and> j_workspace_id j = Some v) T)"
      if "j \<in> set T" "j_workspace_id j = Some v" for j
      using running_count_workspace [OF checks [OF that(1)] that(2)]
      by (simp add: workspace_running_count_def)
  qed (simp_all add: has_no_concurrency_owner_def)
  show "int (user_running_count (snd (claim_jobs cfg owner now b ttl unlocked T)) u)
          \<le> max (JOBS_WORKSPACE_CONCURRENCY_LIMIT cfg) (int (user_running_count T u))" for u
    unfolding user_running_count_def
  proof (rule claim_count_le [OF assms])
    show "same_owner i j"
      if "i \<in> set T" "j \<in> set T" "j_concurrency_user_id i = Some u" "j_concurrency_user_id j = Some u"
      for i j using that checks same_user_owner by blast
    show "running_count T j =
        int (rowcount (\<lambda>j. j_status j = JobRunning \<and> j_concurrency_user_id j = Some u) T)"
      if "j \<in> set T" "j_concurrency_user_id j = Some u" for j
      using running_count_user [OF checks [OF that(1)] that(2)] by (simp add: user_running_count_def)
  qed (simp_all add: has_no_concurrency_owner_def)
qed

theorem claim_respects_concurrency_limit_witness:
  "int (workspace_running_count
      (snd (claim_jobs default_job_settings ''w1'' 10 None None (\<lambda>_. True) sample_queue)) 7) \<le> 4"
  using claim_respects_concurrency_limit [OF sample_queue_inv, of default_job_settings "''w1''" 10
      None None "\<lambda>_. True"]
  by (simp add: workspace_running_count_def rowcount_def sample_defs)

text \<open>
  The exact effect of a claim. Every claimed job was due and not locked by another transaction;
  the stored row is the returned one, running, owned by the claimer, with a lease of the requested
  time to live and one more attempt. No more than the batch is claimed, no other row changes, and
  what is claimed comes first in the order of priority, due time and creation time.
\<close>

theorem claim_jobs_effect:
  assumes "queue_inv T" and "claim_jobs cfg owner now b ttl unlocked T = (claimed, T')"
  shows "length claimed \<le> nat (or_default b (JOBS_WORKER_BATCH_SIZE cfg)) \<and>
    (\<forall>j \<in> set claimed. \<exists>p \<in> set T. due now p \<and> unlocked (j_id p) \<and> j_id j = j_id p \<and>
       row_by_id j_id (j_id p) T' = Some j \<and> j_status j = JobRunning \<and> j_locked_by j = Some owner \<and>
       j_lock_expires_at j = Some (now + timedelta_seconds (or_default ttl (JOBS_LOCK_TTL_SECONDS cfg))) \<and>
       j_attempts j = j_attempts p + 1) \<and>
    (\<forall>i. i \<notin> j_id ` set claimed \<longrightarrow> row_by_id j_id i T' = row_by_id j_id i T) \<and>
    (\<forall>p \<in> set T. \<forall>j \<in> set claimed. claimable cfg now T p \<and> unlocked (j_id p) \<and> j_id p \<notin> j_id ` set claimed \<longrightarrow>
       (j_priority j, j_run_after j, j_created_at j) \<le> (j_priority p, j_run_after p, j_created_at p))"
proof -
  let ?sel = "select_jobs_to_claim cfg now b unlocked T"
  let ?e = "now + timedelta_seconds (or_default ttl (JOBS_LOCK_TTL_SECONDS cfg))"
  have claimed: "claimed = map (claim_job owner now ?e) ?sel" and T': "T' = snd (claim_jobs cfg owner now b ttl unlocked T)"
    using assms(2) by (auto simp: claim_jobs_def Let_def)
  have ids: "j_id ` set claimed = j_id ` set ?sel" by (simp add: claimed image_image)
  have rows: "\<exists>p \<in> set T. due now p \<and> unlocked (j_id p) \<and> j_id j = j_id p \<and>
       row_by_id j_id (j_id p) T' = Some j \<and> j_status j = JobRunning \<and> j_locked_by j = Some owner \<and>
       j_lock_expires_at j = Some ?e \<and> j_attempts j = j_attempts p + 1" if "j \<in> set claimed" for j
  proof -
    from that obtain p where p: "p \<in> set ?sel" "j = claim_job owner now ?e p" by (auto simp: claimed)
    with selected_claimable [OF p(1)] have "p \<in> set T" "due now p" "unlocked (j_id p)"
      by (simp_all add: claimable_def)
    moreover have "row_by_id j_id (j_id p) T' = Some j"
      using row_by_id_unique [OF queue_invD(1) [OF assms(1)] \<open>p \<in> set T\<close>] p
      by (simp add: T' claim_jobs_row)
    ultimately show ?thesis using p(2) by (intro bexI [of _ p]) simp_all
  qed
  have "row_by_id j_id i T' = row_by_id j_id i T" if "i \<notin> j_id ` set claimed" for i
    using that by (simp add: T' claim_jobs_row ids option.map_ident)
  moreover have "(j_priority j, j_run_after j, j_created_at j) \<le> (j_priority p, j_run_after p, j_created_at p)"
    if "p \<in> set T" "j \<in> set claimed" "claimable cfg now T p" "unlocked (j_id p)" "j_id p \<notin> j_id ` set claimed" for p j
  proof -
    from that(2) obtain q where q: "q \<in> set ?sel" "j = claim_job owner now ?e q" by (auto simp: claimed)
    have "p \<notin> set ?sel" using that(5) unfolding ids by blast
    from select_first [where unl = unlocked, OF that(1,3,4) this q(1)] q(2) show ?thesis
      by (simp add: claim_job_def)
  qed
  moreover have "length claimed \<le> nat (or_default b (JOBS_WORKER_BATCH_SIZE cfg))"
    using select_batch by (simp add: claimed)
  ultimately show ?thesis using rows by blast
qed

theorem claim_jobs_effect_witness:
  "length (fst (claim_jobs default_job_settings ''w1'' 10 (Some 2) None (\<lambda>_. True) sample_queue)) \<le> 2"
proof -
  obtain c T' where "claim_jobs default_job_settings ''w1'' 10 (Some 2) None (\<lambda>_. True) sample_queue = (c, T')"
    by fastforce
  from claim_jobs_effect [OF sample_queue_inv this] this show ?thesis by (simp add: or_default_def)
qed

text \<open>
  C2: a claim never starves a free owner: if some due job has no concurrency owner, or its owner is
  below the limit, and no row is locked elsewhere, then a claim with a positive batch claims something.
\<close>

theorem claim_jobs_progress:
  assumes "queue_inv T" and "j \<in> set T" and "due now j"
    and "has_no_concurrency_owner j \<or> running_count T j < JOBS_WORKSPACE_CONCURRENCY_LIMIT cfg"
    and "0 < or_default b (JOBS_WORKER_BATCH_SIZE cfg)"
  shows "fst (claim_jobs cfg owner now b ttl (\<lambda>_. True) T) \<noteq> []"
proof -
  obtain q where "q \<in> set T" and "claimable cfg now T q"
    using owner_has_claimable [OF assms(1-4)] by blast
  from select_nonempty [OF this TrueI assms(5)] show ?thesis
    by (simp add: claim_jobs_def Let_def)
qed

theorem claim_jobs_progress_witness:
  "fst (claim_jobs default_job_settings ''w1'' 10 None None (\<lambda>_. True) sample_queue) \<noteq> []"
  by (rule claim_jobs_progress [OF sample_queue_inv, of "sample_job 3 None 0"])
     (simp_all add: sample_defs due_def has_no_concurrency_owner_def or_default_def)

section \<open>The invariant along every run\<close>

text \<open>
  C3: whatever the processes do, in whatever order, the queue keeps its invariant: unique ids, the
  in-flight index, attempts never above the maximum, a running row has an owner, a lease and an
  attempt, a pending row has neither owner nor lease and an attempt left, and a terminal row has a
  finish time and no owner.
\<close>

theorem queue_invariant_along_runs:
  assumes "valid_job_settings (w_settings W)" and "registry_ok (w_registry W)" and "queue_inv (jobs db)"
  shows "queue_inv (jobs (foldl (job_step W) db events))"
  using job_system.run_inv [of W db events] assms by (simp add: job_inv_def)

theorem queue_invariant_along_runs_witness:
  "queue_inv (jobs (foldl (job_step sample_world) \<lparr>jobs = sample_queue, notifications = []\<rparr>
     [Claim ''w1'' 10 None None (\<lambda>_. True), Renew 1 ''w1'' 20 None, Succeed 1 ''w1'' 30,
      Reclaim (\<lambda>_. 1) 1000000000 (\<lambda>_. True)]))"
  by (rule queue_invariant_along_runs) (use sample_world_inv in \<open>simp_all add: job_inv_def\<close>)

section \<open>Fencing\<close>

text \<open>
  C4: a worker that does not hold a job's lease cannot change anything by finishing, failing or
  renewing it: not now, and not after any sequence of events in which it claims nothing.
\<close>

theorem stale_worker_harmless:
  assumes "valid_job_settings (w_settings W)" and "registry_ok (w_registry W)" and "queue_inv (jobs db)"
    and "holder db i \<noteq> Some owner" and "\<forall>e \<in> set events. \<not> claims_for e owner"
    and "acts_on late owner i"
  shows "job_step W (foldl (job_step W) db events) late = foldl (job_step W) db events"
  using job_fencing.stale_owner_harmless [of W db i owner events late] assms by (simp add: job_inv_def)

theorem stale_worker_harmless_witness:
  "(let db = foldl (job_step sample_world) \<lparr>jobs = sample_queue, notifications = []\<rparr>
         [Claim ''w2'' 10 None None (\<lambda>_. True)]
    in job_step sample_world db (Succeed 1 ''w1'' 30) = db)"
  unfolding Let_def
  by (rule stale_worker_harmless [of sample_world _ 1 "''w1''"])
     (use sample_world_inv in \<open>simp_all add: job_inv_def holder_def row_by_id_def sample_defs\<close>)

section \<open>Enqueueing\<close>

text \<open>
  C5: enqueueing is idempotent: once a request was accepted, repeating it (at any later time, with
  any fresh identifier) returns the very same job and inserts nothing, as long as the table is the
  same; and the returned job is in flight and stored.
\<close>

theorem enqueue_idempotent:
  assumes "enqueue_job cfg registry sha256 encode now fresh T q = Inr (j, T')"
    and "fresh2 \<notin> j_id ` set T'"
  shows "enqueue_job cfg registry sha256 encode now2 fresh2 T' q = Inr (j, T') \<and>
         j \<in> set T' \<and> in_flight (j_status j)"
  using enqueue_job_result [OF assms(1)] assms(2) by (simp add: Let_def)

definition sample_request :: enqueue_request where
  "sample_request = \<lparr>q_kind = ''kb.embed'', q_workspace_id = Some 7, q_concurrency_user_id = None,
     q_subject_type = None, q_subject_id = Some 9, q_payload = None, q_content_hash = Some ''h'',
     q_priority = 100, q_run_after = None, q_max_attempts = None, q_initiated_by_user_id = None\<rparr>"

theorem enqueue_idempotent_witness:
  "\<exists>j T'. enqueue_job default_job_settings sample_registry (take 64) (\<lambda>_. ''{}'') 50 12 T' sample_request = Inr (j, T')
     \<and> length T' = 4"
proof -
  have "\<exists>j T'. enqueue_job default_job_settings sample_registry (take 64) (\<lambda>_. ''{}'') 40 11 sample_queue
      sample_request = Inr (j, T') \<and> length T' = 4 \<and> 12 \<notin> j_id ` set T'"
    by (simp add: enqueue_job_def get_job_handler_def sample_registry_def sample_request_def sample_defs
        Let_def normalize_content_hash_def or_string_def in_flight_collision_def in_flight_key_def
        new_job_def or_default_def)
  then obtain j T' where ok: "enqueue_job default_job_settings sample_registry (take 64) (\<lambda>_. ''{}'') 40 11
      sample_queue sample_request = Inr (j, T')" and len: "length T' = 4" and fresh: "12 \<notin> j_id ` set T'"
    by blast
  from enqueue_idempotent [OF ok fresh] len show ?thesis by blast
qed

section \<open>Reclaiming\<close>

text \<open>
  A reclaim pass recovers every expired lease it can lock, exactly once, and nothing else: the
  count is the number of such rows; each of them becomes pending again when it has an attempt left
  and failed otherwise, without owner or lease; every other row is untouched.
\<close>

theorem reclaim_complete:
  assumes "queue_inv (jobs db)"
  shows "(let (n, db') = reclaim_stale_jobs cfg jitter now unlocked db
          in n = rowcount (\<lambda>j. lease_expired now j \<and> unlocked (j_id j)) (jobs db) \<and>
             (\<forall>j \<in> set (jobs db).
                if lease_expired now j \<and> unlocked (j_id j)
                then (\<exists>j'. row_by_id j_id (j_id j) (jobs db') = Some j' \<and> lease_expiry_outcome now j j')
                else row_by_id j_id (j_id j) (jobs db') = Some j))"
proof -
  let ?js = "filter (\<lambda>j. unlocked (j_id j)) (filter (lease_expired now) (jobs db))"
  have rec: "reclaimable ?js db" by (rule stale_reclaimable [OF assms])
  obtain n db' where r: "reclaim_stale_jobs cfg jitter now unlocked db = (n, db')" by fastforce
  have n: "n = rowcount (\<lambda>j. lease_expired now j \<and> unlocked (j_id j)) (jobs db)"
    using reclaim_loop_count [OF rec, where cfg = cfg and jit = jitter and now = now and n = 0] r
    by (simp add: reclaim_stale_jobs_def rowcount_def conj_commute)
  have "if lease_expired now j \<and> unlocked (j_id j)
        then (\<exists>j'. row_by_id j_id (j_id j) (jobs db') = Some j' \<and> lease_expiry_outcome now j j')
        else row_by_id j_id (j_id j) (jobs db') = Some j" if j: "j \<in> set (jobs db)" for j
  proof -
    have same: "q = j" if "q \<in> set ?js" "j_id q = j_id j" for q
      using queue_inv_same_id [OF assms _ j] that by simp
    then have "j_id j \<in> j_id ` set ?js \<longleftrightarrow> lease_expired now j \<and> unlocked (j_id j)"
      using j by auto
    moreover have "row_by_id j_id (j_id j) (jobs db) = Some j"
      by (rule row_by_id_unique [OF queue_invD(1) [OF assms] j])
    ultimately show ?thesis
      using reclaim_loop_row [OF rec, where i = "j_id j" and cfg = cfg and jit = jitter and now = now and n = 0] r same
      unfolding reclaim_stale_jobs_def by (auto split: if_splits)
  qed
  with r n show ?thesis by simp
qed

definition sample_running :: job where
  "sample_running = claim_job ''w1'' 10 20 (sample_job 1 (Some 7) 0)"

theorem reclaim_complete_witness:
  "fst (reclaim_stale_jobs default_job_settings (\<lambda>_. 1) 30 (\<lambda>_. True)
     \<lparr>jobs = [sample_running], notifications = []\<rparr>) = 1"
proof -
  have "queue_inv (jobs \<lparr>jobs = [sample_running], notifications = []\<rparr>)"
    by (simp add: queue_inv_def sample_running_def job_row_ok_def job_checks_def claim_job_def
        sample_job_def)
  from reclaim_complete [OF this, of default_job_settings "\<lambda>_. 1" 30 "\<lambda>_. True"] show ?thesis
    by (simp add: rowcount_def lease_expired_def sample_running_def case_prod_beta)
qed

section \<open>Attempts\<close>

text \<open>
  An attempt is all or nothing. Its writes are kept only together with the success of the job: when
  the result is committed, the job was still owned by this worker at the final write, and the tables
  are the handler's, with exactly the owned row marked succeeded. In every other case all writes of
  the handler are gone, and the other tables are as the other transactions left them; and when the
  lease was lost the job tables are, too.
\<close>

theorem attempt_all_or_nothing:
  "(case execute_claimed_job cfg registry jitter result work meanwhile i owner t0 t1 t2 s of
      (outcome, s') \<Rightarrow>
        (outcome = Committed \<longrightarrow>
           (\<exists>j \<in> set (jobs (fst (work (meanwhile s)))). owned_running i owner j) \<and>
           s' = ((fst (work (meanwhile s)))\<lparr>jobs :=
                   update_where (owned_running i owner) (succeed_job t2) (jobs (fst (work (meanwhile s))))\<rparr>,
                 snd (work (meanwhile s)))) \<and>
        (outcome = NotExecutable \<longrightarrow> s' = s) \<and>
        (outcome \<in> {Dropped, Reraised} \<longrightarrow> s' = meanwhile s) \<and>
        (outcome = FailureRecorded \<longrightarrow> snd s' = snd (meanwhile s) \<and>
           ((\<forall>j \<in> set (jobs (fst (meanwhile s))). \<not> owned_running i owner j) \<longrightarrow> s' = meanwhile s)))"
proof (cases "find (executable_claim i owner t0) (jobs (fst s))")
  case None
  then show ?thesis by (simp add: execute_claimed_job_def)
next
  case (Some j0)
  show ?thesis
  proof (cases "find (executable_claim i owner t1) (jobs (fst s))")
    case None
    with Some show ?thesis by (simp add: execute_claimed_job_def)
  next
    case job: (Some j)
    then have id: "j_id j = i" by (auto simp: find_Some_iff executable_claim_def)
    obtain db1 r1 where m: "meanwhile s = (db1, r1)" by fastforce
    obtain db2 r2 where w: "work (db1, r1) = (db2, r2)" by fastforce
    have lost: "record_job_failure cfg jitter i owner c msg t2 db1 = db1"
      if "\<forall>j \<in> set (jobs db1). \<not> owned_running i owner j" for c msg
      using that by (auto simp: record_job_failure_def find_None_iff split: option.splits)
        (metis find_Some_iff nth_mem option.distinct(1))
    show ?thesis
    proof (cases "registry (j_kind j)")
      case None
      have "fst (finalize_job_failure cfg jitter j owner c msg t2 True db1) = None"
        if "\<forall>j \<in> set (jobs db1). \<not> owned_running i owner j" for c msg
        using that id by (auto simp: finalize_job_failure_def Let_def rowcount_0_iff)
      with Some job None m show ?thesis
        by (auto simp: execute_claimed_job_def get_job_handler_def split: prod.splits option.splits)
          (metis fst_conv option.distinct(1))+
    next
      case (Some h)
      with \<open>find (executable_claim i owner t0) (jobs (fst s)) = Some j0\<close> job m w lost id show ?thesis
        by (cases "result j")
           (auto simp: execute_claimed_job_def get_job_handler_def finalize_job_success_def
              rowcount_0_iff split: if_splits)
    qed
  qed
qed

definition sample_attempt :: "attempt_outcome \<times> job_db \<times> nat" where
  "sample_attempt =
     execute_claimed_job default_job_settings
       [''demo'' \<mapsto> \<lparr>h_kind = ''demo'', h_timeout = None, h_max_attempts = None\<rparr>]
       1 (\<lambda>_. HandlerReturned) (\<lambda>(db, n). (db, n + 1)) (\<lambda>s. s) 2 ''w1'' 12 13 15
       (\<lparr>jobs = [(claim_job ''w1'' 10 20 (sample_job 2 (Some 7) 0))\<lparr>j_kind := ''demo''\<rparr>], notifications = []\<rparr>, 5)"

lemma sample_attempt_committed: "fst sample_attempt = Committed"
  by (simp add: sample_attempt_def execute_claimed_job_def executable_claim_def claim_job_def sample_job_def
      get_job_handler_def finalize_job_success_def rowcount_def owned_running_def)

theorem attempt_all_or_nothing_witness:
  "fst sample_attempt = Committed \<and> snd (snd sample_attempt) = 6"
proof -
  obtain s' where s': "sample_attempt = (Committed, s')"
    using sample_attempt_committed by (metis prod.collapse)
  from attempt_all_or_nothing [where cfg = default_job_settings
      and registry = "[''demo'' \<mapsto> \<lparr>h_kind = ''demo'', h_timeout = None, h_max_attempts = None\<rparr>]"
      and jitter = 1 and result = "\<lambda>_. HandlerReturned" and work = "\<lambda>(db, n). (db, n + 1)" and meanwhile = "\<lambda>s. s"
      and i = 2 and owner = "''w1''" and ?t0.0 = 12 and ?t1.0 = 13 and ?t2.0 = 15
      and s = "(\<lparr>jobs = [(claim_job ''w1'' 10 20 (sample_job 2 (Some 7) 0))\<lparr>j_kind := ''demo''\<rparr>], notifications = []\<rparr>, 5 :: nat)"]
  show ?thesis unfolding sample_attempt_def [symmetric] s' by simp
qed

text \<open>
  The retry delay. For a jitter between 0.8 and 1.2 the delay lies between 0.8 times the smaller of
  base and cap and 1.2 times the cap, it never shrinks from one attempt to the next under the same
  jitter, and a job whose failure is not terminal runs again after exactly that delay, to within
  rounding to whole microseconds.
\<close>

theorem retry_delay_bounds:
  assumes "valid_job_settings cfg" and "4 / 5 \<le> jitter" and "jitter \<le> 6 / 5"
  shows "4 / 5 * of_int (min (JOBS_RETRY_BACKOFF_BASE_SECONDS cfg) (JOBS_RETRY_BACKOFF_CAP_SECONDS cfg))
           \<le> retry_backoff cfg jitter n \<and>
         retry_backoff cfg jitter n \<le> 6 / 5 * of_int (JOBS_RETRY_BACKOFF_CAP_SECONDS cfg) \<and>
         retry_backoff cfg jitter n \<le> retry_backoff cfg jitter (n + 1) \<and>
         j_run_after (fail_job cfg jitter now n code msg False j)
           \<ge> now + 800000 * min (JOBS_RETRY_BACKOFF_BASE_SECONDS cfg) (JOBS_RETRY_BACKOFF_CAP_SECONDS cfg) \<and>
         j_run_after (fail_job cfg jitter now n code msg False j)
           \<le> now + 1200000 * JOBS_RETRY_BACKOFF_CAP_SECONDS cfg"
proof -
  let ?base = "JOBS_RETRY_BACKOFF_BASE_SECONDS cfg" and ?cap = "JOBS_RETRY_BACKOFF_CAP_SECONDS cfg"
  let ?d = "\<lambda>n. min (?base * 2 ^ nat (max (n - 1) 0)) ?cap"
  have pos: "?base > 0" "?cap > 0" using assms(1) by (simp_all add: valid_job_settings_def)
  have grow: "?base \<le> ?base * 2 ^ k" for k
    using pos by simp
  have lo: "min ?base ?cap \<le> ?d n" and hi: "?d n \<le> ?cap" and dpos: "0 \<le> ?d n" for n
    using grow [of "nat (max (n - 1) 0)"] pos by linarith+
  have "(2::int) ^ nat (max (n - 1) 0) \<le> 2 ^ nat (max (n + 1 - 1) 0)"
    by (rule power_increasing) auto
  then have step: "?d n \<le> ?d (n + 1)" using pos by (intro min.mono) (auto simp: mult_left_mono)
  have b: "retry_backoff cfg jitter n = of_int (?d n) * jitter" for n
    by (simp add: retry_backoff_def Let_def)
  have low: "4 / 5 * of_int (min ?base ?cap) \<le> retry_backoff cfg jitter n" for n
  proof -
    have "of_int (min ?base ?cap) * (4 / 5) \<le> of_int (?d n) * jitter"
      using lo [of n] dpos [of n] assms(2) pos by (intro mult_mono) (auto simp del: of_int_min)
    then show ?thesis unfolding b by (simp add: mult.commute del: of_int_min)
  qed
  have high: "retry_backoff cfg jitter n \<le> 6 / 5 * of_int ?cap" for n
  proof -
    have "of_int (?d n) * jitter \<le> of_int ?cap * (6 / 5)"
      using hi [of n] dpos [of n] assms(2,3) pos by (intro mult_mono) (auto simp del: of_int_min)
    then show ?thesis unfolding b by (simp add: mult.commute del: of_int_min)
  qed
  have mono: "retry_backoff cfg jitter n \<le> retry_backoff cfg jitter (n + 1)"
    unfolding b using step assms(2) by (intro mult_right_mono) (simp_all del: of_int_min)
  let ?n = "if n = 0 then 1 else n"
  have run: "j_run_after (fail_job cfg jitter now n code msg False j) =
      now + round_half_even (retry_backoff cfg jitter ?n * 1000000)"
    by (simp add: fail_job_def Let_def timedelta_fractional_def)
  have "800000 * min ?base ?cap \<le> round_half_even (retry_backoff cfg jitter ?n * 1000000)"
    using low [of ?n] by (intro round_half_even_ge_int) (simp del: of_int_min)
  moreover have "round_half_even (retry_backoff cfg jitter ?n * 1000000) \<le> 1200000 * ?cap"
    using high [of ?n] by (intro round_half_even_le_int) simp
  ultimately show ?thesis using low high mono unfolding run by simp
qed

theorem retry_delay_bounds_witness:
  "retry_backoff default_job_settings 1 3 \<le> 4320"
proof -
  have "retry_backoff default_job_settings 1 3
      \<le> 6 / 5 * of_int (JOBS_RETRY_BACKOFF_CAP_SECONDS default_job_settings)"
    using retry_delay_bounds [of default_job_settings 1 3] by simp
  then show ?thesis by (simp add: default_job_settings_def)
qed

section \<open>Retention\<close>

text \<open>
  The retention sweep deletes only terminal rows finished before the cutoff, never a job in flight
  and never a cleanup job that did not succeed, changes no surviving row, and always leaves one
  sweep job in flight, so the sweep goes on.
\<close>

theorem sweep_deletes_only_old_terminal_jobs:
  assumes "sweep_terminal_jobs cfg registry sha256 encode uuid_text now fresh i T = Inr (follow_up, T')"
  shows "(\<forall>j \<in> set T. j \<notin> set T' \<longrightarrow>
            terminal_job (j_status j) \<and>
            (\<exists>f. j_finished_at j = Some f \<and> f < now - timedelta_days (JOBS_TERMINAL_RETENTION_DAYS cfg)) \<and>
            (j_kind j \<in> set CLEANUP_KINDS \<longrightarrow> j_status j = JobSucceeded)) \<and>
         set T' \<subseteq> insert follow_up (set T) \<and>
         follow_up \<in> set T' \<and> in_flight (j_status follow_up) \<and> j_kind follow_up = SWEEP_TERMINAL_JOBS_KIND"
proof -
  let ?D = "delete_where (sweepable (now - timedelta_days (JOBS_TERMINAL_RETENTION_DAYS cfg))) T"
  note enq = assms [unfolded sweep_terminal_jobs_def Let_def]
  have "T' = ?D \<or> T' = ?D @ [follow_up]"
    using enq by (cases rule: enqueue_job_cases) simp_all
  moreover have "follow_up \<in> set T' \<and> in_flight (j_status follow_up) \<and> j_kind follow_up = SWEEP_TERMINAL_JOBS_KIND"
    using enqueue_job_result [OF enq]
    by (auto simp: Let_def in_flight_key_def request_key_def system_request_def)
  ultimately show ?thesis
    by (auto simp: delete_where_def sweepable_def null_lt_def split: option.splits)
qed

definition sweep_registry :: job_registry where
  "sweep_registry = [SWEEP_TERMINAL_JOBS_KIND \<mapsto>
     \<lparr>h_kind = SWEEP_TERMINAL_JOBS_KIND, h_timeout = Some 120, h_max_attempts = None\<rparr>]"

theorem sweep_deletes_only_old_terminal_jobs_witness:
  "\<exists>follow_up T'. sweep_terminal_jobs default_job_settings sweep_registry (take 64) (\<lambda>_. ''{}'') (\<lambda>_. ''u'')
      5000 11 4 sample_queue = Inr (follow_up, T') \<and> follow_up \<in> set T'"
proof -
  have "\<exists>follow_up T'. sweep_terminal_jobs default_job_settings sweep_registry (take 64) (\<lambda>_. ''{}'') (\<lambda>_. ''u'')
      5000 11 4 sample_queue = Inr (follow_up, T')"
    by (simp add: sweep_terminal_jobs_def enqueue_job_def get_job_handler_def sweep_registry_def
        system_request_def sample_defs Let_def normalize_content_hash_def or_string_def
        in_flight_collision_def in_flight_key_def new_job_def or_default_def delete_where_def
        sweepable_def terminal_job_def SWEEP_TERMINAL_JOBS_KIND_def)
  then show ?thesis using sweep_deletes_only_old_terminal_jobs by blast
qed

end
