(* ===== verification/Agent_Runs.thy ===== *)
theory Agent_Runs
  imports Jobs
begin

text \<open>
  Agent runs (\<^verbatim>\<open>services/agent_runs\<close>, \<^verbatim>\<open>models/agent_run.py\<close>): the durable record of one agent turn, its
  lifecycle, the ownership of its execution by one invocation with a lease, settling a family (a root
  and its delegated children), and reaping what was abandoned.

  The state holds the tables the operations read and write. What they call outside this component is
  in the environment record: the settings, the job queue's registry, and four functions that are not
  modelled here: the text of a UUID and of a time, the parser of a saved generation, the staged
  content references of a run's metadata, and the recovery evidence of a family. \<open>now\<close> is the clock of
  the transaction; PostgreSQL sets \<^verbatim>\<open>updated_at\<close> on every UPDATE.
\<close>

section \<open>Vocabulary (domain.py)\<close>

datatype run_status =
    RunPending | RunRunning | RunAwaitingApproval | RunCompleted | RunFailed | RunCancelled

datatype run_outcome =
    OutcomeSuccess | OutcomeGateFailed | OutcomeBudgetExhausted | OutcomeBlocked | OutcomeError
  | OutcomeCancelled

datatype run_trigger = Interactive | Scheduled | Delegated | Event | UnknownTrigger string

definition terminal_statuses :: "run_status set" where
  "terminal_statuses = {RunCompleted, RunFailed, RunCancelled}"

fun allowed_transitions :: "run_status \<Rightarrow> run_status set" where
  "allowed_transitions RunPending = {RunRunning, RunFailed, RunCancelled}"
| "allowed_transitions RunRunning = {RunAwaitingApproval, RunCompleted, RunFailed, RunCancelled}"
| "allowed_transitions RunAwaitingApproval = {RunRunning, RunFailed, RunCancelled}"
| "allowed_transitions RunCompleted = {}"
| "allowed_transitions RunFailed = {}"
| "allowed_transitions RunCancelled = {}"

definition can_transition :: "run_status \<Rightarrow> run_status \<Rightarrow> bool" where
  "can_transition current target \<longleftrightarrow> target \<in> allowed_transitions current"

definition is_terminal :: "run_status \<Rightarrow> bool" where
  "is_terminal status \<longleftrightarrow> status \<in> terminal_statuses"

record run_usage =
  u_input_tokens :: "int option"
  u_input_tokens_cached :: "int option"
  u_output_tokens :: "int option"
  u_requests :: "int option"
  u_tool_calls :: "int option"
  u_raw_json :: "pydict option"

section \<open>Rows\<close>

record agent_run =
  ar_id :: uuid
  ar_conversation_id :: uuid
  ar_agent_id :: uuid
  ar_workspace_id :: uuid
  ar_user_id :: uuid
  ar_parent_run_id :: "uuid option"
  ar_delegation_depth :: int
  ar_trigger :: run_trigger
  ar_status :: run_status
  ar_model_name :: "string option"
  ar_started_at :: "timestamp option"
  ar_completed_at :: "timestamp option"
  ar_failed_at :: "timestamp option"
  ar_lease_expires_at :: "timestamp option"
  ar_owner_instance_id :: "string option"
  ar_usage :: run_usage
  ar_error_code :: "string option"
  ar_error_message :: "string option"
  ar_outcome :: "run_outcome option"
  ar_completion_json :: "pydict option"
  ar_metadata_json :: "pydict option"
  ar_created_at :: timestamp
  ar_updated_at :: timestamp
  ar_deleted :: bool

definition no_usage :: run_usage where
  "no_usage = \<lparr>u_input_tokens = None, u_input_tokens_cached = None, u_output_tokens = None,
     u_requests = None, u_tool_calls = None, u_raw_json = None\<rparr>"

text \<open>The partial unique index \<^verbatim>\<open>uq_agent_runs_active_conversation\<close>.\<close>

definition active_run :: "agent_run \<Rightarrow> bool" where
  "active_run r \<longleftrightarrow> \<not> ar_deleted r \<and> ar_status r \<in> {RunPending, RunRunning, RunAwaitingApproval}"

record conversation =
  cv_id :: uuid
  cv_workspace_id :: uuid
  cv_user_id :: uuid
  cv_active_agent_id :: "uuid option"
  cv_deleted :: bool

record agent =
  ag_id :: uuid
  ag_workspace_id :: uuid
  ag_is_active :: bool
  ag_deleted :: bool

record run_audit =
  au_workspace_id :: uuid
  au_resource_id :: uuid
  au_operation :: string
  au_generation :: "string option"
  au_status :: run_status
  au_outcome :: "run_outcome option"

record run_db =
  agent_runs :: "agent_run list"
  conversations :: "conversation list"
  agents :: "agent list"
  run_jobs :: "job list"
  run_audits :: "run_audit list"

record run_env =
  e_settings :: agent_settings
  e_job_settings :: job_settings
  e_registry :: job_registry
  e_sha256 :: "string \<Rightarrow> string"
  e_encode :: "pydict \<Rightarrow> string"
  e_uuid_text :: "uuid \<Rightarrow> string"
  e_isoformat :: "timestamp \<Rightarrow> string"
  e_generation :: "json option \<Rightarrow> string option"
  e_staged_refs :: "agent_run \<Rightarrow> string list"
  e_evidence :: "agent_run list \<Rightarrow> pydict"
  e_fresh_job :: "agent_run \<Rightarrow> uuid"

section \<open>Helpers (utils.py)\<close>

definition BLOCKED_ERROR_CODES :: "string set" where
  "BLOCKED_ERROR_CODES =
     {''approval_expired'', ''agent_run_resume_requires_recovery'', ''delegation_requires_recovery'',
      ''code_mode_resume_requires_recovery'', ''schedule_execution_abandoned''}"

definition terminal_run_outcome :: "run_status \<Rightarrow> string option \<Rightarrow> app_error + run_outcome" where
  "terminal_run_outcome target error_code =
     (if target = RunCompleted then Inr OutcomeSuccess
      else if target = RunCancelled then Inr OutcomeCancelled
      else if target \<noteq> RunFailed
        then Inl (ValueError ''Cannot derive an outcome for non-terminal status'')
      else if error_code = Some ''usage_limit_exceeded'' then Inr OutcomeBudgetExhausted
      else if (case error_code of None \<Rightarrow> False | Some c \<Rightarrow> c \<in> BLOCKED_ERROR_CODES)
        then Inr OutcomeBlocked
      else Inr OutcomeError)"

definition failure_completion_json :: "string option \<Rightarrow> pydict" where
  "failure_completion_json error_code =
     [(''error_code'', JStr (or_string error_code ''agent_run_failed''))]"

definition MAX_COMPLETION_JSON_BYTES :: nat where
  "MAX_COMPLETION_JSON_BYTES = 72 * 1024"

definition validate_completion_json :: "pydict option \<Rightarrow> app_error + pydict option" where
  "validate_completion_json v =
     (case v of
        None \<Rightarrow> Inr None
      | Some d \<Rightarrow>
          if json_bytes (JObj d) > MAX_COMPLETION_JSON_BYTES
          then Inl (ValueError ''completion_json must not exceed 73728 serialized bytes'')
          else Inr (Some d))"

definition clear_suspended_run_metadata :: "agent_run \<Rightarrow> pydict option" where
  "clear_suspended_run_metadata run =
     (let metadata = dict_pop ''approval_continuation'' (dict_pop ''code_mode_state''
            (dict_pop ''approval_state'' (or_empty (ar_metadata_json run))))
      in if metadata = [] then None else Some metadata)"

definition audit_approval_completion ::
    "run_env \<Rightarrow> agent_run \<Rightarrow> pydict \<Rightarrow> run_status \<Rightarrow> run_outcome option \<Rightarrow> run_audit" where
  "audit_approval_completion env run reservation status outcome =
     \<lparr>au_workspace_id = ar_workspace_id run, au_resource_id = ar_id run,
      au_operation = ''approval_execution_completed'',
      au_generation = e_generation env (dict_get reservation ''generation''),
      au_status = status, au_outcome = outcome\<rparr>"

section \<open>Transitions\<close>

text \<open>
  \<open>stamp_transition\<close> is what \<^verbatim>\<open>transition_run_status\<close> writes to the refreshed row once every check has
  passed; \<open>outcome\<close> and \<open>completion\<close> are the resolved and validated values.
\<close>

definition stamp_transition ::
    "timestamp \<Rightarrow> run_status \<Rightarrow> string option \<Rightarrow> string option \<Rightarrow> run_outcome option \<Rightarrow> pydict option \<Rightarrow>
     agent_run \<Rightarrow> agent_run" where
  "stamp_transition now target error_code error_message outcome completion run =
     (let stamped =
            (if target = RunRunning \<and>
                (ar_started_at run = None \<or> ar_status run = RunAwaitingApproval)
             then run\<lparr>ar_status := target, ar_started_at := Some now\<rparr>
             else if target = RunCompleted
             then run\<lparr>ar_status := target, ar_completed_at := Some now\<rparr>
             else if target = RunFailed
             then run\<lparr>ar_status := target, ar_failed_at := Some now, ar_error_code := error_code,
                      ar_error_message := sanitize_error_message error_message\<rparr>
             else run\<lparr>ar_status := target\<rparr>)
      in (if target \<in> terminal_statuses
          then stamped\<lparr>ar_metadata_json := clear_suspended_run_metadata run, ar_outcome := outcome,
                       ar_completion_json := completion, ar_lease_expires_at := None\<rparr>
          else if target = RunAwaitingApproval then stamped\<lparr>ar_lease_expires_at := None\<rparr>
          else stamped)\<lparr>ar_updated_at := now\<rparr>)"

definition resolve_outcome ::
    "run_status \<Rightarrow> string option \<Rightarrow> run_outcome option \<Rightarrow> app_error + run_outcome option" where
  "resolve_outcome target error_code outcome =
     (if target \<notin> terminal_statuses then Inr None
      else case outcome of
             Some v \<Rightarrow> Inr (Some v)
           | None \<Rightarrow> bind_result (terminal_run_outcome target error_code) (\<lambda>v. Inr (Some v)))"

definition resolve_completion ::
    "run_status \<Rightarrow> string option \<Rightarrow> pydict option \<Rightarrow> app_error + pydict option" where
  "resolve_completion target error_code completion =
     (if target \<notin> terminal_statuses then Inr None
      else validate_completion_json
        (case completion of
           Some v \<Rightarrow> Some v
         | None \<Rightarrow> if target = RunFailed then Some (failure_completion_json error_code) else None))"

definition completion_audit ::
    "run_env \<Rightarrow> agent_run \<Rightarrow> run_status \<Rightarrow> run_outcome option \<Rightarrow> run_audit list" where
  "completion_audit env run target outcome =
     (if target \<notin> terminal_statuses then []
      else case dict_get (or_empty (ar_metadata_json run)) ''approval_continuation'' of
             Some (JObj reservation) \<Rightarrow> [audit_approval_completion env run reservation target outcome]
           | _ \<Rightarrow> [])"

definition transition_run_status ::
    "run_env \<Rightarrow> timestamp \<Rightarrow> uuid \<Rightarrow> run_status \<Rightarrow> string option \<Rightarrow> string option \<Rightarrow> run_outcome option \<Rightarrow>
     pydict option \<Rightarrow> run_db \<Rightarrow> app_error + agent_run \<times> run_db" where
  "transition_run_status env now i target error_code error_message outcome completion db =
     (case row_by_id ar_id i (agent_runs db) of
        None \<Rightarrow> Inl (InvalidRequestError ''Could not refresh instance'')
      | Some run \<Rightarrow>
          (if ar_status run = target then Inr (run, db)
           else if \<not> can_transition (ar_status run) target
             then Inl (ConflictError ''Cannot move agent run'')
           else if target \<notin> terminal_statuses \<and> (outcome \<noteq> None \<or> completion \<noteq> None)
             then Inl (ValueError
               ''outcome and completion_json can only be set on a terminal transition'')
           else
             bind_result (resolve_outcome target error_code outcome) (\<lambda>resolved.
             bind_result (resolve_completion target error_code completion) (\<lambda>validated.
               (let run' = stamp_transition now target error_code error_message resolved validated run
                in Inr (run', db\<lparr>agent_runs := write_row ar_id run' (agent_runs db),
                                 run_audits := run_audits db @
                                   completion_audit env run target resolved\<rparr>))))))"

definition start_agent_run :: "run_env \<Rightarrow> timestamp \<Rightarrow> uuid \<Rightarrow> run_db \<Rightarrow> app_error + agent_run \<times> run_db" where
  "start_agent_run env now i db = transition_run_status env now i RunRunning None None None None db"

definition mark_run_awaiting_approval ::
    "run_env \<Rightarrow> timestamp \<Rightarrow> uuid \<Rightarrow> run_db \<Rightarrow> app_error + agent_run \<times> run_db" where
  "mark_run_awaiting_approval env now i db =
     transition_run_status env now i RunAwaitingApproval None None None None db"

text \<open>
  \<^verbatim>\<open>complete_agent_run\<close> first looks at the object the caller holds, which may be stale: \<open>held\<close> is the
  status it shows.
\<close>

definition complete_agent_run ::
    "run_env \<Rightarrow> timestamp \<Rightarrow> agent_run \<Rightarrow> run_outcome option \<Rightarrow> pydict option \<Rightarrow> run_db \<Rightarrow>
     app_error + agent_run \<times> run_db" where
  "complete_agent_run env now held outcome completion db =
     (if is_terminal (ar_status held) then Inr (held, db)
      else transition_run_status env now (ar_id held) RunCompleted None None outcome completion db)"

definition fail_agent_run ::
    "run_env \<Rightarrow> timestamp \<Rightarrow> uuid \<Rightarrow> string option \<Rightarrow> string option \<Rightarrow> run_outcome option \<Rightarrow> pydict option \<Rightarrow>
     run_db \<Rightarrow> app_error + agent_run \<times> run_db" where
  "fail_agent_run env now i error_code error_message outcome completion db =
     transition_run_status env now i RunFailed error_code error_message outcome completion db"

definition cancel_agent_run ::
    "run_env \<Rightarrow> timestamp \<Rightarrow> uuid \<Rightarrow> run_outcome option \<Rightarrow> pydict option \<Rightarrow> run_db \<Rightarrow>
     app_error + agent_run \<times> run_db" where
  "cancel_agent_run env now i outcome completion db =
     transition_run_status env now i RunCancelled None None outcome completion db"

definition record_run_usage :: "timestamp \<Rightarrow> uuid \<Rightarrow> run_usage \<Rightarrow> run_db \<Rightarrow> run_db" where
  "record_run_usage now i usage db =
     db\<lparr>agent_runs := update_where (\<lambda>r. ar_id r = i)
           (\<lambda>r. if ar_usage r = usage then r else r\<lparr>ar_usage := usage, ar_updated_at := now\<rparr>)
           (agent_runs db)\<rparr>"

end
