(* ===== verification/Run_Execution.thy ===== *)
theory Run_Execution
  imports Agent_Runs
begin

text \<open>
  Creating runs, owning their execution, settling a family and reaping abandoned runs
  (\<^verbatim>\<open>services/agent_runs/create.py\<close>, \<^verbatim>\<open>claim_execution.py\<close>, \<^verbatim>\<open>start_with_lease.py\<close>, \<^verbatim>\<open>renew_lease.py\<close>,
  \<^verbatim>\<open>execution_state.py\<close>, \<^verbatim>\<open>settle_run_family.py\<close>, \<^verbatim>\<open>reap_abandoned.py\<close>, \<^verbatim>\<open>request_cancel.py\<close>).
\<close>

section \<open>Ownership of an execution\<close>

definition claim_agent_run_execution ::
    "run_env \<Rightarrow> uuid \<Rightarrow> string \<Rightarrow> timestamp \<Rightarrow> int option \<Rightarrow> run_db \<Rightarrow> app_error + agent_run \<times> run_db" where
  "claim_agent_run_execution env i owner now ttl_seconds db =
     (case row_by_id ar_id i (agent_runs db) of
        None \<Rightarrow> Inl (InvalidRequestError ''Could not refresh instance'')
      | Some run \<Rightarrow>
          (let resumable = (ar_status run = RunAwaitingApproval);
               unclaimed = (ar_status run \<in> {RunPending, RunRunning} \<and> ar_owner_instance_id run = None)
           in if ar_deleted run \<or> \<not> (resumable \<or> unclaimed)
              then Inl (ConflictError ''Agent run execution is already claimed or closed'')
              else if null_le (ar_lease_expires_at run) now
              then Inl (ConflictError ''Agent run execution lease has expired'')
              else
                (let started =
                       (if resumable then run\<lparr>ar_status := RunRunning, ar_started_at := Some now\<rparr>
                        else if ar_started_at run = None
                        then run\<lparr>ar_started_at := Some (ar_created_at run)\<rparr>
                        else run);
                     ttl = if_none ttl_seconds (AGENT_RUN_LEASE_TTL_SECONDS (e_settings env));
                     run' = started\<lparr>ar_owner_instance_id := Some owner,
                              ar_lease_expires_at := Some (now + timedelta_seconds ttl),
                              ar_updated_at := now\<rparr>
                 in Inr (run', db\<lparr>agent_runs := write_row ar_id run' (agent_runs db)\<rparr>))))"

text \<open>
  \<open>owner\<close> is the caller's instance id, or the fresh one the source draws when the caller gives none;
  \<open>clock\<close> is the clock that \<^verbatim>\<open>transition_run_status\<close> reads.
\<close>

definition start_agent_run_with_lease ::
    "run_env \<Rightarrow> uuid \<Rightarrow> string \<Rightarrow> timestamp \<Rightarrow> timestamp \<Rightarrow> int option \<Rightarrow> run_db \<Rightarrow>
     app_error + agent_run \<times> run_db" where
  "start_agent_run_with_lease env i owner now clock ttl_seconds db =
     (case row_by_id ar_id i (agent_runs db) of
        None \<Rightarrow> Inl (InvalidRequestError ''Could not refresh instance'')
      | Some run \<Rightarrow>
          bind_result
            (if ar_owner_instance_id run = None \<or> ar_status run = RunAwaitingApproval
             then bind_result (claim_agent_run_execution env i owner now ttl_seconds db) (\<lambda>(r, d). Inr d)
             else if ar_owner_instance_id run \<noteq> Some owner \<or> ar_lease_expires_at run = None \<or>
                     null_le (ar_lease_expires_at run) now
             then Inl (ConflictError ''Agent run execution lease is no longer owned'')
             else Inr db)
            (transition_run_status env clock i RunRunning None None None None))"

definition lease_held :: "uuid \<Rightarrow> string \<Rightarrow> uuid \<Rightarrow> uuid \<Rightarrow> timestamp \<Rightarrow> agent_run \<Rightarrow> bool" where
  "lease_held i owner workspace user now r \<longleftrightarrow>
     ar_id r = i \<and> ar_workspace_id r = workspace \<and> ar_user_id r = user \<and>
     ar_owner_instance_id r = Some owner \<and> null_gt (ar_lease_expires_at r) now \<and>
     \<not> ar_deleted r \<and> ar_status r \<in> {RunPending, RunRunning}"

definition renew_agent_run_lease ::
    "run_env \<Rightarrow> uuid \<Rightarrow> string \<Rightarrow> uuid \<Rightarrow> uuid \<Rightarrow> timestamp \<Rightarrow> int option \<Rightarrow> run_db \<Rightarrow> bool \<times> run_db" where
  "renew_agent_run_lease env i owner workspace user now ttl_seconds db =
     (let ttl = if_none ttl_seconds (AGENT_RUN_LEASE_TTL_SECONDS (e_settings env))
      in (rowcount (lease_held i owner workspace user now) (agent_runs db) \<noteq> 0,
          db\<lparr>agent_runs := update_where (lease_held i owner workspace user now)
               (\<lambda>r. r\<lparr>ar_lease_expires_at := Some (now + timedelta_seconds ttl), ar_updated_at := now\<rparr>)
               (agent_runs db)\<rparr>))"

definition require_execution_owner :: "agent_run \<Rightarrow> string \<Rightarrow> timestamp \<Rightarrow> app_error + unit" where
  "require_execution_owner run owner now =
     (if ar_deleted run \<or> ar_status run \<notin> {RunPending, RunRunning} \<or>
         ar_owner_instance_id run \<noteq> Some owner \<or> ar_lease_expires_at run = None \<or>
         null_le (ar_lease_expires_at run) now
      then Inl (ConflictError ''Agent run execution is no longer owned'') else Inr ())"

definition read_execution_states ::
    "uuid list \<Rightarrow> uuid \<Rightarrow> uuid \<Rightarrow> run_db \<Rightarrow> uuid \<rightharpoonup> run_status \<times> string option \<times> timestamp option" where
  "read_execution_states ids workspace user db =
     map_of (map (\<lambda>r. (ar_id r, ar_status r, ar_owner_instance_id r, ar_lease_expires_at r))
       (filter (\<lambda>r. ar_id r \<in> set ids \<and> ar_workspace_id r = workspace \<and> ar_user_id r = user \<and>
                    \<not> ar_deleted r) (agent_runs db)))"

section \<open>Families\<close>

definition in_scope :: "agent_run \<Rightarrow> agent_run \<Rightarrow> bool" where
  "in_scope c r \<longleftrightarrow>
     ar_workspace_id r = ar_workspace_id c \<and> ar_user_id r = ar_user_id c \<and> \<not> ar_deleted r"

definition lock_run_family :: "uuid \<Rightarrow> run_db \<Rightarrow> agent_run list" where
  "lock_run_family i db =
     (case find (\<lambda>r. ar_id r = i \<and> \<not> ar_deleted r) (agent_runs db) of
        None \<Rightarrow> []
      | Some candidate \<Rightarrow>
          (let root_id = if_none (ar_parent_run_id candidate) (ar_id candidate)
           in case find (\<lambda>r. ar_id r = root_id \<and> in_scope candidate r) (agent_runs db) of
                None \<Rightarrow> []
              | Some main_run \<Rightarrow> main_run # sort_key ar_id
                  (filter (\<lambda>r. ar_parent_run_id r = Some root_id \<and> in_scope candidate r)
                     (agent_runs db))))"

definition DELETE_STAGED_APPROVAL_CONTENT_KIND :: string where
  "DELETE_STAGED_APPROVAL_CONTENT_KIND = ''agent_runs.delete_staged_approval_content''"

definition enqueue_staged_approval_content_cleanup ::
    "run_env \<Rightarrow> timestamp \<Rightarrow> agent_run \<Rightarrow> run_db \<Rightarrow> app_error + run_db" where
  "enqueue_staged_approval_content_cleanup env now run db =
     (let content_refs = e_staged_refs env run
      in if content_refs = [] then Inr db
         else bind_result
           (enqueue_job (e_job_settings env) (e_registry env) (e_sha256 env) (e_encode env) now
              (e_fresh_job env run) (run_jobs db)
              \<lparr>q_kind = DELETE_STAGED_APPROVAL_CONTENT_KIND, q_workspace_id = None,
               q_concurrency_user_id = None, q_subject_type = Some ''agent_run'',
               q_subject_id = Some (ar_id run),
               q_payload = Some [(''workspace_id'', JStr (e_uuid_text env (ar_workspace_id run))),
                                 (''run_id'', JStr (e_uuid_text env (ar_id run))),
                                 (''content_refs'', JArr (map JStr content_refs))],
               q_content_hash = Some ''delete-staged-approval-content'', q_priority = 100,
               q_run_after = None, q_max_attempts = None, q_initiated_by_user_id = None\<rparr>)
           (\<lambda>(job, T). Inr (db\<lparr>run_jobs := T\<rparr>)))"

definition RECOVERY_ERROR_CODE :: string where
  "RECOVERY_ERROR_CODE = ''agent_run_resume_requires_recovery''"

definition INTERRUPTION_ERROR_CODES :: "string set" where
  "INTERRUPTION_ERROR_CODES =
     {RECOVERY_ERROR_CODE, ''code_mode_resume_requires_recovery'', ''delegation_requires_recovery'',
      ''schedule_execution_abandoned'', ''run_abandoned'', ''agent_run_cancel_requested'',
      ''run_duration_expired'', ''run_lease_lost'', ''run_parent_terminated'', ''run_process_shutdown''}"

definition json_truthy :: "json option \<Rightarrow> bool" where
  "json_truthy v =
     (case v of None \<Rightarrow> False | Some JNull \<Rightarrow> False | Some (JBool b) \<Rightarrow> b | Some (JInt n) \<Rightarrow> n \<noteq> 0
      | Some (JStr s) \<Rightarrow> s \<noteq> [] | Some (JArr xs) \<Rightarrow> xs \<noteq> [] | Some (JObj d) \<Rightarrow> d \<noteq> [])"

definition recovery_required :: "string option \<Rightarrow> pydict \<Rightarrow> bool" where
  "recovery_required error_code evidence \<longleftrightarrow>
     (if (case error_code of None \<Rightarrow> True | Some c \<Rightarrow> c \<in> INTERRUPTION_ERROR_CODES) then True
      else case dict_get evidence ''recovery'' of
             Some (JObj recovery) \<Rightarrow>
               (if json_truthy (dict_get recovery ''truncated'') \<or>
                   json_truthy (dict_get recovery ''unavailable_child_run_ids'') then True
                else case dict_get recovery ''actions'' of
                       Some (JArr actions) \<Rightarrow>
                         list_ex (\<lambda>a. case a of
                            JObj d \<Rightarrow> dict_get d ''status'' = Some (JStr ''uncertain'') | _ \<Rightarrow> False) actions
                     | _ \<Rightarrow> True)
           | _ \<Rightarrow> True)"

text \<open>
  What the settlement records on its target: the error code and message, and the evidence when the
  family was executing approved actions.
\<close>

definition settlement_record ::
    "run_env \<Rightarrow> agent_run list \<Rightarrow> agent_run \<Rightarrow> run_status \<Rightarrow> string option \<Rightarrow> string option \<Rightarrow>
     string option \<times> string option \<times> pydict option" where
  "settlement_record env family target status error_code error_message =
     (let main_run = hd family;
          reservation = dict_get (or_empty (ar_metadata_json main_run)) ''approval_continuation''
      in if (status = RunFailed \<and> error_code = Some RECOVERY_ERROR_CODE) \<or>
            (reservation \<noteq> None \<and> reservation \<noteq> Some JNull)
         then
           (let evidence = e_evidence env family
            in if status = RunFailed \<and> error_code \<noteq> Some ''usage_limit_exceeded'' \<and>
                  (ar_id target = ar_id main_run \<or>
                   error_code \<in> {Some RECOVERY_ERROR_CODE, Some ''code_mode_resume_requires_recovery''}) \<and>
                  recovery_required error_code evidence
               then (Some RECOVERY_ERROR_CODE,
                     Some (''The approved work stopped before its result could be confirmed. '' @
                           ''Review completed and uncertain actions before starting more work.''),
                     Some evidence)
               else if status = RunFailed
               then (error_code, error_message,
                     Some (dict_set ''error_code'' (JStr (or_string error_code ''agent_run_failed'')) evidence))
               else (error_code, error_message, Some evidence))
         else (error_code, error_message, None))"

fun settle_loop ::
    "run_env \<Rightarrow> timestamp \<Rightarrow> uuid \<Rightarrow> run_status \<Rightarrow> string option \<times> string option \<times> pydict option \<Rightarrow>
     agent_run list \<Rightarrow> agent_run list \<Rightarrow> run_db \<Rightarrow> app_error + agent_run list \<times> run_db" where
  "settle_loop env now i status verdict [] changed db = Inr (changed, db)"
| "settle_loop env now i status verdict (run # runs) changed db =
     (if ar_id run \<noteq> i \<and> ar_parent_run_id run \<noteq> Some i
      then settle_loop env now i status verdict runs changed db
      else if is_terminal (ar_status run)
      then settle_loop env now i status verdict runs changed db
      else
        (case verdict of (error_code, error_message, completion) \<Rightarrow>
          bind_result (enqueue_staged_approval_content_cleanup env now run db) (\<lambda>db1.
          bind_result (transition_run_status env now (ar_id run) status
              (if ar_id run = i then error_code else Some ''run_parent_terminated'')
              (if ar_id run = i then error_message
               else Some ''The specialist stopped because its parent run ended.'')
              None (if ar_id run = i then completion else None) db1) (\<lambda>(run', db2).
            settle_loop env now i status verdict runs (changed @ [run']) db2))))"

definition settle_run_family ::
    "run_env \<Rightarrow> timestamp \<Rightarrow> uuid \<Rightarrow> run_status \<Rightarrow> string option \<Rightarrow> string option \<Rightarrow> string option \<Rightarrow>
     run_db \<Rightarrow> app_error + agent_run list \<times> run_db" where
  "settle_run_family env now i status error_code error_message owner db =
     (if status \<notin> {RunFailed, RunCancelled}
      then Inl (ValueError ''Family settlement requires failure or cancellation'')
      else
        (let family = lock_run_family i db
         in case find (\<lambda>r. ar_id r = i) family of
              None \<Rightarrow> Inr ([], db)
            | Some target \<Rightarrow>
                (if owner \<noteq> None \<and> ar_owner_instance_id target \<noteq> owner then Inr ([], db)
                 else settle_loop env now i status
                   (settlement_record env family target status error_code error_message)
                   family [] db)))"

section \<open>Creating a run\<close>

definition validate_run_context ::
    "uuid \<Rightarrow> uuid \<Rightarrow> uuid \<Rightarrow> uuid \<Rightarrow> run_db \<Rightarrow> app_error + unit" where
  "validate_run_context conversation_id agent_id workspace_id user_id db =
     (case find (\<lambda>c. cv_id c = conversation_id \<and> \<not> cv_deleted c) (conversations db) of
        None \<Rightarrow> Inl (NotFoundError ''Conversation not found'')
      | Some c \<Rightarrow>
     (case find (\<lambda>a. ag_id a = agent_id \<and> \<not> ag_deleted a) (agents db) of
        None \<Rightarrow> Inl (NotFoundError ''Agent not found'')
      | Some a \<Rightarrow>
          (if cv_workspace_id c \<noteq> workspace_id \<or> cv_user_id c \<noteq> user_id \<or>
              (cv_active_agent_id c \<noteq> None \<and> cv_active_agent_id c \<noteq> Some agent_id) \<or>
              ag_workspace_id a \<noteq> workspace_id
           then Inl (ConflictError ''Agent run context is inconsistent'')
           else Inr ())))"

definition reserved_metadata_keys :: "string set" where
  "reserved_metadata_keys = {''effective_usage_limits'', ''progress_reviews''}"

definition transcript_metadata_keys :: "string set" where
  "transcript_metadata_keys = {''transcript_invocation_id'', ''interrupted_history_truncation''}"

definition metadata_uses :: "pydict option \<Rightarrow> string set \<Rightarrow> bool" where
  "metadata_uses metadata ks \<longleftrightarrow>
     (case metadata of None \<Rightarrow> False | Some d \<Rightarrow> fst ` set d \<inter> ks \<noteq> {})"

definition check_parent_run ::
    "uuid \<Rightarrow> string option \<Rightarrow> uuid \<Rightarrow> uuid \<Rightarrow> timestamp \<Rightarrow> run_db \<Rightarrow> app_error + unit" where
  "check_parent_run parent_id parent_owner workspace_id user_id now db =
     (case lock_run_family parent_id db of
        [] \<Rightarrow> Inl (ConflictError ''Parent run is no longer executable'')
      | parent # _ \<Rightarrow>
          (if ar_id parent \<noteq> parent_id \<or> ar_workspace_id parent \<noteq> workspace_id \<or>
              ar_user_id parent \<noteq> user_id \<or> ar_status parent \<notin> {RunPending, RunRunning}
           then Inl (ConflictError ''Parent run is no longer executable'')
           else case parent_owner of
                  None \<Rightarrow> Inr ()
                | Some owner \<Rightarrow> require_execution_owner parent owner now))"

record run_request =
  rq_conversation_id :: uuid
  rq_agent_id :: uuid
  rq_workspace_id :: uuid
  rq_user_id :: uuid
  rq_trigger :: run_trigger
  rq_model_name :: "string option"
  rq_metadata :: "pydict option"
  rq_parent_run_id :: "uuid option"
  rq_parent_owner :: "string option"
  rq_delegation_depth :: int

definition new_run :: "uuid \<Rightarrow> timestamp \<Rightarrow> run_request \<Rightarrow> agent_run" where
  "new_run fresh now q =
     \<lparr>ar_id = fresh, ar_conversation_id = rq_conversation_id q, ar_agent_id = rq_agent_id q,
      ar_workspace_id = rq_workspace_id q, ar_user_id = rq_user_id q,
      ar_parent_run_id = rq_parent_run_id q, ar_delegation_depth = rq_delegation_depth q,
      ar_trigger = rq_trigger q, ar_status = RunPending, ar_model_name = rq_model_name q,
      ar_started_at = None, ar_completed_at = None, ar_failed_at = None,
      ar_lease_expires_at = None, ar_owner_instance_id = None, ar_usage = no_usage,
      ar_error_code = None, ar_error_message = None, ar_outcome = None, ar_completion_json = None,
      ar_metadata_json = rq_metadata q, ar_created_at = now, ar_updated_at = now,
      ar_deleted = False\<rparr>"

definition create_agent_run ::
    "timestamp \<Rightarrow> uuid \<Rightarrow> run_request \<Rightarrow> run_db \<Rightarrow> app_error + agent_run \<times> run_db" where
  "create_agent_run now fresh q db =
     (if metadata_uses (rq_metadata q) reserved_metadata_keys
      then Inl (CustomValueError ''Effective usage limits are owned by run execution'')
      else if metadata_uses (rq_metadata q) transcript_metadata_keys
      then Inl (CustomValueError ''Transcript metadata is owned by run execution'')
      else if (case rq_trigger q of UnknownTrigger t \<Rightarrow> True | _ \<Rightarrow> False)
      then Inl (CustomValueError ''Unknown agent run trigger'')
      else if rq_delegation_depth q < 0
      then Inl (CustomValueError ''Agent run delegation_depth must be non-negative'')
      else
        bind_result (validate_run_context (rq_conversation_id q) (rq_agent_id q) (rq_workspace_id q)
            (rq_user_id q) db) (\<lambda>_.
        bind_result (case rq_parent_run_id q of
              None \<Rightarrow> Inr ()
            | Some p \<Rightarrow> check_parent_run p (rq_parent_owner q) (rq_workspace_id q) (rq_user_id q) now db)
          (\<lambda>_.
            (let run = new_run fresh now q
             in if fresh \<in> ar_id ` set (agent_runs db) then Inl (IntegrityError ''agent_runs_pkey'')
                else if list_ex (\<lambda>r. active_run r \<and> ar_conversation_id r = rq_conversation_id q)
                       (agent_runs db)
                then Inl (IntegrityError ''uq_agent_runs_active_conversation'')
                else Inr (run, db\<lparr>agent_runs := agent_runs db @ [run]\<rparr>)))))"

section \<open>Reaping\<close>

definition abandoned_condition :: "timestamp \<Rightarrow> timestamp \<Rightarrow> timestamp \<Rightarrow> agent_run \<Rightarrow> bool" where
  "abandoned_condition now pending_cutoff hard_deadline_cutoff r \<longleftrightarrow>
     (ar_lease_expires_at r \<noteq> None \<and> null_le (ar_lease_expires_at r) now) \<or>
     (ar_status r = RunPending \<and> ar_lease_expires_at r = None \<and> ar_created_at r \<le> pending_cutoff) \<or>
     (ar_status r = RunRunning \<and> ar_lease_expires_at r = None \<and>
        null_le (ar_started_at r) hard_deadline_cutoff) \<or>
     (ar_started_at r \<noteq> None \<and> null_le (ar_started_at r) hard_deadline_cutoff) \<or>
     (ar_started_at r = None \<and> ar_created_at r \<le> hard_deadline_cutoff)"

definition abandoned_message :: "run_env \<Rightarrow> timestamp \<Rightarrow> agent_run \<Rightarrow> string" where
  "abandoned_message env now r =
     (case ar_lease_expires_at r of
        Some lease \<Rightarrow>
          if lease \<le> now then ''Agent run lease expired at '' @ e_isoformat env lease
          else ''Agent run exceeded the allowed maximum duration''
      | None \<Rightarrow>
          if ar_status r = RunPending
          then ''Agent run stayed pending beyond the allowed grace period''
          else ''Agent run exceeded the allowed maximum duration'')"

text \<open>
  The loop refreshes each selected row under the family locks before it decides again: \<open>fresh\<close> is the
  row as the transaction sees it then.
\<close>

fun reap_loop ::
    "run_env \<Rightarrow> timestamp \<Rightarrow> timestamp \<Rightarrow> timestamp \<Rightarrow> uuid list \<Rightarrow> uuid list \<Rightarrow> run_db \<Rightarrow>
     app_error + uuid list \<times> run_db" where
  "reap_loop env now pending_cutoff deadline [] failed db = Inr (failed, db)"
| "reap_loop env now pending_cutoff deadline (i # is) failed db =
     (case find (\<lambda>r. ar_id r = i \<and> ar_status r \<in> {RunPending, RunRunning} \<and>
                     abandoned_condition now pending_cutoff deadline r) (agent_runs db) of
        None \<Rightarrow> reap_loop env now pending_cutoff deadline is failed db
      | Some fresh \<Rightarrow>
          bind_result (settle_run_family env now i RunFailed (Some ''run_abandoned'')
              (Some (abandoned_message env now fresh)) None db) (\<lambda>(changed, db').
            reap_loop env now pending_cutoff deadline is (failed @ map ar_id changed) db'))"

definition reap_abandoned_runs ::
    "run_env \<Rightarrow> timestamp \<Rightarrow> uuid option \<Rightarrow> uuid option \<Rightarrow> int option \<Rightarrow> int option \<Rightarrow> nat \<Rightarrow> run_db \<Rightarrow>
     app_error + uuid list \<times> run_db" where
  "reap_abandoned_runs env now run_id conversation_id pending_grace_seconds max_duration_seconds
     batch_size db =
     (let pending_grace = or_default pending_grace_seconds
            (AGENT_RUN_PENDING_GRACE_SECONDS (e_settings env));
          max_duration = or_default max_duration_seconds
            (AGENT_RUN_MAX_DURATION_SECONDS (e_settings env));
          pending_cutoff = now - timedelta_seconds pending_grace;
          deadline = now - timedelta_seconds max_duration;
          candidates = filter (\<lambda>r. \<not> ar_deleted r \<and> ar_status r \<in> {RunPending, RunRunning} \<and>
              abandoned_condition now pending_cutoff deadline r \<and>
              (case run_id of None \<Rightarrow> True | Some i \<Rightarrow> ar_id r = i) \<and>
              (case conversation_id of None \<Rightarrow> True | Some c \<Rightarrow> ar_conversation_id r = c)) (agent_runs db);
          selected = take batch_size
            (sort_key (\<lambda>r. (if_none (ar_parent_run_id r) (ar_id r), ar_id r)) candidates)
      in reap_loop env now pending_cutoff deadline (map ar_id selected) [] db)"

section \<open>Requesting a cancellation\<close>

definition request_agent_run_cancellation ::
    "run_env \<Rightarrow> timestamp \<Rightarrow> uuid \<Rightarrow> bool \<Rightarrow> uuid \<Rightarrow> uuid \<Rightarrow> run_db \<Rightarrow> app_error + uuid list \<times> run_db" where
  "request_agent_run_cancellation env now actor manager workspace i db =
     (case find (\<lambda>r. ar_id r = i \<and> ar_workspace_id r = workspace \<and> \<not> ar_deleted r) (agent_runs db) of
        None \<Rightarrow> Inl (NotFoundError ''Agent run not found'')
      | Some run \<Rightarrow>
          (if ar_user_id run \<noteq> actor \<and> \<not> manager
           then Inl (AuthorizationError
             ''Only the run owner or a workspace manager can cancel this agent run'')
           else if is_terminal (ar_status run)
           then Inl (ConflictError ''Agent run is already terminal'')
           else bind_result (settle_run_family env now i RunCancelled None None None db)
             (\<lambda>(changed, db'). Inr (filter (\<lambda>c. c \<noteq> i) (map ar_id changed), db'))))"

end
