(* ===== verification/Run_Lifecycle.thy ===== *)
theory Run_Lifecycle
  imports Run_Execution
begin

text \<open>
  How a run row may change. \<open>evolves r r'\<close> is the contract every operation of the component keeps for
  every row: identity and parentage stay, the status follows allowed transitions, a terminal verdict
  is never changed, a well-formed row stays well-formed and an inactive row does not become active.
  It is reflexive and transitive, so it passes from single transitions to settlements, sweeps and
  whole runs of the system.
\<close>

named_theorems run_simps \<open>the columns of a run after an operation\<close>

section \<open>Well-formed rows\<close>

definition suspended_keys :: "string set" where
  "suspended_keys = {''approval_state'', ''code_mode_state'', ''approval_continuation''}"

definition run_row_ok :: "agent_run \<Rightarrow> bool" where
  "run_row_ok r \<longleftrightarrow>
     (is_terminal (ar_status r) \<longleftrightarrow> ar_outcome r \<noteq> None) \<and>
     (\<not> is_terminal (ar_status r) \<longrightarrow> ar_completion_json r = None) \<and>
     (is_terminal (ar_status r) \<longrightarrow> ar_lease_expires_at r = None \<and>
        (\<forall>k \<in> suspended_keys. dict_get (or_empty (ar_metadata_json r)) k = None)) \<and>
     (ar_status r = RunAwaitingApproval \<longrightarrow> ar_lease_expires_at r = None) \<and>
     (ar_status r \<in> {RunRunning, RunAwaitingApproval, RunCompleted} \<longrightarrow> ar_started_at r \<noteq> None) \<and>
     (ar_status r = RunCompleted \<longrightarrow> ar_completed_at r \<noteq> None) \<and>
     (ar_status r = RunFailed \<longrightarrow> ar_failed_at r \<noteq> None) \<and>
     (case ar_completion_json r of
        None \<Rightarrow> True | Some d \<Rightarrow> json_bytes (JObj d) \<le> MAX_COMPLETION_JSON_BYTES)"

definition verdict ::
    "agent_run \<Rightarrow> run_status \<times> run_outcome option \<times> pydict option \<times> string option \<times> string option \<times>
     timestamp option \<times> timestamp option" where
  "verdict r = (ar_status r, ar_outcome r, ar_completion_json r, ar_error_code r, ar_error_message r,
     ar_completed_at r, ar_failed_at r)"

definition identity ::
    "agent_run \<Rightarrow> uuid \<times> uuid \<times> uuid \<times> uuid \<times> uuid \<times> uuid option \<times> int \<times> run_trigger \<times> timestamp \<times> bool" where
  "identity r = (ar_id r, ar_conversation_id r, ar_agent_id r, ar_workspace_id r, ar_user_id r,
     ar_parent_run_id r, ar_delegation_depth r, ar_trigger r, ar_created_at r, ar_deleted r)"

lemma identityD:
  assumes "identity r' = identity r"
  shows "ar_id r' = ar_id r" "ar_conversation_id r' = ar_conversation_id r"
    "ar_workspace_id r' = ar_workspace_id r" "ar_user_id r' = ar_user_id r"
    "ar_parent_run_id r' = ar_parent_run_id r" "ar_deleted r' = ar_deleted r"
    "ar_created_at r' = ar_created_at r"
  using assms by (simp_all add: identity_def)

definition status_reaches :: "run_status \<Rightarrow> run_status \<Rightarrow> bool" where
  "status_reaches = rtranclp can_transition"

definition evolves :: "agent_run \<Rightarrow> agent_run \<Rightarrow> bool" where
  "evolves r r' \<longleftrightarrow>
     identity r' = identity r \<and> status_reaches (ar_status r) (ar_status r') \<and>
     (is_terminal (ar_status r) \<longrightarrow> verdict r' = verdict r) \<and> (run_row_ok r \<longrightarrow> run_row_ok r')"

lemma evolves_refl [simp, intro]: "evolves r r"
  by (simp add: evolves_def status_reaches_def)

lemma verdict_status: "verdict r' = verdict r \<Longrightarrow> ar_status r' = ar_status r"
  by (simp add: verdict_def)

lemma evolves_trans [trans]: "evolves r s \<Longrightarrow> evolves s t \<Longrightarrow> evolves r t"
proof -
  assume a: "evolves r s" and b: "evolves s t"
  have "is_terminal (ar_status r) \<Longrightarrow> verdict t = verdict r"
    using a b verdict_status [of s r] by (simp add: evolves_def)
  with a b show "evolves r t"
    unfolding evolves_def status_reaches_def by (auto intro: rtranclp_trans)
qed

lemma evolves_id: "evolves r r' \<Longrightarrow> ar_id r' = ar_id r"
  by (simp add: evolves_def identity_def)

subsection \<open>The status graph\<close>

lemma terminal_iff: "is_terminal s \<longleftrightarrow> s = RunCompleted \<or> s = RunFailed \<or> s = RunCancelled"
  by (simp add: is_terminal_def terminal_statuses_def)

lemma in_terminal_statuses [simp]: "s \<in> terminal_statuses \<longleftrightarrow> is_terminal s"
  by (simp add: is_terminal_def)

lemma no_transition_from_terminal: "is_terminal s \<Longrightarrow> \<not> can_transition s t"
  by (auto simp: terminal_iff can_transition_def)

lemma open_can_settle: "\<not> is_terminal s \<Longrightarrow> can_transition s RunFailed \<and> can_transition s RunCancelled"
  by (cases s) (simp_all add: terminal_iff can_transition_def)

lemma terminal_absorbing: "status_reaches s t \<Longrightarrow> is_terminal s \<Longrightarrow> t = s"
  unfolding status_reaches_def by (induction rule: rtranclp_induct) (auto simp: no_transition_from_terminal)

lemma active_iff: "active_run r \<longleftrightarrow> \<not> ar_deleted r \<and> \<not> is_terminal (ar_status r)"
  by (cases "ar_status r") (simp_all add: active_run_def terminal_iff)

lemma evolves_active: "evolves r r' \<Longrightarrow> active_run r' \<Longrightarrow> active_run r"
proof -
  assume ev: "evolves r r'" and act: "active_run r'"
  have "is_terminal (ar_status r) \<Longrightarrow> ar_status r' = ar_status r"
    using ev verdict_status [of r' r] by (simp add: evolves_def)
  moreover have "ar_deleted r' = ar_deleted r" using ev by (simp add: evolves_def identity_def)
  ultimately show ?thesis using act by (auto simp: active_iff)
qed

subsection \<open>A transition keeps the contract\<close>

lemma stamp_simps [simp, run_simps]:
  "identity (stamp_transition now t c m out cj r) = identity r"
  "ar_id (stamp_transition now t c m out cj r) = ar_id r"
  "ar_status (stamp_transition now t c m out cj r) = t"
  "ar_owner_instance_id (stamp_transition now t c m out cj r) = ar_owner_instance_id r"
  by (simp_all add: stamp_transition_def identity_def Let_def)

lemma cleared_metadata:
  "k \<in> suspended_keys \<Longrightarrow> dict_get (or_empty (clear_suspended_run_metadata r)) k = None"
proof -
  assume k: "k \<in> suspended_keys"
  let ?m = "dict_pop ''approval_continuation'' (dict_pop ''code_mode_state''
              (dict_pop ''approval_state'' (or_empty (ar_metadata_json r))))"
  have "dict_get ?m k = None" using k by (auto simp: suspended_keys_def)
  then show ?thesis by (simp add: clear_suspended_run_metadata_def Let_def)
qed

lemma resolve_outcome_ok:
  "resolve_outcome t c out = Inr v \<Longrightarrow> (v \<noteq> None) = is_terminal t"
  by (auto simp: resolve_outcome_def bind_result_Inr terminal_run_outcome_def split: if_splits option.splits)

lemma resolve_completion_ok:
  "resolve_completion t c cj = Inr v \<Longrightarrow>
     (\<not> is_terminal t \<longrightarrow> v = None) \<and>
     (case v of None \<Rightarrow> True | Some d \<Rightarrow> json_bytes (JObj d) \<le> MAX_COMPLETION_JSON_BYTES)"
  by (auto simp: resolve_completion_def validate_completion_json_def split: if_splits option.splits)

lemma stamp_row_ok:
  assumes "run_row_ok r" and "can_transition (ar_status r) t"
    and "resolve_outcome t c out = Inr v" and "resolve_completion t c cj = Inr w"
  shows "run_row_ok (stamp_transition now t c m v w r)"
proof -
  note o = resolve_outcome_ok [OF assms(3)] and k = resolve_completion_ok [OF assms(4)]
  have "\<not> is_terminal (ar_status r)" using assms(2) no_transition_from_terminal by blast
  with assms(1,2) o k show ?thesis
    by (cases t; cases "ar_status r")
       (auto simp: run_row_ok_def stamp_transition_def Let_def terminal_iff can_transition_def
          cleared_metadata suspended_keys_def [symmetric] split: option.splits)
qed

lemma stamp_evolves:
  assumes "can_transition (ar_status r) t"
    and "resolve_outcome t c out = Inr v" and "resolve_completion t c cj = Inr w"
  shows "evolves r (stamp_transition now t c m v w r)"
  using assms stamp_row_ok no_transition_from_terminal
  by (auto simp: evolves_def status_reaches_def)

section \<open>The contract on the table\<close>

definition runs_evolve :: "agent_run list \<Rightarrow> agent_run list \<Rightarrow> bool" where
  "runs_evolve T T' \<longleftrightarrow> list_all2 evolves T T'"

lemma runs_evolve_refl [simp, intro]: "runs_evolve T T"
  unfolding runs_evolve_def by (rule list.rel_refl) simp

lemma runs_evolve_trans: "runs_evolve T U \<Longrightarrow> runs_evolve U V \<Longrightarrow> runs_evolve T V"
  unfolding runs_evolve_def by (rule list_all2_trans) (rule evolves_trans)

lemma runs_evolve_update: "(\<And>r. r \<in> set T \<Longrightarrow> P r \<Longrightarrow> evolves r (f r)) \<Longrightarrow> runs_evolve T (update_where P f T)"
  by (induction T) (auto simp: runs_evolve_def)

lemma runs_evolve_keys:
  assumes "runs_evolve T T'"
  shows "map ar_id T' = map ar_id T"
  using assms unfolding runs_evolve_def by (induction rule: list_all2_induct) (auto simp: evolves_id)

lemma runs_evolve_rows:
  assumes "runs_evolve T T'" and "r' \<in> set T'"
  obtains r where "r \<in> set T" and "evolves r r'"
  using assms unfolding runs_evolve_def by (metis in_set_conv_nth list_all2_conv_all_nth)

lemma runs_evolve_row_by_id:
  assumes "runs_evolve T T'"
  shows "case row_by_id ar_id i T of
           None \<Rightarrow> row_by_id ar_id i T' = None
         | Some r \<Rightarrow> \<exists>r'. row_by_id ar_id i T' = Some r' \<and> evolves r r'"
  using assms unfolding runs_evolve_def
proof (induction rule: list_all2_induct)
  case Nil
  then show ?case by (simp add: row_by_id_def)
next
  case (Cons x xs y ys)
  have "ar_id y = ar_id x" by (rule evolves_id [OF Cons.hyps(1)])
  with Cons show ?case
    by (cases "ar_id x = i") (simp_all add: row_by_id_def split: option.splits)
qed

lemma runs_evolve_write:
  assumes "distinct (map ar_id T)" and "row_by_id ar_id i T = Some r" and "evolves r r'"
  shows "runs_evolve T (write_row ar_id r' T)"
  unfolding write_row_def
proof (rule runs_evolve_update)
  fix q
  assume q: "q \<in> set T" "ar_id q = ar_id r'"
  then have "ar_id q = ar_id r" using assms(3) by (simp add: evolves_id)
  with q(1) row_by_id_Some [OF assms(2)] have "q = r"
    using distinct_key_eq [OF assms(1)] by blast
  with assms(3) show "evolves q r'" by simp
qed

lemma run_row_by_id_write:
  assumes "row_by_id ar_id i T = Some r" and "ar_id r' = i"
  shows "row_by_id ar_id i (write_row ar_id r' T) = Some r'"
  using assms row_by_id_in_keys [OF assms(1)] by (simp add: row_by_id_write_row)

section \<open>Every operation keeps it\<close>

definition run_ids_ok :: "run_db \<Rightarrow> bool" where
  "run_ids_ok db \<longleftrightarrow> distinct (map ar_id (agent_runs db))"

text \<open>\<open>same_tables\<close>: the tables besides the runs, the cleanup jobs and the audit are untouched.\<close>

definition db_evolves :: "run_db \<Rightarrow> run_db \<Rightarrow> bool" where
  "db_evolves db db' \<longleftrightarrow> runs_evolve (agent_runs db) (agent_runs db') \<and>
     conversations db' = conversations db \<and> agents db' = agents db"

lemma db_evolves_refl [simp, intro]: "db_evolves db db"
  by (simp add: db_evolves_def)

lemma db_evolves_trans [trans]: "db_evolves a b \<Longrightarrow> db_evolves b c \<Longrightarrow> db_evolves a c"
  by (auto simp: db_evolves_def intro: runs_evolve_trans)

lemma db_evolves_ids: "db_evolves db db' \<Longrightarrow> run_ids_ok db \<Longrightarrow> run_ids_ok db'"
  by (auto simp: db_evolves_def run_ids_ok_def dest: runs_evolve_keys)

lemma transition_cases:
  assumes "transition_run_status env now i t c m out cj db = Inr (r', db')"
  obtains (same) "row_by_id ar_id i (agent_runs db) = Some r'" "ar_status r' = t" "db' = db"
  | (moved) r v w where "row_by_id ar_id i (agent_runs db) = Some r" "can_transition (ar_status r) t"
      "resolve_outcome t c out = Inr v" "resolve_completion t c cj = Inr w"
      "r' = stamp_transition now t c m v w r"
      "db' = db\<lparr>agent_runs := write_row ar_id r' (agent_runs db),
                run_audits := run_audits db @ completion_audit env r t v\<rparr>"
  using assms by (auto simp: transition_run_status_def bind_result_Inr Let_def split: option.splits if_splits)

lemma transition_effect:
  assumes "run_ids_ok db" and "transition_run_status env now i t c m out cj db = Inr (r', db')"
  shows "db_evolves db db' \<and> row_by_id ar_id i (agent_runs db') = Some r' \<and> ar_status r' = t \<and>
    (\<exists>r. row_by_id ar_id i (agent_runs db) = Some r \<and> evolves r r') \<and>
    (\<forall>k. k \<noteq> i \<longrightarrow> row_by_id ar_id k (agent_runs db') = row_by_id ar_id k (agent_runs db))"
  using assms(2)
proof (cases rule: transition_cases)
  case same
  then show ?thesis by auto
next
  case (moved r v w)
  have id: "ar_id r' = i" using moved(5) row_by_id_Some [OF moved(1)] by simp
  have ev: "evolves r r'" unfolding moved(5) by (rule stamp_evolves [OF moved(2-4)])
  have "db_evolves db db'"
    using runs_evolve_write [OF _ moved(1) ev] assms(1) moved(6)
    by (simp add: db_evolves_def run_ids_ok_def)
  moreover have "row_by_id ar_id i (agent_runs db') = Some r'"
    using run_row_by_id_write [OF moved(1) id] moved(6) by simp
  moreover have "\<forall>k. k \<noteq> i \<longrightarrow> row_by_id ar_id k (agent_runs db') = row_by_id ar_id k (agent_runs db)"
    using id moved(6) by (simp add: row_by_id_write_row)
  ultimately show ?thesis using moved(1,5) ev by auto
qed

lemmas transition_evolves = transition_effect [THEN conjunct1]
lemmas transition_row = transition_effect [THEN conjunct2, THEN conjunct1]
lemmas transition_status = transition_effect [THEN conjunct2, THEN conjunct2, THEN conjunct1]
lemmas transition_from = transition_effect [THEN conjunct2, THEN conjunct2, THEN conjunct2, THEN conjunct1]
lemmas transition_others =
  transition_effect [THEN conjunct2, THEN conjunct2, THEN conjunct2, THEN conjunct2, rule_format]

lemma claim_cases:
  assumes "claim_agent_run_execution env i owner now ttl db = Inr (r', db')"
  obtains r where "row_by_id ar_id i (agent_runs db) = Some r" "\<not> ar_deleted r"
    "ar_status r = RunAwaitingApproval \<or>
       ar_status r \<in> {RunPending, RunRunning} \<and> ar_owner_instance_id r = None"
    "\<not> null_le (ar_lease_expires_at r) now"
    "evolves r r'" "ar_owner_instance_id r' = Some owner"
    "ar_lease_expires_at r' = Some (now + timedelta_seconds
       (if_none ttl (AGENT_RUN_LEASE_TTL_SECONDS (e_settings env))))"
    "ar_status r' = (if ar_status r = RunAwaitingApproval then RunRunning else ar_status r)"
    "ar_started_at r' \<noteq> None"
    "db' = db\<lparr>agent_runs := write_row ar_id r' (agent_runs db)\<rparr>"
proof -
  obtain r where r: "row_by_id ar_id i (agent_runs db) = Some r"
    using assms by (auto simp: claim_agent_run_execution_def split: option.splits)
  let ?started = "if ar_status r = RunAwaitingApproval
       then r\<lparr>ar_status := RunRunning, ar_started_at := Some now\<rparr>
       else if ar_started_at r = None then r\<lparr>ar_started_at := Some (ar_created_at r)\<rparr> else r"
  let ?r = "?started\<lparr>ar_owner_instance_id := Some owner, ar_lease_expires_at := Some (now + timedelta_seconds
       (if_none ttl (AGENT_RUN_LEASE_TTL_SECONDS (e_settings env)))), ar_updated_at := now\<rparr>"
  have ok: "\<not> ar_deleted r" "ar_status r = RunAwaitingApproval \<or>
       ar_status r \<in> {RunPending, RunRunning} \<and> ar_owner_instance_id r = None"
      "\<not> null_le (ar_lease_expires_at r) now"
    and res: "r' = ?r" "db' = db\<lparr>agent_runs := write_row ar_id ?r (agent_runs db)\<rparr>"
    using assms r by (auto simp: claim_agent_run_execution_def Let_def split: if_splits)
  have id: "identity ?r = identity r"
    by (simp add: identity_def)
  have reach: "status_reaches (ar_status r) (ar_status ?r)"
    using ok(2) by (auto simp: status_reaches_def can_transition_def intro!: r_into_rtranclp)
  have "\<not> is_terminal (ar_status r)" using ok(2) by (auto simp: terminal_iff)
  moreover have "run_row_ok ?r" if "run_row_ok r"
  proof (cases "ar_status r = RunAwaitingApproval")
    case True
    with that show ?thesis by (simp add: run_row_ok_def terminal_iff)
  next
    case False
    with ok(2) have "ar_status r = RunPending \<or> ar_status r = RunRunning" by simp
    with that show ?thesis by (elim disjE) (simp_all add: run_row_ok_def terminal_iff)
  qed
  ultimately have ev: "evolves r ?r"
    using id reach unfolding evolves_def by blast
  show ?thesis
    using that [OF r ok] ev unfolding res by simp
qed

lemma claim_evolves:
  assumes "run_ids_ok db" and "claim_agent_run_execution env i owner now ttl db = Inr (r', db')"
  shows "db_evolves db db'" and "row_by_id ar_id i (agent_runs db') = Some r'"
    and "k \<noteq> i \<Longrightarrow> row_by_id ar_id k (agent_runs db') = row_by_id ar_id k (agent_runs db)"
proof -
  obtain r where r: "row_by_id ar_id i (agent_runs db) = Some r" "evolves r r'"
    and db': "db' = db\<lparr>agent_runs := write_row ar_id r' (agent_runs db)\<rparr>"
    using assms(2) by (rule claim_cases)
  have id: "ar_id r' = i" using evolves_id [OF r(2)] row_by_id_Some [OF r(1)] by simp
  show "db_evolves db db'"
    using runs_evolve_write [OF _ r] assms(1) db' by (simp add: db_evolves_def run_ids_ok_def)
  show "row_by_id ar_id i (agent_runs db') = Some r'"
    using run_row_by_id_write [OF r(1) id] db' by simp
  show "k \<noteq> i \<Longrightarrow> row_by_id ar_id k (agent_runs db') = row_by_id ar_id k (agent_runs db)"
    using id db' by (simp add: row_by_id_write_row)
qed

end
