(* ===== verification/Run_Families.thy ===== *)
theory Run_Families
  imports Run_Lifecycle Job_Queue
begin

text \<open>
  The table-level operations: the family of a run, settling it, starting and renewing a lease, creating
  a run, reaping. The invariant \<open>run_inv\<close> adds to the well-formed rows the two facts that make the
  settlement complete: at most one active run per conversation, and families that are flat (a parent
  is always a root of the same tenant), because \<^verbatim>\<open>create_agent_run\<close> accepts no other parent.
\<close>

section \<open>The invariant\<close>

definition parent_ok :: "agent_run list \<Rightarrow> agent_run \<Rightarrow> bool" where
  "parent_ok T r \<longleftrightarrow>
     (case ar_parent_run_id r of
        None \<Rightarrow> True
      | Some p \<Rightarrow> \<exists>q \<in> set T. ar_id q = p \<and> ar_parent_run_id q = None \<and>
          ar_workspace_id q = ar_workspace_id r \<and> ar_user_id q = ar_user_id r)"

definition run_inv :: "run_db \<Rightarrow> bool" where
  "run_inv db \<longleftrightarrow> run_ids_ok db \<and>
     (\<forall>r \<in> set (agent_runs db). run_row_ok r \<and> \<not> ar_deleted r \<and> parent_ok (agent_runs db) r) \<and>
     distinct (map ar_conversation_id (filter active_run (agent_runs db)))"

lemma run_invD:
  assumes "run_inv db"
  shows "run_ids_ok db" and "distinct (map ar_id (agent_runs db))"
    and "\<And>r. r \<in> set (agent_runs db) \<Longrightarrow> run_row_ok r"
    and "\<And>r. r \<in> set (agent_runs db) \<Longrightarrow> \<not> ar_deleted r"
    and "\<And>r. r \<in> set (agent_runs db) \<Longrightarrow> parent_ok (agent_runs db) r"
  using assms by (simp_all add: run_inv_def run_ids_ok_def)

lemma evolve_active_index:
  assumes "runs_evolve T T'" and "distinct (map ar_conversation_id (filter active_run T))"
  shows "distinct (map ar_conversation_id (filter active_run T')) \<and>
    ar_conversation_id ` set (filter active_run T') \<subseteq> ar_conversation_id ` set (filter active_run T)"
  using assms unfolding runs_evolve_def
proof (induction rule: list_all2_induct)
  case Nil
  then show ?case by simp
next
  case (Cons x xs y ys)
  have conv: "ar_conversation_id y = ar_conversation_id x"
    using Cons.hyps(1) by (simp add: evolves_def identity_def)
  have act: "active_run y \<Longrightarrow> active_run x" by (rule evolves_active [OF Cons.hyps(1)])
  have tl: "distinct (map ar_conversation_id (filter active_run xs))"
    using Cons.prems by (simp split: if_splits)
  from Cons.IH [OF tl] Cons.prems conv act show ?case
    by (cases "active_run y"; cases "active_run x") auto
qed

lemma evolve_parent_ok:
  assumes "runs_evolve T T'" and "evolves r r'" and "parent_ok T r"
  shows "parent_ok T' r'"
proof (cases "ar_parent_run_id r")
  case None
  with assms(2) show ?thesis by (simp add: parent_ok_def evolves_def identity_def)
next
  case (Some p)
  with assms(3) obtain q where q: "q \<in> set T" "ar_id q = p" "ar_parent_run_id q = None"
    "ar_workspace_id q = ar_workspace_id r" "ar_user_id q = ar_user_id r"
    by (auto simp: parent_ok_def)
  from q(1) assms(1) obtain q' where "q' \<in> set T'" and "evolves q q'"
    unfolding runs_evolve_def by (metis in_set_conv_nth list_all2_conv_all_nth)
  with q(2-5) assms(2) Some show ?thesis
    by (auto simp: parent_ok_def evolves_def identity_def)
qed

lemma db_evolves_inv:
  assumes "run_inv db" and "db_evolves db db'"
  shows "run_inv db'"
proof -
  have ev: "runs_evolve (agent_runs db) (agent_runs db')" using assms(2) by (simp add: db_evolves_def)
  have "run_row_ok r' \<and> \<not> ar_deleted r' \<and> parent_ok (agent_runs db') r'" if r': "r' \<in> set (agent_runs db')" for r'
  proof -
    obtain r where r: "r \<in> set (agent_runs db)" "evolves r r'" by (rule runs_evolve_rows [OF ev r'])
    with run_invD(3-5) [OF assms(1) r(1)] evolve_parent_ok [OF ev r(2)] show ?thesis
      by (auto simp: evolves_def identity_def)
  qed
  moreover have "run_ids_ok db'" by (rule db_evolves_ids [OF assms(2) run_invD(1) [OF assms(1)]])
  moreover have "distinct (map ar_conversation_id (filter active_run (agent_runs db')))"
    using evolve_active_index [OF ev] assms(1) by (simp add: run_inv_def)
  ultimately show ?thesis by (simp add: run_inv_def)
qed

section \<open>The family\<close>

text \<open>A run and its children are in the family that the settlement locks.\<close>

definition affected :: "uuid \<Rightarrow> agent_run \<Rightarrow> bool" where
  "affected i r \<longleftrightarrow> ar_id r = i \<or> ar_parent_run_id r = Some i"

lemma lock_run_family_rows: "r \<in> set (lock_run_family i db) \<Longrightarrow> r \<in> set (agent_runs db)"
  by (auto simp: lock_run_family_def Let_def split: option.splits
      dest: sym [THEN find_SomeD] find_SomeD)

lemma family_main_run:
  assumes "run_inv db" and "r \<in> set (agent_runs db)"
  obtains q where "q \<in> set (agent_runs db)" "ar_id q = if_none (ar_parent_run_id r) (ar_id r)"
    "ar_parent_run_id q = None" "in_scope r q"
proof (cases "ar_parent_run_id r")
  case None
  with assms run_invD(4) show ?thesis by (intro that [of r]) (simp_all add: in_scope_def)
next
  case (Some p)
  with run_invD(5) [OF assms] obtain q where "q \<in> set (agent_runs db)" "ar_id q = p"
    "ar_parent_run_id q = None" "ar_workspace_id q = ar_workspace_id r" "ar_user_id q = ar_user_id r"
    by (auto simp: parent_ok_def)
  with Some run_invD(4) [OF assms(1)] show ?thesis by (intro that [of q]) (simp_all add: in_scope_def)
qed

lemma lock_run_family_eq:
  assumes "run_inv db" and "r \<in> set (agent_runs db)"
  shows "\<exists>q. lock_run_family (ar_id r) db = q # sort_key ar_id
      (filter (\<lambda>s. ar_parent_run_id s = Some (ar_id q) \<and> in_scope r s) (agent_runs db)) \<and>
    q \<in> set (agent_runs db) \<and> ar_id q = if_none (ar_parent_run_id r) (ar_id r) \<and> ar_parent_run_id q = None"
proof -
  note dist = run_invD(2) [OF assms(1)]
  have "find (\<lambda>s. ar_id s = ar_id r \<and> \<not> ar_deleted s) (agent_runs db) = Some r"
    using run_invD(4) [OF assms] distinct_key_eq [OF dist _ assms(2)]
    by (intro find_unique [OF assms(2)]) simp_all
  moreover obtain q where q: "q \<in> set (agent_runs db)" "ar_id q = if_none (ar_parent_run_id r) (ar_id r)"
    "ar_parent_run_id q = None" "in_scope r q"
    by (rule family_main_run [OF assms])
  moreover have "find (\<lambda>s. ar_id s = if_none (ar_parent_run_id r) (ar_id r) \<and> in_scope r s) (agent_runs db) = Some q"
    using q(2,4) distinct_key_eq [OF dist _ q(1)] by (intro find_unique [OF q(1)]) simp_all
  ultimately show ?thesis using q(1-3) by (auto simp: lock_run_family_def Let_def)
qed

lemma family_ids_distinct:
  assumes "run_inv db" and "r \<in> set (agent_runs db)"
  shows "distinct (map ar_id (lock_run_family (ar_id r) db))"
proof -
  obtain q where fam: "lock_run_family (ar_id r) db = q # sort_key ar_id
      (filter (\<lambda>s. ar_parent_run_id s = Some (ar_id q) \<and> in_scope r s) (agent_runs db))"
    and q: "q \<in> set (agent_runs db)" "ar_parent_run_id q = None"
    using lock_run_family_eq [OF assms] by blast
  let ?C = "filter (\<lambda>s. ar_parent_run_id s = Some (ar_id q) \<and> in_scope r s) (agent_runs db)"
  have "distinct (map ar_id ?C)" by (rule distinct_map_filter [OF run_invD(2) [OF assms(1)]])
  then have "distinct (map ar_id (sort_key ar_id ?C))"
    by (simp add: distinct_map)
  moreover have "ar_id q \<notin> ar_id ` set ?C"
    using distinct_key_eq [OF run_invD(2) [OF assms(1)] q(1)] q(2) by force
  ultimately show ?thesis by (simp add: fam)
qed

text \<open>The family holds the run itself and every child of it.\<close>

lemma family_complete:
  assumes "run_inv db" and "r \<in> set (agent_runs db)" and "s \<in> set (agent_runs db)" and "affected (ar_id r) s"
  shows "s \<in> set (lock_run_family (ar_id r) db)"
proof -
  note same = distinct_key_eq [OF run_invD(2) [OF assms(1)]]
  obtain q where fam: "lock_run_family (ar_id r) db = q # sort_key ar_id
      (filter (\<lambda>s. ar_parent_run_id s = Some (ar_id q) \<and> in_scope r s) (agent_runs db))"
    and q: "q \<in> set (agent_runs db)" "ar_id q = if_none (ar_parent_run_id r) (ar_id r)" "ar_parent_run_id q = None"
    using lock_run_family_eq [OF assms(1,2)] by blast
  show ?thesis
  proof (cases "ar_id s = ar_id r")
    case True
    then have "s = r" by (rule same [OF assms(3,2)])
    have "in_scope r r" using run_invD(4) [OF assms(1,2)] by (simp add: in_scope_def)
    show ?thesis
    proof (cases "ar_parent_run_id r")
      case None
      with q(2) have "q = r" by (intro same [OF q(1) assms(2)]) simp
      then show ?thesis unfolding \<open>s = r\<close> fam by simp
    next
      case (Some p)
      with q(2) have "ar_parent_run_id r = Some (ar_id q)" by simp
      with \<open>in_scope r r\<close> assms(2) show ?thesis unfolding \<open>s = r\<close> fam by simp
    qed
  next
    case False
    with assms(4) have par: "ar_parent_run_id s = Some (ar_id r)" by (simp add: affected_def)
    with run_invD(5) [OF assms(1,3)] obtain p where p: "p \<in> set (agent_runs db)" "ar_id p = ar_id r"
      "ar_parent_run_id p = None" "ar_workspace_id p = ar_workspace_id s" "ar_user_id p = ar_user_id s"
      by (auto simp: parent_ok_def)
    have "p = r" by (rule same [OF p(1) assms(2) p(2)])
    then have "in_scope r s" and "ar_parent_run_id r = None"
      using p(3-5) run_invD(4) [OF assms(1,3)] by (simp_all add: in_scope_def)
    with q(2) par assms(3) show ?thesis by (simp add: fam)
  qed
qed

section \<open>Settling a family\<close>

definition settling :: "run_status \<Rightarrow> bool" where
  "settling status \<longleftrightarrow> status = RunFailed \<or> status = RunCancelled"

lemma cleanup_effect:
  assumes "enqueue_staged_approval_content_cleanup env now run db = Inr db'"
  shows "\<exists>T. db' = db\<lparr>run_jobs := T\<rparr>"
  using assms by (auto simp: enqueue_staged_approval_content_cleanup_def Let_def bind_result_Inr
      split: if_splits intro: exI [of _ "run_jobs db"])

lemma run_jobs_same: "agent_runs (db\<lparr>run_jobs := T\<rparr>) = agent_runs db" "run_ids_ok (db\<lparr>run_jobs := T\<rparr>) = run_ids_ok db"
  "db_evolves (db\<lparr>run_jobs := T\<rparr>) db' = db_evolves db db'"
  by (simp_all add: run_ids_ok_def db_evolves_def)

text \<open>The rows the loop settles: affected and not yet terminal.\<close>

definition to_settle :: "uuid \<Rightarrow> agent_run \<Rightarrow> bool" where
  "to_settle i r \<longleftrightarrow> affected i r \<and> \<not> is_terminal (ar_status r)"

lemma settle_loop_skip:
  "\<not> to_settle i run \<Longrightarrow>
     settle_loop env now i status v (run # runs) changed db = settle_loop env now i status v runs changed db"
  by (auto simp: to_settle_def affected_def)

lemma settle_loop_step:
  assumes "to_settle i run" and "settle_loop env now i status v (run # runs) changed db = Inr (changed', db')"
  obtains T c m cj run' db2 where
    "transition_run_status env now (ar_id run) status c m None cj (db\<lparr>run_jobs := T\<rparr>) = Inr (run', db2)"
    "settle_loop env now i status v runs (changed @ [run']) db2 = Inr (changed', db')"
proof -
  obtain c m cj where v: "v = (c, m, cj)" by (cases v)
  from assms v show ?thesis
    by (auto simp: to_settle_def affected_def bind_result_Inr dest!: cleanup_effect intro: that)
qed

lemma settle_loop_effect:
  assumes "run_ids_ok db" and "settling status" and "distinct (map ar_id runs)"
    and "\<forall>r \<in> set runs. row_by_id ar_id (ar_id r) (agent_runs db) = Some r"
    and "settle_loop env now i status v runs changed db = Inr (changed', db')"
  shows "db_evolves db db' \<and>
    (\<forall>r \<in> set runs. to_settle i r \<longrightarrow>
       (\<exists>r'. row_by_id ar_id (ar_id r) (agent_runs db') = Some r' \<and> ar_status r' = status)) \<and>
    (\<forall>k. k \<notin> ar_id ` set (filter (to_settle i) runs) \<longrightarrow>
       row_by_id ar_id k (agent_runs db') = row_by_id ar_id k (agent_runs db)) \<and>
    map ar_id changed' = map ar_id changed @ map ar_id (filter (to_settle i) runs)"
  using assms
proof (induction runs arbitrary: changed db)
  case Nil
  then show ?case by simp
next
  case (Cons run runs)
  show ?case
  proof (cases "to_settle i run")
    case False
    have "settle_loop env now i status v runs changed db = Inr (changed', db')"
      using Cons.prems(5) unfolding settle_loop_skip [OF False] .
    with Cons.IH [OF Cons.prems(1,2), of changed] Cons.prems(3,4) False show ?thesis by simp
  next
    case True
    obtain T c m cj run' db2 where
      tr: "transition_run_status env now (ar_id run) status c m None cj (db\<lparr>run_jobs := T\<rparr>) = Inr (run', db2)"
      and rest: "settle_loop env now i status v runs (changed @ [run']) db2 = Inr (changed', db')"
      by (rule settle_loop_step [OF True Cons.prems(5)])
    have ids: "run_ids_ok (db\<lparr>run_jobs := T\<rparr>)" using Cons.prems(1) by (simp add: run_jobs_same)
    have ev: "db_evolves db db2" using transition_evolves [OF ids tr] by (simp add: run_jobs_same)
    have row: "row_by_id ar_id (ar_id run) (agent_runs db2) = Some run'" "ar_status run' = status"
      using transition_row [OF ids tr] transition_status [OF ids tr] by simp_all
    have others: "row_by_id ar_id k (agent_runs db2) = row_by_id ar_id k (agent_runs db)"
      if "k \<noteq> ar_id run" for k
      using transition_others [OF ids tr that] by simp
    have fresh: "ar_id run \<notin> ar_id ` set runs" using Cons.prems(3) by simp
    have keep: "\<forall>r \<in> set runs. row_by_id ar_id (ar_id r) (agent_runs db2) = Some r"
    proof
      fix r
      assume r: "r \<in> set runs"
      with fresh have "ar_id r \<noteq> ar_id run" by (metis image_eqI)
      with r Cons.prems(4) show "row_by_id ar_id (ar_id r) (agent_runs db2) = Some r" by (simp add: others)
    qed
    have run_id: "ar_id run' = ar_id run" using row_by_id_Some [OF row(1)] by simp
    have IH: "db_evolves db2 db' \<and>
        (\<forall>r \<in> set runs. to_settle i r \<longrightarrow>
           (\<exists>r'. row_by_id ar_id (ar_id r) (agent_runs db') = Some r' \<and> ar_status r' = status)) \<and>
        (\<forall>k. k \<notin> ar_id ` set (filter (to_settle i) runs) \<longrightarrow>
           row_by_id ar_id k (agent_runs db') = row_by_id ar_id k (agent_runs db2)) \<and>
        map ar_id changed' = map ar_id (changed @ [run']) @ map ar_id (filter (to_settle i) runs)"
      using Cons.IH [OF db_evolves_ids [OF ev Cons.prems(1)] Cons.prems(2) _ keep rest] Cons.prems(3) by simp
    have "ar_id run \<notin> ar_id ` set (filter (to_settle i) runs)" using fresh by auto
    with IH have "row_by_id ar_id (ar_id run) (agent_runs db') = Some run'" using row(1) by simp
    moreover have "db_evolves db db'" using db_evolves_trans [OF ev] IH by blast
    ultimately show ?thesis using IH True row(2) others run_id by auto
  qed
qed

text \<open>The settlement of a stored run: what the caller gets and what became of every row.\<close>

lemma settle_run_family_effect:
  assumes "run_inv db" and "r \<in> set (agent_runs db)" and "ar_id r = i"
    and "owner = None \<or> ar_owner_instance_id r = owner"
    and "settle_run_family env now i status c m owner db = Inr (changed, db')"
  shows "db_evolves db db' \<and>
    (\<forall>s \<in> set (agent_runs db). to_settle i s \<longrightarrow>
       (\<exists>s'. row_by_id ar_id (ar_id s) (agent_runs db') = Some s' \<and> ar_status s' = status)) \<and>
    (\<forall>s \<in> set (agent_runs db). \<not> to_settle i s \<longrightarrow>
       row_by_id ar_id (ar_id s) (agent_runs db') = Some s) \<and>
    set (map ar_id changed) = ar_id ` {s \<in> set (agent_runs db). to_settle i s}"
proof -
  let ?F = "lock_run_family i db"
  note dist = run_invD(2) [OF assms(1)]
  have inF: "s \<in> set ?F" if "s \<in> set (agent_runs db)" "affected i s" for s
    using family_complete [OF assms(1,2) that(1)] that(2) assms(3) by simp
  have target: "find (\<lambda>q. ar_id q = i) ?F = Some r"
  proof (rule find_unique)
    show "ar_id r = i" by (rule assms(3))
    show "r \<in> set ?F" using inF [OF assms(2)] assms(3) by (simp add: affected_def)
    show "q = r" if "q \<in> set ?F" and "ar_id q = i" for q
      using distinct_key_eq [OF dist lock_run_family_rows [OF that(1)] assms(2)] that(2) assms(3) by simp
  qed
  from target assms(4,5) have st: "settling status"
    and loop: "settle_loop env now i status (settlement_record env ?F r status c m) ?F [] db = Inr (changed, db')"
    by (auto simp: settle_run_family_def settling_def Let_def split: if_splits)
  have rows: "\<forall>s \<in> set ?F. row_by_id ar_id (ar_id s) (agent_runs db) = Some s"
    using lock_run_family_rows row_by_id_unique [OF dist] by blast
  have "distinct (map ar_id ?F)" using family_ids_distinct [OF assms(1,2)] assms(3) by simp
  note eff = settle_loop_effect [OF run_invD(1) [OF assms(1)] st this rows loop]
  have settled: "to_settle i s \<Longrightarrow> s \<in> set ?F" if "s \<in> set (agent_runs db)" for s
    using inF [OF that] by (simp add: to_settle_def)
  have sets: "set (filter (to_settle i) ?F) = {s \<in> set (agent_runs db). to_settle i s}"
    using settled lock_run_family_rows by auto
  have "row_by_id ar_id (ar_id s) (agent_runs db') = Some s"
    if s: "s \<in> set (agent_runs db)" "\<not> to_settle i s" for s
  proof -
    have "ar_id s \<notin> ar_id ` set (filter (to_settle i) ?F)"
      unfolding sets using distinct_key_eq [OF dist s(1)] s(2) by blast
    with eff row_by_id_unique [OF dist s(1)] show ?thesis by simp
  qed
  moreover have "set (map ar_id changed) = ar_id ` {s \<in> set (agent_runs db). to_settle i s}"
    using eff sets by (metis append_Nil list.simps(8) set_map)
  ultimately show ?thesis using eff settled by blast
qed

text \<open>A settlement that is not accepted changes nothing.\<close>

lemma settle_run_family_evolves:
  assumes "run_inv db" and "settle_run_family env now i status c m owner db = Inr (changed, db')"
  shows "db_evolves db db'"
proof (cases "find (\<lambda>q. ar_id q = i) (lock_run_family i db)")
  case None
  with assms(2) show ?thesis by (auto simp: settle_run_family_def Let_def split: if_splits)
next
  case (Some r)
  note found = find_SomeD [OF Some]
  have r: "r \<in> set (agent_runs db)" "ar_id r = i"
    using lock_run_family_rows [OF found [THEN conjunct1]] found by blast+
  show ?thesis
  proof (cases "owner = None \<or> ar_owner_instance_id r = owner")
    case True
    with settle_run_family_effect [OF assms(1) r True assms(2)] show ?thesis by blast
  next
    case False
    with Some assms(2) show ?thesis by (auto simp: settle_run_family_def Let_def split: if_splits)
  qed
qed

section \<open>The other operations\<close>

lemma start_with_lease_cases:
  assumes "start_agent_run_with_lease env i owner now clock ttl db = Inr (r', db')"
  obtains (claimed) r1 db1 where "claim_agent_run_execution env i owner now ttl db = Inr (r1, db1)"
      "transition_run_status env clock i RunRunning None None None None db1 = Inr (r', db')"
  | (held) r where "row_by_id ar_id i (agent_runs db) = Some r" "ar_owner_instance_id r = Some owner"
      "transition_run_status env clock i RunRunning None None None None db = Inr (r', db')"
  using assms
  by (auto simp: start_agent_run_with_lease_def bind_result_Inr split: option.splits if_splits)

lemma start_with_lease_evolves:
  assumes "run_ids_ok db" and "start_agent_run_with_lease env i owner now clock ttl db = Inr (r', db')"
  shows "db_evolves db db' \<and> row_by_id ar_id i (agent_runs db') = Some r' \<and> ar_status r' = RunRunning \<and>
    ar_owner_instance_id r' = Some owner \<and>
    (\<forall>k. k \<noteq> i \<longrightarrow> row_by_id ar_id k (agent_runs db') = row_by_id ar_id k (agent_runs db))"
  using assms(2)
proof (cases rule: start_with_lease_cases)
  case (claimed r1 db1)
  note c = claim_evolves [OF assms(1) claimed(1)]
  have ids: "run_ids_ok db1" by (rule db_evolves_ids [OF c(1) assms(1)])
  note t = transition_effect [OF ids claimed(2)]
  have "ar_owner_instance_id r1 = Some owner" using claimed(1) by (rule claim_cases)
  with claimed(2) c(2) have "ar_owner_instance_id r' = Some owner" by (cases rule: transition_cases) auto
  with c t show ?thesis by (auto intro: db_evolves_trans)
next
  case (held r)
  from held(3,1,2) have "ar_owner_instance_id r' = Some owner" by (cases rule: transition_cases) auto
  with transition_effect [OF assms(1) held(3)] show ?thesis by auto
qed

lemma renew_evolves: "db_evolves db (snd (renew_agent_run_lease env i owner w u now ttl db))"
proof -
  have "evolves r (r\<lparr>ar_lease_expires_at := x, ar_updated_at := now\<rparr>)"
    if "lease_held i owner w u now r" for r x
  proof -
    have "ar_status r = RunPending \<or> ar_status r = RunRunning" using that by (simp add: lease_held_def)
    then show ?thesis
      by (elim disjE)
         (simp_all add: evolves_def identity_def status_reaches_def run_row_ok_def terminal_iff)
  qed
  then show ?thesis
    by (auto simp: renew_agent_run_lease_def db_evolves_def Let_def intro!: runs_evolve_update)
qed

lemma usage_evolves: "db_evolves db (record_run_usage now i usage db)"
proof -
  have "evolves r (r\<lparr>ar_usage := usage, ar_updated_at := now\<rparr>)" for r
    by (simp add: evolves_def identity_def status_reaches_def run_row_ok_def verdict_def)
  then show ?thesis
    by (auto simp: record_run_usage_def db_evolves_def intro!: runs_evolve_update)
qed

lemma complete_evolves:
  assumes "run_ids_ok db" and "complete_agent_run env now held out cj db = Inr (r', db')"
  shows "db_evolves db db'"
  using assms transition_evolves by (auto simp: complete_agent_run_def split: if_splits)

lemma check_parent_ok:
  assumes inv: "run_inv db" and ok: "check_parent_run p po w u now db = Inr ()"
  shows "\<exists>q \<in> set (agent_runs db). ar_id q = p \<and> ar_parent_run_id q = None \<and> ar_workspace_id q = w \<and>
    ar_user_id q = u \<and> ar_status q \<in> {RunPending, RunRunning} \<and>
    (\<forall>owner. po = Some owner \<longrightarrow> require_execution_owner q owner now = Inr ())"
proof -
  from ok obtain q rest where fam: "lock_run_family p db = q # rest" and q: "ar_id q = p" "ar_workspace_id q = w"
      "ar_user_id q = u" "ar_status q \<in> {RunPending, RunRunning}"
      "\<forall>owner. po = Some owner \<longrightarrow> require_execution_owner q owner now = Inr ()"
    by (auto simp: check_parent_run_def split: list.splits if_splits option.splits)
  have mem: "q \<in> set (agent_runs db)" using lock_run_family_rows [of q p db] fam by simp
  from lock_run_family_eq [OF inv mem] fam q(1) have "ar_parent_run_id q = None" by auto
  with q mem show ?thesis by blast
qed

lemma create_cases:
  assumes "create_agent_run now fresh q db = Inr (r, db')"
  shows "r = new_run fresh now q \<and> db' = db\<lparr>agent_runs := agent_runs db @ [r]\<rparr> \<and>
    fresh \<notin> ar_id ` set (agent_runs db) \<and>
    (\<forall>s \<in> set (agent_runs db). \<not> (active_run s \<and> ar_conversation_id s = rq_conversation_id q)) \<and>
    validate_run_context (rq_conversation_id q) (rq_agent_id q) (rq_workspace_id q) (rq_user_id q) db = Inr () \<and>
    (\<forall>p. rq_parent_run_id q = Some p \<longrightarrow>
       check_parent_run p (rq_parent_owner q) (rq_workspace_id q) (rq_user_id q) now db = Inr ())"
  using assms
  by (auto simp: create_agent_run_def bind_result_Inr Let_def list_ex_iff split: if_splits option.splits)

lemma new_run_simps [simp]:
  "ar_id (new_run f n q) = f" "ar_conversation_id (new_run f n q) = rq_conversation_id q"
  "ar_parent_run_id (new_run f n q) = rq_parent_run_id q" "ar_deleted (new_run f n q) = False"
  "ar_workspace_id (new_run f n q) = rq_workspace_id q" "ar_user_id (new_run f n q) = rq_user_id q"
  "ar_status (new_run f n q) = RunPending" "ar_owner_instance_id (new_run f n q) = None"
  by (simp_all add: new_run_def)

lemma create_inv:
  assumes "run_inv db" and "create_agent_run now fresh q db = Inr (r, db')"
  shows "run_inv db'"
proof -
  note c = create_cases [OF assms(2)]
  have r: "r = new_run fresh now q" and db': "agent_runs db' = agent_runs db @ [r]" using c by simp_all
  have "run_row_ok r" by (simp add: r run_row_ok_def new_run_def terminal_iff)
  moreover have "parent_ok (agent_runs db @ [r]) r"
  proof (cases "rq_parent_run_id q")
    case None
    then show ?thesis by (simp add: parent_ok_def r)
  next
    case (Some p)
    with check_parent_ok [OF assms(1)] c show ?thesis by (fastforce simp: parent_ok_def r)
  qed
  moreover have "parent_ok (agent_runs db @ [r]) s" if "s \<in> set (agent_runs db)" for s
    using run_invD(5) [OF assms(1) that] by (auto simp: parent_ok_def split: option.splits)
  moreover have "rq_conversation_id q \<notin> ar_conversation_id ` set (filter active_run (agent_runs db))"
    using c by auto
  ultimately show ?thesis
    using assms(1) c by (auto simp: run_inv_def run_ids_ok_def db' r)
qed

text \<open>Reaping: a chain of settlements of still-abandoned runs.\<close>

lemma reap_loop_evolves:
  "run_inv db \<Longrightarrow> reap_loop env now pc dl is failed db = Inr (failed', db') \<Longrightarrow> db_evolves db db'"
proof (induction "is" arbitrary: failed db)
  case Nil
  then show ?case by simp
next
  case (Cons i "is")
  show ?case
  proof (cases "find (\<lambda>r. ar_id r = i \<and> ar_status r \<in> {RunPending, RunRunning} \<and>
      abandoned_condition now pc dl r) (agent_runs db)")
    case None
    with Cons show ?thesis by simp
  next
    case (Some r)
    with Cons.prems(2) obtain ch db1 where
      settle: "settle_run_family env now i RunFailed (Some ''run_abandoned'')
         (Some (abandoned_message env now r)) None db = Inr (ch, db1)"
      and rest: "reap_loop env now pc dl is (failed @ map ar_id ch) db1 = Inr (failed', db')"
      by (auto simp: bind_result_Inr)
    have ev: "db_evolves db db1" by (rule settle_run_family_evolves [OF Cons.prems(1) settle])
    from Cons.IH [OF db_evolves_inv [OF Cons.prems(1) ev] rest] ev show ?thesis
      by (blast intro: db_evolves_trans)
  qed
qed

text \<open>The settlement, seen by primary key.\<close>

lemma settle_by_key:
  assumes "run_inv db" and "r \<in> set (agent_runs db)" and "ar_id r = i"
    and "settle_run_family env now i status c m None db = Inr (changed, db')"
  shows "(k \<in> set (map ar_id changed) \<longleftrightarrow> (\<exists>s. row_by_id ar_id k (agent_runs db) = Some s \<and> to_settle i s)) \<and>
    (k \<in> set (map ar_id changed) \<longrightarrow>
       (\<exists>s'. row_by_id ar_id k (agent_runs db') = Some s' \<and> ar_status s' = status)) \<and>
    (k \<notin> set (map ar_id changed) \<longrightarrow>
       row_by_id ar_id k (agent_runs db') = row_by_id ar_id k (agent_runs db))"
proof -
  note dist = run_invD(2) [OF assms(1)]
  note eff = settle_run_family_effect [OF assms(1-3) disjI1 [OF refl] assms(4)]
  have mem: "k \<in> set (map ar_id changed) \<longleftrightarrow> (\<exists>s. row_by_id ar_id k (agent_runs db) = Some s \<and> to_settle i s)"
    using eff row_by_id_unique [OF dist] row_by_id_Some [of ar_id k "agent_runs db"] by auto
  have "\<exists>s'. row_by_id ar_id k (agent_runs db') = Some s' \<and> ar_status s' = status"
    if "k \<in> set (map ar_id changed)"
    using that eff mem row_by_id_Some [of ar_id k "agent_runs db"] by blast
  moreover have "row_by_id ar_id k (agent_runs db') = row_by_id ar_id k (agent_runs db)"
    if out: "k \<notin> set (map ar_id changed)"
  proof (cases "row_by_id ar_id k (agent_runs db)")
    case None
    have "runs_evolve (agent_runs db) (agent_runs db')" using eff by (simp add: db_evolves_def)
    from runs_evolve_row_by_id [OF this, of k] None show ?thesis by simp
  next
    case (Some s)
    with out mem have "\<not> to_settle i s" by blast
    with eff Some row_by_id_Some [OF Some] show ?thesis by auto
  qed
  ultimately show ?thesis using mem by blast
qed

definition reapable :: "timestamp \<Rightarrow> timestamp \<Rightarrow> timestamp \<Rightarrow> uuid \<Rightarrow> run_db \<Rightarrow> bool" where
  "reapable now pc dl i db \<longleftrightarrow>
     (\<exists>r. row_by_id ar_id i (agent_runs db) = Some r \<and>
        (is_terminal (ar_status r) \<or>
         ar_status r \<in> {RunPending, RunRunning} \<and> abandoned_condition now pc dl r))"

definition reaped :: "uuid list \<Rightarrow> uuid list \<Rightarrow> run_db \<Rightarrow> run_db \<Rightarrow> bool" where
  "reaped is new db db' \<longleftrightarrow>
     (\<forall>k. k \<notin> set new \<longrightarrow> row_by_id ar_id k (agent_runs db') = row_by_id ar_id k (agent_runs db)) \<and>
     (\<forall>k \<in> set new. \<exists>s s'. row_by_id ar_id k (agent_runs db) = Some s \<and> \<not> is_terminal (ar_status s) \<and>
        (k \<in> set is \<or> (\<exists>p \<in> set is. ar_parent_run_id s = Some p)) \<and>
        row_by_id ar_id k (agent_runs db') = Some s' \<and> ar_status s' = RunFailed)"

lemma reap_loop_effect:
  assumes "run_inv db" and "\<forall>i \<in> set is. reapable now pc dl i db"
    and "reap_loop env now pc dl is failed db = Inr (failed', db')"
  shows "(\<forall>i \<in> set is. \<exists>r. row_by_id ar_id i (agent_runs db') = Some r \<and> is_terminal (ar_status r)) \<and>
    (\<exists>new. failed' = failed @ new \<and> reaped is new db db')"
  using assms
proof (induction "is" arbitrary: failed db)
  case Nil
  then show ?case by (simp add: reaped_def)
next
  case (Cons i "is")
  let ?P = "\<lambda>r. ar_id r = i \<and> ar_status r \<in> {RunPending, RunRunning} \<and> abandoned_condition now pc dl r"
  obtain r0 where r0: "row_by_id ar_id i (agent_runs db) = Some r0"
    "is_terminal (ar_status r0) \<or> ar_status r0 \<in> {RunPending, RunRunning} \<and> abandoned_condition now pc dl r0"
    using Cons.prems(2) by (auto simp: reapable_def)
  show ?case
  proof (cases "find ?P (agent_runs db)")
    case None
    then have "\<not> ?P r0" using row_by_id_Some [OF r0(1)] by (auto simp: find_None_iff)
    with r0 row_by_id_Some [OF r0(1)] have t0: "is_terminal (ar_status r0)" by blast
    from None Cons.prems(3) have rest: "reap_loop env now pc dl is failed db = Inr (failed', db')" by simp
    have IH: "(\<forall>i \<in> set is. \<exists>r. row_by_id ar_id i (agent_runs db') = Some r \<and> is_terminal (ar_status r)) \<and>
        (\<exists>new. failed' = failed @ new \<and> reaped is new db db')"
      using Cons.IH [OF Cons.prems(1) _ rest] Cons.prems(2) by simp
    then obtain new where new: "failed' = failed @ new" "reaped is new db db'" by blast
    have "i \<notin> set new" using new(2) r0(1) t0 by (auto simp: reaped_def)
    with new(2) r0(1) have "row_by_id ar_id i (agent_runs db') = Some r0" by (simp add: reaped_def)
    moreover have "reaped (i # is) new db db'" using new(2) unfolding reaped_def by (metis list.set_intros(2))
    ultimately show ?thesis using IH new(1) t0 by auto
  next
    case (Some r)
    note r = find_SomeD [OF Some]
    from Some Cons.prems(3) obtain ch db1 where
      settle: "settle_run_family env now i RunFailed (Some ''run_abandoned'')
         (Some (abandoned_message env now r)) None db = Inr (ch, db1)"
      and rest: "reap_loop env now pc dl is (failed @ map ar_id ch) db1 = Inr (failed', db')"
      by (auto simp: bind_result_Inr)
    have rin: "r \<in> set (agent_runs db)" "ar_id r = i" using r by blast+
    note key = settle_by_key [OF Cons.prems(1) rin settle]
    have inv1: "run_inv db1"
      by (rule db_evolves_inv [OF Cons.prems(1) settle_run_family_evolves [OF Cons.prems(1) settle]])
    have reap1: "reapable now pc dl k db1" if "k \<in> set is" for k
      using Cons.prems(2) key [of k] that by (fastforce simp: reapable_def terminal_iff)
    have IH: "(\<forall>i \<in> set is. \<exists>r. row_by_id ar_id i (agent_runs db') = Some r \<and> is_terminal (ar_status r)) \<and>
        (\<exists>new. failed' = (failed @ map ar_id ch) @ new \<and> reaped is new db1 db')"
      using Cons.IH [OF inv1 _ rest] reap1 by blast
    then obtain new where new: "failed' = (failed @ map ar_id ch) @ new" "reaped is new db1 db'" by blast
    have disj: "k \<notin> set new" if "k \<in> set (map ar_id ch)" for k
      using key [of k] that new(2) by (force simp: reaped_def terminal_iff)
    have "to_settle i r" using r by (auto simp: to_settle_def affected_def terminal_iff)
    then have "i \<in> set (map ar_id ch)"
      using key [of i] row_by_id_unique [OF run_invD(2) [OF Cons.prems(1)] rin(1)] rin(2) by auto
    then have ti: "\<exists>s. row_by_id ar_id i (agent_runs db') = Some s \<and> is_terminal (ar_status s)"
      using key [of i] disj [of i] new(2) by (auto simp: reaped_def terminal_iff)
    have "reaped (i # is) (map ar_id ch @ new) db db'"
      unfolding reaped_def
    proof (intro conjI allI ballI impI)
      fix k
      assume "k \<notin> set (map ar_id ch @ new)"
      with key [of k] new(2) show "row_by_id ar_id k (agent_runs db') = row_by_id ar_id k (agent_runs db)"
        by (simp add: reaped_def)
    next
      fix k
      assume k: "k \<in> set (map ar_id ch @ new)"
      show "\<exists>s s'. row_by_id ar_id k (agent_runs db) = Some s \<and> \<not> is_terminal (ar_status s) \<and>
          (k \<in> set (i # is) \<or> (\<exists>p \<in> set (i # is). ar_parent_run_id s = Some p)) \<and>
          row_by_id ar_id k (agent_runs db') = Some s' \<and> ar_status s' = RunFailed"
      proof (cases "k \<in> set (map ar_id ch)")
        case True
        then obtain s where s: "row_by_id ar_id k (agent_runs db) = Some s" "to_settle i s"
          using key [of k] by blast
        have "row_by_id ar_id k (agent_runs db') = row_by_id ar_id k (agent_runs db1)"
          using disj [OF True] new(2) by (simp add: reaped_def)
        with key [of k] True s row_by_id_Some [OF s(1)] show ?thesis
          by (auto simp: to_settle_def affected_def)
      next
        case False
        with k have "k \<in> set new" by simp
        with new(2) obtain s s' where s: "row_by_id ar_id k (agent_runs db1) = Some s"
          "\<not> is_terminal (ar_status s)" "k \<in> set is \<or> (\<exists>p \<in> set is. ar_parent_run_id s = Some p)"
          "row_by_id ar_id k (agent_runs db') = Some s'" "ar_status s' = RunFailed"
          unfolding reaped_def by blast
        moreover have "row_by_id ar_id k (agent_runs db) = Some s"
          using key [of k] False s(1) by simp
        moreover have "k \<in> set (i # is) \<or> (\<exists>p \<in> set (i # is). ar_parent_run_id s = Some p)"
          using s(3) by auto
        ultimately show ?thesis by blast
      qed
    qed
    with IH new(1) ti show ?thesis by auto
  qed
qed

section \<open>A settlement is never refused\<close>

text \<open>
  What the environment must provide: the cleanup kind is registered, and the identifiers of the jobs to
  be inserted are fresh.
\<close>

definition cleanup_ready :: "run_env \<Rightarrow> agent_run list \<Rightarrow> run_db \<Rightarrow> bool" where
  "cleanup_ready env runs db \<longleftrightarrow>
     DELETE_STAGED_APPROVAL_CONTENT_KIND \<in> dom (e_registry env) \<and>
     distinct (map (e_fresh_job env) runs) \<and>
     e_fresh_job env ` set runs \<inter> j_id ` set (run_jobs db) = {}"

lemma cleanup_total:
  assumes "cleanup_ready env (run # runs) db"
  shows "\<exists>T. enqueue_staged_approval_content_cleanup env now run db = Inr (db\<lparr>run_jobs := T\<rparr>) \<and>
    cleanup_ready env runs (db\<lparr>run_jobs := T\<rparr>)"
proof (cases "e_staged_refs env run = []")
  case True
  with assms show ?thesis
    by (auto simp: enqueue_staged_approval_content_cleanup_def cleanup_ready_def intro!: exI [of _ "run_jobs db"])
next
  case False
  let ?q = "\<lparr>q_kind = DELETE_STAGED_APPROVAL_CONTENT_KIND, q_workspace_id = None,
      q_concurrency_user_id = None, q_subject_type = Some ''agent_run'',
      q_subject_id = Some (ar_id run),
      q_payload = Some [(''workspace_id'', JStr (e_uuid_text env (ar_workspace_id run))),
                        (''run_id'', JStr (e_uuid_text env (ar_id run))),
                        (''content_refs'', JArr (map JStr (e_staged_refs env run)))],
      q_content_hash = Some ''delete-staged-approval-content'', q_priority = 100,
      q_run_after = None, q_max_attempts = None, q_initiated_by_user_id = None\<rparr>"
  obtain h where h: "e_registry env (q_kind ?q) = Some h"
    using assms by (auto simp: cleanup_ready_def)
  have "e_fresh_job env run \<notin> j_id ` set (run_jobs db)" using assms by (auto simp: cleanup_ready_def)
  then have "\<exists>j T. enqueue_job (e_job_settings env) (e_registry env) (e_sha256 env) (e_encode env) now
      (e_fresh_job env run) (run_jobs db) ?q = Inr (j, T) \<and>
      j_id ` set T \<subseteq> insert (e_fresh_job env run) (j_id ` set (run_jobs db))"
    by (intro enqueue_job_total [where h = h and s = "''agent_run''"]) (use h in simp_all)
  then obtain j T where enq: "enqueue_job (e_job_settings env) (e_registry env) (e_sha256 env) (e_encode env) now
      (e_fresh_job env run) (run_jobs db) ?q = Inr (j, T)"
    and T: "j_id ` set T \<subseteq> insert (e_fresh_job env run) (j_id ` set (run_jobs db))" by blast
  from enq False have "enqueue_staged_approval_content_cleanup env now run db = Inr (db\<lparr>run_jobs := T\<rparr>)"
    by (simp add: enqueue_staged_approval_content_cleanup_def)
  moreover have "cleanup_ready env runs (db\<lparr>run_jobs := T\<rparr>)"
  proof -
    have a: "e_fresh_job env run \<notin> e_fresh_job env ` set runs"
        "e_fresh_job env ` set runs \<inter> j_id ` set (run_jobs db) = {}"
      using assms by (simp_all add: cleanup_ready_def)
    have "A \<inter> C = {}" if "x \<notin> A" "A \<inter> B = {}" "C \<subseteq> insert x B" for A B C :: "uuid set" and x
      using that by blast
    from this [OF a T] have "e_fresh_job env ` set runs \<inter> j_id ` set T = {}" .
    with assms show ?thesis by (simp add: cleanup_ready_def)
  qed
  ultimately show ?thesis by blast
qed

lemma transition_total:
  assumes "row_by_id ar_id i (agent_runs db) = Some run" and "\<not> is_terminal (ar_status run)"
    and "settling status" and "\<exists>w. resolve_completion status c cj = Inr w"
  shows "\<exists>r' db'. transition_run_status env now i status c m None cj db = Inr (r', db') \<and> run_jobs db' = run_jobs db"
proof -
  have can: "can_transition (ar_status run) status" and ne: "ar_status run \<noteq> status" and t: "is_terminal status"
    using open_can_settle [OF assms(2)] assms(2,3) by (auto simp: settling_def terminal_iff)
  have "\<exists>v. resolve_outcome status c None = Inr v"
    using assms(3) t by (auto simp: resolve_outcome_def terminal_run_outcome_def settling_def)
  with assms(1,4) can ne t show ?thesis by (auto simp: transition_run_status_def Let_def)
qed

lemma parent_terminated_fits:
  "settling status \<Longrightarrow> \<exists>w. resolve_completion status (Some ''run_parent_terminated'') None = Inr w"
  by (auto simp: resolve_completion_def validate_completion_json_def settling_def failure_completion_json_def
      or_string_def json_string_bytes_def json_char_bytes_def MAX_COMPLETION_JSON_BYTES_def terminal_iff)

lemma settle_loop_total:
  assumes "run_ids_ok db" and "settling status" and "distinct (map ar_id runs)"
    and "\<forall>r \<in> set runs. row_by_id ar_id (ar_id r) (agent_runs db) = Some r"
    and "cleanup_ready env runs db" and "\<exists>w. resolve_completion status c cj = Inr w"
  shows "\<exists>changed' db'. settle_loop env now i status (c, m, cj) runs changed db = Inr (changed', db')"
  using assms
proof (induction runs arbitrary: changed db)
  case Nil
  then show ?case by simp
next
  case (Cons run runs)
  have ready: "cleanup_ready env runs db" using Cons.prems(5) by (auto simp: cleanup_ready_def)
  show ?case
  proof (cases "to_settle i run")
    case False
    show ?thesis
      unfolding settle_loop_skip [OF False]
      using Cons.IH [OF Cons.prems(1,2) _ _ ready Cons.prems(6), of changed] Cons.prems(3,4) by simp
  next
    case True
    obtain T where clean: "enqueue_staged_approval_content_cleanup env now run db = Inr (db\<lparr>run_jobs := T\<rparr>)"
      and ready1: "cleanup_ready env runs (db\<lparr>run_jobs := T\<rparr>)"
      using cleanup_total [OF Cons.prems(5)] by blast
    let ?c = "if ar_id run = i then c else Some ''run_parent_terminated''"
    let ?m = "if ar_id run = i then m else Some ''The specialist stopped because its parent run ended.''"
    let ?cj = "if ar_id run = i then cj else None"
    have "\<exists>w. resolve_completion status ?c ?cj = Inr w"
      using Cons.prems(6) parent_terminated_fits [OF Cons.prems(2)] by simp
    then obtain r' db2 where
      tr: "transition_run_status env now (ar_id run) status ?c ?m None ?cj (db\<lparr>run_jobs := T\<rparr>) = Inr (r', db2)"
      and jobs: "run_jobs db2 = T"
      using transition_total [of "ar_id run" "db\<lparr>run_jobs := T\<rparr>" run status ?c ?cj env now ?m]
        Cons.prems(2,4) True by (auto simp: to_settle_def)
    have ids: "run_ids_ok (db\<lparr>run_jobs := T\<rparr>)" using Cons.prems(1) by (simp add: run_jobs_same)
    have ids2: "run_ids_ok db2"
      using db_evolves_ids [OF transition_evolves [OF ids tr] ids] .
    have ready2: "cleanup_ready env runs db2" using ready1 jobs by (simp add: cleanup_ready_def)
    have keep: "\<forall>r \<in> set runs. row_by_id ar_id (ar_id r) (agent_runs db2) = Some r"
    proof
      fix r
      assume r: "r \<in> set runs"
      then have "ar_id r \<in> ar_id ` set runs" by simp
      with Cons.prems(3) have "ar_id r \<noteq> ar_id run" by (metis distinct.simps(2) list.simps(9) set_map)
      from transition_others [OF ids tr this] r Cons.prems(4)
      show "row_by_id ar_id (ar_id r) (agent_runs db2) = Some r" by simp
    qed
    have "settle_loop env now i status (c, m, cj) (run # runs) changed db =
        settle_loop env now i status (c, m, cj) runs (changed @ [r']) db2"
      using True clean tr by (auto simp: to_settle_def affected_def)
    with Cons.IH [OF ids2 Cons.prems(2) _ keep ready2 Cons.prems(6), of "changed @ [r']"] Cons.prems(3)
    show ?thesis by simp
  qed
qed

end
