(* ===== verification/Run_System.thy ===== *)
theory Run_System
  imports Run_Families
begin

text \<open>
  The run component as a system of committed transactions, with its two contracts: the invariant
  \<open>run_inv\<close> together with the permanence of terminal verdicts, and the fencing of invocations by
  \<^verbatim>\<open>owner_instance_id\<close>. An event whose code raises changes nothing.
\<close>

datatype run_event =
    CreateRun timestamp uuid run_request
  | ClaimRun uuid string timestamp "int option"
  | StartRun timestamp uuid
  | StartWithLease uuid string timestamp timestamp "int option"
  | RenewRun uuid string uuid uuid timestamp "int option"
  | AwaitRun timestamp uuid
  | CompleteRun timestamp agent_run "run_outcome option" "pydict option"
  | FailRun timestamp uuid "string option" "string option" "run_outcome option" "pydict option"
  | CancelRun timestamp uuid "run_outcome option" "pydict option"
  | RecordUsage timestamp uuid run_usage
  | SettleFamily timestamp uuid run_status "string option" "string option" "string option"
  | ReapRuns timestamp "uuid option" "uuid option" "int option" "int option" nat
  | RequestCancel timestamp uuid bool uuid uuid

definition committed :: "run_db \<Rightarrow> app_error + 'r \<times> run_db \<Rightarrow> run_db" where
  "committed db r = (case r of Inl e \<Rightarrow> db | Inr (x, db') \<Rightarrow> db')"

fun run_step :: "run_env \<Rightarrow> run_db \<Rightarrow> run_event \<Rightarrow> run_db" where
  "run_step env db (CreateRun now fresh q) = committed db (create_agent_run now fresh q db)"
| "run_step env db (ClaimRun i owner now ttl) =
     committed db (claim_agent_run_execution env i owner now ttl db)"
| "run_step env db (StartRun now i) = committed db (start_agent_run env now i db)"
| "run_step env db (StartWithLease i owner now clock ttl) =
     committed db (start_agent_run_with_lease env i owner now clock ttl db)"
| "run_step env db (RenewRun i owner w u now ttl) =
     snd (renew_agent_run_lease env i owner w u now ttl db)"
| "run_step env db (AwaitRun now i) = committed db (mark_run_awaiting_approval env now i db)"
| "run_step env db (CompleteRun now held out cj) = committed db (complete_agent_run env now held out cj db)"
| "run_step env db (FailRun now i c m out cj) = committed db (fail_agent_run env now i c m out cj db)"
| "run_step env db (CancelRun now i out cj) = committed db (cancel_agent_run env now i out cj db)"
| "run_step env db (RecordUsage now i usage) = record_run_usage now i usage db"
| "run_step env db (SettleFamily now i status c m owner) =
     committed db (settle_run_family env now i status c m owner db)"
| "run_step env db (ReapRuns now i c pg md n) =
     committed db (reap_abandoned_runs env now i c pg md n db)"
| "run_step env db (RequestCancel now actor manager w i) =
     committed db (request_agent_run_cancellation env now actor manager w i db)"

section \<open>The invariant and the verdicts\<close>

lemma committed_evolves: "(\<And>x db'. r = Inr (x, db') \<Longrightarrow> db_evolves db db') \<Longrightarrow> db_evolves db (committed db r)"
  by (auto simp: committed_def split: sum.splits)

lemma request_cancel_evolves:
  "run_inv db \<Longrightarrow> request_agent_run_cancellation env now a m w i db = Inr (x, db') \<Longrightarrow> db_evolves db db'"
  by (auto simp: request_agent_run_cancellation_def bind_result_Inr split: option.splits if_splits
      dest: settle_run_family_evolves)

lemma reap_evolves:
  "run_inv db \<Longrightarrow> reap_abandoned_runs env now i c pg md n db = Inr (x, db') \<Longrightarrow> db_evolves db db'"
  unfolding reap_abandoned_runs_def Let_def by (rule reap_loop_evolves)

lemma run_step_evolves:
  assumes "run_inv db" and "\<And>now f q. e \<noteq> CreateRun now f q"
  shows "db_evolves db (run_step env db e)"
proof -
  have ids: "run_ids_ok db" by (rule run_invD(1) [OF assms(1)])
  show ?thesis
  proof (cases e)
    case (CreateRun now f q)
    with assms(2) show ?thesis by blast
  next
    case (ClaimRun i owner now ttl)
    then show ?thesis using claim_evolves(1) [OF ids] by (auto intro: committed_evolves)
  next
    case (StartRun now i)
    then show ?thesis
      using transition_evolves [OF ids] by (auto simp: start_agent_run_def intro: committed_evolves)
  next
    case (StartWithLease i owner now clock ttl)
    then show ?thesis using start_with_lease_evolves [OF ids] by (auto intro: committed_evolves)
  next
    case (RenewRun i owner w u now ttl)
    then show ?thesis using renew_evolves by simp
  next
    case (AwaitRun now i)
    then show ?thesis
      using transition_evolves [OF ids] by (auto simp: mark_run_awaiting_approval_def intro: committed_evolves)
  next
    case (CompleteRun now held out cj)
    then show ?thesis using complete_evolves [OF ids] by (auto intro: committed_evolves)
  next
    case (FailRun now i c m out cj)
    then show ?thesis
      using transition_evolves [OF ids] by (auto simp: fail_agent_run_def intro: committed_evolves)
  next
    case (CancelRun now i out cj)
    then show ?thesis
      using transition_evolves [OF ids] by (auto simp: cancel_agent_run_def intro: committed_evolves)
  next
    case (RecordUsage now i usage)
    then show ?thesis using usage_evolves by simp
  next
    case (SettleFamily now i status c m owner)
    then show ?thesis using settle_run_family_evolves [OF assms(1)] by (auto intro: committed_evolves)
  next
    case (ReapRuns now i c pg md n)
    then show ?thesis using reap_evolves [OF assms(1)] by (auto intro: committed_evolves)
  next
    case (RequestCancel now a m w i)
    then show ?thesis using request_cancel_evolves [OF assms(1)] by (auto intro: committed_evolves)
  qed
qed

lemma create_step:
  "run_step env db (CreateRun now f q) = db \<or>
   (\<exists>r. create_agent_run now f q db = Inr (r, run_step env db (CreateRun now f q)))"
  by (auto simp: committed_def split: sum.splits)

lemma run_step_inv:
  assumes "run_inv db"
  shows "run_inv (run_step env db e)"
proof (cases "\<exists>now f q. e = CreateRun now f q")
  case True
  then obtain now f q where e: "e = CreateRun now f q" by blast
  from create_step [of env db now f q] show ?thesis
    unfolding e using assms create_inv [OF assms] by metis
next
  case False
  then have "db_evolves db (run_step env db e)" by (intro run_step_evolves [OF assms]) blast
  then show ?thesis by (rule db_evolves_inv [OF assms])
qed

interpretation run_system: invariant_system "run_step env" run_inv for env
  by unfold_locales (rule run_step_inv)

text \<open>A stored run stays stored, and evolves by the contract, whatever the event.\<close>

lemma run_step_row:
  assumes "run_inv db" and "row_by_id ar_id i (agent_runs db) = Some r"
  shows "\<exists>r'. row_by_id ar_id i (agent_runs (run_step env db e)) = Some r' \<and> evolves r r'"
proof (cases "\<exists>now f q. e = CreateRun now f q")
  case True
  then obtain now f q where e: "e = CreateRun now f q" by blast
  show ?thesis
  proof (cases "run_step env db e = db")
    case True
    with assms(2) show ?thesis by auto
  next
    case False
    with create_step [of env db now f q] obtain x where
      "create_agent_run now f q db = Inr (x, run_step env db e)" unfolding e by blast
    from create_cases [OF this] have "agent_runs (run_step env db e) = agent_runs db @ [x]" by simp
    moreover have "find P (T @ [x]) = Some r" if "find P T = Some r" for P T
      using that by (induction T) auto
    ultimately show ?thesis using assms(2) by (auto simp: row_by_id_def)
  qed
next
  case False
  then have "db_evolves db (run_step env db e)" by (intro run_step_evolves [OF assms(1)]) blast
  then have "runs_evolve (agent_runs db) (agent_runs (run_step env db e))" by (simp add: db_evolves_def)
  from runs_evolve_row_by_id [OF this, of i] assms(2) show ?thesis by simp
qed

lemma run_events_row:
  assumes "run_inv db" and "row_by_id ar_id i (agent_runs db) = Some r"
  shows "\<exists>r'. row_by_id ar_id i (agent_runs (foldl (run_step env) db es)) = Some r' \<and> evolves r r'"
  using assms
proof (induction es arbitrary: db r)
  case Nil
  then show ?case by auto
next
  case (Cons e es)
  obtain r1 where r1: "row_by_id ar_id i (agent_runs (run_step env db e)) = Some r1" "evolves r r1"
    using run_step_row [OF Cons.prems] by blast
  from Cons.IH [OF run_step_inv [OF Cons.prems(1)] r1(1)] r1(2) show ?case
    by (auto intro: evolves_trans)
qed

section \<open>Fencing by owner\<close>

definition run_holder :: "run_db \<Rightarrow> uuid \<Rightarrow> string option" where
  "run_holder db i = (case row_by_id ar_id i (agent_runs db) of None \<Rightarrow> None | Some r \<Rightarrow> ar_owner_instance_id r)"

fun run_acts :: "run_event \<Rightarrow> string \<Rightarrow> uuid \<Rightarrow> bool" where
  "run_acts (RenewRun i w _ _ _ _) owner k = (i = k \<and> w = owner)"
| "run_acts (SettleFamily _ i _ _ _ w) owner k = (i = k \<and> w = Some owner)"
| "run_acts (CreateRun _ _ q) owner k = (rq_parent_run_id q = Some k \<and> rq_parent_owner q = Some owner)"
| "run_acts _ _ _ = False"

fun run_grants :: "run_event \<Rightarrow> string \<Rightarrow> bool" where
  "run_grants (ClaimRun _ w _ _) owner = (w = owner)"
| "run_grants (StartWithLease _ w _ _ _) owner = (w = owner)"
| "run_grants _ _ = False"

text \<open>What does not claim keeps every recorded owner.\<close>

definition owners_kept :: "run_db \<Rightarrow> run_db \<Rightarrow> bool" where
  "owners_kept db db' \<longleftrightarrow> (\<forall>k. run_holder db' k = run_holder db k)"

lemma owners_kept_refl [simp, intro]: "owners_kept db db"
  by (simp add: owners_kept_def)

lemma owners_kept_trans: "owners_kept a b \<Longrightarrow> owners_kept b c \<Longrightarrow> owners_kept a c"
  by (simp add: owners_kept_def)

lemma transition_owners:
  assumes "transition_run_status env now i t c m out cj db = Inr (r', db')"
  shows "owners_kept db db'"
  using assms
proof (cases rule: transition_cases)
  case same
  then show ?thesis by simp
next
  case (moved r v w)
  note r = row_by_id_Some [OF moved(1)] and key = row_by_id_in_keys [OF moved(1)]
  have "run_holder db' k = run_holder db k" for k
    using moved(1,5,6) r key by (cases "k = i") (simp_all add: run_holder_def row_by_id_write_row)
  then show ?thesis by (simp add: owners_kept_def)
qed

lemma settle_loop_owners:
  "settle_loop env now i status v runs changed db = Inr (changed', db') \<Longrightarrow> owners_kept db db'"
proof (induction runs arbitrary: changed db)
  case Nil
  then show ?case by simp
next
  case (Cons run runs)
  show ?case
  proof (cases "to_settle i run")
    case False
    from Cons.prems have "settle_loop env now i status v runs changed db = Inr (changed', db')"
      unfolding settle_loop_skip [OF False] .
    then show ?thesis by (rule Cons.IH)
  next
    case True
    obtain T c m cj run' db2 where
      tr: "transition_run_status env now (ar_id run) status c m None cj (db\<lparr>run_jobs := T\<rparr>) = Inr (run', db2)"
      and rest: "settle_loop env now i status v runs (changed @ [run']) db2 = Inr (changed', db')"
      by (rule settle_loop_step [OF True Cons.prems])
    have "owners_kept db db2" using transition_owners [OF tr] by (simp add: owners_kept_def run_holder_def)
    with Cons.IH [OF rest] show ?thesis by (blast intro: owners_kept_trans)
  qed
qed

lemma settle_owners:
  assumes "settle_run_family env now i status c m owner db = Inr (changed, db')"
  shows "owners_kept db db'"
  using assms by (auto simp: settle_run_family_def Let_def split: if_splits option.splits dest: settle_loop_owners)

lemma reap_loop_owners:
  "reap_loop env now pc dl is failed db = Inr (failed', db') \<Longrightarrow> owners_kept db db'"
proof (induction "is" arbitrary: failed db)
  case Nil
  then show ?case by simp
next
  case (Cons i "is")
  then show ?case
    by (auto simp: bind_result_Inr split: option.splits dest!: settle_owners intro: owners_kept_trans)
qed

lemma committed_owners: "(\<And>x db'. r = Inr (x, db') \<Longrightarrow> owners_kept db db') \<Longrightarrow> owners_kept db (committed db r)"
  by (auto simp: committed_def split: sum.splits)

lemma update_owners:
  assumes "\<And>r. ar_id (f r) = ar_id r" and "\<And>r. ar_owner_instance_id (f r) = ar_owner_instance_id r"
  shows "owners_kept db (db\<lparr>agent_runs := update_where P f (agent_runs db)\<rparr>)"
proof -
  have row: "row_by_id ar_id k (update_where P f T) = map_option (\<lambda>r. if P r then f r else r) (row_by_id ar_id k T)"
    for k T by (rule row_update.row_by_id_update_where) (unfold_locales, rule assms(1))
  have "run_holder (db\<lparr>agent_runs := update_where P f (agent_runs db)\<rparr>) k = run_holder db k" for k
    using assms(2) by (cases "row_by_id ar_id k (agent_runs db)") (simp_all add: run_holder_def row)
  then show ?thesis by (simp add: owners_kept_def)
qed

text \<open>A claim for \<open>v\<close> changes the owner of its run only, and to \<open>v\<close>.\<close>

definition owner_changes_to :: "string \<Rightarrow> run_db \<Rightarrow> run_db \<Rightarrow> bool" where
  "owner_changes_to v db db' \<longleftrightarrow> (\<forall>k. run_holder db' k = run_holder db k \<or> run_holder db' k = Some v)"

lemma claim_owner:
  assumes "claim_agent_run_execution env i v now ttl db = Inr (r', db')"
  shows "owner_changes_to v db db'"
proof -
  obtain r where r: "row_by_id ar_id i (agent_runs db) = Some r" and ev: "evolves r r'"
    and own: "ar_owner_instance_id r' = Some v" and db': "db' = db\<lparr>agent_runs := write_row ar_id r' (agent_runs db)\<rparr>"
    using assms by (rule claim_cases)
  have id: "ar_id r' = i" using evolves_id [OF ev] row_by_id_Some [OF r] by simp
  show ?thesis
    unfolding owner_changes_to_def
  proof
    fix k
    show "run_holder db' k = run_holder db k \<or> run_holder db' k = Some v"
      using own row_by_id_in_keys [OF r] by (cases "k = i") (simp_all add: run_holder_def db' row_by_id_write_row id)
  qed
qed

lemma start_owner:
  assumes "start_agent_run_with_lease env i v now clock ttl db = Inr (r', db')"
  shows "owner_changes_to v db db'"
  using assms
proof (cases rule: start_with_lease_cases)
  case (claimed r1 db1)
  from claim_owner [OF claimed(1)] transition_owners [OF claimed(2)] show ?thesis
    by (simp add: owner_changes_to_def owners_kept_def)
next
  case (held r)
  from transition_owners [OF held(3)] show ?thesis by (simp add: owner_changes_to_def owners_kept_def)
qed

lemma create_owner:
  assumes "create_agent_run now f q db = Inr (r, db')"
  shows "run_holder db' k = run_holder db k \<or> run_holder db' k = None"
proof -
  have db': "agent_runs db' = agent_runs db @ [new_run f now q]" using create_cases [OF assms] by simp
  have app: "row_by_id ar_id k (T @ [x]) = (case row_by_id ar_id k T of
      Some y \<Rightarrow> Some y | None \<Rightarrow> if ar_id x = k then Some x else None)" for T x
    by (induction T) (auto simp: row_by_id_def)
  show ?thesis
    by (cases "row_by_id ar_id k (agent_runs db)") (simp_all add: run_holder_def db' app)
qed

lemma run_not_granted:
  assumes inv: "run_inv db" and quiet: "\<not> run_grants e w" and lost: "run_holder db k \<noteq> Some w"
  shows "run_holder (run_step env db e) k \<noteq> Some w"
proof -
  have kept: "run_holder db' k \<noteq> Some w" if "owners_kept db db'" for db'
    using that lost by (simp add: owners_kept_def)
  have changed: "run_holder (committed db r) k \<noteq> Some w"
    if "\<And>x db'. r = Inr (x, db') \<Longrightarrow> owner_changes_to v db db'" and "v \<noteq> w" for r :: "app_error + 'b \<times> run_db" and v
    using that lost by (auto simp: committed_def owner_changes_to_def split: sum.splits) (metis option.inject)
  have trans: "owners_kept db (committed db (transition_run_status env now i t c m out cj db))"
    for now i t c m out cj
    by (rule committed_owners) (rule transition_owners)
  show ?thesis
  proof (cases e)
    case (CreateRun now f q)
    then show ?thesis
      using create_owner [of now f q db] lost
      by (auto simp: committed_def split: sum.splits) (metis option.distinct(1))
  next
    case (ClaimRun i owner now ttl)
    then show ?thesis
      using changed [of "claim_agent_run_execution env i owner now ttl db" owner] claim_owner quiet by simp
  next
    case (StartWithLease i owner now clock ttl)
    then show ?thesis
      using changed [of "start_agent_run_with_lease env i owner now clock ttl db" owner] start_owner quiet by simp
  next
    case (RenewRun i owner x u now ttl)
    then show ?thesis by (simp, intro kept) (simp add: renew_agent_run_lease_def Let_def update_owners)
  next
    case (RecordUsage now i usage)
    then show ?thesis by (simp, intro kept) (simp add: record_run_usage_def update_owners)
  next
    case (CompleteRun now held out cj)
    then show ?thesis
      by (simp, intro kept committed_owners)
         (auto simp: complete_agent_run_def split: if_splits dest: transition_owners)
  next
    case (SettleFamily now i status c m owner)
    then show ?thesis by (simp, intro kept committed_owners) (rule settle_owners)
  next
    case (ReapRuns now i c pg md n)
    then show ?thesis
      by (simp, intro kept committed_owners) (auto simp: reap_abandoned_runs_def Let_def dest: reap_loop_owners)
  next
    case (RequestCancel now a m x i)
    then show ?thesis
      by (simp, intro kept committed_owners)
         (auto simp: request_agent_run_cancellation_def bind_result_Inr split: option.splits if_splits
            dest: settle_owners)
  qed (use trans kept in \<open>simp_all add: start_agent_run_def mark_run_awaiting_approval_def
        fail_agent_run_def cancel_agent_run_def\<close>)
qed

lemma run_unowned_ignored:
  assumes inv: "run_inv db" and act: "run_acts e w k" and lost: "run_holder db k \<noteq> Some w"
  shows "run_step env db e = db"
proof -
  note dist = run_invD(2) [OF inv]
  have row: "ar_owner_instance_id r \<noteq> Some w" if "r \<in> set (agent_runs db)" "ar_id r = k" for r
    using lost row_by_id_unique [OF dist that(1)] that(2) by (simp add: run_holder_def)
  from act show ?thesis
  proof (cases e)
    case (RenewRun i owner x u now ttl)
    with act row have "\<And>r. r \<in> set (agent_runs db) \<Longrightarrow> \<not> lease_held i owner x u now r"
      by (auto simp: lease_held_def)
    then show ?thesis by (simp add: RenewRun renew_agent_run_lease_def Let_def update_where_none)
  next
    case (SettleFamily now i status c m owner)
    with act have i: "i = k" "owner = Some w" by simp_all
    show ?thesis
    proof (cases "find (\<lambda>r. ar_id r = k) (lock_run_family k db)")
      case None
      then show ?thesis by (simp add: SettleFamily i settle_run_family_def committed_def Let_def)
    next
      case (Some r)
      from find_SomeD [OF Some] have "ar_owner_instance_id r \<noteq> Some w"
        using row lock_run_family_rows by blast
      with Some show ?thesis by (simp add: SettleFamily i settle_run_family_def committed_def Let_def)
    qed
  next
    case (CreateRun now f q)
    with act have q: "rq_parent_run_id q = Some k" "rq_parent_owner q = Some w" by simp_all
    show ?thesis
    proof (cases "create_agent_run now f q db")
      case (Inl err)
      then show ?thesis by (simp add: CreateRun committed_def)
    next
      case (Inr x)
      obtain r db' where x: "x = (r, db')" by fastforce
      from create_cases [OF Inr [unfolded x]] q check_parent_ok [OF inv] obtain p where
        "p \<in> set (agent_runs db)" "ar_id p = k" "require_execution_owner p w now = Inr ()" by metis
      with row show ?thesis by (auto simp: require_execution_owner_def split: if_splits)
    qed
  qed simp_all
qed

interpretation run_fencing: fenced_store "run_step env" run_inv run_holder run_acts run_grants for env
proof unfold_locales
  show "run_step env db e = db" if "run_inv db" and "run_acts e w k" and "run_holder db k \<noteq> Some w" for db e w k
    by (rule run_unowned_ignored [OF that])
  show "run_holder (run_step env db e) k \<noteq> Some w"
    if "run_inv db" and "\<not> run_grants e w" and "run_holder db k \<noteq> Some w" for db e w k
    by (rule run_not_granted [OF that])
qed

end
