(* ===== verification/Run_Properties.thy ===== *)
theory Run_Properties
  imports Run_System
begin

text \<open>The properties of agent runs, each with a witness on a small family of runs.\<close>

section \<open>A concrete family\<close>

definition sample_run :: "uuid \<Rightarrow> uuid option \<Rightarrow> run_status \<Rightarrow> agent_run" where
  "sample_run i p st =
     \<lparr>ar_id = i, ar_conversation_id = 100 + i, ar_agent_id = 3, ar_workspace_id = 7, ar_user_id = 5,
      ar_parent_run_id = p, ar_delegation_depth = (if p = None then 0 else 1), ar_trigger = Interactive,
      ar_status = st, ar_model_name = None, ar_started_at = Some 0, ar_completed_at = None,
      ar_failed_at = None, ar_lease_expires_at = (if st = RunRunning then Some 50 else None),
      ar_owner_instance_id = (if st = RunRunning then Some ''a'' else None), ar_usage = no_usage,
      ar_error_code = None, ar_error_message = None, ar_outcome = None, ar_completion_json = None,
      ar_metadata_json = None, ar_created_at = 0, ar_updated_at = 0, ar_deleted = False\<rparr>"

definition sample_db :: run_db where
  "sample_db =
     \<lparr>agent_runs = [sample_run 11 None RunRunning, sample_run 12 (Some 11) RunAwaitingApproval,
                    sample_run 13 None RunPending],
      conversations = [\<lparr>cv_id = 110, cv_workspace_id = 7, cv_user_id = 5, cv_active_agent_id = None,
                        cv_deleted = False\<rparr>],
      agents = [\<lparr>ag_id = 3, ag_workspace_id = 7, ag_is_active = True, ag_deleted = False\<rparr>],
      run_jobs = [], run_audits = []\<rparr>"

definition sample_env :: run_env where
  "sample_env =
     \<lparr>e_settings = default_agent_settings, e_job_settings = default_job_settings,
      e_registry = [DELETE_STAGED_APPROVAL_CONTENT_KIND \<mapsto>
        \<lparr>h_kind = DELETE_STAGED_APPROVAL_CONTENT_KIND, h_timeout = None, h_max_attempts = None\<rparr>],
      e_sha256 = take 64, e_encode = (\<lambda>_. ''{}''), e_uuid_text = (\<lambda>_. ''u''),
      e_isoformat = (\<lambda>_. ''t''), e_generation = (\<lambda>_. None), e_staged_refs = (\<lambda>_. []),
      e_evidence = (\<lambda>_. []), e_fresh_job = (\<lambda>r. 1000 + ar_id r)\<rparr>"

lemma sample_db_inv: "run_inv sample_db"
  by (simp add: run_inv_def run_ids_ok_def sample_db_def sample_run_def run_row_ok_def terminal_iff
      parent_ok_def active_iff)

lemma sample_row_11: "row_by_id ar_id 11 (agent_runs sample_db) = Some (sample_run 11 None RunRunning)"
  by (simp add: sample_db_def sample_run_def row_by_id_def)

section \<open>Transitions\<close>

text \<open>
  \<^verbatim>\<open>transition_run_status\<close> on a stored run, exactly. It is the identity when the run already has the
  target status. It raises precisely when the edge is not allowed, when a verdict is given for a
  target that is not terminal, or when the completion evidence is too large. Otherwise the stored
  row takes the target status; a terminal target gets the given outcome, or the one derived from the
  status and the error code, and loses its lease and its approval artifacts; and no other run
  changes.
\<close>

theorem transition_exact:
  assumes "run_ids_ok db" and "row_by_id ar_id i (agent_runs db) = Some run"
  shows "case transition_run_status env now i target code msg outcome evidence db of
      Inl e \<Rightarrow> ar_status run \<noteq> target \<and>
        (\<not> can_transition (ar_status run) target \<or>
         \<not> is_terminal target \<and> (outcome \<noteq> None \<or> evidence \<noteq> None) \<or>
         is_terminal target \<and> json_bytes (JObj (case evidence of Some d \<Rightarrow> d | None \<Rightarrow> failure_completion_json code))
           > MAX_COMPLETION_JSON_BYTES)
    | Inr (run', db') \<Rightarrow>
        (if ar_status run = target then run' = run \<and> db' = db
         else can_transition (ar_status run) target \<and> ar_status run' = target \<and>
           row_by_id ar_id i (agent_runs db') = Some run' \<and>
           (\<forall>k. k \<noteq> i \<longrightarrow> row_by_id ar_id k (agent_runs db') = row_by_id ar_id k (agent_runs db)) \<and>
           (is_terminal target \<longrightarrow>
              ar_outcome run' = (case outcome of Some v \<Rightarrow> Some v | None \<Rightarrow>
                Some (if target = RunCompleted then OutcomeSuccess
                      else if target = RunCancelled then OutcomeCancelled
                      else if code = Some ''usage_limit_exceeded'' then OutcomeBudgetExhausted
                      else if code \<in> Some ` BLOCKED_ERROR_CODES then OutcomeBlocked
                      else OutcomeError)) \<and>
              ar_lease_expires_at run' = None \<and>
              (\<forall>key \<in> suspended_keys. dict_get (or_empty (ar_metadata_json run')) key = None)))"
proof (cases "transition_run_status env now i target code msg outcome evidence db")
  case (Inl e)
  have "\<exists>v. resolve_outcome target code outcome = Inr v"
    by (auto simp: resolve_outcome_def terminal_run_outcome_def terminal_iff split: option.splits)
  with Inl assms(2) show ?thesis
    by (auto simp: transition_run_status_def Let_def resolve_completion_def validate_completion_json_def
        bind_result_def split: if_splits option.splits sum.splits)
next
  case (Inr x)
  obtain run' db' where x: "x = (run', db')" by fastforce
  note tr = Inr [unfolded x]
  show ?thesis
  proof (cases "ar_status run = target")
    case True
    with Inr assms(2) show ?thesis by (auto simp: transition_run_status_def)
  next
    case False
    from tr obtain v w where can: "can_transition (ar_status run) target"
      and v: "resolve_outcome target code outcome = Inr v"
      and r': "run' = stamp_transition now target code msg v w run"
      using False assms(2) by (cases rule: transition_cases) auto
    have "v = (case outcome of Some v \<Rightarrow> Some v | None \<Rightarrow>
        Some (if target = RunCompleted then OutcomeSuccess
              else if target = RunCancelled then OutcomeCancelled
              else if code = Some ''usage_limit_exceeded'' then OutcomeBudgetExhausted
              else if code \<in> Some ` BLOCKED_ERROR_CODES then OutcomeBlocked
              else OutcomeError))" if "is_terminal target"
      using v that by (auto simp: resolve_outcome_def terminal_run_outcome_def terminal_iff
          split: option.splits if_splits)
    moreover have "ar_outcome run' = v \<and> ar_lease_expires_at run' = None \<and>
        (\<forall>key \<in> suspended_keys. dict_get (or_empty (ar_metadata_json run')) key = None)"
      if "is_terminal target"
      using that cleared_metadata by (auto simp: r' stamp_transition_def Let_def terminal_iff)
    ultimately show ?thesis
      using False tr x Inr can transition_row [OF assms(1) tr] transition_status [OF assms(1) tr]
        transition_others [OF assms(1) tr] by simp
  qed
qed

theorem transition_exact_witness:
  "case transition_run_status sample_env 60 11 RunFailed (Some ''usage_limit_exceeded'') None None None sample_db of
     Inl e \<Rightarrow> False | Inr (r, db') \<Rightarrow> ar_outcome r = Some OutcomeBudgetExhausted"
proof -
  have ok: "\<exists>r db'. transition_run_status sample_env 60 11 RunFailed (Some ''usage_limit_exceeded'') None None None
      sample_db = Inr (r, db')"
    by (simp add: transition_run_status_def sample_row_11 sample_run_def can_transition_def Let_def
        resolve_outcome_def terminal_run_outcome_def resolve_completion_def validate_completion_json_def
        failure_completion_json_def or_string_def json_string_bytes_def json_char_bytes_def
        MAX_COMPLETION_JSON_BYTES_def terminal_iff)
  have "run_ids_ok sample_db" by (rule run_invD(1) [OF sample_db_inv])
  from transition_exact [OF this sample_row_11, where env = sample_env and now = 60 and target = RunFailed
      and code = "Some ''usage_limit_exceeded''" and msg = None and outcome = None and evidence = None] ok show ?thesis
    by (auto simp: sample_run_def terminal_iff)
qed

section \<open>Along every run of the system\<close>

text \<open>
  C6: the first terminal verdict wins: once a run is terminal, its status, outcome, completion evidence,
  error and finish times never change again, whatever operations follow in whatever order.
\<close>

theorem terminal_verdict_permanent:
  assumes "run_inv db" and "row_by_id ar_id i (agent_runs db) = Some r" and "is_terminal (ar_status r)"
  shows "\<exists>r'. row_by_id ar_id i (agent_runs (foldl (run_step env) db events)) = Some r' \<and>
           verdict r' = verdict r"
  using run_events_row [OF assms(1,2)] assms(3) by (auto simp: evolves_def)

theorem terminal_verdict_permanent_witness:
  "(let db = run_step sample_env sample_db (CancelRun 20 11 None None)
    in \<exists>r r'. row_by_id ar_id 11 (agent_runs db) = Some r \<and> ar_status r = RunCancelled \<and>
         row_by_id ar_id 11 (agent_runs (foldl (run_step sample_env) db
            [FailRun 30 11 None None None None, StartWithLease 11 ''b'' 40 40 None,
             ReapRuns 9000000000 None None None None 100])) = Some r' \<and> verdict r' = verdict r)"
proof -
  let ?db = "run_step sample_env sample_db (CancelRun 20 11 None None)"
  have "\<exists>r. row_by_id ar_id 11 (agent_runs ?db) = Some r \<and> ar_status r = RunCancelled"
    by (simp add: cancel_agent_run_def transition_run_status_def sample_row_11 sample_run_def
        can_transition_def Let_def resolve_outcome_def terminal_run_outcome_def resolve_completion_def
        validate_completion_json_def terminal_iff committed_def row_by_id_write_row stamp_transition_def)
       (simp add: sample_db_def sample_run_def)
  then obtain r where r: "row_by_id ar_id 11 (agent_runs ?db) = Some r" "ar_status r = RunCancelled" by blast
  have "run_inv ?db" by (rule run_system.step_inv [OF sample_db_inv])
  from terminal_verdict_permanent [OF this r(1), of sample_env "[FailRun 30 11 None None None None,
      StartWithLease 11 ''b'' 40 40 None, ReapRuns 9000000000 None None None None 100]"] r
  show ?thesis unfolding Let_def by (auto simp: terminal_iff)
qed



section \<open>Ownership\<close>

text \<open>
  C8: an invocation that does not hold a run can neither renew its lease, nor settle its family in its own
  name, nor create a child under it: not now, and not after any events in which it claims nothing.
\<close>

theorem stale_invocation_harmless:
  assumes "run_inv db" and "run_holder db i \<noteq> Some owner" and "\<forall>e \<in> set events. \<not> run_grants e owner"
    and "run_acts late owner i"
  shows "run_step env (foldl (run_step env) db events) late = foldl (run_step env) db events"
  by (rule run_fencing.stale_owner_harmless [OF assms])

theorem stale_invocation_harmless_witness:
  "(let db = foldl (run_step sample_env) sample_db [AwaitRun 20 11, StartWithLease 11 ''b'' 30 30 None]
    in run_step sample_env db (RenewRun 11 ''c'' 7 5 40 None) = db)"
  unfolding Let_def
  by (rule stale_invocation_harmless [OF sample_db_inv, of 11 "''c''"])
     (simp_all add: run_holder_def sample_row_11, simp_all add: sample_run_def)



section \<open>Families\<close>

text \<open>
  C10: settling a family reaches exactly the target and its children: every one of them that was open takes
  the settling status, every terminal verdict and every other run is untouched, and the returned runs
  are the ones that changed. Because families are flat, no descendant is left open.
\<close>

theorem settle_reaches_family:
  assumes "run_inv db" and "r \<in> set (agent_runs db)"
    and "settle_run_family env now (ar_id r) status code msg None db = Inr (changed, db')"
  shows "(\<forall>s \<in> set (agent_runs db). affected (ar_id r) s \<and> \<not> is_terminal (ar_status s) \<longrightarrow>
            (\<exists>s'. row_by_id ar_id (ar_id s) (agent_runs db') = Some s' \<and> ar_status s' = status)) \<and>
         (\<forall>s \<in> set (agent_runs db). \<not> affected (ar_id r) s \<or> is_terminal (ar_status s) \<longrightarrow>
            row_by_id ar_id (ar_id s) (agent_runs db') = Some s) \<and>
         ar_id ` set changed =
           ar_id ` {s \<in> set (agent_runs db). affected (ar_id r) s \<and> \<not> is_terminal (ar_status s)} \<and>
         (\<forall>s \<in> set (agent_runs db). \<forall>t \<in> set (agent_runs db).
            ar_parent_run_id s = Some (ar_id r) \<longrightarrow> ar_parent_run_id t \<noteq> Some (ar_id s))"
proof -
  note eff = settle_run_family_effect [OF assms(1,2) refl disjI1 [OF refl] assms(3)]
  have "ar_parent_run_id t \<noteq> Some (ar_id s)"
    if s: "s \<in> set (agent_runs db)" "t \<in> set (agent_runs db)" "ar_parent_run_id s = Some (ar_id r)" for s t
  proof
    assume "ar_parent_run_id t = Some (ar_id s)"
    with run_invD(5) [OF assms(1) s(2)] obtain q where
      q: "q \<in> set (agent_runs db)" "ar_id q = ar_id s" "ar_parent_run_id q = None"
      by (auto simp: parent_ok_def)
    from distinct_key_eq [OF run_invD(2) [OF assms(1)] q(1) s(1) q(2)] q(3) s(3) show False by simp
  qed
  with eff show ?thesis by (simp add: to_settle_def)
qed

lemma sample_cleanup_ready:
  "cleanup_ready sample_env (lock_run_family 11 sample_db) sample_db"
  by (simp add: cleanup_ready_def sample_env_def lock_run_family_def sample_db_def sample_run_def
      in_scope_def)

text \<open>
  Settling an open run is never refused: when the cleanup kind is registered, the fresh job
  identifiers are unused and the recorded evidence fits its byte limit, the whole family settles.
\<close>

theorem settle_succeeds:
  assumes "run_inv db" and "r \<in> set (agent_runs db)" and "settling status"
    and "cleanup_ready env (lock_run_family (ar_id r) db) db"
    and "settlement_record env (lock_run_family (ar_id r) db) r status code msg = (code', msg', evidence)"
    and "json_bytes (JObj (case evidence of Some d \<Rightarrow> d | None \<Rightarrow> failure_completion_json code'))
           \<le> MAX_COMPLETION_JSON_BYTES"
  shows "\<exists>changed db'. settle_run_family env now (ar_id r) status code msg None db = Inr (changed, db')"
proof -
  let ?F = "lock_run_family (ar_id r) db"
  note dist = run_invD(2) [OF assms(1)]
  have target: "find (\<lambda>q. ar_id q = ar_id r) ?F = Some r"
  proof (rule find_unique)
    show "r \<in> set ?F" using family_complete [OF assms(1,2,2)] by (simp add: affected_def)
    show "q = r" if "q \<in> set ?F" and "ar_id q = ar_id r" for q
      using distinct_key_eq [OF dist lock_run_family_rows [OF that(1)] assms(2) that(2)] .
  qed simp
  have rows: "\<forall>s \<in> set ?F. row_by_id ar_id (ar_id s) (agent_runs db) = Some s"
    using lock_run_family_rows row_by_id_unique [OF dist] by blast
  have fits: "\<exists>w. resolve_completion status code' evidence = Inr w"
    using assms(3,6) by (cases evidence)
      (auto simp: resolve_completion_def validate_completion_json_def settling_def terminal_iff)
  from settle_loop_total [OF run_invD(1) [OF assms(1)] assms(3) family_ids_distinct [OF assms(1,2)] rows
      assms(4) fits] target assms(3) show ?thesis
    by (auto simp: settle_run_family_def settling_def Let_def assms(5))
qed

lemma sample_settles:
  "\<exists>changed db'. settle_run_family sample_env 20 11 RunCancelled None None None sample_db = Inr (changed, db') \<and>
     ar_id ` set changed = {11, 12}"
  by (simp add: settle_run_family_def lock_run_family_def sample_db_def sample_run_def in_scope_def
      settlement_record_def Let_def terminal_iff enqueue_staged_approval_content_cleanup_def sample_env_def
      transition_run_status_def row_by_id_def can_transition_def resolve_outcome_def
      terminal_run_outcome_def resolve_completion_def validate_completion_json_def write_row_def
      stamp_transition_def insort_key.simps)

theorem settle_reaches_family_witness:
  "\<exists>changed db' s'. settle_run_family sample_env 20 11 RunCancelled None None None sample_db = Inr (changed, db') \<and>
     row_by_id ar_id 12 (agent_runs db') = Some s' \<and> ar_status s' = RunCancelled"
proof -
  have id: "ar_id (sample_run 11 None RunRunning) = 11" by (simp add: sample_run_def)
  obtain changed db' where ok: "settle_run_family sample_env 20 11 RunCancelled None None None sample_db
      = Inr (changed, db')"
    using sample_settles by blast
  have mem: "sample_run 11 None RunRunning \<in> set (agent_runs sample_db)"
      "sample_run 12 (Some 11) RunAwaitingApproval \<in> set (agent_runs sample_db)"
    by (simp_all add: sample_db_def)
  have "\<exists>s'. row_by_id ar_id 12 (agent_runs db') = Some s' \<and> ar_status s' = RunCancelled"
    using settle_reaches_family [OF sample_db_inv mem(1), unfolded id, OF ok, THEN conjunct1,
        rule_format, OF mem(2)]
    by (simp add: affected_def terminal_iff sample_run_def)
  with ok show ?thesis by blast
qed

theorem settle_succeeds_witness:
  "\<exists>changed db'. settle_run_family sample_env 20 11 RunFailed (Some ''run_abandoned'') None None sample_db
     = Inr (changed, db')"
proof -
  have mem: "sample_run 11 None RunRunning \<in> set (agent_runs sample_db)" by (simp add: sample_db_def)
  have id: "ar_id (sample_run 11 None RunRunning) = 11" by (simp add: sample_run_def)
  have rec: "settlement_record sample_env (lock_run_family 11 sample_db) (sample_run 11 None RunRunning) RunFailed
      (Some ''run_abandoned'') None = (Some ''run_abandoned'', None, None)"
    by (simp add: settlement_record_def lock_run_family_def sample_db_def sample_run_def in_scope_def
        RECOVERY_ERROR_CODE_def Let_def)
  show ?thesis
    using settle_succeeds [OF sample_db_inv mem, unfolded id, of RunFailed sample_env "Some ''run_abandoned''"
        None "Some ''run_abandoned''" None None 20] rec sample_cleanup_ready
    by (simp add: settling_def failure_completion_json_def or_string_def json_string_bytes_def
        json_char_bytes_def MAX_COMPLETION_JSON_BYTES_def)
qed

section \<open>Reaping\<close>




section \<open>Creation and cancellation\<close>

text \<open>
  What creation guarantees. The new run is pending and unowned; its conversation and agent exist, are
  not deleted and belong to the same workspace, the conversation to the same user; its conversation had no
  other active run; and a delegated run has an open root parent of the same tenant, whose lease the
  caller holds when it names itself as the parent's owner. The other rows are unchanged.
\<close>

theorem create_agent_run_guarantees:
  assumes "run_inv db" and "create_agent_run now fresh q db = Inr (r, db')"
  shows "agent_runs db' = agent_runs db @ [r] \<and> ar_status r = RunPending \<and> ar_owner_instance_id r = None \<and>
    (\<exists>c \<in> set (conversations db). cv_id c = ar_conversation_id r \<and> \<not> cv_deleted c \<and>
       cv_workspace_id c = ar_workspace_id r \<and> cv_user_id c = ar_user_id r) \<and>
    (\<exists>a \<in> set (agents db). ag_id a = ar_agent_id r \<and> \<not> ag_deleted a \<and> ag_workspace_id a = ar_workspace_id r) \<and>
    (\<forall>s \<in> set (agent_runs db). active_run s \<longrightarrow> ar_conversation_id s \<noteq> ar_conversation_id r) \<and>
    (\<forall>p. ar_parent_run_id r = Some p \<longrightarrow>
       (\<exists>s \<in> set (agent_runs db). ar_id s = p \<and> ar_parent_run_id s = None \<and>
          ar_status s \<in> {RunPending, RunRunning} \<and> ar_workspace_id s = ar_workspace_id r \<and>
          ar_user_id s = ar_user_id r \<and>
          (\<forall>owner. rq_parent_owner q = Some owner \<longrightarrow>
             ar_owner_instance_id s = Some owner \<and> null_gt (ar_lease_expires_at s) now)))"
proof -
  note c = create_cases [OF assms(2)]
  have ctx: "\<exists>c \<in> set (conversations db). cv_id c = rq_conversation_id q \<and> \<not> cv_deleted c \<and>
       cv_workspace_id c = rq_workspace_id q \<and> cv_user_id c = rq_user_id q"
    and ctx2: "\<exists>a \<in> set (agents db). ag_id a = rq_agent_id q \<and> \<not> ag_deleted a \<and> ag_workspace_id a = rq_workspace_id q"
    using c by (auto simp: validate_run_context_def split: option.splits if_splits dest!: find_SomeD sym [THEN find_SomeD])
  have par: "\<exists>s \<in> set (agent_runs db). ar_id s = p \<and> ar_parent_run_id s = None \<and>
          ar_status s \<in> {RunPending, RunRunning} \<and> ar_workspace_id s = rq_workspace_id q \<and>
          ar_user_id s = rq_user_id q \<and>
          (\<forall>owner. rq_parent_owner q = Some owner \<longrightarrow>
             ar_owner_instance_id s = Some owner \<and> null_gt (ar_lease_expires_at s) now)"
    if p: "rq_parent_run_id q = Some p" for p
  proof -
    from c p have "check_parent_run p (rq_parent_owner q) (rq_workspace_id q) (rq_user_id q) now db = Inr ()"
      by blast
    from check_parent_ok [OF assms(1) this] obtain s where s: "s \<in> set (agent_runs db)" "ar_id s = p"
      "ar_parent_run_id s = None" "ar_workspace_id s = rq_workspace_id q" "ar_user_id s = rq_user_id q"
      "ar_status s \<in> {RunPending, RunRunning}"
      "\<forall>owner. rq_parent_owner q = Some owner \<longrightarrow> require_execution_owner s owner now = Inr ()"
      by blast
    have "ar_owner_instance_id s = Some owner \<and> null_gt (ar_lease_expires_at s) now"
      if "rq_parent_owner q = Some owner" for owner
      using s(7) that by (cases "ar_lease_expires_at s") (auto simp: require_execution_owner_def split: if_splits)
    with s show ?thesis by blast
  qed
  from c have r: "r = new_run fresh now q" by simp
  have "ar_agent_id r = rq_agent_id q" by (simp add: r new_run_def)
  with c ctx ctx2 par show ?thesis by (simp add: r)
qed

definition sample_run_request :: run_request where
  "sample_run_request = \<lparr>rq_conversation_id = 110, rq_agent_id = 3, rq_workspace_id = 7, rq_user_id = 5,
     rq_trigger = Delegated, rq_model_name = None, rq_metadata = None, rq_parent_run_id = Some 11,
     rq_parent_owner = Some ''a'', rq_delegation_depth = 1\<rparr>"

theorem create_agent_run_guarantees_witness:
  "\<exists>r db'. create_agent_run 20 14 sample_run_request sample_db = Inr (r, db') \<and> ar_status r = RunPending"
proof -
  have "\<exists>r db'. create_agent_run 20 14 sample_run_request sample_db = Inr (r, db')"
    by (simp add: create_agent_run_def sample_run_request_def metadata_uses_def validate_run_context_def
        sample_db_def check_parent_run_def lock_run_family_def sample_run_def in_scope_def
        require_execution_owner_def Let_def)
  then obtain r db' where ok: "create_agent_run 20 14 sample_run_request sample_db = Inr (r, db')" by blast
  from create_agent_run_guarantees [OF sample_db_inv ok] ok show ?thesis by blast
qed

text \<open>
  A cancellation is accepted only from the run's user or a workspace manager, only for an open run
  of the workspace; it then leaves the run and all its children terminal.
\<close>

theorem cancellation_authorised_and_total:
  assumes "run_inv db"
    and "request_agent_run_cancellation env now actor manager workspace i db = Inr (children, db')"
  shows "\<exists>r \<in> set (agent_runs db). ar_id r = i \<and> ar_workspace_id r = workspace \<and>
    (ar_user_id r = actor \<or> manager) \<and> \<not> is_terminal (ar_status r) \<and>
    (\<forall>s \<in> set (agent_runs db). affected i s \<longrightarrow>
       (\<exists>s'. row_by_id ar_id (ar_id s) (agent_runs db') = Some s' \<and> is_terminal (ar_status s'))) \<and>
    set children = {ar_id s | s. s \<in> set (agent_runs db) \<and> ar_parent_run_id s = Some i \<and>
       \<not> is_terminal (ar_status s) \<and> ar_id s \<noteq> i}"
proof -
  obtain r where found: "find (\<lambda>r. ar_id r = i \<and> ar_workspace_id r = workspace \<and> \<not> ar_deleted r) (agent_runs db) = Some r"
    using assms(2) by (auto simp: request_agent_run_cancellation_def split: option.splits)
  note r = find_SomeD [OF found]
  from assms(2) found obtain changed where ok: "ar_user_id r = actor \<or> manager" "\<not> is_terminal (ar_status r)"
    and settle: "settle_run_family env now i RunCancelled None None None db = Inr (changed, db')"
    and ch: "children = filter (\<lambda>c. c \<noteq> i) (map ar_id changed)"
    by (auto simp: request_agent_run_cancellation_def bind_result_Inr split: if_splits)
  have rin: "r \<in> set (agent_runs db)" and id: "ar_id r = i" using r by auto
  note eff = settle_run_family_effect [OF assms(1) rin id disjI1 [OF refl] settle]
  have "\<exists>s'. row_by_id ar_id (ar_id s) (agent_runs db') = Some s' \<and> is_terminal (ar_status s')"
    if "s \<in> set (agent_runs db)" "affected i s" for s
    using eff that by (cases "is_terminal (ar_status s)") (force simp: to_settle_def terminal_iff)+
  moreover have "set children = {ar_id s | s. s \<in> set (agent_runs db) \<and> ar_parent_run_id s = Some i \<and>
       \<not> is_terminal (ar_status s) \<and> ar_id s \<noteq> i}"
  proof -
    have "set children = ar_id ` {s \<in> set (agent_runs db). to_settle i s} - {i}"
      using eff unfolding ch set_filter by auto
    also have "\<dots> = {ar_id s | s. s \<in> set (agent_runs db) \<and> ar_parent_run_id s = Some i \<and>
       \<not> is_terminal (ar_status s) \<and> ar_id s \<noteq> i}"
      by (auto simp: to_settle_def affected_def)
    finally show ?thesis .
  qed
  ultimately show ?thesis using rin id r ok by blast
qed

theorem cancellation_authorised_and_total_witness:
  "\<exists>children db'. request_agent_run_cancellation sample_env 20 5 False 7 11 sample_db = Inr (children, db') \<and>
     (\<exists>s'. row_by_id ar_id 12 (agent_runs db') = Some s' \<and> is_terminal (ar_status s'))"
proof -
  have "find (\<lambda>r. ar_id r = 11 \<and> ar_workspace_id r = 7 \<and> \<not> ar_deleted r) (agent_runs sample_db)
      = Some (sample_run 11 None RunRunning)"
    by (simp add: sample_db_def sample_run_def)
  then have "\<exists>children db'. request_agent_run_cancellation sample_env 20 5 False 7 11 sample_db = Inr (children, db')"
    using sample_settles by (auto simp: request_agent_run_cancellation_def sample_run_def terminal_iff)
  then obtain children db' where ok: "request_agent_run_cancellation sample_env 20 5 False 7 11 sample_db
      = Inr (children, db')" by blast
  have mem: "sample_run 12 (Some 11) RunAwaitingApproval \<in> set (agent_runs sample_db)"
    by (simp add: sample_db_def)
  have "affected 11 (sample_run 12 (Some 11) RunAwaitingApproval)" by (simp add: affected_def sample_run_def)
  with cancellation_authorised_and_total [OF sample_db_inv ok] mem
  have "\<exists>s'. row_by_id ar_id (ar_id (sample_run 12 (Some 11) RunAwaitingApproval)) (agent_runs db') = Some s' \<and>
      is_terminal (ar_status s')" by blast
  with ok show ?thesis by (simp add: sample_run_def)
qed

end
