(* ===== verification/Workspaces.thy ===== *)
theory Workspaces
  imports Prelude
begin

text \<open>
  Workspace membership and invitations (\<^verbatim>\<open>services/workspaces\<close>, \<^verbatim>\<open>models/workspace.py\<close>), with the
  super-admin deletion of a user (\<^verbatim>\<open>services/users/delete_user.py\<close>), which writes the same table.

  Every operation runs in one transaction whose rows are locked, so an operation is a function on the
  tables. Audit and security rows, and the calls into other components that a new workspace makes, are
  appended to \<open>ws_log\<close>. An operation that raises leaves the tables
  as they were, except that a refused acceptance commits its own security event.
\<close>

section \<open>Rows\<close>

datatype workspace_role = Owner | Admin | Member | ReadOnly

definition MANAGER_ROLES :: "workspace_role set" where
  "MANAGER_ROLES = {Owner, Admin}"

definition EDITOR_ROLES :: "workspace_role set" where
  "EDITOR_ROLES = {Owner, Admin, Member}"

definition READ_ROLES :: "workspace_role set" where
  "READ_ROLES = {Owner, Admin, Member, ReadOnly}"

record workspace =
  ws_id :: uuid
  ws_slug :: string
  ws_name :: string
  ws_is_personal :: bool
  ws_shared_by_default :: bool
  ws_model_provider :: "string option"
  ws_model :: "string option"
  ws_deleted :: bool

record membership =
  mb_id :: uuid
  mb_workspace_id :: uuid
  mb_user_id :: uuid
  mb_role :: workspace_role
  mb_created_at :: timestamp
  mb_deleted :: bool

record invitation =
  iv_id :: uuid
  iv_workspace_id :: uuid
  iv_email :: string
  iv_role :: workspace_role
  iv_invited_by :: uuid
  iv_token_hash :: string
  iv_expires_at :: timestamp
  iv_accepted_at :: "timestamp option"
  iv_created_at :: timestamp
  iv_deleted :: bool

record user =
  us_id :: uuid
  us_email :: string
  us_is_active :: bool
  us_default_workspace_id :: "uuid option"
  us_deleted :: bool

record user_auth =
  ua_user_id :: uuid
  ua_email :: string
  ua_email_verified :: bool
  ua_deleted :: bool

datatype ws_entry =
    AuditEntry uuid string string uuid uuid
  | SecurityEntry string "uuid option" uuid
  | BuiltinAgentCreated uuid uuid
  | BucketProvisioningEnqueued uuid uuid

record ws_db =
  workspaces :: "workspace list"
  memberships :: "membership list"
  invitations :: "invitation list"
  users :: "user list"
  user_auths :: "user_auth list"
  ws_log :: "ws_entry list"

section \<open>Shared checks (utils.py)\<close>

definition user_is_active :: "ws_db \<Rightarrow> uuid \<Rightarrow> bool" where
  "user_is_active db u \<longleftrightarrow> list_ex (\<lambda>x. us_id x = u \<and> \<not> us_deleted x \<and> us_is_active x) (users db)"

definition get_workspace_or_raise :: "ws_db \<Rightarrow> uuid \<Rightarrow> bool \<Rightarrow> app_error + workspace" where
  "get_workspace_or_raise db w include_deleted =
     (case find (\<lambda>x. ws_id x = w \<and> (include_deleted \<or> \<not> ws_deleted x)) (workspaces db) of
        None \<Rightarrow> Inl (NotFoundError ''Workspace not found'') | Some x \<Rightarrow> Inr x)"

definition get_active_membership :: "ws_db \<Rightarrow> uuid \<Rightarrow> uuid \<Rightarrow> membership option" where
  "get_active_membership db w u =
     find (\<lambda>m. mb_workspace_id m = w \<and> mb_user_id m = u \<and> \<not> mb_deleted m \<and> user_is_active db (mb_user_id m))
       (memberships db)"

definition require_workspace_role ::
    "ws_db \<Rightarrow> uuid \<Rightarrow> uuid \<Rightarrow> workspace_role set \<Rightarrow> app_error + workspace \<times> membership" where
  "require_workspace_role db actor w allowed =
     (case get_active_membership db w actor of
        None \<Rightarrow> Inl (AuthorizationError ''Workspace not found or access denied'')
      | Some m \<Rightarrow>
          (case row_by_id ws_id (mb_workspace_id m) (workspaces db) of
             None \<Rightarrow> Inl (AuthorizationError ''Workspace not found or access denied'')
           | Some x \<Rightarrow>
               if ws_deleted x then Inl (AuthorizationError ''Workspace not found or access denied'')
               else if mb_role m \<notin> allowed then Inl (AuthorizationError ''Requires higher level role'')
               else Inr (x, m)))"

definition get_user_or_raise :: "ws_db \<Rightarrow> uuid \<Rightarrow> app_error + user" where
  "get_user_or_raise db u =
     (case find (\<lambda>x. us_id x = u \<and> \<not> us_deleted x \<and> us_is_active x) (users db) of
        None \<Rightarrow> Inl (NotFoundError ''User not found'') | Some x \<Rightarrow> Inr x)"

definition active_owner :: "ws_db \<Rightarrow> uuid \<Rightarrow> membership \<Rightarrow> bool" where
  "active_owner db w m \<longleftrightarrow>
     mb_workspace_id m = w \<and> mb_role m = Owner \<and> \<not> mb_deleted m \<and> user_is_active db (mb_user_id m)"

definition ensure_not_last_owner :: "ws_db \<Rightarrow> membership \<Rightarrow> app_error + unit" where
  "ensure_not_last_owner db m =
     (if mb_role m \<noteq> Owner then Inr ()
      else if rowcount (\<lambda>x. active_owner db (mb_workspace_id m) x \<and> mb_id x \<noteq> mb_id m) (memberships db) = 0
      then Inl (AppValidationError ''A workspace must keep at least one active owner'')
      else Inr ())"

definition ensure_team_workspace :: "workspace \<Rightarrow> app_error + unit" where
  "ensure_team_workspace w =
     (if ws_is_personal w then Inl (AppValidationError ''Personal workspaces cannot be shared'') else Inr ())"

section \<open>Memberships\<close>

definition get_membership_or_raise :: "ws_db \<Rightarrow> uuid \<Rightarrow> uuid \<Rightarrow> bool \<Rightarrow> app_error + membership" where
  "get_membership_or_raise db w i include_deleted =
     (case find (\<lambda>m. mb_id m = i \<and> mb_workspace_id m = w \<and> (include_deleted \<or> \<not> mb_deleted m)) (memberships db) of
        None \<Rightarrow> Inl (NotFoundError ''Workspace membership not found'') | Some m \<Rightarrow> Inr m)"

definition create_membership ::
    "timestamp \<Rightarrow> uuid \<Rightarrow> uuid \<Rightarrow> uuid \<Rightarrow> uuid \<Rightarrow> workspace_role \<Rightarrow> ws_db \<Rightarrow> app_error + membership \<times> ws_db" where
  "create_membership now fresh actor w user_id role db =
     bind_result (require_workspace_role db actor w MANAGER_ROLES) (\<lambda>(x, _).
     bind_result (ensure_team_workspace x) (\<lambda>_.
     bind_result (get_user_or_raise db user_id) (\<lambda>u.
       (let pending = (\<lambda>v. iv_workspace_id v = w \<and> citext_eq (iv_email v) (us_email u) \<and>
                           iv_accepted_at v = None \<and> \<not> iv_deleted v);
            existing = find (\<lambda>m. mb_workspace_id m = w \<and> mb_user_id m = us_id u) (memberships db)
        in if (case existing of None \<Rightarrow> False | Some m \<Rightarrow> \<not> mb_deleted m)
           then Inl (ConflictError ''User is already a member of this workspace'')
           else
             bind_result
               (case existing of
                  Some m \<Rightarrow>
                    (let m' = m\<lparr>mb_deleted := False, mb_role := role\<rparr>
                     in Inr (m', write_row mb_id m' (memberships db)))
                | None \<Rightarrow>
                    (let m' = \<lparr>mb_id = fresh, mb_workspace_id = w, mb_user_id = us_id u, mb_role = role,
                               mb_created_at = now, mb_deleted = False\<rparr>
                     in if fresh \<in> mb_id ` set (memberships db)
                        then Inl (ConflictError ''User is already a member of this workspace'')
                        else Inr (m', memberships db @ [m'])))
               (\<lambda>(m, T). Inr (m, db\<lparr>memberships := T,
                  invitations := update_where pending (\<lambda>v. v\<lparr>iv_deleted := True\<rparr>) (invitations db),
                  ws_log := ws_log db @
                    [AuditEntry w ''create'' ''workspace_membership'' (mb_id m) actor,
                     SecurityEntry ''workspace_membership_created'' (Some w) actor]\<rparr>))))))"

definition update_membership ::
    "uuid \<Rightarrow> uuid \<Rightarrow> uuid \<Rightarrow> workspace_role \<Rightarrow> ws_db \<Rightarrow> app_error + membership \<times> ws_db" where
  "update_membership actor w i role db =
     bind_result (require_workspace_role db actor w MANAGER_ROLES) (\<lambda>(x, _).
     bind_result (ensure_team_workspace x) (\<lambda>_.
     bind_result (get_membership_or_raise db w i False) (\<lambda>m.
       if role = mb_role m then Inr (m, db)
       else bind_result (ensure_not_last_owner db m) (\<lambda>_.
         (let m' = m\<lparr>mb_role := role\<rparr>
          in Inr (m', db\<lparr>memberships := write_row mb_id m' (memberships db),
               ws_log := ws_log db @
                 [AuditEntry w ''update'' ''workspace_membership'' (mb_id m) actor,
                  SecurityEntry ''workspace_membership_updated'' (Some w) actor]\<rparr>))))))"

definition delete_membership ::
    "(uuid \<Rightarrow> bool) \<Rightarrow> uuid \<Rightarrow> uuid \<Rightarrow> uuid \<Rightarrow> ws_db \<Rightarrow> app_error + ws_db" where
  "delete_membership is_super_admin actor w i db =
     bind_result (require_workspace_role db actor w READ_ROLES) (\<lambda>(x, actor_membership).
     bind_result (ensure_team_workspace x) (\<lambda>_.
     bind_result (get_membership_or_raise db w i False) (\<lambda>m.
       if mb_user_id m \<noteq> actor \<and> mb_role actor_membership \<notin> MANAGER_ROLES \<and> \<not> is_super_admin actor
       then Inl (AuthorizationError ''Requires higher level role'')
       else bind_result (ensure_not_last_owner db m) (\<lambda>_.
         Inr (db\<lparr>memberships := write_row mb_id (m\<lparr>mb_deleted := True\<rparr>) (memberships db),
               users := update_where (\<lambda>u. us_id u = mb_user_id m \<and> us_default_workspace_id u = Some w)
                 (\<lambda>u. u\<lparr>us_default_workspace_id := None\<rparr>) (users db),
               ws_log := ws_log db @
                 [AuditEntry w ''delete'' ''workspace_membership'' (mb_id m) actor,
                  SecurityEntry ''workspace_membership_deleted'' (Some w) actor]\<rparr>)))))"

definition get_membership :: "uuid \<Rightarrow> uuid \<Rightarrow> uuid \<Rightarrow> ws_db \<Rightarrow> app_error + membership" where
  "get_membership actor w i db =
     bind_result (require_workspace_role db actor w READ_ROLES) (\<lambda>_. get_membership_or_raise db w i False)"

definition list_memberships ::
    "uuid \<Rightarrow> uuid \<Rightarrow> nat \<Rightarrow> nat \<Rightarrow> ws_db \<Rightarrow> app_error + membership list \<times> nat" where
  "list_memberships actor w limit offset db =
     bind_result (require_workspace_role db actor w READ_ROLES) (\<lambda>_.
       (let rows = filter (\<lambda>m. mb_workspace_id m = w \<and> \<not> mb_deleted m) (memberships db)
        in Inr (take limit (drop offset (sort_key mb_created_at rows)), length rows)))"

text \<open>Choosing the default workspace of a user (get_default_workspace.py).\<close>

definition select_default_workspace_membership ::
    "(uuid \<Rightarrow> bool) \<Rightarrow> membership list \<Rightarrow> uuid option \<Rightarrow> membership option" where
  "select_default_workspace_membership is_personal ms default_workspace_id =
     (if ms = [] then None
      else
        (let configured = (case default_workspace_id of
               None \<Rightarrow> None | Some w \<Rightarrow> find (\<lambda>m. mb_workspace_id m = w) ms)
         in case configured of
              Some m \<Rightarrow> Some m
            | None \<Rightarrow>
                (case find (\<lambda>m. is_personal (mb_workspace_id m)) ms of
                   Some m \<Rightarrow> Some m
                 | None \<Rightarrow> Some (hd ms))))"

definition get_default_workspace_membership_for_user :: "ws_db \<Rightarrow> user \<Rightarrow> membership option" where
  "get_default_workspace_membership_for_user db u =
     (let live = (\<lambda>w. \<exists>x \<in> set (workspaces db). ws_id x = w \<and> \<not> ws_deleted x);
          personal = (\<lambda>w. \<exists>x \<in> set (workspaces db). ws_id x = w \<and> ws_is_personal x);
          ms = filter (\<lambda>m. mb_user_id m = us_id u \<and> \<not> mb_deleted m \<and> live (mb_workspace_id m)) (memberships db)
      in select_default_workspace_membership personal (sort_key mb_created_at ms) (us_default_workspace_id u))"

definition require_default_workspace_membership_for_user :: "ws_db \<Rightarrow> user \<Rightarrow> app_error + membership" where
  "require_default_workspace_membership_for_user db u =
     (case get_default_workspace_membership_for_user db u of
        Some m \<Rightarrow> Inr m
      | None \<Rightarrow> Inl (AppValidationError ''No active workspace. Please select or create a workspace.''))"

section \<open>Deleting a workspace or a user\<close>

definition delete_workspace :: "uuid \<Rightarrow> uuid \<Rightarrow> ws_db \<Rightarrow> app_error + ws_db" where
  "delete_workspace actor w db =
     bind_result (require_workspace_role db actor w MANAGER_ROLES) (\<lambda>(x, _).
       if ws_is_personal x then Inl (AppValidationError ''Personal workspaces cannot be deleted'')
       else bind_result (get_workspace_or_raise db w False) (\<lambda>x.
         Inr (db\<lparr>workspaces := write_row ws_id (x\<lparr>ws_deleted := True\<rparr>) (workspaces db),
               memberships := update_where (\<lambda>m. mb_workspace_id m = w \<and> \<not> mb_deleted m)
                 (\<lambda>m. m\<lparr>mb_deleted := True\<rparr>) (memberships db),
               invitations := update_where (\<lambda>v. iv_workspace_id v = w \<and> \<not> iv_deleted v)
                 (\<lambda>v. v\<lparr>iv_deleted := True\<rparr>) (invitations db),
               users := update_where (\<lambda>u. us_default_workspace_id u = Some w)
                 (\<lambda>u. u\<lparr>us_default_workspace_id := None\<rparr>) (users db),
               ws_log := ws_log db @ [AuditEntry w ''delete'' ''workspace'' w actor]\<rparr>)))"

text \<open>
  The tables of this component that the deletion of a user writes; sessions and schedules belong to
  others, and its audit row has no workspace.
\<close>

definition delete_user :: "uuid \<Rightarrow> uuid \<Rightarrow> ws_db \<Rightarrow> app_error + ws_db" where
  "delete_user actor u db =
     (if actor = u then Inl (AppValidationError ''You cannot delete your own user account'')
      else case find (\<lambda>x. us_id x = u \<and> \<not> us_deleted x) (users db) of
             None \<Rightarrow> Inl (NotFoundError ''User not found'')
           | Some x \<Rightarrow>
               Inr (db\<lparr>users := write_row us_id (x\<lparr>us_is_active := False, us_deleted := True\<rparr>) (users db),
                 memberships := update_where (\<lambda>m. mb_user_id m = u \<and> \<not> mb_deleted m)
                   (\<lambda>m. m\<lparr>mb_deleted := True\<rparr>) (memberships db),
                 user_auths := update_where (\<lambda>a. ua_user_id a = u \<and> \<not> ua_deleted a)
                   (\<lambda>a. a\<lparr>ua_deleted := True\<rparr>) (user_auths db)\<rparr>))"

section \<open>Invitations\<close>

definition get_invitation_or_raise :: "ws_db \<Rightarrow> uuid \<Rightarrow> uuid \<Rightarrow> bool \<Rightarrow> app_error + invitation" where
  "get_invitation_or_raise db w i include_deleted =
     (case find (\<lambda>v. iv_id v = i \<and> iv_workspace_id v = w \<and> (include_deleted \<or> \<not> iv_deleted v)) (invitations db) of
        None \<Rightarrow> Inl (NotFoundError ''Workspace invitation not found'') | Some v \<Rightarrow> Inr v)"

definition ensure_invitation_is_pending :: "invitation \<Rightarrow> app_error + unit" where
  "ensure_invitation_is_pending v =
     (if iv_accepted_at v \<noteq> None then Inl (AppValidationError ''Accepted invitations cannot be changed'')
      else if iv_deleted v then Inl (AppValidationError ''Deleted invitations cannot be changed'')
      else Inr ())"

definition delete_invitation :: "uuid \<Rightarrow> uuid \<Rightarrow> uuid \<Rightarrow> ws_db \<Rightarrow> app_error + ws_db" where
  "delete_invitation actor w i db =
     bind_result (require_workspace_role db actor w MANAGER_ROLES) (\<lambda>(x, _).
     bind_result (ensure_team_workspace x) (\<lambda>_.
     bind_result (get_invitation_or_raise db w i False) (\<lambda>v.
       Inr (db\<lparr>invitations := write_row iv_id (v\<lparr>iv_deleted := True\<rparr>) (invitations db),
             ws_log := ws_log db @
               [AuditEntry w ''delete'' ''invitation'' i actor,
                SecurityEntry ''workspace_invitation_deleted'' (Some w) actor]\<rparr>))))"

text \<open>\<open>token_hash\<close> is the hash of the fresh random token, \<open>fresh\<close> the new row's identifier.\<close>

definition create_invitation ::
    "timestamp \<Rightarrow> uuid \<Rightarrow> string \<Rightarrow> uuid \<Rightarrow> uuid \<Rightarrow> string \<Rightarrow> workspace_role \<Rightarrow> int \<Rightarrow> ws_db \<Rightarrow>
     app_error + invitation \<times> ws_db" where
  "create_invitation now fresh token_hash actor w email role expires_in_days db =
     bind_result (require_workspace_role db actor w MANAGER_ROLES) (\<lambda>(x, _).
     bind_result (ensure_team_workspace x) (\<lambda>_.
     bind_result (validate_email email) (\<lambda>_.
       (let target = find (\<lambda>u. citext_eq (us_email u) email \<and> \<not> us_deleted u) (users db);
            member = (case target of None \<Rightarrow> False | Some u \<Rightarrow>
               list_ex (\<lambda>m. mb_workspace_id m = w \<and> mb_user_id m = us_id u \<and> \<not> mb_deleted m) (memberships db))
        in if member then Inl (ConflictError ''User is already a member of this workspace'')
           else
             bind_result
               (case find (\<lambda>v. iv_workspace_id v = w \<and> citext_eq (iv_email v) email \<and> iv_accepted_at v = None \<and>
                               \<not> iv_deleted v \<and> iv_expires_at v \<le> now) (invitations db) of
                  None \<Rightarrow> Inr db
                | Some expired \<Rightarrow> delete_invitation actor w (iv_id expired) db)
               (\<lambda>db1.
                 (let v = \<lparr>iv_id = fresh, iv_workspace_id = w, iv_email = email, iv_role = role,
                           iv_invited_by = actor, iv_token_hash = token_hash,
                           iv_expires_at = now + timedelta_days expires_in_days, iv_accepted_at = None,
                           iv_created_at = now, iv_deleted = False\<rparr>
                  in if fresh \<in> iv_id ` set (invitations db1) \<or> token_hash \<in> iv_token_hash ` set (invitations db1) \<or>
                        list_ex (\<lambda>r. iv_workspace_id r = w \<and> citext_eq (iv_email r) email \<and>
                                     iv_accepted_at r = None \<and> \<not> iv_deleted r) (invitations db1)
                     then Inl (ConflictError ''A pending invitation already exists for this email'')
                     else Inr (v, db1\<lparr>invitations := invitations db1 @ [v],
                            ws_log := ws_log db1 @
                              [AuditEntry w ''create'' ''invitation'' fresh actor,
                               SecurityEntry ''workspace_invitation_created'' (Some w) actor]\<rparr>)))))))"

text \<open>
  \<open>set_role\<close> and \<open>set_expiry\<close> say whether the field was supplied, and with which value.
\<close>

definition update_invitation ::
    "timestamp \<Rightarrow> uuid \<Rightarrow> uuid \<Rightarrow> uuid \<Rightarrow> workspace_role option option \<Rightarrow> timestamp option option \<Rightarrow> ws_db \<Rightarrow>
     app_error + invitation \<times> ws_db" where
  "update_invitation now actor w i set_role set_expiry db =
     bind_result (require_workspace_role db actor w MANAGER_ROLES) (\<lambda>(x, _).
     bind_result (ensure_team_workspace x) (\<lambda>_.
     bind_result (get_invitation_or_raise db w i False) (\<lambda>v.
     bind_result (ensure_invitation_is_pending v) (\<lambda>_.
     bind_result (case set_role of
          None \<Rightarrow> Inr v
        | Some None \<Rightarrow> Inl (AppValidationError ''role cannot be null'')
        | Some (Some r) \<Rightarrow> Inr (v\<lparr>iv_role := r\<rparr>)) (\<lambda>v1.
     bind_result (case set_expiry of
          None \<Rightarrow> Inr v1
        | Some None \<Rightarrow> Inl (AppValidationError ''expires_at cannot be null'')
        | Some (Some t) \<Rightarrow> if t \<le> now then Inl (AppValidationError ''expires_at must be in the future'')
            else Inr (v1\<lparr>iv_expires_at := t\<rparr>)) (\<lambda>v2.
       if v2 = v then Inr (v, db)
       else Inr (v2, db\<lparr>invitations := write_row iv_id v2 (invitations db),
              ws_log := ws_log db @
                [AuditEntry w ''update'' ''invitation'' i actor,
                 SecurityEntry ''workspace_invitation_updated'' (Some w) actor]\<rparr>)))))))"

definition get_invitation :: "uuid \<Rightarrow> uuid \<Rightarrow> uuid \<Rightarrow> ws_db \<Rightarrow> app_error + invitation" where
  "get_invitation actor w i db =
     bind_result (require_workspace_role db actor w MANAGER_ROLES) (\<lambda>_. get_invitation_or_raise db w i False)"

definition list_invitations ::
    "timestamp \<Rightarrow> uuid \<Rightarrow> uuid \<Rightarrow> bool \<Rightarrow> bool \<Rightarrow> nat \<Rightarrow> nat \<Rightarrow> ws_db \<Rightarrow> app_error + invitation list \<times> nat" where
  "list_invitations now actor w include_accepted include_expired limit offset db =
     bind_result (require_workspace_role db actor w MANAGER_ROLES) (\<lambda>_.
       (let rows = filter (\<lambda>v. iv_workspace_id v = w \<and> \<not> iv_deleted v \<and>
              (include_accepted \<or> iv_accepted_at v = None) \<and> (include_expired \<or> iv_expires_at v > now))
              (invitations db)
        in Inr (take limit (drop offset (sort_key (\<lambda>v. - iv_created_at v) rows)), length rows)))"

definition has_pending_invitation_for_email :: "timestamp \<Rightarrow> string \<Rightarrow> ws_db \<Rightarrow> bool" where
  "has_pending_invitation_for_email now email db =
     list_ex (\<lambda>v. citext_eq (iv_email v) email \<and> iv_accepted_at v = None \<and> iv_expires_at v > now \<and>
                  \<not> iv_deleted v) (invitations db)"

section \<open>Accepting an invitation\<close>

datatype accept_status = Accepted | AlreadyAccepted | AlreadyMember

definition get_verified_email_identity :: "ws_db \<Rightarrow> uuid \<Rightarrow> string \<Rightarrow> user_auth option" where
  "get_verified_email_identity db u email =
     find (\<lambda>a. ua_user_id a = u \<and> citext_eq (ua_email a) email \<and> ua_email_verified a \<and> \<not> ua_deleted a)
       (user_auths db)"

definition normalized_email :: "string \<Rightarrow> string" where
  "normalized_email s = py_lower (py_strip s)"

definition accept_checks :: "user \<Rightarrow> invitation \<Rightarrow> bool \<Rightarrow> ws_db \<Rightarrow> app_error + workspace" where
  "accept_checks actor v token_verified db =
     (case find (\<lambda>x. ws_id x = iv_workspace_id v \<and> \<not> ws_deleted x) (workspaces db) of
        None \<Rightarrow> Inl (AppValidationError ''Invalid invitation: workspace not found'')
      | Some x \<Rightarrow>
          (if normalized_email (us_email actor) = []
           then Inl (AuthorizationError ''Your account does not have a verified email'')
           else if normalized_email (us_email actor) \<noteq> normalized_email (iv_email v)
           then Inl (AuthorizationError ''This invitation was sent to another address'')
           else if \<not> token_verified \<and>
                   get_verified_email_identity db (us_id actor) (normalized_email (iv_email v)) = None
           then Inl (AuthorizationError ''Verify your email before accepting this invitation'')
           else Inr x))"

definition acceptance_log :: "bool \<Rightarrow> user \<Rightarrow> invitation \<Rightarrow> ws_entry list" where
  "acceptance_log has_request actor v =
     AuditEntry (iv_workspace_id v) ''update'' ''invitation'' (iv_id v) (us_id actor) #
     (if has_request then [SecurityEntry ''workspace_invitation_accepted'' (Some (iv_workspace_id v)) (us_id actor)]
      else [])"

definition accept_invitation ::
    "timestamp \<Rightarrow> uuid \<Rightarrow> bool \<Rightarrow> user \<Rightarrow> invitation \<Rightarrow> bool \<Rightarrow> ws_db \<Rightarrow>
     app_error + accept_status \<times> membership \<times> ws_db" where
  "accept_invitation now fresh has_request actor v token_verified db =
     bind_result (accept_checks actor v token_verified db) (\<lambda>x.
       (let existing = find (\<lambda>m. mb_workspace_id m = ws_id x \<and> mb_user_id m = us_id actor) (memberships db)
        in case existing of
             Some m \<Rightarrow>
               (if \<not> mb_deleted m
                then Inr (if iv_accepted_at v \<noteq> None then AlreadyAccepted else AlreadyMember, m,
                       db\<lparr>invitations := write_row iv_id
                            (v\<lparr>iv_accepted_at := Some (if_none (iv_accepted_at v) now)\<rparr>) (invitations db),
                          ws_log := ws_log db @ acceptance_log has_request actor v\<rparr>)
                else if iv_accepted_at v \<noteq> None
                then Inl (AppValidationError ''Invitation has already been accepted'')
                else if iv_expires_at v \<le> now then Inl (AppValidationError ''Invitation has expired'')
                else
                  (let m' = m\<lparr>mb_deleted := False, mb_role := iv_role v\<rparr>
                   in Inr (Accepted, m', db\<lparr>memberships := write_row mb_id m' (memberships db),
                        invitations := write_row iv_id (v\<lparr>iv_accepted_at := Some now\<rparr>) (invitations db),
                        ws_log := ws_log db @ acceptance_log has_request actor v\<rparr>)))
           | None \<Rightarrow>
               (if iv_accepted_at v \<noteq> None
                then Inl (AppValidationError ''Invitation has already been accepted'')
                else if iv_expires_at v \<le> now then Inl (AppValidationError ''Invitation has expired'')
                else if fresh \<in> mb_id ` set (memberships db) then Inl (IntegrityError ''workspace_memberships_pkey'')
                else
                  (let m' = \<lparr>mb_id = fresh, mb_workspace_id = ws_id x, mb_user_id = us_id actor,
                             mb_role = iv_role v, mb_created_at = now, mb_deleted = False\<rparr>
                   in Inr (Accepted, m', db\<lparr>memberships := memberships db @ [m'],
                        invitations := write_row iv_id (v\<lparr>iv_accepted_at := Some now\<rparr>) (invitations db),
                        ws_log := ws_log db @ acceptance_log has_request actor v\<rparr>)))))"

text \<open>
  \<^verbatim>\<open>record_failed_accept\<close> commits in its own transaction, so its entry survives the refusal.
\<close>

definition record_failed_accept :: "bool \<Rightarrow> user \<Rightarrow> invitation option \<Rightarrow> ws_db \<Rightarrow> ws_db" where
  "record_failed_accept has_request actor v db =
     (if has_request
      then db\<lparr>ws_log := ws_log db @
        [SecurityEntry ''workspace_invitation_failed'' (map_option iv_workspace_id v) (us_id actor)]\<rparr>
      else db)"

definition recorded_refusal :: "app_error \<Rightarrow> bool" where
  "recorded_refusal e = (case e of AppValidationError m \<Rightarrow> True | AuthorizationError m \<Rightarrow> True | _ \<Rightarrow> False)"

definition accept_found_invitation ::
    "timestamp \<Rightarrow> uuid \<Rightarrow> bool \<Rightarrow> user \<Rightarrow> bool \<Rightarrow> invitation option \<Rightarrow> ws_db \<Rightarrow>
     (app_error + accept_status \<times> membership) \<times> ws_db" where
  "accept_found_invitation now fresh has_request actor token_verified found db =
     (case found of
        None \<Rightarrow> (Inl (AppValidationError ''Invalid or expired invitation link''),
                 record_failed_accept has_request actor None db)
      | Some v \<Rightarrow>
          (case accept_invitation now fresh has_request actor v token_verified db of
             Inr (status, m, db') \<Rightarrow> (Inr (status, m), db')
           | Inl e \<Rightarrow> (Inl e, if recorded_refusal e then record_failed_accept has_request actor (Some v) db else db)))"

definition accept_invitation_by_id ::
    "timestamp \<Rightarrow> uuid \<Rightarrow> bool \<Rightarrow> user \<Rightarrow> uuid option \<Rightarrow> ws_db \<Rightarrow>
     (app_error + accept_status \<times> membership) \<times> ws_db" where
  "accept_invitation_by_id now fresh has_request actor invitation_id db =
     (case invitation_id of
        None \<Rightarrow> (Inl (AppValidationError ''Invalid or expired invitation link''),
                 record_failed_accept has_request actor None db)
      | Some i \<Rightarrow> accept_found_invitation now fresh has_request actor False
          (find (\<lambda>v. iv_id v = i \<and> \<not> iv_deleted v) (invitations db)) db)"

definition accept_invitation_by_token ::
    "(string \<Rightarrow> string) \<Rightarrow> timestamp \<Rightarrow> uuid \<Rightarrow> bool \<Rightarrow> user \<Rightarrow> string \<Rightarrow> ws_db \<Rightarrow>
     (app_error + accept_status \<times> membership) \<times> ws_db" where
  "accept_invitation_by_token hash_token now fresh has_request actor token db =
     (let token = py_strip token
      in if token = [] then (Inl (AppValidationError ''Invalid or expired invitation link''),
             record_failed_accept has_request actor None db)
         else accept_found_invitation now fresh has_request actor True
           (find (\<lambda>v. iv_token_hash v = hash_token token \<and> \<not> iv_deleted v) (invitations db)) db)"

text \<open>
  The sweep after a sign-in: every pending invitation of the address in its own savepoint; a failure
  is skipped. \<open>fresh\<close> gives each new membership its identifier; \<open>unlocked\<close> are the rows no other
  transaction holds.
\<close>

fun accept_pending_loop ::
    "timestamp \<Rightarrow> (uuid \<Rightarrow> uuid) \<Rightarrow> bool \<Rightarrow> user \<Rightarrow> invitation list \<Rightarrow> nat \<Rightarrow> ws_db \<Rightarrow> nat \<times> ws_db" where
  "accept_pending_loop now fresh has_request actor [] n db = (n, db)"
| "accept_pending_loop now fresh has_request actor (v # vs) n db =
     (case accept_invitation now (fresh (iv_id v)) has_request actor v False db of
        Inl e \<Rightarrow> accept_pending_loop now fresh has_request actor vs n db
      | Inr (status, m, db') \<Rightarrow> accept_pending_loop now fresh has_request actor vs (n + 1) db')"

definition accept_pending_invitations_for_user ::
    "timestamp \<Rightarrow> (uuid \<Rightarrow> uuid) \<Rightarrow> (uuid \<Rightarrow> bool) \<Rightarrow> bool \<Rightarrow> user \<Rightarrow> ws_db \<Rightarrow> nat \<times> ws_db" where
  "accept_pending_invitations_for_user now fresh unlocked has_request actor db =
     (case get_verified_email_identity db (us_id actor) (us_email actor) of
        None \<Rightarrow> (0, db)
      | Some _ \<Rightarrow> accept_pending_loop now fresh has_request actor
          (filter (\<lambda>v. unlocked (iv_id v)) (sort_key iv_created_at
            (filter (\<lambda>v. citext_eq (iv_email v) (us_email actor) \<and> iv_accepted_at v = None \<and>
                         \<not> iv_deleted v \<and> iv_expires_at v > now) (invitations db)))) 0 db)"

end
