(* ===== verification/Workspace_Provisioning.thy ===== *)
theory Workspace_Provisioning
  imports Workspaces
begin

text \<open>
  Creating workspaces (\<^verbatim>\<open>create_workspace.py\<close>, \<^verbatim>\<open>provisioning.py\<close>), changing their metadata
  (\<^verbatim>\<open>update_workspace.py\<close>) and the slugs they use (\<^verbatim>\<open>utils/slugify.py\<close>). The creation of the built-in
  agent and the bucket job are calls into other components, recorded in the log.
\<close>

section \<open>Slugs\<close>

definition slug_char :: "char \<Rightarrow> bool" where
  "slug_char c = (let n = (of_char c :: nat) in (97 \<le> n \<and> n \<le> 122) \<or> (48 \<le> n \<and> n \<le> 57))"

text \<open>\<open>sub_runs P\<close> is \<^verbatim>\<open>re.sub\<close> of every maximal run of characters with \<open>P\<close> by a dash.\<close>

fun sub_runs :: "(char \<Rightarrow> bool) \<Rightarrow> bool \<Rightarrow> string \<Rightarrow> string" where
  "sub_runs P in_run [] = []"
| "sub_runs P in_run (c # cs) =
     (if P c then (if in_run then sub_runs P True cs else CHR ''-'' # sub_runs P True cs)
      else c # sub_runs P False cs)"

definition rstrip_dash :: "string \<Rightarrow> string" where
  "rstrip_dash s = rev (dropWhile (\<lambda>c. c = CHR ''-'') (rev s))"

definition strip_dash :: "string \<Rightarrow> string" where
  "strip_dash s = rstrip_dash (dropWhile (\<lambda>c. c = CHR ''-'') s)"

definition slugify :: "string option \<Rightarrow> int \<Rightarrow> string" where
  "slugify value max_length =
     (let slug = sub_runs (\<lambda>c. \<not> slug_char c) False (py_lower (py_strip (or_string value [])));
          slug = sub_runs (\<lambda>c. c = CHR ''-'') False slug;
          slug = strip_dash slug
      in if max_length > 0 then rstrip_dash (take (nat max_length) slug) else slug)"

definition candidate_slug :: "string \<Rightarrow> nat \<Rightarrow> string" where
  "candidate_slug base counter = (if counter = 1 then base else base @ ''-'' @ nat_text counter)"

section \<open>Creating a workspace\<close>

definition new_workspace :: "uuid \<Rightarrow> string \<Rightarrow> string \<Rightarrow> bool \<Rightarrow> workspace" where
  "new_workspace i slug name personal =
     \<lparr>ws_id = i, ws_slug = slug, ws_name = name, ws_is_personal = personal, ws_shared_by_default = False,
      ws_model_provider = None, ws_model = None, ws_deleted = False\<rparr>"

text \<open>The insert in a savepoint: None is the \<^verbatim>\<open>IntegrityError\<close>. The slug is unique over all rows.\<close>

definition insert_workspace :: "workspace \<Rightarrow> workspace list \<Rightarrow> workspace list option" where
  "insert_workspace x T =
     (if ws_id x \<in> ws_id ` set T \<or> ws_slug x \<in> ws_slug ` set T then None else Some (T @ [x]))"

text \<open>
  The attempts with counter \<open>k\<close>, \<open>k + 1\<close>, ...: at most \<open>n\<close> of them. \<open>fresh k\<close> is the identifier
  drawn for attempt \<open>k\<close>; a failure with \<open>stop_on_conflict\<close> ends the loop.
\<close>

datatype slug_result = Inserted workspace "workspace list" | Conflict | Exhausted

fun insert_with_slug ::
    "nat \<Rightarrow> nat \<Rightarrow> (nat \<Rightarrow> uuid) \<Rightarrow> string \<Rightarrow> string \<Rightarrow> bool \<Rightarrow> bool \<Rightarrow> workspace list \<Rightarrow> slug_result" where
  "insert_with_slug 0 k fresh base name personal stop_on_conflict T = Exhausted"
| "insert_with_slug (Suc n) k fresh base name personal stop_on_conflict T =
     (let x = new_workspace (fresh k) (candidate_slug base k) name personal
      in case insert_workspace x T of
           Some T' \<Rightarrow> Inserted x T'
         | None \<Rightarrow> if stop_on_conflict then Conflict
             else insert_with_slug n (k + 1) fresh base name personal stop_on_conflict T)"

definition owner_membership :: "timestamp \<Rightarrow> uuid \<Rightarrow> uuid \<Rightarrow> uuid \<Rightarrow> membership" where
  "owner_membership now fresh w u =
     \<lparr>mb_id = fresh, mb_workspace_id = w, mb_user_id = u, mb_role = Owner, mb_created_at = now,
      mb_deleted = False\<rparr>"

definition add_owner ::
    "timestamp \<Rightarrow> uuid \<Rightarrow> uuid \<Rightarrow> workspace \<Rightarrow> workspace list \<Rightarrow> ws_db \<Rightarrow> app_error + ws_db" where
  "add_owner now fresh u x T db =
     (if fresh \<in> mb_id ` set (memberships db) \<or>
         (\<exists>m \<in> set (memberships db). mb_workspace_id m = ws_id x \<and> mb_user_id m = u)
      then Inl (IntegrityError ''workspace_memberships'')
      else Inr (db\<lparr>workspaces := T,
        memberships := memberships db @ [owner_membership now fresh (ws_id x) u],
        ws_log := ws_log db @ [BuiltinAgentCreated (ws_id x) u,
          AuditEntry (ws_id x) ''create'' ''workspace'' (ws_id x) u, BucketProvisioningEnqueued (ws_id x) u]\<rparr>))"

definition create_workspace ::
    "timestamp \<Rightarrow> (nat \<Rightarrow> uuid) \<Rightarrow> uuid \<Rightarrow> uuid \<Rightarrow> string \<Rightarrow> string option \<Rightarrow> ws_db \<Rightarrow>
     app_error + workspace \<times> ws_db" where
  "create_workspace now fresh fresh_membership actor name slug db =
     (let base = slugify (Some (or_string slug name)) 100;
          base = (if base = [] then ''workspace'' else base)
      in case insert_with_slug 10 1 fresh base name False (slug \<noteq> None) (workspaces db) of
           Conflict \<Rightarrow> Inl (ConflictError ''A workspace with that slug already exists'')
         | Exhausted \<Rightarrow> Inl (ConflictError ''Could not generate a unique workspace slug'')
         | Inserted x T \<Rightarrow>
             bind_result (add_owner now fresh_membership actor x T db) (\<lambda>db'. Inr (x, db')))"

text \<open>
  The personal workspace of a user. \<^verbatim>\<open>scalar_one_or_none\<close> raises when the query has two rows.
  \<open>uuid_text\<close> is \<^verbatim>\<open>str(user.id)\<close>.
\<close>

definition personal_workspaces :: "ws_db \<Rightarrow> uuid \<Rightarrow> workspace list" where
  "personal_workspaces db u =
     concat (map (\<lambda>x. map (\<lambda>_. x) (filter (\<lambda>m. mb_workspace_id m = ws_id x \<and> mb_user_id m = u \<and> \<not> mb_deleted m)
       (memberships db))) (filter (\<lambda>x. ws_is_personal x \<and> \<not> ws_deleted x) (workspaces db)))"

definition set_default_if_none :: "uuid \<Rightarrow> uuid \<Rightarrow> user list \<Rightarrow> user list" where
  "set_default_if_none u w T =
     update_where (\<lambda>x. us_id x = u \<and> us_default_workspace_id x = None)
       (\<lambda>x. x\<lparr>us_default_workspace_id := Some w\<rparr>) T"

definition provision_personal_workspace ::
    "(uuid \<Rightarrow> string) \<Rightarrow> timestamp \<Rightarrow> (nat \<Rightarrow> uuid) \<Rightarrow> uuid \<Rightarrow> uuid \<Rightarrow> ws_db \<Rightarrow> app_error + workspace \<times> ws_db" where
  "provision_personal_workspace uuid_text now fresh fresh_membership u db =
     (case personal_workspaces db u of
        x # y # xs \<Rightarrow> Inl (RuntimeError ''MultipleResultsFound'')
      | [x] \<Rightarrow> Inr (x, db\<lparr>users := set_default_if_none u (ws_id x) (users db)\<rparr>)
      | [] \<Rightarrow>
          (let base = ''personal-'' @ take 8 (uuid_text u)
           in case insert_with_slug 10 1 fresh base ''My Workspace'' True False (workspaces db) of
                Inserted x T \<Rightarrow>
                  bind_result (add_owner now fresh_membership u x T db) (\<lambda>db'.
                    Inr (x, db'\<lparr>users := set_default_if_none u (ws_id x) (users db')\<rparr>))
              | _ \<Rightarrow> Inl (RuntimeError ''Could not generate a unique personal workspace slug after 10 attempts'')))"

section \<open>Changing a workspace's metadata\<close>

record model_info =
  mi_provider :: string
  mi_model :: string
  mi_supports_tools :: bool
  mi_deprecated :: bool

definition find_model :: "model_info list \<Rightarrow> string \<Rightarrow> string \<Rightarrow> model_info option" where
  "find_model catalog p m = find (\<lambda>i. mi_provider i = p \<and> mi_model i = m) (rev catalog)"

definition validate_default_model ::
    "model_info list \<Rightarrow> (model_info \<Rightarrow> bool) \<Rightarrow> string option \<Rightarrow> string option \<Rightarrow> app_error + unit" where
  "validate_default_model catalog is_model_available provider model =
     (case (provider, model) of
        (None, None) \<Rightarrow> Inr ()
      | (Some p, Some m) \<Rightarrow>
          (case find_model catalog p m of
             None \<Rightarrow> Inl (AppValidationError ''Choose an available model'')
           | Some i \<Rightarrow> if mi_deprecated i \<or> \<not> mi_supports_tools i \<or> \<not> is_model_available i
               then Inl (AppValidationError ''Choose an available model'') else Inr ())
      | _ \<Rightarrow> Inl (AppValidationError ''Choose both a provider and a model, or clear both''))"

text \<open>
  The request: each field says whether it was supplied, and with which value. \<open>up_model\<close> holds the
  pair that the request gives when either half was supplied.
\<close>

record workspace_update =
  up_shared_by_default :: "bool option option"
  up_model :: "(string option \<times> string option) option"
  up_name :: "string option option"
  up_slug :: "string option option"

definition update_shared_by_default :: "workspace_update \<Rightarrow> workspace \<Rightarrow> app_error + workspace" where
  "update_shared_by_default p x =
     (case up_shared_by_default p of
        None \<Rightarrow> Inr x
      | Some v \<Rightarrow>
          if ws_is_personal x then Inl (AppValidationError ''Personal workspaces cannot share conversations by default'')
          else (case v of
                  None \<Rightarrow> Inl (AppValidationError ''conversations_shared_by_default cannot be null'')
                | Some b \<Rightarrow> Inr (x\<lparr>ws_shared_by_default := b\<rparr>)))"

definition update_default_model ::
    "model_info list \<Rightarrow> (model_info \<Rightarrow> bool) \<Rightarrow> workspace_update \<Rightarrow> workspace \<Rightarrow> app_error + workspace" where
  "update_default_model catalog available p x =
     (case up_model p of
        None \<Rightarrow> Inr x
      | Some (pr, mo) \<Rightarrow>
          if (pr, mo) = (ws_model_provider x, ws_model x) then Inr x
          else bind_result (validate_default_model catalog available pr mo) (\<lambda>_.
            Inr (x\<lparr>ws_model_provider := pr, ws_model := mo\<rparr>)))"

definition update_name :: "workspace_update \<Rightarrow> workspace \<Rightarrow> app_error + workspace" where
  "update_name p x =
     (case up_name p of
        None \<Rightarrow> Inr x
      | Some None \<Rightarrow> Inl (AppValidationError ''name cannot be null'')
      | Some (Some n) \<Rightarrow> Inr (x\<lparr>ws_name := n\<rparr>))"

definition update_slug :: "workspace_update \<Rightarrow> workspace list \<Rightarrow> workspace \<Rightarrow> app_error + workspace" where
  "update_slug p T x =
     (case up_slug p of
        None \<Rightarrow> Inr x
      | Some None \<Rightarrow> Inl (AppValidationError ''slug cannot be null'')
      | Some (Some s) \<Rightarrow>
          (let slug = slugify (Some s) 100;
               slug = (if slug = [] then ''workspace'' else slug)
           in if slug = ws_slug x then Inr x
              else if list_ex (\<lambda>y. ws_slug y = slug \<and> ws_id y \<noteq> ws_id x \<and> \<not> ws_deleted y) T
              then Inl (ConflictError ''A workspace with that slug already exists'')
              else Inr (x\<lparr>ws_slug := slug\<rparr>)))"

definition update_workspace ::
    "model_info list \<Rightarrow> (model_info \<Rightarrow> bool) \<Rightarrow> uuid \<Rightarrow> uuid \<Rightarrow> workspace_update \<Rightarrow> ws_db \<Rightarrow>
     app_error + workspace \<times> ws_db" where
  "update_workspace catalog available actor w p db =
     bind_result (require_workspace_role db actor w MANAGER_ROLES) (\<lambda>(x, _).
     bind_result (update_shared_by_default p x) (\<lambda>x1.
     bind_result (update_default_model catalog available p x1) (\<lambda>x2.
     bind_result (update_name p x2) (\<lambda>x3.
     bind_result (update_slug p (workspaces db) x3) (\<lambda>x4.
       if x4 = x then Inr (x, db)
       else if list_ex (\<lambda>y. ws_slug y = ws_slug x4 \<and> ws_id y \<noteq> ws_id x4) (workspaces db)
       then Inl (ConflictError ''A workspace with that slug already exists'')
       else Inr (x4, db\<lparr>workspaces := write_row ws_id x4 (workspaces db),
              ws_log := ws_log db @ [AuditEntry w ''update'' ''workspace'' w actor]\<rparr>))))))"

end
