(* ===== verification/Workspace_System.thy ===== *)
theory Workspace_System
  imports Workspace_Provisioning
begin

text \<open>
  The membership tables as a system of events, each one a committed request of an authenticated user
  (an event of a user the \<^verbatim>\<open>users\<close> table does not hold as active does nothing; a request that raises
  is rolled back). The invariant: the constraints the database declares, and an active owner for
  every live workspace. The super admin's deletion of a user is not one of the events: it breaks the
  second part, which \<open>Workspace_Properties\<close> proves.
\<close>

section \<open>The invariant\<close>

definition pending_invitation :: "invitation \<Rightarrow> bool" where
  "pending_invitation v \<longleftrightarrow> iv_accepted_at v = None \<and> \<not> iv_deleted v"

definition pending_key :: "invitation \<Rightarrow> uuid \<times> string" where
  "pending_key v = (iv_workspace_id v, py_lower (iv_email v))"

definition ws_keys :: "ws_db \<Rightarrow> bool" where
  "ws_keys db \<longleftrightarrow>
     distinct (map ws_id (workspaces db)) \<and> distinct (map ws_slug (workspaces db)) \<and>
     distinct (map mb_id (memberships db)) \<and>
     distinct (map (\<lambda>m. (mb_workspace_id m, mb_user_id m)) (memberships db)) \<and>
     distinct (map iv_id (invitations db)) \<and>
     distinct (map pending_key (filter pending_invitation (invitations db)))"

definition has_owner :: "ws_db \<Rightarrow> uuid \<Rightarrow> bool" where
  "has_owner db w \<longleftrightarrow> (\<exists>m \<in> set (memberships db). active_owner db w m)"

definition ws_inv :: "ws_db \<Rightarrow> bool" where
  "ws_inv db \<longleftrightarrow> ws_keys db \<and> (\<forall>x \<in> set (workspaces db). ws_deleted x \<or> has_owner db (ws_id x))"

lemma ws_keysD:
  assumes "ws_keys db"
  shows "distinct (map ws_id (workspaces db))" "distinct (map ws_slug (workspaces db))"
    "distinct (map mb_id (memberships db))"
    "distinct (map (\<lambda>m. (mb_workspace_id m, mb_user_id m)) (memberships db))"
    "distinct (map iv_id (invitations db))"
    "distinct (map pending_key (filter pending_invitation (invitations db)))"
  using assms by (simp_all add: ws_keys_def)

text \<open>A row that replaces one with the same identifier and the same other key keeps both keys.\<close>

lemma map_write_row_same:
  assumes "distinct (map key T)" and "r \<in> set T" and "key r' = key r" and "f r' = f r"
  shows "map f (write_row key r' T) = map f T"
proof -
  have "f (if key x = key r' then r' else x) = f x" if "x \<in> set T" for x
  proof (cases "key x = key r'")
    case True
    with assms that have "x = r" by (intro distinct_key_eq [of key T]) simp_all
    with assms(4) show ?thesis by simp
  qed simp
  then show ?thesis by (simp add: write_row_def update_where_def)
qed

lemma write_row_partial_index:
  assumes "distinct (map key T)" and "r \<in> set T" and "key r' = key r"
    and "K r' = K r" and "Q r' \<longrightarrow> Q r" and "distinct (map K (filter Q T))"
  shows "distinct (map K (filter Q (write_row key r' T)))"
  unfolding write_row_def
proof (rule partial_index_update [OF _ assms(6)])
  fix x
  assume "x \<in> set T" and "key x = key r'"
  with assms have "x = r" by (intro distinct_key_eq [of key T]) simp_all
  with assms(4,5) show "K r' = K x \<and> (Q r' \<longrightarrow> Q x)" by simp
qed

lemma user_is_active_cong:
  assumes "users db' = users db \<or> (\<exists>P g. users db' = update_where P g (users db) \<and>
    (\<forall>u. us_id (g u) = us_id u \<and> us_deleted (g u) = us_deleted u \<and> us_is_active (g u) = us_is_active u))"
  shows "user_is_active db' = user_is_active db"
proof -
  have same: "list_ex (\<lambda>x. us_id x = u \<and> \<not> us_deleted x \<and> us_is_active x) (update_where P g T) =
        list_ex (\<lambda>x. us_id x = u \<and> \<not> us_deleted x \<and> us_is_active x) T"
    if "\<forall>u. us_id (g u) = us_id u \<and> us_deleted (g u) = us_deleted u \<and> us_is_active (g u) = us_is_active u"
    for P g u T
    by (induction T) (simp_all add: that)
  show ?thesis
  proof
    fix u
    show "user_is_active db' u = user_is_active db u"
      using assms unfolding user_is_active_def by (elim disjE exE conjE) (simp_all add: same)
  qed
qed

lemma active_owner_cong: "user_is_active db' = user_is_active db \<Longrightarrow> active_owner db' = active_owner db"
  by (simp add: active_owner_def fun_eq_iff)

section \<open>Owners\<close>

lemma require_workspace_role_Inr:
  assumes "require_workspace_role db actor w R = Inr (x, m)"
  shows "x \<in> set (workspaces db)" "ws_id x = w" "\<not> ws_deleted x" "m \<in> set (memberships db)"
    "mb_workspace_id m = w" "mb_user_id m = actor" "\<not> mb_deleted m" "user_is_active db actor" "mb_role m \<in> R"
  using assms
  by (auto simp: require_workspace_role_def get_active_membership_def
      split: option.splits if_splits dest!: find_SomeD row_by_id_Some)

lemma get_membership_or_raise_Inr:
  "get_membership_or_raise db w i d = Inr m \<Longrightarrow>
     m \<in> set (memberships db) \<and> mb_id m = i \<and> mb_workspace_id m = w \<and> (d \<or> \<not> mb_deleted m)"
  by (auto simp: get_membership_or_raise_def split: option.splits dest!: find_SomeD)

lemma get_invitation_or_raise_Inr:
  "get_invitation_or_raise db w i d = Inr v \<Longrightarrow>
     v \<in> set (invitations db) \<and> iv_id v = i \<and> iv_workspace_id v = w \<and> (d \<or> \<not> iv_deleted v)"
  by (auto simp: get_invitation_or_raise_def split: option.splits dest!: find_SomeD)

text \<open>When the last-owner check passes, every workspace has an owner other than the checked row.\<close>

lemma other_owner:
  assumes "distinct (map mb_id (memberships db))" and "m \<in> set (memberships db)"
    and "ensure_not_last_owner db m = Inr ()" and "has_owner db w"
  shows "\<exists>q \<in> set (memberships db). active_owner db w q \<and> mb_id q \<noteq> mb_id m"
proof -
  obtain q where q: "q \<in> set (memberships db)" "active_owner db w q"
    using assms(4) by (auto simp: has_owner_def)
  show ?thesis
  proof (cases "mb_id q = mb_id m")
    case False
    with q show ?thesis by blast
  next
    case True
    with distinct_key_eq [OF assms(1) q(1) assms(2)] have "q = m" by simp
    with q(2) have "mb_role m = Owner" and w: "mb_workspace_id m = w" by (simp_all add: active_owner_def)
    with assms(3) have "rowcount (\<lambda>x. active_owner db w x \<and> mb_id x \<noteq> mb_id m) (memberships db) \<noteq> 0"
      by (auto simp: ensure_not_last_owner_def split: if_splits)
    then show ?thesis unfolding rowcount_0_iff by blast
  qed
qed

text \<open>An owner's row that is not the written one is still there after the write.\<close>

lemma has_owner_write:
  assumes "q \<in> set (memberships db)" and "active_owner db w q" and "mb_id q \<noteq> mb_id m'"
    and "memberships db' = write_row mb_id m' (memberships db)" and "user_is_active db' = user_is_active db"
  shows "has_owner db' w"
proof -
  have "q \<in> set (memberships db')" unfolding assms(4) in_write_row using assms(1,3) by blast
  then show ?thesis using assms(2) active_owner_cong [OF assms(5)] by (auto simp: has_owner_def)
qed

lemma has_owner_write_nonowner:
  assumes "distinct (map mb_id (memberships db))" and "has_owner db w" and "m \<in> set (memberships db)"
    and "mb_deleted m \<or> mb_role m \<noteq> Owner" and "mb_id m' = mb_id m"
    and "memberships db' = write_row mb_id m' (memberships db)" and "user_is_active db' = user_is_active db"
  shows "has_owner db' w"
proof -
  obtain q where q: "q \<in> set (memberships db)" "active_owner db w q"
    using assms(2) by (auto simp: has_owner_def)
  then have "q \<noteq> m" using assms(4) by (auto simp: active_owner_def)
  with distinct_key_eq [OF assms(1) q(1) assms(3)] have "mb_id q \<noteq> mb_id m'" using assms(5) by auto
  with q show ?thesis by (rule has_owner_write [OF _ _ _ assms(6,7)])
qed

lemma has_owner_superset:
  assumes "has_owner db w" and "set (memberships db) \<subseteq> set (memberships db')"
    and "user_is_active db' = user_is_active db"
  shows "has_owner db' w"
  using assms(1,2) active_owner_cong [OF assms(3)] by (auto simp: has_owner_def)

section \<open>How the tables change\<close>

definition inv_keys :: "invitation list \<Rightarrow> bool" where
  "inv_keys T \<longleftrightarrow> distinct (map iv_id T) \<and> distinct (map pending_key (filter pending_invitation T))"

definition mb_keys :: "membership list \<Rightarrow> bool" where
  "mb_keys T \<longleftrightarrow> distinct (map mb_id T) \<and> distinct (map (\<lambda>m. (mb_workspace_id m, mb_user_id m)) T)"

lemma ws_keys_split:
  "ws_keys db \<longleftrightarrow> distinct (map ws_id (workspaces db)) \<and> distinct (map ws_slug (workspaces db)) \<and>
     mb_keys (memberships db) \<and> inv_keys (invitations db)"
  by (auto simp: ws_keys_def mb_keys_def inv_keys_def)

lemma inv_keys_write:
  assumes "inv_keys T" and "v \<in> set T" and "iv_id v' = iv_id v" and "pending_key v' = pending_key v"
    and "pending_invitation v' \<longrightarrow> pending_invitation v"
  shows "inv_keys (write_row iv_id v' T)"
  using assms write_row_partial_index [of iv_id T v v' pending_key pending_invitation]
  by (simp add: inv_keys_def)

lemma inv_keys_soft_delete:
  assumes "inv_keys T"
  shows "inv_keys (update_where P (\<lambda>v. v\<lparr>iv_deleted := True\<rparr>) T)"
proof -
  have "map iv_id (update_where P (\<lambda>v. v\<lparr>iv_deleted := True\<rparr>) T) = map iv_id T"
    by (induction T) simp_all
  moreover have "distinct (map pending_key (filter pending_invitation
      (update_where P (\<lambda>v. v\<lparr>iv_deleted := True\<rparr>) T)))"
    using assms by (intro partial_index_update) (simp_all add: inv_keys_def pending_key_def pending_invitation_def)
  ultimately show ?thesis using assms by (simp add: inv_keys_def)
qed

lemma inv_keys_append:
  assumes "inv_keys T" and "iv_id v \<notin> iv_id ` set T"
    and "\<And>r. r \<in> set T \<Longrightarrow> pending_invitation r \<Longrightarrow> pending_key r \<noteq> pending_key v"
  shows "inv_keys (T @ [v])"
proof -
  have "pending_key v \<notin> pending_key ` set (filter pending_invitation T)"
  proof
    assume "pending_key v \<in> pending_key ` set (filter pending_invitation T)"
    then obtain r where "r \<in> set T" "pending_invitation r" "pending_key r = pending_key v" by force
    with assms(3) show False by blast
  qed
  with assms(1,2) show ?thesis by (simp add: inv_keys_def)
qed

lemma mb_keys_write:
  assumes "mb_keys T" and "m \<in> set T" and "mb_id m' = mb_id m" and "mb_workspace_id m' = mb_workspace_id m"
    and "mb_user_id m' = mb_user_id m"
  shows "mb_keys (write_row mb_id m' T)"
  using assms map_write_row_same [of mb_id T m m' "\<lambda>m. (mb_workspace_id m, mb_user_id m)"]
  by (simp add: mb_keys_def)

lemma mb_keys_append:
  assumes "mb_keys T" and "mb_id m \<notin> mb_id ` set T"
    and "\<And>q. q \<in> set T \<Longrightarrow> mb_workspace_id q = mb_workspace_id m \<Longrightarrow> mb_user_id q = mb_user_id m \<Longrightarrow> False"
  shows "mb_keys (T @ [m])"
proof -
  have "(mb_workspace_id m, mb_user_id m) \<notin> (\<lambda>m. (mb_workspace_id m, mb_user_id m)) ` set T"
  proof
    assume "(mb_workspace_id m, mb_user_id m) \<in> (\<lambda>m. (mb_workspace_id m, mb_user_id m)) ` set T"
    then obtain q where "q \<in> set T" "mb_workspace_id q = mb_workspace_id m" "mb_user_id q = mb_user_id m" by force
    with assms(3) show False by blast
  qed
  with assms(1,2) show ?thesis by (simp add: mb_keys_def)
qed

text \<open>
  An operation that leaves the workspaces alone keeps the invariant when it keeps the keys and every
  owner.
\<close>

lemma ws_inv_same_workspaces:
  assumes "ws_inv db" and "workspaces db' = workspaces db" and "mb_keys (memberships db')"
    and "inv_keys (invitations db')" and "\<And>w. has_owner db w \<Longrightarrow> has_owner db' w"
  shows "ws_inv db'"
  using assms by (auto simp: ws_inv_def ws_keys_split)

lemma ws_inv_invitations_only:
  assumes "ws_inv db" and "workspaces db' = workspaces db" and "memberships db' = memberships db"
    and "users db' = users db" and "inv_keys (invitations db')"
  shows "ws_inv db'"
proof (rule ws_inv_same_workspaces [OF assms(1,2) _ assms(5)])
  show "mb_keys (memberships db')" using assms(1,3) by (simp add: ws_inv_def ws_keys_split)
  fix w
  assume "has_owner db w"
  then show "has_owner db' w"
    by (rule has_owner_superset) (simp_all add: assms(3,4) user_is_active_cong)
qed

section \<open>Membership operations\<close>

lemma create_membership_effect:
  assumes "create_membership now fresh actor w uid role db = Inr (m', db')"
  shows "(\<exists>x q. require_workspace_role db actor w MANAGER_ROLES = Inr (x, q) \<and> \<not> ws_is_personal x) \<and>
    workspaces db' = workspaces db \<and> users db' = users db \<and> user_auths db' = user_auths db \<and>
    mb_workspace_id m' = w \<and> mb_user_id m' = uid \<and> mb_role m' = role \<and> \<not> mb_deleted m' \<and>
    user_is_active db uid \<and>
    (\<exists>P. invitations db' = update_where P (\<lambda>v. v\<lparr>iv_deleted := True\<rparr>) (invitations db)) \<and>
    ((\<exists>m \<in> set (memberships db). mb_deleted m \<and> m' = m\<lparr>mb_deleted := False, mb_role := role\<rparr> \<and>
        memberships db' = write_row mb_id m' (memberships db)) \<or>
     (fresh \<notin> mb_id ` set (memberships db) \<and> mb_id m' = fresh \<and>
      (\<forall>m \<in> set (memberships db). mb_workspace_id m = w \<longrightarrow> mb_user_id m \<noteq> uid) \<and>
      memberships db' = memberships db @ [m']))"
proof -
  obtain x q u where x: "require_workspace_role db actor w MANAGER_ROLES = Inr (x, q)" "\<not> ws_is_personal x"
      and u: "get_user_or_raise db uid = Inr u"
    using assms by (auto simp: create_membership_def bind_result_Inr ensure_team_workspace_def split: if_splits)
  from u have u': "u \<in> set (users db)" "us_id u = uid" "\<not> us_deleted u" "us_is_active u"
    by (auto simp: get_user_or_raise_def split: option.splits dest!: find_SomeD)
  then have act: "user_is_active db uid" by (auto simp: user_is_active_def list_ex_iff)
  note body = assms [unfolded create_membership_def x(1) bind_result_simps prod.case ensure_team_workspace_def
      if_not_P [OF x(2)] u Let_def]
  show ?thesis
  proof (cases "find (\<lambda>m. mb_workspace_id m = w \<and> mb_user_id m = us_id u) (memberships db)")
    case None
    then have "\<forall>m \<in> set (memberships db). mb_workspace_id m = w \<longrightarrow> mb_user_id m \<noteq> uid"
      by (simp add: find_None_iff u'(2))
    with body None x act u'(2) show ?thesis by (auto split: if_splits)
  next
    case (Some m)
    then have m: "m \<in> set (memberships db)" "mb_workspace_id m = w" "mb_user_id m = uid"
      using u'(2) by (auto dest!: find_SomeD)
    with body Some x act u'(2) show ?thesis by (auto split: if_splits)
  qed
qed

lemma create_membership_inv:
  assumes inv: "ws_inv db" and op: "create_membership now fresh actor w uid role db = Inr (m', db')"
  shows "ws_inv db'"
proof -
  note eff = create_membership_effect [OF op]
  have keys: "mb_keys (memberships db)" "inv_keys (invitations db)" and dist: "distinct (map mb_id (memberships db))"
    using inv by (simp_all add: ws_inv_def ws_keys_split mb_keys_def)
  have act: "user_is_active db' = user_is_active db" using eff by (simp add: user_is_active_cong)
  have inv': "inv_keys (invitations db')" using eff inv_keys_soft_delete [OF keys(2)] by auto
  show ?thesis
  proof (cases "\<exists>m \<in> set (memberships db). mb_deleted m \<and> m' = m\<lparr>mb_deleted := False, mb_role := role\<rparr> \<and>
        memberships db' = write_row mb_id m' (memberships db)")
    case True
    then obtain m where m: "m \<in> set (memberships db)" "mb_deleted m"
      and m': "m' = m\<lparr>mb_deleted := False, mb_role := role\<rparr>"
      and T: "memberships db' = write_row mb_id m' (memberships db)" by blast
    show ?thesis
    proof (rule ws_inv_same_workspaces [OF inv _ _ inv'])
      show "workspaces db' = workspaces db" using eff by simp
      show "mb_keys (memberships db')" unfolding T by (rule mb_keys_write [OF keys(1) m(1)]) (simp_all add: m')
      fix w'
      assume "has_owner db w'"
      then show "has_owner db' w'"
        by (rule has_owner_write_nonowner [OF dist _ m(1) _ _ T act]) (simp_all add: m(2) m')
    qed
  next
    case False
    with eff have T: "fresh \<notin> mb_id ` set (memberships db)" "mb_id m' = fresh"
      "\<forall>m \<in> set (memberships db). mb_workspace_id m = w \<longrightarrow> mb_user_id m \<noteq> uid"
      "memberships db' = memberships db @ [m']" "mb_workspace_id m' = w" "mb_user_id m' = uid" by blast+
    show ?thesis
    proof (rule ws_inv_same_workspaces [OF inv _ _ inv'])
      show "workspaces db' = workspaces db" using eff by simp
      show "mb_keys (memberships db')" unfolding T(4)
        by (rule mb_keys_append [OF keys(1)]) (use T in auto)
      fix w'
      assume "has_owner db w'"
      then show "has_owner db' w'" by (rule has_owner_superset) (auto simp: T(4) act)
    qed
  qed
qed

lemma update_membership_effect:
  assumes "update_membership actor w i role db = Inr (m', db')"
  shows "\<exists>x q m. require_workspace_role db actor w MANAGER_ROLES = Inr (x, q) \<and> \<not> ws_is_personal x \<and>
    m \<in> set (memberships db) \<and> mb_id m = i \<and> mb_workspace_id m = w \<and> \<not> mb_deleted m \<and>
    m' = m\<lparr>mb_role := role\<rparr> \<and>
    (db' = db \<and> m' = m \<or>
     ensure_not_last_owner db m = Inr () \<and> memberships db' = write_row mb_id m' (memberships db) \<and>
     workspaces db' = workspaces db \<and> users db' = users db \<and> invitations db' = invitations db)"
proof -
  obtain x q m where x: "require_workspace_role db actor w MANAGER_ROLES = Inr (x, q)" "\<not> ws_is_personal x"
      and m: "get_membership_or_raise db w i False = Inr m"
      and body: "(if role = mb_role m then Inr (m, db)
        else bind_result (ensure_not_last_owner db m) (\<lambda>_. Inr (m\<lparr>mb_role := role\<rparr>,
          db\<lparr>memberships := write_row mb_id (m\<lparr>mb_role := role\<rparr>) (memberships db),
             ws_log := ws_log db @
               [AuditEntry w ''update'' ''workspace_membership'' (mb_id m) actor,
                SecurityEntry ''workspace_membership_updated'' (Some w) actor]\<rparr>))) = Inr (m', db')"
    using assms by (auto simp: update_membership_def bind_result_Inr ensure_team_workspace_def Let_def split: if_splits)
  have row: "m \<in> set (memberships db) \<and> mb_id m = i \<and> mb_workspace_id m = w \<and> \<not> mb_deleted m"
    using get_membership_or_raise_Inr [OF m] by simp
  have "m' = m\<lparr>mb_role := role\<rparr> \<and> (db' = db \<and> m' = m \<or>
     ensure_not_last_owner db m = Inr () \<and> memberships db' = write_row mb_id m' (memberships db) \<and>
     workspaces db' = workspaces db \<and> users db' = users db \<and> invitations db' = invitations db)"
    using body by (auto simp: bind_result_Inr split: if_splits)
  with x row show ?thesis by blast
qed

lemma update_membership_inv:
  assumes inv: "ws_inv db" and op: "update_membership actor w i role db = Inr (m', db')"
  shows "ws_inv db'"
proof -
  obtain m where m: "m \<in> set (memberships db)" "m' = m\<lparr>mb_role := role\<rparr>"
    and alt: "db' = db \<or> ensure_not_last_owner db m = Inr () \<and>
      memberships db' = write_row mb_id m' (memberships db) \<and> workspaces db' = workspaces db \<and>
      users db' = users db \<and> invitations db' = invitations db"
    using update_membership_effect [OF op] by blast
  have keys: "mb_keys (memberships db)" "inv_keys (invitations db)" and dist: "distinct (map mb_id (memberships db))"
    using inv by (simp_all add: ws_inv_def ws_keys_split mb_keys_def)
  show ?thesis
  proof (cases "db' = db")
    case False
    with alt have c: "ensure_not_last_owner db m = Inr ()" and T: "memberships db' = write_row mb_id m' (memberships db)"
      and rest: "workspaces db' = workspaces db" "users db' = users db" "invitations db' = invitations db" by blast+
    show ?thesis
    proof (rule ws_inv_same_workspaces [OF inv rest(1)])
      show "mb_keys (memberships db')" unfolding T by (rule mb_keys_write [OF keys(1) m(1)]) (simp_all add: m(2))
      show "inv_keys (invitations db')" using keys rest by simp
      fix w'
      assume "has_owner db w'"
      from other_owner [OF dist m(1) c this] obtain q where
        q: "q \<in> set (memberships db)" "active_owner db w' q" "mb_id q \<noteq> mb_id m" by blast
      show "has_owner db' w'"
        by (rule has_owner_write [OF q(1,2) _ T]) (simp_all add: q(3) m(2) rest user_is_active_cong)
    qed
  qed (simp add: inv)
qed

end
