(* ===== verification/Workspace_Steps.thy ===== *)
theory Workspace_Steps
  imports Workspace_System
begin

text \<open>
  What the remaining operations of \<^verbatim>\<open>services/workspaces\<close> do to the tables, and that each keeps the
  invariant; the events and the interpretation of \<open>invariant_system\<close>.
\<close>

section \<open>Removing members and workspaces\<close>

lemma delete_membership_effect:
  assumes "delete_membership sa actor w i db = Inr db'"
  shows "\<exists>x q m. require_workspace_role db actor w READ_ROLES = Inr (x, q) \<and> \<not> ws_is_personal x \<and>
    m \<in> set (memberships db) \<and> mb_id m = i \<and> mb_workspace_id m = w \<and> \<not> mb_deleted m \<and>
    (mb_user_id m = actor \<or> mb_role q \<in> MANAGER_ROLES \<or> sa actor) \<and> ensure_not_last_owner db m = Inr () \<and>
    memberships db' = write_row mb_id (m\<lparr>mb_deleted := True\<rparr>) (memberships db) \<and>
    workspaces db' = workspaces db \<and> invitations db' = invitations db \<and>
    users db' = update_where (\<lambda>u. us_id u = mb_user_id m \<and> us_default_workspace_id u = Some w)
      (\<lambda>u. u\<lparr>us_default_workspace_id := None\<rparr>) (users db)"
proof -
  obtain x q m where x: "require_workspace_role db actor w READ_ROLES = Inr (x, q)" "\<not> ws_is_personal x"
      and m: "get_membership_or_raise db w i False = Inr m"
      and auth: "mb_user_id m = actor \<or> mb_role q \<in> MANAGER_ROLES \<or> sa actor"
      and c: "ensure_not_last_owner db m = Inr ()"
      and db': "db' = db\<lparr>memberships := write_row mb_id (m\<lparr>mb_deleted := True\<rparr>) (memberships db),
               users := update_where (\<lambda>u. us_id u = mb_user_id m \<and> us_default_workspace_id u = Some w)
                 (\<lambda>u. u\<lparr>us_default_workspace_id := None\<rparr>) (users db),
               ws_log := ws_log db @
                 [AuditEntry w ''delete'' ''workspace_membership'' (mb_id m) actor,
                  SecurityEntry ''workspace_membership_deleted'' (Some w) actor]\<rparr>"
    using assms by (auto simp: delete_membership_def bind_result_Inr ensure_team_workspace_def split: if_splits)
  have row: "m \<in> set (memberships db) \<and> mb_id m = i \<and> mb_workspace_id m = w \<and> \<not> mb_deleted m"
    using get_membership_or_raise_Inr [OF m] by simp
  show ?thesis by (rule exI [of _ x], rule exI [of _ q], rule exI [of _ m]) (simp add: x row auth c db')
qed

lemma delete_membership_inv:
  assumes inv: "ws_inv db" and op: "delete_membership sa actor w i db = Inr db'"
  shows "ws_inv db'"
proof -
  obtain m where m: "m \<in> set (memberships db)" and c: "ensure_not_last_owner db m = Inr ()"
    and T: "memberships db' = write_row mb_id (m\<lparr>mb_deleted := True\<rparr>) (memberships db)"
    and rest: "workspaces db' = workspaces db" "invitations db' = invitations db"
    and us: "users db' = update_where (\<lambda>u. us_id u = mb_user_id m \<and> us_default_workspace_id u = Some w)
      (\<lambda>u. u\<lparr>us_default_workspace_id := None\<rparr>) (users db)"
    using delete_membership_effect [OF op] by blast
  have keys: "mb_keys (memberships db)" "inv_keys (invitations db)" and dist: "distinct (map mb_id (memberships db))"
    using inv by (simp_all add: ws_inv_def ws_keys_split mb_keys_def)
  have act: "user_is_active db' = user_is_active db"
    by (rule user_is_active_cong, rule disjI2, intro exI conjI, rule us) simp
  show ?thesis
  proof (rule ws_inv_same_workspaces [OF inv rest(1)])
    show "mb_keys (memberships db')" unfolding T by (rule mb_keys_write [OF keys(1) m]) simp_all
    show "inv_keys (invitations db')" using keys rest by simp
    fix w'
    assume "has_owner db w'"
    from other_owner [OF dist m c this] obtain q where
      q: "q \<in> set (memberships db)" "active_owner db w' q" "mb_id q \<noteq> mb_id m" by blast
    show "has_owner db' w'"
      by (rule has_owner_write [OF q(1,2) _ T act]) (simp add: q(3))
  qed
qed

lemma delete_workspace_effect:
  assumes "delete_workspace actor w db = Inr db'"
  shows "\<exists>x q. require_workspace_role db actor w MANAGER_ROLES = Inr (x, q) \<and> \<not> ws_is_personal x \<and>
    (\<exists>x' \<in> set (workspaces db). ws_id x' = w \<and>
       workspaces db' = write_row ws_id (x'\<lparr>ws_deleted := True\<rparr>) (workspaces db)) \<and>
    memberships db' = update_where (\<lambda>m. mb_workspace_id m = w \<and> \<not> mb_deleted m)
      (\<lambda>m. m\<lparr>mb_deleted := True\<rparr>) (memberships db) \<and>
    invitations db' = update_where (\<lambda>v. iv_workspace_id v = w \<and> \<not> iv_deleted v)
      (\<lambda>v. v\<lparr>iv_deleted := True\<rparr>) (invitations db) \<and>
    users db' = update_where (\<lambda>u. us_default_workspace_id u = Some w)
      (\<lambda>u. u\<lparr>us_default_workspace_id := None\<rparr>) (users db)"
proof -
  obtain x q x' where x: "require_workspace_role db actor w MANAGER_ROLES = Inr (x, q)" "\<not> ws_is_personal x"
    and x': "get_workspace_or_raise db w False = Inr x'"
    and db': "db' = db\<lparr>workspaces := write_row ws_id (x'\<lparr>ws_deleted := True\<rparr>) (workspaces db),
               memberships := update_where (\<lambda>m. mb_workspace_id m = w \<and> \<not> mb_deleted m)
                 (\<lambda>m. m\<lparr>mb_deleted := True\<rparr>) (memberships db),
               invitations := update_where (\<lambda>v. iv_workspace_id v = w \<and> \<not> iv_deleted v)
                 (\<lambda>v. v\<lparr>iv_deleted := True\<rparr>) (invitations db),
               users := update_where (\<lambda>u. us_default_workspace_id u = Some w)
                 (\<lambda>u. u\<lparr>us_default_workspace_id := None\<rparr>) (users db),
               ws_log := ws_log db @ [AuditEntry w ''delete'' ''workspace'' w actor]\<rparr>"
    using assms by (auto simp: delete_workspace_def bind_result_Inr split: if_splits)
  have row: "x' \<in> set (workspaces db)" "ws_id x' = w"
    using x' by (auto simp: get_workspace_or_raise_def split: option.splits dest!: find_SomeD)
  show ?thesis by (rule exI [of _ x], rule exI [of _ q]) (use x row in \<open>auto simp: db'\<close>)
qed

lemma mb_keys_update_where:
  assumes "\<And>m. mb_id (f m) = mb_id m \<and> mb_workspace_id (f m) = mb_workspace_id m \<and> mb_user_id (f m) = mb_user_id m"
  shows "mb_keys (update_where P f T) = mb_keys T"
proof -
  have "map mb_id (update_where P f T) = map mb_id T"
    by (induction T) (simp_all add: assms)
  moreover have "map (\<lambda>m. (mb_workspace_id m, mb_user_id m)) (update_where P f T) =
      map (\<lambda>m. (mb_workspace_id m, mb_user_id m)) T"
    by (induction T) (simp_all add: assms)
  ultimately show ?thesis by (simp add: mb_keys_def)
qed

lemma delete_workspace_inv:
  assumes inv: "ws_inv db" and op: "delete_workspace actor w db = Inr db'"
  shows "ws_inv db'"
proof -
  obtain x where x: "x \<in> set (workspaces db)" "ws_id x = w"
    and W: "workspaces db' = write_row ws_id (x\<lparr>ws_deleted := True\<rparr>) (workspaces db)"
    and M: "memberships db' = update_where (\<lambda>m. mb_workspace_id m = w \<and> \<not> mb_deleted m)
      (\<lambda>m. m\<lparr>mb_deleted := True\<rparr>) (memberships db)"
    and I: "invitations db' = update_where (\<lambda>v. iv_workspace_id v = w \<and> \<not> iv_deleted v)
      (\<lambda>v. v\<lparr>iv_deleted := True\<rparr>) (invitations db)"
    and U: "users db' = update_where (\<lambda>u. us_default_workspace_id u = Some w)
      (\<lambda>u. u\<lparr>us_default_workspace_id := None\<rparr>) (users db)"
    using delete_workspace_effect [OF op] by blast
  have keys: "mb_keys (memberships db)" "inv_keys (invitations db)" "distinct (map ws_id (workspaces db))"
      "distinct (map ws_slug (workspaces db))"
    using inv by (simp_all add: ws_inv_def ws_keys_split)
  have act: "user_is_active db' = user_is_active db"
    by (rule user_is_active_cong, rule disjI2, intro exI conjI, rule U) simp
  have slugs: "map ws_slug (workspaces db') = map ws_slug (workspaces db)"
    unfolding W by (rule map_write_row_same [OF keys(3) x(1)]) simp_all
  have "ws_keys db'"
    unfolding ws_keys_split slugs
    using keys inv_keys_soft_delete [OF keys(2)] by (simp add: W M I mb_keys_update_where)
  moreover have "has_owner db' (ws_id y)" if y: "y \<in> set (workspaces db')" and live: "\<not> ws_deleted y" for y
  proof -
    from y live have old: "y \<in> set (workspaces db)" "ws_id y \<noteq> w"
      unfolding W in_write_row using x(2) by auto
    then obtain m where m: "m \<in> set (memberships db)" "active_owner db (ws_id y) m"
      using inv live unfolding ws_inv_def has_owner_def by blast
    then have "m \<in> set (memberships db')"
      unfolding M in_update_where by (intro bexI [of _ m]) (use m old(2) in \<open>simp_all add: active_owner_def\<close>)
    then show ?thesis using m(2) active_owner_cong [OF act] by (auto simp: has_owner_def)
  qed
  ultimately show ?thesis by (auto simp: ws_inv_def)
qed

section \<open>Invitations\<close>

lemma delete_invitation_effect:
  assumes "delete_invitation actor w i db = Inr db'"
  shows "\<exists>x q v. require_workspace_role db actor w MANAGER_ROLES = Inr (x, q) \<and> \<not> ws_is_personal x \<and>
    v \<in> set (invitations db) \<and> iv_id v = i \<and> iv_workspace_id v = w \<and> \<not> iv_deleted v \<and>
    invitations db' = write_row iv_id (v\<lparr>iv_deleted := True\<rparr>) (invitations db) \<and>
    workspaces db' = workspaces db \<and> memberships db' = memberships db \<and> users db' = users db"
  using assms
  by (auto simp: delete_invitation_def bind_result_Inr ensure_team_workspace_def
      split: if_splits dest!: get_invitation_or_raise_Inr)

lemma delete_invitation_inv:
  assumes inv: "ws_inv db" and op: "delete_invitation actor w i db = Inr db'"
  shows "ws_inv db'"
proof -
  obtain v where v: "v \<in> set (invitations db)"
    and I: "invitations db' = write_row iv_id (v\<lparr>iv_deleted := True\<rparr>) (invitations db)"
    and rest: "workspaces db' = workspaces db" "memberships db' = memberships db" "users db' = users db"
    using delete_invitation_effect [OF op] by blast
  have "inv_keys (invitations db)" using inv by (simp add: ws_inv_def ws_keys_split)
  then have "inv_keys (invitations db')" unfolding I
    by (rule inv_keys_write [OF _ v]) (simp_all add: pending_key_def pending_invitation_def)
  then show ?thesis by (rule ws_inv_invitations_only [OF inv rest])
qed

lemma create_invitation_effect:
  assumes "create_invitation now fresh th actor w email role days db = Inr (v, db')"
  shows "\<exists>x q db1. require_workspace_role db actor w MANAGER_ROLES = Inr (x, q) \<and> \<not> ws_is_personal x \<and>
    validate_email email = Inr () \<and>
    (db1 = db \<or> (\<exists>i. delete_invitation actor w i db = Inr db1)) \<and>
    iv_workspace_id v = w \<and> iv_email v = email \<and> iv_role v = role \<and> iv_invited_by v = actor \<and>
    iv_accepted_at v = None \<and> \<not> iv_deleted v \<and> iv_expires_at v = now + timedelta_days days \<and> iv_id v = fresh \<and>
    fresh \<notin> iv_id ` set (invitations db1) \<and>
    (\<forall>r \<in> set (invitations db1). pending_invitation r \<longrightarrow> pending_key r \<noteq> pending_key v) \<and>
    invitations db' = invitations db1 @ [v] \<and>
    workspaces db' = workspaces db1 \<and> memberships db' = memberships db1 \<and> users db' = users db1"
proof -
  obtain x q where x: "require_workspace_role db actor w MANAGER_ROLES = Inr (x, q)" "\<not> ws_is_personal x"
      and e: "validate_email email = Inr ()"
    using assms by (auto simp: create_invitation_def bind_result_Inr ensure_team_workspace_def split: if_splits)
  note body = assms [unfolded create_invitation_def x(1) bind_result_simps prod.case ensure_team_workspace_def
      if_not_P [OF x(2)] e Let_def]
  then obtain db1 where
    db1: "(case find (\<lambda>v. iv_workspace_id v = w \<and> citext_eq (iv_email v) email \<and> iv_accepted_at v = None \<and>
              \<not> iv_deleted v \<and> iv_expires_at v \<le> now) (invitations db) of
            None \<Rightarrow> Inr db | Some expired \<Rightarrow> delete_invitation actor w (iv_id expired) db) = Inr db1"
    and fin: "\<not> (fresh \<in> iv_id ` set (invitations db1) \<or> th \<in> iv_token_hash ` set (invitations db1) \<or>
        list_ex (\<lambda>r. iv_workspace_id r = w \<and> citext_eq (iv_email r) email \<and>
           iv_accepted_at r = None \<and> \<not> iv_deleted r) (invitations db1))"
      "v = \<lparr>iv_id = fresh, iv_workspace_id = w, iv_email = email, iv_role = role,
            iv_invited_by = actor, iv_token_hash = th, iv_expires_at = now + timedelta_days days,
            iv_accepted_at = None, iv_created_at = now, iv_deleted = False\<rparr>"
      "db' = db1\<lparr>invitations := invitations db1 @ [v],
              ws_log := ws_log db1 @ [AuditEntry w ''create'' ''invitation'' fresh actor,
                SecurityEntry ''workspace_invitation_created'' (Some w) actor]\<rparr>"
    by (auto simp: bind_result_Inr split: if_splits)
  have db1': "db1 = db \<or> (\<exists>i. delete_invitation actor w i db = Inr db1)"
    using db1 by (auto split: option.splits)
  have fresh: "\<forall>r \<in> set (invitations db1). pending_invitation r \<longrightarrow> pending_key r \<noteq> pending_key v"
    using fin(1) by (auto simp: list_ex_iff pending_invitation_def pending_key_def citext_eq_def fin(2))
  show ?thesis
    by (rule exI [of _ x], rule exI [of _ q], rule exI [of _ db1]) (use x e db1' fresh fin in simp)
qed

lemma create_invitation_inv:
  assumes inv: "ws_inv db" and op: "create_invitation now fresh th actor w email role days db = Inr (v, db')"
  shows "ws_inv db'"
proof -
  obtain db1 where db1: "db1 = db \<or> (\<exists>i. delete_invitation actor w i db = Inr db1)"
    and v: "iv_id v \<notin> iv_id ` set (invitations db1)"
      "\<forall>r \<in> set (invitations db1). pending_invitation r \<longrightarrow> pending_key r \<noteq> pending_key v"
    and rest: "invitations db' = invitations db1 @ [v]"
      "workspaces db' = workspaces db1" "memberships db' = memberships db1" "users db' = users db1"
    using create_invitation_effect [OF op] by blast
  have inv1: "ws_inv db1" using db1 inv delete_invitation_inv by blast
  then have "inv_keys (invitations db1)" by (simp add: ws_inv_def ws_keys_split)
  then have "inv_keys (invitations db')" unfolding rest(1)
    by (rule inv_keys_append [OF _ v(1)]) (use v(2) in blast)
  then show ?thesis by (rule ws_inv_invitations_only [OF inv1 rest(2-4)])
qed

lemma update_invitation_effect:
  assumes "update_invitation now actor w i sr se db = Inr (v', db')"
  shows "\<exists>x q v. require_workspace_role db actor w MANAGER_ROLES = Inr (x, q) \<and> \<not> ws_is_personal x \<and>
    v \<in> set (invitations db) \<and> iv_id v = i \<and> iv_workspace_id v = w \<and> pending_invitation v \<and>
    iv_id v' = iv_id v \<and> iv_workspace_id v' = w \<and> iv_email v' = iv_email v \<and>
    pending_invitation v' \<and>
    (db' = db \<or> invitations db' = write_row iv_id v' (invitations db) \<and>
       workspaces db' = workspaces db \<and> memberships db' = memberships db \<and> users db' = users db)"
proof -
  obtain x q v where x: "require_workspace_role db actor w MANAGER_ROLES = Inr (x, q)" "\<not> ws_is_personal x"
      and v: "get_invitation_or_raise db w i False = Inr v" and p: "ensure_invitation_is_pending v = Inr ()"
    using assms by (auto simp: update_invitation_def bind_result_Inr ensure_team_workspace_def split: if_splits)
  have row: "v \<in> set (invitations db) \<and> iv_id v = i \<and> iv_workspace_id v = w"
    using get_invitation_or_raise_Inr [OF v] by simp
  have pend: "pending_invitation v"
    using p by (auto simp: ensure_invitation_is_pending_def pending_invitation_def split: if_splits)
  have "iv_id v' = iv_id v \<and> iv_workspace_id v' = w \<and> iv_email v' = iv_email v \<and> pending_invitation v' \<and>
    (db' = db \<or> invitations db' = write_row iv_id v' (invitations db) \<and>
       workspaces db' = workspaces db \<and> memberships db' = memberships db \<and> users db' = users db)"
    using assms row pend
    by (auto simp: update_invitation_def x v p ensure_team_workspace_def bind_result_Inr pending_invitation_def
        split: option.splits if_splits)
  with x row pend show ?thesis by blast
qed

lemma update_invitation_inv:
  assumes inv: "ws_inv db" and op: "update_invitation now actor w i sr se db = Inr (v', db')"
  shows "ws_inv db'"
proof -
  obtain v where v: "v \<in> set (invitations db)" "iv_id v' = iv_id v" "pending_key v' = pending_key v" "pending_invitation v"
    and alt: "db' = db \<or> invitations db' = write_row iv_id v' (invitations db) \<and>
       workspaces db' = workspaces db \<and> memberships db' = memberships db \<and> users db' = users db"
    using update_invitation_effect [OF op] by (auto simp: pending_key_def)
  from alt show ?thesis
  proof
    assume c: "invitations db' = write_row iv_id v' (invitations db) \<and>
       workspaces db' = workspaces db \<and> memberships db' = memberships db \<and> users db' = users db"
    have "inv_keys (invitations db)" using inv by (simp add: ws_inv_def ws_keys_split)
    then have "inv_keys (invitations db')" unfolding conjunct1 [OF c]
      by (rule inv_keys_write [OF _ v(1-3)]) (simp add: v(4))
    then show ?thesis by (intro ws_inv_invitations_only [OF inv]) (use c in simp_all)
  qed (simp add: inv)
qed

section \<open>Acceptance\<close>

lemma accept_checks_Inr:
  assumes "accept_checks u v tv db = Inr x"
  shows "x \<in> set (workspaces db)" "ws_id x = iv_workspace_id v" "\<not> ws_deleted x"
    "normalized_email (us_email u) = normalized_email (iv_email v)" "normalized_email (us_email u) \<noteq> []"
    "tv \<or> (\<exists>a \<in> set (user_auths db). ua_user_id a = us_id u \<and> ua_email_verified a \<and> \<not> ua_deleted a \<and>
       citext_eq (ua_email a) (normalized_email (iv_email v)))"
  using assms
  by (auto simp: accept_checks_def get_verified_email_identity_def
      split: option.splits if_splits dest!: find_SomeD)

text \<open>
  A successful acceptance either finds an active membership and leaves the memberships alone, or
  gives the user exactly the role of a live invitation, on a restored or on a new row.
\<close>

lemma accept_invitation_effect:
  assumes "accept_invitation now fresh hr u v tv db = Inr (s, m', db')"
  shows "\<exists>x. accept_checks u v tv db = Inr x \<and> workspaces db' = workspaces db \<and> users db' = users db \<and>
    user_auths db' = user_auths db \<and>
    mb_workspace_id m' = ws_id x \<and> mb_user_id m' = us_id u \<and> \<not> mb_deleted m' \<and>
    (\<exists>t. invitations db' = write_row iv_id (v\<lparr>iv_accepted_at := Some t\<rparr>) (invitations db)) \<and>
    (s \<noteq> Accepted \<and> m' \<in> set (memberships db) \<and> memberships db' = memberships db \<or>
     s = Accepted \<and> iv_accepted_at v = None \<and> now < iv_expires_at v \<and> mb_role m' = iv_role v \<and>
     ((\<exists>m \<in> set (memberships db). mb_deleted m \<and> m' = m\<lparr>mb_deleted := False, mb_role := iv_role v\<rparr> \<and>
        memberships db' = write_row mb_id m' (memberships db)) \<or>
      (mb_id m' \<notin> mb_id ` set (memberships db) \<and>
       (\<forall>m \<in> set (memberships db). mb_workspace_id m = ws_id x \<longrightarrow> mb_user_id m \<noteq> us_id u) \<and>
       memberships db' = memberships db @ [m'])))"
proof -
  obtain x where x: "accept_checks u v tv db = Inr x"
    using assms by (auto simp: accept_invitation_def bind_result_Inr)
  note body = assms [unfolded accept_invitation_def x bind_result_simps Let_def]
  show ?thesis
  proof (cases "find (\<lambda>m. mb_workspace_id m = ws_id x \<and> mb_user_id m = us_id u) (memberships db)")
    case None
    then have "\<forall>m \<in> set (memberships db). mb_workspace_id m = ws_id x \<longrightarrow> mb_user_id m \<noteq> us_id u"
      by (simp add: find_None_iff)
    with body None x show ?thesis by (auto split: if_splits)
  next
    case (Some m)
    then have m: "m \<in> set (memberships db)" "mb_workspace_id m = ws_id x" "mb_user_id m = us_id u"
      by (auto dest!: find_SomeD)
    note body' = body [unfolded Some option.case]
    show ?thesis
    proof (cases "mb_deleted m")
      case False
      with body' have "m' = m" "s \<noteq> Accepted" "db' = db\<lparr>invitations := write_row iv_id
          (v\<lparr>iv_accepted_at := Some (if_none (iv_accepted_at v) now)\<rparr>) (invitations db),
          ws_log := ws_log db @ acceptance_log hr u v\<rparr>"
        by (auto split: if_splits)
      with x m False show ?thesis by auto
    next
      case True
      with body' have "s = Accepted" "iv_accepted_at v = None" "now < iv_expires_at v"
        "m' = m\<lparr>mb_deleted := False, mb_role := iv_role v\<rparr>"
        "db' = db\<lparr>memberships := write_row mb_id m' (memberships db),
           invitations := write_row iv_id (v\<lparr>iv_accepted_at := Some now\<rparr>) (invitations db),
           ws_log := ws_log db @ acceptance_log hr u v\<rparr>"
        by (auto split: if_splits)
      with x m True show ?thesis by auto
    qed
  qed
qed

lemma accept_invitation_inv:
  assumes inv: "ws_inv db" and v: "v \<in> set (invitations db)"
    and op: "accept_invitation now fresh hr u v tv db = Inr (s, m', db')"
  shows "ws_inv db'"
proof -
  obtain x :: workspace and t where W: "workspaces db' = workspaces db" and U: "users db' = users db"
    and I: "invitations db' = write_row iv_id (v\<lparr>iv_accepted_at := Some t\<rparr>) (invitations db)"
    and m': "mb_workspace_id m' = ws_id x" "mb_user_id m' = us_id u"
    and alt: "memberships db' = memberships db \<or>
     (\<exists>m \<in> set (memberships db). mb_deleted m \<and> m' = m\<lparr>mb_deleted := False, mb_role := iv_role v\<rparr> \<and>
        memberships db' = write_row mb_id m' (memberships db)) \<or>
      (mb_id m' \<notin> mb_id ` set (memberships db) \<and>
       (\<forall>m \<in> set (memberships db). mb_workspace_id m = ws_id x \<longrightarrow> mb_user_id m \<noteq> us_id u) \<and>
       memberships db' = memberships db @ [m'])"
    using accept_invitation_effect [OF op]
    by (elim exE conjE) (rule that, assumption, assumption, assumption, assumption, assumption,
      erule disjE, elim conjE, rule disjI1, assumption, elim conjE, rule disjI2, assumption)
  have keys: "mb_keys (memberships db)" "inv_keys (invitations db)" and dist: "distinct (map mb_id (memberships db))"
    using inv by (simp_all add: ws_inv_def ws_keys_split mb_keys_def)
  have act: "user_is_active db' = user_is_active db" by (rule user_is_active_cong) (simp add: U)
  have inv': "inv_keys (invitations db')" unfolding I
    by (rule inv_keys_write [OF keys(2) v]) (simp_all add: pending_key_def pending_invitation_def)
  from alt consider (same) "memberships db' = memberships db"
    | (restore) m where "m \<in> set (memberships db)" "mb_deleted m" "m' = m\<lparr>mb_deleted := False, mb_role := iv_role v\<rparr>"
        "memberships db' = write_row mb_id m' (memberships db)"
    | (new) "mb_id m' \<notin> mb_id ` set (memberships db)"
        "\<forall>m \<in> set (memberships db). mb_workspace_id m = ws_id x \<longrightarrow> mb_user_id m \<noteq> us_id u"
        "memberships db' = memberships db @ [m']"
    by blast
  then show ?thesis
  proof cases
    case same
    show ?thesis by (rule ws_inv_invitations_only [OF inv W same U inv'])
  next
    case restore
    show ?thesis
    proof (rule ws_inv_same_workspaces [OF inv W _ inv'])
      show "mb_keys (memberships db')" unfolding restore(4)
        by (rule mb_keys_write [OF keys(1) restore(1)]) (simp_all add: restore(3))
      show "has_owner db' w'" if "has_owner db w'" for w'
        by (rule has_owner_write_nonowner [OF dist that restore(1) _ _ restore(4) act]) (simp_all add: restore)
    qed
  next
    case new
    show ?thesis
    proof (rule ws_inv_same_workspaces [OF inv W _ inv'])
      show "mb_keys (memberships db')" unfolding new(3)
        by (rule mb_keys_append [OF keys(1) new(1)]) (use new(2) m' in auto)
      show "has_owner db' w'" if "has_owner db w'" for w'
        by (rule has_owner_superset [OF that]) (auto simp: new(3) act)
    qed
  qed
qed

lemma record_failed_accept_tables:
  "workspaces (record_failed_accept hr u v db) = workspaces db"
  "memberships (record_failed_accept hr u v db) = memberships db"
  "invitations (record_failed_accept hr u v db) = invitations db"
  "users (record_failed_accept hr u v db) = users db"
  "user_auths (record_failed_accept hr u v db) = user_auths db"
  by (simp_all add: record_failed_accept_def)

lemma record_failed_accept_inv: "ws_inv db \<Longrightarrow> ws_inv (record_failed_accept hr u v db)"
  by (rule ws_inv_invitations_only)
    (simp_all add: record_failed_accept_tables ws_inv_def ws_keys_split)

lemma accept_found_invitation_inv:
  assumes inv: "ws_inv db" and found: "\<And>v. found = Some v \<Longrightarrow> v \<in> set (invitations db)"
  shows "ws_inv (snd (accept_found_invitation now fresh hr u tv found db))"
proof (cases found)
  case None
  then show ?thesis using inv by (simp add: accept_found_invitation_def record_failed_accept_inv)
next
  case (Some v)
  show ?thesis
  proof (cases "accept_invitation now fresh hr u v tv db")
    case (Inl e)
    with Some inv show ?thesis by (simp add: accept_found_invitation_def record_failed_accept_inv)
  next
    case (Inr r)
    obtain s m db' where r: "r = (s, m, db')" by (cases r)
    have "ws_inv db'" by (rule accept_invitation_inv [OF inv found [OF Some] Inr [unfolded r]])
    with Some Inr r show ?thesis by (simp add: accept_found_invitation_def)
  qed
qed

lemma accept_by_id_inv:
  "ws_inv db \<Longrightarrow> ws_inv (snd (accept_invitation_by_id now fresh hr u i db))"
  by (cases i)
    (auto simp: accept_invitation_by_id_def record_failed_accept_inv dest: find_SomeD
      intro!: accept_found_invitation_inv)

lemma accept_by_token_inv:
  "ws_inv db \<Longrightarrow> ws_inv (snd (accept_invitation_by_token h now fresh hr u t db))"
  by (auto simp: accept_invitation_by_token_def Let_def record_failed_accept_inv dest: find_SomeD
      intro!: accept_found_invitation_inv)

lemma accept_pending_loop_inv:
  assumes "ws_inv db" and "distinct (map iv_id vs)" and "set vs \<subseteq> set (invitations db)"
  shows "ws_inv (snd (accept_pending_loop now fresh hr u vs n db))"
  using assms
proof (induction vs arbitrary: n db)
  case Nil
  then show ?case by simp
next
  case (Cons v vs)
  show ?case
  proof (cases "accept_invitation now (fresh (iv_id v)) hr u v False db")
    case (Inl e)
    with Cons show ?thesis by simp
  next
    case (Inr r)
    obtain s m db' where r: "r = (s, m, db')" by (cases r)
    note op = Inr [unfolded r]
    have inv': "ws_inv db'" by (rule accept_invitation_inv [OF Cons.prems(1) _ op]) (use Cons.prems(3) in simp)
    obtain t where I: "invitations db' = write_row iv_id (v\<lparr>iv_accepted_at := Some t\<rparr>) (invitations db)"
      using accept_invitation_effect [OF op] by (elim exE conjE) (rule that)
    have "set vs \<subseteq> set (invitations db')"
    proof
      fix q
      assume q: "q \<in> set vs"
      with Cons.prems(2) have "iv_id q \<noteq> iv_id v" by (auto simp: image_iff)
      then show "q \<in> set (invitations db')" unfolding I in_write_row using q Cons.prems(3) by auto
    qed
    with Cons.IH [OF inv'] Cons.prems(2) have "ws_inv (snd (accept_pending_loop now fresh hr u vs (n + 1) db'))" by simp
    with op show ?thesis by simp
  qed
qed

lemma accept_pending_inv:
  assumes "ws_inv db"
  shows "ws_inv (snd (accept_pending_invitations_for_user now fresh unlocked hr u db))"
proof (cases "get_verified_email_identity db (us_id u) (us_email u)")
  case None
  with assms show ?thesis by (simp add: accept_pending_invitations_for_user_def)
next
  case (Some a)
  let ?vs = "filter (\<lambda>v. unlocked (iv_id v)) (sort_key iv_created_at
     (filter (\<lambda>v. citext_eq (iv_email v) (us_email u) \<and> iv_accepted_at v = None \<and>
        \<not> iv_deleted v \<and> iv_expires_at v > now) (invitations db)))"
  have "distinct (map iv_id (invitations db))" using assms by (simp add: ws_inv_def ws_keys_def)
  then have "distinct (map iv_id ?vs)"
    by (simp add: distinct_map inj_on_def distinct_filter)
  then have "ws_inv (snd (accept_pending_loop now fresh hr u ?vs 0 db))"
    by (rule accept_pending_loop_inv [OF assms]) auto
  with Some show ?thesis by (simp add: accept_pending_invitations_for_user_def)
qed

end
