(* ===== verification/Workspace_Events.thy ===== *)
theory Workspace_Events
  imports Workspace_Steps
begin

text \<open>
  Creating and changing workspaces keeps the invariant, and the events of the whole component with
  the interpretation of \<open>invariant_system\<close>.
\<close>

section \<open>Creating and changing workspaces\<close>

lemma insert_with_slug_Inserted:
  "insert_with_slug n k fresh base name personal stop T = Inserted x T' \<Longrightarrow>
     T' = T @ [x] \<and> ws_id x \<notin> ws_id ` set T \<and> ws_slug x \<notin> ws_slug ` set T \<and>
     ws_name x = name \<and> ws_is_personal x = personal \<and> \<not> ws_deleted x \<and>
     (\<exists>j. k \<le> j \<and> j < k + n \<and> ws_slug x = candidate_slug base j \<and> ws_id x = fresh j \<and>
        (stop \<longrightarrow> j = k))"
proof (induction n arbitrary: k)
  case 0
  then show ?case by simp
next
  case (Suc n)
  show ?case
  proof (cases "insert_workspace (new_workspace (fresh k) (candidate_slug base k) name personal) T")
    case (Some T1)
    with Suc.prems have "x = new_workspace (fresh k) (candidate_slug base k) name personal" "T' = T1"
      by (simp_all add: Let_def)
    with Some show ?thesis
      by (auto simp: insert_workspace_def new_workspace_def split: if_splits)
  next
    case None
    with Suc.prems have stop: "\<not> stop" and rec: "insert_with_slug n (k + 1) fresh base name personal stop T = Inserted x T'"
      by (simp_all add: Let_def split: if_splits)
    note IH = Suc.IH [OF rec]
    then obtain j where "k + 1 \<le> j" "j < k + 1 + n" "ws_slug x = candidate_slug base j" "ws_id x = fresh j" by blast
    then have "k \<le> j \<and> j < k + Suc n \<and> ws_slug x = candidate_slug base j \<and> ws_id x = fresh j \<and> (stop \<longrightarrow> j = k)"
      using stop by simp
    with IH show ?thesis by blast
  qed
qed

lemma add_owner_effect:
  assumes "add_owner now fresh u x T db = Inr db'"
  shows "workspaces db' = T \<and> memberships db' = memberships db @ [owner_membership now fresh (ws_id x) u] \<and>
    users db' = users db \<and> user_auths db' = user_auths db \<and> invitations db' = invitations db \<and>
    fresh \<notin> mb_id ` set (memberships db) \<and>
    (\<forall>m \<in> set (memberships db). mb_workspace_id m = ws_id x \<longrightarrow> mb_user_id m \<noteq> u)"
  using assms by (auto simp: add_owner_def split: if_splits)

lemma ws_inv_add_owner:
  assumes inv: "ws_inv db" and u: "user_is_active db u"
    and x: "ws_id x \<notin> ws_id ` set (workspaces db)" "ws_slug x \<notin> ws_slug ` set (workspaces db)"
    and op: "add_owner now fresh u x (workspaces db @ [x]) db = Inr db'"
  shows "ws_inv db'"
proof -
  let ?m = "owner_membership now fresh (ws_id x) u"
  note eff = add_owner_effect [OF op]
  have act: "user_is_active db' = user_is_active db" using eff by (simp add: user_is_active_cong)
  have keys: "mb_keys (memberships db)" "inv_keys (invitations db)" "distinct (map ws_id (workspaces db))"
      "distinct (map ws_slug (workspaces db))"
    using inv by (simp_all add: ws_inv_def ws_keys_split)
  have "mb_keys (memberships db @ [?m])"
    by (rule mb_keys_append [OF keys(1)]) (use eff in \<open>auto simp: owner_membership_def\<close>)
  with keys x eff have "ws_keys db'" by (simp add: ws_keys_split)
  moreover have "has_owner db' (ws_id y)" if "y \<in> set (workspaces db')" "\<not> ws_deleted y" for y
  proof (cases "y = x")
    case True
    have "?m \<in> set (memberships db')" using eff by simp
    moreover have "active_owner db' (ws_id y) ?m"
      using True u act by (simp add: active_owner_def owner_membership_def)
    ultimately show ?thesis by (auto simp: has_owner_def)
  next
    case False
    with that eff have "y \<in> set (workspaces db)" by simp
    with inv that(2) have "has_owner db (ws_id y)" by (auto simp: ws_inv_def)
    then show ?thesis by (rule has_owner_superset) (use eff act in auto)
  qed
  ultimately show ?thesis by (auto simp: ws_inv_def)
qed

lemma create_workspace_effect:
  assumes "create_workspace now fresh fm u name slug db = Inr (x, db')"
  shows "ws_id x \<notin> ws_id ` set (workspaces db) \<and> ws_slug x \<notin> ws_slug ` set (workspaces db) \<and>
    ws_name x = name \<and> \<not> ws_is_personal x \<and> \<not> ws_deleted x \<and>
    add_owner now fm u x (workspaces db @ [x]) db = Inr db'"
proof -
  let ?b = "let base = slugify (Some (or_string slug name)) 100 in if base = [] then ''workspace'' else base"
  obtain T where ins: "insert_with_slug 10 1 fresh ?b name False (slug \<noteq> None) (workspaces db) = Inserted x T"
    and own: "add_owner now fm u x T db = Inr db'"
    using assms by (auto simp: create_workspace_def Let_def bind_result_Inr split: slug_result.splits)
  from insert_with_slug_Inserted [OF ins] own show ?thesis by simp
qed

lemma create_workspace_inv:
  assumes "ws_inv db" and "user_is_active db u"
    and "create_workspace now fresh fm u name slug db = Inr (x, db')"
  shows "ws_inv db'"
  using create_workspace_effect [OF assms(3)] ws_inv_add_owner [OF assms(1,2)] by blast

lemma set_default_if_none_inv:
  assumes "ws_inv db"
  shows "ws_inv (db\<lparr>users := set_default_if_none u w (users db)\<rparr>)"
proof -
  have act: "user_is_active (db\<lparr>users := set_default_if_none u w (users db)\<rparr>) = user_is_active db"
    by (rule user_is_active_cong, rule disjI2, intro exI conjI)
      (auto simp: set_default_if_none_def)
  have keys: "mb_keys (memberships db)" "inv_keys (invitations db)"
    using assms by (simp_all add: ws_inv_def ws_keys_split)
  show ?thesis
  proof (rule ws_inv_same_workspaces [OF assms])
    fix w'
    assume "has_owner db w'"
    then show "has_owner (db\<lparr>users := set_default_if_none u w (users db)\<rparr>) w'"
      by (rule has_owner_superset) (simp_all add: act)
  qed (simp_all add: keys)
qed

lemma provision_effect:
  assumes "provision_personal_workspace ut now fresh fm u db = Inr (x, db')"
  shows "(personal_workspaces db u = [x] \<and> db' = db\<lparr>users := set_default_if_none u (ws_id x) (users db)\<rparr>) \<or>
    (personal_workspaces db u = [] \<and> ws_id x \<notin> ws_id ` set (workspaces db) \<and>
     ws_slug x \<notin> ws_slug ` set (workspaces db) \<and> ws_is_personal x \<and> \<not> ws_deleted x \<and>
     (\<exists>db1. add_owner now fm u x (workspaces db @ [x]) db = Inr db1 \<and>
        db' = db1\<lparr>users := set_default_if_none u (ws_id x) (users db1)\<rparr>))"
proof (cases "personal_workspaces db u")
  case Nil
  let ?b = "''personal-'' @ take 8 (ut u)"
  obtain T db1 where ins: "insert_with_slug 10 1 fresh ?b ''My Workspace'' True False (workspaces db) = Inserted x T"
    and own: "add_owner now fm u x T db = Inr db1"
    and db': "db' = db1\<lparr>users := set_default_if_none u (ws_id x) (users db1)\<rparr>"
    using assms Nil by (auto simp: provision_personal_workspace_def Let_def bind_result_Inr split: slug_result.splits)
  from insert_with_slug_Inserted [OF ins] own db' Nil show ?thesis by blast
next
  case (Cons y ys)
  with assms show ?thesis by (cases ys) (auto simp: provision_personal_workspace_def)
qed

lemma provision_inv:
  assumes "ws_inv db" and "user_is_active db u"
    and "provision_personal_workspace ut now fresh fm u db = Inr (x, db')"
  shows "ws_inv db'"
  using provision_effect [OF assms(3)]
proof
  assume "personal_workspaces db u = [x] \<and> db' = db\<lparr>users := set_default_if_none u (ws_id x) (users db)\<rparr>"
  then show ?thesis using set_default_if_none_inv [OF assms(1)] by simp
next
  assume "personal_workspaces db u = [] \<and> ws_id x \<notin> ws_id ` set (workspaces db) \<and>
     ws_slug x \<notin> ws_slug ` set (workspaces db) \<and> ws_is_personal x \<and> \<not> ws_deleted x \<and>
     (\<exists>db1. add_owner now fm u x (workspaces db @ [x]) db = Inr db1 \<and>
        db' = db1\<lparr>users := set_default_if_none u (ws_id x) (users db1)\<rparr>)"
  then obtain db1 where "ws_id x \<notin> ws_id ` set (workspaces db)" "ws_slug x \<notin> ws_slug ` set (workspaces db)"
    "add_owner now fm u x (workspaces db @ [x]) db = Inr db1"
    and db': "db' = db1\<lparr>users := set_default_if_none u (ws_id x) (users db1)\<rparr>" by blast
  from ws_inv_add_owner [OF assms(1,2) this(1-3)] show ?thesis
    unfolding db' by (rule set_default_if_none_inv)
qed

lemma update_shared_by_default_keeps:
  "update_shared_by_default p x = Inr y \<Longrightarrow>
     ws_id y = ws_id x \<and> ws_deleted y = ws_deleted x \<and> ws_is_personal y = ws_is_personal x \<and> ws_slug y = ws_slug x"
  by (auto simp: update_shared_by_default_def split: option.splits if_splits)

lemma update_default_model_keeps:
  "update_default_model catalog av p x = Inr y \<Longrightarrow>
     ws_id y = ws_id x \<and> ws_deleted y = ws_deleted x \<and> ws_is_personal y = ws_is_personal x \<and> ws_slug y = ws_slug x"
  by (auto simp: update_default_model_def bind_result_Inr split: option.splits if_splits)

lemma update_name_keeps:
  "update_name p x = Inr y \<Longrightarrow>
     ws_id y = ws_id x \<and> ws_deleted y = ws_deleted x \<and> ws_is_personal y = ws_is_personal x \<and> ws_slug y = ws_slug x"
  by (auto simp: update_name_def split: option.splits)

lemma update_slug_keeps:
  "update_slug p T x = Inr y \<Longrightarrow>
     ws_id y = ws_id x \<and> ws_deleted y = ws_deleted x \<and> ws_is_personal y = ws_is_personal x"
  by (auto simp: update_slug_def Let_def split: option.splits if_splits)

lemma update_workspace_effect:
  assumes "update_workspace catalog av u w p db = Inr (y, db')"
  shows "\<exists>x q. require_workspace_role db u w MANAGER_ROLES = Inr (x, q) \<and>
    ws_id y = w \<and> ws_deleted y = ws_deleted x \<and> ws_is_personal y = ws_is_personal x \<and>
    (db' = db \<or>
     (\<forall>z \<in> set (workspaces db). ws_slug z = ws_slug y \<longrightarrow> ws_id z = w) \<and>
     workspaces db' = write_row ws_id y (workspaces db) \<and> memberships db' = memberships db \<and>
     invitations db' = invitations db \<and> users db' = users db)"
proof -
  obtain x q x1 x2 x3 where x: "require_workspace_role db u w MANAGER_ROLES = Inr (x, q)"
    and x1: "update_shared_by_default p x = Inr x1" and x2: "update_default_model catalog av p x1 = Inr x2"
    and x3: "update_name p x2 = Inr x3" and x4: "update_slug p (workspaces db) x3 = Inr y"
    and alt: "db' = db \<or> (\<not> list_ex (\<lambda>z. ws_slug z = ws_slug y \<and> ws_id z \<noteq> ws_id y) (workspaces db) \<and>
      db' = db\<lparr>workspaces := write_row ws_id y (workspaces db),
              ws_log := ws_log db @ [AuditEntry w ''update'' ''workspace'' w u]\<rparr>)"
    using assms by (auto simp: update_workspace_def bind_result_Inr split: if_splits)
  have keep: "ws_id y = w" "ws_deleted y = ws_deleted x" "ws_is_personal y = ws_is_personal x"
    using update_slug_keeps [OF x4] update_name_keeps [OF x3] update_default_model_keeps [OF x2]
      update_shared_by_default_keeps [OF x1] require_workspace_role_Inr(2) [OF x] by simp_all
  from alt show ?thesis
  proof
    assume "db' = db"
    with x keep show ?thesis by blast
  next
    assume "\<not> list_ex (\<lambda>z. ws_slug z = ws_slug y \<and> ws_id z \<noteq> ws_id y) (workspaces db) \<and>
      db' = db\<lparr>workspaces := write_row ws_id y (workspaces db),
              ws_log := ws_log db @ [AuditEntry w ''update'' ''workspace'' w u]\<rparr>"
    then have "\<forall>z \<in> set (workspaces db). ws_slug z = ws_slug y \<longrightarrow> ws_id z = w"
      "workspaces db' = write_row ws_id y (workspaces db) \<and> memberships db' = memberships db \<and>
       invitations db' = invitations db \<and> users db' = users db"
      by (auto simp: list_ex_iff keep(1))
    with x keep show ?thesis by blast
  qed
qed

lemma distinct_slug_write:
  assumes "distinct (map ws_id T)" and "distinct (map ws_slug T)"
    and "\<And>z. z \<in> set T \<Longrightarrow> ws_slug z = ws_slug y \<Longrightarrow> ws_id z = ws_id y"
  shows "distinct (map ws_slug (write_row ws_id y T))"
  using assms
proof (induction T)
  case Nil
  then show ?case by (simp add: write_row_def)
next
  case (Cons z T)
  have rest: "distinct (map ws_slug (write_row ws_id y T))"
    by (rule Cons.IH) (use Cons.prems in simp_all)
  show ?case
  proof (cases "ws_id z = ws_id y")
    case True
    with Cons.prems(1) have other: "ws_id r \<noteq> ws_id y" if "r \<in> set T" for r
      using that by (auto simp: image_iff)
    then have same: "write_row ws_id y T = T" unfolding write_row_def by (intro update_where_none) simp
    have "ws_slug y \<notin> ws_slug ` set T"
    proof
      assume "ws_slug y \<in> ws_slug ` set T"
      then obtain r where "r \<in> set T" "ws_slug r = ws_slug y" by auto
      with Cons.prems(3) [of r] other [of r] show False by simp
    qed
    with True same Cons.prems(2) show ?thesis by (simp add: write_row_def)
  next
    case False
    have "ws_slug z \<notin> ws_slug ` set (write_row ws_id y T)"
    proof
      assume "ws_slug z \<in> ws_slug ` set (write_row ws_id y T)"
      then obtain r where r: "r \<in> set (write_row ws_id y T)" "ws_slug r = ws_slug z" by auto
      then have "r = y \<or> r \<in> set T" by (auto simp: in_write_row)
      then show False
      proof
        assume "r = y"
        with r(2) Cons.prems(3) [of z] False show False by simp
      next
        assume "r \<in> set T"
        with r(2) Cons.prems(2) show False by (auto simp: image_iff)
      qed
    qed
    with False rest show ?thesis by (simp add: write_row_def)
  qed
qed

lemma update_workspace_inv:
  assumes inv: "ws_inv db" and op: "update_workspace catalog av u w p db = Inr (y, db')"
  shows "ws_inv db'"
proof -
  obtain x q where x: "require_workspace_role db u w MANAGER_ROLES = Inr (x, q)"
    and y: "ws_id y = w" "ws_deleted y = ws_deleted x"
    and alt: "db' = db \<or>
     (\<forall>z \<in> set (workspaces db). ws_slug z = ws_slug y \<longrightarrow> ws_id z = w) \<and>
     workspaces db' = write_row ws_id y (workspaces db) \<and> memberships db' = memberships db \<and>
     invitations db' = invitations db \<and> users db' = users db"
    using update_workspace_effect [OF op] by blast
  from alt show ?thesis
  proof
    assume c: "(\<forall>z \<in> set (workspaces db). ws_slug z = ws_slug y \<longrightarrow> ws_id z = w) \<and>
     workspaces db' = write_row ws_id y (workspaces db) \<and> memberships db' = memberships db \<and>
     invitations db' = invitations db \<and> users db' = users db"
    then have W: "workspaces db' = write_row ws_id y (workspaces db)" by blast
    have act: "user_is_active db' = user_is_active db" using c by (simp add: user_is_active_cong)
    have keys: "mb_keys (memberships db)" "inv_keys (invitations db)" "distinct (map ws_id (workspaces db))"
      "distinct (map ws_slug (workspaces db))"
      using inv by (simp_all add: ws_inv_def ws_keys_split)
    have "distinct (map ws_slug (workspaces db'))"
      unfolding W by (rule distinct_slug_write [OF keys(3,4)]) (use c y(1) in blast)
    with keys c have "ws_keys db'" by (simp add: ws_keys_split)
    moreover have "has_owner db' (ws_id z)" if z: "z \<in> set (workspaces db')" and live: "\<not> ws_deleted z" for z
    proof -
      have "\<exists>z0 \<in> set (workspaces db). ws_id z0 = ws_id z \<and> \<not> ws_deleted z0"
      proof (cases "z = y")
        case True
        with live y require_workspace_role_Inr(1-3) [OF x] show ?thesis by auto
      next
        case False
        with z W have "z \<in> set (workspaces db)" by (auto simp: in_write_row)
        with live show ?thesis by blast
      qed
      then obtain z0 where "z0 \<in> set (workspaces db)" "ws_id z0 = ws_id z" "\<not> ws_deleted z0" by blast
      with inv have "has_owner db (ws_id z)" by (auto simp: ws_inv_def)
      then show ?thesis by (rule has_owner_superset) (use c act in simp_all)
    qed
    ultimately show ?thesis by (auto simp: ws_inv_def)
  qed (simp add: inv)
qed

section \<open>Events\<close>

datatype ws_event =
    CreateWorkspace timestamp "nat \<Rightarrow> uuid" uuid uuid string "string option"
  | ProvisionPersonal "uuid \<Rightarrow> string" timestamp "nat \<Rightarrow> uuid" uuid uuid
  | UpdateWorkspace "model_info list" "model_info \<Rightarrow> bool" uuid uuid workspace_update
  | DeleteWorkspace uuid uuid
  | CreateMembership timestamp uuid uuid uuid uuid workspace_role
  | UpdateMembership uuid uuid uuid workspace_role
  | DeleteMembership "uuid \<Rightarrow> bool" uuid uuid uuid
  | CreateInvitation timestamp uuid string uuid uuid string workspace_role int
  | UpdateInvitation timestamp uuid uuid uuid "workspace_role option option" "timestamp option option"
  | DeleteInvitation uuid uuid uuid
  | AcceptById timestamp uuid bool uuid "uuid option"
  | AcceptByToken "string \<Rightarrow> string" timestamp uuid bool uuid string
  | AcceptPending timestamp "uuid \<Rightarrow> uuid" "uuid \<Rightarrow> bool" bool uuid

fun ws_actor :: "ws_event \<Rightarrow> uuid" where
  "ws_actor (CreateWorkspace _ _ _ u _ _) = u"
| "ws_actor (ProvisionPersonal _ _ _ _ u) = u"
| "ws_actor (UpdateWorkspace _ _ u _ _) = u"
| "ws_actor (DeleteWorkspace u _) = u"
| "ws_actor (CreateMembership _ _ u _ _ _) = u"
| "ws_actor (UpdateMembership u _ _ _) = u"
| "ws_actor (DeleteMembership _ u _ _) = u"
| "ws_actor (CreateInvitation _ _ _ u _ _ _ _) = u"
| "ws_actor (UpdateInvitation _ u _ _ _ _) = u"
| "ws_actor (DeleteInvitation u _ _) = u"
| "ws_actor (AcceptById _ _ _ u _) = u"
| "ws_actor (AcceptByToken _ _ _ _ u _) = u"
| "ws_actor (AcceptPending _ _ _ _ u) = u"

definition committed_ws :: "ws_db \<Rightarrow> app_error + 'a \<times> ws_db \<Rightarrow> ws_db" where
  "committed_ws db r = (case r of Inl e \<Rightarrow> db | Inr (_, db') \<Rightarrow> db')"

definition committed_ws_unit :: "ws_db \<Rightarrow> app_error + ws_db \<Rightarrow> ws_db" where
  "committed_ws_unit db r = (case r of Inl e \<Rightarrow> db | Inr db' \<Rightarrow> db')"

fun ws_apply :: "user \<Rightarrow> ws_db \<Rightarrow> ws_event \<Rightarrow> ws_db" where
  "ws_apply a db (CreateWorkspace now fresh fm u name slug) =
     committed_ws db (create_workspace now fresh fm u name slug db)"
| "ws_apply a db (ProvisionPersonal ut now fresh fm u) =
     committed_ws db (provision_personal_workspace ut now fresh fm u db)"
| "ws_apply a db (UpdateWorkspace catalog av u w p) = committed_ws db (update_workspace catalog av u w p db)"
| "ws_apply a db (DeleteWorkspace u w) = committed_ws_unit db (delete_workspace u w db)"
| "ws_apply a db (CreateMembership now fresh u w uid role) =
     committed_ws db (create_membership now fresh u w uid role db)"
| "ws_apply a db (UpdateMembership u w i role) = committed_ws db (update_membership u w i role db)"
| "ws_apply a db (DeleteMembership sa u w i) = committed_ws_unit db (delete_membership sa u w i db)"
| "ws_apply a db (CreateInvitation now fresh th u w email role days) =
     committed_ws db (create_invitation now fresh th u w email role days db)"
| "ws_apply a db (UpdateInvitation now u w i sr se) = committed_ws db (update_invitation now u w i sr se db)"
| "ws_apply a db (DeleteInvitation u w i) = committed_ws_unit db (delete_invitation u w i db)"
| "ws_apply a db (AcceptById now fresh hr u i) = snd (accept_invitation_by_id now fresh hr a i db)"
| "ws_apply a db (AcceptByToken h now fresh hr u t) = snd (accept_invitation_by_token h now fresh hr a t db)"
| "ws_apply a db (AcceptPending now fresh unlocked hr u) =
     snd (accept_pending_invitations_for_user now fresh unlocked hr a db)"

definition ws_step :: "ws_db \<Rightarrow> ws_event \<Rightarrow> ws_db" where
  "ws_step db e =
     (case get_user_or_raise db (ws_actor e) of
        Inl _ \<Rightarrow> db
      | Inr a \<Rightarrow> ws_apply a db e)"

lemma committed_ws_inv: "ws_inv db \<Longrightarrow> (\<And>x db'. r = Inr (x, db') \<Longrightarrow> ws_inv db') \<Longrightarrow> ws_inv (committed_ws db r)"
  by (auto simp: committed_ws_def split: sum.splits)

lemma committed_ws_unit_inv: "ws_inv db \<Longrightarrow> (\<And>db'. r = Inr db' \<Longrightarrow> ws_inv db') \<Longrightarrow> ws_inv (committed_ws_unit db r)"
  by (auto simp: committed_ws_unit_def split: sum.splits)

lemma get_user_or_raise_Inr:
  "get_user_or_raise db u = Inr a \<Longrightarrow>
     a \<in> set (users db) \<and> us_id a = u \<and> \<not> us_deleted a \<and> us_is_active a \<and> user_is_active db u"
  by (auto simp: get_user_or_raise_def user_is_active_def list_ex_iff split: option.splits dest!: find_SomeD)

lemma ws_apply_inv:
  assumes "ws_inv db" and "user_is_active db (ws_actor e)"
  shows "ws_inv (ws_apply a db e)"
  using assms
  by (cases e)
    (simp_all add: accept_by_id_inv accept_by_token_inv accept_pending_inv,
     auto intro!: committed_ws_inv committed_ws_unit_inv
      intro: create_workspace_inv provision_inv update_workspace_inv delete_workspace_inv
        create_membership_inv update_membership_inv delete_membership_inv create_invitation_inv
        update_invitation_inv delete_invitation_inv)

lemma ws_step_inv: "ws_inv db \<Longrightarrow> ws_inv (ws_step db e)"
  by (auto simp: ws_step_def split: sum.splits dest!: get_user_or_raise_Inr intro: ws_apply_inv)

interpretation ws_system: invariant_system ws_step ws_inv
  by unfold_locales (rule ws_step_inv)

end
