(* ===== verification/Workspace_Rules.thy ===== *)
theory Workspace_Rules
  imports Workspace_Events
begin

text \<open>
  Two rules of the component that hold for every event: who may change a membership, and that an
  accepted invitation stays accepted.
\<close>

section \<open>Who may change a membership\<close>

text \<open>\<open>invited db a m\<close>: a live invitation of the database, addressed to the user, with the row's role.\<close>

definition invited :: "ws_db \<Rightarrow> uuid \<Rightarrow> membership \<Rightarrow> bool" where
  "invited db a m \<longleftrightarrow> mb_user_id m = a \<and> \<not> mb_deleted m \<and>
     (\<exists>u \<in> set (users db). \<exists>v \<in> set (invitations db). us_id u = a \<and> \<not> iv_deleted v \<and> iv_accepted_at v = None \<and>
        iv_workspace_id v = mb_workspace_id m \<and> iv_role v = mb_role m \<and>
        normalized_email (us_email u) = normalized_email (iv_email v))"

definition change_allowed :: "ws_db \<Rightarrow> ws_event \<Rightarrow> membership \<Rightarrow> bool" where
  "change_allowed db e m \<longleftrightarrow>
     (\<exists>x q. require_workspace_role db (ws_actor e) (mb_workspace_id m) MANAGER_ROLES = Inr (x, q)) \<or>
     (mb_user_id m = ws_actor e \<and> mb_deleted m) \<or>
     (\<exists>sa w i. e = DeleteMembership sa (ws_actor e) w i \<and> sa (ws_actor e) \<and> mb_deleted m) \<or>
     invited db (ws_actor e) m \<or>
     (mb_user_id m = ws_actor e \<and> mb_role m = Owner \<and> mb_workspace_id m \<notin> ws_id ` set (workspaces db))"

lemma accept_change:
  assumes op: "accept_invitation now fresh hr u v tv db = Inr (s, q, db')"
    and m: "m \<in> set (memberships db')" "m \<notin> set (memberships db)"
  shows "mb_user_id m = us_id u \<and> \<not> mb_deleted m \<and> iv_accepted_at v = None \<and> now < iv_expires_at v \<and>
    iv_workspace_id v = mb_workspace_id m \<and> iv_role v = mb_role m \<and>
    normalized_email (us_email u) = normalized_email (iv_email v)"
proof -
  from accept_invitation_effect [OF op] obtain x where x: "accept_checks u v tv db = Inr x"
    and q: "mb_workspace_id q = ws_id x" "mb_user_id q = us_id u" "\<not> mb_deleted q"
    and alt: "s \<noteq> Accepted \<and> q \<in> set (memberships db) \<and> memberships db' = memberships db \<or>
     s = Accepted \<and> iv_accepted_at v = None \<and> now < iv_expires_at v \<and> mb_role q = iv_role v \<and>
     ((\<exists>m \<in> set (memberships db). mb_deleted m \<and> q = m\<lparr>mb_deleted := False, mb_role := iv_role v\<rparr> \<and>
        memberships db' = write_row mb_id q (memberships db)) \<or>
      (mb_id q \<notin> mb_id ` set (memberships db) \<and>
       (\<forall>m \<in> set (memberships db). mb_workspace_id m = ws_id x \<longrightarrow> mb_user_id m \<noteq> us_id u) \<and>
       memberships db' = memberships db @ [q]))"
    by (elim exE conjE) (rule that, assumption+)
  from alt m have "memberships db' \<noteq> memberships db" by auto
  with alt have v: "iv_accepted_at v = None" "now < iv_expires_at v" "mb_role q = iv_role v"
    and T: "memberships db' = write_row mb_id q (memberships db) \<or> memberships db' = memberships db @ [q]"
    by blast+
  from T m have "m = q" by (auto simp: in_write_row)
  with v q accept_checks_Inr(2,4) [OF x] show ?thesis by simp
qed

lemma accept_pending_loop_change:
  assumes "m \<in> set (memberships (snd (accept_pending_loop now fresh hr u vs n db)))"
    and "m \<notin> set (memberships db)"
  shows "\<exists>v \<in> set vs. mb_user_id m = us_id u \<and> \<not> mb_deleted m \<and> iv_accepted_at v = None \<and>
    iv_workspace_id v = mb_workspace_id m \<and> iv_role v = mb_role m \<and>
    normalized_email (us_email u) = normalized_email (iv_email v)"
  using assms
proof (induction vs arbitrary: n db)
  case Nil
  then show ?case by simp
next
  case (Cons v vs)
  show ?case
  proof (cases "accept_invitation now (fresh (iv_id v)) hr u v False db")
    case (Inl e)
    with Cons show ?thesis by auto
  next
    case (Inr r)
    obtain s q db' where r: "r = (s, q, db')" by (cases r)
    note op = Inr [unfolded r]
    from Cons.prems(1) op have last: "m \<in> set (memberships (snd (accept_pending_loop now fresh hr u vs (n + 1) db')))"
      by simp
    show ?thesis
    proof (cases "m \<in> set (memberships db')")
      case True
      from accept_change [OF op this Cons.prems(2)] show ?thesis by auto
    next
      case False
      from Cons.IH [OF last this] show ?thesis by auto
    qed
  qed
qed

lemma accept_found_change:
  assumes "m \<in> set (memberships (snd (accept_found_invitation now fresh hr u tv found db)))"
    and "m \<notin> set (memberships db)"
  shows "\<exists>v. found = Some v \<and> mb_user_id m = us_id u \<and> \<not> mb_deleted m \<and> iv_accepted_at v = None \<and>
    iv_workspace_id v = mb_workspace_id m \<and> iv_role v = mb_role m \<and>
    normalized_email (us_email u) = normalized_email (iv_email v)"
proof (cases found)
  case None
  with assms show ?thesis by (simp add: accept_found_invitation_def record_failed_accept_tables)
next
  case (Some v)
  show ?thesis
  proof (cases "accept_invitation now fresh hr u v tv db")
    case (Inl e)
    with assms Some show ?thesis
      by (simp add: accept_found_invitation_def record_failed_accept_tables split: if_splits)
  next
    case (Inr r)
    obtain s q db' where r: "r = (s, q, db')" by (cases r)
    from assms(1) Some Inr r have "m \<in> set (memberships db')" by (simp add: accept_found_invitation_def)
    from accept_change [OF Inr [unfolded r] this assms(2)] Some show ?thesis by blast
  qed
qed

lemma invitedI:
  assumes "a \<in> set (users db)" and "us_id a = u" and "v \<in> set (invitations db)" and "\<not> iv_deleted v"
    and "mb_user_id m = us_id a \<and> \<not> mb_deleted m \<and> iv_accepted_at v = None \<and>
      iv_workspace_id v = mb_workspace_id m \<and> iv_role v = mb_role m \<and>
      normalized_email (us_email a) = normalized_email (iv_email v)"
  shows "invited db u m"
  unfolding invited_def using assms by blast

lemma new_member_row:
  assumes "\<exists>P. T' = update_where P f T \<and> (\<forall>m. mb_id (f m) = mb_id m)" and "m \<in> set T'" and "m \<notin> set T"
  shows "\<exists>q \<in> set T. m = f q"
  using assms by (auto simp: in_update_where split: if_splits)

lemma ws_apply_change_allowed:
  assumes a: "a \<in> set (users db)" "us_id a = ws_actor e"
    and m: "m \<in> set (memberships (ws_apply a db e))" "m \<notin> set (memberships db)"
  shows "change_allowed db e m"
proof (cases e)
  case (CreateWorkspace now fresh fm u name slug)
  show ?thesis
  proof (cases "create_workspace now fresh fm u name slug db")
    case (Inr r)
    obtain x db' where r: "r = (x, db')" by (cases r)
    note eff = create_workspace_effect [OF Inr [unfolded r]]
    then have "memberships db' = memberships db @ [owner_membership now fm (ws_id x) u]"
      using add_owner_effect by blast
    with m CreateWorkspace Inr r have "m = owner_membership now fm (ws_id x) u" by (simp add: committed_ws_def)
    with eff CreateWorkspace show ?thesis by (simp add: change_allowed_def owner_membership_def)
  qed (use m CreateWorkspace in \<open>simp add: committed_ws_def\<close>)
next
  case (ProvisionPersonal ut now fresh fm u)
  show ?thesis
  proof (cases "provision_personal_workspace ut now fresh fm u db")
    case (Inr r)
    obtain x db' where r: "r = (x, db')" by (cases r)
    from m ProvisionPersonal Inr r have m': "m \<in> set (memberships db')" by (simp add: committed_ws_def)
    from provision_effect [OF Inr [unfolded r]] show ?thesis
    proof
      assume "personal_workspaces db u = [x] \<and> db' = db\<lparr>users := set_default_if_none u (ws_id x) (users db)\<rparr>"
      with m' m(2) show ?thesis by simp
    next
      assume c: "personal_workspaces db u = [] \<and> ws_id x \<notin> ws_id ` set (workspaces db) \<and>
        ws_slug x \<notin> ws_slug ` set (workspaces db) \<and> ws_is_personal x \<and> \<not> ws_deleted x \<and>
        (\<exists>db1. add_owner now fm u x (workspaces db @ [x]) db = Inr db1 \<and>
          db' = db1\<lparr>users := set_default_if_none u (ws_id x) (users db1)\<rparr>)"
      then obtain db1 where "add_owner now fm u x (workspaces db @ [x]) db = Inr db1"
        "memberships db' = memberships db1" by auto
      from add_owner_effect [OF this(1)] this(2) m' m(2) have "m = owner_membership now fm (ws_id x) u" by simp
      with c ProvisionPersonal show ?thesis by (simp add: change_allowed_def owner_membership_def)
    qed
  qed (use m ProvisionPersonal in \<open>simp add: committed_ws_def\<close>)
next
  case (UpdateWorkspace catalog av u w p)
  show ?thesis
  proof (cases "update_workspace catalog av u w p db")
    case (Inr r)
    obtain x db' where r: "r = (x, db')" by (cases r)
    have "memberships db' = memberships db" using update_workspace_effect [OF Inr [unfolded r]] by blast
    with m UpdateWorkspace Inr r show ?thesis by (simp add: committed_ws_def)
  qed (use m UpdateWorkspace in \<open>simp add: committed_ws_def\<close>)
next
  case (DeleteWorkspace u w)
  show ?thesis
  proof (cases "delete_workspace u w db")
    case (Inr db')
    from delete_workspace_effect [OF this] obtain x q where
      x: "require_workspace_role db u w MANAGER_ROLES = Inr (x, q)"
      and T: "memberships db' = update_where (\<lambda>m. mb_workspace_id m = w \<and> \<not> mb_deleted m)
      (\<lambda>m. m\<lparr>mb_deleted := True\<rparr>) (memberships db)" by blast
    from m DeleteWorkspace Inr have "m \<in> set (memberships db')" by (simp add: committed_ws_unit_def)
    with m(2) have "mb_workspace_id m = w" unfolding T by (auto simp: in_update_where split: if_splits)
    with x DeleteWorkspace show ?thesis by (auto simp: change_allowed_def)
  qed (use m DeleteWorkspace in \<open>simp add: committed_ws_unit_def\<close>)
next
  case (CreateMembership now fresh u w uid role)
  show ?thesis
  proof (cases "create_membership now fresh u w uid role db")
    case (Inr r)
    obtain q db' where r: "r = (q, db')" by (cases r)
    note eff = create_membership_effect [OF Inr [unfolded r]]
    from m CreateMembership Inr r have m': "m \<in> set (memberships db')" by (simp add: committed_ws_def)
    from eff have T: "memberships db' = write_row mb_id q (memberships db) \<or> memberships db' = memberships db @ [q]"
      by blast
    with m' m(2) have "m = q" by (auto simp: in_write_row)
    with eff CreateMembership show ?thesis by (auto simp: change_allowed_def)
  qed (use m CreateMembership in \<open>simp add: committed_ws_def\<close>)
next
  case (UpdateMembership u w i role)
  show ?thesis
  proof (cases "update_membership u w i role db")
    case (Inr r)
    obtain q db' where r: "r = (q, db')" by (cases r)
    from m UpdateMembership Inr r have m': "m \<in> set (memberships db')" by (simp add: committed_ws_def)
    from update_membership_effect [OF Inr [unfolded r]] obtain x p m0 where
      x: "require_workspace_role db u w MANAGER_ROLES = Inr (x, p)" and m0: "mb_workspace_id m0 = w"
      "q = m0\<lparr>mb_role := role\<rparr>" and T: "db' = db \<or> memberships db' = write_row mb_id q (memberships db)" by blast
    from T m' m(2) have "m = q" by (auto simp: in_write_row)
    with m0 x UpdateMembership show ?thesis by (auto simp: change_allowed_def)
  qed (use m UpdateMembership in \<open>simp add: committed_ws_def\<close>)
next
  case (DeleteMembership sa u w i)
  show ?thesis
  proof (cases "delete_membership sa u w i db")
    case (Inr db')
    from m DeleteMembership Inr have m': "m \<in> set (memberships db')" by (simp add: committed_ws_unit_def)
    from delete_membership_effect [OF Inr] obtain x p m0 where
      x: "require_workspace_role db u w READ_ROLES = Inr (x, p)" and m0: "mb_workspace_id m0 = w"
      and auth: "mb_user_id m0 = u \<or> mb_role p \<in> MANAGER_ROLES \<or> sa u"
      and T: "memberships db' = write_row mb_id (m0\<lparr>mb_deleted := True\<rparr>) (memberships db)" by blast
    from T m' m(2) have mm: "m = m0\<lparr>mb_deleted := True\<rparr>" by (auto simp: in_write_row)
    have "\<exists>x q. require_workspace_role db u w MANAGER_ROLES = Inr (x, q)" if "mb_role p \<in> MANAGER_ROLES"
      using x that by (auto simp: require_workspace_role_def split: option.splits if_splits)
    with auth mm m0 DeleteMembership show ?thesis by (auto simp: change_allowed_def)
  qed (use m DeleteMembership in \<open>simp add: committed_ws_unit_def\<close>)
next
  case (CreateInvitation now fresh th u w email role days)
  show ?thesis
  proof (cases "create_invitation now fresh th u w email role days db")
    case (Inr r)
    obtain q db' where r: "r = (q, db')" by (cases r)
    from create_invitation_effect [OF Inr [unfolded r]] obtain db1 where
      "db1 = db \<or> (\<exists>i. delete_invitation u w i db = Inr db1)" "memberships db' = memberships db1" by blast
    then have "memberships db' = memberships db" using delete_invitation_effect by fastforce
    with m CreateInvitation Inr r show ?thesis by (simp add: committed_ws_def)
  qed (use m CreateInvitation in \<open>simp add: committed_ws_def\<close>)
next
  case (UpdateInvitation now u w i sr se)
  show ?thesis
  proof (cases "update_invitation now u w i sr se db")
    case (Inr r)
    obtain q db' where r: "r = (q, db')" by (cases r)
    have "memberships db' = memberships db" using update_invitation_effect [OF Inr [unfolded r]] by blast
    with m UpdateInvitation Inr r show ?thesis by (simp add: committed_ws_def)
  qed (use m UpdateInvitation in \<open>simp add: committed_ws_def\<close>)
next
  case (DeleteInvitation u w i)
  show ?thesis
  proof (cases "delete_invitation u w i db")
    case (Inr db')
    have "memberships db' = memberships db" using delete_invitation_effect [OF Inr] by blast
    with m DeleteInvitation Inr show ?thesis by (simp add: committed_ws_unit_def)
  qed (use m DeleteInvitation in \<open>simp add: committed_ws_unit_def\<close>)
next
  case (AcceptById now fresh hr u i)
  show ?thesis
  proof (cases i)
    case None
    with m AcceptById show ?thesis by (simp add: accept_invitation_by_id_def record_failed_accept_tables)
  next
    case (Some k)
    let ?f = "find (\<lambda>v. iv_id v = k \<and> \<not> iv_deleted v) (invitations db)"
    from m Some AcceptById have "m \<in> set (memberships (snd (accept_found_invitation now fresh hr a False ?f db)))"
      by (simp add: accept_invitation_by_id_def)
    from accept_found_change [OF this m(2)] obtain v where v: "?f = Some v" and
      p: "mb_user_id m = us_id a \<and> \<not> mb_deleted m \<and> iv_accepted_at v = None \<and>
       iv_workspace_id v = mb_workspace_id m \<and> iv_role v = mb_role m \<and>
       normalized_email (us_email a) = normalized_email (iv_email v)" by blast
    from find_SomeD [OF v] have "v \<in> set (invitations db)" "\<not> iv_deleted v" by auto
    from invitedI [OF a this p] show ?thesis by (simp add: change_allowed_def)
  qed
next
  case (AcceptByToken h now fresh hr u t)
  let ?f = "find (\<lambda>v. iv_token_hash v = h (py_strip t) \<and> \<not> iv_deleted v) (invitations db)"
  show ?thesis
  proof (cases "py_strip t = []")
    case True
    with m AcceptByToken show ?thesis by (simp add: accept_invitation_by_token_def Let_def record_failed_accept_tables)
  next
    case False
    with m AcceptByToken have "m \<in> set (memberships (snd (accept_found_invitation now fresh hr a True ?f db)))"
      by (simp add: accept_invitation_by_token_def Let_def)
    from accept_found_change [OF this m(2)] obtain v where v: "?f = Some v" and
      p: "mb_user_id m = us_id a \<and> \<not> mb_deleted m \<and> iv_accepted_at v = None \<and>
       iv_workspace_id v = mb_workspace_id m \<and> iv_role v = mb_role m \<and>
       normalized_email (us_email a) = normalized_email (iv_email v)" by blast
    from find_SomeD [OF v] have "v \<in> set (invitations db)" "\<not> iv_deleted v" by auto
    from invitedI [OF a this p] show ?thesis by (simp add: change_allowed_def)
  qed
next
  case (AcceptPending now fresh unlocked hr u)
  let ?vs = "filter (\<lambda>v. unlocked (iv_id v)) (sort_key iv_created_at
     (filter (\<lambda>v. citext_eq (iv_email v) (us_email a) \<and> iv_accepted_at v = None \<and>
        \<not> iv_deleted v \<and> iv_expires_at v > now) (invitations db)))"
  from m AcceptPending have "m \<in> set (memberships (snd (accept_pending_loop now fresh hr a ?vs 0 db)))"
    by (auto simp: accept_pending_invitations_for_user_def split: option.splits)
  from accept_pending_loop_change [OF this m(2)] obtain v where v: "v \<in> set ?vs" and
    p: "mb_user_id m = us_id a \<and> \<not> mb_deleted m \<and> iv_accepted_at v = None \<and>
       iv_workspace_id v = mb_workspace_id m \<and> iv_role v = mb_role m \<and>
       normalized_email (us_email a) = normalized_email (iv_email v)" by blast
  from v have "v \<in> set (invitations db)" "\<not> iv_deleted v" by auto
  from invitedI [OF a this p] show ?thesis by (simp add: change_allowed_def)
qed

section \<open>An accepted invitation stays accepted\<close>

definition accepted_ids :: "ws_db \<Rightarrow> uuid set" where
  "accepted_ids db = iv_id ` {v \<in> set (invitations db). iv_accepted_at v \<noteq> None}"

lemma accepted_update_where:
  assumes "\<And>v. iv_id (f v) = iv_id v \<and> iv_accepted_at (f v) = iv_accepted_at v"
    and "invitations db' = update_where P f (invitations db)"
  shows "accepted_ids db \<subseteq> accepted_ids db'"
proof
  fix i
  assume "i \<in> accepted_ids db"
  then obtain v where v: "v \<in> set (invitations db)" "iv_accepted_at v \<noteq> None" "iv_id v = i"
    by (auto simp: accepted_ids_def)
  let ?v = "if P v then f v else v"
  have "?v \<in> set (invitations db')" unfolding assms(2) in_update_where using v(1) by blast
  moreover have "iv_accepted_at ?v \<noteq> None" "iv_id ?v = i" using v(2,3) assms(1) by simp_all
  ultimately show "i \<in> accepted_ids db'" unfolding accepted_ids_def by blast
qed

lemma accepted_write_row:
  assumes "v' \<in> set (invitations db) \<or> iv_id v' \<in> iv_id ` set (invitations db)"
    and "invitations db' = write_row iv_id v' (invitations db)"
    and "iv_accepted_at v' \<noteq> None \<or> iv_id v' \<notin> accepted_ids db"
  shows "accepted_ids db \<subseteq> accepted_ids db'"
proof
  fix i
  assume i: "i \<in> accepted_ids db"
  then obtain v where v: "v \<in> set (invitations db)" "iv_accepted_at v \<noteq> None" "iv_id v = i"
    by (auto simp: accepted_ids_def)
  show "i \<in> accepted_ids db'"
  proof (cases "iv_id v' = i")
    case True
    with i assms(3) have "iv_accepted_at v' \<noteq> None" by blast
    moreover have "v' \<in> set (invitations db')" unfolding assms(2) in_write_row using assms(1) by auto
    ultimately show ?thesis using True by (auto simp: accepted_ids_def)
  next
    case False
    with v have "v \<in> set (invitations db')" unfolding assms(2) in_write_row by auto
    with v(2,3) show ?thesis by (auto simp: accepted_ids_def)
  qed
qed

lemma accepted_ids_cong: "invitations db' = invitations db \<Longrightarrow> accepted_ids db' = accepted_ids db"
  by (simp add: accepted_ids_def)

lemma pending_not_accepted:
  assumes "distinct (map iv_id (invitations db))" and "v \<in> set (invitations db)" and "iv_accepted_at v = None"
  shows "iv_id v \<notin> accepted_ids db"
proof
  assume "iv_id v \<in> accepted_ids db"
  then obtain r where "r \<in> set (invitations db)" "iv_id r = iv_id v" "iv_accepted_at r \<noteq> None"
    by (auto simp: accepted_ids_def)
  with distinct_key_eq [OF assms(1) this(1) assms(2)] assms(3) show False by simp
qed

lemma accepted_accept:
  assumes "accept_invitation now fresh hr u v tv db = Inr (s, m, db')" and "v \<in> set (invitations db)"
  shows "accepted_ids db \<subseteq> accepted_ids db'"
proof -
  obtain t where "invitations db' = write_row iv_id (v\<lparr>iv_accepted_at := Some t\<rparr>) (invitations db)"
    using accept_invitation_effect [OF assms(1)] by (elim exE conjE) (rule that)
  then show ?thesis by (rule accepted_write_row [rotated]) (use assms(2) in auto)
qed

lemma accepted_found:
  assumes "\<And>v. found = Some v \<Longrightarrow> v \<in> set (invitations db)"
  shows "accepted_ids db \<subseteq> accepted_ids (snd (accept_found_invitation now fresh hr u tv found db))"
proof (cases found)
  case None
  have "accepted_ids (record_failed_accept hr u None db) = accepted_ids db"
    by (rule accepted_ids_cong) (rule record_failed_accept_tables)
  with None show ?thesis by (simp add: accept_found_invitation_def)
next
  case (Some v)
  show ?thesis
  proof (cases "accept_invitation now fresh hr u v tv db")
    case (Inl e)
    have "accepted_ids (record_failed_accept hr u (Some v) db) = accepted_ids db"
      by (rule accepted_ids_cong) (rule record_failed_accept_tables)
    with Inl Some show ?thesis by (simp add: accept_found_invitation_def)
  next
    case (Inr r)
    obtain s m db' where r: "r = (s, m, db')" by (cases r)
    from accepted_accept [OF Inr [unfolded r] assms [OF Some]] Some Inr r show ?thesis
      by (simp add: accept_found_invitation_def)
  qed
qed

lemma accepted_pending_loop:
  assumes "distinct (map iv_id vs)" and "set vs \<subseteq> set (invitations db)"
  shows "accepted_ids db \<subseteq> accepted_ids (snd (accept_pending_loop now fresh hr u vs n db))"
  using assms
proof (induction vs arbitrary: n db)
  case Nil
  then show ?case by simp
next
  case (Cons v vs)
  show ?case
  proof (cases "accept_invitation now (fresh (iv_id v)) hr u v False db")
    case (Inl e)
    with Cons show ?thesis by simp
  next
    case (Inr r)
    obtain s m db' where r: "r = (s, m, db')" by (cases r)
    note op = Inr [unfolded r]
    obtain t where I: "invitations db' = write_row iv_id (v\<lparr>iv_accepted_at := Some t\<rparr>) (invitations db)"
      using accept_invitation_effect [OF op] by (elim exE conjE) (rule that)
    have "set vs \<subseteq> set (invitations db')"
    proof
      fix q
      assume q: "q \<in> set vs"
      with Cons.prems(1) have "iv_id q \<noteq> iv_id v" by (auto simp: image_iff)
      then show "q \<in> set (invitations db')" unfolding I in_write_row using q Cons.prems(2) by auto
    qed
    with Cons.IH [of db' "n + 1"] Cons.prems(1)
    have "accepted_ids db' \<subseteq> accepted_ids (snd (accept_pending_loop now fresh hr u vs (n + 1) db'))" by simp
    moreover have "accepted_ids db \<subseteq> accepted_ids db'" by (rule accepted_accept [OF op]) (use Cons.prems(2) in simp)
    ultimately show ?thesis using op by simp
  qed
qed

lemma accepted_committed:
  "(\<And>x db'. r = Inr (x, db') \<Longrightarrow> accepted_ids db \<subseteq> accepted_ids db') \<Longrightarrow> accepted_ids db \<subseteq> accepted_ids (committed_ws db r)"
  by (auto simp: committed_ws_def split: sum.splits)

lemma accepted_committed_unit:
  "(\<And>db'. r = Inr db' \<Longrightarrow> accepted_ids db \<subseteq> accepted_ids db') \<Longrightarrow> accepted_ids db \<subseteq> accepted_ids (committed_ws_unit db r)"
  by (auto simp: committed_ws_unit_def split: sum.splits)

lemma accepted_delete_invitation:
  "delete_invitation u w i db = Inr db' \<Longrightarrow> distinct (map iv_id (invitations db)) \<Longrightarrow> accepted_ids db \<subseteq> accepted_ids db'"
proof -
  assume op: "delete_invitation u w i db = Inr db'" and dist: "distinct (map iv_id (invitations db))"
  from delete_invitation_effect [OF op] obtain v where v: "v \<in> set (invitations db)"
    and I: "invitations db' = write_row iv_id (v\<lparr>iv_deleted := True\<rparr>) (invitations db)" by blast
  show ?thesis by (rule accepted_write_row [OF _ I]) (use v pending_not_accepted [OF dist v] in auto)
qed

lemma ws_apply_accepted:
  assumes inv: "ws_inv db"
  shows "accepted_ids db \<subseteq> accepted_ids (ws_apply a db e)"
proof -
  have dist: "distinct (map iv_id (invitations db))" using inv by (simp add: ws_inv_def ws_keys_def)
  show ?thesis
  proof (cases e)
    case (CreateWorkspace now fresh fm u name slug)
    have "accepted_ids db \<subseteq> accepted_ids db'" if "create_workspace now fresh fm u name slug db = Inr (x, db')" for x db'
    proof -
      have own: "add_owner now fm u x (workspaces db @ [x]) db = Inr db'"
        using create_workspace_effect [OF that] by (elim conjE)
      have "invitations db' = invitations db" using add_owner_effect [OF own] by simp
      then show ?thesis by (simp add: accepted_ids_def)
    qed
    then show ?thesis unfolding CreateWorkspace ws_apply.simps by (rule accepted_committed)
  next
    case (ProvisionPersonal ut now fresh fm u)
    have "accepted_ids db \<subseteq> accepted_ids db'" if op: "provision_personal_workspace ut now fresh fm u db = Inr (x, db')" for x db'
    proof -
      have "invitations db' = invitations db" using provision_effect [OF op]
      proof (elim disjE conjE exE)
        fix db1
        assume "add_owner now fm u x (workspaces db @ [x]) db = Inr db1"
          "db' = db1\<lparr>users := set_default_if_none u (ws_id x) (users db1)\<rparr>"
        then show ?thesis using add_owner_effect by fastforce
      qed simp
      then show ?thesis by (simp add: accepted_ids_def)
    qed
    then show ?thesis unfolding ProvisionPersonal ws_apply.simps by (rule accepted_committed)
  next
    case (UpdateWorkspace catalog av u w p)
    have "accepted_ids db \<subseteq> accepted_ids db'" if "update_workspace catalog av u w p db = Inr (x, db')" for x db'
    proof -
      have "invitations db' = invitations db" using update_workspace_effect [OF that] by blast
      then show ?thesis by (simp add: accepted_ids_def)
    qed
    then show ?thesis unfolding UpdateWorkspace ws_apply.simps by (rule accepted_committed)
  next
    case (DeleteWorkspace u w)
    have "accepted_ids db \<subseteq> accepted_ids db'" if op: "delete_workspace u w db = Inr db'" for db'
    proof -
      have "invitations db' = update_where (\<lambda>v. iv_workspace_id v = w \<and> \<not> iv_deleted v)
        (\<lambda>v. v\<lparr>iv_deleted := True\<rparr>) (invitations db)" using delete_workspace_effect [OF op] by blast
      then show ?thesis by (rule accepted_update_where [rotated]) simp
    qed
    then show ?thesis unfolding DeleteWorkspace ws_apply.simps by (rule accepted_committed_unit)
  next
    case (CreateMembership now fresh u w uid role)
    have "accepted_ids db \<subseteq> accepted_ids db'" if op: "create_membership now fresh u w uid role db = Inr (x, db')" for x db'
    proof -
      obtain P where "invitations db' = update_where P (\<lambda>v. v\<lparr>iv_deleted := True\<rparr>) (invitations db)"
        using create_membership_effect [OF op] by blast
      then show ?thesis by (rule accepted_update_where [rotated]) simp
    qed
    then show ?thesis unfolding CreateMembership ws_apply.simps by (rule accepted_committed)
  next
    case (UpdateMembership u w i role)
    have "accepted_ids db \<subseteq> accepted_ids db'" if "update_membership u w i role db = Inr (x, db')" for x db'
    proof -
      have "invitations db' = invitations db" using update_membership_effect [OF that] by blast
      then show ?thesis by (simp add: accepted_ids_def)
    qed
    then show ?thesis unfolding UpdateMembership ws_apply.simps by (rule accepted_committed)
  next
    case (DeleteMembership sa u w i)
    have "accepted_ids db \<subseteq> accepted_ids db'" if "delete_membership sa u w i db = Inr db'" for db'
    proof -
      have "invitations db' = invitations db" using delete_membership_effect [OF that] by blast
      then show ?thesis by (simp add: accepted_ids_def)
    qed
    then show ?thesis unfolding DeleteMembership ws_apply.simps by (rule accepted_committed_unit)
  next
    case (CreateInvitation now fresh th u w email role days)
    have "accepted_ids db \<subseteq> accepted_ids db'" if op: "create_invitation now fresh th u w email role days db = Inr (v, db')" for v db'
    proof -
      obtain db1 where db1: "db1 = db \<or> (\<exists>i. delete_invitation u w i db = Inr db1)"
        and I: "invitations db' = invitations db1 @ [v]" using create_invitation_effect [OF op] by blast
      have "accepted_ids db \<subseteq> accepted_ids db1" using db1 accepted_delete_invitation dist by blast
      moreover have "accepted_ids db1 \<subseteq> accepted_ids db'" by (auto simp: accepted_ids_def I)
      ultimately show ?thesis by blast
    qed
    then show ?thesis unfolding CreateInvitation ws_apply.simps by (rule accepted_committed)
  next
    case (UpdateInvitation now u w i sr se)
    have "accepted_ids db \<subseteq> accepted_ids db'" if op: "update_invitation now u w i sr se db = Inr (v', db')" for v' db'
    proof -
      obtain v where v: "v \<in> set (invitations db)" "pending_invitation v" "iv_id v' = iv_id v"
        and alt: "db' = db \<or> invitations db' = write_row iv_id v' (invitations db)"
        using update_invitation_effect [OF op] by blast
      have "iv_id v' \<notin> accepted_ids db"
        using pending_not_accepted [OF dist v(1)] v(2,3) by (simp add: pending_invitation_def)
      then have new: "iv_accepted_at v' \<noteq> None \<or> iv_id v' \<notin> accepted_ids db" ..
      have old: "v' \<in> set (invitations db) \<or> iv_id v' \<in> iv_id ` set (invitations db)"
        using v(1,3) by simp
      from alt show ?thesis
      proof
        assume I: "invitations db' = write_row iv_id v' (invitations db)"
        show ?thesis by (rule accepted_write_row [OF old I new])
      qed simp
    qed
    then show ?thesis unfolding UpdateInvitation ws_apply.simps by (rule accepted_committed)
  next
    case (DeleteInvitation u w i)
    show ?thesis unfolding DeleteInvitation ws_apply.simps
      by (rule accepted_committed_unit) (rule accepted_delete_invitation [OF _ dist])
  next
    case (AcceptById now fresh hr u i)
    have "accepted_ids (record_failed_accept hr a None db) = accepted_ids db"
      by (rule accepted_ids_cong) (rule record_failed_accept_tables)
    then show ?thesis unfolding AcceptById ws_apply.simps accept_invitation_by_id_def
      by (cases i) (auto intro!: subsetD [OF accepted_found] dest: find_SomeD)
  next
    case (AcceptByToken h now fresh hr u t)
    have "accepted_ids (record_failed_accept hr a None db) = accepted_ids db"
      by (rule accepted_ids_cong) (rule record_failed_accept_tables)
    then show ?thesis unfolding AcceptByToken ws_apply.simps accept_invitation_by_token_def Let_def
      by (auto intro!: subsetD [OF accepted_found] dest: find_SomeD)
  next
    case (AcceptPending now fresh unlocked hr u)
    let ?vs = "filter (\<lambda>v. unlocked (iv_id v)) (sort_key iv_created_at
     (filter (\<lambda>v. citext_eq (iv_email v) (us_email a) \<and> iv_accepted_at v = None \<and>
        \<not> iv_deleted v \<and> iv_expires_at v > now) (invitations db)))"
    have "distinct (map iv_id ?vs)" using dist by (simp add: distinct_map inj_on_def)
    then have "accepted_ids db \<subseteq> accepted_ids (snd (accept_pending_loop now fresh hr a ?vs 0 db))"
      by (rule accepted_pending_loop) auto
    then show ?thesis unfolding AcceptPending ws_apply.simps accept_pending_invitations_for_user_def
      by (cases "get_verified_email_identity db (us_id a) (us_email a)") simp_all
  qed
qed

lemma ws_step_accepted: "ws_inv db \<Longrightarrow> accepted_ids db \<subseteq> accepted_ids (ws_step db e)"
  by (simp add: ws_step_def ws_apply_accepted split: sum.split)

lemma ws_run_accepted:
  assumes "ws_inv db"
  shows "accepted_ids db \<subseteq> accepted_ids (foldl ws_step db es)"
  using assms
proof (induction es arbitrary: db)
  case Nil
  then show ?case by simp
next
  case (Cons e es)
  from Cons.IH [OF ws_step_inv [OF Cons.prems]] ws_step_accepted [OF Cons.prems] show ?case by auto
qed

text \<open>What is accepted cannot be accepted again.\<close>

lemma accepted_not_again:
  assumes "ws_inv db" and "i \<in> accepted_ids db"
    and "v \<in> set (invitations db)" and "iv_id v = i" and "accept_invitation now fresh hr u v tv db = Inr (s, m, db')"
  shows "s \<noteq> Accepted"
proof -
  have dist: "distinct (map iv_id (invitations db))" using assms(1) by (simp add: ws_inv_def ws_keys_def)
  from pending_not_accepted [OF dist assms(3)] assms(2,4) have "iv_accepted_at v \<noteq> None" by blast
  with accept_invitation_effect [OF assms(5)] show ?thesis by blast
qed

end
