(* ===== verification/Slugs.thy ===== *)
theory Slugs
  imports Workspace_Provisioning
begin

text \<open>
  What \<^verbatim>\<open>slugify\<close> produces: the form of a slug, and that a text of this form is its own slug.
\<close>

section \<open>Slugs\<close>

lemma sub_runs_in_run: "P c \<Longrightarrow> sub_runs P True (c # cs) = sub_runs P True cs" by simp

definition slug_or_dash :: "char \<Rightarrow> bool" where
  "slug_or_dash c \<longleftrightarrow> slug_char c \<or> c = CHR ''-''"

lemma sub_runs_chars: "c \<in> set (sub_runs P b s) \<Longrightarrow> (c \<in> set s \<and> \<not> P c) \<or> c = CHR ''-''"
  by (induction P b s rule: sub_runs.induct) (auto split: if_splits)

fun no_double_dash :: "string \<Rightarrow> bool" where
  "no_double_dash (a # b # s) = (\<not> (a = CHR ''-'' \<and> b = CHR ''-'') \<and> no_double_dash (b # s))"
| "no_double_dash _ = True"

lemma no_double_dash_Cons:
  "no_double_dash (c # s) \<longleftrightarrow> no_double_dash s \<and> \<not> (c = CHR ''-'' \<and> s \<noteq> [] \<and> hd s = CHR ''-'')"
  by (cases s) auto

lemma sub_dash_runs:
  "no_double_dash (sub_runs (\<lambda>c. c = CHR ''-'') b s) \<and>
   (b \<longrightarrow> sub_runs (\<lambda>c. c = CHR ''-'') b s \<noteq> [] \<longrightarrow> hd (sub_runs (\<lambda>c. c = CHR ''-'') b s) \<noteq> CHR ''-'')"
  by (induction "\<lambda>c. c = CHR ''-''" b s rule: sub_runs.induct) (auto simp: no_double_dash_Cons)

lemma no_double_dash_append: "no_double_dash (s @ t) \<Longrightarrow> no_double_dash s \<and> no_double_dash t"
  by (induction s) (auto simp: no_double_dash_Cons)

lemma rstrip_dash_prefix: "\<exists>t. s = rstrip_dash s @ t \<and> (\<forall>c \<in> set t. c = CHR ''-'')"
proof (rule exI [of _ "rev (takeWhile (\<lambda>c. c = CHR ''-'') (rev s))"], rule conjI)
  have "rev s = takeWhile (\<lambda>c. c = CHR ''-'') (rev s) @ dropWhile (\<lambda>c. c = CHR ''-'') (rev s)" by simp
  then have "rev (rev s) = rev (takeWhile (\<lambda>c. c = CHR ''-'') (rev s) @ dropWhile (\<lambda>c. c = CHR ''-'') (rev s))"
    by (rule arg_cong)
  then show "s = rstrip_dash s @ rev (takeWhile (\<lambda>c. c = CHR ''-'') (rev s))"
    by (simp only: rev_append rev_rev_ident rstrip_dash_def)
  show "\<forall>c \<in> set (rev (takeWhile (\<lambda>c. c = CHR ''-'') (rev s))). c = CHR ''-''"
    by (auto dest: set_takeWhileD)
qed

lemma rstrip_dash_last: "rstrip_dash s \<noteq> [] \<Longrightarrow> last (rstrip_dash s) \<noteq> CHR ''-''"
  using hd_dropWhile [of "\<lambda>c. c = CHR ''-''" "rev s"] by (auto simp: rstrip_dash_def last_rev)

lemma rstrip_dash_id: "s = [] \<or> last s \<noteq> CHR ''-'' \<Longrightarrow> rstrip_dash s = s"
  by (cases s rule: rev_cases) (auto simp: rstrip_dash_def)

lemma set_rstrip_dash: "set (rstrip_dash s) \<subseteq> set s"
  using set_dropWhileD [of _ "\<lambda>c. c = CHR ''-''" "rev s"] by (auto simp: rstrip_dash_def)

lemma set_strip_dash: "set (strip_dash s) \<subseteq> set s"
  using set_rstrip_dash [of "dropWhile (\<lambda>c. c = CHR ''-'') s"] set_dropWhileD [of _ "\<lambda>c. c = CHR ''-''" s]
  unfolding strip_dash_def by blast

text \<open>\<open>slug_form n s\<close>: what \<^verbatim>\<open>slugify\<close> produces with a positive length limit \<open>n\<close>.\<close>

definition slug_form :: "nat \<Rightarrow> string \<Rightarrow> bool" where
  "slug_form n s \<longleftrightarrow> list_all slug_or_dash s \<and> no_double_dash s \<and> length s \<le> n \<and>
     (s \<noteq> [] \<longrightarrow> hd s \<noteq> CHR ''-'' \<and> last s \<noteq> CHR ''-'')"

lemma hd_rstrip_dash: "rstrip_dash s \<noteq> [] \<Longrightarrow> hd (rstrip_dash s) = hd s"
  using rstrip_dash_prefix [of s] by (metis hd_append2)

lemma rstrip_dash_take_form:
  assumes "list_all slug_or_dash s" and "no_double_dash s" and "s \<noteq> [] \<longrightarrow> hd s \<noteq> CHR ''-''"
  shows "slug_form n (rstrip_dash (take n s))"
proof -
  let ?r = "rstrip_dash (take n s)"
  obtain t where t: "take n s = ?r @ t" using rstrip_dash_prefix by blast
  then have s: "s = ?r @ t @ drop n s" by (metis append_assoc append_take_drop_id)
  have "list_all slug_or_dash ?r" using assms(1) s by (metis list_all_append)
  moreover have "no_double_dash ?r" using assms(2) s no_double_dash_append by metis
  moreover have "length ?r \<le> n" using t by (metis length_append le_add1 length_take min.cobounded2 order_trans)
  moreover have "hd ?r \<noteq> CHR ''-''" if r: "?r \<noteq> []"
  proof -
    have "take n s \<noteq> []"
    proof
      assume "take n s = []"
      then have "?r = []" by (simp only: rstrip_dash_def rev.simps dropWhile.simps)
      with r show False by contradiction
    qed
    then have "hd (take n s) = hd s \<and> s \<noteq> []" by (cases n; cases s) simp_all
    with hd_rstrip_dash [OF r] assms(3) show ?thesis by simp
  qed
  ultimately show ?thesis using rstrip_dash_last by (simp add: slug_form_def)
qed

lemma hd_strip_dash:
  assumes "strip_dash s \<noteq> []"
  shows "hd (strip_dash s) \<noteq> CHR ''-''"
proof -
  let ?d = "dropWhile (\<lambda>c. c = CHR ''-'') s"
  have n: "rstrip_dash ?d \<noteq> []" using assms unfolding strip_dash_def .
  have "?d \<noteq> []"
  proof
    assume "?d = []"
    then have "rstrip_dash ?d = []" by (simp only: rstrip_dash_def rev.simps dropWhile.simps)
    with n show False by contradiction
  qed
  then have "hd ?d \<noteq> CHR ''-''" by (rule hd_dropWhile)
  with hd_rstrip_dash [OF n] show ?thesis unfolding strip_dash_def by simp
qed

lemma slugify_form: "max_length > 0 \<Longrightarrow> slug_form (nat max_length) (slugify value max_length)"
proof -
  assume pos: "max_length > 0"
  let ?a = "sub_runs (\<lambda>c. \<not> slug_char c) False (py_lower (py_strip (or_string value [])))"
  let ?b = "sub_runs (\<lambda>c. c = CHR ''-'') False ?a"
  let ?c = "dropWhile (\<lambda>c. c = CHR ''-'') ?b"
  have a: "\<forall>c \<in> set ?a. slug_or_dash c" by (auto dest!: sub_runs_chars simp: slug_or_dash_def)
  then have b: "\<forall>c \<in> set ?b. slug_or_dash c" by (auto dest!: sub_runs_chars simp: slug_or_dash_def)
  have "?b = takeWhile (\<lambda>c. c = CHR ''-'') ?b @ ?c" by simp
  then have cd: "no_double_dash ?c" using sub_dash_runs [of False ?a] no_double_dash_append by metis
  obtain t where t: "?c = rstrip_dash ?c @ t" using rstrip_dash_prefix by blast
  have s1: "list_all slug_or_dash (strip_dash ?b)"
    unfolding list_all_iff using b set_strip_dash [of ?b] by blast
  have s2: "no_double_dash (strip_dash ?b)" unfolding strip_dash_def using cd t no_double_dash_append by metis
  have s3: "strip_dash ?b \<noteq> [] \<longrightarrow> hd (strip_dash ?b) \<noteq> CHR ''-''"
    using hd_strip_dash by blast
  from rstrip_dash_take_form [OF s1 s2 s3] pos show ?thesis by (simp add: slugify_def Let_def)
qed

lemma slug_or_dash_lower: "slug_or_dash c \<Longrightarrow> lower_char c = c"
proof -
  assume c: "slug_or_dash c"
  have "\<not> ((65 \<le> (of_char c :: nat) \<and> (of_char c :: nat) \<le> 90) \<or>
    (192 \<le> (of_char c :: nat) \<and> (of_char c :: nat) \<le> 222 \<and> (of_char c :: nat) \<noteq> 215))"
    using c by (auto simp: slug_or_dash_def slug_char_def Let_def)
  then show ?thesis unfolding lower_char_def Let_def by (rule if_not_P)
qed

lemma slug_or_dash_not_space: "slug_or_dash c \<Longrightarrow> \<not> py_space c"
  by (auto simp: slug_or_dash_def slug_char_def Let_def py_space_def)

lemma dropWhile_none: "(\<forall>c \<in> set s. \<not> P c) \<Longrightarrow> dropWhile P s = s"
  by (cases s) auto

lemma sub_runs_id:
  assumes "\<forall>c \<in> set s. P c \<longrightarrow> c = CHR ''-''" and "\<forall>c. c = CHR ''-'' \<longrightarrow> P c" and "no_double_dash s"
    and "b \<longrightarrow> (s = [] \<or> hd s \<noteq> CHR ''-'')"
  shows "sub_runs P b s = s"
  using assms
proof (induction P b s rule: sub_runs.induct)
  case (1 P b)
  then show ?case by simp
next
  case (2 P b c cs)
  have tl: "no_double_dash cs" "c = CHR ''-'' \<longrightarrow> cs = [] \<or> hd cs \<noteq> CHR ''-''"
    using "2.prems"(3) by (auto simp: no_double_dash_Cons)
  show ?case
  proof (cases "P c")
    case True
    with "2.prems"(1) have c: "c = CHR ''-''" by simp
    with "2.prems"(4) have b: "\<not> b" by simp
    have "sub_runs P True cs = cs"
    proof (rule "2.IH"(2) [OF True b])
      show "\<forall>c \<in> set cs. P c \<longrightarrow> c = CHR ''-''" using "2.prems"(1) by simp
    qed (use "2.prems"(2) tl c in simp_all)
    with True b c show ?thesis by simp
  next
    case False
    have "sub_runs P False cs = cs"
    proof (rule "2.IH"(3) [OF False])
      show "\<forall>c \<in> set cs. P c \<longrightarrow> c = CHR ''-''" using "2.prems"(1) by simp
    qed (use "2.prems"(2) tl in simp_all)
    with False show ?thesis by simp
  qed
qed

lemma slug_form_fixed:
  assumes s: "slug_form (nat max_length) s" and pos: "max_length > 0"
  shows "slugify (Some s) max_length = s"
proof -
  have chars: "\<forall>c \<in> set s. slug_or_dash c" and nd: "no_double_dash s" and len: "length s \<le> nat max_length"
    and ends: "s \<noteq> [] \<longrightarrow> hd s \<noteq> CHR ''-'' \<and> last s \<noteq> CHR ''-''"
    using s by (simp_all add: slug_form_def list_all_iff)
  have strip: "py_strip s = s"
    unfolding py_strip_def using chars slug_or_dash_not_space by (simp add: dropWhile_none)
  have lower: "py_lower s = s"
    unfolding py_lower_def using chars slug_or_dash_lower by (simp add: map_idI)
  have dash: "\<not> slug_char (CHR ''-'')" by (simp add: slug_char_def)
  have r1: "sub_runs (\<lambda>c. \<not> slug_char c) False s = s"
  proof (rule sub_runs_id)
    show "\<forall>c \<in> set s. \<not> slug_char c \<longrightarrow> c = CHR ''-''" using chars unfolding slug_or_dash_def by blast
    show "\<forall>c. c = CHR ''-'' \<longrightarrow> \<not> slug_char c" using dash by blast
  qed (simp_all add: nd)
  have r2: "sub_runs (\<lambda>c. c = CHR ''-'') False s = s"
    by (rule sub_runs_id) (simp_all add: nd)
  have d: "dropWhile (\<lambda>c. c = CHR ''-'') s = s" using ends by (cases s) auto
  have r: "rstrip_dash s = s" by (rule rstrip_dash_id) (use ends in auto)
  have "or_string (Some s) [] = s" by (simp add: or_string_def)
  then show ?thesis
    using pos len by (simp add: slugify_def Let_def strip lower r1 r2 strip_dash_def d r)
qed

end
