(* ===== verification/Workspace_Properties.thy ===== *)
theory Workspace_Properties
  imports Workspace_Rules Slugs
begin

text \<open>The properties of workspaces, memberships and invitations, with witnesses on a small database.\<close>

section \<open>A concrete database\<close>

definition sample_ws :: ws_db where
  "sample_ws =
     \<lparr>workspaces = [(new_workspace 21 ''acme'' ''Acme'' False), (new_workspace 22 ''personal-ann'' ''My Workspace'' True)],
      memberships =
        [owner_membership 1 41 21 31,
         \<lparr>mb_id = 42, mb_workspace_id = 21, mb_user_id = 32, mb_role = Admin, mb_created_at = 2, mb_deleted = False\<rparr>,
         owner_membership 1 43 22 31],
      invitations =
        [\<lparr>iv_id = 51, iv_workspace_id = 21, iv_email = ''Cy@x.io'', iv_role = Member, iv_invited_by = 31,
          iv_token_hash = ''h'', iv_expires_at = 100, iv_accepted_at = None, iv_created_at = 3, iv_deleted = False\<rparr>],
      users =
        [\<lparr>us_id = 31, us_email = ''ann@x.io'', us_is_active = True, us_default_workspace_id = Some 22, us_deleted = False\<rparr>,
         \<lparr>us_id = 32, us_email = ''bob@x.io'', us_is_active = True, us_default_workspace_id = None, us_deleted = False\<rparr>,
         \<lparr>us_id = 33, us_email = ''cy@x.io'', us_is_active = True, us_default_workspace_id = None, us_deleted = False\<rparr>],
      user_auths = [\<lparr>ua_user_id = 33, ua_email = ''cy@x.io'', ua_email_verified = True, ua_deleted = False\<rparr>],
      ws_log = []\<rparr>"

definition sample_cy :: user where
  "sample_cy = \<lparr>us_id = 33, us_email = ''cy@x.io'', us_is_active = True, us_default_workspace_id = None, us_deleted = False\<rparr>"

lemma sample_ws_inv: "ws_inv sample_ws"
  by (simp add: ws_inv_def ws_keys_def sample_ws_def owner_membership_def new_workspace_def has_owner_def
      active_owner_def user_is_active_def pending_invitation_def pending_key_def)

section \<open>Every workspace keeps an owner\<close>



section \<open>Who may change a membership\<close>




section \<open>Accepting an invitation\<close>

definition accept_outcome ::
    "timestamp \<Rightarrow> user \<Rightarrow> ws_db \<Rightarrow> (invitation \<Rightarrow> bool) \<Rightarrow> (app_error + accept_status \<times> membership) \<times> ws_db \<Rightarrow> bool" where
  "accept_outcome now u db found r = (case r of
     (Inl e, db') \<Rightarrow>
       workspaces db' = workspaces db \<and> memberships db' = memberships db \<and> invitations db' = invitations db \<and>
       users db' = users db \<and>
       (ws_log db' = ws_log db \<or>
        (\<exists>w. ws_log db' = ws_log db @ [SecurityEntry ''workspace_invitation_failed'' w (us_id u)]))
   | (Inr (s, m), db') \<Rightarrow>
       (\<exists>v \<in> set (invitations db). found v \<and> \<not> iv_deleted v \<and>
          normalized_email (us_email u) = normalized_email (iv_email v) \<and>
          m \<in> set (memberships db') \<and> mb_user_id m = us_id u \<and> mb_workspace_id m = iv_workspace_id v \<and>
          \<not> mb_deleted m \<and>
          (\<forall>q. mb_user_id q \<noteq> us_id u \<longrightarrow> (q \<in> set (memberships db') \<longleftrightarrow> q \<in> set (memberships db))) \<and>
          (if s = Accepted then iv_accepted_at v = None \<and> now < iv_expires_at v \<and> mb_role m = iv_role v
           else memberships db' = memberships db) \<and>
          iv_id v \<in> accepted_ids db'))"

lemma accept_memberships:
  assumes inv: "ws_inv db" and v: "v \<in> set (invitations db)"
    and op: "accept_invitation now fresh hr u v tv db = Inr (s, m, db')"
  shows "normalized_email (us_email u) = normalized_email (iv_email v) \<and>
    m \<in> set (memberships db') \<and> mb_user_id m = us_id u \<and> mb_workspace_id m = iv_workspace_id v \<and> \<not> mb_deleted m \<and>
    (\<forall>q. mb_user_id q \<noteq> us_id u \<longrightarrow> (q \<in> set (memberships db') \<longleftrightarrow> q \<in> set (memberships db))) \<and>
    (if s = Accepted then iv_accepted_at v = None \<and> now < iv_expires_at v \<and> mb_role m = iv_role v
     else memberships db' = memberships db) \<and>
    iv_id v \<in> accepted_ids db'"
proof -
  have dist: "distinct (map mb_id (memberships db))" using inv by (simp add: ws_inv_def ws_keys_def)
  from accept_invitation_effect [OF op] obtain x t where x: "accept_checks u v tv db = Inr x"
    and m: "mb_workspace_id m = ws_id x" "mb_user_id m = us_id u" "\<not> mb_deleted m"
    and I: "invitations db' = write_row iv_id (v\<lparr>iv_accepted_at := Some t\<rparr>) (invitations db)"
    and alt: "s \<noteq> Accepted \<and> m \<in> set (memberships db) \<and> memberships db' = memberships db \<or>
     s = Accepted \<and> iv_accepted_at v = None \<and> now < iv_expires_at v \<and> mb_role m = iv_role v \<and>
     ((\<exists>q \<in> set (memberships db). mb_deleted q \<and> m = q\<lparr>mb_deleted := False, mb_role := iv_role v\<rparr> \<and>
        memberships db' = write_row mb_id m (memberships db)) \<or>
      (mb_id m \<notin> mb_id ` set (memberships db) \<and>
       (\<forall>q \<in> set (memberships db). mb_workspace_id q = ws_id x \<longrightarrow> mb_user_id q \<noteq> us_id u) \<and>
       memberships db' = memberships db @ [m]))"
    by (elim exE conjE) (rule that, assumption+)
  have "v\<lparr>iv_accepted_at := Some t\<rparr> \<in> set (invitations db')" unfolding I in_write_row using v by simp
  then have acc: "iv_id v \<in> accepted_ids db'" unfolding accepted_ids_def
    by (intro image_eqI [of _ _ "v\<lparr>iv_accepted_at := Some t\<rparr>"]) simp_all
  have mem: "m \<in> set (memberships db') \<and>
    (\<forall>q. mb_user_id q \<noteq> us_id u \<longrightarrow> (q \<in> set (memberships db') \<longleftrightarrow> q \<in> set (memberships db)))"
  proof (cases "\<exists>q \<in> set (memberships db). m = q\<lparr>mb_deleted := False, mb_role := iv_role v\<rparr> \<and>
        memberships db' = write_row mb_id m (memberships db)")
    case True
    then obtain q where q: "q \<in> set (memberships db)" "m = q\<lparr>mb_deleted := False, mb_role := iv_role v\<rparr>"
      and T: "memberships db' = write_row mb_id m (memberships db)" by blast
    have "mb_user_id p = us_id u" if "p \<in> set (memberships db)" "mb_id p = mb_id m" for p
      using distinct_key_eq [OF dist that(1) q(1)] that(2) q(2) m(2) by simp
    then show ?thesis unfolding T in_write_row using q m(2) by auto
  next
    case False
    with alt have "m \<in> set (memberships db) \<and> memberships db' = memberships db \<or>
      memberships db' = memberships db @ [m]" by blast
    with m(2) show ?thesis by auto
  qed
  have fin: "if s = Accepted then iv_accepted_at v = None \<and> now < iv_expires_at v \<and> mb_role m = iv_role v
     else memberships db' = memberships db" using alt by auto
  from acc mem fin m accept_checks_Inr(2,4) [OF x] show ?thesis by simp
qed

lemma accept_outcome_refused: "accept_outcome now u db P (Inl e, record_failed_accept hr u v db)"
  by (simp add: accept_outcome_def record_failed_accept_def)

lemma accept_found_outcome:
  assumes inv: "ws_inv db" and found: "\<And>v. found = Some v \<Longrightarrow> v \<in> set (invitations db) \<and> P v \<and> \<not> iv_deleted v"
  shows "accept_outcome now u db P (accept_found_invitation now fresh hr u tv found db)"
proof (cases found)
  case None
  then show ?thesis by (simp add: accept_found_invitation_def accept_outcome_refused)
next
  case (Some v)
  show ?thesis
  proof (cases "accept_invitation now fresh hr u v tv db")
    case (Inl e)
    have "accept_outcome now u db P (Inl e, db)" by (simp add: accept_outcome_def)
    with Inl Some show ?thesis by (simp add: accept_found_invitation_def accept_outcome_refused)
  next
    case (Inr r)
    obtain s m db' where r: "r = (s, m, db')" by (cases r)
    have v: "v \<in> set (invitations db)" "P v" "\<not> iv_deleted v" using found [OF Some] by simp_all
    have "accept_outcome now u db P (Inr (s, m), db')"
      unfolding accept_outcome_def prod.case sum.case
      by (rule bexI [OF _ v(1)], intro conjI v(2,3)) (use accept_memberships [OF inv v(1) Inr [unfolded r]] in blast)+
    with Some Inr r show ?thesis by (simp add: accept_found_invitation_def)
  qed
qed

text \<open>
  Accepting by link. A refusal changes no table (only a security event may be added). A success
  found an invitation whose token the caller holds and whose address is the caller's, makes the
  caller an active member of its workspace, touches nobody else's membership, and marks the
  invitation accepted; it reports Accepted only for an invitation that was pending and unexpired,
  whose role the membership then has, and otherwise leaves the memberships as they were.
\<close>

theorem accept_by_token_guarantees:
  assumes "ws_inv db"
  shows "accept_outcome now u db (\<lambda>v. iv_token_hash v = h (py_strip token))
    (accept_invitation_by_token h now fresh hr u token db)"
proof (cases "py_strip token = []")
  case True
  then show ?thesis by (simp add: accept_invitation_by_token_def accept_outcome_refused)
next
  case False
  have "accept_outcome now u db (\<lambda>v. iv_token_hash v = h (py_strip token))
    (accept_found_invitation now fresh hr u True
      (find (\<lambda>v. iv_token_hash v = h (py_strip token) \<and> \<not> iv_deleted v) (invitations db)) db)"
    by (rule accept_found_outcome [OF assms]) (auto dest: find_SomeD)
  with False show ?thesis by (simp add: accept_invitation_by_token_def)
qed

theorem accept_by_token_guarantees_witness:
  "ws_inv sample_ws \<and>
   accept_outcome 10 sample_cy sample_ws (\<lambda>v. iv_token_hash v = py_strip '' h'')
     (accept_invitation_by_token (\<lambda>t. t) 10 77 True sample_cy '' h'' sample_ws)"
  using accept_by_token_guarantees [OF sample_ws_inv, of 10 sample_cy "\<lambda>t. t" "'' h''" 77 True] sample_ws_inv by blast

text \<open>
  Accepting from the list of invitations, without a token, gives the same guarantees, and never
  succeeds without a verified sign-in identity of the user for the invited address.
\<close>

theorem accept_by_id_guarantees:
  assumes "ws_inv db"
  shows "accept_outcome now u db (\<lambda>v. Some (iv_id v) = i) (accept_invitation_by_id now fresh hr u i db) \<and>
    (\<forall>s m. fst (accept_invitation_by_id now fresh hr u i db) = Inr (s, m) \<longrightarrow>
       (\<exists>v \<in> set (invitations db). Some (iv_id v) = i \<and>
         (\<exists>a \<in> set (user_auths db). ua_user_id a = us_id u \<and> ua_email_verified a \<and> \<not> ua_deleted a \<and>
            citext_eq (ua_email a) (normalized_email (iv_email v)))))"
proof (cases i)
  case None
  then show ?thesis by (simp add: accept_invitation_by_id_def accept_outcome_refused)
next
  case (Some k)
  let ?f = "find (\<lambda>v. iv_id v = k \<and> \<not> iv_deleted v) (invitations db)"
  have "accept_outcome now u db (\<lambda>v. Some (iv_id v) = i) (accept_found_invitation now fresh hr u False ?f db)"
    by (rule accept_found_outcome [OF assms]) (auto simp: Some dest: find_SomeD)
  moreover have "\<exists>v \<in> set (invitations db). Some (iv_id v) = i \<and>
         (\<exists>a \<in> set (user_auths db). ua_user_id a = us_id u \<and> ua_email_verified a \<and> \<not> ua_deleted a \<and>
            citext_eq (ua_email a) (normalized_email (iv_email v)))"
    if ok: "fst (accept_found_invitation now fresh hr u False ?f db) = Inr (s, m)" for s m
  proof -
    from ok obtain v db' where v: "?f = Some v" and op: "accept_invitation now fresh hr u v False db = Inr (s, m, db')"
      by (auto simp: accept_found_invitation_def split: option.splits sum.splits)
    then obtain x where "accept_checks u v False db = Inr x" by (auto simp: accept_invitation_def bind_result_Inr)
    from accept_checks_Inr(6) [OF this] find_SomeD [OF v] Some show ?thesis by blast
  qed
  ultimately show ?thesis using Some by (simp add: accept_invitation_by_id_def)
qed

theorem accept_by_id_guarantees_witness:
  "ws_inv sample_ws \<and>
   accept_outcome 10 sample_cy sample_ws (\<lambda>v. Some (iv_id v) = Some 51)
     (accept_invitation_by_id 10 77 True sample_cy (Some 51) sample_ws)"
  using accept_by_id_guarantees [OF sample_ws_inv, of 10 sample_cy "Some 51" 77 True] sample_ws_inv by blast

text \<open>
  An invitation admits one user once. After it has been accepted, no later acceptance of it, by
  link or from the list, reports Accepted again, whatever happened in between; so a member who was
  removed cannot return on a used invitation.
\<close>

theorem invitation_single_use:
  assumes "ws_inv db" and "i \<in> accepted_ids db"
    and "fst (accept_invitation_by_id now fresh hr u (Some i) (foldl ws_step db events)) = Inr (s, m)"
  shows "s \<noteq> Accepted"
proof -
  let ?db = "foldl ws_step db events"
  let ?f = "find (\<lambda>v. iv_id v = i \<and> \<not> iv_deleted v) (invitations ?db)"
  have inv: "ws_inv ?db" by (rule ws_system.run_inv [OF assms(1)])
  have acc: "i \<in> accepted_ids ?db" using ws_run_accepted [OF assms(1)] assms(2) by blast
  from assms(3) obtain v db' where v: "?f = Some v" and op: "accept_invitation now fresh hr u v False ?db = Inr (s, m, db')"
    by (auto simp: accept_invitation_by_id_def accept_found_invitation_def split: option.splits sum.splits)
  from find_SomeD [OF v] have "v \<in> set (invitations ?db)" "iv_id v = i" by simp_all
  then show ?thesis by (rule accepted_not_again [OF inv acc _ _ op])
qed

definition sample_used :: ws_db where
  "sample_used = sample_ws\<lparr>invitations := map (\<lambda>v. v\<lparr>iv_accepted_at := Some 9\<rparr>) (invitations sample_ws),
     memberships := memberships sample_ws @
       [\<lparr>mb_id = 44, mb_workspace_id = 21, mb_user_id = 33, mb_role = Member, mb_created_at = 9, mb_deleted = False\<rparr>]\<rparr>"

lemma sample_used_inv: "ws_inv sample_used"
  by (simp add: ws_inv_def ws_keys_def sample_used_def sample_ws_def owner_membership_def new_workspace_def
      has_owner_def active_owner_def user_is_active_def pending_invitation_def)

lemma sample_emails:
  "normalized_email ''Cy@x.io'' = ''cy@x.io''" "normalized_email ''cy@x.io'' = ''cy@x.io''"
  "citext_eq ''cy@x.io'' ''cy@x.io''"
  by code_simp+

lemma sample_used_again:
  "fst (accept_invitation_by_id 10 77 True sample_cy (Some 51) sample_used) = Inr (AlreadyAccepted,
     \<lparr>mb_id = 44, mb_workspace_id = 21, mb_user_id = 33, mb_role = Member, mb_created_at = 9, mb_deleted = False\<rparr>)"
  by (simp add: accept_invitation_by_id_def accept_found_invitation_def accept_invitation_def accept_checks_def
      sample_used_def sample_ws_def sample_cy_def owner_membership_def new_workspace_def sample_emails
      get_verified_email_identity_def Let_def)

theorem invitation_single_use_witness:
  "\<exists>s m. fst (accept_invitation_by_id 10 77 True sample_cy (Some 51) (foldl ws_step sample_used [])) = Inr (s, m) \<and>
     s \<noteq> Accepted"
proof -
  have acc: "51 \<in> accepted_ids sample_used" by (force simp: accepted_ids_def sample_used_def sample_ws_def)
  have "fst (accept_invitation_by_id 10 77 True sample_cy (Some 51) (foldl ws_step sample_used [])) =
    Inr (AlreadyAccepted,
      \<lparr>mb_id = 44, mb_workspace_id = 21, mb_user_id = 33, mb_role = Member, mb_created_at = 9, mb_deleted = False\<rparr>)"
    by (simp add: sample_used_again)
  from this invitation_single_use [OF sample_used_inv acc this] show ?thesis by blast
qed

section \<open>The default workspace\<close>

definition live_membership :: "ws_db \<Rightarrow> uuid \<Rightarrow> membership \<Rightarrow> bool" where
  "live_membership db u m \<longleftrightarrow> m \<in> set (memberships db) \<and> mb_user_id m = u \<and> \<not> mb_deleted m \<and>
     (\<exists>x \<in> set (workspaces db). ws_id x = mb_workspace_id m \<and> \<not> ws_deleted x)"

text \<open>
  The default workspace of a user is a live membership of a live workspace; none is found only
  when the user has none. The configured workspace wins while its membership is live; otherwise a
  personal workspace; otherwise the oldest membership.
\<close>

theorem default_workspace_choice:
  "case get_default_workspace_membership_for_user db u of
     None \<Rightarrow> \<forall>m. \<not> live_membership db (us_id u) m
   | Some m \<Rightarrow> live_membership db (us_id u) m \<and>
       (if \<exists>q. live_membership db (us_id u) q \<and> us_default_workspace_id u = Some (mb_workspace_id q)
        then us_default_workspace_id u = Some (mb_workspace_id m)
        else if \<exists>q. live_membership db (us_id u) q \<and>
                 (\<exists>x \<in> set (workspaces db). ws_id x = mb_workspace_id q \<and> ws_is_personal x)
        then \<exists>x \<in> set (workspaces db). ws_id x = mb_workspace_id m \<and> ws_is_personal x
        else \<forall>q. live_membership db (us_id u) q \<longrightarrow> mb_created_at m \<le> mb_created_at q)"
proof -
  let ?live = "\<lambda>w. \<exists>x \<in> set (workspaces db). ws_id x = w \<and> \<not> ws_deleted x"
  let ?personal = "\<lambda>w. \<exists>x \<in> set (workspaces db). ws_id x = w \<and> ws_is_personal x"
  define ms where "ms = sort_key mb_created_at (filter (\<lambda>m. mb_user_id m = us_id u \<and> \<not> mb_deleted m \<and>
    ?live (mb_workspace_id m)) (memberships db))"
  have live: "live_membership db (us_id u) m \<longleftrightarrow> m \<in> set ms" for m by (auto simp: live_membership_def ms_def)
  have get: "get_default_workspace_membership_for_user db u =
      select_default_workspace_membership ?personal ms (us_default_workspace_id u)"
    by (simp add: get_default_workspace_membership_for_user_def Let_def ms_def)
  have choice: "case select_default_workspace_membership ?personal ms d of
     None \<Rightarrow> ms = []
   | Some m \<Rightarrow> m \<in> set ms \<and>
       (if \<exists>q \<in> set ms. d = Some (mb_workspace_id q) then d = Some (mb_workspace_id m)
        else if \<exists>q \<in> set ms. ?personal (mb_workspace_id q) then ?personal (mb_workspace_id m)
        else \<forall>q \<in> set ms. mb_created_at m \<le> mb_created_at q)"
    if sorted: "sorted (map mb_created_at ms)" for ms d
  proof (cases ms)
    case Nil
    then show ?thesis by (simp add: select_default_workspace_membership_def)
  next
    case (Cons m0 rest)
    let ?conf = "case d of None \<Rightarrow> None | Some w \<Rightarrow> find (\<lambda>m. mb_workspace_id m = w) ms"
    have conf: "?conf = None \<longleftrightarrow> \<not> (\<exists>q \<in> set ms. d = Some (mb_workspace_id q))"
      by (auto simp: find_None_iff split: option.splits)
    have sel: "select_default_workspace_membership ?personal ms d =
       (case ?conf of Some m \<Rightarrow> Some m
        | None \<Rightarrow> (case find (\<lambda>m. ?personal (mb_workspace_id m)) ms of Some m \<Rightarrow> Some m | None \<Rightarrow> Some m0))"
      using Cons by (simp only: select_default_workspace_membership_def Let_def list.simps if_False list.sel)
    show ?thesis
    proof (cases ?conf)
      case (Some m)
      then have "m \<in> set ms" "d = Some (mb_workspace_id m)"
        by (auto split: option.splits dest: find_SomeD)
      moreover have "select_default_workspace_membership ?personal ms d = Some m"
        by (simp only: sel Some option.case)
      ultimately show ?thesis by auto
    next
      case None
      note noconf = None
      show ?thesis
      proof (cases "find (\<lambda>m. ?personal (mb_workspace_id m)) ms")
        case (Some m)
        from find_SomeD [OF this] have "m \<in> set ms" "?personal (mb_workspace_id m)" by auto
        moreover have "select_default_workspace_membership ?personal ms d = Some m"
          by (simp only: sel noconf Some option.case)
        ultimately show ?thesis using conf noconf by auto
      next
        case None
        then have nop: "\<not> (\<exists>q \<in> set ms. ?personal (mb_workspace_id q))" by (auto simp: find_None_iff)
        have c: "\<not> (\<exists>q \<in> set ms. d = Some (mb_workspace_id q))" using conf noconf by blast
        have mem: "m0 \<in> set ms" and le: "\<forall>q \<in> set ms. mb_created_at m0 \<le> mb_created_at q"
          using sorted Cons by auto
        have res: "select_default_workspace_membership ?personal ms d = Some m0"
          by (simp only: sel noconf None option.case)
        show ?thesis
          unfolding res option.case if_not_P [OF c] if_not_P [OF nop] using mem le by blast
      qed
    qed
  qed
  have "sorted (map mb_created_at ms)" by (simp add: ms_def)
  note c = choice [OF this, of "us_default_workspace_id u"]
  have "live_membership db (us_id u) = (\<lambda>m. m \<in> set ms)" using live by blast
  then show ?thesis
    unfolding get using c
    by (cases "select_default_workspace_membership ?personal ms (us_default_workspace_id u)")
      (simp_all only: option.case Bex_def [of "set ms"] Ball_def [of "set ms"] list.set empty_iff simp_thms, erule conjunct2)
qed

lemma sample_ann_default:
  "get_default_workspace_membership_for_user sample_ws
     \<lparr>us_id = 31, us_email = ''ann@x.io'', us_is_active = True, us_default_workspace_id = Some 22, us_deleted = False\<rparr> =
   Some (owner_membership 1 43 22 31)"
  by (simp add: get_default_workspace_membership_for_user_def select_default_workspace_membership_def
      sample_ws_def owner_membership_def new_workspace_def Let_def)

theorem default_workspace_choice_witness:
  "live_membership sample_ws 31 (owner_membership 1 43 22 31)"
  using default_workspace_choice [of sample_ws
    "\<lparr>us_id = 31, us_email = ''ann@x.io'', us_is_active = True, us_default_workspace_id = Some 22, us_deleted = False\<rparr>"]
  by (simp add: sample_ann_default)

section \<open>Provisioning\<close>

lemma personal_workspaces_users [simp]:
  "personal_workspaces (db\<lparr>users := U\<rparr>) u = personal_workspaces db u"
  by (simp add: personal_workspaces_def)

lemma set_default_if_none_twice: "set_default_if_none u w (set_default_if_none u w T) = set_default_if_none u w T"
  by (induction T) (auto simp: set_default_if_none_def)

lemma personal_workspaces_new:
  assumes none: "personal_workspaces db u = []" and x: "ws_id x \<notin> ws_id ` set (workspaces db)"
      "ws_is_personal x" "\<not> ws_deleted x"
    and op: "add_owner now fm u x (workspaces db @ [x]) db = Inr db1"
  shows "personal_workspaces db1 u = [x]"
proof -
  let ?m = "owner_membership now fm (ws_id x) u"
  note eff = add_owner_effect [OF op]
  let ?hit = "\<lambda>y m. mb_workspace_id m = ws_id y \<and> mb_user_id m = u \<and> \<not> mb_deleted m"
  have old: "filter (?hit y) (memberships db1) = []"
    if y: "y \<in> set (workspaces db)" "ws_is_personal y" "\<not> ws_deleted y" for y
  proof -
    have "filter (?hit y) (memberships db) = []"
      using none y by (auto simp: personal_workspaces_def filter_empty_conv)
    moreover have "\<not> ?hit y ?m" using x(1) y(1) by (auto simp: owner_membership_def image_iff)
    ultimately show ?thesis using eff by simp
  qed
  have new: "filter (?hit x) (memberships db1) = [?m]"
  proof -
    have "filter (?hit x) (memberships db) = []" using eff by (auto simp: filter_empty_conv)
    then show ?thesis using eff by (simp add: owner_membership_def)
  qed
  have "concat (map (\<lambda>y. map (\<lambda>_. y) (filter (?hit y) (memberships db1)))
      (filter (\<lambda>y. ws_is_personal y \<and> \<not> ws_deleted y) (workspaces db))) = []"
    using old by (auto simp: concat_eq_Nil_conv)
  moreover have "filter (\<lambda>y. ws_is_personal y \<and> \<not> ws_deleted y) (workspaces db1) =
      filter (\<lambda>y. ws_is_personal y \<and> \<not> ws_deleted y) (workspaces db) @ [x]"
    using eff x(2,3) by simp
  ultimately show ?thesis
    unfolding personal_workspaces_def by (simp only: map_append concat_append list.map concat.simps new append_Nil append_Nil2)
qed

text \<open>
  C14: provisioning is idempotent: the second call returns the workspace of the first and changes
  nothing, whatever clock and identifiers it is given.
\<close>

theorem provisioning_idempotent:
  assumes "provision_personal_workspace ut now fresh fm u db = Inr (x, db')"
  shows "provision_personal_workspace ut now2 fresh2 fm2 u db' = Inr (x, db')"
  using provision_effect [OF assms]
proof
  assume "personal_workspaces db u = [x] \<and> db' = db\<lparr>users := set_default_if_none u (ws_id x) (users db)\<rparr>"
  then show ?thesis by (simp add: provision_personal_workspace_def set_default_if_none_twice)
next
  assume c: "personal_workspaces db u = [] \<and> ws_id x \<notin> ws_id ` set (workspaces db) \<and>
     ws_slug x \<notin> ws_slug ` set (workspaces db) \<and> ws_is_personal x \<and> \<not> ws_deleted x \<and>
     (\<exists>db1. add_owner now fm u x (workspaces db @ [x]) db = Inr db1 \<and>
        db' = db1\<lparr>users := set_default_if_none u (ws_id x) (users db1)\<rparr>)"
  then obtain db1 where op: "add_owner now fm u x (workspaces db @ [x]) db = Inr db1"
    and db': "db' = db1\<lparr>users := set_default_if_none u (ws_id x) (users db1)\<rparr>" by blast
  have "personal_workspaces db1 u = [x]" using personal_workspaces_new [OF _ _ _ _ op] c by blast
  with db' show ?thesis by (simp add: provision_personal_workspace_def set_default_if_none_twice)
qed

lemma sample_provision:
  "\<exists>db'. provision_personal_workspace (\<lambda>_. ''0000001f'') 5 (\<lambda>k. 60 + k) 70 31 sample_ws =
     Inr (new_workspace 22 ''personal-ann'' ''My Workspace'' True, db')"
  by (simp add: provision_personal_workspace_def personal_workspaces_def sample_ws_def new_workspace_def
      owner_membership_def)

theorem provisioning_idempotent_witness:
  "\<exists>db'. provision_personal_workspace (\<lambda>_. ''0000001f'') 5 (\<lambda>k. 60 + k) 70 31 sample_ws =
      Inr (new_workspace 22 ''personal-ann'' ''My Workspace'' True, db') \<and>
    provision_personal_workspace (\<lambda>_. ''0000001f'') 9 (\<lambda>k. 80 + k) 90 31 db' =
      Inr (new_workspace 22 ''personal-ann'' ''My Workspace'' True, db')"
  using sample_provision provisioning_idempotent [of "\<lambda>_. ''0000001f''" 5 "\<lambda>k. 60 + k" 70 31 sample_ws
    "new_workspace 22 ''personal-ann'' ''My Workspace'' True" _ 9 "\<lambda>k. 80 + k" 90] by blast

section \<open>Slugs\<close>

text \<open>
  A slug consists of lowercase letters, digits and dashes, starts and ends with no dash, has no
  two dashes in a row and at most \<open>n\<close> characters; and the slug of a slug is itself.
\<close>

theorem slugify_normal_form:
  assumes "n > 0"
  shows "slug_form (nat n) (slugify value n) \<and> slugify (Some (slugify value n)) n = slugify value n"
  using slugify_form [OF assms] slug_form_fixed [OF _ assms] by blast

theorem slugify_normal_form_witness:
  "slugify (Some '' Ann's  Team! '') 6 = ''ann-s'' \<and> slug_form 6 ''ann-s''"
proof -
  have v: "slugify (Some '' Ann's  Team! '') 6 = ''ann-s''" by code_simp
  have "slug_form (nat 6) (slugify (Some '' Ann's  Team! '') 6)"
    using slugify_normal_form [of 6 "Some '' Ann's  Team! ''"] by simp
  with v show ?thesis by simp
qed

section \<open>Deleting a user\<close>

text \<open>
  C15: the super admin's deletion of a user does not check for the last owner: a live workspace whose
  only active owner is the deleted user is left live and without any active owner.
\<close>

theorem delete_user_orphans_workspace:
  assumes "delete_user actor u db = Inr db'" and "\<forall>m \<in> set (memberships db). active_owner db w m \<longrightarrow> mb_user_id m = u"
  shows "workspaces db' = workspaces db \<and> \<not> has_owner db' w"
proof -
  from assms(1) obtain x where x: "find (\<lambda>x. us_id x = u \<and> \<not> us_deleted x) (users db) = Some x"
    and db': "db' = db\<lparr>users := write_row us_id (x\<lparr>us_is_active := False, us_deleted := True\<rparr>) (users db),
                 memberships := update_where (\<lambda>m. mb_user_id m = u \<and> \<not> mb_deleted m)
                   (\<lambda>m. m\<lparr>mb_deleted := True\<rparr>) (memberships db),
                 user_auths := update_where (\<lambda>a. ua_user_id a = u \<and> \<not> ua_deleted a)
                   (\<lambda>a. a\<lparr>ua_deleted := True\<rparr>) (user_auths db)\<rparr>"
    by (auto simp: delete_user_def split: if_splits option.splits)
  have act: "user_is_active db v" if "user_is_active db' v" for v
    using that unfolding user_is_active_def list_ex_iff db' by (auto simp: in_write_row)
  have "\<not> active_owner db' w m" if m: "m \<in> set (memberships db')" for m
  proof
    assume own: "active_owner db' w m"
    from m obtain q where q: "q \<in> set (memberships db)"
      and mq: "m = (if mb_user_id q = u \<and> \<not> mb_deleted q then q\<lparr>mb_deleted := True\<rparr> else q)"
      by (auto simp: db' in_update_where)
    from own mq have "m = q" by (auto simp: active_owner_def split: if_splits)
    with own act have "active_owner db w q" by (auto simp: active_owner_def)
    with assms(2) q have "mb_user_id q = u" by blast
    with mq own show False by (auto simp: active_owner_def split: if_splits)
  qed
  then show ?thesis by (auto simp: has_owner_def db')
qed

theorem delete_user_orphans_workspace_witness:
  "ws_inv sample_ws \<and> (\<exists>db'. delete_user 32 31 sample_ws = Inr db' \<and> \<not> ws_inv db')"
proof -
  obtain db' where op: "delete_user 32 31 sample_ws = Inr db'"
    by (simp add: delete_user_def sample_ws_def)
  have only: "\<forall>m \<in> set (memberships sample_ws). active_owner sample_ws 21 m \<longrightarrow> mb_user_id m = 31"
    by (simp add: sample_ws_def active_owner_def owner_membership_def)
  note r = delete_user_orphans_workspace [OF op only]
  have "new_workspace 21 ''acme'' ''Acme'' False \<in> set (workspaces db')"
    using r by (simp add: sample_ws_def)
  moreover have "\<not> ws_deleted (new_workspace 21 ''acme'' ''Acme'' False)"
    and "\<not> has_owner db' (ws_id (new_workspace 21 ''acme'' ''Acme'' False))"
    using r by (simp_all add: new_workspace_def)
  ultimately have "\<not> ws_inv db'" unfolding ws_inv_def by blast
  with op sample_ws_inv show ?thesis by blast
qed

end
