(* ===== verification/Schedules.thy ===== *)
theory Schedules
  imports Agent_Runs Workspaces
begin

text \<open>
  Agent schedules: validation of the timing fields and the next due time
  (\<^verbatim>\<open>services/agent_schedules/domain.py\<close>), and the operations of their owners (create, update, enable,
  pause, run now, delete; \<^verbatim>\<open>disable_user_schedules.py\<close>). Croniter, the time-zone database and the
  validation of the active context and of the execution parameters are arguments of the model.
\<close>

section \<open>Times as requests give them\<close>

datatype py_datetime = Aware timestamp | Naive timestamp

definition normalize_utc_datetime :: "py_datetime option \<Rightarrow> app_error + timestamp option" where
  "normalize_utc_datetime v =
     (case v of
        None \<Rightarrow> Inr None
      | Some (Naive t) \<Rightarrow> Inl (AppValidationError ''Datetime must include a timezone'')
      | Some (Aware t) \<Rightarrow> Inr (Some t))"

section \<open>Timing (domain.py)\<close>

record schedule_config =
  c_type :: string
  c_cron :: "string option"
  c_interval :: "int option"
  c_once :: "timestamp option"
  c_timezone :: string

text \<open>
  \<open>zone_ok\<close>: \<^verbatim>\<open>ZoneInfo\<close> knows the name. \<open>cron_ok\<close>: croniter parses the expression. \<open>cron_next e z t\<close>: the
  first match after \<open>t\<close> of the expression in the zone, None when croniter finds none and raises.
\<close>

record timing_env =
  zone_ok :: "string \<Rightarrow> bool"
  cron_ok :: "string \<Rightarrow> bool"
  cron_next :: "string \<Rightarrow> string \<Rightarrow> timestamp \<Rightarrow> timestamp option"

definition VALID_SCHEDULE_TYPES :: "string set" where
  "VALID_SCHEDULE_TYPES = {''cron'', ''interval'', ''once''}"

definition DEFAULT_TIMEZONE :: string where
  "DEFAULT_TIMEZONE = ''UTC''"

definition TIMING_FIELD_NAMES :: "string set" where
  "TIMING_FIELD_NAMES = {''schedule_type'', ''cron_expression'', ''interval_minutes'', ''run_once_at'', ''timezone''}"

text \<open>\<^verbatim>\<open>_TIMING_FIELDS_BY_TYPE\<close>.\<close>

definition timing_fields_by_type :: "string \<Rightarrow> string set" where
  "timing_fields_by_type t =
     (if t = ''cron'' then {''cron_expression''}
      else if t = ''interval'' then {''interval_minutes''}
      else if t = ''once'' then {''run_once_at''} else {})"

definition resolve_timezone :: "timing_env \<Rightarrow> string option \<Rightarrow> app_error + string" where
  "resolve_timezone te timezone =
     (let name = or_string timezone DEFAULT_TIMEZONE
      in if zone_ok te name then Inr name else Inl (AppValidationError ''Invalid timezone''))"

definition check_supplied_fields ::
    "string \<Rightarrow> string option \<Rightarrow> int option \<Rightarrow> py_datetime option \<Rightarrow> string set option \<Rightarrow> app_error + unit" where
  "check_supplied_fields t cron interval once supplied =
     (case supplied of
        None \<Rightarrow> Inr ()
      | Some fs \<Rightarrow>
          (if ''cron_expression'' \<notin> timing_fields_by_type t \<and> ''cron_expression'' \<in> fs \<and> cron \<noteq> None
           then Inl (AppValidationError ''cron_expression cannot be set'')
           else if ''interval_minutes'' \<notin> timing_fields_by_type t \<and> ''interval_minutes'' \<in> fs \<and> interval \<noteq> None
           then Inl (AppValidationError ''interval_minutes cannot be set'')
           else if ''run_once_at'' \<notin> timing_fields_by_type t \<and> ''run_once_at'' \<in> fs \<and> once \<noteq> None
           then Inl (AppValidationError ''run_once_at cannot be set'')
           else Inr ()))"

text \<open>The branch of the schedule's type; \<open>zone\<close> and \<open>once_utc\<close> are the resolved zone and time.\<close>

definition timing_of_type ::
    "timing_env \<Rightarrow> timestamp \<Rightarrow> string \<Rightarrow> string option \<Rightarrow> int option \<Rightarrow> timestamp option \<Rightarrow> string \<Rightarrow> bool \<Rightarrow>
     app_error + schedule_config" where
  "timing_of_type te now t cron interval once_utc zone require_future_once =
     (if t = ''cron'' then
        (case cron of
           None \<Rightarrow> Inl (AppValidationError ''Cron expression is required for cron schedules'')
         | Some e \<Rightarrow>
             if e = [] then Inl (AppValidationError ''Cron expression is required for cron schedules'')
             else if \<not> cron_ok te e then Inl (AppValidationError ''Invalid cron expression'')
             else Inr \<lparr>c_type = ''cron'', c_cron = Some e, c_interval = None, c_once = None, c_timezone = zone\<rparr>)
      else if t = ''interval'' then
        (case interval of
           None \<Rightarrow> Inl (AppValidationError ''Interval minutes is required for interval schedules'')
         | Some n \<Rightarrow>
             if n < 1 then Inl (AppValidationError ''Interval minutes must be greater than or equal to 1'')
             else Inr \<lparr>c_type = ''interval'', c_cron = None, c_interval = Some n, c_once = None, c_timezone = zone\<rparr>)
      else
        (case once_utc of
           None \<Rightarrow> Inl (AppValidationError ''Run once time is required for once schedules'')
         | Some o_at \<Rightarrow>
             if require_future_once \<and> o_at \<le> now
             then Inl (AppValidationError ''Run once time must be in the future'')
             else Inr \<lparr>c_type = ''once'', c_cron = None, c_interval = None, c_once = Some o_at, c_timezone = zone\<rparr>))"

definition normalize_schedule_config ::
    "timing_env \<Rightarrow> timestamp \<Rightarrow> string \<Rightarrow> string option \<Rightarrow> int option \<Rightarrow> py_datetime option \<Rightarrow> string option \<Rightarrow>
     bool \<Rightarrow> string set option \<Rightarrow> app_error + schedule_config" where
  "normalize_schedule_config te now t cron interval once timezone require_future_once supplied =
     (if t \<notin> VALID_SCHEDULE_TYPES then Inl (AppValidationError ''Invalid schedule type'')
      else
        bind_result (resolve_timezone te timezone) (\<lambda>zone.
        bind_result (check_supplied_fields t cron interval once supplied) (\<lambda>_.
        bind_result (normalize_utc_datetime once) (\<lambda>once_utc.
          timing_of_type te now t cron interval once_utc zone require_future_once))))"

definition calculate_next_run ::
    "timing_env \<Rightarrow> schedule_config \<Rightarrow> timestamp \<Rightarrow> bool \<Rightarrow> app_error + timestamp option" where
  "calculate_next_run te c basis repeat_once =
     (if c_type c = ''once'' then Inr (if repeat_once then c_once c else None)
      else if c_type c = ''interval'' then
        Inr (case c_interval c of None \<Rightarrow> None | Some n \<Rightarrow> Some (basis + timedelta_minutes n))
      else if c_type c = ''cron'' then
        (case c_cron c of
           None \<Rightarrow> Inr None
         | Some e \<Rightarrow>
             if e = [] then Inr None
             else bind_result (resolve_timezone te (Some (c_timezone c))) (\<lambda>zone.
               (case cron_next te e zone basis of
                  None \<Rightarrow> Inl (ValueError ''CroniterBadDateError'')
                | Some t \<Rightarrow> Inr (Some t))))
      else Inr None)"

definition MAX_PREVIEW_COUNT :: int where
  "MAX_PREVIEW_COUNT = 100"

fun preview_loop :: "timing_env \<Rightarrow> schedule_config \<Rightarrow> nat \<Rightarrow> timestamp \<Rightarrow> app_error + timestamp list" where
  "preview_loop te c 0 basis = Inr []"
| "preview_loop te c (Suc n) basis =
     bind_result (calculate_next_run te c basis True) (\<lambda>r.
       (case r of
          None \<Rightarrow> Inr []
        | Some t \<Rightarrow> bind_result (preview_loop te c n t) (\<lambda>ts. Inr (t # ts))))"

definition preview_schedule_runs ::
    "timing_env \<Rightarrow> schedule_config \<Rightarrow> int \<Rightarrow> timestamp \<Rightarrow> app_error + timestamp list" where
  "preview_schedule_runs te c preview_count basis =
     (if preview_count < 1 then Inl (AppValidationError ''Preview count must be at least 1'')
      else if preview_count > MAX_PREVIEW_COUNT then Inl (AppValidationError ''Preview count must not exceed 100'')
      else if c_type c = ''once''
      then bind_result (calculate_next_run te c basis True) (\<lambda>r.
        Inr (case r of None \<Rightarrow> [] | Some t \<Rightarrow> [t]))
      else preview_loop te c (nat preview_count) basis)"

text \<open>The preview request (\<^verbatim>\<open>preview_schedule.py\<close>): validation without the future check, then the preview.\<close>

definition preview_schedule ::
    "timing_env \<Rightarrow> timestamp \<Rightarrow> string \<Rightarrow> string option \<Rightarrow> int option \<Rightarrow> py_datetime option \<Rightarrow> string option \<Rightarrow>
     int \<Rightarrow> app_error + timestamp list" where
  "preview_schedule te now t cron interval once timezone count =
     bind_result (normalize_schedule_config te now t cron interval once timezone False (Some TIMING_FIELD_NAMES))
       (\<lambda>c. preview_schedule_runs te c count now)"

section \<open>Rows\<close>

record schedule =
  sd_id :: uuid
  sd_agent_id :: uuid
  sd_user_id :: uuid
  sd_workspace_id :: uuid
  sd_name :: "string option"
  sd_type :: string
  sd_cron :: "string option"
  sd_interval :: "int option"
  sd_once :: "timestamp option"
  sd_timezone :: string
  sd_default_prompt :: "string option"
  sd_execution_params :: "pydict option"
  sd_active_context :: "json option"
  sd_is_active :: bool
  sd_last_run_at :: "timestamp option"
  sd_next_run_at :: "timestamp option"
  sd_created_at :: timestamp
  sd_deleted :: bool

datatype sched_run_status =
    SrPending | SrClaimed | SrAccepted | SrRunning | SrCompleted | SrAwaitingApproval
  | SrRetryableFailed | SrTerminalFailed | SrCancelled

record schedule_run =
  sr_id :: uuid
  sr_schedule_id :: uuid
  sr_workspace_id :: uuid
  sr_user_id :: uuid
  sr_agent_id :: uuid
  sr_scheduled_for :: timestamp
  sr_attempt_count :: int
  sr_status :: sched_run_status
  sr_claim_token :: "uuid option"
  sr_claimed_at :: "timestamp option"
  sr_claim_expires_at :: "timestamp option"
  sr_conversation_id :: "uuid option"
  sr_agent_run_id :: "uuid option"
  sr_accepted_at :: "timestamp option"
  sr_completed_at :: "timestamp option"
  sr_failed_at :: "timestamp option"
  sr_error_code :: "string option"
  sr_error_message :: "string option"
  sr_created_at :: timestamp
  sr_deleted :: bool

datatype sched_entry =
    ScheduleAudit string uuid uuid uuid
  | SchedulerDisabled uuid uuid uuid string

record sched_db =
  schedules :: "schedule list"
  schedule_runs :: "schedule_run list"
  s_runs :: run_db
  s_ws :: ws_db
  s_log :: "sched_entry list"

definition config_of :: "schedule \<Rightarrow> schedule_config" where
  "config_of s = \<lparr>c_type = sd_type s, c_cron = sd_cron s, c_interval = sd_interval s, c_once = sd_once s,
     c_timezone = sd_timezone s\<rparr>"

definition apply_config :: "schedule_config \<Rightarrow> schedule \<Rightarrow> schedule" where
  "apply_config c s = s\<lparr>sd_type := c_type c, sd_cron := c_cron c, sd_interval := c_interval c,
     sd_once := c_once c, sd_timezone := c_timezone c\<rparr>"

definition normalize_schedule_from_row :: "timing_env \<Rightarrow> timestamp \<Rightarrow> schedule \<Rightarrow> bool \<Rightarrow> app_error + schedule_config" where
  "normalize_schedule_from_row te now s require_future_once =
     normalize_schedule_config te now (sd_type s) (sd_cron s) (sd_interval s) (map_option Aware (sd_once s))
       (Some (sd_timezone s)) require_future_once None"

section \<open>Authorisation and lookups\<close>

definition assert_can_create_schedule :: "membership \<Rightarrow> app_error + unit" where
  "assert_can_create_schedule m =
     (if mb_role m = ReadOnly then Inl (AuthorizationError ''Read-only members cannot create schedules'')
      else Inr ())"

definition assert_can_mutate_schedule :: "schedule \<Rightarrow> uuid \<Rightarrow> membership \<Rightarrow> app_error + unit" where
  "assert_can_mutate_schedule s actor m =
     (if mb_role m = ReadOnly then Inl (AuthorizationError ''Read-only members cannot modify schedules'')
      else if sd_user_id s = actor then Inr ()
      else if mb_role m \<in> {Admin, Owner} then Inr ()
      else Inl (AuthorizationError ''Requires schedule owner or workspace admin access''))"

definition get_schedule_for_workspace :: "uuid \<Rightarrow> uuid \<Rightarrow> sched_db \<Rightarrow> app_error + schedule" where
  "get_schedule_for_workspace w i db =
     (case find (\<lambda>s. sd_id s = i \<and> sd_workspace_id s = w \<and> \<not> sd_deleted s) (schedules db) of
        None \<Rightarrow> Inl (NotFoundError ''Agent schedule not found'') | Some s \<Rightarrow> Inr s)"

definition require_active_agent_for_schedule :: "uuid \<Rightarrow> uuid \<Rightarrow> sched_db \<Rightarrow> app_error + agent" where
  "require_active_agent_for_schedule w i db =
     (case find (\<lambda>a. ag_id a = i \<and> ag_workspace_id a = w \<and> \<not> ag_deleted a \<and> ag_is_active a) (agents (s_runs db)) of
        None \<Rightarrow> Inl (AppValidationError ''Agent must exist in this workspace and be active'') | Some a \<Rightarrow> Inr a)"

definition normalize_required_text :: "string \<Rightarrow> string option \<Rightarrow> app_error + string" where
  "normalize_required_text field value =
     (case value of
        None \<Rightarrow> Inl (AppValidationError (field @ '' cannot be null''))
      | Some v \<Rightarrow> if py_strip v = [] then Inl (AppValidationError (field @ '' must not be blank''))
          else Inr (py_strip v))"

definition normalize_default_prompt :: "string option \<Rightarrow> app_error + string" where
  "normalize_default_prompt v = normalize_required_text ''default_prompt'' v"

definition normalize_schedule_name :: "string option \<Rightarrow> app_error + string" where
  "normalize_schedule_name v = normalize_required_text ''name'' v"

definition audit_schedule :: "string \<Rightarrow> schedule \<Rightarrow> uuid \<Rightarrow> sched_entry" where
  "audit_schedule action s actor = ScheduleAudit action (sd_workspace_id s) (sd_id s) actor"

section \<open>The owner's operations\<close>

record schedule_create =
  cr_agent_id :: uuid
  cr_name :: "string option"
  cr_type :: string
  cr_cron :: "string option"
  cr_interval :: "int option"
  cr_once :: "py_datetime option"
  cr_timezone :: "string option"
  cr_default_prompt :: "string option"
  cr_execution_params :: "pydict option"
  cr_active_context :: "json option"
  cr_is_active :: bool

definition create_schedule ::
    "timing_env \<Rightarrow> (json option \<Rightarrow> app_error + json option) \<Rightarrow> timestamp \<Rightarrow> uuid \<Rightarrow> uuid \<Rightarrow> uuid \<Rightarrow> membership \<Rightarrow>
     schedule_create \<Rightarrow> sched_db \<Rightarrow> app_error + schedule \<times> sched_db" where
  "create_schedule te validate_context now fresh actor w m p db =
     bind_result (assert_can_create_schedule m) (\<lambda>_.
     bind_result (require_active_agent_for_schedule w (cr_agent_id p) db) (\<lambda>_.
     bind_result (validate_context (cr_active_context p)) (\<lambda>context.
     bind_result (normalize_schedule_config te now (cr_type p) (cr_cron p) (cr_interval p) (cr_once p)
         (cr_timezone p) True (Some TIMING_FIELD_NAMES)) (\<lambda>c.
     bind_result (normalize_schedule_name (cr_name p)) (\<lambda>name.
     bind_result (normalize_default_prompt (cr_default_prompt p)) (\<lambda>prompt.
     bind_result (if cr_is_active p then calculate_next_run te c now True else Inr None) (\<lambda>next_run.
       (let s = \<lparr>sd_id = fresh, sd_agent_id = cr_agent_id p, sd_user_id = actor, sd_workspace_id = w,
                 sd_name = Some name, sd_type = c_type c, sd_cron = c_cron c, sd_interval = c_interval c,
                 sd_once = c_once c, sd_timezone = c_timezone c, sd_default_prompt = Some prompt,
                 sd_execution_params = cr_execution_params p, sd_active_context = context,
                 sd_is_active = cr_is_active p, sd_last_run_at = None, sd_next_run_at = next_run,
                 sd_created_at = now, sd_deleted = False\<rparr>
        in if fresh \<in> sd_id ` set (schedules db) then Inl (IntegrityError ''agent_schedules_pkey'')
           else Inr (s, db\<lparr>schedules := schedules db @ [s],
             s_log := s_log db @ [audit_schedule ''create'' s actor]\<rparr>)))))))))"

record schedule_update =
  su_type :: "string option option"
  su_cron :: "string option option"
  su_interval :: "int option option"
  su_once :: "py_datetime option option"
  su_timezone :: "string option option"
  su_name :: "string option option"
  su_default_prompt :: "string option option"
  su_execution_params :: "pydict option option"
  su_active_context :: "json option option"
  su_is_active :: "bool option option"

definition supplied_timing :: "schedule_update \<Rightarrow> string set" where
  "supplied_timing p =
     (if su_type p \<noteq> None then {''schedule_type''} else {}) \<union>
     (if su_cron p \<noteq> None then {''cron_expression''} else {}) \<union>
     (if su_interval p \<noteq> None then {''interval_minutes''} else {}) \<union>
     (if su_once p \<noteq> None then {''run_once_at''} else {}) \<union>
     (if su_timezone p \<noteq> None then {''timezone''} else {})"

definition normalize_timing_update ::
    "timing_env \<Rightarrow> timestamp \<Rightarrow> schedule_update \<Rightarrow> schedule \<Rightarrow> app_error + schedule_config" where
  "normalize_timing_update te now p s =
     (case (case su_type p of None \<Rightarrow> Some (sd_type s) | Some t \<Rightarrow> t) of
        None \<Rightarrow> Inl (AppValidationError ''schedule_type cannot be null'')
      | Some t \<Rightarrow>
          normalize_schedule_config te now t (if_none (su_cron p) (sd_cron s))
            (if_none (su_interval p) (sd_interval s))
            (if_none (su_once p) (map_option Aware (sd_once s)))
            (if_none (su_timezone p) (Some (sd_timezone s))) True (Some (supplied_timing p)))"

definition update_timing ::
    "timing_env \<Rightarrow> timestamp \<Rightarrow> schedule_update \<Rightarrow> schedule \<Rightarrow> app_error + schedule_config option \<times> schedule" where
  "update_timing te now p s =
     (if supplied_timing p = {} then Inr (None, s)
      else bind_result (normalize_timing_update te now p s) (\<lambda>c. Inr (Some c, apply_config c s)))"

definition update_activity ::
    "timing_env \<Rightarrow> timestamp \<Rightarrow> schedule_update \<Rightarrow> bool \<Rightarrow> schedule_config option \<Rightarrow> schedule \<Rightarrow> app_error + schedule" where
  "update_activity te now p was_active config s =
     (case su_is_active p of
        Some None \<Rightarrow> Inl (AppValidationError ''is_active cannot be null'')
      | Some (Some active) \<Rightarrow>
          (let s1 = s\<lparr>sd_is_active := active\<rparr>
           in if active \<and> (\<not> was_active \<or> config \<noteq> None)
              then bind_result (case config of
                       Some c \<Rightarrow> Inr c | None \<Rightarrow> normalize_schedule_from_row te now s1 True) (\<lambda>c.
                     bind_result (calculate_next_run te c now True) (\<lambda>next_run.
                       Inr (s1\<lparr>sd_next_run_at := next_run\<rparr>)))
              else if \<not> active then Inr (s1\<lparr>sd_next_run_at := None\<rparr>)
              else Inr s1)
      | None \<Rightarrow>
          (case config of
             None \<Rightarrow> Inr s
           | Some c \<Rightarrow>
               bind_result (if sd_is_active s then calculate_next_run te c now True else Inr None)
                 (\<lambda>next_run. Inr (s\<lparr>sd_next_run_at := next_run\<rparr>))))"

definition update_schedule ::
    "timing_env \<Rightarrow> (json option \<Rightarrow> app_error + json option) \<Rightarrow> timestamp \<Rightarrow> uuid \<Rightarrow> uuid \<Rightarrow> membership \<Rightarrow> uuid \<Rightarrow>
     schedule_update \<Rightarrow> sched_db \<Rightarrow> app_error + schedule \<times> sched_db" where
  "update_schedule te validate_context now actor w m i p db =
     bind_result (get_schedule_for_workspace w i db) (\<lambda>s.
     bind_result (assert_can_mutate_schedule s actor m) (\<lambda>_.
     bind_result (update_timing te now p s) (\<lambda>(config, s1).
     bind_result (case su_name p of None \<Rightarrow> Inr s1
         | Some v \<Rightarrow> bind_result (normalize_schedule_name v) (\<lambda>n. Inr (s1\<lparr>sd_name := Some n\<rparr>))) (\<lambda>s2.
     bind_result (case su_default_prompt p of None \<Rightarrow> Inr s2
         | Some v \<Rightarrow> bind_result (normalize_default_prompt v) (\<lambda>n. Inr (s2\<lparr>sd_default_prompt := Some n\<rparr>))) (\<lambda>s3.
     bind_result (Inr (case su_execution_params p of None \<Rightarrow> s3
         | Some v \<Rightarrow> s3\<lparr>sd_execution_params := v\<rparr>)) (\<lambda>s4.
     bind_result (case su_active_context p of None \<Rightarrow> Inr s4
         | Some v \<Rightarrow> bind_result (validate_context v) (\<lambda>x. Inr (s4\<lparr>sd_active_context := x\<rparr>))) (\<lambda>s5.
     bind_result (update_activity te now p (sd_is_active s) config s5) (\<lambda>s6.
       if s6 = s then Inr (s, db)
       else Inr (s6, db\<lparr>schedules := write_row sd_id s6 (schedules db),
              s_log := s_log db @ [audit_schedule ''update'' s6 actor]\<rparr>)))))))))"

definition enable_schedule ::
    "timing_env \<Rightarrow> timestamp \<Rightarrow> uuid \<Rightarrow> uuid \<Rightarrow> membership \<Rightarrow> uuid \<Rightarrow> sched_db \<Rightarrow> app_error + schedule \<times> sched_db" where
  "enable_schedule te now actor w m i db =
     bind_result (get_schedule_for_workspace w i db) (\<lambda>s.
     bind_result (assert_can_mutate_schedule s actor m) (\<lambda>_.
       if sd_is_active s then Inr (s, db)
       else
         bind_result (normalize_schedule_from_row te now s True) (\<lambda>c.
         bind_result (calculate_next_run te c now True) (\<lambda>next_run.
           (let s' = s\<lparr>sd_is_active := True, sd_next_run_at := next_run\<rparr>
            in Inr (s', db\<lparr>schedules := write_row sd_id s' (schedules db),
                 s_log := s_log db @ [audit_schedule ''enable'' s' actor]\<rparr>))))))"

definition pause_schedule ::
    "uuid \<Rightarrow> uuid \<Rightarrow> membership \<Rightarrow> uuid \<Rightarrow> sched_db \<Rightarrow> app_error + schedule \<times> sched_db" where
  "pause_schedule actor w m i db =
     bind_result (get_schedule_for_workspace w i db) (\<lambda>s.
     bind_result (assert_can_mutate_schedule s actor m) (\<lambda>_.
       if \<not> sd_is_active s then Inr (s, db)
       else
         (let s' = s\<lparr>sd_is_active := False, sd_next_run_at := None\<rparr>
          in Inr (s', db\<lparr>schedules := write_row sd_id s' (schedules db),
               s_log := s_log db @ [audit_schedule ''disable'' s' actor]\<rparr>))))"

definition run_schedule_now ::
    "timestamp \<Rightarrow> uuid \<Rightarrow> uuid \<Rightarrow> membership \<Rightarrow> uuid \<Rightarrow> sched_db \<Rightarrow> app_error + schedule \<times> sched_db" where
  "run_schedule_now now actor w m i db =
     bind_result (get_schedule_for_workspace w i db) (\<lambda>s.
     bind_result (assert_can_mutate_schedule s actor m) (\<lambda>_.
       if \<not> sd_is_active s then Inl (ConflictError ''Cannot run a paused schedule'')
       else
         (let s' = s\<lparr>sd_next_run_at := Some now\<rparr>
          in Inr (s', db\<lparr>schedules := write_row sd_id s' (schedules db),
               s_log := s_log db @ [audit_schedule ''execute'' s' actor]\<rparr>))))"

definition delete_schedule :: "uuid \<Rightarrow> uuid \<Rightarrow> membership \<Rightarrow> uuid \<Rightarrow> sched_db \<Rightarrow> app_error + schedule \<times> sched_db" where
  "delete_schedule actor w m i db =
     bind_result (get_schedule_for_workspace w i db) (\<lambda>s.
     bind_result (assert_can_mutate_schedule s actor m) (\<lambda>_.
       (let s' = s\<lparr>sd_deleted := True\<rparr>
        in Inr (s', db\<lparr>schedules := write_row sd_id s' (schedules db),
             s_log := s_log db @ [audit_schedule ''delete'' s' actor]\<rparr>))))"

text \<open>
  The schedules of a user who can no longer act, in every workspace the user joined (the memberships
  may be deleted already).
\<close>

definition user_schedule_active :: "sched_db \<Rightarrow> uuid \<Rightarrow> schedule \<Rightarrow> bool" where
  "user_schedule_active db u s \<longleftrightarrow>
     sd_workspace_id s \<in> mb_workspace_id ` set (filter (\<lambda>m. mb_user_id m = u) (memberships (s_ws db))) \<and>
     sd_user_id s = u \<and> sd_is_active s \<and> \<not> sd_deleted s"

definition disable_user_schedules :: "uuid \<Rightarrow> uuid \<Rightarrow> sched_db \<Rightarrow> nat \<times> sched_db" where
  "disable_user_schedules actor u db =
     (let hit = user_schedule_active db u
      in (rowcount hit (schedules db),
          db\<lparr>schedules := update_where hit (\<lambda>s. s\<lparr>sd_is_active := False, sd_next_run_at := None\<rparr>) (schedules db),
             s_log := s_log db @ map (\<lambda>s. audit_schedule ''disable'' s actor) (filter hit (schedules db))\<rparr>))"

end
