(* ===== verification/Schedule_Runs.thy ===== *)
theory Schedule_Runs
  imports Schedules Run_Execution
begin

text \<open>
  The ledger of scheduled runs (\<^verbatim>\<open>runs.py\<close>) and the steps of the scheduled-agent worker: claim, prepare,
  record a setup failure (\<^verbatim>\<open>workers/agent_runner.py\<close>), finalize, reconcile. A scheduled run is handed to
  the agent runs of \<open>Run_Execution\<close>, whose tables are \<open>s_runs\<close>.
\<close>

section \<open>Statuses\<close>

definition NON_CLAIMABLE_RUN_STATUSES :: "sched_run_status set" where
  "NON_CLAIMABLE_RUN_STATUSES =
     {SrAccepted, SrRunning, SrCompleted, SrAwaitingApproval, SrTerminalFailed, SrCancelled}"

definition CLAIMABLE_RUN_STATUSES :: "sched_run_status set" where
  "CLAIMABLE_RUN_STATUSES = {SrPending, SrRetryableFailed, SrClaimed}"

definition TERMINAL_SCHEDULE_RUN_STATUSES :: "sched_run_status set" where
  "TERMINAL_SCHEDULE_RUN_STATUSES = {SrCancelled, SrCompleted, SrTerminalFailed}"

definition sanitize_schedule_error :: "string option \<Rightarrow> string option" where
  "sanitize_schedule_error m = concise_message 1000 m"

definition schedule_health_from_run :: "schedule_run option \<Rightarrow> run_outcome option \<Rightarrow> string" where
  "schedule_health_from_run run outcome =
     (case run of
        None \<Rightarrow> ''healthy''
      | Some r \<Rightarrow>
          if outcome \<in> {Some OutcomeGateFailed, Some OutcomeBudgetExhausted} then ''needs_attention''
          else if sr_status r = SrRetryableFailed then ''retrying''
          else if sr_status r = SrTerminalFailed then ''needs_attention''
          else if sr_status r = SrCancelled then ''cancelled''
          else ''healthy'')"

text \<open>The newest run of a schedule: by fire time, then by creation.\<close>

definition latest_schedule_run :: "uuid \<Rightarrow> schedule_run list \<Rightarrow> schedule_run option" where
  "latest_schedule_run i T =
     (case sort_key (\<lambda>r. (- sr_scheduled_for r, - sr_created_at r))
             (filter (\<lambda>r. sr_schedule_id r = i \<and> \<not> sr_deleted r) T) of
        [] \<Rightarrow> None | r # _ \<Rightarrow> Some r)"

section \<open>Marks on a run and its schedule\<close>

definition claim_run :: "timestamp \<Rightarrow> int \<Rightarrow> uuid \<Rightarrow> schedule_run \<Rightarrow> schedule_run" where
  "claim_run now claim_ttl_seconds token r =
     r\<lparr>sr_status := SrClaimed, sr_claim_token := Some token, sr_claimed_at := Some now,
       sr_claim_expires_at := Some (now + timedelta_seconds claim_ttl_seconds),
       sr_attempt_count := sr_attempt_count r + 1, sr_error_code := None, sr_error_message := None,
       sr_failed_at := None\<rparr>"

definition fail_run_terminally :: "timestamp \<Rightarrow> string \<Rightarrow> string \<Rightarrow> schedule_run \<Rightarrow> schedule_run" where
  "fail_run_terminally now code message r =
     r\<lparr>sr_status := SrTerminalFailed, sr_failed_at := Some now, sr_error_code := Some code,
       sr_error_message := sanitize_schedule_error (Some message), sr_claim_expires_at := None\<rparr>"

definition stop_schedule :: "schedule \<Rightarrow> schedule" where
  "stop_schedule s = s\<lparr>sd_is_active := False, sd_next_run_at := None\<rparr>"

definition write_pair :: "schedule \<Rightarrow> schedule_run \<Rightarrow> sched_db \<Rightarrow> sched_db" where
  "write_pair s r db = db\<lparr>schedules := write_row sd_id s (schedules db),
     schedule_runs := write_row sr_id r (schedule_runs db)\<rparr>"

definition mark_run_terminal_failure_and_disable_schedule ::
    "timestamp \<Rightarrow> string \<Rightarrow> string \<Rightarrow> schedule \<Rightarrow> schedule_run \<Rightarrow> sched_db \<Rightarrow> sched_db" where
  "mark_run_terminal_failure_and_disable_schedule now code message s r db =
     (write_pair (stop_schedule s) (fail_run_terminally now code message r) db)
       \<lparr>s_log := s_log db @ [SchedulerDisabled (sd_workspace_id s) (sd_id s) (sr_id r) code]\<rparr>"

definition complete_schedule :: "timestamp \<Rightarrow> timestamp option \<Rightarrow> schedule \<Rightarrow> schedule" where
  "complete_schedule now next_run s =
     (case next_run of
        None \<Rightarrow> s\<lparr>sd_last_run_at := Some now, sd_is_active := False, sd_next_run_at := None\<rparr>
      | Some t \<Rightarrow> s\<lparr>sd_last_run_at := Some now, sd_next_run_at := Some t\<rparr>)"

definition complete_schedule_run :: "timestamp \<Rightarrow> schedule_run \<Rightarrow> schedule_run" where
  "complete_schedule_run now r =
     r\<lparr>sr_status := SrCompleted, sr_completed_at := Some now, sr_claim_expires_at := None,
       sr_error_code := None, sr_error_message := None\<rparr>"

definition mark_run_completed ::
    "timing_env \<Rightarrow> timestamp \<Rightarrow> schedule \<Rightarrow> schedule_run \<Rightarrow> sched_db \<Rightarrow> app_error + sched_db" where
  "mark_run_completed te now s r db =
     bind_result (calculate_next_run te (config_of s) now False) (\<lambda>next_run.
       Inr (write_pair (complete_schedule now next_run s) (complete_schedule_run now r) db))"

definition mark_run_retryable_failure ::
    "timestamp \<Rightarrow> string \<Rightarrow> string \<Rightarrow> int \<Rightarrow> schedule_run \<Rightarrow> bool \<times> schedule_run" where
  "mark_run_retryable_failure now code message max_attempts r =
     (let r' = r\<lparr>sr_failed_at := Some now, sr_claim_expires_at := None, sr_error_code := Some code,
                sr_error_message := sanitize_schedule_error (Some message)\<rparr>
      in if sr_attempt_count r \<ge> max_attempts then (True, r'\<lparr>sr_status := SrTerminalFailed\<rparr>)
         else (False, r'\<lparr>sr_status := SrRetryableFailed\<rparr>))"

text \<open>The failure mark as its two callers apply it: terminal when the attempts are used up.\<close>

definition record_retryable_failure ::
    "timestamp \<Rightarrow> string \<Rightarrow> string \<Rightarrow> string \<Rightarrow> int \<Rightarrow> schedule \<Rightarrow> schedule_run \<Rightarrow> sched_db \<Rightarrow> sched_db" where
  "record_retryable_failure now code message final_message max_attempts s r db =
     (case mark_run_retryable_failure now code message max_attempts r of
        (exhausted, r') \<Rightarrow>
          if exhausted then mark_run_terminal_failure_and_disable_schedule now code final_message s r' db
          else db\<lparr>schedule_runs := write_row sr_id r' (schedule_runs db)\<rparr>)"

section \<open>Claiming due schedules\<close>

definition current_run :: "sched_db \<Rightarrow> schedule \<Rightarrow> schedule_run option" where
  "current_run db s =
     (case sd_next_run_at s of
        None \<Rightarrow> None
      | Some t \<Rightarrow> find (\<lambda>r. sr_schedule_id r = sd_id s \<and> sr_scheduled_for r = t \<and> \<not> sr_deleted r) (schedule_runs db))"

definition due_schedule :: "timestamp \<Rightarrow> sched_db \<Rightarrow> schedule \<Rightarrow> bool" where
  "due_schedule now db s \<longleftrightarrow>
     sd_is_active s \<and> \<not> sd_deleted s \<and> null_le (sd_next_run_at s) now \<and>
     (case current_run db s of
        None \<Rightarrow> True
      | Some r \<Rightarrow> sr_status r \<in> {SrPending, SrRetryableFailed} \<or>
          (sr_status r = SrClaimed \<and> sr_claim_expires_at r \<noteq> None \<and> null_le (sr_claim_expires_at r) now))"

definition select_due_schedules :: "timestamp \<Rightarrow> nat \<Rightarrow> (uuid \<Rightarrow> bool) \<Rightarrow> sched_db \<Rightarrow> schedule list" where
  "select_due_schedules now batch_size unlocked db =
     take batch_size (filter (\<lambda>s. unlocked (sd_id s))
       (sort_key (\<lambda>s. (if_none (sd_next_run_at s) 0, sd_created_at s)) (filter (due_schedule now db) (schedules db))))"

definition new_schedule_run :: "timestamp \<Rightarrow> uuid \<Rightarrow> timestamp \<Rightarrow> schedule \<Rightarrow> schedule_run" where
  "new_schedule_run now fresh t s =
     \<lparr>sr_id = fresh, sr_schedule_id = sd_id s, sr_workspace_id = sd_workspace_id s, sr_user_id = sd_user_id s,
      sr_agent_id = sd_agent_id s, sr_scheduled_for = t, sr_attempt_count = 0, sr_status = SrPending,
      sr_claim_token = None, sr_claimed_at = None, sr_claim_expires_at = None, sr_conversation_id = None,
      sr_agent_run_id = None, sr_accepted_at = None, sr_completed_at = None, sr_failed_at = None,
      sr_error_code = None, sr_error_message = None, sr_created_at = now, sr_deleted = False\<rparr>"

definition get_or_create_run_for_schedule ::
    "timestamp \<Rightarrow> uuid \<Rightarrow> schedule \<Rightarrow> sched_db \<Rightarrow> app_error + schedule_run option \<times> sched_db" where
  "get_or_create_run_for_schedule now fresh s db =
     (case sd_next_run_at s of
        None \<Rightarrow> Inr (None, db)
      | Some t \<Rightarrow>
          (case current_run db s of
             Some r \<Rightarrow> Inr (Some r, db)
           | None \<Rightarrow>
               (let r = new_schedule_run now fresh t s
                in if fresh \<in> sr_id ` set (schedule_runs db) \<or>
                      (\<exists>q \<in> set (schedule_runs db). sr_schedule_id q = sd_id s \<and> sr_scheduled_for q = t)
                   then Inl (IntegrityError ''uq_agent_schedule_runs_schedule_fire_time'')
                   else Inr (Some r, db\<lparr>schedule_runs := schedule_runs db @ [r]\<rparr>))))"

text \<open>One schedule of the batch; the result says whether its run was claimed.\<close>

definition claim_one_schedule ::
    "timestamp \<Rightarrow> int \<Rightarrow> uuid \<Rightarrow> uuid \<Rightarrow> schedule \<Rightarrow> sched_db \<Rightarrow> app_error + schedule_run option \<times> sched_db" where
  "claim_one_schedule now ttl fresh token s db =
     bind_result (get_or_create_run_for_schedule now fresh s db) (\<lambda>(found, db1).
       (case found of
          None \<Rightarrow> Inr (None, db1)
        | Some r \<Rightarrow>
            (case row_by_id ag_id (sd_agent_id s) (agents (s_runs db1)) of
               None \<Rightarrow> Inr (None, mark_run_terminal_failure_and_disable_schedule now ''agent_unavailable''
                   ''Scheduled agent is missing or deleted'' s r db1)
             | Some a \<Rightarrow>
                 if ag_deleted a
                 then Inr (None, mark_run_terminal_failure_and_disable_schedule now ''agent_unavailable''
                   ''Scheduled agent is missing or deleted'' s r db1)
                 else if \<not> ag_is_active a
                 then Inr (None, mark_run_terminal_failure_and_disable_schedule now ''agent_inactive''
                   ''Scheduled agent is inactive'' s r db1)
                 else if sr_status r \<in> NON_CLAIMABLE_RUN_STATUSES \<or> sr_status r \<notin> CLAIMABLE_RUN_STATUSES
                 then Inr (None, db1)
                 else if sr_status r = SrClaimed \<and>
                     (sr_claim_expires_at r = None \<or> null_gt (sr_claim_expires_at r) now)
                 then Inr (None, db1)
                 else
                   (let r' = claim_run now ttl token r
                    in Inr (Some r', db1\<lparr>schedule_runs := write_row sr_id r' (schedule_runs db1)\<rparr>)))))"

fun claim_loop ::
    "timestamp \<Rightarrow> int \<Rightarrow> (uuid \<Rightarrow> uuid) \<Rightarrow> (uuid \<Rightarrow> uuid) \<Rightarrow> schedule list \<Rightarrow> schedule_run list \<Rightarrow> sched_db \<Rightarrow>
     app_error + schedule_run list \<times> sched_db" where
  "claim_loop now ttl fresh token [] claimed db = Inr (claimed, db)"
| "claim_loop now ttl fresh token (s # ss) claimed db =
     bind_result (claim_one_schedule now ttl (fresh (sd_id s)) (token (sd_id s)) s db) (\<lambda>(r, db1).
       claim_loop now ttl fresh token ss (case r of None \<Rightarrow> claimed | Some x \<Rightarrow> claimed @ [x]) db1)"

definition claim_due_schedule_runs ::
    "timestamp \<Rightarrow> nat \<Rightarrow> int \<Rightarrow> (uuid \<Rightarrow> bool) \<Rightarrow> (uuid \<Rightarrow> uuid) \<Rightarrow> (uuid \<Rightarrow> uuid) \<Rightarrow> sched_db \<Rightarrow>
     app_error + schedule_run list \<times> sched_db" where
  "claim_due_schedule_runs now batch_size ttl unlocked fresh token db =
     claim_loop now ttl fresh token (select_due_schedules now batch_size unlocked db) [] db"

section \<open>Preparing the execution\<close>

text \<open>
  \<open>se_policy\<close> is the side-effect policy read from the execution parameters and \<open>se_contract\<close> the
  serialized completion contract, both through Pydantic models, as is \<open>se_targets\<close>, the validation of the
  stored active context whose selection rows are not kept; \<open>se_message_count\<close> counts the messages
  of a conversation and \<open>se_prunable_source\<close> says whether its source allows pruning.
\<close>

record sched_env =
  se_run :: run_env
  se_timing :: timing_env
  se_policy :: "pydict option \<Rightarrow> string"
  se_contract :: "pydict option \<Rightarrow> json option"
  se_targets :: "json \<Rightarrow> app_error + unit"
  se_message_count :: "uuid \<Rightarrow> nat"
  se_prunable_source :: "uuid \<Rightarrow> bool"

record prepared_run =
  p_schedule_id :: uuid
  p_schedule_run_id :: uuid
  p_conversation_id :: "uuid option"
  p_agent_run_id :: "uuid option"
  p_prompt :: "string option"
  p_owner :: string

definition should_execute :: "prepared_run \<Rightarrow> bool" where
  "should_execute p \<longleftrightarrow> p_conversation_id p \<noteq> None \<and> p_agent_run_id p \<noteq> None \<and> p_prompt p \<noteq> None"

definition load_schedule_run :: "uuid \<Rightarrow> sched_db \<Rightarrow> app_error + schedule_run" where
  "load_schedule_run i db =
     (case find (\<lambda>r. sr_id r = i \<and> \<not> sr_deleted r) (schedule_runs db) of
        None \<Rightarrow> Inl (NotFoundError ''Schedule run not found'') | Some r \<Rightarrow> Inr r)"

definition load_schedule :: "uuid \<Rightarrow> sched_db \<Rightarrow> app_error + schedule" where
  "load_schedule i db =
     (case find (\<lambda>s. sd_id s = i \<and> \<not> sd_deleted s) (schedules db) of
        None \<Rightarrow> Inl (NotFoundError ''Schedule not found'') | Some s \<Rightarrow> Inr s)"

definition load_agent :: "uuid \<Rightarrow> sched_db \<Rightarrow> app_error + agent" where
  "load_agent i db =
     (case find (\<lambda>a. ag_id a = i \<and> \<not> ag_deleted a) (agents (s_runs db)) of
        None \<Rightarrow> Inl (NotFoundError ''Agent not found'') | Some a \<Rightarrow> Inr a)"

definition load_agent_run :: "uuid \<Rightarrow> sched_db \<Rightarrow> app_error + agent_run" where
  "load_agent_run i db =
     (case find (\<lambda>r. ar_id r = i \<and> \<not> ar_deleted r) (agent_runs (s_runs db)) of
        None \<Rightarrow> Inl (NotFoundError ''Agent run not found'') | Some r \<Rightarrow> Inr r)"

definition ensure_conversation ::
    "sched_env \<Rightarrow> uuid \<Rightarrow> schedule \<Rightarrow> schedule_run \<Rightarrow> sched_db \<Rightarrow>
     app_error + conversation \<times> schedule_run \<times> sched_db" where
  "ensure_conversation env fresh s r db =
     (case sr_conversation_id r of
        Some c \<Rightarrow>
          (case find (\<lambda>x. cv_id x = c \<and> \<not> cv_deleted x) (conversations (s_runs db)) of
             None \<Rightarrow> Inl (NotFoundError ''Scheduled conversation not found'')
           | Some x \<Rightarrow> Inr (x, r, db))
      | None \<Rightarrow>
          bind_result (get_workspace_or_raise (s_ws db) (sd_workspace_id s) False) (\<lambda>_.
            (let x = \<lparr>cv_id = fresh, cv_workspace_id = sd_workspace_id s, cv_user_id = sd_user_id s,
                      cv_active_agent_id = Some (sd_agent_id s), cv_deleted = False\<rparr>
             in if fresh \<in> cv_id ` set (conversations (s_runs db)) then Inl (IntegrityError ''conversations_pkey'')
                else bind_result (case sd_active_context s of None \<Rightarrow> Inr () | Some t \<Rightarrow> se_targets env t) (\<lambda>_.
                  Inr (x, r\<lparr>sr_conversation_id := Some fresh\<rparr>,
                    db\<lparr>s_runs := (s_runs db)\<lparr>conversations := conversations (s_runs db) @ [x]\<rparr>\<rparr>)))))"

definition run_metadata :: "sched_env \<Rightarrow> schedule \<Rightarrow> schedule_run \<Rightarrow> pydict" where
  "run_metadata env s r =
     (let base = [(''schedule_id'', JStr (e_uuid_text (se_run env) (sd_id s))),
                  (''schedule_run_id'', JStr (e_uuid_text (se_run env) (sr_id r))),
                  (''scheduled_for'', JStr (e_isoformat (se_run env) (sr_scheduled_for r))),
                  (''envelope'', JObj [(''side_effect_policy'', JStr (se_policy env (sd_execution_params s)))])]
      in case se_contract env (sd_execution_params s) of
           None \<Rightarrow> base | Some c \<Rightarrow> base @ [(''completion_contract'', c)])"

definition validate_schedule_run_link :: "schedule_run \<Rightarrow> agent_run \<Rightarrow> app_error + unit" where
  "validate_schedule_run_link r run =
     (if ar_trigger run \<noteq> Scheduled \<or>
         (sr_agent_run_id r \<noteq> None \<and> sr_agent_run_id r \<noteq> Some (ar_id run)) \<or>
         sr_workspace_id r \<noteq> ar_workspace_id run \<or> sr_user_id r \<noteq> ar_user_id run \<or>
         sr_agent_id r \<noteq> ar_agent_id run \<or>
         (sr_conversation_id r \<noteq> None \<and> sr_conversation_id r \<noteq> Some (ar_conversation_id run))
      then Inl (ConflictError ''Schedule run cannot be linked to this agent run'')
      else Inr ())"

definition link_schedule_run :: "schedule_run \<Rightarrow> agent_run \<Rightarrow> app_error + schedule_run" where
  "link_schedule_run r run =
     bind_result (validate_schedule_run_link r run) (\<lambda>_. Inr (r\<lparr>sr_agent_run_id := Some (ar_id run)\<rparr>))"

definition ensure_agent_run ::
    "sched_env \<Rightarrow> timestamp \<Rightarrow> uuid \<Rightarrow> schedule \<Rightarrow> schedule_run \<Rightarrow> conversation \<Rightarrow> sched_db \<Rightarrow>
     app_error + agent_run \<times> schedule_run \<times> sched_db" where
  "ensure_agent_run env now fresh s r c db =
     (case sr_agent_run_id r of
        Some i \<Rightarrow>
          (case find (\<lambda>x. ar_id x = i \<and> \<not> ar_deleted x) (agent_runs (s_runs db)) of
             None \<Rightarrow> Inl (NotFoundError ''Linked agent run not found'')
           | Some run \<Rightarrow> Inr (run, r, db))
      | None \<Rightarrow>
          bind_result (create_agent_run now fresh
              \<lparr>rq_conversation_id = cv_id c, rq_agent_id = sd_agent_id s, rq_workspace_id = sd_workspace_id s,
               rq_user_id = sd_user_id s, rq_trigger = Scheduled, rq_model_name = None,
               rq_metadata = Some (run_metadata env s r), rq_parent_run_id = None, rq_parent_owner = None,
               rq_delegation_depth = 0\<rparr> (s_runs db)) (\<lambda>(run, rdb).
          bind_result (link_schedule_run r run) (\<lambda>r'.
            Inr (run, r', db\<lparr>s_runs := rdb\<rparr>))))"

text \<open>\<open>fc\<close>, \<open>fr\<close>, \<open>owner\<close>: the fresh conversation, agent run and invocation identifiers.\<close>

definition prepare_schedule_run_execution ::
    "sched_env \<Rightarrow> timestamp \<Rightarrow> uuid \<Rightarrow> uuid \<Rightarrow> string \<Rightarrow> uuid \<Rightarrow> sched_db \<Rightarrow> app_error + prepared_run \<times> sched_db" where
  "prepare_schedule_run_execution env now fc fr owner i db =
     bind_result (load_schedule_run i db) (\<lambda>r.
     bind_result (load_schedule (sr_schedule_id r) db) (\<lambda>s.
     bind_result (load_agent (sd_agent_id s) db) (\<lambda>_.
       (let not_executed = \<lparr>p_schedule_id = sd_id s, p_schedule_run_id = sr_id r, p_conversation_id = None,
              p_agent_run_id = None, p_prompt = None, p_owner = owner\<rparr>;
            prompt = collapse_whitespace (or_string (sd_default_prompt s) [])
        in if sr_status r \<noteq> SrClaimed then Inl (ConflictError ''Schedule run is not claimed for execution'')
           else if get_active_membership (s_ws db) (sd_workspace_id s) (sd_user_id s) = None
           then Inr (not_executed, mark_run_terminal_failure_and_disable_schedule now
             ''workspace_membership_revoked'' ''Schedule owner no longer has access to this workspace.'' s r db)
           else if prompt = []
           then Inr (not_executed, mark_run_terminal_failure_and_disable_schedule now
             ''missing_default_prompt'' ''Schedule has no default prompt to execute.'' s r db)
           else
             bind_result (ensure_conversation env fc s r db) (\<lambda>(c, r1, db1).
             bind_result (ensure_agent_run env now fr s r1 c db1) (\<lambda>(run, r2, db2).
             bind_result (claim_agent_run_execution (se_run env) (ar_id run) owner now None (s_runs db2))
               (\<lambda>(run', rdb).
                 (let r3 = r2\<lparr>sr_status := SrRunning, sr_accepted_at := Some now, sr_claim_expires_at := None,
                            sr_error_code := None, sr_error_message := None\<rparr>
                  in Inr (not_executed\<lparr>p_conversation_id := Some (cv_id c), p_agent_run_id := Some (ar_id run),
                            p_prompt := Some prompt\<rparr>,
                          db2\<lparr>s_runs := rdb, schedule_runs := write_row sr_id r3 (schedule_runs db2)\<rparr>)))))))))"

text \<open>
  What the worker does when the preparation raised and was rolled back: \<open>code\<close> and \<open>message\<close> describe the
  exception.
\<close>

definition record_claim_setup_failure ::
    "agent_settings \<Rightarrow> timestamp \<Rightarrow> string \<Rightarrow> string \<Rightarrow> uuid \<Rightarrow> sched_db \<Rightarrow> sched_db" where
  "record_claim_setup_failure cfg now code message i db =
     (case find (\<lambda>r. sr_id r = i \<and> \<not> sr_deleted r) (schedule_runs db) of
        None \<Rightarrow> db
      | Some r \<Rightarrow>
          (case find (\<lambda>s. sd_id s = sr_schedule_id r \<and> \<not> sd_deleted s) (schedules db) of
             None \<Rightarrow> db
           | Some s \<Rightarrow>
               record_retryable_failure now code message message (AGENT_SCHEDULE_RUN_MAX_ATTEMPTS cfg) s r db))"

definition error_class :: "app_error \<Rightarrow> string" where
  "error_class e = (case e of
      NotFoundError _ \<Rightarrow> ''NotFoundError'' | ConflictError _ \<Rightarrow> ''ConflictError''
    | AuthorizationError _ \<Rightarrow> ''AuthorizationError'' | AppValidationError _ \<Rightarrow> ''AppValidationError''
    | CustomValueError _ \<Rightarrow> ''CustomValueError'' | ValueError _ \<Rightarrow> ''ValueError''
    | RuntimeError _ \<Rightarrow> ''RuntimeError'' | IntegrityError _ \<Rightarrow> ''IntegrityError''
    | InvalidRequestError _ \<Rightarrow> ''InvalidRequestError'')"

text \<open>\<^verbatim>\<open>_prepare\<close>: the preparation, or the record of its failure; \<open>text_of\<close> is \<^verbatim>\<open>str(exc)\<close>.\<close>

definition prepare_claimed_run ::
    "sched_env \<Rightarrow> (app_error \<Rightarrow> string) \<Rightarrow> timestamp \<Rightarrow> timestamp \<Rightarrow> uuid \<Rightarrow> uuid \<Rightarrow> string \<Rightarrow> uuid \<Rightarrow> sched_db \<Rightarrow>
     prepared_run option \<times> sched_db" where
  "prepare_claimed_run env text_of now now2 fc fr owner i db =
     (if row_by_id sr_id i (schedule_runs db) = None then (None, db)
      else case prepare_schedule_run_execution env now fc fr owner i db of
             Inr (p, db') \<Rightarrow> (Some p, db')
           | Inl e \<Rightarrow> (None, record_claim_setup_failure (e_settings (se_run env)) now2 (error_class e)
               (if text_of e = [] then error_class e else text_of e) i db))"

section \<open>Finalizing\<close>

definition terminal_error_code :: "run_status \<Rightarrow> string" where
  "terminal_error_code st = (if st = RunCancelled then ''agent_run_cancelled'' else ''agent_run_failed'')"

definition terminal_error_message :: "run_status \<Rightarrow> string" where
  "terminal_error_message st =
     (if st = RunCancelled then ''Scheduled agent run was cancelled.'' else ''Scheduled agent run failed.'')"

definition prune_failed_empty_conversation_for_run ::
    "(uuid \<Rightarrow> nat) \<Rightarrow> (uuid \<Rightarrow> bool) \<Rightarrow> uuid \<Rightarrow> uuid \<Rightarrow> run_db \<Rightarrow> run_db" where
  "prune_failed_empty_conversation_for_run message_count prunable_source conversation_id run_id db =
     (case find (\<lambda>r. ar_id r = run_id \<and> \<not> ar_deleted r) (agent_runs db) of
        None \<Rightarrow> db
      | Some run \<Rightarrow>
          (case find (\<lambda>c. cv_id c = conversation_id \<and> \<not> cv_deleted c) (conversations db) of
             None \<Rightarrow> db
           | Some c \<Rightarrow>
               if ar_conversation_id run \<noteq> cv_id c \<or> ar_status run \<noteq> RunFailed \<or> \<not> prunable_source (cv_id c) \<or>
                  message_count (cv_id c) \<noteq> 0 \<or>
                  rowcount (\<lambda>r. ar_conversation_id r = cv_id c \<and> ar_id r \<noteq> ar_id run \<and> \<not> ar_deleted r)
                    (agent_runs db) \<noteq> 0
               then db
               else db\<lparr>conversations := write_row cv_id (c\<lparr>cv_deleted := True\<rparr>) (conversations db)\<rparr>))"

definition finalize_schedule_run_execution ::
    "sched_env \<Rightarrow> timestamp \<Rightarrow> uuid \<Rightarrow> uuid \<Rightarrow> sched_db \<Rightarrow> app_error + sched_db" where
  "finalize_schedule_run_execution env now i run_id db =
     bind_result (load_schedule_run i db) (\<lambda>r.
     bind_result (load_schedule (sr_schedule_id r) db) (\<lambda>s.
     bind_result (load_agent_run run_id db) (\<lambda>run.
       if sr_agent_run_id r \<noteq> Some (ar_id run)
       then Inl (ConflictError ''Schedule run is linked to a different agent run'')
       else if sr_status r \<in> TERMINAL_SCHEDULE_RUN_STATUSES then Inr db
       else if ar_status run = RunCompleted then mark_run_completed (se_timing env) now s r db
       else if ar_status run = RunAwaitingApproval
       then Inr (db\<lparr>schedule_runs := write_row sr_id
              (r\<lparr>sr_status := SrAwaitingApproval, sr_claim_expires_at := None\<rparr>) (schedule_runs db)\<rparr>)
       else if ar_status run \<in> {RunFailed, RunCancelled}
       then
         (let db1 = mark_run_terminal_failure_and_disable_schedule now
                (or_string (ar_error_code run) (terminal_error_code (ar_status run)))
                (or_string (ar_error_message run) (terminal_error_message (ar_status run))) s r db
          in case sr_conversation_id r of
               None \<Rightarrow> Inr db1
             | Some c \<Rightarrow> Inr (db1\<lparr>s_runs := prune_failed_empty_conversation_for_run (se_message_count env)
                 (se_prunable_source env) c (ar_id run) (s_runs db1)\<rparr>))
       else Inl (ConflictError ''Agent run is still active and cannot finalize its schedule run''))))"

section \<open>Reconciling\<close>

definition needs_reconciliation :: "sched_db \<Rightarrow> schedule_run \<Rightarrow> bool" where
  "needs_reconciliation db r \<longleftrightarrow>
     \<not> sr_deleted r \<and>
     (sr_status r \<in> {SrAccepted, SrRunning} \<or>
      (sr_status r = SrAwaitingApproval \<and>
       (case sr_agent_run_id r of
          None \<Rightarrow> False
        | Some i \<Rightarrow> (case row_by_id ar_id i (agent_runs (s_runs db)) of
            None \<Rightarrow> False | Some run \<Rightarrow> is_terminal (ar_status run)))))"

definition without_agent_run_is_stale :: "agent_settings \<Rightarrow> timestamp \<Rightarrow> schedule_run \<Rightarrow> bool" where
  "without_agent_run_is_stale cfg now r \<longleftrightarrow>
     null_le (sr_claim_expires_at r) now \<or>
     null_le (sr_accepted_at r) (now - timedelta_seconds (AGENT_SCHEDULE_RUN_CLAIM_TTL_SECONDS cfg))"

definition mark_stale_pre_execution_failure ::
    "agent_settings \<Rightarrow> timestamp \<Rightarrow> schedule_run \<Rightarrow> sched_db \<Rightarrow> sched_db" where
  "mark_stale_pre_execution_failure cfg now r db =
     (case find (\<lambda>s. sd_id s = sr_schedule_id r \<and> \<not> sd_deleted s) (schedules db) of
        None \<Rightarrow> db
      | Some s \<Rightarrow>
          record_retryable_failure now ''schedule_execution_abandoned''
            ''Schedule run was abandoned before an agent run was linked.''
            ''Schedule run exceeded setup retry attempts before execution.''
            (AGENT_SCHEDULE_RUN_MAX_ATTEMPTS cfg) s r db)"

definition finalize_if_agent_run_ready ::
    "sched_env \<Rightarrow> timestamp \<Rightarrow> uuid \<Rightarrow> uuid \<Rightarrow> sched_db \<Rightarrow> app_error + bool \<times> sched_db" where
  "finalize_if_agent_run_ready env now i run_id db =
     (case find (\<lambda>r. ar_id r = run_id \<and> \<not> ar_deleted r) (agent_runs (s_runs db)) of
        None \<Rightarrow> Inr (False, db)
      | Some run \<Rightarrow>
          if \<not> (is_terminal (ar_status run) \<or> ar_status run = RunAwaitingApproval) then Inr (False, db)
          else bind_result (finalize_schedule_run_execution env now i (ar_id run) db) (\<lambda>db'. Inr (True, db')))"

fun reconcile_loop ::
    "sched_env \<Rightarrow> timestamp \<Rightarrow> schedule_run list \<Rightarrow> nat \<Rightarrow> sched_db \<Rightarrow> app_error + nat \<times> sched_db" where
  "reconcile_loop env now [] n db = Inr (n, db)"
| "reconcile_loop env now (r # rs) n db =
     (case sr_agent_run_id r of
        Some run_id \<Rightarrow>
          bind_result (finalize_if_agent_run_ready env now (sr_id r) run_id db) (\<lambda>(ready, db1).
            reconcile_loop env now rs (if ready then n + 1 else n) db1)
      | None \<Rightarrow>
          if \<not> without_agent_run_is_stale (e_settings (se_run env)) now r then reconcile_loop env now rs n db
          else reconcile_loop env now rs (n + 1)
            (mark_stale_pre_execution_failure (e_settings (se_run env)) now r db))"

definition select_to_reconcile :: "int option \<Rightarrow> (uuid \<Rightarrow> bool) \<Rightarrow> sched_db \<Rightarrow> schedule_run list" where
  "select_to_reconcile batch_size unlocked db =
     take (nat (or_default batch_size 100)) (filter (\<lambda>r. unlocked (sr_id r))
       (sort_key sr_created_at (filter (needs_reconciliation db) (schedule_runs db))))"

definition reconcile_schedule_run_execution ::
    "sched_env \<Rightarrow> timestamp \<Rightarrow> nat \<Rightarrow> int option \<Rightarrow> (uuid \<Rightarrow> bool) \<Rightarrow> sched_db \<Rightarrow> app_error + nat \<times> sched_db" where
  "reconcile_schedule_run_execution env now reaper_batch batch_size unlocked db =
     bind_result (reap_abandoned_runs (se_run env) now None None None None reaper_batch (s_runs db)) (\<lambda>(_, rdb).
       (let db1 = db\<lparr>s_runs := rdb\<rparr>
        in reconcile_loop env now (select_to_reconcile batch_size unlocked db1) 0 db1))"

text \<open>
  One polling pass up to its first claim (\<^verbatim>\<open>run_once\<close>): the reconciliation commits first, and its exception
  ends the pass.
\<close>

definition run_once_claim ::
    "sched_env \<Rightarrow> timestamp \<Rightarrow> timestamp \<Rightarrow> nat \<Rightarrow> (uuid \<Rightarrow> bool) \<Rightarrow> (uuid \<Rightarrow> uuid) \<Rightarrow> (uuid \<Rightarrow> uuid) \<Rightarrow> sched_db \<Rightarrow>
     app_error + schedule_run list \<times> sched_db" where
  "run_once_claim env now now2 reaper_batch unlocked fresh token db =
     bind_result (reconcile_schedule_run_execution env now reaper_batch None unlocked db) (\<lambda>(_, db1).
       claim_due_schedule_runs now2 1
         (AGENT_SCHEDULE_RUN_CLAIM_TTL_SECONDS (e_settings (se_run env))) unlocked fresh token db1)"

end
