(* ===== verification/Schedule_Ledger.thy ===== *)
theory Schedule_Ledger
  imports Schedule_Runs
begin

text \<open>
  The invariant of the schedule tables and the effect of each worker step on them: keys stay unique,
  a claim always carries an expiry, a run that executes or waits is linked to its agent run, and a
  step touches only the rows of its own schedule.
\<close>

section \<open>The invariant\<close>

definition sr_row_ok :: "schedule_run \<Rightarrow> bool" where
  "sr_row_ok r \<longleftrightarrow>
     sr_attempt_count r \<ge> 0 \<and>
     (sr_status r = SrClaimed \<longleftrightarrow> sr_claim_expires_at r \<noteq> None) \<and>
     (sr_status r \<in> {SrRunning, SrAwaitingApproval} \<longrightarrow> sr_agent_run_id r \<noteq> None) \<and>
     (sr_status r = SrCompleted \<longrightarrow> sr_completed_at r \<noteq> None) \<and>
     (sr_status r \<in> {SrRetryableFailed, SrTerminalFailed} \<longrightarrow> sr_failed_at r \<noteq> None) \<and>
     sr_status r \<notin> {SrAccepted, SrCancelled}"

definition fire_key :: "schedule_run \<Rightarrow> uuid \<times> timestamp" where
  "fire_key r = (sr_schedule_id r, sr_scheduled_for r)"

definition sched_inv :: "sched_db \<Rightarrow> bool" where
  "sched_inv db \<longleftrightarrow>
     distinct (map sd_id (schedules db)) \<and> distinct (map sr_id (schedule_runs db)) \<and>
     distinct (map fire_key (schedule_runs db)) \<and> (\<forall>r \<in> set (schedule_runs db). sr_row_ok r)"

lemma sched_invD:
  assumes "sched_inv db"
  shows "distinct (map sd_id (schedules db))" "distinct (map sr_id (schedule_runs db))"
    "distinct (map fire_key (schedule_runs db))" "\<And>r. r \<in> set (schedule_runs db) \<Longrightarrow> sr_row_ok r"
  using assms by (simp_all add: sched_inv_def)

lemma map_write_row_keep:
  assumes "distinct (map key T)" and "r \<in> set T" and "key r' = key r" and "f r' = f r"
  shows "map f (write_row key r' T) = map f T"
proof -
  have "f (if key x = key r' then r' else x) = f x" if "x \<in> set T" for x
  proof (cases "key x = key r'")
    case True
    with assms that have "x = r" by (intro distinct_key_eq [of key T]) simp_all
    with assms(4) show ?thesis by simp
  qed simp
  then show ?thesis by (simp add: write_row_def update_where_def)
qed

lemma sched_inv_write_run:
  assumes "sched_inv db" and "r \<in> set (schedule_runs db)" and "sr_id r' = sr_id r" and "fire_key r' = fire_key r"
    and "sr_row_ok r'" and "schedule_runs db' = write_row sr_id r' (schedule_runs db)"
    and "map sd_id (schedules db') = map sd_id (schedules db)"
  shows "sched_inv db'"
proof -
  note D = sched_invD [OF assms(1)]
  have "map sr_id (schedule_runs db') = map sr_id (schedule_runs db)" by (simp add: assms(6))
  moreover have "map fire_key (schedule_runs db') = map fire_key (schedule_runs db)"
    unfolding assms(6) by (rule map_write_row_keep [OF D(2) assms(2-4)])
  moreover have "sr_row_ok q" if "q \<in> set (schedule_runs db')" for q
    using that D(4) assms(5) unfolding assms(6) in_write_row by auto
  ultimately show ?thesis using D(1-3) assms(7) by (simp add: sched_inv_def)
qed

lemma sched_inv_same_runs:
  assumes "sched_inv db" and "schedule_runs db' = schedule_runs db" and "distinct (map sd_id (schedules db'))"
  shows "sched_inv db'"
  using assms by (simp add: sched_inv_def)

lemma mark_terminal_tables:
  "schedules (mark_run_terminal_failure_and_disable_schedule now c m s r db) =
     write_row sd_id (stop_schedule s) (schedules db)"
  "schedule_runs (mark_run_terminal_failure_and_disable_schedule now c m s r db) =
     write_row sr_id (fail_run_terminally now c m r) (schedule_runs db)"
  "s_runs (mark_run_terminal_failure_and_disable_schedule now c m s r db) = s_runs db"
  "s_ws (mark_run_terminal_failure_and_disable_schedule now c m s r db) = s_ws db"
  by (simp_all add: mark_run_terminal_failure_and_disable_schedule_def write_pair_def)

lemma fail_run_terminally_keeps:
  "sr_id (fail_run_terminally now c m r) = sr_id r" "fire_key (fail_run_terminally now c m r) = fire_key r"
  "sr_schedule_id (fail_run_terminally now c m r) = sr_schedule_id r"
  "sr_attempt_count r \<ge> 0 \<Longrightarrow> sr_row_ok (fail_run_terminally now c m r)"
  by (simp_all add: fail_run_terminally_def fire_key_def sr_row_ok_def)

lemma stop_schedule_id [simp]: "sd_id (stop_schedule s) = sd_id s"
  by (simp add: stop_schedule_def)

lemma mark_terminal_inv:
  assumes "sched_inv db" and "r \<in> set (schedule_runs db)" and "sr_id r' = sr_id r" and "fire_key r' = fire_key r"
    and "sr_attempt_count r' \<ge> 0"
  shows "sched_inv (mark_run_terminal_failure_and_disable_schedule now c m s r' db)"
  by (rule sched_inv_write_run [OF assms(1,2) _ _ _ mark_terminal_tables(2)])
    (use assms in \<open>simp_all add: fail_run_terminally_keeps mark_terminal_tables\<close>)

section \<open>Retryable failures\<close>

lemma retryable_keeps:
  assumes "mark_run_retryable_failure now c m n r = (exhausted, r')"
  shows "sr_id r' = sr_id r \<and> fire_key r' = fire_key r \<and> sr_attempt_count r' = sr_attempt_count r \<and>
    exhausted = (sr_attempt_count r \<ge> n) \<and>
    sr_status r' = (if exhausted then SrTerminalFailed else SrRetryableFailed) \<and>
    sr_failed_at r' = Some now \<and> sr_claim_expires_at r' = None"
  using assms by (auto simp: mark_run_retryable_failure_def Let_def fire_key_def split: if_splits)

lemma record_retryable_inv:
  assumes "sched_inv db" and "r \<in> set (schedule_runs db)"
  shows "sched_inv (record_retryable_failure now c m m2 n s r db)"
proof -
  obtain exhausted r' where m: "mark_run_retryable_failure now c m n r = (exhausted, r')" by fastforce
  note k = retryable_keeps [OF m]
  have att: "sr_attempt_count r \<ge> 0" using sched_invD(4) [OF assms] by (simp add: sr_row_ok_def)
  show ?thesis
  proof (cases exhausted)
    case True
    then have "record_retryable_failure now c m m2 n s r db =
        mark_run_terminal_failure_and_disable_schedule now c m2 s r' db"
      by (simp add: record_retryable_failure_def m)
    then show ?thesis using mark_terminal_inv [OF assms] k att by simp
  next
    case False
    then have eq: "record_retryable_failure now c m m2 n s r db =
        db\<lparr>schedule_runs := write_row sr_id r' (schedule_runs db)\<rparr>"
      by (simp add: record_retryable_failure_def m)
    show ?thesis unfolding eq
      by (rule sched_inv_write_run [OF assms]) (use k att False in \<open>simp_all add: sr_row_ok_def\<close>)
  qed
qed

lemma record_retryable_row:
  assumes "sched_inv db" and "r \<in> set (schedule_runs db)"
  shows "\<exists>r' \<in> set (schedule_runs (record_retryable_failure now c m m2 n s r db)). sr_id r' = sr_id r \<and>
    sr_status r' = (if sr_attempt_count r \<ge> n then SrTerminalFailed else SrRetryableFailed) \<and>
    sr_failed_at r' = Some now"
proof -
  obtain exhausted r' where m: "mark_run_retryable_failure now c m n r = (exhausted, r')" by fastforce
  note k = retryable_keeps [OF m]
  have key: "sr_id r \<in> sr_id ` set (schedule_runs db)" using assms(2) by simp
  show ?thesis
  proof (cases exhausted)
    case True
    let ?q = "fail_run_terminally now c m2 r'"
    have "?q \<in> set (schedule_runs (record_retryable_failure now c m m2 n s r db))"
      using True k key by (simp add: record_retryable_failure_def m mark_terminal_tables in_write_row fail_run_terminally_keeps)
    moreover have "sr_id ?q = sr_id r \<and> sr_status ?q = SrTerminalFailed \<and> sr_failed_at ?q = Some now"
      using k by (simp add: fail_run_terminally_def)
    ultimately show ?thesis using True k by auto
  next
    case False
    then have "r' \<in> set (schedule_runs (record_retryable_failure now c m m2 n s r db))"
      using k key by (simp add: record_retryable_failure_def m in_write_row)
    then show ?thesis using False k by auto
  qed
qed

section \<open>Claiming\<close>

lemma current_run_Some:
  "current_run db s = Some r \<Longrightarrow> r \<in> set (schedule_runs db) \<and> sr_schedule_id r = sd_id s \<and>
     sd_next_run_at s = Some (sr_scheduled_for r) \<and> \<not> sr_deleted r"
  by (auto simp: current_run_def split: option.splits dest!: find_SomeD)

lemma get_or_create_effect:
  assumes "get_or_create_run_for_schedule now fresh s db = Inr (Some r, db1)"
  shows "r \<in> set (schedule_runs db1) \<and> sr_schedule_id r = sd_id s \<and> sd_next_run_at s = Some (sr_scheduled_for r) \<and>
    \<not> sr_deleted r \<and> schedules db1 = schedules db \<and> s_runs db1 = s_runs db \<and> s_ws db1 = s_ws db \<and>
    (current_run db s = Some r \<and> db1 = db \<or>
     current_run db s = None \<and> sr_attempt_count r = 0 \<and> sr_status r = SrPending \<and>
       schedule_runs db1 = schedule_runs db @ [r] \<and>
       sr_id r \<notin> sr_id ` set (schedule_runs db) \<and> fire_key r \<notin> fire_key ` set (schedule_runs db) \<and> sr_row_ok r)"
proof (cases "current_run db s")
  case (Some q)
  with assms have "q = r" "db1 = db"
    by (auto simp: get_or_create_run_for_schedule_def split: option.splits)
  with current_run_Some [OF Some] Some show ?thesis by simp
next
  case None
  then obtain t where t: "sd_next_run_at s = Some t" and r: "r = new_schedule_run now fresh t s"
    and db1: "db1 = db\<lparr>schedule_runs := schedule_runs db @ [r]\<rparr>"
    and new: "fresh \<notin> sr_id ` set (schedule_runs db)"
      "\<not> (\<exists>q \<in> set (schedule_runs db). sr_schedule_id q = sd_id s \<and> sr_scheduled_for q = t)"
    using assms by (auto simp: get_or_create_run_for_schedule_def Let_def split: option.splits if_splits)
  have "fire_key r \<notin> fire_key ` set (schedule_runs db)"
  proof
    assume "fire_key r \<in> fire_key ` set (schedule_runs db)"
    then obtain q where "q \<in> set (schedule_runs db)" "fire_key q = fire_key r" by (auto simp: image_iff)
    with new(2) show False by (auto simp: fire_key_def r new_schedule_run_def)
  qed
  with None t new(1) show ?thesis by (simp add: db1 r new_schedule_run_def sr_row_ok_def)
qed

lemma get_or_create_inv:
  assumes "sched_inv db" and "get_or_create_run_for_schedule now fresh s db = Inr (found, db1)"
  shows "sched_inv db1"
proof (cases found)
  case None
  with assms show ?thesis
    by (auto simp: get_or_create_run_for_schedule_def Let_def split: option.splits if_splits)
next
  case (Some r)
  with get_or_create_effect [of now fresh s db r db1] assms show ?thesis by (auto simp: sched_inv_def)
qed

text \<open>The rows of other schedules are out of a step's reach.\<close>

definition only_schedule :: "uuid \<Rightarrow> sched_db \<Rightarrow> sched_db \<Rightarrow> bool" where
  "only_schedule i db db' \<longleftrightarrow>
     (\<forall>r. sr_schedule_id r \<noteq> i \<longrightarrow> (r \<in> set (schedule_runs db') \<longleftrightarrow> r \<in> set (schedule_runs db))) \<and>
     (\<forall>s. sd_id s \<noteq> i \<longrightarrow> (s \<in> set (schedules db') \<longleftrightarrow> s \<in> set (schedules db)))"

lemma only_schedule_write:
  assumes "sched_inv db1" and "r \<in> set (schedule_runs db1)" and "sr_id r' = sr_id r" and "sr_schedule_id r = i"
    and "sr_schedule_id r' = i" and "only_schedule i db db1"
    and "schedule_runs db' = write_row sr_id r' (schedule_runs db1)"
    and "schedules db' = schedules db1 \<or> (\<exists>s. sd_id s = i \<and> schedules db' = write_row sd_id s (schedules db1))"
  shows "only_schedule i db db'"
proof -
  have "q \<in> set (schedule_runs db') \<longleftrightarrow> q \<in> set (schedule_runs db1)" if "sr_schedule_id q \<noteq> i" for q
  proof -
    have "sr_id q = sr_id r' \<Longrightarrow> q \<in> set (schedule_runs db1) \<Longrightarrow> q = r"
      using distinct_key_eq [OF sched_invD(2) [OF assms(1)] _ assms(2), of q] assms(3) by simp
    then show ?thesis unfolding assms(7) in_write_row using that assms(4,5) by auto
  qed
  moreover have "s \<in> set (schedules db') \<longleftrightarrow> s \<in> set (schedules db1)" if "sd_id s \<noteq> i" for s
    using assms(8) that by (auto simp: in_write_row)
  ultimately show ?thesis using assms(6) by (simp add: only_schedule_def)
qed

lemma get_or_create_only:
  assumes "get_or_create_run_for_schedule now fresh s db = Inr (Some r, db1)"
  shows "only_schedule (sd_id s) db db1"
  using get_or_create_effect [OF assms] by (auto simp: only_schedule_def)

end
