(* ===== verification/Schedule_Steps.thy ===== *)
theory Schedule_Steps
  imports Schedule_Ledger Run_System
begin

text \<open>
  What the worker steps do to the ledger: a claiming pass, the preparation of a claimed run, its
  finalization and the reconciliation, each with its effect and the preservation of \<open>sched_inv\<close>.
\<close>

section \<open>The claiming pass\<close>

text \<open>A run that no claim may touch: it executes, waits, is closed, or its claim has not expired.\<close>

definition claim_open :: "timestamp \<Rightarrow> schedule_run \<Rightarrow> bool" where
  "claim_open now r \<longleftrightarrow> sr_status r \<in> {SrPending, SrRetryableFailed} \<or>
     (sr_status r = SrClaimed \<and> null_le (sr_claim_expires_at r) now)"

definition agent_runnable :: "sched_db \<Rightarrow> schedule \<Rightarrow> bool" where
  "agent_runnable db s \<longleftrightarrow> (\<exists>a. row_by_id ag_id (sd_agent_id s) (agents (s_runs db)) = Some a \<and>
     \<not> ag_deleted a \<and> ag_is_active a)"

text \<open>The run that a claim of schedule \<open>s\<close> hands out: the current run, or a new one, claimed once more.\<close>

definition claimed_from :: "timestamp \<Rightarrow> int \<Rightarrow> uuid \<Rightarrow> uuid \<Rightarrow> sched_db \<Rightarrow> schedule \<Rightarrow> schedule_run \<Rightarrow> bool" where
  "claimed_from now ttl fresh token db s r' \<longleftrightarrow>
     (\<exists>r. (current_run db s = Some r \<and> claim_open now r \<or>
           current_run db s = None \<and> (\<exists>t. sd_next_run_at s = Some t \<and> r = new_schedule_run now fresh t s)) \<and>
          r' = claim_run now ttl token r)"

lemma due_current:
  "due_schedule now db s \<Longrightarrow> current_run db s = Some r \<Longrightarrow> claim_open now r"
  by (auto simp: due_schedule_def claim_open_def split: if_splits)

lemma due_next: "due_schedule now db s \<Longrightarrow> \<exists>t. sd_next_run_at s = Some t \<and> t \<le> now"
  by (auto simp: due_schedule_def null_le_iff)

lemma claim_run_keeps [simp]:
  "sr_id (claim_run now ttl tok r) = sr_id r" "fire_key (claim_run now ttl tok r) = fire_key r"
  "sr_schedule_id (claim_run now ttl tok r) = sr_schedule_id r"
  "sr_scheduled_for (claim_run now ttl tok r) = sr_scheduled_for r"
  "sr_attempt_count (claim_run now ttl tok r) = sr_attempt_count r + 1"
  "sr_status (claim_run now ttl tok r) = SrClaimed"
  "sr_claim_expires_at (claim_run now ttl tok r) = Some (now + timedelta_seconds ttl)"
  "sr_claim_token (claim_run now ttl tok r) = Some tok"
  by (simp_all add: claim_run_def fire_key_def)

lemma claim_run_ok: "sr_attempt_count r \<ge> 0 \<Longrightarrow> sr_row_ok (claim_run now ttl tok r)"
  by (simp add: sr_row_ok_def claim_run_def)

lemma get_or_create_fresh:
  assumes "get_or_create_run_for_schedule now fresh s db = Inr (Some r, db1)" and "current_run db s = None"
  shows "\<exists>t. sd_next_run_at s = Some t \<and> r = new_schedule_run now fresh t s"
  using assms by (auto simp: get_or_create_run_for_schedule_def Let_def split: option.splits if_splits)

lemma claim_one_cases:
  assumes "claim_one_schedule now ttl fresh tok s db = Inr (res, db')" and "due_schedule now db s"
  obtains (claimed) r db1 where "get_or_create_run_for_schedule now fresh s db = Inr (Some r, db1)"
      "agent_runnable db s" "claim_open now r" "res = Some (claim_run now ttl tok r)"
      "db' = db1\<lparr>schedule_runs := write_row sr_id (claim_run now ttl tok r) (schedule_runs db1)\<rparr>"
  | (refused) r db1 c m where "get_or_create_run_for_schedule now fresh s db = Inr (Some r, db1)"
      "\<not> agent_runnable db s" "claim_open now r" "res = None"
      "db' = mark_run_terminal_failure_and_disable_schedule now c m s r db1"
proof -
  from assms(1) obtain found db1 where g: "get_or_create_run_for_schedule now fresh s db = Inr (found, db1)"
    by (auto simp: claim_one_schedule_def bind_result_Inr)
  have "found \<noteq> None"
  proof
    assume "found = None"
    with due_next [OF assms(2)] g show False
      by (auto simp: get_or_create_run_for_schedule_def Let_def split: option.splits if_splits)
  qed
  then obtain r where found: "found = Some r" by blast
  note g = g [unfolded found]
  note E = get_or_create_effect [OF g]
  have "claim_open now r" using E due_current [OF assms(2)] by (auto simp: claim_open_def)
  then have cl: "\<not> (sr_status r \<in> NON_CLAIMABLE_RUN_STATUSES \<or> sr_status r \<notin> CLAIMABLE_RUN_STATUSES)"
      "\<not> (sr_status r = SrClaimed \<and> (sr_claim_expires_at r = None \<or> null_gt (sr_claim_expires_at r) now))"
    by (auto simp: claim_open_def NON_CLAIMABLE_RUN_STATUSES_def CLAIMABLE_RUN_STATUSES_def null_le_iff)
  have runs: "s_runs db1 = s_runs db" using E by blast
  show thesis
  proof (cases "agent_runnable db s")
    case True
    then obtain a where "row_by_id ag_id (sd_agent_id s) (agents (s_runs db)) = Some a" "\<not> ag_deleted a"
        "ag_is_active a" by (auto simp: agent_runnable_def)
    with assms(1) g runs cl have "res = Some (claim_run now ttl tok r)"
        "db' = db1\<lparr>schedule_runs := write_row sr_id (claim_run now ttl tok r) (schedule_runs db1)\<rparr>"
      by (auto simp: claim_one_schedule_def Let_def)
    with claimed g True \<open>claim_open now r\<close> show thesis by blast
  next
    case False
    with assms(1) g runs have "res = None \<and> (\<exists>c m. db' = mark_run_terminal_failure_and_disable_schedule now c m s r db1)"
      by (auto simp: claim_one_schedule_def agent_runnable_def split: option.splits if_splits)
    with refused g False \<open>claim_open now r\<close> show thesis by blast
  qed
qed

lemma claim_one_effect:
  assumes "sched_inv db" and "due_schedule now db s" and "claim_one_schedule now ttl fresh tok s db = Inr (res, db')"
  shows "sched_inv db'" and "only_schedule (sd_id s) db db'" and "s_runs db' = s_runs db" and "s_ws db' = s_ws db"
    and "res \<noteq> None \<longleftrightarrow> agent_runnable db s"
    and "res = Some r' \<Longrightarrow> claimed_from now ttl fresh tok db s r' \<and> r' \<in> set (schedule_runs db') \<and>
      sr_schedule_id r' = sd_id s"
    and "q \<in> set (schedule_runs db) \<Longrightarrow> current_run db s \<noteq> Some q \<Longrightarrow> q \<in> set (schedule_runs db')"
    and "res = None \<Longrightarrow> sd_id s \<in> sd_id ` set (schedules db) \<Longrightarrow> stop_schedule s \<in> set (schedules db')"
proof -
  from assms(3,2) have all: "sched_inv db' \<and> only_schedule (sd_id s) db db' \<and> s_runs db' = s_runs db \<and> s_ws db' = s_ws db \<and>
    (res \<noteq> None \<longleftrightarrow> agent_runnable db s) \<and>
    (\<forall>r'. res = Some r' \<longrightarrow> claimed_from now ttl fresh tok db s r' \<and> r' \<in> set (schedule_runs db') \<and>
      sr_schedule_id r' = sd_id s) \<and>
    (\<forall>q \<in> set (schedule_runs db). current_run db s \<noteq> Some q \<longrightarrow> q \<in> set (schedule_runs db')) \<and>
    (res = None \<longrightarrow> sd_id s \<in> sd_id ` set (schedules db) \<longrightarrow> stop_schedule s \<in> set (schedules db'))"
  proof (cases rule: claim_one_cases)
    case (claimed r db1)
    note E = get_or_create_effect [OF claimed(1)] and I = get_or_create_inv [OF assms(1) claimed(1)]
    have r: "r \<in> set (schedule_runs db1)" using E by blast
    have att: "sr_attempt_count r \<ge> 0" using sched_invD(4) [OF I r] by (simp add: sr_row_ok_def)
    have runs': "schedule_runs db' = write_row sr_id (claim_run now ttl tok r) (schedule_runs db1)"
      and sch': "schedules db' = schedules db1" by (simp_all add: claimed(5))
    have inv: "sched_inv db'"
      by (rule sched_inv_write_run [OF I r _ _ claim_run_ok [OF att] runs']) (simp_all add: sch')
    have only: "only_schedule (sd_id s) db db'"
      by (rule only_schedule_write [OF I r _ _ _ get_or_create_only [OF claimed(1)] runs'])
        (use E sch' in \<open>simp_all\<close>)
    have from': "claimed_from now ttl fresh tok db s (claim_run now ttl tok r)"
      using E get_or_create_fresh [OF claimed(1)] claimed(3) unfolding claimed_from_def by blast
    have mem: "claim_run now ttl tok r \<in> set (schedule_runs db')"
      using r by (simp add: runs' in_write_row)
    have rest: "q \<in> set (schedule_runs db')" if q: "q \<in> set (schedule_runs db)" "current_run db s \<noteq> Some q" for q
    proof -
      have q1: "q \<in> set (schedule_runs db1)" and "q \<noteq> r" using q E by auto
      then have "sr_id q \<noteq> sr_id r" using distinct_key_eq [OF sched_invD(2) [OF I] q1 r] by blast
      with q1 show ?thesis by (simp add: runs' in_write_row)
    qed
    show ?thesis using inv only from' mem rest E claimed(2,4,5) by simp
  next
    case (refused r db1 c m)
    note E = get_or_create_effect [OF refused(1)] and I = get_or_create_inv [OF assms(1) refused(1)]
    have r: "r \<in> set (schedule_runs db1)" using E by blast
    have att: "sr_attempt_count r \<ge> 0" using sched_invD(4) [OF I r] by (simp add: sr_row_ok_def)
    have runs': "schedule_runs db' = write_row sr_id (fail_run_terminally now c m r) (schedule_runs db1)"
      and sch': "schedules db' = write_row sd_id (stop_schedule s) (schedules db1)"
      by (simp_all add: refused(5) mark_terminal_tables)
    have inv: "sched_inv db'" unfolding refused(5) by (rule mark_terminal_inv [OF I r _ _ att]) simp_all
    have only: "only_schedule (sd_id s) db db'"
      by (rule only_schedule_write [OF I r _ _ _ get_or_create_only [OF refused(1)] runs'])
        (use E sch' in \<open>auto simp: fail_run_terminally_keeps intro!: exI [of _ "stop_schedule s"]\<close>)
    have rest: "q \<in> set (schedule_runs db')" if q: "q \<in> set (schedule_runs db)" "current_run db s \<noteq> Some q" for q
    proof -
      have q1: "q \<in> set (schedule_runs db1)" and "q \<noteq> r" using q E by auto
      then have "sr_id q \<noteq> sr_id r" using distinct_key_eq [OF sched_invD(2) [OF I] q1 r] by blast
      with q1 show ?thesis by (simp add: runs' in_write_row fail_run_terminally_keeps)
    qed
    have "stop_schedule s \<in> set (schedules db')" if "sd_id s \<in> sd_id ` set (schedules db)"
      using that E by (simp add: sch' in_write_row)
    then show ?thesis using inv only rest E refused(2,4,5) by (simp add: mark_terminal_tables)
  qed
  from all show "sched_inv db'" "only_schedule (sd_id s) db db'" "s_runs db' = s_runs db" "s_ws db' = s_ws db"
    "res \<noteq> None \<longleftrightarrow> agent_runnable db s" by blast+
  from all show "res = Some r' \<Longrightarrow> claimed_from now ttl fresh tok db s r' \<and> r' \<in> set (schedule_runs db') \<and>
      sr_schedule_id r' = sd_id s" by blast
  from all show "q \<in> set (schedule_runs db) \<Longrightarrow> current_run db s \<noteq> Some q \<Longrightarrow> q \<in> set (schedule_runs db')" by blast
  from all show "res = None \<Longrightarrow> sd_id s \<in> sd_id ` set (schedules db) \<Longrightarrow> stop_schedule s \<in> set (schedules db')" by blast
qed

text \<open>A step on one schedule does not change what the scanner sees of another.\<close>

lemma current_run_iff:
  assumes "sched_inv db"
  shows "current_run db s = Some r \<longleftrightarrow> r \<in> set (schedule_runs db) \<and> sr_schedule_id r = sd_id s \<and>
    sd_next_run_at s = Some (sr_scheduled_for r) \<and> \<not> sr_deleted r"
proof
  assume r: "r \<in> set (schedule_runs db) \<and> sr_schedule_id r = sd_id s \<and>
    sd_next_run_at s = Some (sr_scheduled_for r) \<and> \<not> sr_deleted r"
  have "find (\<lambda>q. sr_schedule_id q = sd_id s \<and> sr_scheduled_for q = sr_scheduled_for r \<and> \<not> sr_deleted q)
      (schedule_runs db) = Some r"
  proof (rule find_unique)
    fix q assume "q \<in> set (schedule_runs db)"
      "sr_schedule_id q = sd_id s \<and> sr_scheduled_for q = sr_scheduled_for r \<and> \<not> sr_deleted q"
    with r show "q = r"
      using distinct_key_eq [OF sched_invD(3) [OF assms], of q r] by (simp add: fire_key_def)
  qed (use r in auto)
  with r show "current_run db s = Some r" by (simp add: current_run_def)
qed (rule current_run_Some)

lemma current_run_other:
  assumes "sched_inv db" and "sched_inv db1" and "only_schedule i db db1" and "sd_id s \<noteq> i"
  shows "current_run db1 s = current_run db s"
proof -
  have "current_run db1 s = Some r \<longleftrightarrow> current_run db s = Some r" for r
    unfolding current_run_iff [OF assms(1)] current_run_iff [OF assms(2)]
    using assms(3,4) by (auto simp: only_schedule_def)
  then show ?thesis by (metis option.exhaust)
qed

definition only_schedules :: "uuid set \<Rightarrow> sched_db \<Rightarrow> sched_db \<Rightarrow> bool" where
  "only_schedules I db db' \<longleftrightarrow>
     (\<forall>r. sr_schedule_id r \<notin> I \<longrightarrow> (r \<in> set (schedule_runs db') \<longleftrightarrow> r \<in> set (schedule_runs db))) \<and>
     (\<forall>s. sd_id s \<notin> I \<longrightarrow> (s \<in> set (schedules db') \<longleftrightarrow> s \<in> set (schedules db)))"

lemma only_schedules_step:
  "only_schedule i db db1 \<Longrightarrow> only_schedules I db1 db2 \<Longrightarrow> only_schedules (insert i I) db db2"
  by (auto simp: only_schedule_def only_schedules_def)

definition claims_as :: "timestamp \<Rightarrow> int \<Rightarrow> (uuid \<Rightarrow> uuid) \<Rightarrow> (uuid \<Rightarrow> uuid) \<Rightarrow> sched_db \<Rightarrow> schedule list \<Rightarrow>
    schedule_run list \<Rightarrow> sched_db \<Rightarrow> bool" where
  "claims_as now ttl fresh token db ss new db' \<longleftrightarrow>
     sched_inv db' \<and> s_runs db' = s_runs db \<and> s_ws db' = s_ws db \<and> only_schedules (sd_id ` set ss) db db' \<and>
     map sr_schedule_id new = map sd_id (filter (agent_runnable db) ss) \<and>
     (\<forall>r \<in> set new. r \<in> set (schedule_runs db') \<and>
        (\<exists>s \<in> set ss. claimed_from now ttl (fresh (sd_id s)) (token (sd_id s)) db s r)) \<and>
     (\<forall>q \<in> set (schedule_runs db). (\<forall>s \<in> set ss. current_run db s \<noteq> Some q) \<longrightarrow> q \<in> set (schedule_runs db')) \<and>
     (\<forall>s \<in> set ss. \<not> agent_runnable db s \<longrightarrow> stop_schedule s \<in> set (schedules db'))"

lemma claims_as_Cons:
  assumes inv: "sched_inv db" "sched_inv db1" and only: "only_schedule (sd_id s) db db1"
    and runs: "s_runs db1 = s_runs db" "s_ws db1 = s_ws db" and res: "res \<noteq> None \<longleftrightarrow> agent_runnable db s"
    and got: "\<And>r. res = Some r \<Longrightarrow> claimed_from now ttl (fresh (sd_id s)) (token (sd_id s)) db s r \<and>
      r \<in> set (schedule_runs db1) \<and> sr_schedule_id r = sd_id s"
    and kept: "\<And>q. q \<in> set (schedule_runs db) \<Longrightarrow> current_run db s \<noteq> Some q \<Longrightarrow> q \<in> set (schedule_runs db1)"
    and stop: "res = None \<Longrightarrow> stop_schedule s \<in> set (schedules db1)"
    and new_id: "sd_id s \<notin> sd_id ` set ss" and rest: "claims_as now ttl fresh token db1 ss new db'"
  shows "claims_as now ttl fresh token db (s # ss) (case res of None \<Rightarrow> new | Some r \<Rightarrow> r # new) db'"
proof -
  have run_eq: "agent_runnable db1 = agent_runnable db" by (simp add: fun_eq_iff agent_runnable_def runs)
  have cur: "current_run db1 x = current_run db x" if "x \<in> set ss" for x
    using that new_id by (intro current_run_other [OF inv only]) (auto simp: image_iff)
  have from': "claimed_from now ttl f t db1 x r = claimed_from now ttl f t db x r" if "x \<in> set ss" for x f t r
    by (simp add: claimed_from_def cur [OF that])
  note R = rest [unfolded claims_as_def]
  have only': "only_schedules (sd_id ` set (s # ss)) db db'"
    using only_schedules_step [OF only, of "sd_id ` set ss" db'] R by simp
  have out: "q \<in> set (schedule_runs db')" if "q \<in> set (schedule_runs db1)" "sr_schedule_id q = sd_id s" for q
    using R that new_id unfolding only_schedules_def by auto
  have ids: "map sr_schedule_id (case res of None \<Rightarrow> new | Some r \<Rightarrow> r # new) =
      map sd_id (filter (agent_runnable db) (s # ss))"
    using R res got by (cases res) (simp_all add: run_eq)
  have mem: "r \<in> set (schedule_runs db') \<and>
      (\<exists>x \<in> set (s # ss). claimed_from now ttl (fresh (sd_id x)) (token (sd_id x)) db x r)"
    if "r \<in> set (case res of None \<Rightarrow> new | Some r \<Rightarrow> r # new)" for r
  proof (cases "r \<in> set new")
    case True
    then have "r \<in> set (schedule_runs db')"
      and "\<exists>x \<in> set ss. claimed_from now ttl (fresh (sd_id x)) (token (sd_id x)) db1 x r" using R by blast+
    then show ?thesis using from' by auto
  next
    case False
    with that have "res = Some r" by (cases res) auto
    with got out show ?thesis by auto
  qed
  have frame: "q \<in> set (schedule_runs db')"
    if "q \<in> set (schedule_runs db)" "\<forall>x \<in> set (s # ss). current_run db x \<noteq> Some q" for q
  proof -
    have "q \<in> set (schedule_runs db1)" using kept that by simp
    moreover have "\<forall>x \<in> set ss. current_run db1 x \<noteq> Some q" using cur that(2) by simp
    ultimately show ?thesis using R by blast
  qed
  have stops: "stop_schedule x \<in> set (schedules db')" if "x \<in> set (s # ss)" "\<not> agent_runnable db x" for x
  proof (cases "x = s")
    case True
    with that res stop have "stop_schedule s \<in> set (schedules db1)" by blast
    moreover have "sd_id (stop_schedule s) \<notin> sd_id ` set ss" using new_id by simp
    ultimately show ?thesis using R True unfolding only_schedules_def by blast
  next
    case False
    with that R run_eq show ?thesis by simp
  qed
  show ?thesis
    unfolding claims_as_def using R runs only' ids mem frame stops by simp
qed

lemma claim_loop_effect:
  assumes "sched_inv db" and "\<forall>s \<in> set ss. due_schedule now db s" and "distinct (map sd_id ss)"
    and "set ss \<subseteq> set (schedules db)" and "claim_loop now ttl fresh token ss claimed db = Inr (out, db')"
  shows "\<exists>new. out = claimed @ new \<and> claims_as now ttl fresh token db ss new db'"
  using assms
proof (induction ss arbitrary: claimed db)
  case Nil
  then show ?case by (simp add: claims_as_def only_schedules_def)
next
  case (Cons s ss)
  from Cons.prems(5) obtain res db1 where
    one: "claim_one_schedule now ttl (fresh (sd_id s)) (token (sd_id s)) s db = Inr (res, db1)"
    and loop: "claim_loop now ttl fresh token ss (case res of None \<Rightarrow> claimed | Some x \<Rightarrow> claimed @ [x]) db1 = Inr (out, db')"
    by (auto simp: bind_result_Inr)
  have due: "due_schedule now db s" using Cons.prems(2) by simp
  note E = claim_one_effect [OF Cons.prems(1) due one]
  have new_id: "sd_id s \<notin> sd_id ` set ss" using Cons.prems(3) by simp
  have "\<forall>x \<in> set ss. due_schedule now db1 x"
  proof
    fix x assume x: "x \<in> set ss"
    with new_id have "current_run db1 x = current_run db x"
      by (intro current_run_other [OF Cons.prems(1) E(1,2)]) (auto simp: image_iff)
    with x Cons.prems(2) show "due_schedule now db1 x" by (simp add: due_schedule_def)
  qed
  moreover have "set ss \<subseteq> set (schedules db1)"
    using Cons.prems(4) new_id E(2) unfolding only_schedule_def by (force simp: image_iff)
  moreover have "distinct (map sd_id ss)" using Cons.prems(3) by simp
  ultimately obtain new where out: "out = (case res of None \<Rightarrow> claimed | Some x \<Rightarrow> claimed @ [x]) @ new"
    and rest: "claims_as now ttl fresh token db1 ss new db'"
    using Cons.IH [OF E(1) _ _ _ loop] by blast
  have stop: "res = None \<Longrightarrow> stop_schedule s \<in> set (schedules db1)"
    using E(8) Cons.prems(4) by auto
  have "claims_as now ttl fresh token db (s # ss) (case res of None \<Rightarrow> new | Some r \<Rightarrow> r # new) db'"
    by (rule claims_as_Cons [OF Cons.prems(1) E(1,2,3,4,5) E(6) E(7) stop new_id rest])
  with out show ?case by (cases res) auto
qed

lemma selected_due:
  assumes "s \<in> set (select_due_schedules now n unlocked db)"
  shows "due_schedule now db s \<and> s \<in> set (schedules db) \<and> unlocked (sd_id s)"
  using set_take_subset [THEN subsetD, OF assms [unfolded select_due_schedules_def]] by simp

lemma selected_distinct:
  assumes "sched_inv db"
  shows "distinct (map sd_id (select_due_schedules now n unlocked db))"
proof -
  let ?key = "\<lambda>s. (if_none (sd_next_run_at s) 0, sd_created_at s)"
  have "distinct (map sd_id (filter (due_schedule now db) (schedules db)))"
    using sched_invD(1) [OF assms] by (rule distinct_map_filter)
  then have "distinct (map sd_id (sort_key ?key (filter (due_schedule now db) (schedules db))))"
    by (simp add: distinct_map)
  then have "distinct (map sd_id (filter (\<lambda>s. unlocked (sd_id s)) (sort_key ?key (filter (due_schedule now db) (schedules db)))))"
    by (rule distinct_map_filter)
  then show ?thesis by (simp add: select_due_schedules_def take_map [symmetric])
qed

lemma claim_due_effect:
  assumes "sched_inv db" and "claim_due_schedule_runs now n ttl unlocked fresh token db = Inr (out, db')"
  shows "claims_as now ttl fresh token db (select_due_schedules now n unlocked db) out db'"
proof -
  let ?sel = "select_due_schedules now n unlocked db"
  have due: "\<forall>s \<in> set ?sel. due_schedule now db s" and sub: "set ?sel \<subseteq> set (schedules db)"
    using selected_due by blast+
  from claim_loop_effect [OF assms(1) due selected_distinct [OF assms(1)] sub
      assms(2) [unfolded claim_due_schedule_runs_def]] show ?thesis by simp
qed

end
