(* ===== verification/Schedule_Links.thy ===== *)
theory Schedule_Links
  imports Schedule_Steps
begin

text \<open>
  How the three tables hang together: a scheduled run carries the workspace, owner and agent of its
  schedule, and the agent run linked to it runs for exactly these, in the conversation of the
  scheduled run, and is linked to no other. \<open>schedule_world\<close> adds this to the invariants of the ledger
  and of the agent runs; every operation keeps it.
\<close>

section \<open>The combined invariant\<close>

definition sd_context :: "schedule \<Rightarrow> uuid \<times> uuid \<times> uuid \<times> uuid" where
  "sd_context s = (sd_id s, sd_workspace_id s, sd_user_id s, sd_agent_id s)"

definition sr_context :: "schedule_run \<Rightarrow> uuid \<times> uuid \<times> uuid \<times> uuid" where
  "sr_context r = (sr_schedule_id r, sr_workspace_id r, sr_user_id r, sr_agent_id r)"

definition link_ok :: "agent_run list \<Rightarrow> schedule_run \<Rightarrow> bool" where
  "link_ok T r \<longleftrightarrow>
     (case sr_agent_run_id r of
        None \<Rightarrow> True
      | Some i \<Rightarrow> (\<exists>run. row_by_id ar_id i T = Some run \<and> ar_trigger run = Scheduled \<and>
          ar_workspace_id run = sr_workspace_id r \<and> ar_user_id run = sr_user_id r \<and>
          ar_agent_id run = sr_agent_id r \<and> sr_conversation_id r = Some (ar_conversation_id run)))"

definition ledger_ok :: "sched_db \<Rightarrow> bool" where
  "ledger_ok db \<longleftrightarrow>
     sr_context ` set (schedule_runs db) \<subseteq> sd_context ` set (schedules db) \<and>
     (\<forall>r \<in> set (schedule_runs db). link_ok (agent_runs (s_runs db)) r) \<and>
     (\<forall>r \<in> set (schedule_runs db). \<forall>q \<in> set (schedule_runs db).
        sr_agent_run_id r \<noteq> None \<longrightarrow> sr_agent_run_id r = sr_agent_run_id q \<longrightarrow> r = q)"

definition schedule_world :: "sched_db \<Rightarrow> bool" where
  "schedule_world db \<longleftrightarrow> sched_inv db \<and> run_inv (s_runs db) \<and> ledger_ok db"

lemma schedule_worldD:
  assumes "schedule_world db"
  shows "sched_inv db" "run_inv (s_runs db)" "ledger_ok db"
  using assms by (simp_all add: schedule_world_def)

lemma ledger_okD:
  assumes "ledger_ok db" and "r \<in> set (schedule_runs db)"
  shows "sr_context r \<in> sd_context ` set (schedules db)" "link_ok (agent_runs (s_runs db)) r"
    "\<And>q. q \<in> set (schedule_runs db) \<Longrightarrow> sr_agent_run_id r \<noteq> None \<Longrightarrow> sr_agent_run_id r = sr_agent_run_id q \<Longrightarrow> r = q"
  using assms unfolding ledger_ok_def by blast+

section \<open>What keeps it\<close>

text \<open>The agent runs may move on, as long as they keep their identity.\<close>

definition runs_stay :: "run_db \<Rightarrow> run_db \<Rightarrow> bool" where
  "runs_stay d d' \<longleftrightarrow> (\<forall>i run. row_by_id ar_id i (agent_runs d) = Some run \<longrightarrow>
     (\<exists>run'. row_by_id ar_id i (agent_runs d') = Some run' \<and> identity run' = identity run))"

lemma runs_stay_refl [simp, intro]: "runs_stay d d"
  by (simp add: runs_stay_def)

lemma runs_stay_same: "agent_runs d' = agent_runs d \<Longrightarrow> runs_stay d d'"
  by (simp add: runs_stay_def)

lemma runs_stay_evolves: "db_evolves d d' \<Longrightarrow> runs_stay d d'"
  using runs_evolve_row_by_id [of "agent_runs d" "agent_runs d'"]
  by (fastforce simp: runs_stay_def db_evolves_def evolves_def split: option.splits)

lemma runs_stay_append: "agent_runs d' = agent_runs d @ rs \<Longrightarrow> runs_stay d d'"
proof -
  assume "agent_runs d' = agent_runs d @ rs"
  moreover have "find P (T @ U) = Some r" if "find P T = Some r" for P T U and r :: agent_run
    using that by (induction T) auto
  ultimately show ?thesis by (auto simp: runs_stay_def row_by_id_def)
qed

lemma runs_stay_step: "run_inv d \<Longrightarrow> runs_stay d (run_step env d e)"
  using run_step_row [of d _ _ env e] by (fastforce simp: runs_stay_def evolves_def)

lemma link_ok_stay:
  assumes "link_ok (agent_runs d) r" and "runs_stay d d'" and "sr_context r' = sr_context r"
    and "sr_agent_run_id r' = sr_agent_run_id r" and "sr_conversation_id r' = sr_conversation_id r"
  shows "link_ok (agent_runs d') r'"
proof (cases "sr_agent_run_id r")
  case None
  with assms(4) show ?thesis by (simp add: link_ok_def)
next
  case (Some i)
  with assms(1) obtain run where run: "row_by_id ar_id i (agent_runs d) = Some run" "ar_trigger run = Scheduled"
      "ar_workspace_id run = sr_workspace_id r" "ar_user_id run = sr_user_id r" "ar_agent_id run = sr_agent_id r"
      "sr_conversation_id r = Some (ar_conversation_id run)" by (auto simp: link_ok_def)
  from assms(2) run(1) obtain run' where "row_by_id ar_id i (agent_runs d') = Some run'" "identity run' = identity run"
    unfolding runs_stay_def by blast
  with run assms(3-5) Some show ?thesis by (simp add: link_ok_def identity_def sr_context_def)
qed

definition run_kept :: "schedule_run \<Rightarrow> schedule_run \<Rightarrow> bool" where
  "run_kept r r' \<longleftrightarrow> sr_id r' = sr_id r \<and> fire_key r' = fire_key r \<and> sr_context r' = sr_context r \<and>
     sr_agent_run_id r' = sr_agent_run_id r \<and> sr_conversation_id r' = sr_conversation_id r"

lemma schedule_ids: "map sd_context T' = map sd_context T \<Longrightarrow> map sd_id T' = map sd_id T"
proof -
  assume "map sd_context T' = map sd_context T"
  then have "map (fst \<circ> sd_context) T' = map (fst \<circ> sd_context) T" by (simp only: map_map [symmetric])
  moreover have "fst \<circ> sd_context = sd_id" by (simp add: fun_eq_iff sd_context_def)
  ultimately show ?thesis by (simp only:)
qed

lemma world_write_run:
  assumes "schedule_world db" and "r \<in> set (schedule_runs db)" and "run_kept r r'" and "sr_row_ok r'"
    and "schedule_runs db' = write_row sr_id r' (schedule_runs db)"
    and "map sd_context (schedules db') = map sd_context (schedules db)"
    and "run_inv (s_runs db')" and "runs_stay (s_runs db) (s_runs db')"
  shows "schedule_world db'"
proof -
  note W = schedule_worldD [OF assms(1)]
  have inv: "sched_inv db'"
    by (rule sched_inv_write_run [OF W(1) assms(2) _ _ assms(4,5) schedule_ids [OF assms(6)]])
      (use assms(3) in \<open>simp_all add: run_kept_def\<close>)
  have ctx: "sd_context ` set (schedules db') = sd_context ` set (schedules db)"
    using arg_cong [OF assms(6), of set] by simp
  have origin: "\<exists>x \<in> set (schedule_runs db). run_kept x q" if "q \<in> set (schedule_runs db')" for q
    using that assms(2,3) unfolding assms(5) in_write_row by (auto simp: run_kept_def)
  have "sr_context q \<in> sd_context ` set (schedules db') \<and> link_ok (agent_runs (s_runs db')) q"
    if q: "q \<in> set (schedule_runs db')" for q
  proof -
    from origin [OF q] obtain x where x: "x \<in> set (schedule_runs db)" "run_kept x q" by blast
    note X = ledger_okD [OF W(3) x(1)]
    have "link_ok (agent_runs (s_runs db')) q"
      by (rule link_ok_stay [OF X(2) assms(8)]) (use x(2) in \<open>simp_all add: run_kept_def\<close>)
    with X(1) x(2) show ?thesis by (simp add: ctx run_kept_def)
  qed
  moreover have "q = p" if q: "q \<in> set (schedule_runs db')" "p \<in> set (schedule_runs db')" "sr_agent_run_id q \<noteq> None"
      "sr_agent_run_id q = sr_agent_run_id p" for q p
  proof -
    from origin [OF q(1)] origin [OF q(2)] obtain x y where
      "x \<in> set (schedule_runs db)" "run_kept x q" "y \<in> set (schedule_runs db)" "run_kept y p" by blast
    with q(3,4) have "sr_id q = sr_id p" using ledger_okD(3) [OF W(3), of x y] by (simp add: run_kept_def)
    then show ?thesis using distinct_key_eq [OF sched_invD(2) [OF inv] q(1,2)] by blast
  qed
  ultimately have "ledger_ok db'" unfolding ledger_ok_def by blast
  with inv assms(7) show ?thesis by (simp add: schedule_world_def)
qed

text \<open>Schedules may be added and edited, agent runs may move on, workspaces may change.\<close>

lemma world_same_runs:
  assumes "schedule_world db" and "schedule_runs db' = schedule_runs db"
    and "sd_context ` set (schedules db) \<subseteq> sd_context ` set (schedules db')" and "distinct (map sd_id (schedules db'))"
    and "run_inv (s_runs db')" and "runs_stay (s_runs db) (s_runs db')"
  shows "schedule_world db'"
proof -
  note W = schedule_worldD [OF assms(1)]
  have "sched_inv db'" by (rule sched_inv_same_runs [OF W(1) assms(2,4)])
  moreover have "link_ok (agent_runs (s_runs db')) r" if "r \<in> set (schedule_runs db)" for r
    by (rule link_ok_stay [OF ledger_okD(2) [OF W(3) that] assms(6)]) simp_all
  then have "ledger_ok db'" using W(3) assms(3) unfolding ledger_ok_def assms(2) by blast
  ultimately show ?thesis using assms(5) by (simp add: schedule_world_def)
qed

lemma world_new_run:
  assumes "schedule_world db" and "schedule_runs db' = schedule_runs db @ [r]" and "schedules db' = schedules db"
    and "s_runs db' = s_runs db" and "sched_inv db'" and "sr_agent_run_id r = None"
    and "sr_context r \<in> sd_context ` set (schedules db)"
  shows "schedule_world db'"
proof -
  note W = schedule_worldD [OF assms(1)]
  have "link_ok (agent_runs (s_runs db)) r" by (simp add: link_ok_def assms(6))
  then have "ledger_ok db'" using W(3) assms(6,7) unfolding ledger_ok_def assms(2,3,4) by auto
  with W(2) assms(4,5) show ?thesis by (simp add: schedule_world_def)
qed

lemma write_schedule_context:
  assumes "sched_inv db" and "sd_context s \<in> sd_context ` set (schedules db)" and "sd_context s' = sd_context s"
  shows "map sd_context (write_row sd_id s' (schedules db)) = map sd_context (schedules db)"
proof -
  from assms(2) obtain x where x: "x \<in> set (schedules db)" "sd_context x = sd_context s" by auto
  show ?thesis
    by (rule map_write_row_keep [OF sched_invD(1) [OF assms(1)] x(1)]) (use x(2) assms(3) in \<open>simp_all add: sd_context_def\<close>)
qed

lemma stop_schedule_context [simp]: "sd_context (stop_schedule s) = sd_context s"
  by (simp add: stop_schedule_def sd_context_def)

lemma world_mark_terminal:
  assumes "schedule_world db" and "r \<in> set (schedule_runs db)" and "run_kept r r'" and "sr_attempt_count r' \<ge> 0"
    and "sd_context s \<in> sd_context ` set (schedules db)"
  shows "schedule_world (mark_run_terminal_failure_and_disable_schedule now c m s r' db)"
proof (rule world_write_run [OF assms(1,2) _ fail_run_terminally_keeps(4) [OF assms(4)] mark_terminal_tables(2)])
  show "run_kept r (fail_run_terminally now c m r')"
    using assms(3) by (simp add: run_kept_def fail_run_terminally_def fire_key_def sr_context_def)
  show "map sd_context (schedules (mark_run_terminal_failure_and_disable_schedule now c m s r' db)) =
      map sd_context (schedules db)"
    unfolding mark_terminal_tables by (rule write_schedule_context [OF schedule_worldD(1) [OF assms(1)] assms(5)]) simp
qed (use schedule_worldD(2) [OF assms(1)] in \<open>simp_all add: mark_terminal_tables\<close>)

lemma world_attempts: "schedule_world db \<Longrightarrow> r \<in> set (schedule_runs db) \<Longrightarrow> sr_attempt_count r \<ge> 0"
  using sched_invD(4) [OF schedule_worldD(1)] by (simp add: sr_row_ok_def)

lemma world_record_retryable:
  assumes "schedule_world db" and "r \<in> set (schedule_runs db)" and "sd_context s \<in> sd_context ` set (schedules db)"
  shows "schedule_world (record_retryable_failure now c m m2 n s r db)"
proof -
  obtain exhausted r' where m: "mark_run_retryable_failure now c m n r = (exhausted, r')" by fastforce
  note k = retryable_keeps [OF m]
  have kept: "run_kept r r'"
    using m by (auto simp: mark_run_retryable_failure_def Let_def run_kept_def fire_key_def sr_context_def split: if_splits)
  have att: "sr_attempt_count r' \<ge> 0" using world_attempts [OF assms(1,2)] k by simp
  show ?thesis
  proof (cases exhausted)
    case True
    then have "record_retryable_failure now c m m2 n s r db =
        mark_run_terminal_failure_and_disable_schedule now c m2 s r' db"
      by (simp add: record_retryable_failure_def m)
    then show ?thesis using world_mark_terminal [OF assms(1,2) kept att assms(3)] by simp
  next
    case False
    then have eq: "record_retryable_failure now c m m2 n s r db =
        db\<lparr>schedule_runs := write_row sr_id r' (schedule_runs db)\<rparr>"
      by (simp add: record_retryable_failure_def m)
    show ?thesis unfolding eq
      by (rule world_write_run [OF assms(1,2) kept])
        (use k att False schedule_worldD(2) [OF assms(1)] in \<open>simp_all add: sr_row_ok_def\<close>)
  qed
qed

end
