(* ===== verification/Schedule_Worker.thy ===== *)
theory Schedule_Worker
  imports Schedule_Links
begin

text \<open>
  The steps of the scheduled-agent worker keep \<open>schedule_world\<close>; with the shape of every successful
  preparation and finalization.
\<close>

section \<open>Claiming\<close>

lemma new_run_context [simp]: "sr_context (new_schedule_run now f t s) = sd_context s"
  by (simp add: new_schedule_run_def sr_context_def sd_context_def)

lemma world_get_or_create:
  assumes "schedule_world db" and "sd_context s \<in> sd_context ` set (schedules db)"
    and "get_or_create_run_for_schedule now fresh s db = Inr (found, db1)"
  shows "schedule_world db1" "schedules db1 = schedules db" "s_runs db1 = s_runs db"
proof -
  have inv: "sched_inv db1" by (rule get_or_create_inv [OF schedule_worldD(1) [OF assms(1)] assms(3)])
  consider "db1 = db" | t r where "r = new_schedule_run now fresh t s"
      "db1 = db\<lparr>schedule_runs := schedule_runs db @ [r]\<rparr>"
    using assms(3) by (auto simp: get_or_create_run_for_schedule_def Let_def split: option.splits if_splits)
  then have "schedule_world db1 \<and> schedules db1 = schedules db \<and> s_runs db1 = s_runs db"
  proof cases
    case 1
    with assms(1) show ?thesis by simp
  next
    case (2 t r)
    have "schedule_world db1"
      by (rule world_new_run [OF assms(1) _ _ _ inv, of r]) (use 2 assms(2) in \<open>simp_all add: new_schedule_run_def sr_context_def sd_context_def\<close>)
    with 2 show ?thesis by simp
  qed
  then show "schedule_world db1" "schedules db1 = schedules db" "s_runs db1 = s_runs db" by blast+
qed

lemma mark_terminal_contexts:
  assumes "sched_inv db" and "sd_context s \<in> sd_context ` set (schedules db)"
  shows "map sd_context (schedules (mark_run_terminal_failure_and_disable_schedule now c m s r db)) = map sd_context (schedules db)"
  unfolding mark_terminal_tables by (rule write_schedule_context [OF assms]) simp

lemma world_claim_one:
  assumes "schedule_world db" and "sd_context s \<in> sd_context ` set (schedules db)"
    and "claim_one_schedule now ttl fresh tok s db = Inr (res, db')"
  shows "schedule_world db' \<and> map sd_context (schedules db') = map sd_context (schedules db)"
proof -
  from assms(3) obtain found db1 where g: "get_or_create_run_for_schedule now fresh s db = Inr (found, db1)"
    by (auto simp: claim_one_schedule_def bind_result_Inr)
  note G = world_get_or_create [OF assms(1,2) g]
  have ctx: "sd_context s \<in> sd_context ` set (schedules db1)" using assms(2) G(2) by simp
  consider "db' = db1" | r c m where "found = Some r" "db' = mark_run_terminal_failure_and_disable_schedule now c m s r db1"
    | r where "found = Some r" "db' = db1\<lparr>schedule_runs := write_row sr_id (claim_run now ttl tok r) (schedule_runs db1)\<rparr>"
    using assms(3) g by (auto simp: claim_one_schedule_def Let_def split: option.splits if_splits)
  then show ?thesis
  proof cases
    case 1
    with G show ?thesis by simp
  next
    case (2 r c m)
    then have "r \<in> set (schedule_runs db1)" using get_or_create_effect g by blast
    with world_mark_terminal [OF G(1) _ _ world_attempts [OF G(1)] ctx] mark_terminal_contexts [OF schedule_worldD(1) [OF G(1)] ctx]
    show ?thesis using 2 G(2) by (simp add: run_kept_def)
  next
    case (3 r)
    then have r: "r \<in> set (schedule_runs db1)" using get_or_create_effect g by blast
    have "schedule_world db'"
      by (rule world_write_run [OF G(1) r _ claim_run_ok [OF world_attempts [OF G(1) r]]])
        (use 3 schedule_worldD(2) [OF G(1)] in \<open>simp_all add: run_kept_def claim_run_def sr_context_def fire_key_def\<close>)
    then show ?thesis using 3 G(2) by simp
  qed
qed

lemma world_claim_loop:
  assumes "schedule_world db" and "sd_context ` set ss \<subseteq> sd_context ` set (schedules db)"
    and "claim_loop now ttl fresh tok ss claimed db = Inr (out, db')"
  shows "schedule_world db'"
  using assms
proof (induction ss arbitrary: claimed db)
  case Nil
  then show ?case by simp
next
  case (Cons s ss)
  from Cons.prems(3) obtain res db1 claimed1 where
    one: "claim_one_schedule now ttl (fresh (sd_id s)) (tok (sd_id s)) s db = Inr (res, db1)"
    and loop: "claim_loop now ttl fresh tok ss claimed1 db1 = Inr (out, db')"
    by (auto simp: bind_result_Inr)
  have "schedule_world db1 \<and> map sd_context (schedules db1) = map sd_context (schedules db)"
    by (rule world_claim_one [OF Cons.prems(1) _ one]) (use Cons.prems(2) in simp)
  moreover from this have "sd_context ` set (schedules db1) = sd_context ` set (schedules db)"
    by (metis set_map)
  ultimately show ?case using Cons.IH [OF _ _ loop] Cons.prems(2) by simp
qed

lemma world_claim_due:
  assumes "schedule_world db" and "claim_due_schedule_runs now n ttl unlocked fresh tok db = Inr (out, db')"
  shows "schedule_world db'"
  by (rule world_claim_loop [OF assms(1) _ assms(2) [unfolded claim_due_schedule_runs_def]]) (auto dest: selected_due)

section \<open>Setup failures\<close>

lemma scheduled_context:
  assumes "schedule_world db" and "r \<in> set (schedule_runs db)" and "s \<in> set (schedules db)" and "sd_id s = sr_schedule_id r"
  shows "sd_context s = sr_context r"
proof -
  from ledger_okD(1) [OF schedule_worldD(3) [OF assms(1)] assms(2)] obtain x where
    "x \<in> set (schedules db)" "sd_context x = sr_context r" by auto
  moreover from this have "sd_id x = sd_id s" using assms(4) by (simp add: sd_context_def sr_context_def)
  ultimately show ?thesis
    using distinct_key_eq [OF sched_invD(1) [OF schedule_worldD(1) [OF assms(1)]], of x s] assms(3) by simp
qed

lemma world_setup_failure:
  assumes "schedule_world db"
  shows "schedule_world (record_claim_setup_failure cfg now c m i db)"
proof (cases "find (\<lambda>r. sr_id r = i \<and> \<not> sr_deleted r) (schedule_runs db)")
  case None
  with assms show ?thesis by (simp add: record_claim_setup_failure_def)
next
  case (Some r)
  show ?thesis
  proof (cases "find (\<lambda>s. sd_id s = sr_schedule_id r \<and> \<not> sd_deleted s) (schedules db)")
    case None
    with assms Some show ?thesis by (simp add: record_claim_setup_failure_def)
  next
    case s: (Some s)
    then have "s \<in> set (schedules db)" by (auto dest: find_SomeD)
    moreover have "r \<in> set (schedule_runs db)" using Some by (auto dest: find_SomeD)
    ultimately show ?thesis using world_record_retryable [OF assms] Some s
      by (simp add: record_claim_setup_failure_def)
  qed
qed

section \<open>Loading\<close>

lemma load_schedule_run_Inr:
  "load_schedule_run i db = Inr r \<Longrightarrow> r \<in> set (schedule_runs db) \<and> sr_id r = i \<and> \<not> sr_deleted r"
  by (auto simp: load_schedule_run_def split: option.splits dest!: find_SomeD)

lemma load_schedule_Inr: "load_schedule i db = Inr s \<Longrightarrow> s \<in> set (schedules db) \<and> sd_id s = i \<and> \<not> sd_deleted s"
  by (auto simp: load_schedule_def split: option.splits dest!: find_SomeD)

lemma load_agent_run_Inr:
  "load_agent_run i db = Inr r \<Longrightarrow> r \<in> set (agent_runs (s_runs db)) \<and> ar_id r = i \<and> \<not> ar_deleted r"
  by (auto simp: load_agent_run_def split: option.splits dest!: find_SomeD)

section \<open>Preparing\<close>

lemma run_inv_agent_runs: "agent_runs d' = agent_runs d \<Longrightarrow> run_inv d' = run_inv d"
  by (simp add: run_inv_def run_ids_ok_def)

lemma ensure_conversation_cases:
  assumes "ensure_conversation env fc s r db = Inr (c, r1, db1)"
  shows "r1 = r\<lparr>sr_conversation_id := Some (cv_id c)\<rparr> \<and> (sr_conversation_id r \<noteq> None \<longrightarrow> r1 = r) \<and>
    (\<exists>cs. db1 = db\<lparr>s_runs := (s_runs db)\<lparr>conversations := conversations (s_runs db) @ cs\<rparr>\<rparr>)"
proof (cases "sr_conversation_id r")
  case None
  with assms show ?thesis by (auto simp: ensure_conversation_def Let_def bind_result_Inr split: if_splits)
next
  case (Some i)
  with assms have "cv_id c = i" "r1 = r" "db1 = db"
    by (auto simp: ensure_conversation_def split: option.splits dest!: find_SomeD)
  with Some show ?thesis by (auto intro!: exI [of _ "[]"])
qed

lemma ensure_agent_run_cases:
  assumes "ensure_agent_run env now fr s r c db = Inr (run, r2, db2)"
  obtains (old) "sr_agent_run_id r = Some (ar_id run)" "r2 = r" "db2 = db" "run \<in> set (agent_runs (s_runs db))"
  | (new) "sr_agent_run_id r = None" "r2 = r\<lparr>sr_agent_run_id := Some fr\<rparr>" "ar_id run = fr"
      "fr \<notin> ar_id ` set (agent_runs (s_runs db))" "ar_trigger run = Scheduled"
      "sr_workspace_id r = ar_workspace_id run" "sr_user_id r = ar_user_id run" "sr_agent_id r = ar_agent_id run"
      "ar_conversation_id run = cv_id c" "ar_status run = RunPending" "ar_owner_instance_id run = None"
      "db2 = db\<lparr>s_runs := (s_runs db)\<lparr>agent_runs := agent_runs (s_runs db) @ [run]\<rparr>\<rparr>"
      "run_inv (s_runs db) \<Longrightarrow> run_inv (s_runs db2)"
proof (cases "sr_agent_run_id r")
  case (Some i)
  with assms have "ar_id run = i" "r2 = r" "db2 = db" "run \<in> set (agent_runs (s_runs db))"
    by (auto simp: ensure_agent_run_def split: option.splits dest!: find_SomeD)
  with Some old show thesis by blast
next
  case None
  let ?q = "\<lparr>rq_conversation_id = cv_id c, rq_agent_id = sd_agent_id s, rq_workspace_id = sd_workspace_id s,
     rq_user_id = sd_user_id s, rq_trigger = Scheduled, rq_model_name = None,
     rq_metadata = Some (run_metadata env s r), rq_parent_run_id = None, rq_parent_owner = None, rq_delegation_depth = 0\<rparr>"
  from assms None obtain rdb where create: "create_agent_run now fr ?q (s_runs db) = Inr (run, rdb)"
      and link: "link_schedule_run r run = Inr r2" and db2: "db2 = db\<lparr>s_runs := rdb\<rparr>"
    by (auto simp: ensure_agent_run_def bind_result_Inr)
  note C = create_cases [OF create]
  have "validate_schedule_run_link r run = Inr ()" and r2: "r2 = r\<lparr>sr_agent_run_id := Some (ar_id run)\<rparr>"
    using link by (auto simp: link_schedule_run_def bind_result_Inr)
  then have "ar_trigger run = Scheduled \<and> sr_workspace_id r = ar_workspace_id run \<and> sr_user_id r = ar_user_id run \<and>
      sr_agent_id r = ar_agent_id run"
    by (auto simp: validate_schedule_run_link_def split: if_splits)
  moreover have "run_inv (s_runs db) \<Longrightarrow> run_inv (s_runs db2)" using create_inv [OF _ create] db2 by simp
  ultimately show thesis
    using new [of] None C r2 db2 by (simp add: new_run_def)
qed

text \<open>A preparation that returns either refuses and stops the schedule, or hands the run over.\<close>

lemma prepare_cases:
  assumes "prepare_schedule_run_execution env now fc fr owner i db = Inr (p, db')"
  obtains (refused) r s c m where "load_schedule_run i db = Inr r" "load_schedule (sr_schedule_id r) db = Inr s"
      "sr_status r = SrClaimed" "\<not> should_execute p" "db' = mark_run_terminal_failure_and_disable_schedule now c m s r db"
      "get_active_membership (s_ws db) (sd_workspace_id s) (sd_user_id s) = None \<or>
       collapse_whitespace (or_string (sd_default_prompt s) []) = []"
  | (handed) r s c run r1 db1 r2 db2 run' rdb where "load_schedule_run i db = Inr r"
      "load_schedule (sr_schedule_id r) db = Inr s" "sr_status r = SrClaimed"
      "get_active_membership (s_ws db) (sd_workspace_id s) (sd_user_id s) \<noteq> None"
      "collapse_whitespace (or_string (sd_default_prompt s) []) \<noteq> []"
      "ensure_conversation env fc s r db = Inr (c, r1, db1)" "ensure_agent_run env now fr s r1 c db1 = Inr (run, r2, db2)"
      "claim_agent_run_execution (se_run env) (ar_id run) owner now None (s_runs db2) = Inr (run', rdb)"
      "p = \<lparr>p_schedule_id = sd_id s, p_schedule_run_id = sr_id r, p_conversation_id = Some (cv_id c),
         p_agent_run_id = Some (ar_id run), p_prompt = Some (collapse_whitespace (or_string (sd_default_prompt s) [])),
         p_owner = owner\<rparr>"
      "db' = db2\<lparr>s_runs := rdb, schedule_runs := write_row sr_id (r2\<lparr>sr_status := SrRunning, sr_accepted_at := Some now,
         sr_claim_expires_at := None, sr_error_code := None, sr_error_message := None\<rparr>) (schedule_runs db2)\<rparr>"
proof -
  from assms obtain r s where r: "load_schedule_run i db = Inr r" and s: "load_schedule (sr_schedule_id r) db = Inr s"
    by (auto simp: prepare_schedule_run_execution_def bind_result_Inr)
  from assms r s have st: "sr_status r = SrClaimed"
    by (auto simp: prepare_schedule_run_execution_def bind_result_Inr Let_def split: if_splits)
  show thesis
  proof (cases "get_active_membership (s_ws db) (sd_workspace_id s) (sd_user_id s) = None \<or>
       collapse_whitespace (or_string (sd_default_prompt s) []) = []")
    case True
    with assms r s st have "\<not> should_execute p \<and> (\<exists>c m. db' = mark_run_terminal_failure_and_disable_schedule now c m s r db)"
      by (auto simp: prepare_schedule_run_execution_def bind_result_Inr Let_def should_execute_def split: if_splits)
    with refused [OF r s st _ _ True] show thesis by blast
  next
    case False
    with assms r s st obtain c r1 db1 run r2 db2 run' rdb where
      "ensure_conversation env fc s r db = Inr (c, r1, db1)" "ensure_agent_run env now fr s r1 c db1 = Inr (run, r2, db2)"
      "claim_agent_run_execution (se_run env) (ar_id run) owner now None (s_runs db2) = Inr (run', rdb)"
      "p = \<lparr>p_schedule_id = sd_id s, p_schedule_run_id = sr_id r, p_conversation_id = Some (cv_id c),
         p_agent_run_id = Some (ar_id run), p_prompt = Some (collapse_whitespace (or_string (sd_default_prompt s) [])),
         p_owner = owner\<rparr>"
      "db' = db2\<lparr>s_runs := rdb, schedule_runs := write_row sr_id (r2\<lparr>sr_status := SrRunning, sr_accepted_at := Some now,
         sr_claim_expires_at := None, sr_error_code := None, sr_error_message := None\<rparr>) (schedule_runs db2)\<rparr>"
      by (auto simp: prepare_schedule_run_execution_def bind_result_Inr Let_def split: if_splits)
    with handed [OF r s st] False show thesis by blast
  qed
qed

lemma world_link:
  assumes "schedule_world db" and "r \<in> set (schedule_runs db)" and "sr_agent_run_id r = None"
    and "sr_id r' = sr_id r" and "fire_key r' = fire_key r" and "sr_context r' = sr_context r" and "sr_row_ok r'"
    and "sr_agent_run_id r' = Some i" and "i \<notin> ar_id ` set (agent_runs (s_runs db))"
    and "link_ok (agent_runs (s_runs db')) r'" and "schedule_runs db' = write_row sr_id r' (schedule_runs db)"
    and "schedules db' = schedules db" and "run_inv (s_runs db')" and "runs_stay (s_runs db) (s_runs db')"
  shows "schedule_world db'"
proof -
  note W = schedule_worldD [OF assms(1)]
  have inv: "sched_inv db'"
    by (rule sched_inv_write_run [OF W(1) assms(2,4,5,7,11)]) (simp add: assms(12))
  have free: "sr_agent_run_id q \<noteq> Some i" if "q \<in> set (schedule_runs db)" for q
    using ledger_okD(2) [OF W(3) that] assms(9) by (auto simp: link_ok_def dest: row_by_id_in_keys)
  have rows: "q = r' \<or> q \<in> set (schedule_runs db) \<and> sr_id q \<noteq> sr_id r'" if "q \<in> set (schedule_runs db')" for q
    using that unfolding assms(11) in_write_row by blast
  have "sr_context q \<in> sd_context ` set (schedules db') \<and> link_ok (agent_runs (s_runs db')) q"
    if q: "q \<in> set (schedule_runs db')" for q
  proof (cases "q = r'")
    case True
    with assms(6,10) ledger_okD(1) [OF W(3) assms(2)] show ?thesis by (simp add: assms(12))
  next
    case False
    with rows [OF q] have x: "q \<in> set (schedule_runs db)" by blast
    note X = ledger_okD [OF W(3) x]
    have "link_ok (agent_runs (s_runs db')) q" by (rule link_ok_stay [OF X(2) assms(14)]) simp_all
    with X(1) show ?thesis by (simp add: assms(12))
  qed
  moreover have "q = p" if q: "q \<in> set (schedule_runs db')" "p \<in> set (schedule_runs db')" "sr_agent_run_id q \<noteq> None"
      "sr_agent_run_id q = sr_agent_run_id p" for q p
    using rows [OF q(1)] rows [OF q(2)] q(3,4) free [of q] free [of p] assms(8) ledger_okD(3) [OF W(3), of q p] by auto
  ultimately have "ledger_ok db'" unfolding ledger_ok_def by blast
  with inv assms(13) show ?thesis by (simp add: schedule_world_def)
qed

lemma load_schedule_world:
  assumes "schedule_world db" and "load_schedule_run i db = Inr r" and "load_schedule (sr_schedule_id r) db = Inr s"
  shows "r \<in> set (schedule_runs db)" "sd_context s \<in> sd_context ` set (schedules db)" "sd_context s = sr_context r"
proof -
  from load_schedule_run_Inr [OF assms(2)] show r: "r \<in> set (schedule_runs db)" by blast
  from load_schedule_Inr [OF assms(3)] have s: "s \<in> set (schedules db)" "sd_id s = sr_schedule_id r" by blast+
  from s(1) show "sd_context s \<in> sd_context ` set (schedules db)" by (rule imageI)
  show "sd_context s = sr_context r" by (rule scheduled_context [OF assms(1) r s])
qed

lemma world_prepare:
  assumes "schedule_world db" and "prepare_schedule_run_execution env now fc fr owner i db = Inr (p, db')"
  shows "schedule_world db'"
  using assms(2)
proof (cases rule: prepare_cases)
  case (refused r s c m)
  note L = load_schedule_world [OF assms(1) refused(1,2)]
  show ?thesis unfolding refused(5)
    by (rule world_mark_terminal [OF assms(1) L(1) _ world_attempts [OF assms(1) L(1)] L(2)]) (simp add: run_kept_def)
next
  case (handed r s c run r1 db1 r2 db2 run' rdb)
  note W = schedule_worldD [OF assms(1)] and L = load_schedule_world [OF assms(1) handed(1,2)]
  note C = ensure_conversation_cases [OF handed(6)]
  from C obtain cs where db1: "db1 = db\<lparr>s_runs := (s_runs db)\<lparr>conversations := conversations (s_runs db) @ cs\<rparr>\<rparr>" by blast
  have inv1: "run_inv (s_runs db1)" using W(2) run_inv_agent_runs [of "s_runs db1" "s_runs db"] db1 by simp
  have att: "sr_attempt_count r \<ge> 0" by (rule world_attempts [OF assms(1) L(1)])
  from handed(7) show ?thesis
  proof (cases rule: ensure_agent_run_cases)
    case old
    have conv: "sr_conversation_id r \<noteq> None" and linked: "sr_agent_run_id r = Some (ar_id run)"
      using ledger_okD(2) [OF W(3) L(1)] old(1) C by (auto simp: link_ok_def)
    then have "r1 = r" using C by blast
    with old(2) have r2: "r2 = r" by (rule trans)
    have ev: "db_evolves (s_runs db2) rdb" by (rule claim_evolves(1) [OF run_invD(1) handed(8)]) (use inv1 old(3) in simp)
    have inv2: "run_inv rdb" by (rule db_evolves_inv [OF _ ev]) (use inv1 old(3) in simp)
    have stay: "runs_stay (s_runs db) rdb"
      using runs_stay_evolves [OF ev] old(3) db1 by (simp add: runs_stay_def)
    show ?thesis
      by (rule world_write_run [OF assms(1) L(1), where r' = "r\<lparr>sr_status := SrRunning, sr_accepted_at := Some now,
         sr_claim_expires_at := None, sr_error_code := None, sr_error_message := None\<rparr>"])
        (use handed(10) r2 old(3) db1 inv2 stay att linked in
          \<open>simp_all add: run_kept_def fire_key_def sr_context_def sr_row_ok_def\<close>)
  next
    case new
    have r1: "r1 = r\<lparr>sr_conversation_id := Some (cv_id c)\<rparr>" using C by blast
    have ev: "db_evolves (s_runs db2) rdb" by (rule claim_evolves(1) [OF run_invD(1) handed(8)]) (rule new(13) [OF inv1])
    have inv2: "run_inv rdb" by (rule db_evolves_inv [OF new(13) [OF inv1] ev])
    have stay: "runs_stay (s_runs db) rdb"
    proof -
      have "runs_stay (s_runs db) (s_runs db2)" by (rule runs_stay_append) (simp add: new(12) db1)
      with runs_stay_evolves [OF ev] show ?thesis unfolding runs_stay_def by metis
    qed
    let ?r' = "r2\<lparr>sr_status := SrRunning, sr_accepted_at := Some now, sr_claim_expires_at := None,
       sr_error_code := None, sr_error_message := None\<rparr>"
    have fresh: "fr \<notin> ar_id ` set (agent_runs (s_runs db))" using new(4) db1 by simp
    have "run \<in> set (agent_runs (s_runs db2))" by (simp add: new(12))
    then have "row_by_id ar_id fr (agent_runs (s_runs db2)) = Some run"
      using row_by_id_unique [OF run_invD(2) [OF new(13) [OF inv1]], of run] new(3) by simp
    then obtain x where x: "row_by_id ar_id fr (agent_runs rdb) = Some x" "identity x = identity run"
      using runs_stay_evolves [OF ev] unfolding runs_stay_def by blast
    have link: "link_ok (agent_runs rdb) ?r'"
      using x new(2,3,5-9) r1 by (simp add: link_ok_def identity_def)
    show ?thesis
      by (rule world_link [OF assms(1) L(1), where r' = ?r' and i = fr])
        (use handed(10) new r1 db1 inv2 stay att link fresh in \<open>simp_all add: fire_key_def sr_context_def sr_row_ok_def\<close>)
  qed
qed

lemma world_prepare_claimed:
  assumes "schedule_world db"
  shows "schedule_world (snd (prepare_claimed_run env text now now2 fc fr owner i db))"
  using assms world_prepare [OF assms] world_setup_failure [OF assms]
  by (auto simp: prepare_claimed_run_def split: sum.splits)

section \<open>Finalizing\<close>

lemma finalize_cases:
  assumes "finalize_schedule_run_execution env now i run_id db = Inr db'"
  obtains (closed) r s run where "load_schedule_run i db = Inr r" "load_schedule (sr_schedule_id r) db = Inr s"
      "load_agent_run run_id db = Inr run" "sr_agent_run_id r = Some run_id"
      "sr_status r \<in> TERMINAL_SCHEDULE_RUN_STATUSES" "db' = db"
  | (completed) r s run next_run where "load_schedule_run i db = Inr r" "load_schedule (sr_schedule_id r) db = Inr s"
      "load_agent_run run_id db = Inr run" "sr_agent_run_id r = Some run_id"
      "sr_status r \<notin> TERMINAL_SCHEDULE_RUN_STATUSES" "ar_status run = RunCompleted"
      "calculate_next_run (se_timing env) (config_of s) now False = Inr next_run"
      "db' = write_pair (complete_schedule now next_run s) (complete_schedule_run now r) db"
  | (waiting) r s run where "load_schedule_run i db = Inr r" "load_schedule (sr_schedule_id r) db = Inr s"
      "load_agent_run run_id db = Inr run" "sr_agent_run_id r = Some run_id"
      "sr_status r \<notin> TERMINAL_SCHEDULE_RUN_STATUSES" "ar_status run = RunAwaitingApproval"
      "db' = db\<lparr>schedule_runs := write_row sr_id (r\<lparr>sr_status := SrAwaitingApproval, sr_claim_expires_at := None\<rparr>)
         (schedule_runs db)\<rparr>"
  | (failed) r s run db1 where "load_schedule_run i db = Inr r" "load_schedule (sr_schedule_id r) db = Inr s"
      "load_agent_run run_id db = Inr run" "sr_agent_run_id r = Some run_id"
      "sr_status r \<notin> TERMINAL_SCHEDULE_RUN_STATUSES" "ar_status run \<in> {RunFailed, RunCancelled}"
      "db1 = mark_run_terminal_failure_and_disable_schedule now
         (or_string (ar_error_code run) (terminal_error_code (ar_status run)))
         (or_string (ar_error_message run) (terminal_error_message (ar_status run))) s r db"
      "db' = db1 \<or> (\<exists>c. db' = db1\<lparr>s_runs := prune_failed_empty_conversation_for_run (se_message_count env)
         (se_prunable_source env) c run_id (s_runs db1)\<rparr>)"
proof -
  from assms obtain r s run where L: "load_schedule_run i db = Inr r" "load_schedule (sr_schedule_id r) db = Inr s"
      "load_agent_run run_id db = Inr run" by (auto simp: finalize_schedule_run_execution_def bind_result_Inr)
  have id: "ar_id run = run_id" using load_agent_run_Inr [OF L(3)] by blast
  note F = assms [unfolded finalize_schedule_run_execution_def L bind_result_simps id]
  from F have linked: "sr_agent_run_id r = Some run_id" by (simp split: if_splits)
  note F = F [simplified linked, simplified]
  show thesis
  proof (cases "sr_status r \<in> TERMINAL_SCHEDULE_RUN_STATUSES")
    case True
    with F closed [OF L linked] show thesis by simp
  next
    case open': False
    show thesis
    proof (cases "ar_status run")
      case RunCompleted
      with F open' completed [OF L linked] show thesis by (auto simp: mark_run_completed_def bind_result_Inr)
    next
      case RunAwaitingApproval
      with F open' waiting [OF L linked] show thesis by simp
    next
      case RunFailed
      with F open' failed [OF L linked open' _ refl] show thesis by (auto simp: Let_def split: option.splits)
    next
      case RunCancelled
      with F open' failed [OF L linked open' _ refl] show thesis by (auto simp: Let_def split: option.splits)
    qed (use F open' in simp_all)
  qed
qed

end
