(* ===== verification/Schedule_System.thy ===== *)
theory Schedule_System
  imports Schedule_Worker
begin

text \<open>
  The remaining operations keep \<open>schedule_world\<close>, and the whole component as a system of committed
  transactions: the owners' requests, the worker's steps, the runs of the agents and whatever happens
  to the workspaces, in any order.
\<close>

section \<open>Finalizing and reconciling\<close>

lemma prune_agent_runs [simp]: "agent_runs (prune_failed_empty_conversation_for_run n src c i d) = agent_runs d"
  by (simp add: prune_failed_empty_conversation_for_run_def split: option.splits)

lemma world_prune:
  assumes "schedule_world db" and "agent_runs d = agent_runs (s_runs db)"
  shows "schedule_world (db\<lparr>s_runs := d\<rparr>)"
  by (rule world_same_runs [OF assms(1)])
    (use schedule_worldD [OF assms(1)] sched_invD(1) run_inv_agent_runs [OF assms(2)] runs_stay_same [OF assms(2)]
      in simp_all)

lemma complete_schedule_context [simp]: "sd_context (complete_schedule now t s) = sd_context s"
  by (simp add: complete_schedule_def sd_context_def split: option.splits)

lemma write_pair_tables [simp]:
  "schedules (write_pair s r db) = write_row sd_id s (schedules db)"
  "schedule_runs (write_pair s r db) = write_row sr_id r (schedule_runs db)"
  "s_runs (write_pair s r db) = s_runs db" "s_ws (write_pair s r db) = s_ws db"
  by (simp_all add: write_pair_def)

lemma world_finalize:
  assumes "schedule_world db" and "finalize_schedule_run_execution env now i run_id db = Inr db'"
  shows "schedule_world db'"
  using assms(2)
proof (cases rule: finalize_cases)
  case closed
  with assms(1) show ?thesis by simp
next
  case (completed r s run t)
  note L = load_schedule_world [OF assms(1) completed(1,2)]
  have ctx: "map sd_context (write_row sd_id (complete_schedule now t s) (schedules db)) = map sd_context (schedules db)"
    by (rule write_schedule_context [OF schedule_worldD(1) [OF assms(1)] L(2)]) simp
  show ?thesis unfolding completed(8)
    by (rule world_write_run [OF assms(1) L(1), where r' = "complete_schedule_run now r"])
      (use ctx world_attempts [OF assms(1) L(1)] schedule_worldD(2) [OF assms(1)] in
        \<open>simp_all add: run_kept_def fire_key_def sr_context_def sr_row_ok_def complete_schedule_run_def\<close>)
next
  case (waiting r s run)
  note L = load_schedule_world [OF assms(1) waiting(1,2)]
  show ?thesis unfolding waiting(7)
    by (rule world_write_run [OF assms(1) L(1), where r' = "r\<lparr>sr_status := SrAwaitingApproval, sr_claim_expires_at := None\<rparr>"])
      (use waiting(4) world_attempts [OF assms(1) L(1)] schedule_worldD(2) [OF assms(1)] in
        \<open>simp_all add: run_kept_def fire_key_def sr_context_def sr_row_ok_def\<close>)
next
  case (failed r s run db1)
  note L = load_schedule_world [OF assms(1) failed(1,2)]
  have w: "schedule_world db1" unfolding failed(7)
    by (rule world_mark_terminal [OF assms(1) L(1) _ world_attempts [OF assms(1) L(1)] L(2)]) (simp add: run_kept_def)
  from failed(8) show ?thesis
  proof (elim disjE exE)
    fix c assume "db' = db1\<lparr>s_runs := prune_failed_empty_conversation_for_run (se_message_count env)
         (se_prunable_source env) c run_id (s_runs db1)\<rparr>"
    then show ?thesis using world_prune [OF w] by simp
  qed (use w in simp)
qed

lemma world_finalize_ready:
  "schedule_world db \<Longrightarrow> finalize_if_agent_run_ready env now i run_id db = Inr (ready, db') \<Longrightarrow> schedule_world db'"
  by (auto simp: finalize_if_agent_run_ready_def bind_result_Inr split: option.splits if_splits intro: world_finalize)

lemma finalize_ready_rows:
  assumes "finalize_if_agent_run_ready env now i run_id db = Inr (ready, db')"
    and "q \<in> set (schedule_runs db)" and "sr_id q \<noteq> i"
  shows "q \<in> set (schedule_runs db')"
proof (cases "db' = db")
  case True
  with assms(2) show ?thesis by simp
next
  case False
  then obtain j where "finalize_schedule_run_execution env now i j db = Inr db'"
    using assms(1) by (auto simp: finalize_if_agent_run_ready_def bind_result_Inr split: option.splits if_splits)
  then show ?thesis
  proof (cases rule: finalize_cases)
    case closed
    with assms(2) show ?thesis by simp
  next
    case (completed r)
    with load_schedule_run_Inr [OF completed(1)] assms(2,3) show ?thesis by (simp add: in_write_row complete_schedule_run_def)
  next
    case (waiting r)
    with load_schedule_run_Inr [OF waiting(1)] assms(2,3) show ?thesis by (simp add: in_write_row)
  next
    case (failed r s run db1)
    with load_schedule_run_Inr [OF failed(1)] assms(2,3)
    have "q \<in> set (schedule_runs db1)" by (simp add: mark_terminal_tables in_write_row fail_run_terminally_keeps)
    with failed(8) show ?thesis by auto
  qed
qed

lemma world_stale_failure:
  assumes "schedule_world db" and "r \<in> set (schedule_runs db)"
  shows "schedule_world (mark_stale_pre_execution_failure cfg now r db)"
proof (cases "find (\<lambda>s. sd_id s = sr_schedule_id r \<and> \<not> sd_deleted s) (schedules db)")
  case None
  with assms show ?thesis by (simp add: mark_stale_pre_execution_failure_def)
next
  case (Some s)
  then have "s \<in> set (schedules db)" by (auto dest: find_SomeD)
  with world_record_retryable [OF assms] Some show ?thesis by (simp add: mark_stale_pre_execution_failure_def)
qed

lemma stale_failure_rows:
  assumes "q \<in> set (schedule_runs db)" and "sr_id q \<noteq> sr_id r"
  shows "q \<in> set (schedule_runs (mark_stale_pre_execution_failure cfg now r db))"
  using assms
  by (auto simp: mark_stale_pre_execution_failure_def record_retryable_failure_def mark_run_retryable_failure_def
      mark_terminal_tables in_write_row fail_run_terminally_def Let_def split: option.splits)

lemma world_reconcile_loop:
  assumes "schedule_world db" and "distinct (map sr_id rs)" and "set rs \<subseteq> set (schedule_runs db)"
    and "reconcile_loop env now rs n db = Inr (m, db')"
  shows "schedule_world db'"
  using assms
proof (induction rs arbitrary: n db)
  case Nil
  then show ?case by simp
next
  case (Cons r rs)
  have rest: "\<And>d n'. schedule_world d \<Longrightarrow> set rs \<subseteq> set (schedule_runs d) \<Longrightarrow>
      reconcile_loop env now rs n' d = Inr (m, db') \<Longrightarrow> schedule_world db'"
    using Cons.IH Cons.prems(2) by auto
  have r: "r \<in> set (schedule_runs db)" and rs: "\<And>q. q \<in> set rs \<Longrightarrow> q \<in> set (schedule_runs db) \<and> sr_id q \<noteq> sr_id r"
    using Cons.prems(2,3) by (auto simp: image_iff)
  show ?case
  proof (cases "sr_agent_run_id r")
    case None
    show ?thesis
    proof (cases "without_agent_run_is_stale (e_settings (se_run env)) now r")
      case True
      have "set rs \<subseteq> set (schedule_runs (mark_stale_pre_execution_failure (e_settings (se_run env)) now r db))"
        using rs stale_failure_rows by blast
      then show ?thesis
        using rest [OF world_stale_failure [OF Cons.prems(1) r]] Cons.prems(4) None True by simp
    next
      case False
      with rest [OF Cons.prems(1)] rs Cons.prems(4) None show ?thesis by (simp add: subset_iff)
    qed
  next
    case (Some run_id)
    with Cons.prems(4) obtain ready d n' where f: "finalize_if_agent_run_ready env now (sr_id r) run_id db = Inr (ready, d)"
      and loop: "reconcile_loop env now rs n' d = Inr (m, db')" by (auto simp: bind_result_Inr)
    have "set rs \<subseteq> set (schedule_runs d)" using finalize_ready_rows [OF f] rs by blast
    with rest [OF world_finalize_ready [OF Cons.prems(1) f] _ loop] show ?thesis by blast
  qed
qed

lemma select_to_reconcile_sub:
  assumes "sched_inv db"
  shows "set (select_to_reconcile n unlocked db) \<subseteq> set (schedule_runs db)" and "distinct (map sr_id (select_to_reconcile n unlocked db))"
proof -
  let ?T = "sort_key sr_created_at (filter (needs_reconciliation db) (schedule_runs db))"
  show "set (select_to_reconcile n unlocked db) \<subseteq> set (schedule_runs db)"
    unfolding select_to_reconcile_def by (auto dest: in_set_takeD)
  have "distinct (map sr_id (filter (needs_reconciliation db) (schedule_runs db)))"
    using sched_invD(2) [OF assms] by (rule distinct_map_filter)
  then have "distinct (map sr_id ?T)" by (simp add: distinct_map)
  then have "distinct (map sr_id (filter (\<lambda>r. unlocked (sr_id r)) ?T))" by (rule distinct_map_filter)
  then show "distinct (map sr_id (select_to_reconcile n unlocked db))"
    by (simp add: select_to_reconcile_def take_map [symmetric])
qed

lemma world_runs_evolve:
  assumes "schedule_world db" and "run_inv d" and "runs_stay (s_runs db) d"
  shows "schedule_world (db\<lparr>s_runs := d\<rparr>)"
  by (rule world_same_runs [OF assms(1)]) (use assms schedule_worldD(1) [OF assms(1)] sched_invD(1) in simp_all)

lemma world_reconcile:
  assumes "schedule_world db" and "reconcile_schedule_run_execution env now rb n unlocked db = Inr (m, db')"
  shows "schedule_world db'"
proof -
  note W = schedule_worldD [OF assms(1)]
  from assms(2) obtain x rdb where reap: "reap_abandoned_runs (se_run env) now None None None None rb (s_runs db) = Inr (x, rdb)"
    and loop: "reconcile_loop env now (select_to_reconcile n unlocked (db\<lparr>s_runs := rdb\<rparr>)) 0 (db\<lparr>s_runs := rdb\<rparr>) = Inr (m, db')"
    by (auto simp: reconcile_schedule_run_execution_def bind_result_Inr Let_def)
  have ev: "db_evolves (s_runs db) rdb" by (rule reap_evolves [OF W(2) reap])
  have w: "schedule_world (db\<lparr>s_runs := rdb\<rparr>)"
    by (rule world_runs_evolve [OF assms(1) db_evolves_inv [OF W(2) ev] runs_stay_evolves [OF ev]])
  show ?thesis
    by (rule world_reconcile_loop [OF w select_to_reconcile_sub(2,1) loop]) (rule schedule_worldD(1) [OF w])+
qed

section \<open>The owners' operations\<close>

lemma world_edit:
  assumes "schedule_world db" and "s \<in> set (schedules db)" and "sd_context s' = sd_context s"
    and "schedules db' = write_row sd_id s' (schedules db)" and "schedule_runs db' = schedule_runs db"
    and "s_runs db' = s_runs db"
  shows "schedule_world db'"
proof -
  have ctx: "map sd_context (schedules db') = map sd_context (schedules db)"
    unfolding assms(4) using assms(2,3) by (intro write_schedule_context [OF schedule_worldD(1) [OF assms(1)]]) auto
  show ?thesis
    by (rule world_same_runs [OF assms(1,5)])
      (use ctx schedule_ids [OF ctx] assms(6) schedule_worldD(1,2) [OF assms(1)] sched_invD(1) in
        \<open>simp_all add: arg_cong [OF ctx, of set, simplified]\<close>)
qed

lemma get_schedule_Inr: "get_schedule_for_workspace w i db = Inr s \<Longrightarrow>
    s \<in> set (schedules db) \<and> sd_id s = i \<and> sd_workspace_id s = w \<and> \<not> sd_deleted s"
  by (auto simp: get_schedule_for_workspace_def split: option.splits dest!: find_SomeD)

lemma update_timing_context: "update_timing te now p s = Inr (c, s1) \<Longrightarrow> sd_context s1 = sd_context s"
  by (auto simp: update_timing_def bind_result_Inr apply_config_def sd_context_def split: if_splits)

lemma update_activity_context: "update_activity te now p w c s = Inr s1 \<Longrightarrow> sd_context s1 = sd_context s"
  by (auto simp: update_activity_def bind_result_Inr Let_def sd_context_def split: option.splits if_splits)

lemma update_schedule_context:
  assumes "update_schedule te vc now actor w m i p db = Inr (s', db')"
  obtains s where "get_schedule_for_workspace w i db = Inr s" "assert_can_mutate_schedule s actor m = Inr ()"
    "sd_context s' = sd_context s" "schedule_runs db' = schedule_runs db" "s_runs db' = s_runs db" "s_ws db' = s_ws db"
    "schedules db' = schedules db \<or> schedules db' = write_row sd_id s' (schedules db)"
proof -
  from assms obtain s config s1 s2 s3 s5 where
    s: "get_schedule_for_workspace w i db = Inr s" "assert_can_mutate_schedule s actor m = Inr ()"
    and 1: "update_timing te now p s = Inr (config, s1)"
    and 2: "(case su_name p of None \<Rightarrow> Inr s1
         | Some v \<Rightarrow> bind_result (normalize_schedule_name v) (\<lambda>n. Inr (s1\<lparr>sd_name := Some n\<rparr>))) = Inr s2"
    and 3: "(case su_default_prompt p of None \<Rightarrow> Inr s2
         | Some v \<Rightarrow> bind_result (normalize_default_prompt v) (\<lambda>n. Inr (s2\<lparr>sd_default_prompt := Some n\<rparr>))) = Inr s3"
    and 4: "(case su_active_context p of None \<Rightarrow> Inr (case su_execution_params p of None \<Rightarrow> s3
         | Some v \<Rightarrow> s3\<lparr>sd_execution_params := v\<rparr>)
         | Some v \<Rightarrow> bind_result (vc v) (\<lambda>x. Inr ((case su_execution_params p of None \<Rightarrow> s3
         | Some v \<Rightarrow> s3\<lparr>sd_execution_params := v\<rparr>)\<lparr>sd_active_context := x\<rparr>))) = Inr s5"
    and 5: "update_activity te now p (sd_is_active s) config s5 = Inr s'"
    and out: "(schedules db' = schedules db \<or> schedules db' = write_row sd_id s' (schedules db)) \<and>
      schedule_runs db' = schedule_runs db \<and> s_runs db' = s_runs db \<and> s_ws db' = s_ws db"
    by (auto simp: update_schedule_def bind_result_Inr split: if_splits)
  have "sd_context s1 = sd_context s" by (rule update_timing_context [OF 1])
  moreover have "sd_context s2 = sd_context s1"
    using 2 by (auto simp: bind_result_Inr sd_context_def split: option.splits)
  moreover have "sd_context s3 = sd_context s2"
    using 3 by (auto simp: bind_result_Inr sd_context_def split: option.splits)
  moreover have "sd_context s5 = sd_context s3"
    using 4 by (auto simp: bind_result_Inr sd_context_def split: option.splits)
  moreover have "sd_context s' = sd_context s5" by (rule update_activity_context [OF 5])
  ultimately show thesis using that s out by simp
qed

lemma world_create:
  assumes "schedule_world db" and "create_schedule te vc now fresh actor w m p db = Inr (s, db')"
  shows "schedule_world db'"
proof -
  from assms(2) have new: "fresh \<notin> sd_id ` set (schedules db)" "sd_id s = fresh" "schedules db' = schedules db @ [s]"
      "schedule_runs db' = schedule_runs db" "s_runs db' = s_runs db"
    by (auto simp: create_schedule_def bind_result_Inr Let_def simp del: split_paired_Ex split: if_splits)
  show ?thesis
    by (rule world_same_runs [OF assms(1) new(4)])
      (use new schedule_worldD(1,2) [OF assms(1)] sched_invD(1) in \<open>auto\<close>)
qed

definition edited :: "sched_db \<Rightarrow> schedule \<Rightarrow> sched_db \<Rightarrow> bool" where
  "edited db s' db' \<longleftrightarrow>
     schedule_runs db' = schedule_runs db \<and> s_runs db' = s_runs db \<and> s_ws db' = s_ws db \<and>
     (schedules db' = schedules db \<or>
      sd_context s' \<in> sd_context ` set (schedules db) \<and> schedules db' = write_row sd_id s' (schedules db))"

lemma edited_world:
  assumes "schedule_world db" and "edited db s' db'"
  shows "schedule_world db'"
proof (cases "schedules db' = schedules db")
  case True
  show ?thesis
    by (rule world_same_runs [OF assms(1)])
      (use assms(2) True schedule_worldD(1,2) [OF assms(1)] sched_invD(1) in \<open>simp_all add: edited_def\<close>)
next
  case False
  with assms(2) obtain s where "s \<in> set (schedules db)" "sd_context s' = sd_context s" by (auto simp: edited_def)
  with assms(2) False show ?thesis by (intro world_edit [OF assms(1)]) (simp_all add: edited_def)
qed

lemma mutation_edited:
  assumes "bind_result (get_schedule_for_workspace w i db) (\<lambda>s.
      bind_result (assert_can_mutate_schedule s actor m) (\<lambda>_. F s)) = Inr (s', db')"
    and "\<And>s. F s = Inr (s', db') \<Longrightarrow> db' = db \<or> sd_context s' = sd_context s \<and> edited db s' (db'\<lparr>schedules := schedules db\<rparr>) \<and>
       schedules db' = write_row sd_id s' (schedules db)"
  shows "edited db s' db'"
proof -
  from assms(1) obtain s where s: "get_schedule_for_workspace w i db = Inr s" "F s = Inr (s', db')"
    by (auto simp: bind_result_Inr)
  have "s \<in> set (schedules db)" using get_schedule_Inr [OF s(1)] by blast
  then have "sd_context s \<in> sd_context ` set (schedules db)" by (rule imageI)
  with assms(2) [OF s(2)] show ?thesis by (auto simp: edited_def)
qed

lemma enable_edited: "enable_schedule te now actor w m i db = Inr (s, db') \<Longrightarrow> edited db s db'"
  unfolding enable_schedule_def
  by (erule mutation_edited) (auto simp: bind_result_Inr Let_def sd_context_def edited_def split: if_splits)

lemma pause_edited: "pause_schedule actor w m i db = Inr (s, db') \<Longrightarrow> edited db s db'"
  unfolding pause_schedule_def
  by (erule mutation_edited) (auto simp: bind_result_Inr Let_def sd_context_def edited_def split: if_splits)

lemma run_now_edited: "run_schedule_now now actor w m i db = Inr (s, db') \<Longrightarrow> edited db s db'"
  unfolding run_schedule_now_def
  by (erule mutation_edited) (auto simp: Let_def sd_context_def edited_def split: if_splits)

lemma delete_edited: "delete_schedule actor w m i db = Inr (s, db') \<Longrightarrow> edited db s db'"
  unfolding delete_schedule_def
  by (erule mutation_edited) (auto simp: Let_def sd_context_def edited_def)

interpretation stop_row: row_update sd_id "\<lambda>s. s\<lparr>sd_is_active := False, sd_next_run_at := None\<rparr>"
  by unfold_locales simp

lemma world_disable_user:
  assumes "schedule_world db"
  shows "schedule_world (snd (disable_user_schedules actor u db))"
proof -
  let ?f = "\<lambda>s. s\<lparr>sd_is_active := False, sd_next_run_at := None\<rparr>"
  have ctx: "map sd_context (update_where P ?f T) = map sd_context T" for P T
    by (induction T) (simp_all add: sd_context_def)
  have ctx_set: "sd_context ` set (update_where P ?f T) = sd_context ` set T" for P T
    using arg_cong [OF ctx, of set P T] by simp
  show ?thesis
    by (rule world_same_runs [OF assms])
      (use schedule_worldD(1,2) [OF assms] sched_invD(1) ctx_set in
        \<open>simp_all add: disable_user_schedules_def Let_def stop_row.keys_update_where\<close>)
qed

lemma update_edited:
  assumes "update_schedule te vc now actor w m i p db = Inr (s', db')"
  shows "edited db s' db'"
  using assms
proof (rule update_schedule_context)
  fix s assume *: "get_schedule_for_workspace w i db = Inr s" "sd_context s' = sd_context s"
    "schedule_runs db' = schedule_runs db" "s_runs db' = s_runs db" "s_ws db' = s_ws db"
    "schedules db' = schedules db \<or> schedules db' = write_row sd_id s' (schedules db)"
  have "s \<in> set (schedules db)" using get_schedule_Inr [OF *(1)] by blast
  with * show ?thesis by (auto simp: edited_def)
qed

section \<open>The system\<close>

datatype sched_event =
    CreateSchedule timestamp uuid uuid uuid membership schedule_create
  | UpdateSchedule timestamp uuid uuid membership uuid schedule_update
  | EnableSchedule timestamp uuid uuid membership uuid
  | PauseSchedule uuid uuid membership uuid
  | RunScheduleNow timestamp uuid uuid membership uuid
  | DeleteSchedule uuid uuid membership uuid
  | DisableUserSchedules uuid uuid
  | ClaimDue timestamp nat int "uuid \<Rightarrow> bool" "uuid \<Rightarrow> uuid" "uuid \<Rightarrow> uuid"
  | PrepareClaimed timestamp timestamp uuid uuid string uuid
  | FinalizeRun timestamp uuid uuid
  | ReconcileRuns timestamp nat "int option" "uuid \<Rightarrow> bool"
  | AgentRunStep run_event
  | WorkspacesChange ws_db

definition sched_committed :: "sched_db \<Rightarrow> app_error + 'r \<times> sched_db \<Rightarrow> sched_db" where
  "sched_committed db r = (case r of Inl e \<Rightarrow> db | Inr (x, db') \<Rightarrow> db')"

record sched_world_env =
  w_env :: sched_env
  w_validate_context :: "json option \<Rightarrow> app_error + json option"
  w_text_of :: "app_error \<Rightarrow> string"

fun sched_step :: "sched_world_env \<Rightarrow> sched_db \<Rightarrow> sched_event \<Rightarrow> sched_db" where
  "sched_step w db (CreateSchedule now fresh actor wk m p) =
     sched_committed db (create_schedule (se_timing (w_env w)) (w_validate_context w) now fresh actor wk m p db)"
| "sched_step w db (UpdateSchedule now actor wk m i p) =
     sched_committed db (update_schedule (se_timing (w_env w)) (w_validate_context w) now actor wk m i p db)"
| "sched_step w db (EnableSchedule now actor wk m i) =
     sched_committed db (enable_schedule (se_timing (w_env w)) now actor wk m i db)"
| "sched_step w db (PauseSchedule actor wk m i) = sched_committed db (pause_schedule actor wk m i db)"
| "sched_step w db (RunScheduleNow now actor wk m i) = sched_committed db (run_schedule_now now actor wk m i db)"
| "sched_step w db (DeleteSchedule actor wk m i) = sched_committed db (delete_schedule actor wk m i db)"
| "sched_step w db (DisableUserSchedules actor u) = snd (disable_user_schedules actor u db)"
| "sched_step w db (ClaimDue now n ttl unlocked fresh tok) =
     sched_committed db (claim_due_schedule_runs now n ttl unlocked fresh tok db)"
| "sched_step w db (PrepareClaimed now now2 fc fr owner i) =
     snd (prepare_claimed_run (w_env w) (w_text_of w) now now2 fc fr owner i db)"
| "sched_step w db (FinalizeRun now i run_id) =
     (case finalize_schedule_run_execution (w_env w) now i run_id db of Inl e \<Rightarrow> db | Inr db' \<Rightarrow> db')"
| "sched_step w db (ReconcileRuns now rb n unlocked) =
     sched_committed db (reconcile_schedule_run_execution (w_env w) now rb n unlocked db)"
| "sched_step w db (AgentRunStep e) = db\<lparr>s_runs := run_step (se_run (w_env w)) (s_runs db) e\<rparr>"
| "sched_step w db (WorkspacesChange ws) = db\<lparr>s_ws := ws\<rparr>"

lemma world_committed:
  "schedule_world db \<Longrightarrow> (\<And>x db'. r = Inr (x, db') \<Longrightarrow> schedule_world db') \<Longrightarrow> schedule_world (sched_committed db r)"
  by (auto simp: sched_committed_def split: sum.splits)

lemma world_ws: "schedule_world (db\<lparr>s_ws := ws\<rparr>) = schedule_world db"
  by (simp add: schedule_world_def sched_inv_def ledger_ok_def)

lemma sched_step_world:
  assumes "schedule_world db"
  shows "schedule_world (sched_step w db e)"
proof (cases e)
  case (FinalizeRun now i run_id)
  with world_finalize [OF assms] assms show ?thesis by (auto split: sum.splits)
next
  case (AgentRunStep a)
  note W = schedule_worldD [OF assms]
  from world_runs_evolve [OF assms run_step_inv [OF W(2)] runs_stay_step [OF W(2)]] AgentRunStep show ?thesis by simp
qed (use assms in \<open>auto simp: world_ws intro: world_committed world_create update_edited edited_world
    enable_edited pause_edited run_now_edited delete_edited world_disable_user world_claim_due world_prepare_claimed world_reconcile\<close>)

interpretation sched_system: invariant_system "sched_step w" schedule_world for w
  by unfold_locales (rule sched_step_world)

end
