(* ===== verification/Schedule_Timing.thy ===== *)
theory Schedule_Timing
  imports Schedule_System
begin

text \<open>
  The timing of schedules: what the validation accepts, when the next run is, and the invariant of the
  stored rows: their timing is well formed, and an active schedule always has a due time, so that the
  scanner can see it.
\<close>

section \<open>Validation\<close>

definition config_wf :: "timing_env \<Rightarrow> schedule_config \<Rightarrow> bool" where
  "config_wf te c \<longleftrightarrow> zone_ok te (c_timezone c) \<and> c_timezone c \<noteq> [] \<and>
     ((c_type c = ''cron'' \<and> (\<exists>e. c_cron c = Some e \<and> e \<noteq> [] \<and> cron_ok te e) \<and> c_interval c = None \<and> c_once c = None) \<or>
      (c_type c = ''interval'' \<and> c_cron c = None \<and> (\<exists>n. c_interval c = Some n \<and> 1 \<le> n) \<and> c_once c = None) \<or>
      (c_type c = ''once'' \<and> c_cron c = None \<and> c_interval c = None \<and> c_once c \<noteq> None))"

lemma resolve_timezone_Inr:
  "resolve_timezone te z = Inr name \<Longrightarrow> zone_ok te name \<and> name \<noteq> [] \<and> name = or_string z DEFAULT_TIMEZONE"
  by (auto simp: resolve_timezone_def Let_def or_string_def DEFAULT_TIMEZONE_def split: if_splits option.splits)

lemma resolve_timezone_ok: "zone_ok te z \<Longrightarrow> z \<noteq> [] \<Longrightarrow> resolve_timezone te (Some z) = Inr z"
  by (simp add: resolve_timezone_def or_string_def)

lemma timing_of_type_wf:
  assumes "timing_of_type te now t cron interval once_utc zone rf = Inr c" and "t \<in> VALID_SCHEDULE_TYPES"
    and "zone_ok te zone" and "zone \<noteq> []"
  shows "config_wf te c \<and> c_type c = t \<and> c_timezone c = zone"
proof -
  consider "t = ''cron''" | "t = ''interval''" | "t = ''once''" using assms(2) by (auto simp: VALID_SCHEDULE_TYPES_def)
  then show ?thesis
  proof cases
    case 1
    with assms show ?thesis by (cases cron) (auto simp: timing_of_type_def config_wf_def split: if_splits)
  next
    case 2
    with assms show ?thesis by (cases interval) (auto simp: timing_of_type_def config_wf_def split: if_splits)
  next
    case 3
    with assms show ?thesis by (cases once_utc) (auto simp: timing_of_type_def config_wf_def split: if_splits)
  qed
qed

lemma normalize_wf:
  assumes "normalize_schedule_config te now t cron interval once zone rf supplied = Inr c"
  shows "config_wf te c \<and> c_type c = t \<and> c_timezone c = or_string zone DEFAULT_TIMEZONE"
proof -
  from assms obtain name o_utc where t: "t \<in> VALID_SCHEDULE_TYPES" and z: "resolve_timezone te zone = Inr name"
    and c: "timing_of_type te now t cron interval o_utc name rf = Inr c"
    by (auto simp: normalize_schedule_config_def bind_result_Inr split: if_splits)
  note Z = resolve_timezone_Inr [OF z]
  have "config_wf te c \<and> c_type c = t \<and> c_timezone c = name" by (rule timing_of_type_wf [OF c t]) (use Z in blast)+
  with Z show ?thesis by simp
qed

lemma normalize_of_wf:
  assumes "config_wf te c" and "rf \<Longrightarrow> c_type c = ''once'' \<Longrightarrow> null_gt (c_once c) now"
  shows "normalize_schedule_config te now (c_type c) (c_cron c) (c_interval c) (map_option Aware (c_once c))
    (Some (c_timezone c)) rf supplied = Inr c"
proof -
  have z: "resolve_timezone te (Some (c_timezone c)) = Inr (c_timezone c)"
    using assms(1) by (intro resolve_timezone_ok) (simp_all add: config_wf_def)
  consider e where "c_type c = ''cron''" "c_cron c = Some e" "e \<noteq> []" "cron_ok te e" "c_interval c = None" "c_once c = None"
    | n where "c_type c = ''interval''" "c_cron c = None" "c_interval c = Some n" "1 \<le> n" "c_once c = None"
    | t where "c_type c = ''once''" "c_cron c = None" "c_interval c = None" "c_once c = Some t"
    using assms(1) by (auto simp: config_wf_def)
  then show ?thesis
  proof cases
    case 1
    with z show ?thesis
      by (cases c; cases supplied) (simp_all add: normalize_schedule_config_def timing_of_type_def VALID_SCHEDULE_TYPES_def check_supplied_fields_def
          timing_fields_by_type_def normalize_utc_datetime_def)
  next
    case 2
    with z show ?thesis
      by (cases c; cases supplied) (simp_all add: normalize_schedule_config_def timing_of_type_def VALID_SCHEDULE_TYPES_def check_supplied_fields_def
          timing_fields_by_type_def normalize_utc_datetime_def)
  next
    case 3
    with z assms(2) show ?thesis
      by (cases c; cases supplied) (auto simp: normalize_schedule_config_def timing_of_type_def VALID_SCHEDULE_TYPES_def check_supplied_fields_def
          timing_fields_by_type_def normalize_utc_datetime_def)
  qed
qed

section \<open>The next run\<close>

definition cron_advances :: "timing_env \<Rightarrow> bool" where
  "cron_advances te \<longleftrightarrow> (\<forall>e z t u. cron_next te e z t = Some u \<longrightarrow> t < u)"

lemma next_run_exists: "config_wf te c \<Longrightarrow> calculate_next_run te c basis True = Inr r \<Longrightarrow> r \<noteq> None"
  by (auto simp: config_wf_def calculate_next_run_def bind_result_Inr split: option.splits)

lemma next_run_after:
  assumes "config_wf te c" and "cron_advances te" and "c_type c \<noteq> ''once''"
    and "calculate_next_run te c basis ro = Inr (Some t)"
  shows "basis < t"
  using assms
  by (auto simp: config_wf_def calculate_next_run_def bind_result_Inr cron_advances_def timedelta_minutes_def
      split: option.splits)

lemma next_run_recurring:
  assumes "config_wf te c" and "c_type c \<noteq> ''once''"
  shows "calculate_next_run te c basis ro = calculate_next_run te c basis True"
  using assms(2) by (simp add: calculate_next_run_def)

lemma preview_loop_sorted:
  assumes "config_wf te c" and "cron_advances te" and "c_type c \<noteq> ''once''" and "preview_loop te c n basis = Inr ts"
  shows "length ts = n \<and> sorted_wrt (<) (basis # ts) \<and>
    (\<forall>i < n. calculate_next_run te c ((basis # ts) ! i) True = Inr (Some (ts ! i)))"
  using assms(4)
proof (induction n arbitrary: basis ts)
  case 0
  then show ?case by simp
next
  case (Suc n)
  then obtain r where r: "calculate_next_run te c basis True = Inr r" by (auto simp: bind_result_Inr)
  with next_run_exists [OF assms(1)] obtain t where t: "calculate_next_run te c basis True = Inr (Some t)" by blast
  with Suc.prems obtain us where us: "preview_loop te c n t = Inr us" "ts = t # us" by (auto simp: bind_result_Inr)
  from Suc.IH [OF us(1)] next_run_after [OF assms(1-3) t] us(2) t show ?case
    by (auto simp: nth_Cons' less_Suc_eq_0_disj split: if_splits intro: order_less_trans)
qed

lemma preview_loop_interval:
  assumes "c_type c = ''interval''" and "c_interval c = Some k"
  shows "preview_loop te c n basis = Inr (map (\<lambda>i. basis + int (Suc i) * timedelta_minutes k) [0..<n])"
proof (induction n arbitrary: basis)
  case 0
  then show ?case by simp
next
  case (Suc n)
  have "map (\<lambda>i. basis + int (Suc i) * timedelta_minutes k) [0..<Suc n] =
      (basis + timedelta_minutes k) # map (\<lambda>i. basis + int (Suc (Suc i)) * timedelta_minutes k) [0..<n]"
    by (simp add: upt_conv_Cons map_Suc_upt [symmetric] del: upt_Suc)
  then show ?case using assms Suc.IH [of "basis + timedelta_minutes k"]
    by (simp add: calculate_next_run_def algebra_simps del: upt_Suc)
qed

section \<open>The stored rows\<close>

definition timing_ok :: "timing_env \<Rightarrow> schedule \<Rightarrow> bool" where
  "timing_ok te s \<longleftrightarrow> config_wf te (config_of s) \<and> (sd_is_active s \<longrightarrow> sd_next_run_at s \<noteq> None)"

definition timing_inv :: "timing_env \<Rightarrow> sched_db \<Rightarrow> bool" where
  "timing_inv te db \<longleftrightarrow> (\<forall>s \<in> set (schedules db). timing_ok te s)"

lemma timing_write: "timing_inv te db \<Longrightarrow> timing_ok te s \<Longrightarrow> schedules db' = write_row sd_id s (schedules db) \<Longrightarrow> timing_inv te db'"
  by (auto simp: timing_inv_def in_write_row)

lemma timing_same: "timing_inv te db \<Longrightarrow> schedules db' = schedules db \<Longrightarrow> timing_inv te db'"
  by (simp add: timing_inv_def)

lemma timing_stop [simp]: "timing_ok te s \<Longrightarrow> timing_ok te (stop_schedule s)"
  by (simp add: timing_ok_def stop_schedule_def config_of_def)

lemma timing_mark_terminal:
  "timing_inv te db \<Longrightarrow> timing_ok te s \<Longrightarrow> timing_inv te (mark_run_terminal_failure_and_disable_schedule now c m s r db)"
  by (rule timing_write [OF _ timing_stop mark_terminal_tables(1)])

lemma timing_record_retryable:
  "timing_inv te db \<Longrightarrow> timing_ok te s \<Longrightarrow> timing_inv te (record_retryable_failure now c m m2 n s r db)"
  by (auto simp: record_retryable_failure_def timing_mark_terminal split: prod.splits intro: timing_same)

lemma get_or_create_schedules:
  "get_or_create_run_for_schedule now fresh s db = Inr (found, db1) \<Longrightarrow> schedules db1 = schedules db"
  by (auto simp: get_or_create_run_for_schedule_def Let_def split: option.splits if_splits)

lemma timing_claim_one:
  assumes "timing_inv te db" and "timing_ok te s" and "claim_one_schedule now ttl fresh tok s db = Inr (res, db')"
  shows "timing_inv te db'"
proof -
  from assms(3) obtain found db1 where g: "get_or_create_run_for_schedule now fresh s db = Inr (found, db1)"
    by (auto simp: claim_one_schedule_def bind_result_Inr)
  have t1: "timing_inv te db1" by (rule timing_same [OF assms(1) get_or_create_schedules [OF g]])
  consider "schedules db' = schedules db1" | r c m where "db' = mark_run_terminal_failure_and_disable_schedule now c m s r db1"
    using assms(3) g by (auto simp: claim_one_schedule_def Let_def split: option.splits if_splits)
  then show ?thesis by cases (auto intro: timing_same [OF t1] timing_mark_terminal [OF t1 assms(2)])
qed

lemma timing_claim_loop:
  "timing_inv te db \<Longrightarrow> \<forall>s \<in> set ss. timing_ok te s \<Longrightarrow>
     claim_loop now ttl fresh tok ss claimed db = Inr (out, db') \<Longrightarrow> timing_inv te db'"
proof (induction ss arbitrary: claimed db)
  case Nil
  then show ?case by simp
next
  case (Cons s ss)
  from Cons.prems(3) obtain res db1 claimed1 where
    one: "claim_one_schedule now ttl (fresh (sd_id s)) (tok (sd_id s)) s db = Inr (res, db1)"
    and loop: "claim_loop now ttl fresh tok ss claimed1 db1 = Inr (out, db')"
    by (auto simp: bind_result_Inr)
  from Cons.IH [OF timing_claim_one [OF Cons.prems(1) _ one] _ loop] Cons.prems(2) show ?case by simp
qed

lemma timing_claim_due:
  assumes "timing_inv te db" and "claim_due_schedule_runs now n ttl unlocked fresh tok db = Inr (out, db')"
  shows "timing_inv te db'"
  by (rule timing_claim_loop [OF assms(1) _ assms(2) [unfolded claim_due_schedule_runs_def]])
    (use assms(1) selected_due in \<open>auto simp: timing_inv_def\<close>)

lemma timing_row: "timing_inv te db \<Longrightarrow> s \<in> set (schedules db) \<Longrightarrow> timing_ok te s"
  by (simp add: timing_inv_def)

lemma timing_found: "timing_inv te db \<Longrightarrow> find P (schedules db) = Some s \<Longrightarrow> timing_ok te s"
  by (auto intro: timing_row dest!: find_SomeD)

lemma timing_setup_failure: "timing_inv te db \<Longrightarrow> timing_inv te (record_claim_setup_failure cfg now c m i db)"
  by (auto simp: record_claim_setup_failure_def split: option.splits intro: timing_record_retryable dest: timing_found)

lemma timing_stale: "timing_inv te db \<Longrightarrow> timing_inv te (mark_stale_pre_execution_failure cfg now r db)"
  by (auto simp: mark_stale_pre_execution_failure_def split: option.splits intro: timing_record_retryable dest: timing_found)

lemma timing_prepare:
  assumes "timing_inv te db" and "prepare_schedule_run_execution env now fc fr owner i db = Inr (p, db')"
  shows "timing_inv te db'"
  using assms(2)
proof (cases rule: prepare_cases)
  case (refused r s c m)
  with timing_mark_terminal [OF assms(1) timing_row [OF assms(1)]] load_schedule_Inr show ?thesis by blast
next
  case (handed r s c run r1 db1 r2 db2 run' rdb)
  from ensure_conversation_cases [OF handed(6)] have "schedules db1 = schedules db" by auto
  moreover from handed(7) have "schedules db2 = schedules db1" by (cases rule: ensure_agent_run_cases) simp_all
  ultimately show ?thesis by (intro timing_same [OF assms(1)]) (simp add: handed(10))
qed

lemma complete_timing:
  assumes "timing_ok te s" and "calculate_next_run te (config_of s) now False = Inr t"
  shows "timing_ok te (complete_schedule now t s)"
  using assms by (auto simp: timing_ok_def complete_schedule_def config_of_def split: option.splits)

lemma timing_finalize:
  assumes "timing_inv (se_timing env) db" and "finalize_schedule_run_execution env now i run_id db = Inr db'"
  shows "timing_inv (se_timing env) db'"
  using assms(2)
proof (cases rule: finalize_cases)
  case closed
  with assms(1) show ?thesis by simp
next
  case (completed r s run t)
  have s: "timing_ok (se_timing env) s" using load_schedule_Inr [OF completed(2)] timing_row [OF assms(1)] by blast
  show ?thesis
    by (rule timing_write [OF assms(1) complete_timing [OF s completed(7)]]) (simp add: completed(8))
next
  case waiting
  then show ?thesis by (intro timing_same [OF assms(1)]) simp
next
  case (failed r s run db1)
  have "timing_inv (se_timing env) db1"
    using load_schedule_Inr [OF failed(2)] timing_row [OF assms(1)] timing_mark_terminal [OF assms(1)] failed(7) by blast
  with failed(8) show ?thesis by (auto intro: timing_same)
qed

lemma timing_reconcile_loop:
  "timing_inv (se_timing env) db \<Longrightarrow> reconcile_loop env now rs n db = Inr (m, db') \<Longrightarrow> timing_inv (se_timing env) db'"
proof (induction rs arbitrary: n db)
  case (Cons r rs)
  show ?case
  proof (cases "sr_agent_run_id r")
    case None
    show ?thesis
    proof (cases "without_agent_run_is_stale (e_settings (se_run env)) now r")
      case True
      with Cons.prems(2) None Cons.IH [OF timing_stale [OF Cons.prems(1)]] show ?thesis by simp
    next
      case False
      with Cons.prems(2) None Cons.IH [OF Cons.prems(1)] show ?thesis by simp
    qed
  next
    case (Some j)
    with Cons.prems(2) obtain ready d n' where "finalize_if_agent_run_ready env now (sr_id r) j db = Inr (ready, d)"
      and loop: "reconcile_loop env now rs n' d = Inr (m, db')" by (auto simp: bind_result_Inr)
    then have "timing_inv (se_timing env) d"
      using timing_finalize [OF Cons.prems(1)] Cons.prems(1)
      by (auto simp: finalize_if_agent_run_ready_def bind_result_Inr split: option.splits if_splits)
    then show ?thesis by (rule Cons.IH [OF _ loop])
  qed
qed simp

lemma timing_reconcile:
  assumes "timing_inv (se_timing env) db" and "reconcile_schedule_run_execution env now rb n unlocked db = Inr (m, db')"
  shows "timing_inv (se_timing env) db'"
proof -
  from assms(2) obtain rdb where
    "reconcile_loop env now (select_to_reconcile n unlocked (db\<lparr>s_runs := rdb\<rparr>)) 0 (db\<lparr>s_runs := rdb\<rparr>) = Inr (m, db')"
    by (auto simp: reconcile_schedule_run_execution_def bind_result_Inr Let_def)
  from timing_reconcile_loop [OF timing_same [OF assms(1)] this] show ?thesis by simp
qed

section \<open>Every operation keeps the rows\<close>

lemma timing_ok_fields:
  "config_of s' = config_of s \<Longrightarrow> sd_is_active s' = sd_is_active s \<Longrightarrow> sd_next_run_at s' = sd_next_run_at s \<Longrightarrow>
     timing_ok te s' = timing_ok te s"
  by (simp add: timing_ok_def)

lemma timing_create:
  assumes "timing_inv te db" and "create_schedule te vc now fresh actor w m p db = Inr (s, db')"
  shows "timing_inv te db'"
proof -
  from assms(2) obtain c r where
    c: "normalize_schedule_config te now (cr_type p) (cr_cron p) (cr_interval p) (cr_once p) (cr_timezone p) True
      (Some TIMING_FIELD_NAMES) = Inr c"
    and r: "(if cr_is_active p then calculate_next_run te c now True else Inr None) = Inr r"
    and s: "config_of s = c" "sd_is_active s = cr_is_active p" "sd_next_run_at s = r" "schedules db' = schedules db @ [s]"
    by (auto simp: create_schedule_def bind_result_Inr Let_def config_of_def simp del: split_paired_Ex split: if_splits)
  have "config_wf te c" using normalize_wf [OF c] by blast
  with r next_run_exists [of te c now r] have "timing_ok te s" by (auto simp: timing_ok_def s)
  with assms(1) s(4) show ?thesis by (simp add: timing_inv_def)
qed

lemma update_timing_ok:
  assumes "update_timing te now p s = Inr (config, s1)" and "timing_ok te s"
  shows "config_wf te (config_of s1) \<and> sd_is_active s1 = sd_is_active s \<and>
    (config = None \<and> s1 = s \<or> config = Some (config_of s1))"
proof (cases "supplied_timing p = {}")
  case True
  with assms show ?thesis by (simp add: update_timing_def timing_ok_def)
next
  case False
  with assms(1) obtain c where c: "normalize_timing_update te now p s = Inr c" "config = Some c" "s1 = apply_config c s"
    by (auto simp: update_timing_def bind_result_Inr)
  from c(1) have "config_wf te c"
    unfolding normalize_timing_update_def by (auto split: option.splits dest!: normalize_wf)
  moreover have "config_of (apply_config c s) = c" by (simp add: config_of_def apply_config_def)
  ultimately show ?thesis using c by (simp add: apply_config_def)
qed

lemma update_activity_ok:
  assumes "update_activity te now p was config s = Inr s'" and wf: "config_wf te (config_of s)"
    and was: "was = sd_is_active s" and cfg: "config = None \<and> timing_ok te s \<or> config = Some (config_of s)"
  shows "timing_ok te s'"
proof -
  have cfg_of: "config_of (s\<lparr>sd_is_active := a\<rparr>) = config_of s" "config_of (s\<lparr>sd_is_active := a, sd_next_run_at := t\<rparr>) = config_of s"
      "config_of (s\<lparr>sd_next_run_at := t\<rparr>) = config_of s" for a t
    by (simp_all add: config_of_def)
  show ?thesis
  proof (cases "su_is_active p")
    case None
    show ?thesis
    proof (cases config)
      case None': None
      with assms(1) None cfg show ?thesis by (auto simp: update_activity_def)
    next
      case (Some c)
      with assms(1) None obtain t where t: "(if sd_is_active s then calculate_next_run te c now True else Inr None) = Inr t"
          "s' = s\<lparr>sd_next_run_at := t\<rparr>" by (auto simp: update_activity_def bind_result_Inr)
      with next_run_exists [OF wf, of now t] cfg Some wf show ?thesis by (auto simp: timing_ok_def cfg_of)
    qed
  next
    case (Some a)
    with assms(1) obtain active where a: "a = Some active" by (cases a) (auto simp: update_activity_def)
    let ?s1 = "s\<lparr>sd_is_active := active\<rparr>"
    note act = assms(1) [unfolded update_activity_def Some a option.case]
    consider (calc) c t where "active" "config = Some c \<or> config = None \<and> normalize_schedule_from_row te now ?s1 True = Inr c"
        "calculate_next_run te c now True = Inr t" "s' = ?s1\<lparr>sd_next_run_at := t\<rparr>"
      | (off) "\<not> active" "s' = ?s1\<lparr>sd_next_run_at := None\<rparr>" | (same) "active" "was" "config = None" "s' = ?s1"
    proof (cases "active \<and> (\<not> was \<or> config \<noteq> None)")
      case True
      show thesis
      proof (cases config)
        case None
        with act True obtain c t where "normalize_schedule_from_row te now ?s1 True = Inr c"
          "calculate_next_run te c now True = Inr t" "s' = ?s1\<lparr>sd_next_run_at := t\<rparr>"
          by (auto simp: Let_def bind_result_Inr)
        with None True calc show thesis by blast
      next
        case (Some c)
        with act True obtain t where "calculate_next_run te c now True = Inr t" "s' = ?s1\<lparr>sd_next_run_at := t\<rparr>"
          by (auto simp: Let_def bind_result_Inr)
        with Some True calc show thesis by blast
      qed
    next
      case False
      with act off same show thesis by (cases active) (simp_all add: Let_def)
    qed
    then show ?thesis
    proof cases
      case calc
      then have "config_wf te c" using cfg wf by (auto simp: normalize_schedule_from_row_def dest!: normalize_wf)
      with next_run_exists calc(3) have "t \<noteq> None" by blast
      with calc(1,4) wf show ?thesis by (simp add: timing_ok_def cfg_of)
    next
      case off
      with wf show ?thesis by (simp add: timing_ok_def cfg_of)
    next
      case same
      with cfg was have "sd_next_run_at s \<noteq> None" by (simp add: timing_ok_def)
      with same wf show ?thesis by (simp add: timing_ok_def cfg_of)
    qed
  qed
qed

lemma update_other_fields:
  assumes "update_schedule te vc now actor w m i p db = Inr (s', db')"
  obtains s config s1 s5 where "get_schedule_for_workspace w i db = Inr s" "update_timing te now p s = Inr (config, s1)"
    "config_of s5 = config_of s1" "sd_is_active s5 = sd_is_active s1" "sd_next_run_at s5 = sd_next_run_at s1"
    "update_activity te now p (sd_is_active s) config s5 = Inr s'"
    "schedules db' = schedules db \<or> schedules db' = write_row sd_id s' (schedules db)"
proof -
  from assms obtain s config s1 s2 s3 s5 where
    s: "get_schedule_for_workspace w i db = Inr s"
    and 1: "update_timing te now p s = Inr (config, s1)"
    and 2: "(case su_name p of None \<Rightarrow> Inr s1
         | Some v \<Rightarrow> bind_result (normalize_schedule_name v) (\<lambda>n. Inr (s1\<lparr>sd_name := Some n\<rparr>))) = Inr s2"
    and 3: "(case su_default_prompt p of None \<Rightarrow> Inr s2
         | Some v \<Rightarrow> bind_result (normalize_default_prompt v) (\<lambda>n. Inr (s2\<lparr>sd_default_prompt := Some n\<rparr>))) = Inr s3"
    and 4: "(case su_active_context p of None \<Rightarrow> Inr (case su_execution_params p of None \<Rightarrow> s3
         | Some v \<Rightarrow> s3\<lparr>sd_execution_params := v\<rparr>)
         | Some v \<Rightarrow> bind_result (vc v) (\<lambda>x. Inr ((case su_execution_params p of None \<Rightarrow> s3
         | Some v \<Rightarrow> s3\<lparr>sd_execution_params := v\<rparr>)\<lparr>sd_active_context := x\<rparr>))) = Inr s5"
    and 5: "update_activity te now p (sd_is_active s) config s5 = Inr s'"
    and out: "schedules db' = schedules db \<or> schedules db' = write_row sd_id s' (schedules db)"
    by (auto simp: update_schedule_def bind_result_Inr split: if_splits)
  have k2: "config_of s2 = config_of s1 \<and> sd_is_active s2 = sd_is_active s1 \<and> sd_next_run_at s2 = sd_next_run_at s1"
    using 2 by (auto simp: bind_result_Inr config_of_def split: option.splits)
  have k3: "config_of s3 = config_of s2 \<and> sd_is_active s3 = sd_is_active s2 \<and> sd_next_run_at s3 = sd_next_run_at s2"
    using 3 by (auto simp: bind_result_Inr config_of_def split: option.splits)
  have k5: "config_of s5 = config_of s3 \<and> sd_is_active s5 = sd_is_active s3 \<and> sd_next_run_at s5 = sd_next_run_at s3"
    using 4 by (auto simp: bind_result_Inr config_of_def split: option.splits)
  show thesis by (rule that [OF s 1 _ _ _ 5 out]) (use k2 k3 k5 in simp_all)
qed

lemma timing_update:
  assumes "timing_inv te db" and "update_schedule te vc now actor w m i p db = Inr (s', db')"
  shows "timing_inv te db'"
  using assms(2)
proof (rule update_other_fields)
  fix s config s1 s5
  assume a: "get_schedule_for_workspace w i db = Inr s" "update_timing te now p s = Inr (config, s1)"
    "config_of s5 = config_of s1" "sd_is_active s5 = sd_is_active s1" "sd_next_run_at s5 = sd_next_run_at s1"
    "update_activity te now p (sd_is_active s) config s5 = Inr s'"
    "schedules db' = schedules db \<or> schedules db' = write_row sd_id s' (schedules db)"
  have s: "timing_ok te s" using timing_row [OF assms(1)] get_schedule_Inr [OF a(1)] by blast
  note T = update_timing_ok [OF a(2) s]
  have "timing_ok te s'"
    by (rule update_activity_ok [OF a(6)])
      (use T s a(3-5) timing_ok_fields [OF a(3-5)] in \<open>auto\<close>)
  with a(7) show ?thesis using timing_same [OF assms(1)] timing_write [OF assms(1)] by blast
qed

lemma mutation_timing:
  assumes "timing_inv te db" and "bind_result (get_schedule_for_workspace w i db) (\<lambda>s.
      bind_result (assert_can_mutate_schedule s actor m) (\<lambda>_. F s)) = Inr (s', db')"
    and "\<And>s. timing_ok te s \<Longrightarrow> F s = Inr (s', db') \<Longrightarrow> db' = db \<or> timing_ok te s' \<and> schedules db' = write_row sd_id s' (schedules db)"
  shows "timing_inv te db'"
proof -
  from assms(2) obtain s where s: "get_schedule_for_workspace w i db = Inr s" "F s = Inr (s', db')"
    by (auto simp: bind_result_Inr)
  have "timing_ok te s" using timing_row [OF assms(1)] get_schedule_Inr [OF s(1)] by blast
  from assms(3) [OF this s(2)] assms(1) show ?thesis by (auto intro: timing_write)
qed

lemma timing_enable:
  assumes "timing_inv te db" and "enable_schedule te now actor w m i db = Inr (s', db')"
  shows "timing_inv te db'"
proof -
  from assms(2) obtain s where s: "get_schedule_for_workspace w i db = Inr s" and
    F: "(if sd_is_active s then Inr (s, db)
       else
         bind_result (normalize_schedule_from_row te now s True) (\<lambda>c.
         bind_result (calculate_next_run te c now True) (\<lambda>next_run.
           (let s' = s\<lparr>sd_is_active := True, sd_next_run_at := next_run\<rparr>
            in Inr (s', db\<lparr>schedules := write_row sd_id s' (schedules db),
                 s_log := s_log db @ [audit_schedule ''enable'' s' actor]\<rparr>))))) = Inr (s', db')"
    unfolding enable_schedule_def bind_result_Inr by blast
  have ok: "timing_ok te s" using timing_row [OF assms(1)] get_schedule_Inr [OF s] by blast
  show ?thesis
  proof (cases "sd_is_active s")
    case True
    with F assms(1) show ?thesis by simp
  next
    case False
    with F obtain c t where c: "normalize_schedule_from_row te now s True = Inr c" "calculate_next_run te c now True = Inr t"
      and out: "(let s' = s\<lparr>sd_is_active := True, sd_next_run_at := t\<rparr>
            in Inr (s', db\<lparr>schedules := write_row sd_id s' (schedules db),
                 s_log := s_log db @ [audit_schedule ''enable'' s' actor]\<rparr>)) = (Inr (s', db') :: app_error + schedule \<times> sched_db)"
      unfolding bind_result_Inr by (simp only: if_False bind_result_Inr) blast
    from out have s': "s' = s\<lparr>sd_is_active := True, sd_next_run_at := t\<rparr>" "schedules db' = write_row sd_id s' (schedules db)"
      by (auto simp: Let_def)
    from c(1) have "config_wf te c" unfolding normalize_schedule_from_row_def by (blast dest: normalize_wf)
    then have "t \<noteq> None" using c(2) by (rule next_run_exists)
    with ok s' show ?thesis by (intro timing_write [OF assms(1) _ s'(2)]) (simp add: timing_ok_def config_of_def)
  qed
qed

lemma timing_pause: "timing_inv te db \<Longrightarrow> pause_schedule actor w m i db = Inr (s, db') \<Longrightarrow> timing_inv te db'"
  unfolding pause_schedule_def
  by (erule mutation_timing) (auto simp: Let_def timing_ok_def config_of_def split: if_splits)

lemma timing_run_now: "timing_inv te db \<Longrightarrow> run_schedule_now now actor w m i db = Inr (s, db') \<Longrightarrow> timing_inv te db'"
  unfolding run_schedule_now_def
  by (erule mutation_timing) (auto simp: Let_def timing_ok_def config_of_def split: if_splits)

lemma timing_delete: "timing_inv te db \<Longrightarrow> delete_schedule actor w m i db = Inr (s, db') \<Longrightarrow> timing_inv te db'"
  unfolding delete_schedule_def
  by (erule mutation_timing) (auto simp: Let_def timing_ok_def config_of_def)

lemma timing_disable_user: "timing_inv te db \<Longrightarrow> timing_inv te (snd (disable_user_schedules actor u db))"
  by (auto simp: disable_user_schedules_def Let_def timing_inv_def in_update_where timing_ok_def config_of_def)

lemma timing_committed:
  "timing_inv te db \<Longrightarrow> (\<And>x db'. r = Inr (x, db') \<Longrightarrow> timing_inv te db') \<Longrightarrow> timing_inv te (sched_committed db r)"
  by (auto simp: sched_committed_def split: sum.splits)

lemma timing_prepare_claimed:
  assumes "timing_inv te db"
  shows "timing_inv te (snd (prepare_claimed_run env text now now2 fc fr owner i db))"
  using assms timing_prepare [OF assms] timing_setup_failure [OF assms]
  by (auto simp: prepare_claimed_run_def split: sum.splits)

lemma sched_step_timing:
  assumes "timing_inv (se_timing (w_env w)) db"
  shows "timing_inv (se_timing (w_env w)) (sched_step w db e)"
proof (cases e)
  case CreateSchedule
  then show ?thesis using timing_create [OF assms] by (auto intro: timing_committed [OF assms])
next
  case UpdateSchedule
  then show ?thesis using timing_update [OF assms] by (auto intro: timing_committed [OF assms])
next
  case EnableSchedule
  then show ?thesis using timing_enable [OF assms] by (auto intro: timing_committed [OF assms])
next
  case PauseSchedule
  then show ?thesis using timing_pause [OF assms] by (auto intro: timing_committed [OF assms])
next
  case RunScheduleNow
  then show ?thesis using timing_run_now [OF assms] by (auto intro: timing_committed [OF assms])
next
  case DeleteSchedule
  then show ?thesis using timing_delete [OF assms] by (auto intro: timing_committed [OF assms])
next
  case DisableUserSchedules
  then show ?thesis using timing_disable_user [OF assms] by simp
next
  case ClaimDue
  then show ?thesis using timing_claim_due [OF assms] by (auto intro: timing_committed [OF assms])
next
  case PrepareClaimed
  then show ?thesis using timing_prepare_claimed [OF assms] by simp
next
  case (FinalizeRun now i run_id)
  with timing_finalize [OF assms] assms show ?thesis by (auto split: sum.splits)
next
  case ReconcileRuns
  then show ?thesis using timing_reconcile [OF assms] by (auto intro: timing_committed [OF assms])
next
  case AgentRunStep
  then show ?thesis by (intro timing_same [OF assms]) simp
next
  case WorkspacesChange
  then show ?thesis by (intro timing_same [OF assms]) simp
qed

interpretation timing_system: invariant_system "sched_step w" "timing_inv (se_timing (w_env w))" for w
  by unfold_locales (rule sched_step_timing)

end
