(* ===== verification/Schedule_Properties.thy ===== *)
theory Schedule_Properties
  imports Schedule_Timing
begin

text \<open>The properties of agent schedules and of the scheduled worker, with witnesses on small tables.\<close>

section \<open>Concrete tables\<close>

definition sample_timing :: timing_env where
  "sample_timing = \<lparr>zone_ok = (\<lambda>z. z = ''UTC''), cron_ok = (\<lambda>e. e = ''* * * * *''), cron_next = (\<lambda>_ _ t. Some (t + 60000000))\<rparr>"

definition sample_sched_run_env :: run_env where
  "sample_sched_run_env =
     \<lparr>e_settings = default_agent_settings, e_job_settings = default_job_settings, e_registry = Map.empty,
      e_sha256 = take 64, e_encode = (\<lambda>_. ''{}''), e_uuid_text = (\<lambda>_. ''u''), e_isoformat = (\<lambda>_. ''t''),
      e_generation = (\<lambda>_. None), e_staged_refs = (\<lambda>_. []), e_evidence = (\<lambda>_. []), e_fresh_job = (\<lambda>r. 1000 + ar_id r)\<rparr>"

definition sample_sched_env :: sched_env where
  "sample_sched_env =
     \<lparr>se_run = sample_sched_run_env, se_timing = sample_timing, se_policy = (\<lambda>_. ''p''), se_contract = (\<lambda>_. None),
      se_targets = (\<lambda>_. Inr ()), se_message_count = (\<lambda>_. 1), se_prunable_source = (\<lambda>_. True)\<rparr>"

definition sample_schedule :: schedule where
  "sample_schedule =
     \<lparr>sd_id = 61, sd_agent_id = 3, sd_user_id = 5, sd_workspace_id = 7, sd_name = Some ''daily'', sd_type = ''interval'',
      sd_cron = None, sd_interval = Some 5, sd_once = None, sd_timezone = ''UTC'', sd_default_prompt = Some ''go  on'',
      sd_execution_params = None, sd_active_context = None, sd_is_active = True, sd_last_run_at = None,
      sd_next_run_at = Some 10, sd_created_at = 0, sd_deleted = False\<rparr>"

definition sample_owner :: membership where
  "sample_owner =
     \<lparr>mb_id = 41, mb_workspace_id = 7, mb_user_id = 5, mb_role = Owner, mb_created_at = 1, mb_deleted = False\<rparr>"

definition sample_ledger_ws :: ws_db where
  "sample_ledger_ws =
     \<lparr>workspaces = [\<lparr>ws_id = 7, ws_slug = ''acme'', ws_name = ''Acme'', ws_is_personal = False, ws_shared_by_default = False,
        ws_model_provider = None, ws_model = None, ws_deleted = False\<rparr>],
      memberships = [sample_owner], invitations = [],
      users = [\<lparr>us_id = 5, us_email = ''a'', us_is_active = True, us_default_workspace_id = None, us_deleted = False\<rparr>],
      user_auths = [], ws_log = []\<rparr>"

definition sample_ledger :: sched_db where
  "sample_ledger =
     \<lparr>schedules = [sample_schedule], schedule_runs = [],
      s_runs = \<lparr>agent_runs = [], conversations = [],
        agents = [\<lparr>ag_id = 3, ag_workspace_id = 7, ag_is_active = True, ag_deleted = False\<rparr>], run_jobs = [], run_audits = []\<rparr>,
      s_ws = sample_ledger_ws, s_log = []\<rparr>"

lemma sample_ledger_world: "schedule_world sample_ledger"
  by (simp add: schedule_world_def sched_inv_def ledger_ok_def sample_ledger_def run_inv_def run_ids_ok_def)

lemma sample_ledger_timing: "timing_inv sample_timing sample_ledger"
  by (simp add: timing_inv_def timing_ok_def sample_ledger_def sample_schedule_def config_of_def config_wf_def sample_timing_def)

section \<open>The tables stay consistent\<close>

text \<open>
  C16: whatever the owners, the worker and the agent runs do in whatever order, the schedule tables stay
  consistent: fire times are unique per schedule, a claim always carries an expiry, and a scheduled run
  that executes or waits is linked to an agent run of its own, triggered by the scheduler, which runs
  in the workspace, for the owner and with the agent of its schedule.
\<close>

theorem schedule_world_along_runs:
  assumes "schedule_world db"
  shows "let db' = foldl (sched_step w) db events in
    distinct (map (\<lambda>r. (sr_schedule_id r, sr_scheduled_for r)) (schedule_runs db')) \<and>
    (\<forall>r \<in> set (schedule_runs db'). (sr_status r = SrClaimed \<longleftrightarrow> sr_claim_expires_at r \<noteq> None) \<and>
      (sr_status r \<in> {SrRunning, SrAwaitingApproval} \<longrightarrow>
        (\<exists>run \<in> set (agent_runs (s_runs db')). \<exists>s \<in> set (schedules db').
           sr_agent_run_id r = Some (ar_id run) \<and> sd_id s = sr_schedule_id r \<and> ar_trigger run = Scheduled \<and>
           ar_workspace_id run = sd_workspace_id s \<and> ar_user_id run = sd_user_id s \<and>
           ar_agent_id run = sd_agent_id s \<and> sr_conversation_id r = Some (ar_conversation_id run) \<and>
           (\<forall>q \<in> set (schedule_runs db'). sr_agent_run_id q = Some (ar_id run) \<longrightarrow> q = r))))"
proof -
  let ?d = "foldl (sched_step w) db events"
  have world: "schedule_world ?d" by (rule sched_system.run_inv [OF assms])
  note W = schedule_worldD [OF world]
  have "\<exists>run \<in> set (agent_runs (s_runs ?d)). \<exists>s \<in> set (schedules ?d).
      sr_agent_run_id r = Some (ar_id run) \<and> sd_id s = sr_schedule_id r \<and> ar_trigger run = Scheduled \<and>
      ar_workspace_id run = sd_workspace_id s \<and> ar_user_id run = sd_user_id s \<and>
      ar_agent_id run = sd_agent_id s \<and> sr_conversation_id r = Some (ar_conversation_id run) \<and>
      (\<forall>q \<in> set (schedule_runs ?d). sr_agent_run_id q = Some (ar_id run) \<longrightarrow> q = r)"
    if r: "r \<in> set (schedule_runs ?d)" and st: "sr_status r \<in> {SrRunning, SrAwaitingApproval}" for r
  proof -
    note L = ledger_okD [OF W(3) r]
    have "sr_agent_run_id r \<noteq> None" using sched_invD(4) [OF W(1) r] st by (auto simp: sr_row_ok_def)
    then obtain i where i: "sr_agent_run_id r = Some i" by blast
    with L(2) obtain run where run: "row_by_id ar_id i (agent_runs (s_runs ?d)) = Some run" "ar_trigger run = Scheduled"
        "ar_workspace_id run = sr_workspace_id r" "ar_user_id run = sr_user_id r" "ar_agent_id run = sr_agent_id r"
        "sr_conversation_id r = Some (ar_conversation_id run)" by (auto simp: link_ok_def)
    from L(1) obtain s where s: "s \<in> set (schedules ?d)" "sd_context s = sr_context r" by auto
    note R = row_by_id_Some [OF run(1)]
    have "q = r" if "q \<in> set (schedule_runs ?d)" "sr_agent_run_id q = Some (ar_id run)" for q
      using L(3) [OF that(1)] that(2) i R by simp
    with R run s i show ?thesis by (intro bexI [of _ run] bexI [of _ s]) (auto simp: sd_context_def sr_context_def)
  qed
  moreover have "distinct (map (\<lambda>r. (sr_schedule_id r, sr_scheduled_for r)) (schedule_runs ?d))"
    using sched_invD(3) [OF W(1)] by (simp add: fire_key_def [abs_def])
  ultimately show ?thesis using sched_invD(4) [OF W(1)] unfolding Let_def by (simp add: sr_row_ok_def)
qed

theorem schedule_world_along_runs_witness:
  "schedule_world sample_ledger \<and>
   distinct (map (\<lambda>r. (sr_schedule_id r, sr_scheduled_for r)) (schedule_runs (foldl
     (sched_step \<lparr>w_env = sample_sched_env, w_validate_context = Inr, w_text_of = error_class\<rparr>) sample_ledger
     [ClaimDue 20 1 300 (\<lambda>_. True) (\<lambda>i. i + 10) (\<lambda>i. i), PrepareClaimed 30 31 91 81 ''o'' 71])))"
  using schedule_world_along_runs [OF sample_ledger_world, of
    "\<lparr>w_env = sample_sched_env, w_validate_context = Inr, w_text_of = error_class\<rparr>"
    "[ClaimDue 20 1 300 (\<lambda>_. True) (\<lambda>i. i + 10) (\<lambda>i. i), PrepareClaimed 30 31 91 81 ''o'' 71]"] sample_ledger_world
  by (simp only: Let_def)

section \<open>Timing\<close>

text \<open>
  C17: along the same runs every stored schedule has a well-formed timing: a known zone and exactly the field
  of its type (a parsable cron expression, an interval of at least a minute, or a time); and an active
  schedule always has a due time, so that the scanner can find it.
\<close>

theorem schedule_timing_along_runs:
  assumes "timing_inv (se_timing (w_env w)) db"
  shows "\<forall>s \<in> set (schedules (foldl (sched_step w) db events)).
    zone_ok (se_timing (w_env w)) (sd_timezone s) \<and>
    ((sd_type s = ''cron'' \<and> (\<exists>e. sd_cron s = Some e \<and> e \<noteq> [] \<and> cron_ok (se_timing (w_env w)) e) \<and>
        sd_interval s = None \<and> sd_once s = None) \<or>
     (sd_type s = ''interval'' \<and> sd_cron s = None \<and> (\<exists>n. sd_interval s = Some n \<and> 1 \<le> n) \<and> sd_once s = None) \<or>
     (sd_type s = ''once'' \<and> sd_cron s = None \<and> sd_interval s = None \<and> sd_once s \<noteq> None)) \<and>
    (sd_is_active s \<longrightarrow> sd_next_run_at s \<noteq> None)"
proof -
  have "timing_inv (se_timing (w_env w)) (foldl (sched_step w) db events)" by (rule timing_system.run_inv [OF assms])
  then show ?thesis by (simp add: timing_inv_def timing_ok_def config_wf_def config_of_def)
qed

theorem schedule_timing_along_runs_witness:
  "timing_inv (se_timing sample_sched_env) sample_ledger \<and>
   (\<exists>s \<in> set (schedules (sched_step \<lparr>w_env = sample_sched_env, w_validate_context = Inr, w_text_of = error_class\<rparr>
      sample_ledger (RunScheduleNow 4 5 7 sample_owner 61))). sd_is_active s \<and> sd_next_run_at s = Some 4 \<and>
      zone_ok sample_timing (sd_timezone s))"
proof -
  let ?w = "\<lparr>w_env = sample_sched_env, w_validate_context = Inr, w_text_of = error_class\<rparr>"
  have env: "se_timing (w_env ?w) = sample_timing" by (simp add: sample_sched_env_def)
  have t: "timing_inv (se_timing sample_sched_env) sample_ledger"
    using sample_ledger_timing by (simp add: sample_sched_env_def)
  have rows: "schedules (sched_step ?w sample_ledger (RunScheduleNow 4 5 7 sample_owner 61)) = [sample_schedule\<lparr>sd_next_run_at := Some 4\<rparr>]"
    by (simp add: sched_committed_def run_schedule_now_def get_schedule_for_workspace_def assert_can_mutate_schedule_def
        sample_owner_def sample_ledger_def sample_schedule_def write_row_def Let_def)
  have "timing_inv (se_timing (w_env ?w)) sample_ledger" using t by simp
  from schedule_timing_along_runs [OF this, of "[RunScheduleNow 4 5 7 sample_owner 61]"] rows
  have "zone_ok sample_timing (sd_timezone (sample_schedule\<lparr>sd_next_run_at := Some 4\<rparr>))" by (simp add: sample_sched_env_def)
  then show ?thesis using t rows by (simp add: sample_schedule_def)
qed

text \<open>
  An accepted timing round trips through the row: stored and read back, it validates again to the very
  same configuration, at any later time, and under the future check too while its time is ahead; and
  validating never changes the requested type and zone (UTC when none is given).
\<close>

theorem normalize_roundtrip:
  assumes "normalize_schedule_config te now t cron interval once zone rf supplied = Inr c"
  shows "c_type c = t \<and> c_timezone c = or_string zone ''UTC'' \<and> config_of (apply_config c s) = c \<and>
    normalize_schedule_from_row te later (apply_config c s) False = Inr c \<and>
    (t = ''once'' \<longrightarrow> null_gt (c_once c) later \<longrightarrow> normalize_schedule_from_row te later (apply_config c s) True = Inr c) \<and>
    (rf \<longrightarrow> t = ''once'' \<longrightarrow> null_gt (c_once c) now)"
proof -
  note W = normalize_wf [OF assms]
  have row: "normalize_schedule_from_row te later (apply_config c s) rf' =
      normalize_schedule_config te later (c_type c) (c_cron c) (c_interval c) (map_option Aware (c_once c))
        (Some (c_timezone c)) rf' None" for rf'
    by (simp add: normalize_schedule_from_row_def apply_config_def)
  have "null_gt (c_once c) now" if "rf" "t = ''once''"
    using assms that
    by (auto simp: normalize_schedule_config_def timing_of_type_def bind_result_Inr split: option.splits if_splits)
  moreover have "config_of (apply_config c s) = c" by (simp add: config_of_def apply_config_def)
  moreover have "normalize_schedule_from_row te later (apply_config c s) False = Inr c"
    unfolding row by (rule normalize_of_wf) (use W in simp_all)
  moreover have "normalize_schedule_from_row te later (apply_config c s) True = Inr c"
    if "t = ''once''" "null_gt (c_once c) later"
    unfolding row by (rule normalize_of_wf) (use W that in simp_all)
  ultimately show ?thesis using W by (simp add: DEFAULT_TIMEZONE_def)
qed

theorem normalize_roundtrip_witness:
  "\<exists>c. normalize_schedule_config sample_timing 5 ''once'' None None (Some (Aware 9)) None True (Some TIMING_FIELD_NAMES) = Inr c \<and>
     normalize_schedule_from_row sample_timing 8 (apply_config c sample_schedule) True = Inr c"
proof -
  have n: "normalize_schedule_config sample_timing 5 ''once'' None None (Some (Aware 9)) None True (Some TIMING_FIELD_NAMES) =
      Inr \<lparr>c_type = ''once'', c_cron = None, c_interval = None, c_once = Some 9, c_timezone = ''UTC''\<rparr>"
    by (simp add: normalize_schedule_config_def VALID_SCHEDULE_TYPES_def resolve_timezone_def or_string_def DEFAULT_TIMEZONE_def
        sample_timing_def check_supplied_fields_def timing_fields_by_type_def normalize_utc_datetime_def timing_of_type_def)
  from normalize_roundtrip [OF n, where later = 8 and s = sample_schedule] n show ?thesis by auto
qed

text \<open>
  A preview of a well-formed timing never has more than a hundred entries. A one-time schedule previews
  its time; a recurring one previews exactly the requested number of runs, strictly increasing, all
  after the basis, each the next run of the previous one; an interval schedule previews the exact
  multiples of its interval. (Croniter's next match is assumed to lie after its basis.)
\<close>

theorem preview_exact:
  assumes "config_wf te c" and "cron_advances te" and "preview_schedule_runs te c count basis = Inr ts"
  shows "1 \<le> count \<and> count \<le> 100 \<and> length ts \<le> nat count \<and>
    (if c_type c = ''once'' then \<exists>t. c_once c = Some t \<and> ts = [t]
     else length ts = nat count \<and> sorted_wrt (<) (basis # ts) \<and>
       (\<forall>i < nat count. calculate_next_run te c ((basis # ts) ! i) True = Inr (Some (ts ! i)))) \<and>
    (\<forall>k. c_interval c = Some k \<longrightarrow> ts = map (\<lambda>i. basis + int (Suc i) * timedelta_minutes k) [0..<nat count])"
proof -
  from assms(3) have n: "1 \<le> count" "count \<le> 100" by (auto simp: preview_schedule_runs_def MAX_PREVIEW_COUNT_def split: if_splits)
  show ?thesis
  proof (cases "c_type c = ''once''")
    case True
    with assms(1,3) n have "\<exists>t. c_once c = Some t \<and> ts = [t]" and "c_interval c = None"
      by (auto simp: preview_schedule_runs_def MAX_PREVIEW_COUNT_def calculate_next_run_def config_wf_def)
    with n True show ?thesis by auto
  next
    case False
    with assms(3) n have loop: "preview_loop te c (nat count) basis = Inr ts"
      by (simp add: preview_schedule_runs_def MAX_PREVIEW_COUNT_def)
    have "ts = map (\<lambda>i. basis + int (Suc i) * timedelta_minutes k) [0..<nat count]" if "c_interval c = Some k" for k
    proof -
      have "c_type c = ''interval''" using assms(1) that by (auto simp: config_wf_def)
      with preview_loop_interval [OF this that, of te "nat count" basis] loop show ?thesis by simp
    qed
    with preview_loop_sorted [OF assms(1,2) False loop] n False show ?thesis by simp
  qed
qed

theorem preview_exact_witness:
  "preview_schedule_runs sample_timing (config_of sample_schedule) 2 100 = Inr [300000100, 600000100] \<and>
   sorted_wrt (<) [100, 300000100, 600000100 :: int]"
proof -
  have wf: "config_wf sample_timing (config_of sample_schedule)"
    by (simp add: config_wf_def config_of_def sample_timing_def sample_schedule_def)
  have adv: "cron_advances sample_timing" by (simp add: cron_advances_def sample_timing_def)
  have p: "preview_schedule_runs sample_timing (config_of sample_schedule) 2 100 = Inr [300000100, 600000100]"
    by (simp add: preview_schedule_runs_def MAX_PREVIEW_COUNT_def config_of_def sample_schedule_def calculate_next_run_def
        timedelta_minutes_def numeral_2_eq_2)
  have "c_type (config_of sample_schedule) \<noteq> ''once''" by (simp add: config_of_def sample_schedule_def)
  with preview_exact [OF wf adv p] p show ?thesis by simp
qed

section \<open>Claiming\<close>

lemma claimed_not_open: "claimed_from now ttl f t db s r \<Longrightarrow> now2 < now + timedelta_seconds ttl \<Longrightarrow> \<not> claim_open now2 r"
  by (auto simp: claimed_from_def claim_open_def)

lemma new_run_fields: "sr_attempt_count (new_schedule_run now f t s) = 0" "sr_scheduled_for (new_schedule_run now f t s) = t"
  by (simp_all add: new_schedule_run_def)

lemma claimed_fields:
  "claimed_from now ttl f t db s r \<Longrightarrow> sr_schedule_id r = sd_id s \<and> sd_next_run_at s = Some (sr_scheduled_for r) \<and> \<not> sr_deleted r"
  by (auto simp: claimed_from_def claim_run_def new_schedule_run_def dest: current_run_Some)

lemma claims_open:
  assumes "sched_inv db" and "claim_due_schedule_runs now n ttl unlocked fresh token db = Inr (out, db')"
    and "q \<in> set (schedule_runs db)" and "\<not> claim_open now q"
  shows "q \<in> set (schedule_runs db') \<and> q \<notin> set out \<and> sr_id q \<notin> sr_id ` set out"
proof -
  note C = claim_due_effect [OF assms(1,2), unfolded claims_as_def]
  have no: "current_run db s \<noteq> Some q" if "s \<in> set (select_due_schedules now n unlocked db)" for s
    using due_current [of now db s q] selected_due [OF that] assms(4) by blast
  with C assms(3) have kept: "q \<in> set (schedule_runs db')" by blast
  have "sr_id r \<noteq> sr_id q" if "r \<in> set out" for r
  proof
    assume same: "sr_id r = sr_id q"
    from C that have r: "r \<in> set (schedule_runs db')" and
      "\<exists>s \<in> set (select_due_schedules now n unlocked db). claimed_from now ttl (fresh (sd_id s)) (token (sd_id s)) db s r" by blast+
    then obtain s where s: "s \<in> set (select_due_schedules now n unlocked db)"
      "claimed_from now ttl (fresh (sd_id s)) (token (sd_id s)) db s r" by blast
    have "r = q" using distinct_key_eq [OF sched_invD(2) r kept same] C by blast
    with claimed_fields [OF s(2)] assms(3) have "current_run db s = Some q"
      unfolding current_run_iff [OF assms(1)] by simp
    with no [OF s(1)] show False by blast
  qed
  then have "sr_id q \<notin> sr_id ` set out" by (metis imageE)
  with kept show ?thesis by blast
qed

text \<open>
  C18: what a claiming pass hands out. At most the batch, no run twice, each now claimed until the
  TTL has passed, each the due fire time of an active schedule that no other worker locks and whose
  agent can run, and counted as one more attempt of that fire time. A run that is not open (it executes,
  waits, is closed, or its claim is still valid) is left as it is, so until the TTL has passed no other
  pass hands the same run out again. Every selected schedule whose agent can run is claimed; the
  others are stopped.
\<close>

theorem claim_due_exact:
  assumes "sched_inv db" and "claim_due_schedule_runs now n ttl unlocked fresh token db = Inr (out, db')"
  shows "length out \<le> n \<and> distinct (map sr_schedule_id out) \<and>
    (\<forall>r \<in> set out. r \<in> set (schedule_runs db') \<and> sr_status r = SrClaimed \<and>
       sr_claim_expires_at r = Some (now + timedelta_seconds ttl) \<and> sr_scheduled_for r \<le> now \<and>
       (\<exists>s \<in> set (schedules db). sd_id s = sr_schedule_id r \<and> sd_is_active s \<and> \<not> sd_deleted s \<and> unlocked (sd_id s) \<and>
          sd_next_run_at s = Some (sr_scheduled_for r) \<and> agent_runnable db s \<and>
          (case current_run db s of
             None \<Rightarrow> sr_attempt_count r = 1
           | Some q \<Rightarrow> claim_open now q \<and> sr_id r = sr_id q \<and> sr_attempt_count r = sr_attempt_count q + 1))) \<and>
    (\<forall>q \<in> set (schedule_runs db). claim_open now q \<or> q \<in> set (schedule_runs db')) \<and>
    (\<forall>now2 n2 ttl2 unlocked2 fresh2 token2 out2 db2. now2 < now + timedelta_seconds ttl \<longrightarrow>
       claim_due_schedule_runs now2 n2 ttl2 unlocked2 fresh2 token2 db' = Inr (out2, db2) \<longrightarrow>
       sr_id ` set out \<inter> sr_id ` set out2 = {} \<and> set out \<subseteq> set (schedule_runs db2)) \<and>
    (\<forall>s \<in> set (select_due_schedules now n unlocked db).
       if agent_runnable db s then sd_id s \<in> sr_schedule_id ` set out else stop_schedule s \<in> set (schedules db'))"
proof -
  let ?sel = "select_due_schedules now n unlocked db"
  note C = claim_due_effect [OF assms, unfolded claims_as_def]
  have ids: "map sr_schedule_id out = map sd_id (filter (agent_runnable db) ?sel)" using C by blast
  have inv': "sched_inv db'" using C by blast
  have "length out = length (filter (agent_runnable db) ?sel)" using arg_cong [OF ids, of length] by simp
  also have "\<dots> \<le> length ?sel" by (rule length_filter_le)
  also have "\<dots> \<le> n" by (simp add: select_due_schedules_def)
  finally have len: "length out \<le> n" .
  have dist: "distinct (map sr_schedule_id out)"
    unfolding ids using selected_distinct [OF assms(1)] by (rule distinct_map_filter)
  have from': "\<exists>s \<in> set ?sel. agent_runnable db s \<and> claimed_from now ttl (fresh (sd_id s)) (token (sd_id s)) db s r \<and>
      sr_schedule_id r = sd_id s" if "r \<in> set out" for r
  proof -
    from C that obtain s where s: "s \<in> set ?sel" "claimed_from now ttl (fresh (sd_id s)) (token (sd_id s)) db s r" by blast
    have id: "sr_schedule_id r = sd_id s" using claimed_fields [OF s(2)] by blast
    have "sr_schedule_id r \<in> set (map sr_schedule_id out)" using that by simp
    then obtain x where x: "x \<in> set ?sel" "agent_runnable db x" "sd_id x = sd_id s" using ids id by auto
    then have "x = s" using distinct_key_eq [OF selected_distinct [OF assms(1)] x(1) s(1)] by blast
    with s x id show ?thesis by blast
  qed
  have rows: "r \<in> set (schedule_runs db') \<and> sr_status r = SrClaimed \<and>
       sr_claim_expires_at r = Some (now + timedelta_seconds ttl) \<and> sr_scheduled_for r \<le> now \<and>
       (\<exists>s \<in> set (schedules db). sd_id s = sr_schedule_id r \<and> sd_is_active s \<and> \<not> sd_deleted s \<and> unlocked (sd_id s) \<and>
          sd_next_run_at s = Some (sr_scheduled_for r) \<and> agent_runnable db s \<and>
          (case current_run db s of
             None \<Rightarrow> sr_attempt_count r = 1
           | Some q \<Rightarrow> claim_open now q \<and> sr_id r = sr_id q \<and> sr_attempt_count r = sr_attempt_count q + 1))"
    if "r \<in> set out" for r
  proof -
    from from' [OF that] obtain s where s: "s \<in> set ?sel" "agent_runnable db s" "sr_schedule_id r = sd_id s"
      "claimed_from now ttl (fresh (sd_id s)) (token (sd_id s)) db s r" by blast
    note D = selected_due [OF s(1)]
    from s(4) obtain q where q: "r = claim_run now ttl (token (sd_id s)) q"
      "current_run db s = Some q \<and> claim_open now q \<or>
       current_run db s = None \<and> sr_attempt_count q = 0 \<and> sd_next_run_at s = Some (sr_scheduled_for q)"
      using new_run_fields unfolding claimed_from_def by metis
    have next': "sd_next_run_at s = Some (sr_scheduled_for r)" using q current_run_Some [of db s q] by auto
    moreover have "sr_scheduled_for r \<le> now" using due_next D next' by fastforce
    moreover have "r \<in> set (schedule_runs db')" using C that by blast
    moreover have "case current_run db s of
             None \<Rightarrow> sr_attempt_count r = 1
           | Some q \<Rightarrow> claim_open now q \<and> sr_id r = sr_id q \<and> sr_attempt_count r = sr_attempt_count q + 1"
      using q by auto
    moreover have "sd_is_active s \<and> \<not> sd_deleted s" using D by (simp add: due_schedule_def)
    ultimately show ?thesis using s D q(1) by auto
  qed
  have keep: "claim_open now q \<or> q \<in> set (schedule_runs db')" if "q \<in> set (schedule_runs db)" for q
    using claims_open [OF assms that] by blast
  have again: "sr_id ` set out \<inter> sr_id ` set out2 = {} \<and> set out \<subseteq> set (schedule_runs db2)"
    if "now2 < now + timedelta_seconds ttl" "claim_due_schedule_runs now2 n2 ttl2 unlocked2 fresh2 token2 db' = Inr (out2, db2)"
    for now2 n2 ttl2 unlocked2 fresh2 token2 out2 db2
  proof -
    have "r \<in> set (schedule_runs db2) \<and> sr_id r \<notin> sr_id ` set out2" if r: "r \<in> set out" for r
      using claims_open [OF inv' \<open>claim_due_schedule_runs now2 n2 ttl2 unlocked2 fresh2 token2 db' = Inr (out2, db2)\<close>, of r]
        from' [OF r] claimed_not_open \<open>now2 < now + timedelta_seconds ttl\<close> rows [OF r] by blast
    then show ?thesis by blast
  qed
  have every: "if agent_runnable db s then sd_id s \<in> sr_schedule_id ` set out else stop_schedule s \<in> set (schedules db')"
    if "s \<in> set ?sel" for s
  proof (cases "agent_runnable db s")
    case True
    with that have "sd_id s \<in> set (map sd_id (filter (agent_runnable db) ?sel))" by auto
    with True show ?thesis unfolding ids [symmetric] by simp
  next
    case False
    with C that show ?thesis by simp
  qed
  show ?thesis using len dist rows keep again every by blast
qed

lemma sample_claim:
  "claim_due_schedule_runs 20 1 300 (\<lambda>_. True) (\<lambda>i. i + 10) (\<lambda>i. i) sample_ledger =
     Inr ([claim_run 20 300 61 (new_schedule_run 20 71 10 sample_schedule)],
       sample_ledger\<lparr>schedule_runs := [claim_run 20 300 61 (new_schedule_run 20 71 10 sample_schedule)]\<rparr>)"
proof -
  have c: "current_run sample_ledger sample_schedule = None"
    by (simp add: current_run_def sample_ledger_def sample_schedule_def)
  then have "due_schedule 20 sample_ledger sample_schedule" by (simp add: due_schedule_def sample_schedule_def)
  then have sel: "select_due_schedules 20 1 (\<lambda>_. True) sample_ledger = [sample_schedule]"
    by (simp add: select_due_schedules_def sample_ledger_def)
  have fields: "sd_id sample_schedule = 61" "sd_next_run_at sample_schedule = Some 10" "sd_agent_id sample_schedule = 3"
    by (simp_all add: sample_schedule_def)
  have "get_or_create_run_for_schedule 20 71 sample_schedule sample_ledger =
      Inr (Some (new_schedule_run 20 71 10 sample_schedule),
        sample_ledger\<lparr>schedule_runs := [new_schedule_run 20 71 10 sample_schedule]\<rparr>)"
    using c fields by (simp add: get_or_create_run_for_schedule_def sample_ledger_def Let_def)
  then have "claim_one_schedule 20 300 71 61 sample_schedule sample_ledger =
      Inr (Some (claim_run 20 300 61 (new_schedule_run 20 71 10 sample_schedule)),
        sample_ledger\<lparr>schedule_runs := [claim_run 20 300 61 (new_schedule_run 20 71 10 sample_schedule)]\<rparr>)"
    using fields by (simp add: claim_one_schedule_def sample_ledger_def row_by_id_def NON_CLAIMABLE_RUN_STATUSES_def
        CLAIMABLE_RUN_STATUSES_def new_schedule_run_def write_row_def Let_def)
  then show ?thesis unfolding claim_due_schedule_runs_def sel by (simp add: fields)
qed

theorem claim_due_exact_witness:
  "\<exists>r db'. claim_due_schedule_runs 20 1 300 (\<lambda>_. True) (\<lambda>i. i + 10) (\<lambda>i. i) sample_ledger = Inr ([r], db') \<and>
     sr_claim_expires_at r = Some (20 + timedelta_seconds 300) \<and> r \<in> set (schedule_runs db')"
proof -
  let ?r = "claim_run 20 300 61 (new_schedule_run 20 71 10 sample_schedule)"
  have "?r \<in> set [?r]" by simp
  with claim_due_exact [OF schedule_worldD(1) [OF sample_ledger_world] sample_claim] sample_claim show ?thesis by blast
qed

section \<open>Handing a claimed run over\<close>

text \<open>
  A preparation that returns found the run claimed under a live schedule. Either the owner is still
  an active member and the prompt is not blank: then the run is running, linked to an agent run that
  this invocation owns under a fresh lease, in the workspace and for the owner of the schedule,
  and the schedule is unchanged; or the run has failed for good and its schedule is stopped. No other
  scheduled run changes.
\<close>

theorem prepare_hands_over:
  assumes "schedule_world db" and "prepare_schedule_run_execution env now fc fr owner i db = Inr (p, db')"
  shows "\<exists>r \<in> set (schedule_runs db). \<exists>s \<in> set (schedules db).
    sr_id r = i \<and> sr_status r = SrClaimed \<and> sd_id s = sr_schedule_id r \<and> \<not> sd_deleted s \<and>
    (\<forall>q. sr_id q \<noteq> i \<longrightarrow> (q \<in> set (schedule_runs db') \<longleftrightarrow> q \<in> set (schedule_runs db))) \<and>
    (let prompt = collapse_whitespace (or_string (sd_default_prompt s) []);
         allowed = (get_active_membership (s_ws db) (sd_workspace_id s) (sd_user_id s) \<noteq> None \<and> prompt \<noteq> [])
     in should_execute p = allowed \<and>
       (if allowed
        then p_prompt p = Some prompt \<and> schedules db' = schedules db \<and>
          (\<exists>r' \<in> set (schedule_runs db'). \<exists>run \<in> set (agent_runs (s_runs db')).
             sr_id r' = i \<and> sr_status r' = SrRunning \<and> sr_accepted_at r' = Some now \<and>
             sr_agent_run_id r' = Some (ar_id run) \<and> p_agent_run_id p = Some (ar_id run) \<and>
             sr_conversation_id r' = Some (ar_conversation_id run) \<and> ar_owner_instance_id run = Some owner \<and>
             ar_lease_expires_at run =
               Some (now + timedelta_seconds (AGENT_RUN_LEASE_TTL_SECONDS (e_settings (se_run env)))) \<and>
             ar_workspace_id run = sd_workspace_id s \<and> ar_user_id run = sd_user_id s)
        else (\<exists>r' \<in> set (schedule_runs db'). sr_id r' = i \<and> sr_status r' = SrTerminalFailed) \<and>
          stop_schedule s \<in> set (schedules db')))"
  using assms(2)
proof (cases rule: prepare_cases)
  case (refused r s c m)
  note R = load_schedule_run_Inr [OF refused(1)] and S = load_schedule_Inr [OF refused(2)]
  have rows: "schedule_runs db' = write_row sr_id (fail_run_terminally now c m r) (schedule_runs db)"
    "schedules db' = write_row sd_id (stop_schedule s) (schedules db)" by (simp_all add: refused(5) mark_terminal_tables)
  have "sd_id s \<in> sd_id ` set (schedules db)" using S by (intro imageI) blast
  then have "stop_schedule s \<in> set (schedules db')" by (simp add: rows in_write_row)
  moreover have "i \<in> sr_id ` set (schedule_runs db)" using R by (intro image_eqI [of _ _ r]) auto
  then have "fail_run_terminally now c m r \<in> set (schedule_runs db')" using R by (simp add: rows in_write_row fail_run_terminally_keeps)
  moreover have "sr_status (fail_run_terminally now c m r) = SrTerminalFailed" "sr_id (fail_run_terminally now c m r) = i"
    using R by (simp_all add: fail_run_terminally_def)
  moreover have "\<forall>q. sr_id q \<noteq> i \<longrightarrow> (q \<in> set (schedule_runs db') \<longleftrightarrow> q \<in> set (schedule_runs db))"
    using R by (auto simp: rows in_write_row fail_run_terminally_keeps)
  ultimately show ?thesis
    using R S refused(3,4,6) by (intro bexI [of _ r] bexI [of _ s]) (auto simp: Let_def)
next
  case (handed r s c run r1 db1 r2 db2 run' rdb)
  note R = load_schedule_run_Inr [OF handed(1)] and S = load_schedule_Inr [OF handed(2)]
  note W' = schedule_worldD [OF world_prepare [OF assms]]
  have same: "sr_id r2 = sr_id r \<and> sr_context r2 = sr_context r \<and> schedule_runs db2 = schedule_runs db \<and> schedules db2 = schedules db \<and>
      sr_agent_run_id r2 = Some (ar_id run)"
    using handed(7)
  proof (cases rule: ensure_agent_run_cases)
    case old
    with ensure_conversation_cases [OF handed(6)] show ?thesis by (auto simp: sr_context_def)
  next
    case new
    with ensure_conversation_cases [OF handed(6)] show ?thesis by (auto simp: sr_context_def)
  qed
  let ?r' = "r2\<lparr>sr_status := SrRunning, sr_accepted_at := Some now, sr_claim_expires_at := None,
     sr_error_code := None, sr_error_message := None\<rparr>"
  have rows: "schedule_runs db' = write_row sr_id ?r' (schedule_runs db)" "schedules db' = schedules db" "s_runs db' = rdb"
    using same by (simp_all add: handed(10))
  have "i \<in> sr_id ` set (schedule_runs db)" using R by (intro image_eqI [of _ _ r]) auto
  then have r': "?r' \<in> set (schedule_runs db')" using R same by (simp add: rows in_write_row)
  from handed(8) obtain x where x: "row_by_id ar_id (ar_id run) (agent_runs (s_runs db2)) = Some x" "evolves x run'"
    and own: "ar_owner_instance_id run' = Some owner"
      "ar_lease_expires_at run' = Some (now + timedelta_seconds (AGENT_RUN_LEASE_TTL_SECONDS (e_settings (se_run env))))"
    and rdb: "rdb = (s_runs db2)\<lparr>agent_runs := write_row ar_id run' (agent_runs (s_runs db2))\<rparr>"
    by (auto elim!: claim_cases)
  have id: "ar_id run' = ar_id run" using evolves_id [OF x(2)] row_by_id_Some [OF x(1)] by simp
  have row: "row_by_id ar_id (ar_id run) (agent_runs rdb) = Some run'"
    using run_row_by_id_write [OF x(1) id] by (simp add: rdb)
  have "link_ok (agent_runs rdb) ?r'" using ledger_okD(2) [OF W'(3) r'] by (simp add: rows)
  with same row have link: "ar_workspace_id run' = sr_workspace_id r2" "ar_user_id run' = sr_user_id r2"
      "sr_conversation_id r2 = Some (ar_conversation_id run')" by (auto simp: link_ok_def)
  have "sd_context s = sr_context r2" using load_schedule_world(3) [OF assms(1) handed(1,2)] same by simp
  then have ctx: "sr_workspace_id r2 = sd_workspace_id s" "sr_user_id r2 = sd_user_id s"
    by (simp_all add: sd_context_def sr_context_def)
  have "\<forall>q. sr_id q \<noteq> i \<longrightarrow> (q \<in> set (schedule_runs db') \<longleftrightarrow> q \<in> set (schedule_runs db))"
    using R same by (auto simp: rows in_write_row)
  moreover have "run' \<in> set (agent_runs (s_runs db'))" using row_by_id_Some [OF row] by (simp add: rows)
  then have "\<exists>r' \<in> set (schedule_runs db'). \<exists>run \<in> set (agent_runs (s_runs db')).
             sr_id r' = i \<and> sr_status r' = SrRunning \<and> sr_accepted_at r' = Some now \<and>
             sr_agent_run_id r' = Some (ar_id run) \<and> p_agent_run_id p = Some (ar_id run) \<and>
             sr_conversation_id r' = Some (ar_conversation_id run) \<and> ar_owner_instance_id run = Some owner \<and>
             ar_lease_expires_at run =
               Some (now + timedelta_seconds (AGENT_RUN_LEASE_TTL_SECONDS (e_settings (se_run env)))) \<and>
             ar_workspace_id run = sd_workspace_id s \<and> ar_user_id run = sd_user_id s"
    using r' R same own link ctx id by (intro bexI [of _ ?r'] bexI [of _ run']) (simp_all add: handed(9))
  ultimately show ?thesis
    using R S handed(3,4,5,9) rows(2) by (intro bexI [of _ r] bexI [of _ s]) (simp_all add: should_execute_def)
qed

definition sample_claimed :: sched_db where
  "sample_claimed = sample_ledger\<lparr>schedule_runs := [claim_run 20 300 61 (new_schedule_run 20 71 10 sample_schedule)]\<rparr>"

lemma sample_claimed_world: "schedule_world sample_claimed"
  using world_claim_due [OF sample_ledger_world sample_claim] by (simp add: sample_claimed_def)

lemma sample_prepared:
  "\<exists>p db'. prepare_schedule_run_execution sample_sched_env 30 91 81 ''o'' 71 sample_claimed = Inr (p, db') \<and>
     p_prompt p = Some ''go on''"
  by (simp add: prepare_schedule_run_execution_def sample_claimed_def sample_ledger_def load_schedule_run_def load_schedule_def
      load_agent_def claim_run_def new_schedule_run_def sample_schedule_def get_active_membership_def sample_ledger_ws_def
      sample_owner_def user_is_active_def row_by_id_def collapse_whitespace_def py_split_def py_space_def or_string_def
      ensure_conversation_def get_workspace_or_raise_def ensure_agent_run_def create_agent_run_def run_metadata_def
      sample_sched_env_def sample_sched_run_env_def metadata_uses_def reserved_metadata_keys_def transcript_metadata_keys_def
      validate_run_context_def new_run_def link_schedule_run_def validate_schedule_run_link_def
      claim_agent_run_execution_def default_agent_settings_def Let_def)

theorem prepare_hands_over_witness:
  "\<exists>p db'. prepare_schedule_run_execution sample_sched_env 30 91 81 ''o'' 71 sample_claimed = Inr (p, db') \<and>
     p_prompt p = Some ''go on'' \<and> (\<exists>r \<in> set (schedule_runs sample_claimed). sr_id r = 71 \<and> sr_status r = SrClaimed)"
proof -
  from sample_prepared obtain p db' where p: "prepare_schedule_run_execution sample_sched_env 30 91 81 ''o'' 71 sample_claimed = Inr (p, db')"
    "p_prompt p = Some ''go on''" by blast
  with prepare_hands_over [OF sample_claimed_world p(1)] show ?thesis by blast
qed

section \<open>Mirroring the agent run\<close>



lemma find_key:
  "distinct (map key T) \<Longrightarrow> r \<in> set T \<Longrightarrow> Q r \<Longrightarrow> find (\<lambda>x. key x = key r \<and> Q x) T = Some r"
  by (rule find_unique) (auto dest: distinct_key_eq)

lemma loads_ok:
  assumes "schedule_world db"
  shows "r \<in> set (schedule_runs db) \<Longrightarrow> \<not> sr_deleted r \<Longrightarrow> load_schedule_run (sr_id r) db = Inr r"
    and "s \<in> set (schedules db) \<Longrightarrow> \<not> sd_deleted s \<Longrightarrow> load_schedule (sd_id s) db = Inr s"
    and "run \<in> set (agent_runs (s_runs db)) \<Longrightarrow> load_agent_run (ar_id run) db = Inr run"
proof -
  note W = schedule_worldD [OF assms]
  show "r \<in> set (schedule_runs db) \<Longrightarrow> \<not> sr_deleted r \<Longrightarrow> load_schedule_run (sr_id r) db = Inr r"
    using find_key [OF sched_invD(2) [OF W(1)], of r "\<lambda>x. \<not> sr_deleted x"] by (simp add: load_schedule_run_def)
  show "s \<in> set (schedules db) \<Longrightarrow> \<not> sd_deleted s \<Longrightarrow> load_schedule (sd_id s) db = Inr s"
    using find_key [OF sched_invD(1) [OF W(1)], of s "\<lambda>x. \<not> sd_deleted x"] by (simp add: load_schedule_def)
  show "run \<in> set (agent_runs (s_runs db)) \<Longrightarrow> load_agent_run (ar_id run) db = Inr run"
    using find_key [OF run_invD(2) [OF W(2)], of run "\<lambda>x. \<not> ar_deleted x"] run_invD(4) [OF W(2)] by (simp add: load_agent_run_def)
qed



definition sample_finished :: sched_db where
  "sample_finished = sample_ledger\<lparr>
     schedule_runs := [(new_schedule_run 20 71 10 sample_schedule)\<lparr>sr_status := SrRunning, sr_attempt_count := 1,
        sr_accepted_at := Some 30, sr_conversation_id := Some 91, sr_agent_run_id := Some 81\<rparr>],
     s_runs := (s_runs sample_ledger)\<lparr>agent_runs := [
       \<lparr>ar_id = 81, ar_conversation_id = 91, ar_agent_id = 3, ar_workspace_id = 7, ar_user_id = 5, ar_parent_run_id = None,
        ar_delegation_depth = 0, ar_trigger = Scheduled, ar_status = RunCompleted, ar_model_name = None,
        ar_started_at = Some 30, ar_completed_at = Some 40, ar_failed_at = None, ar_lease_expires_at = None,
        ar_owner_instance_id = Some ''o'', ar_usage = no_usage, ar_error_code = None, ar_error_message = None,
        ar_outcome = Some OutcomeSuccess, ar_completion_json = None, ar_metadata_json = None, ar_created_at = 30,
        ar_updated_at = 40, ar_deleted = False\<rparr>]\<rparr>\<rparr>"

lemmas sample_finished_defs = sample_finished_def sample_ledger_def new_schedule_run_def sample_schedule_def

lemma sample_finished_world: "schedule_world sample_finished"
  by (simp add: schedule_world_def sched_inv_def ledger_ok_def run_inv_def run_ids_ok_def sample_finished_defs
      run_row_ok_def terminal_iff parent_ok_def active_iff link_ok_def row_by_id_def sr_row_ok_def sr_context_def sd_context_def)


section \<open>Where the worker misbehaves\<close>

text \<open>
  C20: the claim token of a run is written but never compared, and recording a setup failure does not look at
  the run's status. So a worker whose claim was taken over, and which prepares the run only now,
  marks it as failed although it is no longer claimed but running, waiting or completed; and when the
  attempts are used up the schedule is stopped too.
\<close>

theorem late_setup_failure_overwrites:
  assumes "schedule_world db" and "r \<in> set (schedule_runs db)" and "\<not> sr_deleted r" and "sr_status r \<noteq> SrClaimed"
    and "s \<in> set (schedules db)" and "sd_id s = sr_schedule_id r" and "\<not> sd_deleted s"
  shows "\<exists>db'. prepare_claimed_run env text_of now now2 fc fr owner (sr_id r) db = (None, db') \<and>
    (\<exists>r' \<in> set (schedule_runs db'). sr_id r' = sr_id r \<and> sr_failed_at r' = Some now2 \<and>
       sr_status r' = (if sr_attempt_count r \<ge> AGENT_SCHEDULE_RUN_MAX_ATTEMPTS (e_settings (se_run env))
         then SrTerminalFailed else SrRetryableFailed)) \<and>
    (sr_attempt_count r \<ge> AGENT_SCHEDULE_RUN_MAX_ATTEMPTS (e_settings (se_run env)) \<longrightarrow> stop_schedule s \<in> set (schedules db'))"
proof -
  note W = schedule_worldD [OF assms(1)] and L = loads_ok(1) [OF assms(1,2,3)]
  obtain e where e: "prepare_schedule_run_execution env now fc fr owner (sr_id r) db = Inl e"
  proof (cases "prepare_schedule_run_execution env now fc fr owner (sr_id r) db")
    case (Inr x)
    obtain p d where "prepare_schedule_run_execution env now fc fr owner (sr_id r) db = Inr (p, d)" using Inr by (cases x) simp
    then show thesis using L assms(4) by (cases rule: prepare_cases) simp_all
  qed
  have rf: "find (\<lambda>x. sr_id x = sr_id r \<and> \<not> sr_deleted x) (schedule_runs db) = Some r"
    by (rule find_key [OF sched_invD(2) [OF W(1)] assms(2), where Q = "\<lambda>x. \<not> sr_deleted x"]) (rule assms(3))
  have sf: "find (\<lambda>x. sd_id x = sr_schedule_id r \<and> \<not> sd_deleted x) (schedules db) = Some s"
    using find_key [OF sched_invD(1) [OF W(1)] assms(5), of "\<lambda>x. \<not> sd_deleted x"] assms(6,7) by simp
  have row: "row_by_id sr_id (sr_id r) (schedule_runs db) \<noteq> None" using assms(2) by (simp add: row_by_id_None)
  let ?c = "error_class e" and ?m = "if text_of e = [] then error_class e else text_of e"
  let ?d = "record_retryable_failure now2 ?c ?m ?m (AGENT_SCHEDULE_RUN_MAX_ATTEMPTS (e_settings (se_run env))) s r db"
  have "prepare_claimed_run env text_of now now2 fc fr owner (sr_id r) db = (None, ?d)"
    using row by (auto simp: prepare_claimed_run_def e record_claim_setup_failure_def rf sf)
  moreover note record_retryable_row [OF W(1) assms(2), of now2 ?c ?m ?m "AGENT_SCHEDULE_RUN_MAX_ATTEMPTS (e_settings (se_run env))" s]
  moreover have "stop_schedule s \<in> set (schedules ?d)"
    if "sr_attempt_count r \<ge> AGENT_SCHEDULE_RUN_MAX_ATTEMPTS (e_settings (se_run env))"
  proof -
    have "sd_id s \<in> sd_id ` set (schedules db)" using assms(5) by simp
    with that show ?thesis
      by (simp add: record_retryable_failure_def mark_run_retryable_failure_def Let_def mark_terminal_tables in_write_row)
  qed
  ultimately show ?thesis by blast
qed

theorem late_setup_failure_overwrites_witness:
  "\<exists>r db'. r \<in> set (schedule_runs sample_finished) \<and> sr_status r = SrRunning \<and>
     prepare_claimed_run sample_sched_env (\<lambda>_. []) 50 51 92 82 ''p'' 71 sample_finished = (None, db') \<and>
     (\<exists>r' \<in> set (schedule_runs db'). sr_id r' = 71 \<and> sr_status r' = SrRetryableFailed)"
proof -
  let ?r = "hd (schedule_runs sample_finished)"
  have r: "?r \<in> set (schedule_runs sample_finished)" "\<not> sr_deleted ?r" "sr_status ?r \<noteq> SrClaimed" "sr_status ?r = SrRunning"
      "sr_id ?r = 71" "sr_attempt_count ?r = 1" "sd_id sample_schedule = sr_schedule_id ?r"
    and s: "sample_schedule \<in> set (schedules sample_finished)" "\<not> sd_deleted sample_schedule"
    by (simp_all add: sample_finished_defs)
  have "\<not> sr_attempt_count ?r \<ge> AGENT_SCHEDULE_RUN_MAX_ATTEMPTS (e_settings (se_run sample_sched_env))"
    by (simp add: r(6) sample_sched_env_def sample_sched_run_env_def default_agent_settings_def)
  then show ?thesis
    using late_setup_failure_overwrites [OF sample_finished_world r(1,2,3) s(1) r(7) s(2), where env = sample_sched_env
        and text_of = "\<lambda>_. []" and now = 50 and ?now2.0 = 51 and fc = 92 and fr = 82 and owner = "''p''"] r(1,4,5) by auto
qed

text \<open>What a reconciliation cannot change about such a run.\<close>

definition orphaned_run :: "uuid \<Rightarrow> schedule_run \<Rightarrow> sched_db \<Rightarrow> bool" where
  "orphaned_run j r db \<longleftrightarrow>
     r \<in> set (schedule_runs db) \<and> \<not> sr_deleted r \<and> sr_agent_run_id r = Some j \<and>
     (\<forall>s \<in> set (schedules db). sd_id s = sr_schedule_id r \<longrightarrow> sd_deleted s) \<and>
     (\<exists>run \<in> set (agent_runs (s_runs db)). ar_id run = j \<and> \<not> ar_deleted run \<and> is_terminal (ar_status run))"

lemma orphaned_finalize:
  assumes "schedule_world db" and "orphaned_run j r db"
  shows "\<exists>e. finalize_if_agent_run_ready env now (sr_id r) j db = Inl e"
proof -
  note O = assms(2) [unfolded orphaned_run_def]
  from O obtain run where run: "run \<in> set (agent_runs (s_runs db))" "ar_id run = j" "\<not> ar_deleted run" "is_terminal (ar_status run)"
    by blast
  have "find (\<lambda>x. ar_id x = ar_id run \<and> \<not> ar_deleted x) (agent_runs (s_runs db)) = Some run"
    by (rule find_key [OF run_invD(2) [OF schedule_worldD(2) [OF assms(1)]] run(1), where Q = "\<lambda>x. \<not> ar_deleted x"]) (rule run(3))
  moreover have "load_schedule_run (sr_id r) db = Inr r" by (rule loads_ok(1) [OF assms(1)]) (use O in blast)+
  moreover have "load_schedule (sr_schedule_id r) db = Inl (NotFoundError ''Schedule not found'')"
    using O by (auto simp: load_schedule_def find_None_iff split: option.splits dest: find_SomeD)
  ultimately show ?thesis
    using run(2,4) by (simp add: finalize_if_agent_run_ready_def finalize_schedule_run_execution_def)
qed

lemma orphaned_write:
  assumes "orphaned_run j r db" and "agent_runs (s_runs db') = agent_runs (s_runs db)" and "r \<in> set (schedule_runs db')"
    and "schedules db' = schedules db \<or> (\<exists>s s'. s \<in> set (schedules db) \<and> sd_id s' = sd_id s \<and> sd_deleted s' = sd_deleted s \<and>
      schedules db' = write_row sd_id s' (schedules db))"
  shows "orphaned_run j r db'"
  using assms by (auto simp: orphaned_run_def in_write_row)

lemma stop_schedule_deleted [simp]: "sd_deleted (stop_schedule s) = sd_deleted s"
  by (simp add: stop_schedule_def)

lemma orphaned_other_finalize:
  assumes "orphaned_run j r db" and "finalize_if_agent_run_ready env now i k db = Inr (ready, db')" and "i \<noteq> sr_id r"
  shows "orphaned_run j r db'"
proof -
  have r: "r \<in> set (schedule_runs db)" using assms(1) by (simp add: orphaned_run_def)
  have keep: "r \<in> set (schedule_runs db')" by (rule finalize_ready_rows [OF assms(2) r]) (use assms(3) in simp)
  show ?thesis
  proof (cases "db' = db")
    case True
    with assms(1) show ?thesis by simp
  next
    case False
    then obtain k' where "finalize_schedule_run_execution env now i k' db = Inr db'"
      using assms(2) by (auto simp: finalize_if_agent_run_ready_def bind_result_Inr split: option.splits if_splits)
    then show ?thesis
    proof (cases rule: finalize_cases)
      case closed
      with assms(1) show ?thesis by simp
    next
      case (completed r0 s run t)
      have "sd_id (complete_schedule now t s) = sd_id s" "sd_deleted (complete_schedule now t s) = sd_deleted s"
        by (simp_all add: complete_schedule_def split: option.splits)
      moreover have "s \<in> set (schedules db)" using load_schedule_Inr [OF completed(2)] by blast
      ultimately show ?thesis
        by (intro orphaned_write [OF assms(1) _ keep] disjI2 exI [of _ s] exI [of _ "complete_schedule now t s"])
          (simp_all add: completed(8))
    next
      case waiting
      then show ?thesis by (intro orphaned_write [OF assms(1) _ keep]) simp_all
    next
      case (failed r0 s run db1)
      have "schedules db' = write_row sd_id (stop_schedule s) (schedules db)" "agent_runs (s_runs db') = agent_runs (s_runs db)"
        using failed(7,8) by (auto simp: mark_terminal_tables)
      moreover have "s \<in> set (schedules db)" using load_schedule_Inr [OF failed(2)] by blast
      ultimately show ?thesis
        by (intro orphaned_write [OF assms(1) _ keep] disjI2 exI [of _ s] exI [of _ "stop_schedule s"]) simp_all
    qed
  qed
qed

lemma orphaned_stale:
  assumes "orphaned_run j r db" and "sr_id q \<noteq> sr_id r"
  shows "orphaned_run j r (mark_stale_pre_execution_failure cfg now q db)"
proof (cases "find (\<lambda>s. sd_id s = sr_schedule_id q \<and> \<not> sd_deleted s) (schedules db)")
  case None
  with assms(1) show ?thesis by (simp add: mark_stale_pre_execution_failure_def)
next
  case (Some s)
  then have s: "s \<in> set (schedules db)" by (auto dest: find_SomeD)
  let ?d = "mark_stale_pre_execution_failure cfg now q db"
  have keep: "r \<in> set (schedule_runs ?d)"
    using stale_failure_rows [of r db q] assms by (simp add: orphaned_run_def)
  have "(schedules ?d = schedules db \<or> schedules ?d = write_row sd_id (stop_schedule s) (schedules db)) \<and> s_runs ?d = s_runs db"
    by (auto simp: mark_stale_pre_execution_failure_def Some record_retryable_failure_def mark_terminal_tables split: prod.splits)
  then consider "schedules ?d = schedules db" "s_runs ?d = s_runs db"
    | "schedules ?d = write_row sd_id (stop_schedule s) (schedules db)" "s_runs ?d = s_runs db" by blast
  then show ?thesis
  proof cases
    case 1
    then show ?thesis by (intro orphaned_write [OF assms(1) _ keep]) simp_all
  next
    case 2
    with s show ?thesis
      by (intro orphaned_write [OF assms(1) _ keep] disjI2 exI [of _ s] exI [of _ "stop_schedule s"]) simp_all
  qed
qed

lemma orphaned_blocks_loop:
  assumes "schedule_world db" and "orphaned_run j r db" and "r \<in> set rs" and "distinct (map sr_id rs)"
    and "set rs \<subseteq> set (schedule_runs db)"
  shows "\<exists>e. reconcile_loop env now rs n db = Inl e"
  using assms
proof (induction rs arbitrary: n db)
  case Nil
  then show ?case by simp
next
  case (Cons q rs)
  show ?case
  proof (cases "q = r")
    case True
    obtain e where "finalize_if_agent_run_ready env now (sr_id r) j db = Inl e"
      using orphaned_finalize [OF Cons.prems(1,2)] by blast
    moreover have "sr_agent_run_id r = Some j" using Cons.prems(2) by (simp add: orphaned_run_def)
    ultimately show ?thesis using True by simp
  next
    case False
    then have r: "r \<in> set rs" using Cons.prems(3) by simp
    then have ids: "sr_id q \<noteq> sr_id r" using Cons.prems(4) by (auto simp: image_iff)
    have q: "q \<in> set (schedule_runs db)" and rest: "\<And>x. x \<in> set rs \<Longrightarrow> x \<in> set (schedule_runs db) \<and> sr_id x \<noteq> sr_id q"
      using Cons.prems(4,5) by (auto simp: image_iff)
    have dist: "distinct (map sr_id rs)" using Cons.prems(4) by simp
    show ?thesis
    proof (cases "sr_agent_run_id q")
      case None
      show ?thesis
      proof (cases "without_agent_run_is_stale (e_settings (se_run env)) now q")
        case True
        have "set rs \<subseteq> set (schedule_runs (mark_stale_pre_execution_failure (e_settings (se_run env)) now q db))"
          using rest stale_failure_rows by blast
        with Cons.IH [OF world_stale_failure [OF Cons.prems(1) q] orphaned_stale [OF Cons.prems(2) ids] r dist] None True
        show ?thesis by simp
      next
        case stale: False
        have "set rs \<subseteq> set (schedule_runs db)" using rest by blast
        with Cons.IH [OF Cons.prems(1,2) r dist] None stale show ?thesis by simp
      qed
    next
      case (Some k)
      show ?thesis
      proof (cases "finalize_if_agent_run_ready env now (sr_id q) k db")
        case (Inl e)
        with Some show ?thesis by simp
      next
        case (Inr x)
        then obtain ready d where f: "finalize_if_agent_run_ready env now (sr_id q) k db = Inr (ready, d)" by (cases x) simp
        have "set rs \<subseteq> set (schedule_runs d)" using finalize_ready_rows [OF f] rest by blast
        with Cons.IH [OF world_finalize_ready [OF Cons.prems(1) f] orphaned_other_finalize [OF Cons.prems(2) f ids] r dist] Some f
        show ?thesis by simp
      qed
    qed
  qed
qed

text \<open>
  C21: deleting a schedule while one of its runs executes blocks the worker. Once the agent run has ended,
  every polling pass that reaches the scheduled run asks for the deleted schedule, raises NotFoundError
  and is rolled back before anything is claimed: as long as at most one batch of runs is open, no
  schedule of any workspace is claimed again.
\<close>

theorem deleted_schedule_blocks_worker:
  assumes "schedule_world db" and "r \<in> set (schedule_runs db)" and "\<not> sr_deleted r" and "sr_status r = SrRunning"
    and "sr_agent_run_id r = Some (ar_id run)" and "run \<in> set (agent_runs (s_runs db))" and "is_terminal (ar_status run)"
    and "\<forall>s \<in> set (schedules db). sd_id s = sr_schedule_id r \<longrightarrow> sd_deleted s" and "unlocked (sr_id r)"
    and "rowcount (\<lambda>q. sr_status q \<in> {SrAccepted, SrRunning, SrAwaitingApproval}) (schedule_runs db) \<le> 100"
  shows "\<exists>e. run_once_claim env now now2 reaper_batch unlocked fresh token db = Inl e"
proof (cases "reap_abandoned_runs (se_run env) now None None None None reaper_batch (s_runs db)")
  case (Inl e)
  then show ?thesis by (simp add: run_once_claim_def reconcile_schedule_run_execution_def)
next
  case (Inr x)
  note W = schedule_worldD [OF assms(1)]
  obtain failed rdb where reap: "reap_abandoned_runs (se_run env) now None None None None reaper_batch (s_runs db) = Inr (failed, rdb)"
    using Inr by (cases x) simp
  let ?d = "db\<lparr>s_runs := rdb\<rparr>"
  have ev: "db_evolves (s_runs db) rdb" by (rule reap_evolves [OF W(2) reap])
  have w: "schedule_world ?d"
    by (rule world_runs_evolve [OF assms(1) db_evolves_inv [OF W(2) ev] runs_stay_evolves [OF ev]])
  have "row_by_id ar_id (ar_id run) (agent_runs (s_runs db)) = Some run"
    by (rule row_by_id_unique [OF run_invD(2) [OF W(2)] assms(6)])
  with ev runs_evolve_row_by_id [of "agent_runs (s_runs db)" "agent_runs rdb" "ar_id run"] obtain run' where
    run': "row_by_id ar_id (ar_id run) (agent_runs rdb) = Some run'" "evolves run run'" by (auto simp: db_evolves_def)
  have "ar_status run' = ar_status run" using run'(2) assms(7) by (simp add: evolves_def verdict_def)
  then have orphan: "orphaned_run (ar_id run) r ?d"
    using assms(2,3,5,7,8) row_by_id_Some [OF run'(1)] run_invD(4) [OF schedule_worldD(2) [OF w], of run']
    by (auto simp: orphaned_run_def)
  let ?need = "filter (needs_reconciliation ?d) (schedule_runs db)"
  have "rowcount (needs_reconciliation ?d) (schedule_runs db) \<le>
      rowcount (\<lambda>q. sr_status q \<in> {SrAccepted, SrRunning, SrAwaitingApproval}) (schedule_runs db)"
    by (rule rowcount_mono) (auto simp: needs_reconciliation_def)
  with assms(10) have "length ?need \<le> 100" by (simp add: rowcount_def)
  then have "length (filter (\<lambda>r. unlocked (sr_id r)) (sort_key sr_created_at ?need)) \<le> 100"
    using length_filter_le [of "\<lambda>r. unlocked (sr_id r)" "sort_key sr_created_at ?need"] by simp
  then have "select_to_reconcile None unlocked ?d = filter (\<lambda>r. unlocked (sr_id r)) (sort_key sr_created_at ?need)"
    by (simp add: select_to_reconcile_def or_default_def)
  moreover have "needs_reconciliation ?d r" using assms(3,4) by (simp add: needs_reconciliation_def)
  ultimately have "r \<in> set (select_to_reconcile None unlocked ?d)" using assms(2,9) by simp
  from orphaned_blocks_loop [OF w orphan this select_to_reconcile_sub(2,1) [OF schedule_worldD(1) [OF w]]]
  obtain e where "reconcile_loop env now (select_to_reconcile None unlocked ?d) 0 ?d = Inl e" by blast
  then show ?thesis using reap by (simp add: run_once_claim_def reconcile_schedule_run_execution_def Let_def)
qed

lemma sample_delete:
  "delete_schedule 5 7 sample_owner 61 sample_finished = Inr (sample_schedule\<lparr>sd_deleted := True\<rparr>,
     sample_finished\<lparr>schedules := [sample_schedule\<lparr>sd_deleted := True\<rparr>],
       s_log := [audit_schedule ''delete'' (sample_schedule\<lparr>sd_deleted := True\<rparr>) 5]\<rparr>)"
  by (simp add: delete_schedule_def get_schedule_for_workspace_def assert_can_mutate_schedule_def sample_owner_def
      sample_finished_defs write_row_def Let_def)

theorem deleted_schedule_blocks_worker_witness:
  "\<exists>s db'. delete_schedule 5 7 sample_owner 61 sample_finished = Inr (s, db') \<and>
     (\<exists>e. run_once_claim sample_sched_env 60 61 10 (\<lambda>_. True) (\<lambda>i. i + 20) (\<lambda>i. i) db' = Inl e)"
proof -
  let ?d = "sample_finished\<lparr>schedules := [sample_schedule\<lparr>sd_deleted := True\<rparr>],
       s_log := [audit_schedule ''delete'' (sample_schedule\<lparr>sd_deleted := True\<rparr>) 5]\<rparr>"
  let ?r = "hd (schedule_runs sample_finished)" and ?run = "hd (agent_runs (s_runs sample_finished))"
  have w: "schedule_world ?d" by (rule edited_world [OF sample_finished_world delete_edited [OF sample_delete]])
  have "\<exists>e. run_once_claim sample_sched_env 60 61 10 (\<lambda>_. True) (\<lambda>i. i + 20) (\<lambda>i. i) ?d = Inl e"
    by (rule deleted_schedule_blocks_worker [OF w, of ?r ?run])
      (simp_all add: sample_finished_defs is_terminal_def terminal_statuses_def rowcount_def)
  then show ?thesis using sample_delete by blast
qed

end
