(* ===== verification/Canonical_Json.thy ===== *)
theory Canonical_Json
  imports Prelude
begin

text \<open>
  The canonical JSON text that the approval code hashes (\<^verbatim>\<open>json.JSONEncoder(sort_keys=True,
  separators=(",", ":"))\<close>): objects with their keys in order, no spaces, and every character outside
  the printable ASCII range escaped. The text determines the value up to the order of keys.
\<close>

section \<open>The encoder\<close>

definition hex_digit :: "nat \<Rightarrow> char" where
  "hex_digit n = (if n < 10 then char_of (48 + n) else char_of (87 + n))"

definition escape_char :: "char \<Rightarrow> string" where
  "escape_char c =
     (let n = (of_char c :: nat)
      in if n = 34 then [CHR 0x5C, CHR 0x22]
         else if n = 92 then [CHR 0x5C, CHR 0x5C]
         else if n = 8 then [CHR 0x5C, CHR ''b'']
         else if n = 9 then [CHR 0x5C, CHR ''t'']
         else if n = 10 then [CHR 0x5C, CHR ''n'']
         else if n = 12 then [CHR 0x5C, CHR ''f'']
         else if n = 13 then [CHR 0x5C, CHR ''r'']
         else if 32 \<le> n \<and> n \<le> 126 then [c]
         else [CHR 0x5C, CHR ''u'', CHR ''0'', CHR ''0'', hex_digit (n div 16), hex_digit (n mod 16)])"

definition json_text :: "string \<Rightarrow> string" where
  "json_text s = CHR 0x22 # concat (map escape_char s) @ [CHR 0x22]"

definition int_text :: "int \<Rightarrow> string" where
  "int_text n = (if n < 0 then CHR ''-'' # nat_text (nat (- n)) else nat_text (nat n))"

fun render_json :: "json \<Rightarrow> string" where
  "render_json JNull = ''null''"
| "render_json (JBool b) = (if b then ''true'' else ''false'')"
| "render_json (JInt n) = int_text n"
| "render_json (JStr s) = json_text s"
| "render_json (JArr xs) = ''['' @ join_with '','' (map render_json xs) @ '']''"
| "render_json (JObj d) = ''{'' @ join_with '','' (map (\<lambda>(k, v). json_text k @ '':'' @ render_json v) d) @ ''}''"

fun sort_json :: "json \<Rightarrow> json" where
  "sort_json (JArr xs) = JArr (map sort_json xs)"
| "sort_json (JObj d) = JObj (sort_key fst (map (\<lambda>(k, v). (k, sort_json v)) d))"
| "sort_json v = v"

definition canonical_json :: "json \<Rightarrow> string" where
  "canonical_json v = render_json (sort_json v)"

section \<open>Numerals\<close>

definition digit_char :: "char \<Rightarrow> bool" where
  "digit_char c = (let n = (of_char c :: nat) in 48 \<le> n \<and> n \<le> 57)"

definition digits_value :: "string \<Rightarrow> nat" where
  "digits_value s = foldl (\<lambda>v c. 10 * v + (of_char c - 48)) 0 s"

lemma of_char_small [simp]: "n < 256 \<Longrightarrow> (of_char (char_of n :: char) :: nat) = n"
  by (simp add: of_char_of)

lemma digits_value_snoc: "digits_value (s @ [c]) = 10 * digits_value s + (of_char c - 48)"
  by (simp add: digits_value_def)

lemma nat_text_value: "digits_value (nat_text n) = n"
proof (induction n rule: nat_text.induct)
  case (1 n)
  show ?case
  proof (cases "n < 10")
    case True
    then show ?thesis by (subst nat_text.simps) (simp add: digits_value_def)
  next
    case False
    have "n mod 10 < 10" by simp
    then have "48 + n mod 10 < 256" by linarith
    with 1 False show ?thesis by (subst nat_text.simps) (simp add: digits_value_snoc)
  qed
qed

lemma digit_char_of: "(k :: nat) < 10 \<Longrightarrow> digit_char (char_of (48 + k))"
  by (simp add: digit_char_def)

lemma nat_text_digits: "nat_text n \<noteq> [] \<and> list_all digit_char (nat_text n)"
proof (induction n rule: nat_text.induct)
  case (1 n)
  have "digit_char (char_of (48 + n mod 10))" by (rule digit_char_of) simp
  with 1 digit_char_of [of n] show ?case by (subst (1 2) nat_text.simps) simp
qed

definition json_stop :: "string \<Rightarrow> bool" where
  "json_stop s \<longleftrightarrow> s = [] \<or> hd s \<in> {CHR '','', CHR '']'', CHR ''}''}"

lemma json_stop_Cons [simp]: "json_stop (c # s) \<longleftrightarrow> c \<in> {CHR '','', CHR '']'', CHR ''}''}"
  by (simp add: json_stop_def)

lemma takeWhile_digits: "list_all digit_char d \<Longrightarrow> json_stop s \<Longrightarrow> takeWhile digit_char (d @ s) = d"
proof (induction d)
  case Nil
  then show ?case by (cases s) (auto simp: digit_char_def)
qed simp

lemma nat_text_unique:
  assumes "nat_text n @ s = nat_text m @ t" and "json_stop s" and "json_stop t"
  shows "n = m \<and> s = t"
proof -
  have "nat_text n = nat_text m"
    using takeWhile_digits [OF conjunct2 [OF nat_text_digits [of n]] assms(2)]
      takeWhile_digits [OF conjunct2 [OF nat_text_digits [of m]] assms(3)] assms(1) by metis
  with assms(1) nat_text_value show ?thesis by (metis append_same_eq same_append_eq)
qed

lemma int_text_hd: "\<exists>c r. int_text n = c # r \<and> (digit_char c \<or> c = CHR ''-'')"
  using nat_text_digits [of "nat n"] by (cases "nat_text (nat n)") (auto simp: int_text_def)

lemma nat_text_no_minus: "nat_text k @ u \<noteq> CHR ''-'' # v"
  using nat_text_digits [of k] by (cases "nat_text k") (auto simp: digit_char_def)

lemma int_text_unique:
  assumes eq: "int_text n @ s = int_text m @ t" and s: "json_stop s" and t: "json_stop t"
  shows "n = m \<and> s = t"
proof (cases "n < 0 \<longleftrightarrow> m < 0")
  case True
  have "nat_text (nat \<bar>n\<bar>) @ s = nat_text (nat \<bar>m\<bar>) @ t"
    using eq True by (simp add: int_text_def split: if_splits)
  from nat_text_unique [OF this s t] have "nat \<bar>n\<bar> = nat \<bar>m\<bar>" "s = t" by blast+
  with True show ?thesis by linarith
next
  case False
  then show ?thesis
    using eq nat_text_no_minus [of "nat n" s "nat_text (nat (- m)) @ t"] nat_text_no_minus [of "nat m" t "nat_text (nat (- n)) @ s"]
    by (auto simp: int_text_def split: if_splits dest: sym)
qed

section \<open>Strings\<close>

definition hex_value :: "char \<Rightarrow> nat" where
  "hex_value c = (let n = of_char c in if n < 58 then n - 48 else n - 87)"

lemma hex_digit_value: "n < 16 \<Longrightarrow> hex_value (hex_digit n) = n"
  by (simp add: hex_value_def hex_digit_def Let_def)

definition unescape :: "string \<Rightarrow> char \<times> string" where
  "unescape s =
     (case s of
        [] \<Rightarrow> (CHR 0x00, [])
      | c # r \<Rightarrow>
          if c \<noteq> CHR 0x5C then (c, r)
          else if hd r = CHR ''u'' then (char_of (16 * hex_value (r ! 3) + hex_value (r ! 4)), drop 5 r)
          else (if hd r = CHR ''b'' then char_of (8 :: nat) else if hd r = CHR ''t'' then char_of (9 :: nat)
                else if hd r = CHR ''n'' then char_of (10 :: nat) else if hd r = CHR ''f'' then char_of (12 :: nat)
                else if hd r = CHR ''r'' then char_of (13 :: nat) else hd r, tl r))"

lemma char_codeI: "(of_char c :: nat) = n \<Longrightarrow> c = char_of n"
  by auto

lemma unescape_escape: "unescape (escape_char c @ s) = (c, s)"
proof -
  let ?n = "of_char c :: nat"
  have n: "?n < 256" by simp
  have "?n div 16 < 16" using n by linarith
  then have hex: "16 * hex_value (hex_digit (?n div 16)) + hex_value (hex_digit (?n mod 16)) = ?n"
    by (simp add: hex_digit_value)
  have plain: "c \<noteq> CHR 0x5C" if "?n \<noteq> 92" using that by auto
  consider "?n \<in> {34, 92, 8, 9, 10, 12, 13}" | "?n \<notin> {34, 92, 8, 9, 10, 12, 13}" "32 \<le> ?n" "?n \<le> 126"
    | "?n \<notin> {34, 92, 8, 9, 10, 12, 13}" "\<not> (32 \<le> ?n \<and> ?n \<le> 126)" by blast
  then show ?thesis
  proof cases
    case 1
    then show ?thesis by (auto simp: escape_char_def unescape_def dest!: char_codeI) (simp_all add: char_of_def bit_Suc_0_iff)
  next
    case 2
    then show ?thesis using plain by (simp add: escape_char_def unescape_def)
  next
    case 3
    then have "escape_char c = [CHR 0x5C, CHR ''u'', CHR ''0'', CHR ''0'', hex_digit (?n div 16), hex_digit (?n mod 16)]"
      by (auto simp: escape_char_def Let_def)
    then show ?thesis using hex by (simp add: unescape_def)
  qed
qed

lemma escape_not_quote: "\<exists>x r. escape_char c = x # r \<and> x \<noteq> CHR 0x22"
  by (auto simp: escape_char_def Let_def)

lemma json_text_unique_aux:
  "concat (map escape_char s) @ CHR 0x22 # u = concat (map escape_char s') @ CHR 0x22 # u' \<Longrightarrow> s = s' \<and> u = u'"
proof (induction s arbitrary: s')
  case Nil
  show ?case
  proof (cases s')
    case (Cons c r)
    with Nil escape_not_quote [of c] show ?thesis by auto
  qed (use Nil in simp)
next
  case (Cons c s)
  show ?case
  proof (cases s')
    case Nil
    with Cons.prems escape_not_quote [of c] show ?thesis by auto
  next
    case (Cons c' r)
    let ?a = "concat (map escape_char s) @ CHR 0x22 # u" and ?b = "concat (map escape_char r) @ CHR 0x22 # u'"
    have "unescape (escape_char c @ ?a) = unescape (escape_char c' @ ?b)" using Cons.prems Cons by simp
    then have "c = c'" "?a = ?b" by (simp_all only: unescape_escape prod.inject)
    with Cons.IH [of r] Cons show ?thesis by simp
  qed
qed

lemma json_text_unique: "json_text s @ u = json_text s' @ u' \<Longrightarrow> s = s' \<and> u = u'"
  using json_text_unique_aux [of s u s' u'] by (simp add: json_text_def)

section \<open>Values\<close>

definition member_text :: "string \<times> json \<Rightarrow> string" where
  "member_text p = json_text (fst p) @ '':'' @ render_json (snd p)"

lemma render_obj: "render_json (JObj d) = ''{'' @ join_with '','' (map member_text d) @ ''}''"
proof -
  have "(\<lambda>(k, v). json_text k @ '':'' @ render_json v) = member_text" by (auto simp: member_text_def)
  then show ?thesis by simp
qed

lemma render_hd: "\<exists>c r. render_json v = c # r \<and> c \<notin> {CHR '','', CHR '']'', CHR ''}''}"
proof (cases v)
  case (JInt n)
  with int_text_hd [of n] show ?thesis by (auto simp: digit_char_def)
qed (auto simp: json_text_def)

lemma member_hd: "\<exists>r. member_text p = CHR 0x22 # r"
  by (simp add: member_text_def json_text_def)

text \<open>
  A separated list of texts is read back item by item, when each item can be told from what follows it.
\<close>

definition readable :: "('a \<Rightarrow> string) \<Rightarrow> 'a \<Rightarrow> bool" where
  "readable f x \<longleftrightarrow> (\<exists>c r. f x = c # r \<and> c \<notin> {CHR '','', CHR '']'', CHR ''}''}) \<and>
     (\<forall>y s t. json_stop s \<longrightarrow> json_stop t \<longrightarrow> f x @ s = f y @ t \<longrightarrow> x = y \<and> s = t)"

lemma readableD: "readable f x \<Longrightarrow> json_stop s \<Longrightarrow> json_stop t \<Longrightarrow> f x @ s = f y @ t \<Longrightarrow> x = y \<and> s = t"
  by (simp add: readable_def)

definition tail_text :: "('a \<Rightarrow> string) \<Rightarrow> 'a list \<Rightarrow> string" where
  "tail_text f xs = concat (map (\<lambda>x. CHR '','' # f x) xs)"

lemma join_tail: "join_with '','' (map f (x # xs)) = f x @ tail_text f xs"
  by (induction xs arbitrary: x) (simp_all add: tail_text_def)

lemma tail_unique:
  assumes "\<And>x. x \<in> set xs \<Longrightarrow> readable f x" and "c \<in> {CHR '']'', CHR ''}''}"
    and "tail_text f xs @ c # s = tail_text f ys @ c # t"
  shows "xs = ys \<and> s = t"
  using assms
proof (induction xs arbitrary: ys)
  case Nil
  then show ?case by (cases ys) (auto simp: tail_text_def)
next
  case (Cons x xs)
  show ?case
  proof (cases ys)
    case Nil
    with Cons.prems(2,3) show ?thesis by (auto simp: tail_text_def)
  next
    case ys: (Cons y zs)
    have stop: "json_stop (tail_text f us @ c # v)" for us v
      using Cons.prems(2) by (cases us) (auto simp: tail_text_def)
    have "f x @ tail_text f xs @ c # s = f y @ tail_text f zs @ c # t"
      using Cons.prems(3) ys by (simp add: tail_text_def)
    from readableD [OF Cons.prems(1) [of x] stop stop this]
    have xy: "x = y" and rest: "tail_text f xs @ c # s = tail_text f zs @ c # t" by simp_all
    from Cons.IH [OF _ Cons.prems(2) rest] Cons.prems(1) xy ys show ?thesis by simp
  qed
qed

lemma joined_unique:
  assumes "\<And>x. x \<in> set xs \<Longrightarrow> readable f x" and "\<And>y. \<exists>a r. f y = a # r \<and> a \<notin> {CHR '','', CHR '']'', CHR ''}''}"
    and "c \<in> {CHR '']'', CHR ''}''}"
    and eq: "join_with '','' (map f xs) @ c # s = join_with '','' (map f ys) @ c # t"
  shows "xs = ys \<and> s = t"
proof (cases xs)
  case Nil
  show ?thesis
  proof (cases ys)
    case (Cons y zs)
    with eq Nil assms(2) [of y] assms(3) show ?thesis by (auto simp only: join_tail) auto
  qed (use eq Nil in simp)
next
  case xs: (Cons x us)
  show ?thesis
  proof (cases ys)
    case Nil
    with eq xs assms(2) [of x] assms(3) show ?thesis by (auto simp only: join_tail) auto
  next
    case ys: (Cons y zs)
    have stop: "json_stop (tail_text f us @ c # v)" for us v
      using assms(3) by (cases us) (auto simp: tail_text_def)
    have "f x @ tail_text f us @ c # s = f y @ tail_text f zs @ c # t"
      using eq xs ys by (simp only: join_tail append_assoc)
    from readableD [OF assms(1) [of x] stop stop this] xs
    have xy: "x = y" and rest: "tail_text f us @ c # s = tail_text f zs @ c # t" by simp_all
    from tail_unique [OF _ assms(3) rest] assms(1) xs xy ys show ?thesis by simp
  qed
qed

lemma member_readable:
  assumes "readable render_json v"
  shows "readable member_text (k, v)"
proof -
  have "(k, v) = y \<and> s = t" if "json_stop s" "json_stop t" "member_text (k, v) @ s = member_text y @ t" for y s t
  proof -
    obtain k' w where y: "y = (k', w)" by fastforce
    have "json_text k @ CHR '':'' # render_json v @ s = json_text k' @ CHR '':'' # render_json w @ t"
      using that(3) y by (simp add: member_text_def)
    from json_text_unique [OF this] have "k = k'" "render_json v @ s = render_json w @ t" by simp_all
    with readableD [OF assms that(1,2)] y show ?thesis by blast
  qed
  with member_hd [of "(k, v)"] show ?thesis by (simp add: readable_def) blast
qed

lemma render_readable: "readable render_json v"
proof (induction v)
  case (JInt n)
  have "JInt n = y \<and> s = t" if "json_stop s" "json_stop t" "render_json (JInt n) @ s = render_json y @ t" for y s t
    using that int_text_hd [of n] int_text_unique [of n s _ t]
    by (cases y) (auto simp: digit_char_def json_text_def split: if_splits)
  with render_hd [of "JInt n"] show ?case by (simp add: readable_def)
next
  case (JStr x)
  have "JStr x = y \<and> s = t" if "json_stop s" "json_stop t" "render_json (JStr x) @ s = render_json y @ t" for y s t
  proof (cases y)
    case (JInt m)
    with that int_text_hd [of m] show ?thesis by (auto simp: digit_char_def json_text_def)
  next
    case (JStr z)
    with that json_text_unique [of x s z t] show ?thesis by simp
  qed (use that in \<open>auto simp: json_text_def split: if_splits\<close>)
  with render_hd [of "JStr x"] show ?case by (simp add: readable_def)
next
  case (JArr xs)
  have "JArr xs = y \<and> s = t" if "json_stop s" "json_stop t" "render_json (JArr xs) @ s = render_json y @ t" for y s t
  proof (cases y)
    case (JInt m)
    with that int_text_hd [of m] show ?thesis by (auto simp: digit_char_def)
  next
    case (JArr ys)
    with that JArr.IH joined_unique [of xs render_json "CHR '']''" s ys t] render_hd show ?thesis by auto
  qed (use that in \<open>auto simp: json_text_def split: if_splits\<close>)
  with render_hd [of "JArr xs"] show ?case by (simp add: readable_def)
next
  case (JObj d)
  have members: "readable member_text p" if "p \<in> set d" for p
    using member_readable [of "snd p" "fst p"] JObj.IH [OF that] by (cases p) auto
  have hd: "\<exists>a r. member_text p = a # r \<and> a \<notin> {CHR '','', CHR '']'', CHR ''}''}" for p
    using member_hd [of p] by auto
  have "JObj d = y \<and> s = t" if "json_stop s" "json_stop t" "render_json (JObj d) @ s = render_json y @ t" for y s t
  proof (cases y)
    case (JInt m)
    with that int_text_hd [of m] show ?thesis by (auto simp: digit_char_def)
  next
    case (JObj e)
    with that members hd joined_unique [of d member_text "CHR ''}''" s e t] show ?thesis
      by (auto simp: render_obj simp del: render_json.simps)
  qed (use that in \<open>auto simp: json_text_def split: if_splits\<close>)
  with render_hd [of "JObj d"] show ?case by (simp add: readable_def)
next
  case JNull
  have "JNull = y \<and> s = t" if "json_stop s" "json_stop t" "render_json JNull @ s = render_json y @ t" for y s t
  proof (cases y)
    case (JInt m)
    with that int_text_hd [of m] show ?thesis by (auto simp: digit_char_def)
  qed (use that in \<open>auto simp: json_text_def split: if_splits\<close>)
  then show ?case by (simp add: readable_def)
next
  case (JBool b)
  have "JBool b = y \<and> s = t" if "json_stop s" "json_stop t" "render_json (JBool b) @ s = render_json y @ t" for y s t
  proof (cases y)
    case (JInt m)
    with that int_text_hd [of m] show ?thesis by (auto simp: digit_char_def split: if_splits)
  qed (use that in \<open>auto simp: json_text_def split: if_splits\<close>)
  with render_hd [of "JBool b"] show ?case by (simp add: readable_def)
qed

text \<open>Two values have the same canonical text exactly when they are equal up to the order of keys.\<close>

lemma canonical_json_eq: "canonical_json v = canonical_json w \<longleftrightarrow> sort_json v = sort_json w"
proof
  assume "canonical_json v = canonical_json w"
  then have "render_json (sort_json v) @ [] = render_json (sort_json w) @ []" by (simp add: canonical_json_def)
  moreover have "json_stop []" by (simp add: json_stop_def)
  ultimately show "sort_json v = sort_json w" using readableD [OF render_readable] by blast
qed (simp add: canonical_json_def)

end
