(* ===== verification/Approval_State.thy ===== *)
theory Approval_State
  imports Run_Execution Canonical_Json
begin

text \<open>
  What a run keeps while it waits for approvals: the suspended conversation under \<^verbatim>\<open>approval_state\<close>
  (\<^verbatim>\<open>services/agents/runtime/approval_state.py\<close>, \<^verbatim>\<open>approval_identity.py\<close>) and, once a human has decided,
  the reservation of its continuation under \<^verbatim>\<open>approval_continuation\<close>
  (\<^verbatim>\<open>services/agent_runs/continuation_state.py\<close>). Both are JSON in \<^verbatim>\<open>metadata_json\<close>.

  The message and tool types are pydantic-ai's: their adapters to and from JSON, \<^verbatim>\<open>args_as_dict\<close>, the JSON
  parser, the reader of UUIDs and \<^verbatim>\<open>uuid5\<close> are arguments.
\<close>

section \<open>Tool calls and decisions\<close>

record tool_call =
  tc_name :: string
  tc_id :: string
  tc_args :: json

text \<open>The parts of a message: a tool call, a tool return (its call's id), or anything else.\<close>

datatype message_part = CallPart tool_call | ReturnPart string | OtherPart

type_synonym messages = "message_part list list"

record deferred_requests =
  dr_approvals :: "tool_call list"
  dr_metadata :: "(string \<times> pydict) list"

datatype tool_verdict = ToolApproved "pydict option" | ToolDenied string

record deferred_results =
  dv_approvals :: "(string \<times> tool_verdict) list"
  dv_metadata :: "(string \<times> pydict) list"

record taint_source =
  ts_kind :: string
  ts_ref :: string

text \<open>The parts of a suspended script that the approvals read (\<^verbatim>\<open>code_mode/state.py\<close>).\<close>

record trace_entry =
  te_tool_call_id :: string
  te_parent_tool_call_id :: string
  te_tool_name :: string
  te_args_sha256 :: string
  te_status :: string

record code_state =
  cs_outer_tool_call_id :: string
  cs_nested_call_id :: string
  cs_code :: string
  cs_reason :: "string option"
  cs_nested_trace :: "trace_entry list"
  cs_trace_truncated :: bool
  cs_tainted :: bool
  cs_taint_sources :: "taint_source list"

section \<open>What a reviewer is shown (schemas.py)\<close>

record delegated_read =
  dl_parent_tool_call_id :: string
  dl_parent_tool_name :: string
  dl_child_agent_id :: uuid
  dl_child_agent_name :: string
  dl_child_conversation_id :: uuid
  dl_child_run_id :: uuid
  dl_pending_count :: nat

record pending_approval =
  pa_approval_id :: uuid
  pa_owner_run_id :: uuid
  pa_root_run_id :: uuid
  pa_parent_tool_call_id :: "string option"
  pa_tool_call_id :: string
  pa_name :: string
  pa_args :: json
  pa_replay_args :: "pydict option"
  pa_delegation :: "delegated_read option"
  pa_derived_from_untrusted :: bool
  pa_taint_sources :: "taint_source list"

record pending_workflow =
  pw_owner_run_id :: uuid
  pw_root_run_id :: uuid
  pw_delegation :: "delegated_read option"
  pw_outer_tool_call_id :: string
  pw_state :: code_state
  pw_pending :: pending_approval

record approval_response =
  as_run_id :: uuid
  as_conversation_id :: uuid
  as_approvals :: "pending_approval list"
  as_delegations :: "delegated_read list"
  as_workflows :: "pending_workflow list"
  as_revision :: string

section \<open>The environment\<close>

text \<open>
  The environment of the approvals. \<open>ae_response_out\<close> is pydantic's dump of a response; \<open>ae_code_state\<close> is \<^verbatim>\<open>load_code_mode_state\<close> of a run for an outer call,
  None for any of its errors.
\<close>

record approval_env =
  ae_run :: run_env
  ae_parse_uuid :: "string \<Rightarrow> uuid option"
  ae_uuid5 :: "string \<Rightarrow> uuid"
  ae_history_in :: "json \<Rightarrow> messages option"
  ae_history_out :: "messages \<Rightarrow> json"
  ae_requests_in :: "json \<Rightarrow> deferred_requests option"
  ae_requests_out :: "deferred_requests \<Rightarrow> json"
  ae_results_in :: "json \<Rightarrow> deferred_results option"
  ae_results_out :: "deferred_results \<Rightarrow> pydict"
  ae_args_dict :: "tool_call \<Rightarrow> pydict"
  ae_json_loads :: "string \<Rightarrow> json option"
  ae_response_out :: "approval_response \<Rightarrow> json"
  ae_code_state :: "agent_run \<Rightarrow> string \<Rightarrow> code_state option"

abbreviation ae_text :: "approval_env \<Rightarrow> uuid \<Rightarrow> string" where
  "ae_text env \<equiv> e_uuid_text (ae_run env)"

text \<open>
  The documented behaviour of the adapters that the flow relies on: what is written is read back.
\<close>

definition adapters_ok :: "approval_env \<Rightarrow> bool" where
  "adapters_ok env \<longleftrightarrow>
     (\<forall>u. ae_parse_uuid env (ae_text env u) = Some u) \<and>
     (\<forall>h. ae_history_in env (ae_history_out env h) = Some h) \<and>
     (\<forall>q. ae_requests_in env (ae_requests_out env q) = Some q) \<and>
     (\<forall>v. ae_results_in env (JObj (ae_results_out env v)) = Some v)"

section \<open>Identities (approval_identity.py)\<close>

definition MAX_PROPOSAL_BYTES :: nat where
  "MAX_PROPOSAL_BYTES = 4 * 1024 * 1024"

definition MAX_PROJECTION_LEAVES :: nat where
  "MAX_PROJECTION_LEAVES = 1024"

definition invalid_approval_state :: "string \<Rightarrow> app_error" where
  "invalid_approval_state message = ConflictError message"

definition hex64 :: "string \<Rightarrow> bool" where
  "hex64 s \<longleftrightarrow> length s = 64 \<and>
     list_all (\<lambda>c. let n = (of_char c :: nat) in (48 \<le> n \<and> n \<le> 57) \<or> (97 \<le> n \<and> n \<le> 102)) s"

definition validate_approval_identity_metadata :: "approval_env \<Rightarrow> pydict \<Rightarrow> app_error + uuid" where
  "validate_approval_identity_metadata env raw =
     (if (case dict_get raw ''approval_revision'' of
            None \<Rightarrow> False | Some (JStr s) \<Rightarrow> \<not> hex64 s | Some _ \<Rightarrow> True)
      then Inl (invalid_approval_state ''Invalid saved approval revision'')
      else case dict_get raw ''approval_batch_id'' of
             Some (JStr s) \<Rightarrow>
               (case ae_parse_uuid env s of
                  Some u \<Rightarrow> Inr u | None \<Rightarrow> Inl (invalid_approval_state ''Invalid saved approval batch''))
           | _ \<Rightarrow> Inl (invalid_approval_state ''Invalid saved approval batch''))"

text \<open>The text is ASCII, so its length is its number of bytes.\<close>

definition proposal_digest :: "approval_env \<Rightarrow> json \<Rightarrow> app_error + string" where
  "proposal_digest env v =
     (let text = canonical_json v
      in if length text > MAX_PROPOSAL_BYTES
         then Inl (invalid_approval_state ''Saved approval proposal exceeds its size limit'')
         else Inr (e_sha256 (ae_run env) text))"

definition json_opt :: "string option \<Rightarrow> json" where
  "json_opt s = (case s of None \<Rightarrow> JNull | Some t \<Rightarrow> JStr t)"

definition approval_id :: "approval_env \<Rightarrow> uuid \<Rightarrow> uuid \<Rightarrow> string \<Rightarrow> string option \<Rightarrow> uuid" where
  "approval_id env owner_run_id batch_id tool_call_id parent_tool_call_id =
     ae_uuid5 env (render_json (JArr [JStr (ae_text env batch_id), JStr (ae_text env owner_run_id),
       json_opt parent_tool_call_id, JStr tool_call_id]))"

definition approval_revision ::
    "approval_env \<Rightarrow> uuid \<Rightarrow> uuid \<Rightarrow> (string \<times> pydict) list \<Rightarrow> app_error + string" where
  "approval_revision env root_run_id root_batch_id leaves =
     (if length leaves > MAX_PROJECTION_LEAVES
      then Inl (invalid_approval_state ''Saved approval projection has too many leaves'')
      else proposal_digest env (JObj
        [(''root_run_id'', JStr (ae_text env root_run_id)),
         (''root_batch_id'', JStr (ae_text env root_batch_id)),
         (''leaves'', JArr (map (\<lambda>(_, leaf). JObj leaf) (sort_key fst leaves)))]))"

section \<open>The suspended conversation (approval_state.py)\<close>

record suspended_state =
  su_history :: messages
  su_requests :: deferred_requests
  su_batch :: uuid

definition pending_tool_call_ids :: "deferred_requests \<Rightarrow> string list" where
  "pending_tool_call_ids q = map tc_id (dr_approvals q)"

definition build_suspended_run_metadata ::
    "approval_env \<Rightarrow> uuid \<Rightarrow> agent_run \<Rightarrow> uuid \<Rightarrow> messages \<Rightarrow> deferred_requests \<Rightarrow> pydict" where
  "build_suspended_run_metadata env fresh run conversation_id history requests =
     dict_set ''approval_state'' (JObj
       [(''version'', JInt 1),
        (''approval_batch_id'', JStr (ae_text env fresh)),
        (''run_id'', JStr (ae_text env (ar_id run))),
        (''conversation_id'', JStr (ae_text env conversation_id)),
        (''agent_id'', JStr (ae_text env (ar_agent_id run))),
        (''message_history'', ae_history_out env history),
        (''deferred_tool_requests'', ae_requests_out env requests),
        (''pending_tool_call_ids'', JArr (map JStr (pending_tool_call_ids requests)))])
       (dict_pop ''approval_continuation'' (or_empty (ar_metadata_json run)))"

text \<open>In Python \<^verbatim>\<open>True == 1\<close>.\<close>

definition load_suspended_run_state :: "approval_env \<Rightarrow> agent_run \<Rightarrow> app_error + suspended_state" where
  "load_suspended_run_state env run =
     (case dict_get (or_empty (ar_metadata_json run)) ''approval_state'' of
        Some (JObj raw) \<Rightarrow>
          (if dict_get raw ''version'' \<notin> {Some (JInt 1), Some (JBool True)}
           then Inl (ConflictError ''Agent run approval state version is not supported'')
           else if dict_get raw ''run_id'' \<noteq> Some (JStr (ae_text env (ar_id run)))
           then Inl (ConflictError ''Agent run approval state does not belong to this run'')
           else if dict_get raw ''conversation_id'' \<noteq> Some (JStr (ae_text env (ar_conversation_id run)))
           then Inl (ConflictError ''Agent run approval state does not belong to this conversation'')
           else if dict_get raw ''agent_id'' \<noteq> Some (JStr (ae_text env (ar_agent_id run)))
           then Inl (ConflictError ''Agent run approval state does not belong to this agent'')
           else bind_result (validate_approval_identity_metadata env raw) (\<lambda>batch.
             (case (Option.bind (dict_get raw ''message_history'') (ae_history_in env),
                    Option.bind (dict_get raw ''deferred_tool_requests'') (ae_requests_in env)) of
                (Some history, Some requests) \<Rightarrow>
                  (if dict_get raw ''pending_tool_call_ids'' \<noteq>
                        Some (JArr (map JStr (pending_tool_call_ids requests)))
                   then Inl (ConflictError ''Agent run approval state pending tool ids are inconsistent'')
                   else Inr \<lparr>su_history = history, su_requests = requests, su_batch = batch\<rparr>)
              | _ \<Rightarrow> Inl (ConflictError ''Agent run approval state cannot be rehydrated''))))
      | _ \<Rightarrow> Inl (ConflictError ''Agent run has no suspended approval state''))"

section \<open>The reservation of a continuation (continuation_state.py)\<close>

datatype continuation_phase = Reserved | Started

record approval_continuation =
  cn_generation :: uuid
  cn_owner :: uuid
  cn_revision :: string
  cn_request_digest :: string
  cn_child_batches :: "(uuid \<times> uuid) list"
  cn_claimed :: "uuid list"
  cn_results :: pydict
  cn_phase :: continuation_phase

definition dump_continuation :: "approval_env \<Rightarrow> approval_continuation \<Rightarrow> pydict" where
  "dump_continuation env c =
     [(''version'', JInt 1),
      (''generation'', JStr (ae_text env (cn_generation c))),
      (''owner_instance_id'', JStr (ae_text env (cn_owner c))),
      (''approval_revision'', JStr (cn_revision c)),
      (''request_digest'', JStr (cn_request_digest c)),
      (''child_batches'', JObj (map (\<lambda>(k, v). (ae_text env k, JStr (ae_text env v))) (cn_child_batches c))),
      (''claimed_child_ids'', JArr (map (\<lambda>u. JStr (ae_text env u)) (cn_claimed c))),
      (''deferred_tool_results'', JObj (cn_results c)),
      (''phase'', JStr (case cn_phase c of Reserved \<Rightarrow> ''reserved'' | Started \<Rightarrow> ''started''))]"

definition read_uuid :: "approval_env \<Rightarrow> json option \<Rightarrow> uuid option" where
  "read_uuid env v = (case v of Some (JStr s) \<Rightarrow> ae_parse_uuid env s | _ \<Rightarrow> None)"

definition read_digest :: "json option \<Rightarrow> string option" where
  "read_digest v = (case v of Some (JStr s) \<Rightarrow> if hex64 s then Some s else None | _ \<Rightarrow> None)"

definition read_batches :: "approval_env \<Rightarrow> json option \<Rightarrow> (uuid \<times> uuid) list option" where
  "read_batches env v =
     (case v of
        Some (JObj d) \<Rightarrow>
          map_option (foldl (\<lambda>m (k, b). AList.update k b m) [])
            (those (map (\<lambda>(k, b). case (ae_parse_uuid env k, read_uuid env (Some b)) of
               (Some k', Some b') \<Rightarrow> Some (k', b') | _ \<Rightarrow> None) d))
      | _ \<Rightarrow> None)"

definition read_claimed :: "approval_env \<Rightarrow> json option \<Rightarrow> uuid list option" where
  "read_claimed env v =
     (case v of None \<Rightarrow> Some [] | Some (JArr xs) \<Rightarrow> those (map (\<lambda>x. read_uuid env (Some x)) xs) | _ \<Rightarrow> None)"

definition read_phase :: "json option \<Rightarrow> continuation_phase option" where
  "read_phase v =
     (case v of
        None \<Rightarrow> Some Reserved
      | Some (JStr s) \<Rightarrow> if s = ''reserved'' then Some Reserved else if s = ''started'' then Some Started else None
      | _ \<Rightarrow> None)"

definition continuation_fields :: "string set" where
  "continuation_fields =
     {''version'', ''generation'', ''owner_instance_id'', ''approval_revision'', ''request_digest'', ''child_batches'',
      ''claimed_child_ids'', ''deferred_tool_results'', ''phase''}"

definition validate_continuation :: "approval_env \<Rightarrow> json option \<Rightarrow> approval_continuation option" where
  "validate_continuation env raw =
     (case raw of
        Some (JObj d) \<Rightarrow>
          (if \<not> fst ` set d \<subseteq> continuation_fields \<or> dict_get d ''version'' \<notin> {None, Some (JInt 1)} then None
           else
             (case (read_uuid env (dict_get d ''generation''), read_uuid env (dict_get d ''owner_instance_id''),
                    read_digest (dict_get d ''approval_revision''), read_digest (dict_get d ''request_digest''),
                    read_batches env (dict_get d ''child_batches''), read_claimed env (dict_get d ''claimed_child_ids''),
                    dict_get d ''deferred_tool_results'', read_phase (dict_get d ''phase'')) of
                (Some generation, Some owner, Some revision, Some digest, Some batches, Some claimed,
                 Some (JObj results), Some phase) \<Rightarrow>
                  (if length batches > MAX_PROJECTION_LEAVES \<or> length claimed > MAX_PROJECTION_LEAVES then None
                   else Some \<lparr>cn_generation = generation, cn_owner = owner, cn_revision = revision,
                     cn_request_digest = digest, cn_child_batches = batches, cn_claimed = claimed,
                     cn_results = results, cn_phase = phase\<rparr>)
              | _ \<Rightarrow> None))
      | _ \<Rightarrow> None)"

definition load_approval_continuation :: "approval_env \<Rightarrow> agent_run \<Rightarrow> app_error + approval_continuation" where
  "load_approval_continuation env run =
     (let raw = dict_get (or_empty (ar_metadata_json run)) ''approval_continuation''
      in bind_result (proposal_digest env (if_none raw JNull)) (\<lambda>_.
        (case validate_continuation env raw of
           None \<Rightarrow> Inl (invalid_approval_state ''Saved approval continuation is invalid'')
         | Some c \<Rightarrow>
             (if ae_results_in env (JObj (cn_results c)) = None
              then Inl (invalid_approval_state ''Saved approval continuation is invalid'')
              else if \<not> distinct (cn_claimed c) \<or> \<not> set (cn_claimed c) \<subseteq> fst ` set (cn_child_batches c)
              then Inl (invalid_approval_state ''Saved approval child claims are invalid'')
              else Inr c))))"

definition store_approval_continuation ::
    "approval_env \<Rightarrow> approval_continuation \<Rightarrow> agent_run \<Rightarrow> app_error + agent_run" where
  "store_approval_continuation env c run =
     bind_result (proposal_digest env (JObj (dump_continuation env c))) (\<lambda>_.
       Inr (run\<lparr>ar_metadata_json :=
         Some (dict_set ''approval_continuation'' (JObj (dump_continuation env c)) (or_empty (ar_metadata_json run)))\<rparr>))"

section \<open>A submission of decisions\<close>

record resume_decision =
  rd_tool_call_id :: string
  rd_approval_id :: uuid
  rd_approved :: bool
  rd_message :: "string option"
  rd_override :: "pydict option"

record resume_request =
  rs_decisions :: "resume_decision list"
  rs_revision :: string

definition dump_decision :: "approval_env \<Rightarrow> resume_decision \<Rightarrow> pydict" where
  "dump_decision env d =
     [(''tool_call_id'', JStr (rd_tool_call_id d)),
      (''approval_id'', JStr (ae_text env (rd_approval_id d))),
      (''decision'', JStr (if rd_approved d then ''approved'' else ''denied'')),
      (''message'', json_opt (rd_message d)),
      (''override_args'', case rd_override d of None \<Rightarrow> JNull | Some o' \<Rightarrow> JObj o')]"

definition dump_request :: "approval_env \<Rightarrow> resume_decision list \<Rightarrow> string \<Rightarrow> json" where
  "dump_request env decisions revision =
     JObj [(''decisions'', JArr (map (\<lambda>d. JObj (dump_decision env d)) decisions)),
           (''approval_revision'', JStr revision)]"

definition resume_request_digest :: "approval_env \<Rightarrow> resume_request \<Rightarrow> app_error + string" where
  "resume_request_digest env q =
     proposal_digest env (dump_request env
       (sort_key (\<lambda>d. (ae_text env (rd_approval_id d), rd_tool_call_id d)) (rs_decisions q)) (rs_revision q))"

end
