(* ===== verification/Approval_Graph.thy ===== *)
theory Approval_Graph
  imports Approval_State
begin

text \<open>
  The graph of pending approvals of a root run and its delegated children, and its projection for the
  reviewer with the revision that pins it (\<^verbatim>\<open>services/agents/runtime/approval_projection.py\<close>,
  \<^verbatim>\<open>services/agent_runs/load_approval_graph.py\<close>, the display of arguments of
  \<^verbatim>\<open>staged_tool_content.py\<close> and the nested call of \<^verbatim>\<open>code_mode/approval.py\<close>).
\<close>

section \<open>Arguments as they are shown (staged_tool_content.py)\<close>

definition mapping_args :: "approval_env \<Rightarrow> json \<Rightarrow> pydict option" where
  "mapping_args env args =
     (case args of
        JObj d \<Rightarrow> Some d
      | JStr s \<Rightarrow> (case ae_json_loads env s of Some (JObj d) \<Rightarrow> Some d | _ \<Rightarrow> None)
      | _ \<Rightarrow> None)"

definition utf8_bytes :: "string \<Rightarrow> nat" where
  "utf8_bytes s = sum_list (map (\<lambda>c. if (of_char c :: nat) < 128 then 1 else 2) s)"

definition safe_write_file_args :: "pydict \<Rightarrow> pydict" where
  "safe_write_file_args args =
     List.map_filter (\<lambda>k. map_option (Pair k) (dict_get args k)) [''name'', ''file_id'', ''expected_current_revision_id''] @
     (if dict_get args ''content'' \<noteq> None \<or> dict_get args ''content_ref'' \<noteq> None
      then [(''content'', JStr ''[staged for approval; content omitted]'')] else []) @
     (case dict_get args ''content'' of Some (JStr s) \<Rightarrow> [(''content_bytes'', JInt (int (utf8_bytes s)))] | _ \<Rightarrow> [])"

definition tool_args_for_display :: "approval_env \<Rightarrow> string \<Rightarrow> json \<Rightarrow> pydict \<Rightarrow> json" where
  "tool_args_for_display env tool_name args metadata =
     (case dict_get metadata ''display_args'' of
        Some (JObj d) \<Rightarrow> JObj d
      | _ \<Rightarrow>
          if tool_name \<noteq> ''write_file'' then args
          else case mapping_args env args of None \<Rightarrow> args | Some d \<Rightarrow> JObj (safe_write_file_args d))"

definition tool_replay_args_for_editing :: "approval_env \<Rightarrow> string \<Rightarrow> json \<Rightarrow> pydict \<Rightarrow> pydict option" where
  "tool_replay_args_for_editing env tool_name args metadata =
     (case dict_get metadata ''display_args'' of
        Some (JObj d) \<Rightarrow> mapping_args env (if_none (dict_get metadata ''reviewed_args'') args)
      | _ \<Rightarrow>
          if tool_name \<noteq> ''write_file'' then None
          else case mapping_args env args of
                 None \<Rightarrow> None
               | Some d \<Rightarrow> (case dict_get d ''content_ref'' of Some (JStr _) \<Rightarrow> Some d | _ \<Rightarrow> None))"

section \<open>Nodes\<close>

record direct_node =
  dn_owner :: uuid
  dn_batch :: uuid
  dn_call :: tool_call
  dn_metadata :: pydict

datatype approval_leaf =
    DirectLeaf direct_node
  | WorkflowLeaf direct_node string code_state

fun leaf_direct :: "approval_leaf \<Rightarrow> direct_node" where
  "leaf_direct (DirectLeaf d) = d"
| "leaf_direct (WorkflowLeaf d outer st) = d"

fun leaf_outer :: "approval_leaf \<Rightarrow> string option" where
  "leaf_outer (DirectLeaf d) = None"
| "leaf_outer (WorkflowLeaf d outer st) = Some outer"

datatype child_state = ChildAwaiting | ChildMissing | ChildInvalid | ChildPending | ChildTerminal

record delegated_node =
  gn_parent_tool_call_id :: string
  gn_child_run_id :: "uuid option"
  gn_status :: child_state
  gn_delegation :: "delegated_read option"
  gn_leaves :: "approval_leaf list"

datatype graph_node = LeafNode approval_leaf | DelegatedNode delegated_node

fun node_leaves :: "graph_node \<Rightarrow> approval_leaf list" where
  "node_leaves (LeafNode l) = [l]"
| "node_leaves (DelegatedNode n) = gn_leaves n"

record approval_graph =
  gr_root_run_id :: uuid
  gr_conversation_id :: uuid
  gr_root_batch_id :: uuid
  gr_nodes :: "graph_node list"

definition graph_leaves :: "approval_graph \<Rightarrow> approval_leaf list" where
  "graph_leaves g = concat (map node_leaves (gr_nodes g))"

definition kind_is :: "pydict \<Rightarrow> string \<Rightarrow> bool" where
  "kind_is metadata k \<longleftrightarrow> dict_get metadata ''kind'' = Some (JStr k)"

definition DELEGATED_APPROVAL_KIND :: string where
  "DELEGATED_APPROVAL_KIND = ''delegated_child_run''"

definition delegated_child_id :: "approval_env \<Rightarrow> pydict \<Rightarrow> uuid option" where
  "delegated_child_id env metadata =
     (case dict_get metadata ''child_run_id'' of
        Some (JStr s) \<Rightarrow> ae_parse_uuid env s
      | Some (JInt n) \<Rightarrow> ae_parse_uuid env (int_text n)
      | _ \<Rightarrow> None)"

text \<open>\<^verbatim>\<open>code_mode_nested_call\<close>: the nested call of a complete discriminator.\<close>

definition code_mode_nested_call :: "pydict \<Rightarrow> tool_call option" where
  "code_mode_nested_call metadata =
     (if \<not> kind_is metadata ''code_mode'' then None
      else case (dict_get metadata ''nested_tool_call_id'', dict_get metadata ''nested_tool_name'',
                 dict_get metadata ''nested_args'') of
             (Some (JStr i), Some (JStr n), Some (JObj a)) \<Rightarrow>
               if i = [] \<or> n = [] then None else Some \<lparr>tc_name = n, tc_id = i, tc_args = JObj a\<rparr>
           | _ \<Rightarrow> None)"

section \<open>Building the graph\<close>

definition call_metadata :: "suspended_state \<Rightarrow> tool_call \<Rightarrow> pydict" where
  "call_metadata st call = or_empty (map_of (dr_metadata (su_requests st)) (tc_id call))"

definition check_call_metadata :: "tool_call \<Rightarrow> pydict \<Rightarrow> app_error + unit" where
  "check_call_metadata call metadata =
     (if tc_name call \<in> {''delegate_to_agent'', ''run_subagent''} \<and> \<not> kind_is metadata DELEGATED_APPROVAL_KIND
      then Inl (invalid_approval_state ''Saved delegated approval metadata is missing or invalid'')
      else if tc_name call = ''run_code'' \<and> \<not> kind_is metadata ''code_mode''
      then Inl (invalid_approval_state ''Saved script approval metadata is missing or invalid'')
      else if dict_get metadata ''child_run_id'' \<noteq> None \<and> \<not> kind_is metadata DELEGATED_APPROVAL_KIND
      then Inl (invalid_approval_state ''Saved delegated approval metadata is invalid'')
      else Inr ())"

fun check_calls :: "suspended_state \<Rightarrow> tool_call list \<Rightarrow> app_error + (tool_call \<times> pydict) list" where
  "check_calls st [] = Inr []"
| "check_calls st (c # cs) =
     bind_result (check_call_metadata c (call_metadata st c)) (\<lambda>_.
     bind_result (check_calls st cs) (\<lambda>rest. Inr ((c, call_metadata st c) # rest)))"

definition approval_calls :: "suspended_state \<Rightarrow> app_error + (tool_call \<times> pydict) list" where
  "approval_calls st =
     (let calls = dr_approvals (su_requests st)
      in if length calls > MAX_PROJECTION_LEAVES
         then Inl (invalid_approval_state ''Saved approval state has too many calls'')
         else if \<not> distinct (map tc_id calls)
         then Inl (invalid_approval_state ''Saved approval calls have duplicate native identities'')
         else if calls = []
         then Inl (invalid_approval_state ''Saved approval state has no reviewable calls'')
         else check_calls st calls)"

definition validate_trace_entry ::
    "approval_env \<Rightarrow> code_state \<Rightarrow> tool_call \<Rightarrow> trace_entry \<Rightarrow> app_error + unit" where
  "validate_trace_entry env st nested entry =
     (if te_status entry \<noteq> ''pending''
      then Inl (invalid_approval_state ''Saved script approval is already settled'')
      else if te_tool_name entry \<noteq> tc_name nested \<or> te_parent_tool_call_id entry \<noteq> cs_outer_tool_call_id st
      then Inl (invalid_approval_state ''Saved script trace does not match its approval'')
      else
        (let args = ae_args_dict env nested
         in if tc_name nested = ''write_file'' \<and> dict_get args ''content_ref'' \<noteq> None then Inr ()
            else bind_result (proposal_digest env (JObj args)) (\<lambda>digest.
              (if te_args_sha256 entry \<noteq> digest
               then Inl (invalid_approval_state ''Saved script arguments do not match its approval'')
               else Inr ()))))"

definition validate_pending_trace :: "approval_env \<Rightarrow> code_state \<Rightarrow> tool_call \<Rightarrow> app_error + unit" where
  "validate_pending_trace env st nested =
     (case filter (\<lambda>e. te_tool_call_id e = tc_id nested) (cs_nested_trace st) of
        [] \<Rightarrow> if cs_trace_truncated st then Inr ()
              else Inl (invalid_approval_state ''Saved script trace has no pending approval'')
      | [entry] \<Rightarrow> validate_trace_entry env st nested entry
      | _ \<Rightarrow> Inl (invalid_approval_state ''Saved script trace repeats its pending approval''))"

definition build_leaf ::
    "approval_env \<Rightarrow> agent_run \<Rightarrow> suspended_state \<Rightarrow> tool_call \<Rightarrow> pydict \<Rightarrow> app_error + approval_leaf" where
  "build_leaf env run st call metadata =
     (if kind_is metadata DELEGATED_APPROVAL_KIND
      then Inl (invalid_approval_state ''Nested delegation is not supported'')
      else if \<not> kind_is metadata ''code_mode''
      then Inr (DirectLeaf \<lparr>dn_owner = ar_id run, dn_batch = su_batch st, dn_call = call, dn_metadata = metadata\<rparr>)
      else case code_mode_nested_call metadata of
             None \<Rightarrow> Inl (invalid_approval_state ''Saved script approval metadata is invalid'')
           | Some nested \<Rightarrow>
               if dict_get metadata ''outer_tool_call_id'' \<noteq> Some (JStr (tc_id call))
               then Inl (invalid_approval_state ''Saved script approval metadata is invalid'')
               else case ae_code_state env run (tc_id call) of
                      None \<Rightarrow> Inl (invalid_approval_state ''Saved script state is invalid'')
                    | Some cs \<Rightarrow>
                        if cs_nested_call_id cs \<noteq> tc_id nested
                        then Inl (invalid_approval_state ''Saved script leaf does not match its snapshot'')
                        else bind_result (validate_pending_trace env cs nested) (\<lambda>_.
                          Inr (WorkflowLeaf \<lparr>dn_owner = ar_id run, dn_batch = su_batch st, dn_call = nested,
                                 dn_metadata = metadata\<rparr> (tc_id call) cs)))"

fun build_leaves ::
    "approval_env \<Rightarrow> agent_run \<Rightarrow> suspended_state \<Rightarrow> (tool_call \<times> pydict) list \<Rightarrow> app_error + approval_leaf list" where
  "build_leaves env run st [] = Inr []"
| "build_leaves env run st ((call, metadata) # rest) =
     bind_result (build_leaf env run st call metadata) (\<lambda>leaf.
     bind_result (build_leaves env run st rest) (\<lambda>leaves. Inr (leaf # leaves)))"

definition child_belongs :: "approval_env \<Rightarrow> agent_run \<Rightarrow> agent_run \<Rightarrow> pydict \<Rightarrow> bool" where
  "child_belongs env main child metadata \<longleftrightarrow>
     ar_parent_run_id child = Some (ar_id main) \<and> ar_workspace_id child = ar_workspace_id main \<and>
     ar_user_id child = ar_user_id main \<and> ar_delegation_depth child = 1 \<and>
     dict_get metadata ''child_agent_id'' = Some (JStr (ae_text env (ar_agent_id child))) \<and>
     dict_get metadata ''child_conversation_id'' = Some (JStr (ae_text env (ar_conversation_id child)))"

definition unavailable_child :: "string \<Rightarrow> uuid option \<Rightarrow> child_state \<Rightarrow> delegated_node" where
  "unavailable_child call child status =
     \<lparr>gn_parent_tool_call_id = call, gn_child_run_id = child, gn_status = status, gn_delegation = None, gn_leaves = []\<rparr>"

text \<open>\<^verbatim>\<open>metadata.get("child_agent_name") or "Delegate agent"\<close>, which pydantic requires to be a string.\<close>

definition child_agent_name :: "pydict \<Rightarrow> app_error + string" where
  "child_agent_name metadata =
     (case dict_get metadata ''child_agent_name'' of
        Some (JStr s) \<Rightarrow> Inr (if s = [] then ''Delegate agent'' else s)
      | v \<Rightarrow> if json_truthy v then Inl (ValueError ''child_agent_name'') else Inr ''Delegate agent'')"

definition build_delegated_node ::
    "approval_env \<Rightarrow> agent_run \<Rightarrow> tool_call \<Rightarrow> pydict \<Rightarrow> (uuid \<rightharpoonup> agent_run) \<Rightarrow> nat \<Rightarrow> app_error + delegated_node" where
  "build_delegated_node env main call metadata children count =
     (case delegated_child_id env metadata of
        None \<Rightarrow> Inr (unavailable_child (tc_id call) None ChildInvalid)
      | Some i \<Rightarrow>
          if i = ar_id main then Inr (unavailable_child (tc_id call) (Some i) ChildInvalid)
          else case children i of
                 None \<Rightarrow> Inr (unavailable_child (tc_id call) (Some i) ChildMissing)
               | Some child \<Rightarrow>
                   if ar_deleted child then Inr (unavailable_child (tc_id call) (Some i) ChildMissing)
                   else if \<not> child_belongs env main child metadata
                   then Inr (unavailable_child (tc_id call) (Some i) ChildInvalid)
                   else if is_terminal (ar_status child)
                   then Inr (unavailable_child (tc_id call) (Some i) ChildTerminal)
                   else if ar_status child \<noteq> RunAwaitingApproval
                   then Inr (unavailable_child (tc_id call) (Some i) ChildPending)
                   else
                     bind_result (load_suspended_run_state env child) (\<lambda>st.
                     bind_result (approval_calls st) (\<lambda>calls.
                       (if length calls + count > MAX_PROJECTION_LEAVES
                        then Inl (invalid_approval_state ''Saved approval graph has too many leaves'')
                        else bind_result (build_leaves env child st calls) (\<lambda>leaves.
                          bind_result (child_agent_name metadata) (\<lambda>name.
                            Inr \<lparr>gn_parent_tool_call_id = tc_id call, gn_child_run_id = Some i,
                              gn_status = ChildAwaiting,
                              gn_delegation = Some \<lparr>dl_parent_tool_call_id = tc_id call,
                                dl_parent_tool_name = tc_name call, dl_child_agent_id = ar_agent_id child,
                                dl_child_agent_name = name, dl_child_conversation_id = ar_conversation_id child,
                                dl_child_run_id = ar_id child, dl_pending_count = length leaves\<rparr>,
                              gn_leaves = leaves\<rparr>))))))"

fun graph_loop ::
    "approval_env \<Rightarrow> agent_run \<Rightarrow> suspended_state \<Rightarrow> (uuid \<rightharpoonup> agent_run) \<Rightarrow> (tool_call \<times> pydict) list \<Rightarrow> uuid list \<Rightarrow>
     nat \<Rightarrow> app_error + graph_node list" where
  "graph_loop env main st children [] seen count = Inr []"
| "graph_loop env main st children ((call, metadata) # rest) seen count =
     (if \<not> kind_is metadata DELEGATED_APPROVAL_KIND
      then bind_result (build_leaf env main st call metadata) (\<lambda>leaf.
        bind_result (graph_loop env main st children rest seen (count + 1)) (\<lambda>nodes.
          Inr (LeafNode leaf # nodes)))
      else bind_result (build_delegated_node env main call metadata children count) (\<lambda>node.
        (if (case gn_child_run_id node of None \<Rightarrow> False | Some i \<Rightarrow> i \<in> set seen)
         then Inl (invalid_approval_state ''A delegated approval repeats a child run'')
         else bind_result (graph_loop env main st children rest
               (case gn_child_run_id node of None \<Rightarrow> seen | Some i \<Rightarrow> i # seen)
               (count + length (gn_leaves node))) (\<lambda>nodes.
             Inr (DelegatedNode node # nodes)))))"

definition build_approval_graph ::
    "approval_env \<Rightarrow> agent_run \<Rightarrow> (uuid \<rightharpoonup> agent_run) \<Rightarrow> app_error + approval_graph" where
  "build_approval_graph env main children =
     (if ar_parent_run_id main \<noteq> None \<or> ar_delegation_depth main \<noteq> 0
      then Inl (invalid_approval_state ''Approval submissions require the root run'')
      else if ar_status main \<noteq> RunAwaitingApproval
      then Inl (invalid_approval_state ''The root run is not awaiting approval'')
      else bind_result (load_suspended_run_state env main) (\<lambda>st.
        bind_result (approval_calls st) (\<lambda>calls.
        bind_result (graph_loop env main st children calls [] 0) (\<lambda>nodes.
          (if sum_list (map (\<lambda>n. length (node_leaves n)) nodes) > MAX_PROJECTION_LEAVES
           then Inl (invalid_approval_state ''Saved approval graph has too many leaves'')
           else Inr \<lparr>gr_root_run_id = ar_id main, gr_conversation_id = ar_conversation_id main,
                  gr_root_batch_id = su_batch st, gr_nodes = nodes\<rparr>)))))"

section \<open>The projection\<close>

definition taint_sources_of :: "pydict \<Rightarrow> taint_source list" where
  "taint_sources_of metadata =
     (case dict_get metadata ''taint_sources'' of
        Some (JArr items) \<Rightarrow>
          List.map_filter (\<lambda>item. case item of
             JObj d \<Rightarrow> (case (dict_get d ''source_kind'', dict_get d ''source_ref'') of
                (Some (JStr k), Some (JStr r)) \<Rightarrow> Some \<lparr>ts_kind = k, ts_ref = r\<rparr> | _ \<Rightarrow> None)
           | _ \<Rightarrow> None) items
      | _ \<Rightarrow> [])"

definition taint_json :: "taint_source \<Rightarrow> json" where
  "taint_json s = JObj [(''source_kind'', JStr (ts_kind s)), (''source_ref'', JStr (ts_ref s))]"

definition leaf_identity :: "approval_env \<Rightarrow> approval_leaf \<Rightarrow> uuid" where
  "leaf_identity env leaf =
     (let d = leaf_direct leaf in approval_id env (dn_owner d) (dn_batch d) (tc_id (dn_call d)) (leaf_outer leaf))"

definition pending_of :: "approval_env \<Rightarrow> uuid \<Rightarrow> approval_leaf \<Rightarrow> delegated_read option \<Rightarrow> pending_approval" where
  "pending_of env root_run_id leaf delegation =
     (let d = leaf_direct leaf; call = dn_call d; own = taint_sources_of (dn_metadata d);
          derived = (dict_get (dn_metadata d) ''derived_from_untrusted'' = Some (JBool True));
          tainted = (case leaf of WorkflowLeaf _ _ cs \<Rightarrow> if cs_tainted cs then Some (cs_taint_sources cs) else None
                     | DirectLeaf _ \<Rightarrow> None)
      in \<lparr>pa_approval_id = leaf_identity env leaf, pa_owner_run_id = dn_owner d, pa_root_run_id = root_run_id,
          pa_parent_tool_call_id = leaf_outer leaf, pa_tool_call_id = tc_id call, pa_name = tc_name call,
          pa_args = tool_args_for_display env (tc_name call) (tc_args call) (dn_metadata d),
          pa_replay_args = tool_replay_args_for_editing env (tc_name call) (tc_args call) (dn_metadata d),
          pa_delegation = delegation,
          pa_derived_from_untrusted = (derived \<or> tainted \<noteq> None),
          pa_taint_sources = (case tainted of None \<Rightarrow> own
             | Some ss \<Rightarrow> foldl (\<lambda>acc s. if s \<in> set acc then acc else acc @ [s]) ss own)\<rparr>)"

definition leaf_fingerprint ::
    "approval_env \<Rightarrow> approval_leaf \<Rightarrow> delegated_read option \<Rightarrow> pending_approval \<Rightarrow> app_error + pydict" where
  "leaf_fingerprint env leaf delegation pending =
     (let d = leaf_direct leaf
      in bind_result (proposal_digest env (JObj (ae_args_dict env (dn_call d)))) (\<lambda>args_digest.
         bind_result (case dict_get (dn_metadata d) ''reviewed_args'' of
               None \<Rightarrow> Inr []
             | Some r \<Rightarrow> bind_result (proposal_digest env r) (\<lambda>x. Inr [(''reviewed_args_digest'', JStr x)])) (\<lambda>reviewed.
         bind_result (proposal_digest env (pa_args pending)) (\<lambda>presentation.
         bind_result (proposal_digest env (JObj
               [(''derived_from_untrusted'', JBool (pa_derived_from_untrusted pending)),
                (''taint_sources'', JArr (map taint_json (pa_taint_sources pending)))])) (\<lambda>taint.
         bind_result (case leaf of
               DirectLeaf _ \<Rightarrow> Inr JNull
             | WorkflowLeaf _ _ cs \<Rightarrow> bind_result (proposal_digest env (JStr (cs_code cs))) (\<lambda>x. Inr (JStr x))) (\<lambda>workflow.
           Inr ([(''approval_id'', JStr (ae_text env (pa_approval_id pending))),
                 (''owner_run_id'', JStr (ae_text env (dn_owner d))),
                 (''tool_call_id'', JStr (tc_id (dn_call d))),
                 (''parent_tool_call_id'', json_opt (leaf_outer leaf)),
                 (''delegation_call_id'', json_opt (map_option dl_parent_tool_call_id delegation)),
                 (''name'', JStr (tc_name (dn_call d))),
                 (''args_digest'', JStr args_digest)] @ reviewed @
                [(''presentation_digest'', JStr presentation),
                 (''taint_digest'', JStr taint),
                 (''workflow_digest'', workflow)])))))))"

record projected_leaf =
  pl_pending :: pending_approval
  pl_workflow :: "pending_workflow option"
  pl_fingerprint :: pydict

definition project_leaf ::
    "approval_env \<Rightarrow> uuid \<Rightarrow> approval_leaf \<Rightarrow> delegated_read option \<Rightarrow> app_error + projected_leaf" where
  "project_leaf env root_run_id leaf delegation =
     (let pending = pending_of env root_run_id leaf delegation
      in bind_result (leaf_fingerprint env leaf delegation pending) (\<lambda>fingerprint.
        Inr \<lparr>pl_pending = pending,
          pl_workflow = (case leaf of
             DirectLeaf _ \<Rightarrow> None
           | WorkflowLeaf d outer cs \<Rightarrow> Some \<lparr>pw_owner_run_id = dn_owner d, pw_root_run_id = root_run_id,
               pw_delegation = delegation, pw_outer_tool_call_id = outer, pw_state = cs, pw_pending = pending\<rparr>),
          pl_fingerprint = fingerprint\<rparr>))"

fun project_leaves ::
    "approval_env \<Rightarrow> uuid \<Rightarrow> delegated_read option \<Rightarrow> approval_leaf list \<Rightarrow> app_error + projected_leaf list" where
  "project_leaves env root_run_id delegation [] = Inr []"
| "project_leaves env root_run_id delegation (leaf # rest) =
     bind_result (project_leaf env root_run_id leaf delegation) (\<lambda>p.
     bind_result (project_leaves env root_run_id delegation rest) (\<lambda>ps. Inr (p # ps)))"

definition child_state_text :: "child_state \<Rightarrow> string" where
  "child_state_text s =
     (case s of ChildAwaiting \<Rightarrow> ''awaiting_approval'' | ChildMissing \<Rightarrow> ''missing'' | ChildInvalid \<Rightarrow> ''invalid''
      | ChildPending \<Rightarrow> ''pending'' | ChildTerminal \<Rightarrow> ''terminal'')"

fun project_nodes ::
    "approval_env \<Rightarrow> uuid \<Rightarrow> graph_node list \<Rightarrow> app_error + projected_leaf list \<times> delegated_read list" where
  "project_nodes env root_run_id [] = Inr ([], [])"
| "project_nodes env root_run_id (LeafNode leaf # rest) =
     bind_result (project_leaves env root_run_id None [leaf]) (\<lambda>ps.
     bind_result (project_nodes env root_run_id rest) (\<lambda>(qs, ds). Inr (ps @ qs, ds)))"
| "project_nodes env root_run_id (DelegatedNode node # rest) =
     (case (gn_status node, gn_delegation node) of
        (ChildAwaiting, Some delegation) \<Rightarrow>
          bind_result (project_leaves env root_run_id (Some delegation) (gn_leaves node)) (\<lambda>ps.
          bind_result (project_nodes env root_run_id rest) (\<lambda>(qs, ds). Inr (ps @ qs, delegation # ds)))
      | _ \<Rightarrow> Inl (invalid_approval_state (''Delegated approval child is '' @ child_state_text (gn_status node))))"

definition project_approval_graph :: "approval_env \<Rightarrow> approval_graph \<Rightarrow> app_error + approval_response" where
  "project_approval_graph env g =
     bind_result (project_nodes env (gr_root_run_id g) (gr_nodes g)) (\<lambda>(ps, ds).
     bind_result (approval_revision env (gr_root_run_id g) (gr_root_batch_id g)
         (map (\<lambda>p. (ae_text env (pa_approval_id (pl_pending p)), pl_fingerprint p)) ps)) (\<lambda>revision.
       (let response = \<lparr>as_run_id = gr_root_run_id g, as_conversation_id = gr_conversation_id g,
              as_approvals = map pl_pending ps, as_delegations = ds,
              as_workflows = List.map_filter pl_workflow ps, as_revision = revision\<rparr>
        in bind_result (proposal_digest env (ae_response_out env response)) (\<lambda>_. Inr response))))"

section \<open>Loading the graph (load_approval_graph.py)\<close>

definition conversation_available :: "run_db \<Rightarrow> agent_run \<Rightarrow> bool" where
  "conversation_available db run \<longleftrightarrow>
     (case find (\<lambda>c. cv_id c = ar_conversation_id run \<and> cv_workspace_id c = ar_workspace_id run \<and>
                     cv_user_id c = ar_user_id run \<and> \<not> cv_deleted c) (conversations db) of
        None \<Rightarrow> False
      | Some c \<Rightarrow> cv_active_agent_id c = None \<or> cv_active_agent_id c = Some (ar_agent_id run))"

definition declared_children :: "approval_env \<Rightarrow> suspended_state \<Rightarrow> uuid list" where
  "declared_children env st =
     List.map_filter (\<lambda>c. case map_of (dr_metadata (su_requests st)) (tc_id c) of
        None \<Rightarrow> None
      | Some m \<Rightarrow> if kind_is m DELEGATED_APPROVAL_KIND then delegated_child_id env m else None)
       (dr_approvals (su_requests st))"

definition load_approval_graph ::
    "approval_env \<Rightarrow> uuid \<Rightarrow> uuid \<Rightarrow> uuid \<Rightarrow> run_db \<Rightarrow> app_error + approval_graph" where
  "load_approval_graph env actor workspace run_id db =
     (case find (\<lambda>r. ar_id r = run_id \<and> ar_workspace_id r = workspace \<and> ar_user_id r = actor \<and> \<not> ar_deleted r)
         (agent_runs db) of
        None \<Rightarrow> Inl (NotFoundError ''Agent run not found'')
      | Some main \<Rightarrow>
          if ar_status main \<noteq> RunAwaitingApproval
          then Inl (invalid_approval_state ''The root run is not awaiting approval'')
          else if \<not> conversation_available db main
          then Inl (invalid_approval_state ''Saved approval conversation is unavailable'')
          else bind_result (load_suspended_run_state env main) (\<lambda>st.
            (if length (dr_approvals (su_requests st)) > MAX_PROJECTION_LEAVES
             then Inl (invalid_approval_state ''Saved approval state has too many calls'')
             else
               (let children = filter (\<lambda>r. ar_id r \<in> set (declared_children env st) \<and> ar_workspace_id r = workspace \<and>
                        ar_user_id r = actor \<and> \<not> ar_deleted r) (agent_runs db)
                in if list_ex (\<lambda>c. \<not> conversation_available db c) children
                   then Inl (invalid_approval_state ''Saved approval conversation is unavailable'')
                   else build_approval_graph env main (map_of (map (\<lambda>c. (ar_id c, c)) children))))))"

end
