(* ===== verification/Approval_Overrides.thy ===== *)
theory Approval_Overrides
  imports Approval_Graph
begin

text \<open>
  The server's checks of edited tool arguments (\<^verbatim>\<open>services/agent_runs/validate_override_args.py\<close>) and of a
  retained review (\<^verbatim>\<open>services/agent_runs/utils.py\<close>): only fields declared editable may differ from what
  the model proposed, scalars and record rows must have their declared format, and every entity
  reference is resolved again. The registry of tools is data; resolving entities is an argument. JSON
  numbers are integers here, so the checks for finite floats have no case.
\<close>

section \<open>Tool definitions (tools/contract.py)\<close>

datatype column_format = ColText | ColNumber | ColList | ColKeyvalue | ColScalarOrList

record tool_column =
  tcol_key :: string
  tcol_format :: column_format
  tcol_options :: "string list"
  tcol_required :: bool
  tcol_max_entries :: "nat option"

datatype field_format = FDatetime | FBoolean | FRecords | FEntity | FEntityList | FOther string

record tool_field =
  tf_key :: string
  tf_format :: field_format
  tf_editable :: bool
  tf_secondary :: bool
  tf_entity_kind :: "string option"
  tf_columns :: "tool_column list"
  tf_min_rows :: nat

text \<open>\<open>td_input_model\<close> is the acceptance of \<^verbatim>\<open>approval_input_model.model_validate\<close>, when there is one.\<close>

record tool_definition =
  td_name :: string
  td_fields :: "tool_field list"
  td_input_model :: "(pydict \<Rightarrow> bool) option"
  td_review_fields :: "string list"
  td_has_display :: bool

text \<open>
  \<open>to_resolve\<close> authorises a field of a call and resolves its references to canonical ones;
  \<open>to_identity\<close> is the reference adapter of an entity kind, None for its \<^verbatim>\<open>ValidationError\<close>;
  \<open>to_display\<close> is \<^verbatim>\<open>build_review_display_args\<close>.
\<close>

record tool_env =
  to_tool :: "string \<Rightarrow> tool_definition option"
  to_resolve :: "agent_run \<Rightarrow> string \<Rightarrow> string \<Rightarrow> string \<Rightarrow> json list \<Rightarrow> pydict \<Rightarrow> app_error + json list"
  to_identity :: "string \<Rightarrow> (json \<Rightarrow> json option) option"
  to_display :: "agent_run \<Rightarrow> string \<Rightarrow> string \<Rightarrow> pydict \<Rightarrow> app_error + pydict"

definition RECORDS_FIELD_MAX_ROWS :: nat where
  "RECORDS_FIELD_MAX_ROWS = 500"

section \<open>Equality of Python values\<close>

text \<open>Dictionaries are equal whatever the order of their keys, and \<^verbatim>\<open>True == 1\<close>.\<close>

fun py_norm :: "json \<Rightarrow> json" where
  "py_norm (JBool b) = JInt (if b then 1 else 0)"
| "py_norm (JArr xs) = JArr (map py_norm xs)"
| "py_norm (JObj d) = JObj (sort_key fst (map (\<lambda>(k, v). (k, py_norm v)) d))"
| "py_norm v = v"

definition py_eq :: "json \<Rightarrow> json \<Rightarrow> bool" where
  "py_eq a b \<longleftrightarrow> py_norm a = py_norm b"

section \<open>Locked fields\<close>

definition original_tool_args :: "approval_env \<Rightarrow> tool_call \<Rightarrow> app_error + pydict" where
  "original_tool_args env call =
     (case mapping_args env (tc_args call) of
        Some d \<Rightarrow> Inr d
      | None \<Rightarrow> Inl (AppValidationError ''The pending tool arguments cannot be edited safely''))"

definition arg_changed :: "pydict \<Rightarrow> pydict \<Rightarrow> string \<Rightarrow> bool" where
  "arg_changed original effective k \<longleftrightarrow>
     (case (dict_get original k, dict_get effective k) of
        (Some a, Some b) \<Rightarrow> \<not> py_eq a b | (None, None) \<Rightarrow> False | _ \<Rightarrow> True)"

definition field_by_key :: "tool_definition \<Rightarrow> string \<Rightarrow> tool_field option" where
  "field_by_key td k = find (\<lambda>f. tf_key f = k) (rev (td_fields td))"

definition field_editable :: "tool_definition \<Rightarrow> string \<Rightarrow> bool" where
  "field_editable td k \<longleftrightarrow> (case field_by_key td k of None \<Rightarrow> False | Some f \<Rightarrow> tf_editable f)"

definition validate_locked_changes :: "tool_definition \<Rightarrow> pydict \<Rightarrow> pydict \<Rightarrow> app_error + unit" where
  "validate_locked_changes td original effective =
     (if list_ex (\<lambda>k. arg_changed original effective k \<and> \<not> field_editable td k) (map fst original @ map fst effective)
      then Inl (AppValidationError ''One or more tool fields are not editable'') else Inr ())"

section \<open>Scalars\<close>

definition number_of :: "string \<Rightarrow> nat" where
  "number_of s = digits_value s"

definition days_in_month :: "nat \<Rightarrow> nat \<Rightarrow> nat" where
  "days_in_month y m =
     (if m = 2 then (if y mod 4 = 0 \<and> (y mod 100 \<noteq> 0 \<or> y mod 400 = 0) then 29 else 28)
      else if m \<in> {4, 6, 9, 11} then 30 else 31)"

text \<open>The pattern of the source, then what \<^verbatim>\<open>datetime.fromisoformat\<close> accepts of it.\<close>

definition datetime_shape :: "string \<Rightarrow> bool" where
  "datetime_shape s \<longleftrightarrow> length s \<in> {16, 19} \<and>
     list_all (\<lambda>i. if i \<in> {4, 7} then s ! i = CHR ''-'' else if i = 10 then s ! i = CHR ''T''
                   else if i \<in> {13, 16} then s ! i = CHR '':'' else digit_char (s ! i)) [0..<length s]"

definition datetime_values :: "string \<Rightarrow> bool" where
  "datetime_values s \<longleftrightarrow>
     (let y = number_of (take 4 s); m = number_of (take 2 (drop 5 s)); d = number_of (take 2 (drop 8 s));
          h = number_of (take 2 (drop 11 s)); i = number_of (take 2 (drop 14 s)); sec = number_of (drop 17 s)
      in 1 \<le> y \<and> 1 \<le> m \<and> m \<le> 12 \<and> 1 \<le> d \<and> d \<le> days_in_month y m \<and> h < 24 \<and> i < 60 \<and> sec < 60)"

definition field_value :: "pydict \<Rightarrow> string \<Rightarrow> json" where
  "field_value args k = if_none (dict_get args k) JNull"

definition validate_scalar :: "tool_field \<Rightarrow> pydict \<Rightarrow> app_error + unit" where
  "validate_scalar f args =
     (let v = field_value args (tf_key f)
      in if \<not> tf_editable f \<or> tf_format f \<notin> {FDatetime, FBoolean} then Inr ()
         else if tf_secondary f \<and> v = JNull then Inr ()
         else if tf_format f = FBoolean
         then (case v of JBool _ \<Rightarrow> Inr () | _ \<Rightarrow> Inl (AppValidationError ''This field must be on or off''))
         else (case v of
                 JStr s \<Rightarrow> if datetime_shape s \<and> datetime_values s then Inr ()
                   else Inl (AppValidationError ''Date and time must be in the form YYYY-MM-DDTHH:MM'')
               | _ \<Rightarrow> Inl (AppValidationError ''Date and time must be in the form YYYY-MM-DDTHH:MM'')))"

fun validate_all :: "('a \<Rightarrow> app_error + unit) \<Rightarrow> 'a list \<Rightarrow> app_error + unit" where
  "validate_all f [] = Inr ()"
| "validate_all f (x # xs) = bind_result (f x) (\<lambda>_. validate_all f xs)"

section \<open>Record rows\<close>

definition scalar_item :: "json \<Rightarrow> bool" where
  "scalar_item v \<longleftrightarrow> (case v of JStr _ \<Rightarrow> True | JInt _ \<Rightarrow> True | _ \<Rightarrow> False)"

definition record_cell_matches_format :: "tool_column \<Rightarrow> json \<Rightarrow> bool" where
  "record_cell_matches_format col item =
     (case tcol_format col of
        ColScalarOrList \<Rightarrow> list_all scalar_item (case item of JArr xs \<Rightarrow> xs | _ \<Rightarrow> [item])
      | ColText \<Rightarrow> scalar_item item
      | ColNumber \<Rightarrow> scalar_item item
      | ColList \<Rightarrow> (case item of JArr xs \<Rightarrow> list_all (\<lambda>x. case x of JStr _ \<Rightarrow> True | _ \<Rightarrow> False) xs | _ \<Rightarrow> False)
      | ColKeyvalue \<Rightarrow> (case item of
            JObj d \<Rightarrow> list_all (\<lambda>(k, x). scalar_item x \<or> (case x of JBool _ \<Rightarrow> True | _ \<Rightarrow> False)) d | _ \<Rightarrow> False))"

definition validate_record_cell :: "tool_column \<Rightarrow> json \<Rightarrow> app_error + unit" where
  "validate_record_cell col item =
     (if item = JNull \<and> \<not> tcol_required col then Inr ()
      else if \<not> record_cell_matches_format col item
      then Inl (AppValidationError ''A record cell does not match its declared format'')
      else if tcol_required col \<and> (case item of JStr s \<Rightarrow> py_strip s = [] | _ \<Rightarrow> False)
      then Inl (AppValidationError ''Required record cells must not be blank'')
      else if tcol_required col \<and> (item = JArr [] \<or> item = JObj [])
      then Inl (AppValidationError ''Required record cells must not be empty'')
      else if tcol_options col \<noteq> [] \<and> (case item of JStr s \<Rightarrow> s \<notin> set (tcol_options col) | _ \<Rightarrow> True)
      then Inl (AppValidationError ''A record cell is not one of the allowed options'')
      else if (case (tcol_max_entries col, item) of (Some n, JObj d) \<Rightarrow> length d > n | _ \<Rightarrow> False)
      then Inl (AppValidationError ''A record cell contains too many entries'')
      else Inr ())"

definition column_by_key :: "tool_column list \<Rightarrow> string \<Rightarrow> tool_column option" where
  "column_by_key cols k = find (\<lambda>c. tcol_key c = k) (rev cols)"

definition validate_record_row :: "tool_column list \<Rightarrow> json \<Rightarrow> app_error + unit" where
  "validate_record_row cols row =
     (case row of
        JObj d \<Rightarrow>
          (if fst ` set d \<subseteq> tcol_key ` set cols \<and> tcol_key ` set (filter tcol_required cols) \<subseteq> fst ` set d
           then validate_all (\<lambda>(k, item). case column_by_key cols k of
                  None \<Rightarrow> Inr () | Some col \<Rightarrow> validate_record_cell col item) d
           else Inl (AppValidationError ''Every record row must contain required columns and no undeclared columns''))
      | _ \<Rightarrow> Inl (AppValidationError ''Every record row must contain required columns and no undeclared columns''))"

definition validate_records :: "tool_field \<Rightarrow> json \<Rightarrow> app_error + unit" where
  "validate_records f v =
     (case v of
        JArr rows \<Rightarrow>
          (if length rows > RECORDS_FIELD_MAX_ROWS
           then Inl (AppValidationError ''Record fields cannot contain more than 500 rows'')
           else if length rows < tf_min_rows f
           then Inl (AppValidationError ''Record fields must contain at least the minimum of rows'')
           else validate_all (validate_record_row (tf_columns f)) rows)
      | _ \<Rightarrow> Inl (AppValidationError ''Record fields must be a list of rows''))"

definition validate_record_field :: "tool_field \<Rightarrow> pydict \<Rightarrow> app_error + unit" where
  "validate_record_field f args =
     (if tf_format f \<noteq> FRecords \<or> \<not> tf_editable f then Inr ()
      else if tf_secondary f \<and> field_value args (tf_key f) = JNull then Inr ()
      else validate_records f (field_value args (tf_key f)))"

section \<open>Entity references\<close>

definition canonicalize_entity_field ::
    "tool_env \<Rightarrow> agent_run \<Rightarrow> tool_definition \<Rightarrow> string \<Rightarrow> tool_field \<Rightarrow> pydict \<Rightarrow> app_error + pydict" where
  "canonicalize_entity_field te run td call_id f args =
     (let v = field_value args (tf_key f)
      in if tf_format f \<notin> {FEntity, FEntityList} then Inr args
         else if tf_secondary f \<and> v = JNull then Inr args
         else if tf_format f = FEntityList
         then (case v of
                 JArr values \<Rightarrow>
                   if values = [] \<or> length values > 500
                   then Inl (AppValidationError ''Entity list selections must contain between 1 and 500 targets'')
                   else bind_result (to_resolve te run (td_name td) (tf_key f) call_id values args) (\<lambda>canonical.
                     Inr (dict_set (tf_key f) (JArr canonical) args))
               | _ \<Rightarrow> Inl (AppValidationError ''Entity list selections must contain between 1 and 500 targets''))
         else (case v of
                 JObj _ \<Rightarrow> bind_result (to_resolve te run (td_name td) (tf_key f) call_id [v] args) (\<lambda>canonical.
                   (case canonical of
                      [] \<Rightarrow> Inl (RuntimeError ''IndexError'')
                    | c # _ \<Rightarrow> Inr (dict_set (tf_key f) c args)))
               | _ \<Rightarrow> Inl (AppValidationError ''This pending approval uses an older raw target identifier'')))"

fun canonicalize_entity_fields ::
    "tool_env \<Rightarrow> agent_run \<Rightarrow> tool_definition \<Rightarrow> string \<Rightarrow> tool_field list \<Rightarrow> pydict \<Rightarrow> app_error + pydict" where
  "canonicalize_entity_fields te run td call_id [] args = Inr args"
| "canonicalize_entity_fields te run td call_id (f # fs) args =
     bind_result (canonicalize_entity_field te run td call_id f args)
       (canonicalize_entity_fields te run td call_id fs)"

section \<open>The whole check\<close>

definition validate_and_canonicalize_override_args ::
    "approval_env \<Rightarrow> tool_env \<Rightarrow> agent_run \<Rightarrow> tool_call \<Rightarrow> pydict option \<Rightarrow> app_error + pydict option" where
  "validate_and_canonicalize_override_args env te run call override_args =
     (case to_tool te (tc_name call) of
        None \<Rightarrow> Inl (AppValidationError ''The pending tool is no longer available'')
      | Some td \<Rightarrow>
          bind_result (original_tool_args env call) (\<lambda>original.
            (let effective = if_none override_args original
             in bind_result (validate_locked_changes td original effective) (\<lambda>_.
                if (case td_input_model td of None \<Rightarrow> False | Some ok \<Rightarrow> \<not> ok effective)
                then Inl (AppValidationError ''Check the changed details before approving.'')
                else
                  bind_result (validate_all (\<lambda>f. validate_scalar f effective) (td_fields td)) (\<lambda>_.
                  bind_result (validate_all (\<lambda>f. validate_record_field f effective) (td_fields td)) (\<lambda>_.
                  bind_result (canonicalize_entity_fields te run td (tc_id call) (td_fields td) effective) (\<lambda>canonical.
                    Inr (if override_args \<noteq> None \<or> \<not> py_eq (JObj canonical) (JObj original)
                         then Some canonical else None))))))))"

section \<open>Reviews (utils.py)\<close>

definition denial_message_for_model :: "string option \<Rightarrow> string" where
  "denial_message_for_model reason =
     (case reason of
        Some r \<Rightarrow> if r = [] then ''The user declined this action, so it was not performed. No reason was given.''
          else ''The user declined this action, so it was not performed. Reason: '' @ r
      | None \<Rightarrow> ''The user declined this action, so it was not performed. No reason was given.'')"

definition approval_review_required :: app_error where
  "approval_review_required = AppValidationError ''Review the changed details before approving this action.''"

definition matches_review :: "tool_env \<Rightarrow> tool_field \<Rightarrow> json \<Rightarrow> json \<Rightarrow> bool" where
  "matches_review te f selected reviewed =
     (if tf_format f = FEntity \<and> selected = JNull then True
      else if tf_format f \<notin> {FEntity, FEntityList} then py_eq selected reviewed
      else if tf_format f = FEntityList \<and> (selected = JNull \<or> reviewed = JNull)
      then selected = JNull \<and> reviewed = JNull
      else case (case tf_entity_kind f of None \<Rightarrow> None | Some k \<Rightarrow> if k = [] then None else to_identity te k) of
             None \<Rightarrow> False
           | Some identity \<Rightarrow>
               if reviewed = JNull then False
               else if tf_format f = FEntity
               then (case (identity selected, identity reviewed) of (Some a, Some b) \<Rightarrow> py_eq a b | _ \<Rightarrow> False)
               else (case (selected, reviewed) of
                       (JArr xs, JArr ys) \<Rightarrow>
                         (case (those (map identity xs), those (map identity ys)) of
                            (Some us, Some vs) \<Rightarrow> list_all2 py_eq us vs | _ \<Rightarrow> False)
                     | _ \<Rightarrow> False))"

fun validate_review_fields ::
    "tool_env \<Rightarrow> tool_definition \<Rightarrow> pydict \<Rightarrow> pydict \<Rightarrow> string list \<Rightarrow> app_error + unit" where
  "validate_review_fields te td args display [] = Inr ()"
| "validate_review_fields te td args display (k # ks) =
     (case find (\<lambda>f. tf_key f = k) (td_fields td) of
        None \<Rightarrow> Inl (RuntimeError ''StopIteration'')
      | Some f \<Rightarrow>
          if matches_review te f (field_value args k) (field_value display k)
          then validate_review_fields te td args display ks
          else Inl approval_review_required)"

definition validate_retained_review :: "tool_env \<Rightarrow> direct_node \<Rightarrow> pydict \<Rightarrow> app_error + unit" where
  "validate_retained_review te leaf args =
     (case to_tool te (tc_name (dn_call leaf)) of
        None \<Rightarrow> Inr ()
      | Some td \<Rightarrow>
          if td_review_fields td = [] then Inr ()
          else case dict_get (dn_metadata leaf) ''display_args'' of
                 Some (JObj display) \<Rightarrow>
                   if dict_get display ''_approval_display_error'' \<noteq> None then Inl approval_review_required
                   else validate_review_fields te td args display (td_review_fields td)
               | _ \<Rightarrow> Inl approval_review_required)"

end
