(* ===== verification/Approval_Decisions.thy ===== *)
theory Approval_Decisions
  imports Approval_Overrides
begin

text \<open>
  Turning a reviewer's submission into the results that the suspended runs will continue with
  (\<^verbatim>\<open>services/agent_runs/compile_approval_decisions.py\<close>): every pending leaf gets exactly one decision,
  checked against what was shown and against the saved history, before anything is written.
\<close>

definition refresh_required :: app_error where
  "refresh_required =
     ConflictError ''The pending approvals changed. Refresh the conversation before reviewing them.''"

section \<open>Matching decisions with leaves\<close>

definition resolve_decisions ::
    "approval_env \<Rightarrow> approval_graph \<Rightarrow> approval_leaf list \<Rightarrow> resume_request \<Rightarrow>
     app_error + (uuid \<rightharpoonup> resume_decision)" where
  "resolve_decisions env g leaves payload =
     (if length (rs_decisions payload) \<noteq> length leaves \<or> length leaves > MAX_PROJECTION_LEAVES
      then Inl refresh_required
      else bind_result (project_approval_graph env g) (\<lambda>projection.
        (let expected = map_of (rev (map (\<lambda>p. (pa_approval_id p, pa_tool_call_id p)) (as_approvals projection)));
             keys = map rd_approval_id (rs_decisions payload)
         in if rs_revision payload \<noteq> as_revision projection then Inl refresh_required
            else if \<not> distinct keys \<or>
               list_ex (\<lambda>d. expected (rd_approval_id d) \<noteq> Some (rd_tool_call_id d)) (rs_decisions payload)
            then Inl refresh_required
            else Inr (map_of (map (\<lambda>d. (rd_approval_id d, d)) (rs_decisions payload))))))"

definition validate_history_call :: "approval_env \<Rightarrow> agent_run \<Rightarrow> tool_call \<Rightarrow> app_error + unit" where
  "validate_history_call env run call =
     bind_result (load_suspended_run_state env run) (\<lambda>st.
       (case filter (\<lambda>p. case p of CallPart c \<Rightarrow> tc_id c = tc_id call | ReturnPart i \<Rightarrow> i = tc_id call | OtherPart \<Rightarrow> False)
           (concat (su_history st)) of
          [CallPart c] \<Rightarrow>
            if tc_name c \<noteq> tc_name call then Inl refresh_required
            else bind_result (proposal_digest env (JObj (ae_args_dict env c))) (\<lambda>a.
                 bind_result (proposal_digest env (JObj (ae_args_dict env call))) (\<lambda>b.
                   if a \<noteq> b then Inl refresh_required else Inr ()))
        | _ \<Rightarrow> Inl refresh_required))"

text \<open>\<^verbatim>\<open>next(call for call in approvals if ...)\<close>; there is always one for a leaf of the graph.\<close>

definition approval_call :: "approval_env \<Rightarrow> agent_run \<Rightarrow> string \<Rightarrow> app_error + tool_call" where
  "approval_call env run i =
     bind_result (load_suspended_run_state env run) (\<lambda>st.
       (case find (\<lambda>c. tc_id c = i) (dr_approvals (su_requests st)) of
          None \<Rightarrow> Inl (RuntimeError ''StopIteration'') | Some c \<Rightarrow> Inr c))"

definition validate_native_history :: "approval_env \<Rightarrow> agent_run \<Rightarrow> approval_leaf \<Rightarrow> app_error + unit" where
  "validate_native_history env run leaf =
     (case leaf of
        DirectLeaf d \<Rightarrow> validate_history_call env run (dn_call d)
      | WorkflowLeaf d outer cs \<Rightarrow>
          bind_result (approval_call env run outer) (validate_history_call env run))"

section \<open>The results\<close>

definition no_results :: deferred_results where
  "no_results = \<lparr>dv_approvals = [], dv_metadata = []\<rparr>"

definition set_verdict :: "string \<Rightarrow> tool_verdict \<Rightarrow> deferred_results \<Rightarrow> deferred_results" where
  "set_verdict i v r = r\<lparr>dv_approvals := AList.update i v (dv_approvals r)\<rparr>"

definition set_metadata :: "string \<Rightarrow> pydict \<Rightarrow> deferred_results \<Rightarrow> deferred_results" where
  "set_metadata i m r = r\<lparr>dv_metadata := AList.update i m (dv_metadata r)\<rparr>"

text \<open>\<^verbatim>\<open>build_code_mode_decision_metadata\<close>.\<close>

definition code_mode_decision_metadata ::
    "pydict \<Rightarrow> bool \<Rightarrow> pydict \<Rightarrow> string \<Rightarrow> string option \<Rightarrow> string option \<Rightarrow> pydict" where
  "code_mode_decision_metadata metadata approved effective args_sha256 message reason =
     dict_set ''code_mode_decision'' (JObj
       [(''nested_tool_call_id'', if_none (dict_get metadata ''nested_tool_call_id'') JNull),
        (''decision'', JStr (if approved then ''approved'' else ''denied'')),
        (''effective_args'', JObj effective),
        (''args_sha256'', JStr args_sha256),
        (''message'', json_opt message),
        (''reason'', json_opt reason)]) metadata"

definition digest_args :: "approval_env \<Rightarrow> pydict \<Rightarrow> string" where
  "digest_args env args = e_sha256 (ae_run env) (canonical_json (JObj args))"

definition add_leaf_result ::
    "approval_env \<Rightarrow> approval_leaf \<Rightarrow> resume_decision \<Rightarrow> pydict option \<Rightarrow> deferred_results \<Rightarrow> deferred_results" where
  "add_leaf_result env leaf decision canonical r =
     (case leaf of
        WorkflowLeaf d outer cs \<Rightarrow>
          (let effective = if_none canonical (ae_args_dict env (dn_call d))
           in set_metadata outer (code_mode_decision_metadata (dn_metadata d) (rd_approved decision) effective
                (digest_args env effective)
                (if rd_approved decision then None else Some (denial_message_for_model (rd_message decision)))
                (if rd_approved decision then None else rd_message decision))
                (set_verdict outer (ToolApproved None) r))
      | DirectLeaf d \<Rightarrow>
          (let i = tc_id (dn_call d)
           in if rd_approved decision then set_verdict i (ToolApproved canonical) r
              else set_metadata i [(''reason'', json_opt (rd_message decision))]
                (set_verdict i (ToolDenied (denial_message_for_model (rd_message decision))) r)))"

definition reviewed_override :: "pydict \<Rightarrow> app_error + pydict option" where
  "reviewed_override metadata =
     (case dict_get metadata ''reviewed_args'' of
        None \<Rightarrow> Inr None | Some JNull \<Rightarrow> Inr None | Some (JObj d) \<Rightarrow> Inr (Some d)
      | Some _ \<Rightarrow> Inl (ValueError ''reviewed_args''))"

definition decide_leaf ::
    "approval_env \<Rightarrow> tool_env \<Rightarrow> agent_run \<Rightarrow> direct_node \<Rightarrow> resume_decision \<Rightarrow> app_error + pydict option" where
  "decide_leaf env te owner leaf decision =
     (if \<not> rd_approved decision then Inr None
      else bind_result (case rd_override decision of Some d \<Rightarrow> Inr (Some d) | None \<Rightarrow> reviewed_override (dn_metadata leaf))
        (\<lambda>override. bind_result (validate_and_canonicalize_override_args env te owner (dn_call leaf) override) (\<lambda>canonical.
           (let args = (case canonical of
                  Some c \<Rightarrow> if c = [] then ae_args_dict env (dn_call leaf) else c
                | None \<Rightarrow> ae_args_dict env (dn_call leaf))
            in bind_result (validate_retained_review te leaf args) (\<lambda>_. Inr canonical)))))"

type_synonym run_results = "(uuid \<times> deferred_results) list"

definition results_of :: "run_results \<Rightarrow> uuid \<Rightarrow> deferred_results" where
  "results_of R i = if_none (map_of R i) no_results"

fun compile_leaves ::
    "approval_env \<Rightarrow> tool_env \<Rightarrow> (uuid \<rightharpoonup> agent_run) \<Rightarrow> (uuid \<rightharpoonup> resume_decision) \<Rightarrow> approval_leaf list \<Rightarrow> run_results \<Rightarrow>
     app_error + run_results" where
  "compile_leaves env te runs decisions [] R = Inr R"
| "compile_leaves env te runs decisions (leaf # rest) R =
     (case runs (dn_owner (leaf_direct leaf)) of
        None \<Rightarrow> Inl (RuntimeError ''KeyError'')
      | Some owner \<Rightarrow>
          bind_result (validate_native_history env owner leaf) (\<lambda>_.
          (case decisions (leaf_identity env leaf) of
             None \<Rightarrow> Inl (RuntimeError ''KeyError'')
           | Some decision \<Rightarrow>
               bind_result (decide_leaf env te owner (leaf_direct leaf) decision) (\<lambda>canonical.
                 compile_leaves env te runs decisions rest
                   (AList.update (ar_id owner) (add_leaf_result env leaf decision canonical (results_of R (ar_id owner))) R)))))"

text \<open>A delegated call is approved for its parent with the child's decisions attached.\<close>

fun attach_children ::
    "approval_env \<Rightarrow> agent_run \<Rightarrow> suspended_state \<Rightarrow> run_results \<Rightarrow> graph_node list \<Rightarrow> deferred_results \<Rightarrow>
     app_error + deferred_results" where
  "attach_children env main st R [] r = Inr r"
| "attach_children env main st R (LeafNode leaf # rest) r = attach_children env main st R rest r"
| "attach_children env main st R (DelegatedNode node # rest) r =
     (case gn_child_run_id node of
        None \<Rightarrow> Inl (invalid_approval_state ''Delegated approval ownership is unavailable'')
      | Some child \<Rightarrow>
          (case find (\<lambda>c. tc_id c = gn_parent_tool_call_id node) (dr_approvals (su_requests st)) of
             None \<Rightarrow> Inl (RuntimeError ''StopIteration'')
           | Some call \<Rightarrow>
               bind_result (validate_history_call env main call) (\<lambda>_.
               (case (map_of (dr_metadata (su_requests st)) (gn_parent_tool_call_id node), map_of R child) of
                  (Some metadata, Some results) \<Rightarrow>
                    attach_children env main st R rest
                      (set_metadata (gn_parent_tool_call_id node)
                        (dict_set ''child_deferred_tool_results'' (JObj (ae_results_out env results)) metadata)
                        (set_verdict (gn_parent_tool_call_id node) (ToolApproved None) r))
                | _ \<Rightarrow> Inl (RuntimeError ''KeyError'')))))"

definition compile_approval_decisions ::
    "approval_env \<Rightarrow> tool_env \<Rightarrow> uuid \<Rightarrow> uuid \<Rightarrow> approval_graph \<Rightarrow> (uuid \<rightharpoonup> agent_run) \<Rightarrow> resume_request \<Rightarrow>
     app_error + deferred_results" where
  "compile_approval_decisions env te actor workspace g runs payload =
     (case runs (gr_root_run_id g) of
        None \<Rightarrow> Inl (invalid_approval_state ''Approval ownership is unavailable'')
      | Some main \<Rightarrow>
          if ar_user_id main \<noteq> actor \<or> ar_workspace_id main \<noteq> workspace
          then Inl (invalid_approval_state ''Approval ownership is unavailable'')
          else
            bind_result (build_approval_graph env main runs) (\<lambda>current.
            bind_result (project_approval_graph env current) (\<lambda>projection.
            bind_result (project_approval_graph env g) (\<lambda>shown.
              (if shown \<noteq> projection then Inl refresh_required
               else
                 bind_result (resolve_decisions env current (graph_leaves current) payload) (\<lambda>decisions.
                 bind_result (proposal_digest env (dump_request env (rs_decisions payload) (rs_revision payload))) (\<lambda>_.
                 bind_result (compile_leaves env te runs decisions (graph_leaves current) []) (\<lambda>R.
                 bind_result (load_suspended_run_state env main) (\<lambda>st.
                 bind_result (attach_children env main st R (gr_nodes current) (results_of R (ar_id main))) (\<lambda>r.
                 bind_result (proposal_digest env (JObj (ae_results_out env r))) (\<lambda>_. Inr r))))))))))) "

end
