(* ===== verification/Approval_Flow.thy ===== *)
theory Approval_Flow
  imports Approval_Decisions
begin

text \<open>
  The transactions of an approval: suspending a run (\<^verbatim>\<open>services/agents/runtime/run_persistence.py\<close>), its
  deadline (\<^verbatim>\<open>approval_expiry.py\<close>), reviewing a proposal (\<^verbatim>\<open>review_approval.py\<close>), accepting decisions
  (\<^verbatim>\<open>resume_run_stream.py\<close>, \<^verbatim>\<open>reserve_approval_continuation.py\<close>), starting the accepted continuation
  (\<^verbatim>\<open>claim_approval_continuation.py\<close>), starting a specialist's share of it (\<^verbatim>\<open>claim_child_approval.py\<close>), and
  the sweep of expired waits. All under \<^verbatim>\<open>services/agent_runs\<close> unless a path is given.
\<close>

datatype approval_audit =
    ApprovalAccepted uuid uuid uuid string nat nat
  | ApprovalStarted uuid uuid uuid
  | ApprovalReviewed uuid uuid uuid string uuid

record approval_db =
  ap_db :: run_db
  ap_audits :: "approval_audit list"

definition put_run :: "timestamp \<Rightarrow> agent_run \<Rightarrow> run_db \<Rightarrow> run_db" where
  "put_run now r db = db\<lparr>agent_runs := write_row ar_id (r\<lparr>ar_updated_at := now\<rparr>) (agent_runs db)\<rparr>"

section \<open>Suspending (run_persistence.py)\<close>

definition scoped_children :: "agent_run \<Rightarrow> run_db \<Rightarrow> agent_run list" where
  "scoped_children main db =
     filter (\<lambda>r. ar_parent_run_id r = Some (ar_id main) \<and> ar_workspace_id r = ar_workspace_id main \<and>
                 ar_user_id r = ar_user_id main \<and> \<not> ar_deleted r) (agent_runs db)"

definition runs_by_id :: "agent_run list \<Rightarrow> uuid \<rightharpoonup> agent_run" where
  "runs_by_id rs = map_of (map (\<lambda>r. (ar_id r, r)) rs)"

definition set_revision :: "string \<Rightarrow> agent_run \<Rightarrow> agent_run" where
  "set_revision revision run =
     (case dict_get (or_empty (ar_metadata_json run)) ''approval_state'' of
        Some (JObj d) \<Rightarrow> run\<lparr>ar_metadata_json := Some (dict_set ''approval_state''
            (JObj (dict_set ''approval_revision'' (JStr revision) d)) (or_empty (ar_metadata_json run)))\<rparr>
      | _ \<Rightarrow> run)"

text \<open>
  \<open>invocation\<close> is the invocation that reports its usage, None when there is no usage event. The first result
  is False when the run was taken over or has ended, so nothing is suspended. The messages and the usage
  that are stored with it are not modelled.
\<close>

definition persist_suspended_run ::
    "approval_env \<Rightarrow> timestamp \<Rightarrow> uuid \<Rightarrow> uuid \<Rightarrow> string option \<Rightarrow> messages \<Rightarrow> deferred_requests \<Rightarrow> approval_db \<Rightarrow>
     app_error + bool \<times> approval_db" where
  "persist_suspended_run env now fresh i invocation history requests s =
     (case row_by_id ar_id i (agent_runs (ap_db s)) of
        None \<Rightarrow> Inl (NotFoundError ''Agent run not found'')
      | Some run \<Rightarrow>
          if invocation \<noteq> None \<and> ar_owner_instance_id run \<noteq> None \<and> ar_owner_instance_id run \<noteq> invocation
          then Inr (False, s)
          else if is_terminal (ar_status run) then Inr (False, s)
          else if ar_status run \<noteq> RunRunning then Inl (ConflictError ''Agent run is no longer running'')
          else
            (let run1 = run\<lparr>ar_metadata_json := Some (build_suspended_run_metadata env fresh run
                          (ar_conversation_id run) history requests)\<rparr>
             in bind_result (mark_run_awaiting_approval (ae_run env) now i (put_run now run1 (ap_db s))) (\<lambda>(run2, db2).
                  if ar_parent_run_id run2 \<noteq> None then Inr (True, s\<lparr>ap_db := db2\<rparr>)
                  else
                    bind_result (build_approval_graph env run2 (runs_by_id (scoped_children run2 db2))) (\<lambda>g.
                    bind_result (project_approval_graph env g) (\<lambda>projection.
                      Inr (True, s\<lparr>ap_db := put_run now (set_revision (as_revision projection) run2) db2\<rparr>))))))"

section \<open>The deadline (approval_expiry.py)\<close>

definition min_list_option :: "timestamp list \<Rightarrow> timestamp option" where
  "min_list_option ts = (case ts of [] \<Rightarrow> None | t # us \<Rightarrow> Some (foldl min t us))"

definition approval_family_deadline ::
    "agent_settings \<Rightarrow> agent_run list \<Rightarrow> int option \<Rightarrow> app_error + timestamp option" where
  "approval_family_deadline cfg family expiry_days =
     (let days = if_none expiry_days (AGENT_RUN_APPROVAL_EXPIRY_DAYS cfg)
      in if days = 0 then Inr None
         else if days < 0 then Inl (ValueError ''expiry_days must be greater than or equal to zero'')
         else Inr (min_list_option (map (\<lambda>r. ar_updated_at r + timedelta_days days)
                (filter (\<lambda>r. ar_status r = RunAwaitingApproval) family))))"

definition read_approval_family_deadline ::
    "agent_settings \<Rightarrow> agent_run \<Rightarrow> run_db \<Rightarrow> app_error + timestamp option" where
  "read_approval_family_deadline cfg run db =
     (let root_id = if_none (ar_parent_run_id run) (ar_id run);
          family = filter (\<lambda>r. (ar_id r = root_id \<or> ar_parent_run_id r = Some root_id) \<and>
              ar_workspace_id r = ar_workspace_id run \<and> ar_user_id r = ar_user_id run \<and> \<not> ar_deleted r) (agent_runs db)
      in case find (\<lambda>r. ar_id r = root_id) family of
           None \<Rightarrow> Inr None
         | Some main \<Rightarrow> if ar_status main \<noteq> RunAwaitingApproval then Inr None
             else approval_family_deadline cfg family None)"

definition saved_batch :: "agent_run \<Rightarrow> json option" where
  "saved_batch run =
     (case dict_get (or_empty (ar_metadata_json run)) ''approval_state'' of
        Some (JObj d) \<Rightarrow> dict_get d ''approval_batch_id'' | _ \<Rightarrow> None)"

definition has_live_approval_reservation ::
    "approval_env \<Rightarrow> agent_run \<Rightarrow> agent_run list option \<Rightarrow> timestamp \<Rightarrow> bool" where
  "has_live_approval_reservation env main family now =
     (case load_approval_continuation env main of
        Inl _ \<Rightarrow> False
      | Inr c \<Rightarrow>
          (case family of
             None \<Rightarrow> True
           | Some members \<Rightarrow>
               (let children = runs_by_id (filter (\<lambda>r. ar_parent_run_id r = Some (ar_id main)) members)
                in list_all (\<lambda>(child, batch). case children child of
                     None \<Rightarrow> False
                   | Some r \<Rightarrow> ar_status r = RunAwaitingApproval \<longrightarrow>
                       saved_batch r = Some (JStr (ae_text env batch))) (cn_child_batches c))) \<and>
          ar_owner_instance_id main = Some (ae_text env (cn_owner c)) \<and>
          ar_owner_instance_id main \<noteq> Some [] \<and> ar_status main = RunRunning \<and>
          null_gt (ar_lease_expires_at main) now \<and>
          (case ar_started_at main of None \<Rightarrow> False | Some t \<Rightarrow>
             t + timedelta_seconds (AGENT_RUN_MAX_DURATION_SECONDS (e_settings (ae_run env))) > now))"

section \<open>The root of an approval (require_root_approval.py)\<close>

definition require_root_approval :: "agent_run \<Rightarrow> app_error + unit" where
  "require_root_approval run =
     (if ar_parent_run_id run = None \<and> ar_delegation_depth run = 0 then Inr ()
      else Inl (ConflictError ''Review these approvals in the main conversation.''))"

section \<open>Reserving (reserve_approval_continuation.py)\<close>

fun child_batches_of :: "approval_env \<Rightarrow> (uuid \<rightharpoonup> agent_run) \<Rightarrow> graph_node list \<Rightarrow> app_error + (uuid \<times> uuid) list" where
  "child_batches_of env runs [] = Inr []"
| "child_batches_of env runs (LeafNode leaf # rest) = child_batches_of env runs rest"
| "child_batches_of env runs (DelegatedNode node # rest) =
     (case gn_child_run_id node of
        None \<Rightarrow> child_batches_of env runs rest
      | Some child \<Rightarrow>
          (case runs child of
             None \<Rightarrow> Inl (RuntimeError ''KeyError'')
           | Some r \<Rightarrow>
               bind_result (load_suspended_run_state env r) (\<lambda>st.
               bind_result (child_batches_of env runs rest) (\<lambda>bs. Inr ((child, su_batch st) # bs)))))"

definition reserve_approval_continuation ::
    "approval_env \<Rightarrow> timestamp \<Rightarrow> uuid \<Rightarrow> uuid \<Rightarrow> agent_run \<Rightarrow> approval_graph \<Rightarrow> (uuid \<rightharpoonup> agent_run) \<Rightarrow> resume_request \<Rightarrow>
     string \<Rightarrow> deferred_results \<Rightarrow> approval_db \<Rightarrow> app_error + approval_continuation \<times> approval_db" where
  "reserve_approval_continuation env now generation owner run g runs payload revision results s =
     bind_result (resume_request_digest env payload) (\<lambda>digest.
     bind_result (child_batches_of env runs (gr_nodes g)) (\<lambda>batches.
       (let c = \<lparr>cn_generation = generation, cn_owner = owner, cn_revision = revision, cn_request_digest = digest,
              cn_child_batches = batches, cn_claimed = [], cn_results = ae_results_out env results,
              cn_phase = Reserved\<rparr>
        in if \<not> hex64 revision \<or> \<not> hex64 digest \<or> length batches > MAX_PROJECTION_LEAVES
           then Inl (ValueError ''ApprovalContinuation'')
           else
             bind_result (store_approval_continuation env c run) (\<lambda>run1.
             bind_result (start_agent_run_with_lease (ae_run env) (ar_id run) (ae_text env owner) now now None
                 (put_run now run1 (ap_db s))) (\<lambda>(run2, db2).
               Inr (c, s\<lparr>ap_db := db2, ap_audits := ap_audits s @
                 [ApprovalAccepted (ar_workspace_id run) (ar_id run) generation revision
                    (length (rs_decisions payload)) (length batches)]\<rparr>))))))"

section \<open>Accepting decisions (resume_run_stream.py)\<close>

text \<open>
  The result of the request together with what it committed: a refusal may commit the settlement of the
  family. The messages of the two errors after which the saved work needs recovery are compared
  literally, as the source does.
\<close>

definition needs_recovery :: "string \<Rightarrow> bool" where
  "needs_recovery message \<longleftrightarrow>
     message = ''Saved workflow state is invalid'' \<or> starts_with ''Delegated approval child is '' message"

definition settle_and_refuse ::
    "approval_env \<Rightarrow> timestamp \<Rightarrow> uuid \<Rightarrow> string \<Rightarrow> string \<Rightarrow> app_error \<Rightarrow> approval_db \<Rightarrow>
     (app_error + 'a) \<times> approval_db" where
  "settle_and_refuse env now i code message refusal s =
     (case settle_run_family (ae_run env) now i RunFailed (Some code) (Some message) None (ap_db s) of
        Inl e \<Rightarrow> (Inl e, s)
      | Inr (changed, db) \<Rightarrow> (Inl refusal, s\<lparr>ap_db := db\<rparr>))"

definition projected_graph ::
    "approval_env \<Rightarrow> uuid \<Rightarrow> uuid \<Rightarrow> uuid \<Rightarrow> run_db \<Rightarrow> app_error + approval_graph \<times> approval_response" where
  "projected_graph env actor workspace i db =
     bind_result (load_approval_graph env actor workspace i db) (\<lambda>g.
     bind_result (project_approval_graph env g) (\<lambda>p. Inr (g, p)))"

definition accept_decisions ::
    "approval_env \<Rightarrow> tool_env \<Rightarrow> timestamp \<Rightarrow> uuid \<Rightarrow> uuid \<Rightarrow> uuid \<Rightarrow> uuid \<Rightarrow> agent_run \<Rightarrow> approval_graph \<Rightarrow>
     approval_response \<Rightarrow> resume_request \<Rightarrow> json option \<Rightarrow> approval_db \<Rightarrow> app_error + approval_continuation \<times> approval_db" where
  "accept_decisions env te now generation owner actor workspace run g projection payload context_json s =
     (let runs = runs_by_id (lock_run_family (ar_id run) (ap_db s))
      in bind_result (compile_approval_decisions env te actor workspace g runs payload) (\<lambda>results.
         bind_result (reserve_approval_continuation env now generation owner run g runs payload
             (as_revision projection) results s) (\<lambda>(c, s1).
           (case (context_json, row_by_id ar_id (ar_id run) (agent_runs (ap_db s1))) of
              (Some v, Some r) \<Rightarrow> Inr (c, s1\<lparr>ap_db := put_run now
                  (r\<lparr>ar_metadata_json := Some (dict_set ''audit_context'' v (or_empty (ar_metadata_json r)))\<rparr>) (ap_db s1)\<rparr>)
            | _ \<Rightarrow> Inr (c, s1)))))"

text \<open>\<open>members\<close> lists the stored memberships as workspace and user.\<close>

definition resume_agent_run ::
    "approval_env \<Rightarrow> tool_env \<Rightarrow> timestamp \<Rightarrow> uuid \<Rightarrow> uuid \<Rightarrow> (uuid \<times> uuid) list \<Rightarrow> uuid \<Rightarrow> uuid \<Rightarrow> uuid \<Rightarrow>
     resume_request \<Rightarrow> json option \<Rightarrow> approval_db \<Rightarrow> (app_error + approval_continuation) \<times> approval_db" where
  "resume_agent_run env te now generation owner members actor workspace i payload context_json s =
     (case find (\<lambda>r. ar_id r = i \<and> ar_workspace_id r = workspace \<and> ar_user_id r = actor \<and> \<not> ar_deleted r)
         (agent_runs (ap_db s)) of
        None \<Rightarrow> (Inl (NotFoundError ''Agent run not found''), s)
      | Some run \<Rightarrow>
          (case require_root_approval run of
             Inl e \<Rightarrow> (Inl e, s)
           | Inr _ \<Rightarrow>
               (let family = lock_run_family i (ap_db s)
                in if family = [] then (Inl (ConflictError ''Parent run is no longer active''), s)
                   else if dict_get (or_empty (ar_metadata_json run)) ''approval_continuation'' \<noteq> None
                   then (Inl (case bind_result (load_approval_continuation env run) (\<lambda>c.
                             bind_result (resume_request_digest env payload) (\<lambda>d. Inr (c, d))) of
                           Inl e \<Rightarrow> e
                         | Inr (c, d) \<Rightarrow> ConflictError ''This approval has already been reserved. Refresh the conversation.''), s)
                   else if ar_status run \<noteq> RunAwaitingApproval
                   then (Inl (ConflictError ''Agent run is not awaiting approval''), s)
                   else if (workspace, actor) \<notin> set members
                   then (Inl (NotFoundError ''Workspace membership not found''), s)
                   else
                     (case approval_family_deadline (e_settings (ae_run env)) family None of
                        Inl e \<Rightarrow> (Inl e, s)
                      | Inr deadline \<Rightarrow>
                          if null_le deadline now
                          then settle_and_refuse env now i ''approval_expired''
                            ''These approvals expired before they were accepted.''
                            (ConflictError ''These approvals have expired. Refresh the conversation.'') s
                          else
                            (case projected_graph env actor workspace i (ap_db s) of
                               Inl (ConflictError message) \<Rightarrow>
                                 if needs_recovery message
                                 then settle_and_refuse env now i ''agent_run_resume_requires_recovery''
                                   ''Review the previous actions before continuing this conversation.''
                                   (ConflictError ''The saved approvals need review before this conversation can continue.'') s
                                 else (Inl (ConflictError message), s)
                             | Inl e \<Rightarrow> (Inl e, s)
                             | Inr (g, projection) \<Rightarrow>
                                 (case accept_decisions env te now generation owner actor workspace run g projection
                                     payload context_json s of
                                    Inl e \<Rightarrow> (Inl e, s) | Inr (c, s') \<Rightarrow> (Inr c, s')))))))"

section \<open>Starting the continuation (claim_approval_continuation.py)\<close>

definition claim_approval_continuation ::
    "approval_env \<Rightarrow> timestamp \<Rightarrow> uuid \<Rightarrow> string \<Rightarrow> approval_db \<Rightarrow>
     app_error + (suspended_state \<times> deferred_results) option \<times> approval_db" where
  "claim_approval_continuation env now i owner s =
     (case lock_run_family i (ap_db s) of
        [] \<Rightarrow> Inl (ConflictError ''The approval root is unavailable'')
      | run # _ \<Rightarrow>
          if ar_id run \<noteq> i then Inl (ConflictError ''The approval root is unavailable'')
          else
            bind_result (require_execution_owner run owner now) (\<lambda>_.
            bind_result (load_approval_continuation env run) (\<lambda>c.
              (if ae_text env (cn_owner c) \<noteq> owner
               then Inl (ConflictError ''The approval continuation belongs to another owner'')
               else if cn_phase c = Started then Inr (None, s)
               else
                 bind_result (load_suspended_run_state env run) (\<lambda>st.
                 (case ae_results_in env (JObj (cn_results c)) of
                    None \<Rightarrow> Inl (ValueError ''DeferredToolResults'')
                  | Some results \<Rightarrow>
                      bind_result (store_approval_continuation env (c\<lparr>cn_phase := Started\<rparr>) run) (\<lambda>run1.
                        Inr (Some (st, results), s\<lparr>ap_db := put_run now run1 (ap_db s),
                          ap_audits := ap_audits s @
                            [ApprovalStarted (ar_workspace_id run) (ar_id run) (cn_generation c)]\<rparr>)))))))) "

section \<open>Starting a specialist's share (claim_child_approval.py)\<close>

definition recovery_required_error :: app_error where
  "recovery_required_error = RuntimeError ''Review the previous actions before continuing this conversation.''"

definition saved_child_decision :: "approval_continuation \<Rightarrow> string \<Rightarrow> pydict option" where
  "saved_child_decision c parent_tool_call_id =
     (case dict_get (cn_results c) ''metadata'' of
        Some (JObj m) \<Rightarrow>
          (case dict_get m parent_tool_call_id of Some (JObj d) \<Rightarrow> Some d | None \<Rightarrow> Some [] | _ \<Rightarrow> None)
      | None \<Rightarrow> Some []
      | _ \<Rightarrow> None)"

definition claim_child_approval ::
    "approval_env \<Rightarrow> timestamp \<Rightarrow> agent_run \<Rightarrow> agent_run \<Rightarrow> string \<Rightarrow> string \<Rightarrow> string \<Rightarrow> deferred_results \<Rightarrow> approval_db \<Rightarrow>
     app_error + approval_db" where
  "claim_child_approval env now main child parent_tool_call_id root_owner child_owner results s =
     bind_result (require_execution_owner main root_owner now) (\<lambda>_.
     bind_result (load_approval_continuation env main) (\<lambda>c.
       (if cn_phase c \<noteq> Started \<or> ae_text env (cn_owner c) \<noteq> root_owner \<or>
           ar_parent_run_id child \<noteq> Some (ar_id main) \<or> ar_status child \<noteq> RunAwaitingApproval \<or>
           ar_id child \<notin> fst ` set (cn_child_batches c) \<or> ar_id child \<in> set (cn_claimed c)
        then Inl recovery_required_error
        else
          bind_result (load_suspended_run_state env child) (\<lambda>st.
            (if map_of (cn_child_batches c) (ar_id child) \<noteq> Some (su_batch st) then Inl recovery_required_error
             else
               (case saved_child_decision c parent_tool_call_id of
                  None \<Rightarrow> Inl recovery_required_error
                | Some metadata \<Rightarrow>
                    if dict_get metadata ''child_run_id'' \<noteq> Some (JStr (ae_text env (ar_id child)))
                    then Inl recovery_required_error
                    else
                      bind_result (proposal_digest env
                          (if_none (dict_get metadata ''child_deferred_tool_results'') JNull)) (\<lambda>a.
                      bind_result (proposal_digest env (JObj (ae_results_out env results))) (\<lambda>b.
                        (if a \<noteq> b then Inl recovery_required_error
                         else
                           bind_result (store_approval_continuation env (c\<lparr>cn_claimed := cn_claimed c @ [ar_id child]\<rparr>) main)
                             (\<lambda>main1.
                           bind_result (start_agent_run_with_lease (ae_run env) (ar_id child) child_owner now now None
                               (put_run now main1 (ap_db s))) (\<lambda>(child1, db1).
                             Inr (s\<lparr>ap_db := db1\<rparr>)))))))))))) "

text \<open>The locks and lookups of \<^verbatim>\<open>delegation/resume_approved_delegate_run.py\<close> around it.\<close>

definition resume_child ::
    "approval_env \<Rightarrow> timestamp \<Rightarrow> uuid \<Rightarrow> uuid \<Rightarrow> uuid \<Rightarrow> uuid \<Rightarrow> string \<Rightarrow> string \<Rightarrow> string \<Rightarrow> deferred_results \<Rightarrow>
     approval_db \<Rightarrow> app_error + approval_db" where
  "resume_child env now parent_id child_id workspace user parent_tool_call_id root_owner child_owner results s =
     (case lock_run_family parent_id (ap_db s) of
        [] \<Rightarrow> Inl (ConflictError ''Parent run is no longer executable'')
      | main # _ \<Rightarrow>
          if ar_status main \<noteq> RunRunning then Inl (ConflictError ''Parent run is no longer executable'')
          else
            bind_result (require_execution_owner main root_owner now) (\<lambda>_.
            (case find (\<lambda>r. ar_id r = child_id \<and> ar_parent_run_id r = Some parent_id \<and> ar_workspace_id r = workspace \<and>
                          ar_user_id r = user \<and> \<not> ar_deleted r) (agent_runs (ap_db s)) of
               None \<Rightarrow> Inl (NotFoundError ''Delegated child run not found'')
             | Some child \<Rightarrow>
                 bind_result (load_suspended_run_state env child) (\<lambda>_.
                   claim_child_approval env now main child parent_tool_call_id root_owner child_owner results s))))"

end
