(* ===== verification/Approval_Review.thy ===== *)
theory Approval_Review
  imports Approval_Flow
begin

text \<open>
  Reviewing one proposal (\<^verbatim>\<open>review_approval.py\<close>), listing what waits (\<^verbatim>\<open>list_pending_approvals.py\<close>,
  \<^verbatim>\<open>get_approval_state.py\<close>), the calls that were certainly declined (\<^verbatim>\<open>continuation_state.py\<close>) and the sweep
  of expired waits (\<^verbatim>\<open>services/jobs/handlers/sweep_expired_agent_run_approvals.py\<close>).
\<close>

section \<open>Reviewing a proposal\<close>

record review_request =
  rv_approval_id :: uuid
  rv_revision :: string
  rv_override :: pydict

definition dump_review :: "approval_env \<Rightarrow> review_request \<Rightarrow> json" where
  "dump_review env q =
     JObj [(''approval_id'', JStr (ae_text env (rv_approval_id q))), (''approval_revision'', JStr (rv_revision q)),
           (''override_args'', JObj (rv_override q))]"

text \<open>\<^verbatim>\<open>state["deferred_tool_requests"]["metadata"][key] = value\<close>; None for a \<^verbatim>\<open>KeyError\<close>.\<close>

definition set_request_metadata :: "string \<Rightarrow> pydict \<Rightarrow> agent_run \<Rightarrow> agent_run option" where
  "set_request_metadata key value run =
     (let metadata = or_empty (ar_metadata_json run)
      in case dict_get metadata ''approval_state'' of
           Some (JObj st) \<Rightarrow>
             (case dict_get st ''deferred_tool_requests'' of
                Some (JObj requests) \<Rightarrow>
                  (case dict_get requests ''metadata'' of
                     Some (JObj m) \<Rightarrow> Some (run\<lparr>ar_metadata_json := Some (dict_set ''approval_state''
                       (JObj (dict_set ''deferred_tool_requests''
                         (JObj (dict_set ''metadata'' (JObj (dict_set key (JObj value) m)) requests)) st)) metadata)\<rparr>)
                   | _ \<Rightarrow> None)
              | _ \<Rightarrow> None)
         | _ \<Rightarrow> None)"

definition reviewable :: "tool_env \<Rightarrow> direct_node \<Rightarrow> bool" where
  "reviewable te leaf \<longleftrightarrow>
     (case to_tool te (tc_name (dn_call leaf)) of
        None \<Rightarrow> False | Some td \<Rightarrow> td_review_fields td \<noteq> [] \<and> td_has_display td)"

text \<open>The rows keep their \<^verbatim>\<open>updated_at\<close>, from which the deadline is computed.\<close>

definition keep_rows :: "agent_run list \<Rightarrow> run_db \<Rightarrow> run_db" where
  "keep_rows rs db = db\<lparr>agent_runs := foldl (\<lambda>T r. write_row ar_id r T) (agent_runs db) rs\<rparr>"

definition apply_review ::
    "approval_env \<Rightarrow> tool_env \<Rightarrow> uuid \<Rightarrow> agent_run list \<Rightarrow> approval_leaf \<Rightarrow> review_request \<Rightarrow> approval_db \<Rightarrow>
     app_error + approval_response \<times> approval_db" where
  "apply_review env te i family selected payload s =
     (let leaf = leaf_direct selected; call = dn_call leaf
      in case find (\<lambda>r. ar_id r = dn_owner leaf) family of
           None \<Rightarrow> Inl (RuntimeError ''StopIteration'')
         | Some owner \<Rightarrow>
             if \<not> reviewable te leaf then Inl approval_review_required
             else
               bind_result (proposal_digest env (dump_review env payload)) (\<lambda>_.
               bind_result (validate_and_canonicalize_override_args env te owner call (Some (rv_override payload)))
                 (\<lambda>canonical.
               bind_result (to_display te owner (tc_name call) (tc_id call) (if_none canonical [])) (\<lambda>display.
               bind_result (proposal_digest env (JObj display)) (\<lambda>_.
                 (case set_request_metadata (if_none (leaf_outer selected) (tc_id call))
                     (dict_set ''reviewed_args'' (JObj (if_none canonical []))
                       (dict_set ''display_args'' (JObj display) (dn_metadata leaf))) owner of
                    None \<Rightarrow> Inl (RuntimeError ''KeyError'')
                  | Some owner' \<Rightarrow>
                      (let family' = map (\<lambda>r. if ar_id r = ar_id owner then owner' else r) family
                       in case find (\<lambda>r. ar_id r = i) family' of
                            None \<Rightarrow> Inl (RuntimeError ''StopIteration'')
                          | Some main \<Rightarrow>
                              bind_result (build_approval_graph env main (runs_by_id family')) (\<lambda>g.
                              bind_result (project_approval_graph env g) (\<lambda>updated.
                                Inr (updated, s\<lparr>ap_db := keep_rows [owner', set_revision (as_revision updated) main] (ap_db s),
                                  ap_audits := ap_audits s @ [ApprovalReviewed (ar_workspace_id main) i
                                    (rv_approval_id payload) (as_revision updated) (ar_id owner)]\<rparr>))))))))))"

definition review_agent_run_approval ::
    "approval_env \<Rightarrow> tool_env \<Rightarrow> timestamp \<Rightarrow> uuid \<times> uuid \<Rightarrow> uuid \<Rightarrow> uuid \<Rightarrow> uuid \<Rightarrow> review_request \<Rightarrow> approval_db \<Rightarrow>
     app_error + approval_response \<times> approval_db" where
  "review_agent_run_approval env te now membership actor workspace i payload s =
     (case find (\<lambda>r. ar_id r = i \<and> ar_workspace_id r = workspace \<and> ar_user_id r = actor \<and> \<not> ar_deleted r)
         (agent_runs (ap_db s)) of
        None \<Rightarrow> Inl (NotFoundError ''Agent run not found'')
      | Some run \<Rightarrow>
          if membership \<noteq> (actor, workspace) then Inl (NotFoundError ''Agent run not found'')
          else
            bind_result (require_root_approval run) (\<lambda>_.
              (let family = lock_run_family i (ap_db s)
               in bind_result (approval_family_deadline (e_settings (ae_run env)) family None) (\<lambda>deadline.
                    if null_le deadline now then Inl (ConflictError ''These approvals have expired.'')
                    else
                      bind_result (projected_graph env actor workspace i (ap_db s)) (\<lambda>(g, projection).
                        if rv_revision payload \<noteq> as_revision projection
                        then Inl (ConflictError ''The pending approvals changed. Refresh the conversation.'')
                        else
                          (case find (\<lambda>(leaf, item). pa_approval_id item = rv_approval_id payload)
                              (zip (graph_leaves g) (as_approvals projection)) of
                             None \<Rightarrow> Inl approval_review_required
                           | Some (leaf, item) \<Rightarrow> apply_review env te i family leaf payload s))))))"

section \<open>Reading what waits\<close>

definition get_agent_run_approval_state ::
    "approval_env \<Rightarrow> uuid \<Rightarrow> uuid \<Rightarrow> uuid \<Rightarrow> run_db \<Rightarrow> app_error + approval_response" where
  "get_agent_run_approval_state env actor workspace i db =
     bind_result (load_approval_graph env actor workspace i db) (project_approval_graph env)"

record pending_run =
  pr_run_id :: uuid
  pr_conversation_id :: uuid
  pr_agent_id :: uuid
  pr_awaiting_since :: timestamp
  pr_tool_names :: "string list"
  pr_delegated_agents :: "string list"

fun pending_items ::
    "approval_env \<Rightarrow> uuid \<Rightarrow> uuid \<Rightarrow> run_db \<Rightarrow> agent_run list \<Rightarrow> app_error + pending_run list" where
  "pending_items env actor workspace db [] = Inr []"
| "pending_items env actor workspace db (run # rest) =
     (case get_agent_run_approval_state env actor workspace (ar_id run) db of
        Inl (ConflictError m) \<Rightarrow> pending_items env actor workspace db rest
      | Inl e \<Rightarrow> Inl e
      | Inr p \<Rightarrow> bind_result (pending_items env actor workspace db rest) (\<lambda>items.
          Inr (\<lparr>pr_run_id = ar_id run, pr_conversation_id = ar_conversation_id run, pr_agent_id = ar_agent_id run,
                pr_awaiting_since = ar_updated_at run, pr_tool_names = map pa_name (as_approvals p),
                pr_delegated_agents = map dl_child_agent_name (as_delegations p)\<rparr> # items)))"

definition waiting_roots :: "uuid \<Rightarrow> uuid \<Rightarrow> run_db \<Rightarrow> agent_run list" where
  "waiting_roots actor workspace db =
     filter (\<lambda>r. ar_status r = RunAwaitingApproval \<and> ar_workspace_id r = workspace \<and> ar_user_id r = actor \<and>
                 \<not> ar_deleted r \<and> ar_parent_run_id r = None) (agent_runs db)"

text \<open>The title of the conversation and the name of the agent are left out of an item.\<close>

definition list_pending_agent_run_approvals ::
    "approval_env \<Rightarrow> uuid \<Rightarrow> uuid \<Rightarrow> nat \<Rightarrow> run_db \<Rightarrow> app_error + pending_run list \<times> nat" where
  "list_pending_agent_run_approvals env actor workspace limit db =
     (let waiting = waiting_roots actor workspace db;
          rows = take limit (sort_key (\<lambda>r. (ar_updated_at r, ar_id r))
            (filter (\<lambda>r. ar_conversation_id r \<in> cv_id ` set (conversations db)) waiting))
      in bind_result (pending_items env actor workspace db rows) (\<lambda>items. Inr (items, length waiting)))"

section \<open>Calls that were certainly declined\<close>

definition denied_in :: "deferred_results \<Rightarrow> string list" where
  "denied_in r =
     List.map_filter (\<lambda>(i, v). case v of ToolDenied _ \<Rightarrow> Some i | ToolApproved _ \<Rightarrow> None) (dv_approvals r) @
     List.map_filter (\<lambda>(i, m).
       case (map_of (dv_approvals r) i, code_mode_nested_call m, dict_get m ''code_mode_decision'') of
         (Some (ToolApproved _), Some nested, Some (JObj d)) \<Rightarrow>
           if dict_get d ''decision'' = Some (JStr ''denied'') \<and>
              dict_get d ''nested_tool_call_id'' = Some (JStr (tc_id nested)) then Some (tc_id nested) else None
       | _ \<Rightarrow> None) (dv_metadata r)"

definition denied_approval_calls :: "approval_env \<Rightarrow> agent_run \<Rightarrow> agent_run \<Rightarrow> string list" where
  "denied_approval_calls env main run =
     (case load_approval_continuation env main of
        Inl _ \<Rightarrow> []
      | Inr c \<Rightarrow>
          (case ae_results_in env (JObj (cn_results c)) of
             None \<Rightarrow> []
           | Some results \<Rightarrow>
               if ar_id run = ar_id main then denied_in results
               else case load_suspended_run_state env run of
                      Inl _ \<Rightarrow> []
                    | Inr st \<Rightarrow>
                        if ar_parent_run_id run \<noteq> Some (ar_id main) \<or>
                           map_of (cn_child_batches c) (ar_id run) \<noteq> Some (su_batch st) then []
                        else
                          (case List.map_filter (\<lambda>(i, m).
                                if dict_get m ''child_run_id'' = Some (JStr (ae_text env (ar_id run)))
                                then dict_get m ''child_deferred_tool_results'' else None) (dv_metadata results) of
                             [v] \<Rightarrow> (case ae_results_in env v of None \<Rightarrow> [] | Some r \<Rightarrow> denied_in r)
                           | _ \<Rightarrow> [])))"

section \<open>Expiring waits\<close>

definition next_expired :: "timestamp \<Rightarrow> uuid list \<Rightarrow> run_db \<Rightarrow> agent_run option" where
  "next_expired cutoff visited db =
     (case sort_key (\<lambda>r. (ar_updated_at r, ar_id r))
         (filter (\<lambda>r. \<not> ar_deleted r \<and> ar_status r = RunAwaitingApproval \<and> ar_updated_at r \<le> cutoff \<and>
                      ar_id r \<notin> set visited) (agent_runs db)) of
        [] \<Rightarrow> None | r # _ \<Rightarrow> Some r)"

text \<open>Why a family is settled: its error code and message, or None when it is left alone.\<close>

definition expiry_verdict ::
    "approval_env \<Rightarrow> timestamp \<Rightarrow> int \<Rightarrow> agent_run list \<Rightarrow> (string \<times> string) option" where
  "expiry_verdict env now days family =
     (case family of
        [] \<Rightarrow> None
      | main # _ \<Rightarrow>
          if has_live_approval_reservation env main (Some family) now then None
          else if dict_get (or_empty (ar_metadata_json main)) ''approval_continuation'' \<notin> {None, Some JNull} \<and>
              ar_status main = RunRunning
          then Some (''agent_run_resume_requires_recovery'',
                     ''The approved work stopped before its result could be confirmed.'')
          else if ar_status main = RunAwaitingApproval \<and>
              (case approval_family_deadline (e_settings (ae_run env)) family (Some days) of
                 Inr d \<Rightarrow> null_le d now | Inl _ \<Rightarrow> False)
          then Some (''approval_expired'',
                     ''This approval expired after '' @ int_text days @
                     '' days, so the action wasn't taken. Send a new message to try again.'')
          else None)"

text \<open>
  The loop commits after every family, so what it did before an error stays. It runs while fewer than
  \<open>batch\<close> runs were visited.
\<close>

function sweep_loop ::
    "approval_env \<Rightarrow> timestamp \<Rightarrow> timestamp \<Rightarrow> int \<Rightarrow> nat \<Rightarrow> uuid list \<Rightarrow> uuid list \<Rightarrow> approval_db \<Rightarrow>
     (app_error + uuid list) \<times> approval_db" where
  "sweep_loop env now cutoff days batch visited expired s =
     (if card (set visited) < batch
      then
        (case next_expired cutoff visited (ap_db s) of
           None \<Rightarrow> (Inr expired, s)
         | Some run \<Rightarrow>
             (let family = lock_run_family (ar_id run) (ap_db s); visited' = visited @ ar_id run # map ar_id family
              in case expiry_verdict env now days family of
                   None \<Rightarrow> sweep_loop env now cutoff days batch visited' expired s
                 | Some (code, message) \<Rightarrow>
                     (case settle_run_family (ae_run env) now (ar_id (hd family)) RunFailed (Some code) (Some message)
                         None (ap_db s) of
                        Inl e \<Rightarrow> (Inl e, s)
                      | Inr (changed, db') \<Rightarrow>
                          sweep_loop env now cutoff days batch visited' (expired @ map ar_id changed) (s\<lparr>ap_db := db'\<rparr>))))
      else (Inr expired, s))"
  by pat_completeness auto

lemma next_expired_row:
  "next_expired cutoff visited db = Some r \<Longrightarrow>
     r \<in> set (agent_runs db) \<and> ar_id r \<notin> set visited \<and> ar_status r = RunAwaitingApproval \<and> ar_updated_at r \<le> cutoff"
proof -
  let ?k = "\<lambda>r. (ar_updated_at r, ar_id r)"
  let ?P = "\<lambda>r. \<not> ar_deleted r \<and> ar_status r = RunAwaitingApproval \<and> ar_updated_at r \<le> cutoff \<and> ar_id r \<notin> set visited"
  assume "next_expired cutoff visited db = Some r"
  then obtain rs where "sort_key ?k (filter ?P (agent_runs db)) = r # rs"
    by (auto simp: next_expired_def split: list.splits)
  then have "r \<in> set (sort_key ?k (filter ?P (agent_runs db)))" by (simp only: list.set_intros)
  then show ?thesis by simp
qed

lemma visited_grows:
  assumes "i \<notin> set visited" and "card (set visited) < n"
  shows "n - card (set (visited @ i # rest)) < n - card (set visited)"
proof -
  have "card (insert i (set visited)) \<le> card (set (visited @ i # rest))" by (rule card_mono) auto
  with assms show ?thesis by simp
qed

termination sweep_loop
  by (relation "measure (\<lambda>(env, now, cutoff, days, batch, visited, expired, s). batch - card (set visited))")
     (auto simp only: in_measure case_prod_conv wf_measure intro!: visited_grows dest: next_expired_row)

declare sweep_loop.simps [simp del]

definition sweep_expired_agent_run_approvals ::
    "approval_env \<Rightarrow> timestamp \<Rightarrow> int option \<Rightarrow> int \<Rightarrow> approval_db \<Rightarrow> (app_error + uuid list) \<times> approval_db" where
  "sweep_expired_agent_run_approvals env now expiry_days batch_size s =
     (let days = if_none expiry_days (AGENT_RUN_APPROVAL_EXPIRY_DAYS (e_settings (ae_run env)))
      in if days < 0 then (Inl (ValueError ''expiry_days must be greater than or equal to zero''), s)
         else if batch_size \<le> 0 then (Inl (ValueError ''batch_size must be greater than zero''), s)
         else if days = 0 then (Inr [], s)
         else sweep_loop env now (now - timedelta_days days) days (nat batch_size) [] [] s)"

end
