(* ===== verification/Approval_Metadata.thy ===== *)
theory Approval_Metadata
  imports Run_System Approval_Review
begin

text \<open>
  What the operations of the run component do to a run's metadata: they keep it, or clear the artifacts of
  a suspension when the run ends. Stated once as a locale over any relation with that property, and used
  for the reservation and for the suspended state; then the round trips of both through the metadata.
\<close>

section \<open>Metadata through the run operations\<close>

locale metadata_relation =
  fixes M :: "pydict \<Rightarrow> pydict \<Rightarrow> bool"
  assumes M_refl: "M m m" and M_trans: "M a b \<Longrightarrow> M b c \<Longrightarrow> M a c"
    and M_cleared: "M m (dict_pop ''approval_continuation'' (dict_pop ''code_mode_state'' (dict_pop ''approval_state'' m)))"
begin

definition related :: "run_db \<Rightarrow> run_db \<Rightarrow> bool" where
  "related db db' \<longleftrightarrow> (\<forall>k r'. row_by_id ar_id k (agent_runs db') = Some r' \<longrightarrow>
     (\<exists>r. row_by_id ar_id k (agent_runs db) = Some r \<and> M (or_empty (ar_metadata_json r)) (or_empty (ar_metadata_json r'))))"

lemma related_refl [intro]: "related db db"
  by (auto simp: related_def intro: M_refl)

lemma related_trans: "related a b \<Longrightarrow> related b c \<Longrightarrow> related a c"
  unfolding related_def by (meson M_trans)

lemma cleared: "M (or_empty (ar_metadata_json r)) (or_empty (clear_suspended_run_metadata r))"
  using M_cleared [of "or_empty (ar_metadata_json r)"] by (auto simp: clear_suspended_run_metadata_def Let_def)

lemma related_write:
  assumes "row_by_id ar_id i (agent_runs db) = Some r" and "ar_id r' = i"
    and "M (or_empty (ar_metadata_json r)) (or_empty (ar_metadata_json r'))"
    and "agent_runs db' = write_row ar_id r' (agent_runs db)"
  shows "related db db'"
  unfolding related_def
proof (intro allI impI)
  fix k q
  assume q: "row_by_id ar_id k (agent_runs db') = Some q"
  show "\<exists>r. row_by_id ar_id k (agent_runs db) = Some r \<and> M (or_empty (ar_metadata_json r)) (or_empty (ar_metadata_json q))"
    using assms q M_refl by (cases "k = i") (auto simp: row_by_id_write_row split: if_splits)
qed

lemma related_update:
  assumes "\<And>r. ar_id (f r) = ar_id r" and "\<And>r. ar_metadata_json (f r) = ar_metadata_json r"
  shows "related db (db\<lparr>agent_runs := update_where P f (agent_runs db)\<rparr>)"
proof -
  have row: "row_by_id ar_id k (update_where P f T) = map_option (\<lambda>r. if P r then f r else r) (row_by_id ar_id k T)"
    for k T by (rule row_update.row_by_id_update_where) (unfold_locales, rule assms(1))
  show ?thesis using assms(2) by (auto simp: related_def row intro: M_refl)
qed

lemma stamp_metadata:
  "M (or_empty (ar_metadata_json r)) (or_empty (ar_metadata_json (stamp_transition now t c m v w r)))"
  using cleared [of r] M_refl by (simp add: stamp_transition_def Let_def)

lemma transition_related:
  assumes "transition_run_status env now i t c m out cj db = Inr (r', db')"
  shows "related db db'"
  using assms
proof (cases rule: transition_cases)
  case same
  then show ?thesis by auto
next
  case (moved r v w)
  have "ar_id r' = i" using moved(5) row_by_id_Some [OF moved(1)] by simp
  then show ?thesis
    by (rule related_write [OF moved(1)]) (use moved(5,6) stamp_metadata in simp_all)
qed

lemma related_jobs: "related db db' \<Longrightarrow> agent_runs db = agent_runs da \<Longrightarrow> related da db'"
  by (simp add: related_def)

lemma settle_loop_related:
  "settle_loop env now i status v runs changed db = Inr (changed', db') \<Longrightarrow> related db db'"
proof (induction runs arbitrary: changed db)
  case Nil
  then show ?case by auto
next
  case (Cons run runs)
  show ?case
  proof (cases "to_settle i run")
    case False
    from Cons.prems have "settle_loop env now i status v runs changed db = Inr (changed', db')"
      unfolding settle_loop_skip [OF False] .
    then show ?thesis by (rule Cons.IH)
  next
    case True
    obtain T c m cj run' db2 where
      tr: "transition_run_status env now (ar_id run) status c m None cj (db\<lparr>run_jobs := T\<rparr>) = Inr (run', db2)"
      and rest: "settle_loop env now i status v runs (changed @ [run']) db2 = Inr (changed', db')"
      by (rule settle_loop_step [OF True Cons.prems])
    have "related db db2" using transition_related [OF tr] by (rule related_jobs) simp
    with Cons.IH [OF rest] show ?thesis by (blast intro: related_trans)
  qed
qed

lemma settle_related:
  assumes "settle_run_family env now i status c m owner db = Inr (changed, db')"
  shows "related db db'"
  using assms by (auto simp: settle_run_family_def Let_def split: if_splits option.splits dest: settle_loop_related)

lemma reap_loop_related:
  "reap_loop env now pc dl is failed db = Inr (failed', db') \<Longrightarrow> related db db'"
proof (induction "is" arbitrary: failed db)
  case Nil
  then show ?case by auto
next
  case (Cons i "is")
  then show ?case
    by (auto simp: bind_result_Inr split: option.splits dest!: settle_related intro: related_trans)
qed

lemma claim_related:
  assumes "claim_agent_run_execution env i owner now ttl db = Inr (r', db')"
  shows "related db db'"
proof -
  obtain r where r: "row_by_id ar_id i (agent_runs db) = Some r" "db' = db\<lparr>agent_runs := write_row ar_id r' (agent_runs db)\<rparr>"
      "ar_id r' = ar_id r" "ar_metadata_json r' = ar_metadata_json r"
    using assms by (auto simp: claim_agent_run_execution_def Let_def split: option.splits if_splits)
  then show ?thesis using row_by_id_Some [OF r(1)] by (intro related_write [OF r(1)]) (auto intro: M_refl)
qed

lemma start_with_lease_related:
  assumes "start_agent_run_with_lease env i owner now clock ttl db = Inr (r', db')"
  shows "related db db'"
  using assms
proof (cases rule: start_with_lease_cases)
  case (claimed r1 db1)
  from claim_related [OF claimed(1)] transition_related [OF claimed(2)] show ?thesis by (rule related_trans)
next
  case (held r)
  from held(3) show ?thesis by (rule transition_related)
qed

lemma committed_related: "(\<And>x db'. r = Inr (x, db') \<Longrightarrow> related db db') \<Longrightarrow> related db (committed db r)"
  by (auto simp: committed_def split: sum.splits)

lemma run_step_related:
  assumes "\<And>now f q. e \<noteq> CreateRun now f q"
  shows "related db (run_step env db e)"
proof (cases e)
  case (CreateRun now f q)
  with assms show ?thesis by blast
next
  case (RenewRun i owner w u now ttl)
  then show ?thesis by (simp add: renew_agent_run_lease_def Let_def related_update)
next
  case (RecordUsage now i usage)
  then show ?thesis by (simp add: record_run_usage_def related_update)
next
  case (CompleteRun now held out cj)
  then show ?thesis
    by (auto simp: complete_agent_run_def split: if_splits dest: transition_related intro!: committed_related)
next
  case (ReapRuns now i c pg md n)
  then show ?thesis
    by (auto simp: reap_abandoned_runs_def Let_def dest: reap_loop_related intro!: committed_related)
next
  case (RequestCancel now a m w i)
  then show ?thesis
    by (auto simp: request_agent_run_cancellation_def bind_result_Inr split: option.splits if_splits
        dest: settle_related intro!: committed_related)
qed (auto simp: start_agent_run_def mark_run_awaiting_approval_def fail_agent_run_def cancel_agent_run_def
      dest: transition_related claim_related start_with_lease_related settle_related intro!: committed_related)

end

text \<open>An entry that only the approvals write is kept or dropped.\<close>

definition kept_or_dropped :: "string \<Rightarrow> pydict \<Rightarrow> pydict \<Rightarrow> bool" where
  "kept_or_dropped k m m' \<longleftrightarrow> dict_get m' k = dict_get m k \<or> dict_get m' k = None"

interpretation kept: metadata_relation "kept_or_dropped k" for k
  by unfold_locales (auto simp: kept_or_dropped_def)

end
