(* ===== verification/Approval_Roundtrip.thy ===== *)
theory Approval_Roundtrip
  imports Approval_Metadata
begin

text \<open>
  What is written into a run's metadata is what is read back: the suspended conversation, the reservation, and
  the digests that bind them to what was shown.
\<close>

lemma adapters_okD:
  assumes "adapters_ok env"
  shows "ae_parse_uuid env (ae_text env u) = Some u" and "ae_history_in env (ae_history_out env h) = Some h"
    and "ae_requests_in env (ae_requests_out env q) = Some q" and "ae_results_in env (JObj (ae_results_out env v)) = Some v"
  using assms by (auto simp: adapters_ok_def)

lemma ae_text_inj: "adapters_ok env \<Longrightarrow> ae_text env u = ae_text env v \<Longrightarrow> u = v"
  by (metis adapters_okD(1) option.inject)

section \<open>Digests\<close>

lemma proposal_digest_Inr:
  "proposal_digest env v = Inr d \<longleftrightarrow>
     length (canonical_json v) \<le> MAX_PROPOSAL_BYTES \<and> d = e_sha256 (ae_run env) (canonical_json v)"
  by (auto simp: proposal_digest_def Let_def)

lemma proposal_digest_conflict: "proposal_digest env v = Inl e \<Longrightarrow>
    e = ConflictError ''Saved approval proposal exceeds its size limit''"
  by (auto simp: proposal_digest_def Let_def invalid_approval_state_def split: if_splits)

section \<open>The suspended conversation\<close>

lemma suspended_roundtrip:
  assumes "adapters_ok env" and "ar_conversation_id run = conversation"
    and "ar_id run' = ar_id run" "ar_conversation_id run' = conversation" "ar_agent_id run' = ar_agent_id run"
    and "dict_get (or_empty (ar_metadata_json run')) ''approval_state'' =
         dict_get (build_suspended_run_metadata env fresh run conversation history requests) ''approval_state''"
  shows "load_suspended_run_state env run' = Inr \<lparr>su_history = history, su_requests = requests, su_batch = fresh\<rparr>"
  using assms(2-)
  by (simp add: load_suspended_run_state_def build_suspended_run_metadata_def validate_approval_identity_metadata_def
      dict_get_def [of "_ # _"] adapters_okD [OF assms(1)])

section \<open>The reservation\<close>

definition continuation_ok :: "approval_env \<Rightarrow> approval_continuation \<Rightarrow> bool" where
  "continuation_ok env c \<longleftrightarrow>
     hex64 (cn_revision c) \<and> hex64 (cn_request_digest c) \<and> distinct (map fst (cn_child_batches c)) \<and>
     length (cn_child_batches c) \<le> MAX_PROJECTION_LEAVES \<and> distinct (cn_claimed c) \<and>
     set (cn_claimed c) \<subseteq> fst ` set (cn_child_batches c) \<and> ae_results_in env (JObj (cn_results c)) \<noteq> None"

lemma those_map_Some: "(\<And>x. x \<in> set xs \<Longrightarrow> f x = Some (g x)) \<Longrightarrow> those (map f xs) = Some (map g xs)"
  by (induction xs) auto

lemma update_append: "k \<notin> fst ` set m \<Longrightarrow> AList.update k v m = m @ [(k, v)]"
  by (induction m) auto

lemma updates_distinct:
  "distinct (map fst (m @ ps)) \<Longrightarrow> foldl (\<lambda>m (k, b). AList.update k b m) m ps = m @ ps"
proof (induction ps arbitrary: m)
  case (Cons p ps)
  obtain k b where p: "p = (k, b)" by fastforce
  with Cons.prems have "AList.update k b m = m @ [(k, b)]" by (intro update_append) auto
  with Cons p show ?case by simp
qed simp

lemma read_batches_dump:
  assumes "adapters_ok env" and "distinct (map fst bs)"
  shows "read_batches env (Some (JObj (map (\<lambda>(k, v). (ae_text env k, JStr (ae_text env v))) bs))) = Some bs"
proof -
  let ?f = "\<lambda>(k, b). case (ae_parse_uuid env k, read_uuid env (Some b)) of (Some k', Some b') \<Rightarrow> Some (k', b') | _ \<Rightarrow> None"
  have "those (map ?f (map (\<lambda>(k, v). (ae_text env k, JStr (ae_text env v))) bs)) = Some bs"
    using those_map_Some [of bs "\<lambda>p. ?f (case p of (k, v) \<Rightarrow> (ae_text env k, JStr (ae_text env v)))" "\<lambda>p. p"]
    by (simp add: comp_def read_uuid_def adapters_okD [OF assms(1)] split: prod.splits)
  with updates_distinct [of "[]" bs] assms(2) show ?thesis by (simp add: read_batches_def)
qed

lemma read_claimed_dump:
  assumes "adapters_ok env"
  shows "read_claimed env (Some (JArr (map (\<lambda>u. JStr (ae_text env u)) us))) = Some us"
  using those_map_Some [of us "\<lambda>u. read_uuid env (Some (JStr (ae_text env u)))" "\<lambda>u. u"]
  by (simp add: read_claimed_def comp_def read_uuid_def adapters_okD [OF assms])

lemma read_phase_dump: "read_phase (Some (JStr (case p of Reserved \<Rightarrow> ''reserved'' | Started \<Rightarrow> ''started''))) = Some p"
  by (cases p) (simp_all add: read_phase_def)

lemma claimed_bounded:
  assumes "continuation_ok env c"
  shows "length (cn_claimed c) \<le> MAX_PROJECTION_LEAVES"
proof -
  have "length (cn_claimed c) = card (set (cn_claimed c))"
    using assms by (simp add: continuation_ok_def distinct_card)
  also have "\<dots> \<le> card (fst ` set (cn_child_batches c))"
    using assms by (intro card_mono) (auto simp: continuation_ok_def)
  also have "\<dots> \<le> length (cn_child_batches c)" by (metis card_length length_map list.set_map)
  finally show ?thesis using assms by (simp add: continuation_ok_def)
qed

lemma validate_dump:
  assumes "adapters_ok env" and "continuation_ok env c"
  shows "validate_continuation env (Some (JObj (dump_continuation env c))) = Some c"
proof -
  have fields: "fst ` set (dump_continuation env c) \<subseteq> continuation_fields"
    by (simp add: dump_continuation_def continuation_fields_def)
  have gets: "dict_get (dump_continuation env c) ''version'' = Some (JInt 1)"
    "dict_get (dump_continuation env c) ''generation'' = Some (JStr (ae_text env (cn_generation c)))"
    "dict_get (dump_continuation env c) ''owner_instance_id'' = Some (JStr (ae_text env (cn_owner c)))"
    "dict_get (dump_continuation env c) ''approval_revision'' = Some (JStr (cn_revision c))"
    "dict_get (dump_continuation env c) ''request_digest'' = Some (JStr (cn_request_digest c))"
    "dict_get (dump_continuation env c) ''child_batches'' =
       Some (JObj (map (\<lambda>(k, v). (ae_text env k, JStr (ae_text env v))) (cn_child_batches c)))"
    "dict_get (dump_continuation env c) ''claimed_child_ids'' = Some (JArr (map (\<lambda>u. JStr (ae_text env u)) (cn_claimed c)))"
    "dict_get (dump_continuation env c) ''deferred_tool_results'' = Some (JObj (cn_results c))"
    "dict_get (dump_continuation env c) ''phase'' =
       Some (JStr (case cn_phase c of Reserved \<Rightarrow> ''reserved'' | Started \<Rightarrow> ''started''))"
    by (simp_all add: dump_continuation_def dict_get_def)
  have c: "hex64 (cn_revision c)" "hex64 (cn_request_digest c)" "distinct (map fst (cn_child_batches c))"
    "length (cn_child_batches c) \<le> MAX_PROJECTION_LEAVES"
    using assms(2) by (simp_all add: continuation_ok_def)
  have uuid: "read_uuid env (Some (JStr (ae_text env u))) = Some u" for u
    by (simp add: read_uuid_def adapters_okD [OF assms(1)])
  have digest: "read_digest (Some (JStr s)) = Some s" if "hex64 s" for s using that by (simp add: read_digest_def)
  have claimed: "length (cn_claimed c) \<le> MAX_PROJECTION_LEAVES" by (rule claimed_bounded [OF assms(2)])
  show ?thesis
    using fields c(4) claimed
    by (simp add: validate_continuation_def gets uuid digest [OF c(1)] digest [OF c(2)] read_batches_dump [OF assms(1) c(3)]
        read_claimed_dump [OF assms(1)] read_phase_dump)
qed

text \<open>The reservation of a run, as raw JSON.\<close>

definition reservation_json :: "agent_run \<Rightarrow> json option" where
  "reservation_json run = dict_get (or_empty (ar_metadata_json run)) ''approval_continuation''"

lemma load_by_reservation:
  "reservation_json run' = reservation_json run \<Longrightarrow> load_approval_continuation env run' = load_approval_continuation env run"
  by (simp add: load_approval_continuation_def reservation_json_def)

lemma store_cases:
  assumes "store_approval_continuation env c run = Inr run'"
  shows "reservation_json run' = Some (JObj (dump_continuation env c))"
    and "length (canonical_json (JObj (dump_continuation env c))) \<le> MAX_PROPOSAL_BYTES"
    and "\<exists>m. run' = run\<lparr>ar_metadata_json := m\<rparr>"
    and "\<And>k. k \<noteq> ''approval_continuation'' \<Longrightarrow>
      dict_get (or_empty (ar_metadata_json run')) k = dict_get (or_empty (ar_metadata_json run)) k"
  using assms
  by (auto simp: store_approval_continuation_def bind_result_Inr proposal_digest_Inr reservation_json_def)

lemma load_dump:
  assumes "adapters_ok env" and "continuation_ok env c" and "reservation_json run = Some (JObj (dump_continuation env c))"
    and "length (canonical_json (JObj (dump_continuation env c))) \<le> MAX_PROPOSAL_BYTES"
  shows "load_approval_continuation env run = Inr c"
proof -
  obtain d where "proposal_digest env (JObj (dump_continuation env c)) = Inr d"
    using assms(4) proposal_digest_Inr by blast
  with assms(2,3) validate_dump [OF assms(1,2)] show ?thesis
    by (simp add: load_approval_continuation_def reservation_json_def continuation_ok_def)
qed

lemma store_load:
  assumes "adapters_ok env" and "continuation_ok env c" and "store_approval_continuation env c run = Inr run'"
    and "reservation_json run'' = reservation_json run'"
  shows "load_approval_continuation env run'' = Inr c"
  using load_dump [OF assms(1,2)] store_cases(1,2) [OF assms(3)] assms(4) by simp

lemma validate_ok:
  assumes "validate_continuation env v = Some c"
  shows "hex64 (cn_revision c)" "hex64 (cn_request_digest c)" "distinct (map fst (cn_child_batches c))"
    "length (cn_child_batches c) \<le> MAX_PROJECTION_LEAVES"
proof -
  have dist: "distinct (map fst (foldl (\<lambda>m (k, b). AList.update k b m) m ps))" if "distinct (map fst m)" for m :: "(uuid \<times> uuid) list" and ps
    using that by (induction ps arbitrary: m) (auto simp: distinct_update)
  have "distinct (map fst bs)" if "read_batches env w = Some bs" for w bs
    using that dist [of "[]"] by (auto simp: read_batches_def split: option.splits json.splits)
  moreover have "hex64 s" if "read_digest w = Some s" for w s
    using that by (auto simp: read_digest_def split: option.splits json.splits if_splits)
  ultimately show "hex64 (cn_revision c)" "hex64 (cn_request_digest c)" "distinct (map fst (cn_child_batches c))"
    "length (cn_child_batches c) \<le> MAX_PROJECTION_LEAVES"
    using assms by (auto simp: validate_continuation_def split: option.splits json.splits if_splits prod.splits)
qed

lemma load_ok:
  assumes "load_approval_continuation env run = Inr c"
  shows "continuation_ok env c"
  using assms validate_ok [of env "reservation_json run" c]
  by (auto simp: load_approval_continuation_def Let_def bind_result_Inr continuation_ok_def reservation_json_def
      split: option.splits if_splits)

end
