(* ===== verification/Approval_Leaves.thy ===== *)
theory Approval_Leaves
  imports Approval_Decisions
begin

text \<open>
  The shape of an approval graph and of its projection: whose calls the leaves are, that a specialist appears
  once, and that the projection lists the leaves in order.
\<close>

text \<open>The call of the suspended run that a leaf answers.\<close>

definition native_id :: "approval_leaf \<Rightarrow> string" where
  "native_id leaf = (case leaf_outer leaf of Some outer \<Rightarrow> outer | None \<Rightarrow> tc_id (dn_call (leaf_direct leaf)))"

definition leaf_owner :: "approval_leaf \<Rightarrow> uuid" where
  "leaf_owner leaf = dn_owner (leaf_direct leaf)"

lemma build_leaf_shape:
  assumes "build_leaf env run st call metadata = Inr leaf"
  shows "leaf_owner leaf = ar_id run" "native_id leaf = tc_id call" "dn_batch (leaf_direct leaf) = su_batch st"
    "dn_metadata (leaf_direct leaf) = metadata"
  using assms
  by (auto simp: build_leaf_def leaf_owner_def native_id_def bind_result_Inr split: if_splits option.splits)

lemma build_leaves_shape:
  "build_leaves env run st calls = Inr leaves \<Longrightarrow>
     map native_id leaves = map (tc_id \<circ> fst) calls \<and>
     (\<forall>l \<in> set leaves. leaf_owner l = ar_id run \<and> dn_batch (leaf_direct l) = su_batch st)"
  by (induction env run st calls arbitrary: leaves rule: build_leaves.induct)
     (auto simp: bind_result_Inr dest: build_leaf_shape)

lemma check_calls_fst: "check_calls st calls = Inr cs \<Longrightarrow> map fst cs = calls"
  by (induction st calls arbitrary: cs rule: check_calls.induct) (auto simp: bind_result_Inr)

lemma approval_calls_shape:
  assumes "approval_calls st = Inr cs"
  shows "map fst cs = dr_approvals (su_requests st)" "distinct (map (tc_id \<circ> fst) cs)" "cs \<noteq> []"
    "length cs \<le> MAX_PROJECTION_LEAVES"
proof -
  have fst: "map fst cs = dr_approvals (su_requests st)"
    and ok: "distinct (map tc_id (dr_approvals (su_requests st)))" "dr_approvals (su_requests st) \<noteq> []"
      "length (dr_approvals (su_requests st)) \<le> MAX_PROJECTION_LEAVES"
    using assms by (auto simp: approval_calls_def Let_def split: if_splits dest: check_calls_fst)
  show "map fst cs = dr_approvals (su_requests st)" by (rule fst)
  have "length cs = length (dr_approvals (su_requests st))" using fst length_map by metis
  moreover have "map (tc_id \<circ> fst) cs = map tc_id (dr_approvals (su_requests st))" using fst by (metis map_map)
  ultimately show "distinct (map (tc_id \<circ> fst) cs)" "cs \<noteq> []" "length cs \<le> MAX_PROJECTION_LEAVES" using ok by auto
qed

section \<open>Delegated nodes\<close>

text \<open>The specialist of a node that can be reviewed.\<close>

definition awaiting_node ::
    "approval_env \<Rightarrow> agent_run \<Rightarrow> (uuid \<rightharpoonup> agent_run) \<Rightarrow> delegated_node \<Rightarrow> agent_run \<Rightarrow> suspended_state \<Rightarrow> bool" where
  "awaiting_node env main children node child st \<longleftrightarrow>
     gn_status node = ChildAwaiting \<and>
     (\<exists>i. gn_child_run_id node = Some i \<and> children i = Some child \<and> i \<noteq> ar_id main) \<and>
     ar_parent_run_id child = Some (ar_id main) \<and> ar_status child = RunAwaitingApproval \<and>
     ar_workspace_id child = ar_workspace_id main \<and> ar_user_id child = ar_user_id main \<and>
     load_suspended_run_state env child = Inr st \<and>
     map native_id (gn_leaves node) = map tc_id (dr_approvals (su_requests st)) \<and>
     distinct (map native_id (gn_leaves node)) \<and> gn_leaves node \<noteq> [] \<and>
     (\<forall>l \<in> set (gn_leaves node). leaf_owner l = ar_id child \<and> dn_batch (leaf_direct l) = su_batch st)"

lemma delegated_node_shape:
  assumes "build_delegated_node env main call metadata children count = Inr node"
  shows "gn_parent_tool_call_id node = tc_id call"
    and "gn_leaves node = [] \<and> gn_delegation node = None \<and> gn_status node \<noteq> ChildAwaiting \<or>
      (\<exists>child st. awaiting_node env main children node child st)"
proof -
  have missing: "gn_leaves (unavailable_child c i s) = [] \<and> gn_delegation (unavailable_child c i s) = None \<and>
      gn_status (unavailable_child c i s) = s \<and> gn_parent_tool_call_id (unavailable_child c i s) = c" for c i s
    by (simp add: unavailable_child_def)
  show "gn_parent_tool_call_id node = tc_id call"
    using assms by (auto simp: build_delegated_node_def bind_result_Inr missing split: option.splits if_splits)
  show "gn_leaves node = [] \<and> gn_delegation node = None \<and> gn_status node \<noteq> ChildAwaiting \<or>
      (\<exists>child st. awaiting_node env main children node child st)"
  proof (cases "gn_status node = ChildAwaiting")
    case False
    with assms show ?thesis
      by (auto simp: build_delegated_node_def bind_result_Inr missing split: option.splits if_splits)
  next
    case True
    with assms obtain i child st calls leaves where i: "children i = Some child" "i \<noteq> ar_id main"
        "child_belongs env main child metadata" "ar_status child = RunAwaitingApproval"
        "load_suspended_run_state env child = Inr st" "approval_calls st = Inr calls"
        "build_leaves env child st calls = Inr leaves" "gn_child_run_id node = Some i" "gn_leaves node = leaves"
      by (auto simp: build_delegated_node_def bind_result_Inr missing split: option.splits if_splits)
    note calls = approval_calls_shape [OF i(6)] and leaves = build_leaves_shape [OF i(7)]
    have "map native_id leaves = map tc_id (dr_approvals (su_requests st))"
      using leaves calls(1) by (metis map_map)
    moreover have "distinct (map native_id leaves)" using leaves calls(2) by simp
    moreover have "leaves \<noteq> []" using leaves calls(3) by auto
    ultimately have "awaiting_node env main children node child st"
      using True i leaves unfolding awaiting_node_def child_belongs_def by auto
    then show ?thesis by blast
  qed
qed

section \<open>The nodes of a graph\<close>

definition node_child :: "graph_node \<Rightarrow> uuid option" where
  "node_child n = (case n of LeafNode l \<Rightarrow> None | DelegatedNode d \<Rightarrow> gn_child_run_id d)"

definition node_id :: "graph_node \<Rightarrow> string" where
  "node_id n = (case n of LeafNode l \<Rightarrow> native_id l | DelegatedNode d \<Rightarrow> gn_parent_tool_call_id d)"

definition node_ok :: "approval_env \<Rightarrow> agent_run \<Rightarrow> suspended_state \<Rightarrow> (uuid \<rightharpoonup> agent_run) \<Rightarrow> graph_node \<Rightarrow> bool" where
  "node_ok env main st children n \<longleftrightarrow>
     (case n of
        LeafNode l \<Rightarrow> leaf_owner l = ar_id main \<and> dn_batch (leaf_direct l) = su_batch st
      | DelegatedNode d \<Rightarrow> gn_leaves d = [] \<and> gn_delegation d = None \<and> gn_status d \<noteq> ChildAwaiting \<or>
          (\<exists>child cst. awaiting_node env main children d child cst))"

lemma graph_loop_shape:
  "graph_loop env main st children calls seen count = Inr nodes \<Longrightarrow>
     map node_id nodes = map (tc_id \<circ> fst) calls \<and> (\<forall>n \<in> set nodes. node_ok env main st children n) \<and>
     distinct (List.map_filter node_child nodes) \<and> set (List.map_filter node_child nodes) \<inter> set seen = {}"
proof (induction env main st children calls seen count arbitrary: nodes rule: graph_loop.induct)
  case (1 env main st children seen count)
  then show ?case by (simp add: List.map_filter_def)
next
  case (2 env main st children call metadata rest seen count)
  show ?case
  proof (cases "kind_is metadata DELEGATED_APPROVAL_KIND")
    case False
    with "2.prems" obtain leaf ns where leaf: "build_leaf env main st call metadata = Inr leaf"
        "graph_loop env main st children rest seen (count + 1) = Inr ns" "nodes = LeafNode leaf # ns"
      by (auto simp: bind_result_Inr)
    from "2.IH"(1) [OF False leaf(2)] build_leaf_shape [OF leaf(1)] leaf(3) show ?thesis
      by (simp add: node_id_def node_ok_def node_child_def map_filter_simps)
  next
    case True
    with "2.prems" obtain node ns where node: "build_delegated_node env main call metadata children count = Inr node"
        "\<not> (case gn_child_run_id node of None \<Rightarrow> False | Some i \<Rightarrow> i \<in> set seen)"
        "graph_loop env main st children rest (case gn_child_run_id node of None \<Rightarrow> seen | Some i \<Rightarrow> i # seen)
           (count + length (gn_leaves node)) = Inr ns" "nodes = DelegatedNode node # ns"
      by (auto simp: bind_result_Inr split: if_splits)
    from True have "\<not> \<not> kind_is metadata DELEGATED_APPROVAL_KIND" by simp
    from "2.IH"(2) [OF this node(2,3)] delegated_node_shape [OF node(1)] node(2,4) show ?thesis
      by (cases "gn_child_run_id node") (auto simp: node_id_def node_ok_def node_child_def map_filter_simps)
  qed
qed

lemma build_graph_shape:
  assumes "build_approval_graph env main children = Inr g"
  obtains st where "load_suspended_run_state env main = Inr st" "ar_status main = RunAwaitingApproval"
    "ar_parent_run_id main = None" "gr_root_run_id g = ar_id main" "gr_root_batch_id g = su_batch st"
    "map node_id (gr_nodes g) = map tc_id (dr_approvals (su_requests st))" "distinct (map node_id (gr_nodes g))"
    "\<And>n. n \<in> set (gr_nodes g) \<Longrightarrow> node_ok env main st children n"
    "distinct (List.map_filter node_child (gr_nodes g))"
proof -
  obtain st calls nodes where st: "load_suspended_run_state env main = Inr st" "approval_calls st = Inr calls"
      "graph_loop env main st children calls [] 0 = Inr nodes" "ar_parent_run_id main = None"
      "ar_status main = RunAwaitingApproval"
    and g: "g = \<lparr>gr_root_run_id = ar_id main, gr_conversation_id = ar_conversation_id main,
                  gr_root_batch_id = su_batch st, gr_nodes = nodes\<rparr>"
    using assms by (auto simp: build_approval_graph_def bind_result_Inr split: if_splits)
  note shape = graph_loop_shape [OF st(3)] and calls = approval_calls_shape [OF st(2)]
  have "map node_id nodes = map tc_id (dr_approvals (su_requests st))" using shape calls(1) by (metis map_map)
  with shape calls(2) st g show ?thesis by (intro that [of st]) simp_all
qed

lemma leaf_run:
  assumes "build_approval_graph env main children = Inr g" and "leaf \<in> set (graph_leaves g)"
  shows "ar_status main = RunAwaitingApproval \<and>
    (leaf_owner leaf = ar_id main \<or>
     (\<exists>i child. children i = Some child \<and> leaf_owner leaf = ar_id child \<and> ar_status child = RunAwaitingApproval))"
proof -
  obtain st where st: "ar_status main = RunAwaitingApproval"
      "\<And>n. n \<in> set (gr_nodes g) \<Longrightarrow> node_ok env main st children n"
    using build_graph_shape [OF assms(1)] by metis
  from assms(2) obtain n where n: "n \<in> set (gr_nodes g)" "leaf \<in> set (node_leaves n)"
    by (auto simp: graph_leaves_def)
  from st(2) [OF n(1)] n(2) st(1) show ?thesis
    by (cases n) (auto simp: node_ok_def awaiting_node_def)
qed

section \<open>The projection lists the leaves\<close>

lemma project_leaf_pending: "project_leaf env tp leaf d = Inr p \<Longrightarrow> pl_pending p = pending_of env tp leaf d"
  by (auto simp: project_leaf_def Let_def bind_result_Inr)

lemma project_leaves_pending:
  "project_leaves env tp d leaves = Inr ps \<Longrightarrow> map pl_pending ps = map (\<lambda>l. pending_of env tp l d) leaves"
  by (induction env tp d leaves arbitrary: ps rule: project_leaves.induct)
     (auto simp: bind_result_Inr dest: project_leaf_pending)

lemma pending_of_simps:
  "pa_approval_id (pending_of env tp leaf d) = leaf_identity env leaf"
  "pa_tool_call_id (pending_of env tp leaf d) = tc_id (dn_call (leaf_direct leaf))"
  by (simp_all add: pending_of_def Let_def)

lemma project_nodes_pending:
  "project_nodes env tp nodes = Inr (ps, ds) \<Longrightarrow>
     map (\<lambda>p. (pa_approval_id (pl_pending p), pa_tool_call_id (pl_pending p))) ps =
       map (\<lambda>l. (leaf_identity env l, tc_id (dn_call (leaf_direct l)))) (concat (map node_leaves nodes)) \<and>
     (\<forall>d. DelegatedNode d \<in> set nodes \<longrightarrow> gn_status d = ChildAwaiting)"
proof (induction env tp nodes arbitrary: ps ds rule: project_nodes.induct)
  case (1 env tp)
  then show ?case by simp
next
  case (2 env tp leaf rest)
  then obtain p qs where p: "project_leaf env tp leaf None = Inr p" "project_nodes env tp rest = Inr (qs, ds)"
      "ps = p # qs" by (auto simp: bind_result_Inr)
  from "2.IH" [OF p(2)] p(3) project_leaf_pending [OF p(1)] show ?case
    by (simp add: pending_of_simps)
next
  case (3 env tp node rest)
  have status: "gn_status node = ChildAwaiting" "gn_delegation node \<noteq> None"
    using "3.prems" by (cases "gn_status node"; cases "gn_delegation node"; simp)+
  then obtain d where "gn_delegation node = Some d" by blast
  with status(1) "3.prems" obtain ls qs es where d: "gn_status node = ChildAwaiting" "gn_delegation node = Some d"
      "project_leaves env tp (Some d) (gn_leaves node) = Inr ls" "project_nodes env tp rest = Inr (qs, es)"
      "ps = ls @ qs" by (auto simp: bind_result_Inr)
  have "map (\<lambda>p. (pa_approval_id (pl_pending p), pa_tool_call_id (pl_pending p))) ls =
      map (\<lambda>x. (pa_approval_id x, pa_tool_call_id x)) (map pl_pending ls)" by simp
  also have "\<dots> = map (\<lambda>l. (leaf_identity env l, tc_id (dn_call (leaf_direct l)))) (gn_leaves node)"
    unfolding project_leaves_pending [OF d(3)] by (simp add: pending_of_simps)
  finally show ?case using "3.IH" [OF HOL.refl d(1,2,4)] d by auto
qed

text \<open>The leaves with their identities, and no specialist that cannot be reviewed.\<close>

lemma project_graph_shape:
  assumes "project_approval_graph env g = Inr p"
  shows "map (\<lambda>a. (pa_approval_id a, pa_tool_call_id a)) (as_approvals p) =
      map (\<lambda>l. (leaf_identity env l, tc_id (dn_call (leaf_direct l)))) (graph_leaves g)"
    and "DelegatedNode d \<in> set (gr_nodes g) \<Longrightarrow> gn_status d = ChildAwaiting"
    and "as_run_id p = gr_root_run_id g" and "\<exists>v. as_revision p = e_sha256 (ae_run env) v"
proof -
  obtain ps ds revision where ps: "project_nodes env (gr_root_run_id g) (gr_nodes g) = Inr (ps, ds)"
      "approval_revision env (gr_root_run_id g) (gr_root_batch_id g)
         (map (\<lambda>p. (ae_text env (pa_approval_id (pl_pending p)), pl_fingerprint p)) ps) = Inr revision"
    and p: "as_approvals p = map pl_pending ps" "as_run_id p = gr_root_run_id g" "as_revision p = revision"
    using assms by (auto simp: project_approval_graph_def bind_result_Inr Let_def)
  note pending = project_nodes_pending [OF ps(1)]
  show "map (\<lambda>a. (pa_approval_id a, pa_tool_call_id a)) (as_approvals p) =
      map (\<lambda>l. (leaf_identity env l, tc_id (dn_call (leaf_direct l)))) (graph_leaves g)"
    using pending by (simp add: p graph_leaves_def comp_def)
  show "DelegatedNode d \<in> set (gr_nodes g) \<Longrightarrow> gn_status d = ChildAwaiting" using pending by blast
  show "as_run_id p = gr_root_run_id g" by (rule p(2))
  show "\<exists>v. as_revision p = e_sha256 (ae_run env) v"
    using ps(2) by (auto simp: p approval_revision_def proposal_digest_def Let_def split: if_splits)
qed

end
