(* ===== verification/Approval_Compiled.thy ===== *)
theory Approval_Compiled
  imports Approval_Leaves
begin

text \<open>
  What the compiler of decisions guarantees: every leaf is answered by one decision, and the results that a
  suspended run continues with hold, under the leaf's call, the verdict of that decision.
\<close>

section \<open>One leaf\<close>

definition leaf_verdict :: "approval_leaf \<Rightarrow> resume_decision \<Rightarrow> pydict option \<Rightarrow> tool_verdict" where
  "leaf_verdict leaf decision canonical =
     (case leaf of
        WorkflowLeaf d outer cs \<Rightarrow> ToolApproved None
      | DirectLeaf d \<Rightarrow> if rd_approved decision then ToolApproved canonical
                       else ToolDenied (denial_message_for_model (rd_message decision)))"

definition leaf_note :: "approval_env \<Rightarrow> approval_leaf \<Rightarrow> resume_decision \<Rightarrow> pydict option \<Rightarrow> pydict option" where
  "leaf_note env leaf decision canonical =
     (case leaf of
        WorkflowLeaf d outer cs \<Rightarrow>
          (let effective = if_none canonical (ae_args_dict env (dn_call d))
           in Some (code_mode_decision_metadata (dn_metadata d) (rd_approved decision) effective
                (digest_args env effective)
                (if rd_approved decision then None else Some (denial_message_for_model (rd_message decision)))
                (if rd_approved decision then None else rd_message decision)))
      | DirectLeaf d \<Rightarrow> if rd_approved decision then None
                       else Some [(''reason'', json_opt (rd_message decision))])"

lemma set_verdict_simps [simp]:
  "map_of (dv_approvals (set_verdict i v r)) k = (if k = i then Some v else map_of (dv_approvals r) k)"
  "dv_metadata (set_verdict i v r) = dv_metadata r"
  by (auto simp: set_verdict_def update_conv)

lemma set_metadata_simps [simp]:
  "map_of (dv_metadata (set_metadata i m r)) k = (if k = i then Some m else map_of (dv_metadata r) k)"
  "dv_approvals (set_metadata i m r) = dv_approvals r"
  by (auto simp: set_metadata_def update_conv)

lemma add_leaf_result_effect:
  "map_of (dv_approvals (add_leaf_result env leaf d c r)) k =
     (if k = native_id leaf then Some (leaf_verdict leaf d c) else map_of (dv_approvals r) k)"
  "map_of (dv_metadata (add_leaf_result env leaf d c r)) k =
     (if k = native_id leaf \<and> leaf_note env leaf d c \<noteq> None then leaf_note env leaf d c else map_of (dv_metadata r) k)"
  by (cases leaf; auto simp: add_leaf_result_def leaf_verdict_def leaf_note_def native_id_def Let_def)+

section \<open>All leaves\<close>

text \<open>\<open>answered\<close>: the results of its run hold the verdict of the decision on this leaf.\<close>

definition answered ::
    "approval_env \<Rightarrow> tool_env \<Rightarrow> (uuid \<rightharpoonup> agent_run) \<Rightarrow> (uuid \<rightharpoonup> resume_decision) \<Rightarrow> approval_leaf \<Rightarrow>
     deferred_results \<Rightarrow> bool" where
  "answered env te runs decisions leaf r \<longleftrightarrow>
     (\<exists>owner decision canonical. runs (leaf_owner leaf) = Some owner \<and>
        decisions (leaf_identity env leaf) = Some decision \<and>
        validate_native_history env owner leaf = Inr () \<and>
        decide_leaf env te owner (leaf_direct leaf) decision = Inr canonical \<and>
        map_of (dv_approvals r) (native_id leaf) = Some (leaf_verdict leaf decision canonical) \<and>
        (leaf_note env leaf decision canonical \<noteq> None \<longrightarrow>
           map_of (dv_metadata r) (native_id leaf) = leaf_note env leaf decision canonical))"

definition same_entry :: "string \<Rightarrow> deferred_results \<Rightarrow> deferred_results \<Rightarrow> bool" where
  "same_entry k r r' \<longleftrightarrow> map_of (dv_approvals r') k = map_of (dv_approvals r) k \<and>
     map_of (dv_metadata r') k = map_of (dv_metadata r) k"

lemma answered_same: "same_entry (native_id leaf) r r' \<Longrightarrow> answered env te runs decisions leaf r \<Longrightarrow>
    answered env te runs decisions leaf r'"
  by (simp add: answered_def same_entry_def)

abbreviation leaf_key :: "approval_leaf \<Rightarrow> uuid \<times> string" where
  "leaf_key leaf \<equiv> (leaf_owner leaf, native_id leaf)"

lemma results_of_update: "results_of (AList.update i r R) k = (if k = i then r else results_of R k)"
  by (simp add: results_of_def update_conv)

lemma compile_leaves_answers:
  assumes "\<And>i r. runs i = Some r \<Longrightarrow> ar_id r = i"
  shows "compile_leaves env te runs decisions leaves R = Inr R' \<Longrightarrow> distinct (map leaf_key leaves) \<Longrightarrow>
     (\<forall>l \<in> set leaves. answered env te runs decisions l (results_of R' (leaf_owner l))) \<and>
     (\<forall>i k. (i, k) \<notin> leaf_key ` set leaves \<longrightarrow> same_entry k (results_of R i) (results_of R' i))"
proof (induction leaves arbitrary: R)
  case Nil
  then show ?case by (simp add: same_entry_def)
next
  case (Cons leaf rest)
  obtain owner decision canonical where
    leaf: "runs (leaf_owner leaf) = Some owner" "validate_native_history env owner leaf = Inr ()"
      "decisions (leaf_identity env leaf) = Some decision"
      "decide_leaf env te owner (leaf_direct leaf) decision = Inr canonical"
    and rest: "compile_leaves env te runs decisions rest (AList.update (ar_id owner)
        (add_leaf_result env leaf decision canonical (results_of R (ar_id owner))) R) = Inr R'"
    using Cons.prems(1) by (auto simp: bind_result_Inr leaf_owner_def split: option.splits)
  have id: "ar_id owner = leaf_owner leaf" by (rule assms [OF leaf(1)])
  let ?r = "add_leaf_result env leaf decision canonical (results_of R (leaf_owner leaf))"
  let ?R = "AList.update (leaf_owner leaf) ?r R"
  from Cons.IH [OF rest] Cons.prems(2) have
    tl: "\<forall>l \<in> set rest. answered env te runs decisions l (results_of R' (leaf_owner l))"
    and others: "\<And>i k. (i, k) \<notin> leaf_key ` set rest \<Longrightarrow> same_entry k (results_of ?R i) (results_of R' i)"
    by (auto simp: id)
  have "answered env te runs decisions leaf ?r"
    using leaf by (auto simp: answered_def add_leaf_result_effect)
  moreover have "same_entry (native_id leaf) ?r (results_of R' (leaf_owner leaf))"
    using others [of "leaf_owner leaf" "native_id leaf"] Cons.prems(2) by (simp add: results_of_update)
  ultimately have hd: "answered env te runs decisions leaf (results_of R' (leaf_owner leaf))"
    by (rule answered_same [rotated])
  have "same_entry k (results_of R i) (results_of R' i)" if "(i, k) \<notin> leaf_key ` set (leaf # rest)" for i k
  proof -
    have "same_entry k (results_of R i) (results_of ?R i)"
      using that by (auto simp: results_of_update same_entry_def add_leaf_result_effect)
    with others [of i k] that show ?thesis by (auto simp: same_entry_def)
  qed
  with hd tl show ?case by simp
qed

text \<open>No two leaves of a graph answer the same call of the same run.\<close>

definition mapped_by_id :: "(uuid \<rightharpoonup> agent_run) \<Rightarrow> bool" where
  "mapped_by_id runs \<longleftrightarrow> (\<forall>i r. runs i = Some r \<longrightarrow> ar_id r = i)"

lemma mapped_by_idD: "mapped_by_id runs \<Longrightarrow> runs i = Some r \<Longrightarrow> ar_id r = i"
  by (simp add: mapped_by_id_def)

lemma leaf_node_key: "node_ok env main st runs (LeafNode l) \<Longrightarrow> leaf_key l = (ar_id main, node_id (LeafNode l))"
  by (simp add: node_ok_def node_id_def)

lemma delegated_key:
  assumes "mapped_by_id runs" and "node_ok env main st runs (DelegatedNode d)" and "l \<in> set (gn_leaves d)"
  shows "gn_child_run_id d = Some (leaf_owner l) \<and> leaf_owner l \<noteq> ar_id main"
  using assms mapped_by_idD [OF assms(1)] by (auto simp: node_ok_def awaiting_node_def)

lemma keys_distinct:
  assumes "mapped_by_id runs" and "\<And>n. n \<in> set nodes \<Longrightarrow> node_ok env main st runs n"
    and "distinct (map node_id nodes)" and "distinct (List.map_filter node_child nodes)"
  shows "distinct (map leaf_key (concat (map node_leaves nodes)))"
  using assms(2-)
proof (induction nodes)
  case Nil
  then show ?case by simp
next
  case (Cons n ns)
  have IH: "distinct (map leaf_key (concat (map node_leaves ns)))"
    using Cons by (auto simp: map_filter_simps split: option.splits)
  have ok: "node_ok env main st runs m" if "m \<in> set (n # ns)" for m using Cons.prems(1) that by blast
  have child: "m \<in> set ns \<Longrightarrow> node_child m = Some c \<Longrightarrow> node_child n \<noteq> Some c" for m c
    using Cons.prems(3) by (force simp: map_filter_simps map_filter_def split: if_splits)
  have disjoint: "leaf_key l \<noteq> leaf_key l'"
    if l: "l \<in> set (node_leaves n)" and m: "m \<in> set ns" "l' \<in> set (node_leaves m)" for l l' m
  proof (cases n)
    case n: (LeafNode l0)
    have k: "leaf_key l = (ar_id main, node_id n)" using leaf_node_key ok [of n] l n by auto
    show ?thesis
    proof (cases m)
      case (LeafNode l1)
      have "leaf_key l' = (ar_id main, node_id m)" using leaf_node_key ok [of m] m LeafNode by auto
      moreover have "node_id m \<noteq> node_id n" using Cons.prems(2) m(1) by (metis distinct.simps(2) imageI list.map(2) set_map)
      ultimately show ?thesis using k by auto
    next
      case (DelegatedNode d)
      with delegated_key [OF assms(1), of env main st d l'] ok [of m] m k show ?thesis by auto
    qed
  next
    case n: (DelegatedNode d)
    have k: "node_child n = Some (leaf_owner l) \<and> leaf_owner l \<noteq> ar_id main"
      using delegated_key [OF assms(1), of env main st d l] ok [of n] l n by (simp add: node_child_def)
    show ?thesis
    proof (cases m)
      case (LeafNode l1)
      have "leaf_owner l' = ar_id main" using leaf_node_key ok [of m] m LeafNode by auto
      with k show ?thesis by auto
    next
      case (DelegatedNode d')
      with delegated_key [OF assms(1), of env main st d' l'] ok [of m] m
      have "node_child m = Some (leaf_owner l')" by (simp add: node_child_def)
      with child [OF m(1)] k show ?thesis by auto
    qed
  qed
  have "distinct (map leaf_key (node_leaves n))"
  proof (cases n)
    case (LeafNode l)
    then show ?thesis by simp
  next
    case (DelegatedNode d)
    with ok [of n] have "gn_leaves d = [] \<or> distinct (map native_id (gn_leaves d))"
      by (auto simp: node_ok_def awaiting_node_def)
    with DelegatedNode show ?thesis by (auto simp: distinct_map inj_on_def)
  qed
  with IH disjoint show ?case by (fastforce simp del: split_paired_All)
qed

section \<open>The specialists' shares\<close>

definition carries :: "approval_env \<Rightarrow> run_results \<Rightarrow> delegated_node \<Rightarrow> deferred_results \<Rightarrow> bool" where
  "carries env R node r \<longleftrightarrow>
     (\<exists>child metadata. gn_child_run_id node = Some child \<and>
        map_of (dv_approvals r) (gn_parent_tool_call_id node) = Some (ToolApproved None) \<and>
        map_of (dv_metadata r) (gn_parent_tool_call_id node) = Some metadata \<and>
        dict_get metadata ''child_deferred_tool_results'' = Some (JObj (ae_results_out env (results_of R child))))"

lemma carries_same: "same_entry (gn_parent_tool_call_id node) r r' \<Longrightarrow> carries env R node r \<Longrightarrow> carries env R node r'"
  by (simp add: carries_def same_entry_def)

lemma attach_children_effect:
  "attach_children env main st R nodes r = Inr r' \<Longrightarrow> distinct (map node_id nodes) \<Longrightarrow>
     (\<forall>d. DelegatedNode d \<in> set nodes \<longrightarrow> carries env R d r') \<and>
     (\<forall>k. (\<forall>d. DelegatedNode d \<in> set nodes \<longrightarrow> k \<noteq> gn_parent_tool_call_id d) \<longrightarrow> same_entry k r r')"
proof (induction env main st R nodes r arbitrary: r' rule: attach_children.induct)
  case (1 env main st R r)
  then show ?case by (simp add: same_entry_def)
next
  case (2 env main st R leaf rest r)
  then show ?case by simp
next
  case (3 env main st R node rest r)
  obtain child call metadata results where
    node: "gn_child_run_id node = Some child" "find (\<lambda>c. tc_id c = gn_parent_tool_call_id node) (dr_approvals (su_requests st)) = Some call"
      "validate_history_call env main call = Inr ()"
      "map_of (dr_metadata (su_requests st)) (gn_parent_tool_call_id node) = Some metadata" "map_of R child = Some results"
    using "3.prems"(1) by (auto simp: bind_result_Inr split: option.splits)
  let ?k = "gn_parent_tool_call_id node"
  let ?r = "set_metadata ?k (dict_set ''child_deferred_tool_results'' (JObj (ae_results_out env results)) metadata)
      (set_verdict ?k (ToolApproved None) r)"
  have rest: "attach_children env main st R rest ?r = Inr r'" using "3.prems"(1) node by simp
  have IH: "(\<forall>d. DelegatedNode d \<in> set rest \<longrightarrow> carries env R d r') \<and>
     (\<forall>k. (\<forall>d. DelegatedNode d \<in> set rest \<longrightarrow> k \<noteq> gn_parent_tool_call_id d) \<longrightarrow> same_entry k ?r r')"
    using "3.IH" [OF node(1,2) HOL.refl node(4,5) rest] node(3) "3.prems"(2) by simp
  have fresh: "\<forall>d. DelegatedNode d \<in> set rest \<longrightarrow> ?k \<noteq> gn_parent_tool_call_id d"
    using "3.prems"(2) by (force simp: node_id_def)
  have "carries env R node ?r"
    using node by (auto simp: carries_def results_of_def)
  moreover have "same_entry ?k ?r r'" using IH fresh by blast
  ultimately have here: "carries env R node r'" by (rule carries_same [rotated])
  have "same_entry k r r'" if "\<forall>d. DelegatedNode d \<in> set (DelegatedNode node # rest) \<longrightarrow> k \<noteq> gn_parent_tool_call_id d" for k
  proof -
    from that have "same_entry k r ?r" by (auto simp: same_entry_def)
    with IH that show ?thesis by (auto simp: same_entry_def)
  qed
  with here IH show ?case by auto
qed

section \<open>The compiler\<close>

lemma resolve_cases:
  assumes "resolve_decisions env g leaves payload = Inr decisions"
  obtains projection where "project_approval_graph env g = Inr projection"
    "rs_revision payload = as_revision projection" "length (rs_decisions payload) = length leaves"
    "distinct (map rd_approval_id (rs_decisions payload))"
    "decisions = map_of (map (\<lambda>d. (rd_approval_id d, d)) (rs_decisions payload))"
    "\<And>d. d \<in> set (rs_decisions payload) \<Longrightarrow>
       map_of (rev (map (\<lambda>p. (pa_approval_id p, pa_tool_call_id p)) (as_approvals projection))) (rd_approval_id d) =
         Some (rd_tool_call_id d)"
  using assms by (auto simp: resolve_decisions_def bind_result_Inr Let_def list_ex_iff split: if_splits)

lemma compile_cases:
  assumes "compile_approval_decisions env te actor workspace g runs payload = Inr r"
  obtains main current projection decisions R st where
    "runs (gr_root_run_id g) = Some main" "ar_user_id main = actor" "ar_workspace_id main = workspace"
    "build_approval_graph env main runs = Inr current" "project_approval_graph env current = Inr projection"
    "project_approval_graph env g = Inr projection"
    "resolve_decisions env current (graph_leaves current) payload = Inr decisions"
    "compile_leaves env te runs decisions (graph_leaves current) [] = Inr R"
    "load_suspended_run_state env main = Inr st"
    "attach_children env main st R (gr_nodes current) (results_of R (ar_id main)) = Inr r"
  using assms by (auto simp: compile_approval_decisions_def bind_result_Inr split: option.splits if_splits)

text \<open>
  The share of a leaf in the results that the root continues with: the root's own, or the results that are
  attached to its delegated call and that the specialist continues with.
\<close>

definition share_of ::
    "approval_env \<Rightarrow> approval_graph \<Rightarrow> agent_run \<Rightarrow> deferred_results \<Rightarrow> approval_leaf \<Rightarrow> deferred_results \<Rightarrow> bool" where
  "share_of env g main r leaf share \<longleftrightarrow>
     (if leaf_owner leaf = ar_id main then share = r
      else \<exists>node metadata. DelegatedNode node \<in> set (gr_nodes g) \<and> leaf \<in> set (gn_leaves node) \<and>
        gn_child_run_id node = Some (leaf_owner leaf) \<and>
        map_of (dv_approvals r) (gn_parent_tool_call_id node) = Some (ToolApproved None) \<and>
        map_of (dv_metadata r) (gn_parent_tool_call_id node) = Some metadata \<and>
        dict_get metadata ''child_deferred_tool_results'' = Some (JObj (ae_results_out env share)))"

lemma compiled_leaf:
  assumes ids: "mapped_by_id runs" and current: "build_approval_graph env main runs = Inr current"
    and leaves: "compile_leaves env te runs decisions (graph_leaves current) [] = Inr R"
    and attach: "attach_children env main st R (gr_nodes current) (results_of R (ar_id main)) = Inr r"
    and leaf: "leaf \<in> set (graph_leaves current)"
  shows "\<exists>share. share_of env current main r leaf share \<and> answered env te runs decisions leaf share"
proof -
  obtain mst where shape: "distinct (map node_id (gr_nodes current))" "distinct (List.map_filter node_child (gr_nodes current))"
      "\<And>n. n \<in> set (gr_nodes current) \<Longrightarrow> node_ok env main mst runs n"
    using build_graph_shape [OF current] by metis
  have keys: "distinct (map leaf_key (graph_leaves current))"
    unfolding graph_leaves_def by (rule keys_distinct [OF ids shape(3,1,2)])
  have here: "answered env te runs decisions leaf (results_of R (leaf_owner leaf))"
    using compile_leaves_answers [OF mapped_by_idD [OF ids] leaves keys] leaf by blast
  note attached = attach_children_effect [OF attach shape(1)]
  from leaf obtain n where n: "n \<in> set (gr_nodes current)" "leaf \<in> set (node_leaves n)" by (auto simp: graph_leaves_def)
  show ?thesis
  proof (cases n)
    case (LeafNode l)
    with n have n': "LeafNode leaf \<in> set (gr_nodes current)" by simp
    have owner: "leaf_owner leaf = ar_id main" using shape(3) [OF n'] by (simp add: node_ok_def)
    have "native_id leaf \<noteq> gn_parent_tool_call_id d" if "DelegatedNode d \<in> set (gr_nodes current)" for d
      using distinct_key_eq [OF shape(1) n' that] by (auto simp: node_id_def)
    with attached have "same_entry (native_id leaf) (results_of R (ar_id main)) r" by blast
    with here have "answered env te runs decisions leaf r" by (simp add: answered_same owner)
    moreover have "share_of env current main r leaf r" by (simp add: share_of_def owner)
    ultimately show ?thesis by blast
  next
    case (DelegatedNode d)
    with n have n': "DelegatedNode d \<in> set (gr_nodes current)" "leaf \<in> set (gn_leaves d)" by auto
    note key = delegated_key [OF ids shape(3) [OF n'(1)] n'(2)]
    from attached n'(1) have "carries env R d r" by blast
    with key n' have "share_of env current main r leaf (results_of R (leaf_owner leaf))"
      by (auto simp: share_of_def carries_def)
    with here show ?thesis by blast
  qed
qed

end
