(* ===== verification/Approval_Steps.thy ===== *)
theory Approval_Steps
  imports Approval_Roundtrip Approval_Compiled
begin

text \<open>
  What a successful transaction of the approvals did, one rule per operation, and that each of them keeps the
  contract of the run table.
\<close>

section \<open>Rewriting a row's metadata\<close>

definition annotates :: "agent_run \<Rightarrow> agent_run \<Rightarrow> bool" where
  "annotates r r' \<longleftrightarrow> r' = r\<lparr>ar_metadata_json := ar_metadata_json r', ar_updated_at := ar_updated_at r'\<rparr>"

lemma annotatesI: "r' = r\<lparr>ar_metadata_json := m, ar_updated_at := t\<rparr> \<Longrightarrow> annotates r r'"
  by (simp add: annotates_def)

lemma annotatesE:
  assumes "annotates r r'"
  obtains m t where "r' = r\<lparr>ar_metadata_json := m, ar_updated_at := t\<rparr>"
  using assms unfolding annotates_def by (rule that)

lemma annotates_refl [intro]: "annotates r r"
  by (simp add: annotates_def)

lemma annotates_trans: "annotates r s \<Longrightarrow> annotates s t \<Longrightarrow> annotates r t"
  by (elim annotatesE) (simp add: annotates_def)

lemma annotates_metadata [intro]: "annotates r (r\<lparr>ar_metadata_json := m\<rparr>)"
  by (simp add: annotates_def)

lemma annotates_stamped [intro]: "annotates r r' \<Longrightarrow> annotates r (r'\<lparr>ar_updated_at := t\<rparr>)"
  by (elim annotatesE) (simp add: annotates_def)

lemma annotates_simps:
  assumes "annotates r r'"
  shows "identity r' = identity r" "ar_id r' = ar_id r" "ar_status r' = ar_status r"
    "ar_parent_run_id r' = ar_parent_run_id r" "ar_owner_instance_id r' = ar_owner_instance_id r"
    "ar_conversation_id r' = ar_conversation_id r" "ar_agent_id r' = ar_agent_id r"
    "ar_workspace_id r' = ar_workspace_id r" "ar_user_id r' = ar_user_id r"
    "ar_delegation_depth r' = ar_delegation_depth r" "ar_deleted r' = ar_deleted r"
  using assms by (elim annotatesE, simp add: identity_def)+

lemma annotates_evolves:
  assumes "annotates r r'" and "\<not> is_terminal (ar_status r)"
  shows "evolves r r'"
  using assms(1)
proof (rule annotatesE)
  fix m t
  assume r': "r' = r\<lparr>ar_metadata_json := m, ar_updated_at := t\<rparr>"
  show ?thesis
    using assms(2) unfolding r' evolves_def
    by (simp add: identity_def status_reaches_def run_row_ok_def)
qed

lemma annotated_row:
  assumes "run_ids_ok db" and "row_by_id ar_id i (agent_runs db) = Some r" and "annotates r r'"
    and "\<not> is_terminal (ar_status r)"
  shows "db_evolves db (db\<lparr>agent_runs := write_row ar_id r' (agent_runs db)\<rparr>)"
    and "row_by_id ar_id k (write_row ar_id r' (agent_runs db)) =
      (if k = i then Some r' else row_by_id ar_id k (agent_runs db))"
proof -
  show "db_evolves db (db\<lparr>agent_runs := write_row ar_id r' (agent_runs db)\<rparr>)"
    using runs_evolve_write [OF _ assms(2) annotates_evolves [OF assms(3,4)]] assms(1)
    by (simp add: db_evolves_def run_ids_ok_def)
  have "ar_id r' = i" using annotates_simps(2) [OF assms(3)] row_by_id_Some [OF assms(2)] by simp
  then show "row_by_id ar_id k (write_row ar_id r' (agent_runs db)) =
      (if k = i then Some r' else row_by_id ar_id k (agent_runs db))"
    using row_by_id_in_keys [OF assms(2)] by (simp add: row_by_id_write_row)
qed

lemma put_row:
  assumes "run_ids_ok db" and "row_by_id ar_id i (agent_runs db) = Some r" and "annotates r r'"
    and "\<not> is_terminal (ar_status r)"
  shows "db_evolves db (put_run now r' db)"
    and "row_by_id ar_id k (agent_runs (put_run now r' db)) =
      (if k = i then Some (r'\<lparr>ar_updated_at := now\<rparr>) else row_by_id ar_id k (agent_runs db))"
  using annotated_row [OF assms(1,2) annotates_stamped [OF assms(3)] assms(4)] by (simp_all add: put_run_def)

lemma store_annotates: "store_approval_continuation env c r = Inr r' \<Longrightarrow> annotates r r'"
  by (auto simp: store_approval_continuation_def bind_result_Inr)

lemma set_revision_annotates: "annotates r (set_revision v r)"
  by (auto simp: set_revision_def split: option.splits json.splits)

lemma set_revision_reservation: "reservation_json (set_revision v r) = reservation_json r"
  by (auto simp: set_revision_def reservation_json_def split: option.splits json.splits)

lemma stamped_reservation [simp]: "reservation_json (r\<lparr>ar_updated_at := t\<rparr>) = reservation_json r"
  by (simp add: reservation_json_def)

lemma head_row:
  assumes "run_inv db" and "lock_run_family i db = r # rest" and "ar_id r = i"
  shows "row_by_id ar_id i (agent_runs db) = Some r"
  using row_by_id_unique [OF run_invD(2) [OF assms(1)], of r] lock_run_family_rows [of r i db] assms(2,3) by auto

lemma found_row:
  assumes "run_inv db" and "find P (agent_runs db) = Some r"
  shows "row_by_id ar_id (ar_id r) (agent_runs db) = Some r" and "P r"
  using find_SomeD [OF assms(2)] row_by_id_unique [OF run_invD(2) [OF assms(1)]] by auto

lemma owned_open: "require_execution_owner r owner now = Inr () \<Longrightarrow> \<not> is_terminal (ar_status r)"
  by (auto simp: require_execution_owner_def terminal_iff split: if_splits)

text \<open>Starting an execution keeps the metadata.\<close>

lemma start_with_lease_metadata:
  assumes "start_agent_run_with_lease env i owner now clock ttl db = Inr (r', db')"
    and "row_by_id ar_id i (agent_runs db) = Some r"
  shows "ar_metadata_json r' = ar_metadata_json r"
  using assms(1)
proof (cases rule: start_with_lease_cases)
  case (claimed r1 db1)
  have "ar_metadata_json r1 = ar_metadata_json r" "row_by_id ar_id i (agent_runs db1) = Some r1"
    using claimed(1) assms(2) row_by_id_Some [OF assms(2)] row_by_id_in_keys [OF assms(2)]
    by (auto simp: claim_agent_run_execution_def Let_def row_by_id_write_row split: if_splits)
  with claimed(2) show ?thesis
    by (cases rule: transition_cases) (auto simp: stamp_transition_def Let_def terminal_iff)
next
  case (held q)
  from held(3) show ?thesis
  proof (cases rule: transition_cases)
    case same
    with held(1) assms(2) show ?thesis by simp
  next
    case (moved p v w)
    with held(1) assms(2) show ?thesis by (auto simp: stamp_transition_def Let_def terminal_iff)
  qed
qed

section \<open>Suspending\<close>

lemma runs_by_id_mapped [simp, intro]: "mapped_by_id (runs_by_id rs)"
  by (auto simp: mapped_by_id_def runs_by_id_def dest: map_of_SomeD)

text \<open>Only rows of \<open>i\<close> change, and what \<open>r\<close> is there becomes \<open>r'\<close>.\<close>

definition rewrote :: "run_db \<Rightarrow> uuid \<Rightarrow> agent_run \<Rightarrow> run_db \<Rightarrow> bool" where
  "rewrote db i r' db' \<longleftrightarrow> db_evolves db db' \<and>
     (\<forall>k. row_by_id ar_id k (agent_runs db') = (if k = i then Some r' else row_by_id ar_id k (agent_runs db)))"

lemma rewroteD:
  assumes "rewrote db i r' db'"
  shows "db_evolves db db'" "row_by_id ar_id i (agent_runs db') = Some r'"
    "k \<noteq> i \<Longrightarrow> row_by_id ar_id k (agent_runs db') = row_by_id ar_id k (agent_runs db)"
  using assms by (simp_all add: rewrote_def)

lemma rewrote_trans: "rewrote db i r db1 \<Longrightarrow> rewrote db1 i r' db2 \<Longrightarrow> rewrote db i r' db2"
  by (auto simp: rewrote_def intro: db_evolves_trans)

lemma put_rewrote:
  assumes "run_ids_ok db" and "row_by_id ar_id i (agent_runs db) = Some r" and "annotates r r'"
    and "\<not> is_terminal (ar_status r)"
  shows "rewrote db i (r'\<lparr>ar_updated_at := now\<rparr>) (put_run now r' db)"
  using put_row [OF assms] by (simp add: rewrote_def)

lemma transition_rewrote:
  assumes "run_ids_ok db" and "transition_run_status env now i t c m out cj db = Inr (r', db')"
  shows "rewrote db i r' db'"
  using transition_effect [OF assms] by (auto simp: rewrote_def)

lemma start_rewrote:
  assumes "run_ids_ok db" and "start_agent_run_with_lease env i owner now clock ttl db = Inr (r', db')"
  shows "rewrote db i r' db'" "ar_status r' = RunRunning" "ar_owner_instance_id r' = Some owner"
  using start_with_lease_evolves [OF assms] by (auto simp: rewrote_def)

lemma rewrote_ids: "rewrote db i r db' \<Longrightarrow> run_ids_ok db \<Longrightarrow> run_ids_ok db'"
  using rewroteD(1) db_evolves_ids by blast

lemma awaiting_metadata:
  assumes "mark_run_awaiting_approval env now i db = Inr (r', db')" and "row_by_id ar_id i (agent_runs db) = Some r"
  shows "ar_metadata_json r' = ar_metadata_json r" "ar_status r' = RunAwaitingApproval" "identity r' = identity r"
  using assms(1)[unfolded mark_run_awaiting_approval_def] assms(2)
  by (cases rule: transition_cases; auto simp: stamp_transition_def Let_def terminal_iff identity_def)+

lemma persist_cases:
  assumes inv: "run_inv (ap_db s)"
    and ok: "persist_suspended_run env now fresh i invocation history requests s = Inr (b, s')"
  obtains (refused) "\<not> b" "s' = s"
  | (suspended) run r2 revision where "b" "row_by_id ar_id i (agent_runs (ap_db s)) = Some run"
      "ar_status run = RunRunning" "ar_status r2 = RunAwaitingApproval" "identity r2 = identity run"
      "ar_metadata_json r2 = Some (build_suspended_run_metadata env fresh run (ar_conversation_id run) history requests)"
      "\<And>v. revision = Some v \<Longrightarrow> \<exists>x. v = e_sha256 (ae_run env) x"
      "rewrote (ap_db s) i (case revision of None \<Rightarrow> r2 | Some v \<Rightarrow> (set_revision v r2)\<lparr>ar_updated_at := now\<rparr>) (ap_db s')"
      "ap_audits s' = ap_audits s"
proof -
  obtain run where run: "row_by_id ar_id i (agent_runs (ap_db s)) = Some run"
    using ok by (auto simp: persist_suspended_run_def split: option.splits)
  let ?run1 = "run\<lparr>ar_metadata_json := Some (build_suspended_run_metadata env fresh run (ar_conversation_id run) history requests)\<rparr>"
  note ids = run_invD(1) [OF inv]
  show ?thesis
  proof (cases "(invocation \<noteq> None \<and> ar_owner_instance_id run \<noteq> None \<and> ar_owner_instance_id run \<noteq> invocation) \<or>
      is_terminal (ar_status run)")
    case True
    with ok run have "\<not> b" "s' = s" by (auto simp: persist_suspended_run_def split: if_splits)
    then show ?thesis by (rule refused)
  next
    case False
    with ok run have running: "ar_status run = RunRunning" by (auto simp: persist_suspended_run_def split: if_splits)
    with ok run False obtain r2 db2 where
      marked: "mark_run_awaiting_approval (ae_run env) now i (put_run now ?run1 (ap_db s)) = Inr (r2, db2)"
      by (auto simp: persist_suspended_run_def bind_result_Inr Let_def split: if_splits)
    have open_run: "\<not> is_terminal (ar_status run)" using False by blast
    note put = put_rewrote [OF ids run annotates_metadata open_run, of now]
    note meta = awaiting_metadata [OF marked rewroteD(2) [OF put]]
    have ids1: "run_ids_ok (put_run now ?run1 (ap_db s))" by (rule rewrote_ids [OF put ids])
    have rw: "rewrote (ap_db s) i r2 db2"
      using put transition_rewrote [OF ids1 marked [unfolded mark_run_awaiting_approval_def]] by (rule rewrote_trans)
    have same: "identity r2 = identity run" using meta(3) by (simp add: identity_def)
    have m2: "ar_metadata_json r2 = ar_metadata_json ?run1" using meta(1) by simp
    show ?thesis
    proof (cases "ar_parent_run_id r2 \<noteq> None")
      case True
      then have "b" "s' = s\<lparr>ap_db := db2\<rparr>"
        using ok run False running marked by (auto simp: persist_suspended_run_def Let_def split: if_splits)
      with rw m2 meta(2) same running show ?thesis by (intro suspended [OF _ run, where revision = None]) simp_all
    next
      case child: False
      then obtain g projection where b: "b" and
        g: "project_approval_graph env g = Inr projection"
        and s': "s' = s\<lparr>ap_db := put_run now (set_revision (as_revision projection) r2) db2\<rparr>"
        using ok run False running marked
        by (auto simp: persist_suspended_run_def Let_def bind_result_Inr split: if_splits)
      have "\<not> is_terminal (ar_status r2)" using meta(2) by (simp add: terminal_iff)
      from put_rewrote [OF rewrote_ids [OF rw ids] rewroteD(2) [OF rw] set_revision_annotates this]
      have "rewrote (ap_db s) i ((set_revision (as_revision projection) r2)\<lparr>ar_updated_at := now\<rparr>) (ap_db s')"
        using rw by (auto simp: s' intro: rewrote_trans)
      with m2 meta(2) same running b project_graph_shape(4) [OF g] s' show ?thesis
        by (intro suspended [OF _ run, where revision = "Some (as_revision projection)"]) simp_all
    qed
  qed
qed

section \<open>Loading the graph\<close>

lemma load_graph_cases:
  assumes inv: "run_inv db" and ok: "load_approval_graph env actor workspace i db = Inr g"
  obtains main children where "row_by_id ar_id i (agent_runs db) = Some main" "ar_user_id main = actor"
    "ar_workspace_id main = workspace" "ar_status main = RunAwaitingApproval"
    "build_approval_graph env main children = Inr g"
    "\<And>k c. children k = Some c \<Longrightarrow> row_by_id ar_id k (agent_runs db) = Some c"
proof -
  obtain main rs where main: "find (\<lambda>r. ar_id r = i \<and> ar_workspace_id r = workspace \<and> ar_user_id r = actor \<and> \<not> ar_deleted r)
         (agent_runs db) = Some main" "ar_status main = RunAwaitingApproval"
      "build_approval_graph env main (map_of (map (\<lambda>c. (ar_id c, c)) (filter rs (agent_runs db)))) = Inr g"
    using ok by (auto simp: load_approval_graph_def bind_result_Inr Let_def split: option.splits if_splits)
  have "row_by_id ar_id k (agent_runs db) = Some c" if "map_of (map (\<lambda>c. (ar_id c, c)) (filter rs (agent_runs db))) k = Some c" for k c
    using map_of_SomeD [OF that] row_by_id_unique [OF run_invD(2) [OF inv]] by auto
  with main(2) found_row [OF inv main(1)] show ?thesis by (intro that [OF _ _ _ _ main(3)]) auto
qed

lemma graph_leaf_row:
  assumes inv: "run_inv db" and ok: "load_approval_graph env actor workspace i db = Inr g"
    and leaf: "leaf \<in> set (graph_leaves g)"
  obtains r where "row_by_id ar_id (leaf_owner leaf) (agent_runs db) = Some r" "ar_status r = RunAwaitingApproval"
proof -
  obtain main children where g: "row_by_id ar_id i (agent_runs db) = Some main" "build_approval_graph env main children = Inr g"
    and rows: "\<And>k c. children k = Some c \<Longrightarrow> row_by_id ar_id k (agent_runs db) = Some c"
    using load_graph_cases [OF inv ok] by metis
  from leaf_run [OF g(2) leaf] consider
      "leaf_owner leaf = ar_id main" "ar_status main = RunAwaitingApproval"
    | k c where "children k = Some c" "leaf_owner leaf = ar_id c" "ar_status c = RunAwaitingApproval" by blast
  then show ?thesis
  proof cases
    case 1
    with g(1) row_by_id_Some [OF g(1)] show ?thesis by (intro that [of main]) simp_all
  next
    case 2
    with rows [OF 2(1)] row_by_id_Some [OF rows [OF 2(1)]] show ?thesis by (intro that [of c]) simp_all
  qed
qed

lemma child_batches_keys:
  "child_batches_of env runs nodes = Inr bs \<Longrightarrow> map fst bs = List.map_filter node_child nodes"
  by (induction env runs nodes arbitrary: bs rule: child_batches_of.induct)
     (auto simp: map_filter_simps node_child_def bind_result_Inr split: option.splits)

section \<open>Accepting decisions\<close>

lemma projected_cases:
  assumes "projected_graph env actor workspace i db = Inr (g, p)"
  shows "load_approval_graph env actor workspace i db = Inr g" "project_approval_graph env g = Inr p"
  using assms by (auto simp: projected_graph_def bind_result_Inr)

lemma reserve_cases:
  assumes "reserve_approval_continuation env now generation owner run g runs payload revision results s = Inr (c, s1)"
  obtains digest batches run1 run2 db2 where "resume_request_digest env payload = Inr digest"
    "child_batches_of env runs (gr_nodes g) = Inr batches" "hex64 revision" "hex64 digest"
    "length batches \<le> MAX_PROJECTION_LEAVES"
    "c = \<lparr>cn_generation = generation, cn_owner = owner, cn_revision = revision, cn_request_digest = digest,
           cn_child_batches = batches, cn_claimed = [], cn_results = ae_results_out env results, cn_phase = Reserved\<rparr>"
    "store_approval_continuation env c run = Inr run1"
    "start_agent_run_with_lease (ae_run env) (ar_id run) (ae_text env owner) now now None (put_run now run1 (ap_db s)) =
       Inr (run2, db2)"
    "s1 = s\<lparr>ap_db := db2, ap_audits := ap_audits s @
       [ApprovalAccepted (ar_workspace_id run) (ar_id run) generation revision (length (rs_decisions payload)) (length batches)]\<rparr>"
proof -
  obtain digest batches where d: "resume_request_digest env payload = Inr digest"
      "child_batches_of env runs (gr_nodes g) = Inr batches"
    using assms by (auto simp: reserve_approval_continuation_def bind_result_Inr)
  let ?c = "\<lparr>cn_generation = generation, cn_owner = owner, cn_revision = revision, cn_request_digest = digest,
           cn_child_batches = batches, cn_claimed = [], cn_results = ae_results_out env results, cn_phase = Reserved\<rparr>"
  have fits: "hex64 revision" "hex64 digest" "\<not> length batches > MAX_PROJECTION_LEAVES"
    using assms d by (auto simp: reserve_approval_continuation_def Let_def split: if_splits)
  obtain run1 where run1: "store_approval_continuation env ?c run = Inr run1"
    using assms d fits by (auto simp: reserve_approval_continuation_def Let_def bind_result_Inr)
  obtain run2 db2 where run2: "start_agent_run_with_lease (ae_run env) (ar_id run) (ae_text env owner) now now None
      (put_run now run1 (ap_db s)) = Inr (run2, db2)"
    using assms d fits run1 by (auto simp: reserve_approval_continuation_def Let_def bind_result_Inr)
  show ?thesis
    using assms d fits run1 run2
    by (intro that [OF d fits(1,2)]) (auto simp: reserve_approval_continuation_def Let_def)
qed

definition accepted_state ::
    "approval_env \<Rightarrow> agent_run \<Rightarrow> uuid \<Rightarrow> approval_continuation \<Rightarrow> agent_run \<Rightarrow> bool" where
  "accepted_state env run owner c r' \<longleftrightarrow>
     identity r' = identity run \<and> ar_status r' = RunRunning \<and> ar_owner_instance_id r' = Some (ae_text env owner) \<and>
     reservation_json r' = Some (JObj (dump_continuation env c)) \<and>
     length (canonical_json (JObj (dump_continuation env c))) \<le> MAX_PROPOSAL_BYTES \<and>
     dict_get (or_empty (ar_metadata_json r')) ''approval_state'' = dict_get (or_empty (ar_metadata_json run)) ''approval_state''"

lemma reserve_effect:
  assumes ids: "run_ids_ok (ap_db s)" and run: "row_by_id ar_id i (agent_runs (ap_db s)) = Some run"
    and waiting: "ar_status run = RunAwaitingApproval"
    and ok: "reserve_approval_continuation env now generation owner run g runs payload revision results s = Inr (c, s1)"
  obtains r' where "rewrote (ap_db s) i r' (ap_db s1)" "accepted_state env run owner c r'"
proof -
  obtain run1 run2 db2 where store: "store_approval_continuation env c run = Inr run1"
    and start: "start_agent_run_with_lease (ae_run env) (ar_id run) (ae_text env owner) now now None (put_run now run1 (ap_db s)) =
       Inr (run2, db2)" and s1: "ap_db s1 = db2"
    using ok by (rule reserve_cases) simp
  have i: "ar_id run = i" using row_by_id_Some [OF run] by simp
  have open_run: "\<not> is_terminal (ar_status run)" by (simp add: waiting terminal_iff)
  note put = put_rewrote [OF ids run store_annotates [OF store] open_run, of now]
  note started = start_rewrote [OF rewrote_ids [OF put ids] start [unfolded i]]
  have meta: "ar_metadata_json run2 = ar_metadata_json run1"
    using start_with_lease_metadata [OF start [unfolded i] rewroteD(2) [OF put]] by simp
  have "identity run2 = identity run"
  proof -
    from rewroteD(1) [OF started(1)] have "runs_evolve (agent_runs (put_run now run1 (ap_db s))) (agent_runs db2)"
      by (simp add: db_evolves_def)
    from runs_evolve_row_by_id [OF this, of i] rewroteD(2) [OF put] rewroteD(2) [OF started(1)]
    have "identity run2 = identity (run1\<lparr>ar_updated_at := now\<rparr>)" by (simp add: evolves_def)
    also have "\<dots> = identity run" using annotates_simps(1) [OF store_annotates [OF store]] by (simp add: identity_def)
    finally show ?thesis .
  qed
  with started(2,3) meta store_cases [OF store] have "accepted_state env run owner c run2"
    by (simp add: accepted_state_def reservation_json_def)
  with rewrote_trans [OF put started(1)] show ?thesis by (intro that [of run2]) (simp_all add: s1)
qed

lemma audit_context_effect:
  assumes "accepted_state env run owner c r"
  shows "accepted_state env run owner c (r\<lparr>ar_metadata_json := Some (dict_set ''audit_context'' v (or_empty (ar_metadata_json r))),
    ar_updated_at := now\<rparr>)"
  using assms by (simp add: accepted_state_def identity_def reservation_json_def)

lemma accept_cases:
  assumes ids: "run_ids_ok (ap_db s)" and run: "row_by_id ar_id i (agent_runs (ap_db s)) = Some run"
    and waiting: "ar_status run = RunAwaitingApproval"
    and ok: "accept_decisions env te now generation owner actor workspace run g projection payload cj s = Inr (c, s')"
  obtains results s1 r' where
    "compile_approval_decisions env te actor workspace g (runs_by_id (lock_run_family i (ap_db s))) payload = Inr results"
    "reserve_approval_continuation env now generation owner run g (runs_by_id (lock_run_family i (ap_db s))) payload
       (as_revision projection) results s = Inr (c, s1)"
    "rewrote (ap_db s) i r' (ap_db s')" "accepted_state env run owner c r'" "ap_audits s' = ap_audits s1"
proof -
  have i: "ar_id run = i" using row_by_id_Some [OF run] by simp
  obtain results s1 where compiled: "compile_approval_decisions env te actor workspace g (runs_by_id (lock_run_family i (ap_db s))) payload = Inr results"
    and reserved: "reserve_approval_continuation env now generation owner run g (runs_by_id (lock_run_family i (ap_db s))) payload
       (as_revision projection) results s = Inr (c, s1)"
    and rest: "(case (cj, row_by_id ar_id i (agent_runs (ap_db s1))) of
              (Some v, Some r) \<Rightarrow> Inr (c, s1\<lparr>ap_db := put_run now
                  (r\<lparr>ar_metadata_json := Some (dict_set ''audit_context'' v (or_empty (ar_metadata_json r)))\<rparr>) (ap_db s1)\<rparr>)
            | _ \<Rightarrow> Inr (c, s1)) = (Inr (c, s') :: app_error + _)"
    using ok unfolding i by (auto simp: accept_decisions_def bind_result_Inr Let_def i split: option.splits)
  obtain r' where r': "rewrote (ap_db s) i r' (ap_db s1)" "accepted_state env run owner c r'"
    using reserve_effect [OF ids run waiting reserved] by blast
  show ?thesis
  proof (cases cj)
    case None
    with rest have "s' = s1" by simp
    with r' show ?thesis by (intro that [OF compiled reserved]) simp_all
  next
    case (Some v)
    let ?r = "r'\<lparr>ar_metadata_json := Some (dict_set ''audit_context'' v (or_empty (ar_metadata_json r')))\<rparr>"
    have s': "s' = s1\<lparr>ap_db := put_run now ?r (ap_db s1)\<rparr>" using rest Some rewroteD(2) [OF r'(1)] by simp
    have "\<not> is_terminal (ar_status r')" using r'(2) by (simp add: accepted_state_def terminal_iff)
    from put_rewrote [OF rewrote_ids [OF r'(1) ids] rewroteD(2) [OF r'(1)] annotates_metadata this]
    have "rewrote (ap_db s) i (?r\<lparr>ar_updated_at := now\<rparr>) (ap_db s')" using r'(1) by (auto simp: s' intro: rewrote_trans)
    with audit_context_effect [OF r'(2), where v = v and now = now] show ?thesis
      by (intro that [OF compiled reserved]) (simp_all add: s')
  qed
qed

lemma settle_and_refuse_cases:
  "settle_and_refuse env now i code message refusal s \<noteq> (Inr x, s')"
  "settle_and_refuse env now i code message refusal s = (Inl e, s') \<Longrightarrow> s' = s \<or>
     (\<exists>code message changed db. settle_run_family (ae_run env) now i RunFailed (Some code) (Some message) None (ap_db s) =
        Inr (changed, db) \<and> s' = s\<lparr>ap_db := db\<rparr>)"
  by (auto simp: settle_and_refuse_def split: sum.splits)

lemma resume_cases:
  assumes inv: "run_inv (ap_db s)"
    and ok: "resume_agent_run env te now generation owner members actor workspace i payload cj s = (Inr c, s')"
  obtains run g projection results s1 r' where "row_by_id ar_id i (agent_runs (ap_db s)) = Some run"
    "ar_user_id run = actor" "ar_workspace_id run = workspace" "require_root_approval run = Inr ()"
    "ar_status run = RunAwaitingApproval" "reservation_json run = None" "(workspace, actor) \<in> set members"
    "\<exists>d. approval_family_deadline (e_settings (ae_run env)) (lock_run_family i (ap_db s)) None = Inr d \<and> \<not> null_le d now"
    "projected_graph env actor workspace i (ap_db s) = Inr (g, projection)"
    "compile_approval_decisions env te actor workspace g (runs_by_id (lock_run_family i (ap_db s))) payload = Inr results"
    "reserve_approval_continuation env now generation owner run g (runs_by_id (lock_run_family i (ap_db s))) payload
       (as_revision projection) results s = Inr (c, s1)"
    "rewrote (ap_db s) i r' (ap_db s')" "accepted_state env run owner c r'" "ap_audits s' = ap_audits s1"
proof -
  let ?P = "\<lambda>r. ar_id r = i \<and> ar_workspace_id r = workspace \<and> ar_user_id r = actor \<and> \<not> ar_deleted r"
  obtain run where found: "find ?P (agent_runs (ap_db s)) = Some run"
    using ok by (auto simp: resume_agent_run_def split: option.splits)
  note row = found_row [OF inv found]
  have run: "row_by_id ar_id i (agent_runs (ap_db s)) = Some run" using row by auto
  have root_run: "require_root_approval run = Inr ()"
    using ok found by (auto simp: resume_agent_run_def split: sum.splits)
  have free: "reservation_json run = None" and waiting: "ar_status run = RunAwaitingApproval"
    and member: "(workspace, actor) \<in> set members"
    using ok found root_run by (auto simp: resume_agent_run_def Let_def reservation_json_def split: if_splits)
  have free': "dict_get (or_empty (ar_metadata_json run)) ''approval_continuation'' = None"
    using free by (simp add: reservation_json_def)
  have family: "lock_run_family i (ap_db s) \<noteq> []"
    using ok found root_run by (auto simp: resume_agent_run_def Let_def split: if_splits)
  obtain d where d: "approval_family_deadline (e_settings (ae_run env)) (lock_run_family i (ap_db s)) None = Inr d"
    using ok found root_run free' waiting member family
    by (cases "approval_family_deadline (e_settings (ae_run env)) (lock_run_family i (ap_db s)) None")
       (simp_all add: resume_agent_run_def Let_def)
  have late: "\<not> null_le d now"
  proof
    assume "null_le d now"
    with ok found root_run free' waiting member family d show False
      by (simp add: resume_agent_run_def Let_def settle_and_refuse_cases(1))
  qed
  obtain g projection where g: "projected_graph env actor workspace i (ap_db s) = Inr (g, projection)"
  proof (cases "projected_graph env actor workspace i (ap_db s)")
    case (Inl e)
    with ok found root_run free' waiting member family d late show ?thesis
      by (cases e) (simp_all add: resume_agent_run_def Let_def settle_and_refuse_cases(1) split: if_splits)
  next
    case (Inr x)
    then show ?thesis using that by (cases x) simp
  qed
  have accepted: "accept_decisions env te now generation owner actor workspace run g projection payload cj s = Inr (c, s')"
    using ok found root_run free' waiting member family d late g
    by (auto simp: resume_agent_run_def Let_def split: sum.splits)
  obtain results s1 r' where a:
    "compile_approval_decisions env te actor workspace g (runs_by_id (lock_run_family i (ap_db s))) payload = Inr results"
    "reserve_approval_continuation env now generation owner run g (runs_by_id (lock_run_family i (ap_db s))) payload
       (as_revision projection) results s = Inr (c, s1)"
    "rewrote (ap_db s) i r' (ap_db s')" "accepted_state env run owner c r'" "ap_audits s' = ap_audits s1"
    by (rule accept_cases [OF run_invD(1) [OF inv] run waiting accepted])
  show ?thesis using row(2) d late by (intro that [OF run _ _ root_run waiting free member _ g a]) auto
qed

lemma reserved_ok:
  assumes ad: "adapters_ok env" and inv: "run_inv (ap_db s)"
    and g: "projected_graph env actor workspace i (ap_db s) = Inr (g, projection)"
    and ok: "reserve_approval_continuation env now generation owner run g runs payload revision results s = Inr (c, s1)"
  shows "continuation_ok env c"
proof -
  obtain digest batches where c: "c = \<lparr>cn_generation = generation, cn_owner = owner, cn_revision = revision, cn_request_digest = digest,
           cn_child_batches = batches, cn_claimed = [], cn_results = ae_results_out env results, cn_phase = Reserved\<rparr>"
      "hex64 revision" "hex64 digest" "length batches \<le> MAX_PROJECTION_LEAVES" "child_batches_of env runs (gr_nodes g) = Inr batches"
    using ok by (rule reserve_cases)
  obtain main children where "build_approval_graph env main children = Inr g"
    using load_graph_cases [OF inv projected_cases(1) [OF g]] by metis
  then have "distinct (List.map_filter node_child (gr_nodes g))" by (rule build_graph_shape)
  then have "distinct (map fst batches)" by (simp add: child_batches_keys [OF c(5)])
  with c(2-4) show ?thesis by (simp add: continuation_ok_def c(1) adapters_okD [OF ad])
qed

lemma resume_loads:
  assumes ad: "adapters_ok env" and inv: "run_inv (ap_db s)"
    and ok: "resume_agent_run env te now generation owner members actor workspace i payload cj s = (Inr c, s')"
  obtains run r' where "row_by_id ar_id i (agent_runs (ap_db s)) = Some run" "rewrote (ap_db s) i r' (ap_db s')"
    "accepted_state env run owner c r'" "load_approval_continuation env r' = Inr c" "cn_owner c = owner" "cn_phase c = Reserved"
    "cn_claimed c = []"
proof -
  obtain run g projection results s1 r' where a: "row_by_id ar_id i (agent_runs (ap_db s)) = Some run"
    "projected_graph env actor workspace i (ap_db s) = Inr (g, projection)"
    "reserve_approval_continuation env now generation owner run g (runs_by_id (lock_run_family i (ap_db s))) payload
       (as_revision projection) results s = Inr (c, s1)"
    "rewrote (ap_db s) i r' (ap_db s')" "accepted_state env run owner c r'"
    using resume_cases [OF inv ok] by metis
  note c = reserved_ok [OF ad inv a(2,3)]
  have "load_approval_continuation env r' = Inr c"
    using load_dump [OF ad c, of r'] a(5) by (simp add: accepted_state_def)
  moreover have "cn_owner c = owner" "cn_phase c = Reserved" "cn_claimed c = []" using a(3) by (rule reserve_cases; simp)+
  ultimately show ?thesis using a by (intro that)
qed

text \<open>A refusal changes nothing, except that it may settle the family.\<close>

lemma resume_refusal:
  assumes "resume_agent_run env te now generation owner members actor workspace i payload cj s = (Inl e, s')"
  shows "s' = s \<or> (\<exists>code message changed db. settle_run_family (ae_run env) now i RunFailed (Some code) (Some message) None (ap_db s) =
    Inr (changed, db) \<and> s' = s\<lparr>ap_db := db\<rparr>)"
proof -
  let ?settled = "\<exists>code message changed db. settle_run_family (ae_run env) now i RunFailed (Some code) (Some message) None (ap_db s) =
    Inr (changed, db) \<and> s' = s\<lparr>ap_db := db\<rparr>"
  have settle: "settle_and_refuse env now i code message refusal s = (Inl e, s') \<Longrightarrow> s' \<noteq> s \<Longrightarrow> ?settled" for code message refusal
    using settle_and_refuse_cases(2) by blast
  show ?thesis
  proof (rule ccontr)
    assume "\<not> ?thesis"
    then have "s' \<noteq> s" "\<not> ?settled" by blast+
    with assms settle show False
      unfolding resume_agent_run_def Let_def
      by (simp split: option.splits sum.splits if_splits app_error.splits prod.splits)
  qed
qed

end
