(* ===== verification/Approval_Effects.thy ===== *)
theory Approval_Effects
  imports Approval_Steps
begin

text \<open>
  The remaining transactions of the approvals: starting the accepted continuation, starting a specialist's
  share of it, reviewing a proposal and sweeping expired waits.
\<close>

section \<open>Starting the continuation\<close>

lemma start_cases:
  assumes inv: "run_inv (ap_db s)" and ok: "claim_approval_continuation env now i owner s = Inr (x, s')"
  obtains (already) "x = None" "s' = s"
  | (started) run c st results run1 where "x = Some (st, results)" "row_by_id ar_id i (agent_runs (ap_db s)) = Some run"
      "require_execution_owner run owner now = Inr ()" "load_approval_continuation env run = Inr c"
      "ae_text env (cn_owner c) = owner" "cn_phase c = Reserved" "load_suspended_run_state env run = Inr st"
      "ae_results_in env (JObj (cn_results c)) = Some results"
      "store_approval_continuation env (c\<lparr>cn_phase := Started\<rparr>) run = Inr run1"
      "rewrote (ap_db s) i (run1\<lparr>ar_updated_at := now\<rparr>) (ap_db s')"
      "ap_audits s' = ap_audits s @ [ApprovalStarted (ar_workspace_id run) (ar_id run) (cn_generation c)]"
proof -
  obtain run rest where fam: "lock_run_family i (ap_db s) = run # rest" and id: "ar_id run = i"
    using ok by (auto simp: claim_approval_continuation_def split: list.splits if_splits)
  note row = head_row [OF inv fam id]
  obtain c where c: "require_execution_owner run owner now = Inr ()" "load_approval_continuation env run = Inr c"
      "ae_text env (cn_owner c) = owner"
    using ok fam id by (auto simp: claim_approval_continuation_def bind_result_Inr split: if_splits)
  show ?thesis
  proof (cases "cn_phase c")
    case Started
    with ok fam id c have "x = None" "s' = s" by (simp_all add: claim_approval_continuation_def)
    then show ?thesis by (rule already)
  next
    case Reserved
    with ok fam id c obtain st results run1 where
      st: "load_suspended_run_state env run = Inr st" "ae_results_in env (JObj (cn_results c)) = Some results"
        "store_approval_continuation env (c\<lparr>cn_phase := Started\<rparr>) run = Inr run1"
      and res: "x = Some (st, results)" "s' = s\<lparr>ap_db := put_run now run1 (ap_db s),
          ap_audits := ap_audits s @ [ApprovalStarted (ar_workspace_id run) (ar_id run) (cn_generation c)]\<rparr>"
      by (auto simp: claim_approval_continuation_def bind_result_Inr split: option.splits)
    from put_rewrote [OF run_invD(1) [OF inv] row store_annotates [OF st(3)] owned_open [OF c(1)], of now]
    show ?thesis by (intro started [OF res(1) row c Reserved st]) (simp_all add: res(2))
  qed
qed

section \<open>Starting a specialist's share\<close>

lemma child_cases:
  assumes inv: "run_inv (ap_db s)"
    and ok: "resume_child env now parent_id child_id workspace user call root_owner child_owner results s = Inr s'"
  obtains main child c st main1 child1 where
    "row_by_id ar_id parent_id (agent_runs (ap_db s)) = Some main" "require_execution_owner main root_owner now = Inr ()"
    "row_by_id ar_id child_id (agent_runs (ap_db s)) = Some child" "ar_parent_run_id child = Some parent_id"
    "ar_status child = RunAwaitingApproval" "load_suspended_run_state env child = Inr st"
    "load_approval_continuation env main = Inr c" "cn_phase c = Started" "ae_text env (cn_owner c) = root_owner"
    "child_id \<in> fst ` set (cn_child_batches c)" "child_id \<notin> set (cn_claimed c)"
    "map_of (cn_child_batches c) child_id = Some (su_batch st)"
    "\<exists>metadata a. saved_child_decision c call = Some metadata \<and>
       dict_get metadata ''child_run_id'' = Some (JStr (ae_text env child_id)) \<and>
       proposal_digest env (if_none (dict_get metadata ''child_deferred_tool_results'') JNull) = Inr a \<and>
       proposal_digest env (JObj (ae_results_out env results)) = Inr a"
    "store_approval_continuation env (c\<lparr>cn_claimed := cn_claimed c @ [child_id]\<rparr>) main = Inr main1"
    "\<exists>db1. rewrote (ap_db s) parent_id (main1\<lparr>ar_updated_at := now\<rparr>) db1 \<and> rewrote db1 child_id child1 (ap_db s')"
    "parent_id \<noteq> child_id" "ar_metadata_json child1 = ar_metadata_json child"
    "ar_owner_instance_id child1 = Some child_owner" "ar_status child1 = RunRunning"
proof -
  let ?P = "\<lambda>r. ar_id r = child_id \<and> ar_parent_run_id r = Some parent_id \<and> ar_workspace_id r = workspace \<and>
      ar_user_id r = user \<and> \<not> ar_deleted r"
  obtain main0 rest where fam: "lock_run_family parent_id (ap_db s) = main0 # rest"
    using ok by (auto simp: resume_child_def split: list.splits)
  obtain child st0 where owned: "require_execution_owner main0 root_owner now = Inr ()" "ar_status main0 = RunRunning"
      "find ?P (agent_runs (ap_db s)) = Some child" "load_suspended_run_state env child = Inr st0"
    and claim: "claim_child_approval env now main0 child call root_owner child_owner results s = Inr s'"
    using ok fam by (auto simp: resume_child_def bind_result_Inr split: if_splits option.splits)
  note child = found_row [OF inv owned(3)]
  have ch: "ar_id child = child_id" "ar_parent_run_id child = Some parent_id" using child(2) by auto
  obtain c where c: "load_approval_continuation env main0 = Inr c" "cn_phase c = Started" "ae_text env (cn_owner c) = root_owner"
      "ar_parent_run_id child = Some (ar_id main0)" "ar_status child = RunAwaitingApproval"
      "child_id \<in> fst ` set (cn_child_batches c)" "child_id \<notin> set (cn_claimed c)"
    using claim owned ch by (auto simp: claim_child_approval_def bind_result_Inr split: if_splits)
  have id: "ar_id main0 = parent_id" using c(4) ch by simp
  note row = head_row [OF inv fam id]
  have guard: "\<not> (cn_phase c \<noteq> Started \<or> ae_text env (cn_owner c) \<noteq> root_owner \<or>
           ar_parent_run_id child \<noteq> Some (ar_id main0) \<or> ar_status child \<noteq> RunAwaitingApproval \<or>
           ar_id child \<notin> fst ` set (cn_child_batches c) \<or> ar_id child \<in> set (cn_claimed c))"
    using c ch by simp
  note claim' = claim [unfolded claim_child_approval_def owned(1) c(1) bind_result_simps if_not_P [OF guard] owned(4)]
  have batch: "map_of (cn_child_batches c) child_id = Some (su_batch st0)"
    using claim' ch by (auto split: if_splits)
  obtain metadata where md: "saved_child_decision c call = Some metadata"
      "dict_get metadata ''child_run_id'' = Some (JStr (ae_text env child_id))"
    using claim' batch ch by (auto split: if_splits option.splits)
  obtain a where a: "proposal_digest env (if_none (dict_get metadata ''child_deferred_tool_results'') JNull) = Inr a"
      "proposal_digest env (JObj (ae_results_out env results)) = Inr a"
    using claim' batch ch md by (auto simp: bind_result_Inr split: if_splits)
  obtain main1 where main1: "store_approval_continuation env (c\<lparr>cn_claimed := cn_claimed c @ [child_id]\<rparr>) main0 = Inr main1"
    using claim' batch ch md a by (auto simp: bind_result_Inr)
  obtain child1 where start: "start_agent_run_with_lease (ae_run env) child_id child_owner now now None
      (put_run now main1 (ap_db s)) = Inr (child1, ap_db s')"
    using claim' batch ch md a main1 by (auto simp: bind_result_Inr)
  have ne: "parent_id \<noteq> child_id"
  proof
    assume same: "parent_id = child_id"
    from child(1) ch have "row_by_id ar_id child_id (agent_runs (ap_db s)) = Some child" by simp
    then have "child \<in> set (agent_runs (ap_db s))" by (simp add: row_by_id_Some)
    from run_invD(5) [OF inv this] ch same obtain q where "q \<in> set (agent_runs (ap_db s))" "ar_id q = child_id"
      "ar_parent_run_id q = None" by (auto simp: parent_ok_def)
    with ch distinct_key_eq [OF run_invD(2) [OF inv] _ \<open>child \<in> set (agent_runs (ap_db s))\<close>] show False by fastforce
  qed
  note put = put_rewrote [OF run_invD(1) [OF inv] row store_annotates [OF main1] owned_open [OF owned(1)], of now]
  note started = start_rewrote [OF rewrote_ids [OF put run_invD(1) [OF inv]] start]
  have "row_by_id ar_id child_id (agent_runs (put_run now main1 (ap_db s))) = Some child"
    using rewroteD(3) [OF put, of child_id] ne child(1) ch by simp
  note meta = start_with_lease_metadata [OF start this]
  show ?thesis
    using child ch row c batch md a main1 put started meta ne owned
    by (intro that [of main0 child st0 c main1 child1]) auto
qed

section \<open>Reviewing a proposal\<close>

text \<open>A review rewrites the saved proposal of a row, and nothing else of it: not even \<^verbatim>\<open>updated_at\<close>.\<close>

definition reviewed_row :: "agent_run \<Rightarrow> agent_run \<Rightarrow> bool" where
  "reviewed_row r r' \<longleftrightarrow> r' = r\<lparr>ar_metadata_json := ar_metadata_json r'\<rparr> \<and>
     (\<forall>k. k \<noteq> ''approval_state'' \<longrightarrow>
        dict_get (or_empty (ar_metadata_json r')) k = dict_get (or_empty (ar_metadata_json r)) k)"

lemma reviewed_refl [simp, intro]: "reviewed_row r r"
  by (simp add: reviewed_row_def)

lemma reviewed_trans: "reviewed_row r s \<Longrightarrow> reviewed_row s t \<Longrightarrow> reviewed_row r t"
  by (cases r; cases s; cases t) (simp add: reviewed_row_def)

lemma reviewed_annotates: "reviewed_row r r' \<Longrightarrow> annotates r r'"
  by (cases r; cases r') (simp add: reviewed_row_def annotates_def)

lemma reviewed_same:
  assumes "reviewed_row r r'"
  shows "ar_updated_at r' = ar_updated_at r" "ar_status r' = ar_status r" "reservation_json r' = reservation_json r"
    "ar_owner_instance_id r' = ar_owner_instance_id r" "ar_lease_expires_at r' = ar_lease_expires_at r"
proof -
  have eq: "r' = r\<lparr>ar_metadata_json := ar_metadata_json r'\<rparr>" using assms by (simp add: reviewed_row_def)
  show "ar_updated_at r' = ar_updated_at r" "ar_status r' = ar_status r"
    "ar_owner_instance_id r' = ar_owner_instance_id r" "ar_lease_expires_at r' = ar_lease_expires_at r"
    by (subst eq, simp)+
  show "reservation_json r' = reservation_json r" using assms by (simp add: reviewed_row_def reservation_json_def)
qed

lemma set_revision_reviewed: "reviewed_row r (set_revision v r)"
  by (auto simp: reviewed_row_def set_revision_def split: option.splits json.splits)

lemma set_request_reviewed: "set_request_metadata k v r = Some r' \<Longrightarrow> reviewed_row r r'"
  by (auto simp: reviewed_row_def set_request_metadata_def Let_def split: option.splits json.splits)

definition reviewed_db :: "run_db \<Rightarrow> run_db \<Rightarrow> bool" where
  "reviewed_db db db' \<longleftrightarrow> db_evolves db db' \<and>
     (\<forall>k. rel_option reviewed_row (row_by_id ar_id k (agent_runs db)) (row_by_id ar_id k (agent_runs db')))"

lemma reviewed_db_trans: "reviewed_db a b \<Longrightarrow> reviewed_db b c \<Longrightarrow> reviewed_db a c"
proof -
  have "rel_option reviewed_row x z" if "rel_option reviewed_row x y" "rel_option reviewed_row y z" for x y z
    using that by (cases x; cases y; cases z) (auto intro: reviewed_trans)
  then show "reviewed_db a b \<Longrightarrow> reviewed_db b c \<Longrightarrow> reviewed_db a c"
    unfolding reviewed_db_def by (blast intro: db_evolves_trans)
qed

lemma reviewed_write:
  assumes "run_ids_ok db" and "row_by_id ar_id i (agent_runs db) = Some r" and "reviewed_row r r'"
    and "\<not> is_terminal (ar_status r)"
  shows "reviewed_db db (db\<lparr>agent_runs := write_row ar_id r' (agent_runs db)\<rparr>)"
    and "row_by_id ar_id i (write_row ar_id r' (agent_runs db)) = Some r'"
    and "k \<noteq> i \<Longrightarrow> row_by_id ar_id k (write_row ar_id r' (agent_runs db)) = row_by_id ar_id k (agent_runs db)"
proof -
  note w = annotated_row [OF assms(1,2) reviewed_annotates [OF assms(3)] assms(4)]
  have "rel_option reviewed_row (row_by_id ar_id k (agent_runs db)) (row_by_id ar_id k (write_row ar_id r' (agent_runs db)))" for k
    using assms(2,3) by (auto simp: w(2) option.rel_refl)
  with w(1) show "reviewed_db db (db\<lparr>agent_runs := write_row ar_id r' (agent_runs db)\<rparr>)" by (simp add: reviewed_db_def)
  show "row_by_id ar_id i (write_row ar_id r' (agent_runs db)) = Some r'"
    and "k \<noteq> i \<Longrightarrow> row_by_id ar_id k (write_row ar_id r' (agent_runs db)) = row_by_id ar_id k (agent_runs db)"
    by (simp_all add: w(2))
qed

lemma apply_review_effect:
  assumes inv: "run_inv (ap_db s)" and main: "row_by_id ar_id i (agent_runs (ap_db s)) = Some main"
    and waiting: "ar_status main = RunAwaitingApproval"
    and owner: "row_by_id ar_id (leaf_owner leaf) (agent_runs (ap_db s)) = Some own" "ar_status own = RunAwaitingApproval"
    and ok: "apply_review env te i (lock_run_family i (ap_db s)) leaf payload s = Inr (p, s')"
  shows "reviewed_db (ap_db s) (ap_db s')"
proof -
  let ?family = "lock_run_family i (ap_db s)"
  note uniq = row_by_id_unique [OF run_invD(2) [OF inv]]
  obtain o1 where o1: "find (\<lambda>r. ar_id r = leaf_owner leaf) ?family = Some o1" and rv: "reviewable te (leaf_direct leaf)"
    using ok by (auto simp: apply_review_def Let_def leaf_owner_def split: option.splits if_splits)
  note ok1 = ok [unfolded apply_review_def Let_def, folded leaf_owner_def, unfolded o1 option.case, simplified rv, simplified]
  obtain x display where dg: "validate_and_canonicalize_override_args env te o1 (dn_call (leaf_direct leaf)) (Some (rv_override payload)) = Inr x"
      "to_display te o1 (tc_name (dn_call (leaf_direct leaf))) (tc_id (dn_call (leaf_direct leaf))) (if_none x []) = Inr display"
    using ok1 by (auto simp: bind_result_Inr)
  let ?set = "set_request_metadata (if_none (leaf_outer leaf) (tc_id (dn_call (leaf_direct leaf))))
      (dict_set ''reviewed_args'' (JObj (if_none x [])) (dict_set ''display_args'' (JObj display) (dn_metadata (leaf_direct leaf)))) o1"
  obtain o2 where set2: "?set = Some o2" using ok1 dg by (cases ?set) (auto simp: bind_result_Inr)
  have o2: "reviewed_row o1 o2" using set2 by (rule set_request_reviewed)
  let ?find = "find (\<lambda>r. ar_id r = i) (map (\<lambda>r. if ar_id r = ar_id o1 then o2 else r) ?family)"
  obtain m where m: "?find = Some m" using ok1 dg set2 by (cases ?find) (auto simp: bind_result_Inr)
  have s': "ap_db s' = keep_rows [o2, set_revision (as_revision p) m] (ap_db s)"
    using ok1 dg set2 m by (auto simp: bind_result_Inr)
  have "o1 \<in> set (agent_runs (ap_db s))" "ar_id o1 = leaf_owner leaf"
    using find_SomeD [OF o1] lock_run_family_rows by auto
  with owner(1) uniq have own: "o1 = own" by fastforce
  have id2: "ar_id o2 = ar_id o1" using annotates_simps(2) [OF reviewed_annotates [OF o2]] .
  have key: "ar_id own = leaf_owner leaf" using owner(1) row_by_id_Some by metis
  have open1: "\<not> is_terminal (ar_status o1)" using owner(2) by (simp add: own terminal_iff)
  have row1: "row_by_id ar_id (leaf_owner leaf) (agent_runs (ap_db s)) = Some o1" using owner(1) own by simp
  let ?db = "(ap_db s)\<lparr>agent_runs := write_row ar_id o2 (agent_runs (ap_db s))\<rparr>"
  note w1 = reviewed_write [OF run_invD(1) [OF inv] row1 o2 open1]
  have row_m: "row_by_id ar_id i (agent_runs ?db) = Some m"
  proof -
    from find_SomeD [OF m] obtain r where r: "r \<in> set ?family" "m = (if ar_id r = ar_id o1 then o2 else r)" "ar_id m = i"
      unfolding set_map by blast
    have "r \<in> set (agent_runs (ap_db s))" using r(1) by (rule lock_run_family_rows)
    then have "row_by_id ar_id (ar_id r) (agent_runs (ap_db s)) = Some r" using uniq by simp
    with r(2,3) id2 key own w1(2) w1(3) [of "ar_id r"] show ?thesis by (auto split: if_splits)
  qed
  have "\<not> is_terminal (ar_status m)"
  proof -
    have "rel_option reviewed_row (row_by_id ar_id i (agent_runs (ap_db s))) (row_by_id ar_id i (agent_runs ?db))"
      using w1(1) unfolding reviewed_db_def by blast
    then show ?thesis using main row_m reviewed_same(2) [of main m] waiting by (simp add: terminal_iff)
  qed
  moreover have "run_ids_ok ?db" using w1(1) run_invD(1) [OF inv] db_evolves_ids unfolding reviewed_db_def by blast
  ultimately have "reviewed_db ?db (?db\<lparr>agent_runs := write_row ar_id (set_revision (as_revision p) m) (agent_runs ?db)\<rparr>)"
    using row_m set_revision_reviewed by (intro reviewed_write(1))
  with w1(1) have "reviewed_db (ap_db s) (?db\<lparr>agent_runs := write_row ar_id (set_revision (as_revision p) m) (agent_runs ?db)\<rparr>)"
    by (rule reviewed_db_trans)
  then show ?thesis by (simp add: s' keep_rows_def)
qed

lemma review_cases:
  assumes inv: "run_inv (ap_db s)"
    and ok: "review_agent_run_approval env te now membership actor workspace i payload s = Inr (p, s')"
  obtains g projection leaf item where "membership = (actor, workspace)"
    "projected_graph env actor workspace i (ap_db s) = Inr (g, projection)" "leaf \<in> set (graph_leaves g)"
    "rv_revision payload = as_revision projection"
    "apply_review env te i (lock_run_family i (ap_db s)) leaf payload s = Inr (p, s')"
    "(leaf, item) \<in> set (zip (graph_leaves g) (as_approvals projection))" "pa_approval_id item = rv_approval_id payload"
proof -
  obtain g projection where pre: "membership = (actor, workspace)"
      "projected_graph env actor workspace i (ap_db s) = Inr (g, projection)" "rv_revision payload = as_revision projection"
      "(case find (\<lambda>(leaf, item). pa_approval_id item = rv_approval_id payload) (zip (graph_leaves g) (as_approvals projection)) of
          None \<Rightarrow> Inl approval_review_required
        | Some (leaf, item) \<Rightarrow> apply_review env te i (lock_run_family i (ap_db s)) leaf payload s) = Inr (p, s')"
  proof -
    obtain run where run: "find (\<lambda>r. ar_id r = i \<and> ar_workspace_id r = workspace \<and> ar_user_id r = actor \<and> \<not> ar_deleted r)
         (agent_runs (ap_db s)) = Some run" and member: "membership = (actor, workspace)"
      using ok by (auto simp: review_agent_run_approval_def split: option.splits if_splits)
    note ok1 = ok [unfolded review_agent_run_approval_def run member, simplified, unfolded Let_def]
    obtain d where d: "approval_family_deadline (e_settings (ae_run env)) (lock_run_family i (ap_db s)) None = Inr d"
        "\<not> null_le d now"
      using ok1 by (auto simp: bind_result_Inr split: if_splits)
    obtain g projection where g: "projected_graph env actor workspace i (ap_db s) = Inr (g, projection)"
      using ok1 d by (auto simp: bind_result_Inr)
    from ok1 d g have "rv_revision payload = as_revision projection"
      by (auto simp: bind_result_Inr split: if_splits)
    with ok1 d g member show ?thesis by (intro that [of g projection]) (auto simp: bind_result_Inr)
  qed
  obtain leaf item where f: "find (\<lambda>(leaf, item). pa_approval_id item = rv_approval_id payload)
      (zip (graph_leaves g) (as_approvals projection)) = Some (leaf, item)"
    using pre(4) by (auto split: option.splits)
  from find_SomeD [OF f] have "(leaf, item) \<in> set (zip (graph_leaves g) (as_approvals projection))"
    "pa_approval_id item = rv_approval_id payload" by auto
  moreover from this(1) have "leaf \<in> set (graph_leaves g)" by (rule set_zip_leftD)
  ultimately show ?thesis using pre f by (intro that [of g projection leaf item]) auto
qed

lemma review_effect:
  assumes inv: "run_inv (ap_db s)"
    and ok: "review_agent_run_approval env te now membership actor workspace i payload s = Inr (p, s')"
  shows "reviewed_db (ap_db s) (ap_db s')"
proof -
  obtain g projection leaf where
    g: "projected_graph env actor workspace i (ap_db s) = Inr (g, projection)" "leaf \<in> set (graph_leaves g)"
    and applied: "apply_review env te i (lock_run_family i (ap_db s)) leaf payload s = Inr (p, s')"
    by (rule review_cases [OF assms])
  note load = projected_cases(1) [OF g(1)]
  obtain main children where main: "row_by_id ar_id i (agent_runs (ap_db s)) = Some main" "ar_status main = RunAwaitingApproval"
    by (rule load_graph_cases [OF inv load])
  obtain own where own: "row_by_id ar_id (leaf_owner leaf) (agent_runs (ap_db s)) = Some own" "ar_status own = RunAwaitingApproval"
    by (rule graph_leaf_row [OF inv load g(2)])
  show ?thesis by (rule apply_review_effect [OF inv main own applied])
qed

section \<open>The sweep\<close>

lemma sweep_loop_chain:
  assumes refl: "\<And>s. P s s" and trans: "\<And>s t u. P s t \<Longrightarrow> P t u \<Longrightarrow> P s u"
    and settle: "\<And>s i code m changed db. run_inv (ap_db s) \<Longrightarrow>
      settle_run_family (ae_run env) now i RunFailed (Some code) (Some m) None (ap_db s) = Inr (changed, db) \<Longrightarrow>
      P s (s\<lparr>ap_db := db\<rparr>)"
  shows "run_inv (ap_db s) \<Longrightarrow> P s (snd (sweep_loop env now cutoff days batch visited expired s))"
proof (induction "batch - card (set visited)" arbitrary: visited expired s rule: less_induct)
  case less
  show ?case
  proof (cases "card (set visited) < batch")
    case False
    then show ?thesis by (simp add: sweep_loop.simps refl)
  next
    case more_left: True
    show ?thesis
    proof (cases "next_expired cutoff visited (ap_db s)")
      case None
      with more_left show ?thesis by (simp add: sweep_loop.simps refl)
    next
      case (Some run)
      let ?family = "lock_run_family (ar_id run) (ap_db s)"
      let ?visited = "visited @ ar_id run # map ar_id ?family"
      have smaller: "batch - card (set ?visited) < batch - card (set visited)"
        using next_expired_row [OF Some] more_left by (intro visited_grows) simp_all
      show ?thesis
      proof (cases "expiry_verdict env now days ?family")
        case None
        with more_left Some less.hyps [OF smaller less.prems] show ?thesis by (simp add: sweep_loop.simps Let_def)
      next
        case verdict: (Some v)
        obtain code m where v: "v = (code, m)" by fastforce
        let ?settle = "settle_run_family (ae_run env) now (ar_id (hd ?family)) RunFailed (Some code) (Some m) None (ap_db s)"
        show ?thesis
        proof (cases ?settle)
          case (Inl e)
          with more_left Some verdict v show ?thesis by (simp add: sweep_loop.simps Let_def refl)
        next
          case (Inr y)
          obtain changed db where y: "y = (changed, db)" by fastforce
          note done_ = Inr [unfolded y]
          have inv: "run_inv db" using settle_run_family_evolves [OF less.prems done_] db_evolves_inv [OF less.prems] by blast
          have "P (s\<lparr>ap_db := db\<rparr>) (snd (sweep_loop env now cutoff days batch ?visited (expired @ map ar_id changed) (s\<lparr>ap_db := db\<rparr>)))"
            using less.hyps [OF smaller, of "s\<lparr>ap_db := db\<rparr>"] inv by simp
          with trans settle [OF less.prems done_] more_left Some verdict v done_ show ?thesis
            by (simp add: sweep_loop.simps [of _ _ _ _ _ visited] Let_def)
        qed
      qed
    qed
  qed
qed

lemma sweep_chain:
  assumes "\<And>s. P s s" and "\<And>s t u. P s t \<Longrightarrow> P t u \<Longrightarrow> P s u"
    and "\<And>s i code m changed db. run_inv (ap_db s) \<Longrightarrow>
      settle_run_family (ae_run env) now i RunFailed (Some code) (Some m) None (ap_db s) = Inr (changed, db) \<Longrightarrow>
      P s (s\<lparr>ap_db := db\<rparr>)"
    and "run_inv (ap_db s)"
  shows "P s (snd (sweep_expired_agent_run_approvals env now days batch s))"
  using assms(1) sweep_loop_chain [OF assms]
  by (simp add: sweep_expired_agent_run_approvals_def Let_def)

end
