(* ===== verification/Approval_System.thy ===== *)
theory Approval_System
  imports Approval_Effects
begin

text \<open>
  The approvals as a system of committed transactions, together with all of the run component's. Its
  contracts: the run table's invariant, and two fences. The reservation of a run is held by the owner that its
  acceptance drew, until it is started; a specialist's share of it is held by the same owner, until it is
  started. So whatever else happens, each is started at most once.
\<close>

datatype approval_event =
    RunChange run_event
  | SuspendRun timestamp uuid uuid "string option" messages deferred_requests
  | ReviewRun tool_env timestamp "uuid \<times> uuid" uuid uuid uuid review_request
  | ResumeRun tool_env timestamp uuid uuid "(uuid \<times> uuid) list" uuid uuid uuid resume_request "json option"
  | StartContinuation timestamp uuid string
  | StartChild timestamp uuid uuid uuid uuid string string string deferred_results
  | SweepApprovals timestamp "int option" int

definition approved_or :: "approval_db \<Rightarrow> app_error + 'r \<times> approval_db \<Rightarrow> approval_db" where
  "approved_or s r = (case r of Inl e \<Rightarrow> s | Inr (x, s') \<Rightarrow> s')"

fun approval_step :: "approval_env \<Rightarrow> approval_db \<Rightarrow> approval_event \<Rightarrow> approval_db" where
  "approval_step env s (RunChange e) = s\<lparr>ap_db := run_step (ae_run env) (ap_db s) e\<rparr>"
| "approval_step env s (SuspendRun now fresh i invocation history requests) =
     approved_or s (persist_suspended_run env now fresh i invocation history requests s)"
| "approval_step env s (ReviewRun te now membership actor workspace i payload) =
     approved_or s (review_agent_run_approval env te now membership actor workspace i payload s)"
| "approval_step env s (ResumeRun te now generation owner members actor workspace i payload cj) =
     snd (resume_agent_run env te now generation owner members actor workspace i payload cj s)"
| "approval_step env s (StartContinuation now i owner) =
     approved_or s (claim_approval_continuation env now i owner s)"
| "approval_step env s (StartChild now parent child workspace user call root_owner child_owner results) =
     (case resume_child env now parent child workspace user call root_owner child_owner results s of
        Inl e \<Rightarrow> s | Inr s' \<Rightarrow> s')"
| "approval_step env s (SweepApprovals now days batch) = snd (sweep_expired_agent_run_approvals env now days batch s)"

lemma approved_or_cases:
  "approved_or s r = s \<or> (\<exists>x. r = Inr (x, approved_or s r))"
  by (auto simp: approved_or_def split: sum.splits)

section \<open>The run table\<close>

lemma suspend_evolves:
  assumes "run_inv (ap_db s)" and "persist_suspended_run env now fresh i invocation history requests s = Inr (b, s')"
  shows "db_evolves (ap_db s) (ap_db s')"
  by (rule persist_cases [OF assms]) (auto dest: rewroteD(1))

lemma resume_evolves:
  assumes inv: "run_inv (ap_db s)"
  shows "db_evolves (ap_db s) (ap_db (snd (resume_agent_run env te now generation owner members actor workspace i payload cj s)))"
proof (cases "resume_agent_run env te now generation owner members actor workspace i payload cj s")
  case (Pair r s')
  show ?thesis
  proof (cases r)
    case (Inl e)
    with resume_refusal [of env te now generation owner members actor workspace i payload cj s e s'] Pair
      settle_run_family_evolves [OF inv] show ?thesis by auto
  next
    case (Inr c)
    obtain r' where "rewrote (ap_db s) i r' (ap_db s')" by (rule resume_cases [OF inv Pair [unfolded Inr]])
    then show ?thesis using Pair by (simp add: rewroteD(1))
  qed
qed

lemma start_evolves:
  assumes "run_inv (ap_db s)" and "claim_approval_continuation env now i owner s = Inr (x, s')"
  shows "db_evolves (ap_db s) (ap_db s')"
  by (rule start_cases [OF assms]) (auto dest: rewroteD(1))

lemma child_evolves:
  assumes "run_inv (ap_db s)"
    and "resume_child env now parent child workspace user call root_owner child_owner results s = Inr s'"
  shows "db_evolves (ap_db s) (ap_db s')"
  by (rule child_cases [OF assms]) (auto dest: rewroteD(1) intro: db_evolves_trans)

lemma sweep_evolves:
  assumes "run_inv (ap_db s)"
  shows "db_evolves (ap_db s) (ap_db (snd (sweep_expired_agent_run_approvals env now days batch s)))"
  by (rule sweep_chain [of "\<lambda>s t. db_evolves (ap_db s) (ap_db t)", OF _ _ _ assms])
     (auto intro: db_evolves_trans settle_run_family_evolves)

lemma approval_step_evolves:
  assumes inv: "run_inv (ap_db s)" and "\<And>r. e \<noteq> RunChange r"
  shows "db_evolves (ap_db s) (ap_db (approval_step env s e))"
proof (cases e)
  case (RunChange r)
  with assms(2) show ?thesis by blast
next
  case (SuspendRun now fresh i invocation history requests)
  then show ?thesis
    using approved_or_cases [of s "persist_suspended_run env now fresh i invocation history requests s"] suspend_evolves [OF inv]
    by fastforce
next
  case (ReviewRun te now membership actor workspace i payload)
  then show ?thesis
    using approved_or_cases [of s "review_agent_run_approval env te now membership actor workspace i payload s"]
      review_effect [OF inv] by (fastforce simp: reviewed_db_def)
next
  case (ResumeRun te now generation owner members actor workspace i payload cj)
  then show ?thesis using resume_evolves [OF inv] by simp
next
  case (StartContinuation now i owner)
  then show ?thesis
    using approved_or_cases [of s "claim_approval_continuation env now i owner s"] start_evolves [OF inv] by fastforce
next
  case (StartChild now parent child workspace user call root_owner child_owner results)
  then show ?thesis using child_evolves [OF inv] by (simp split: sum.splits)
next
  case (SweepApprovals now days batch)
  then show ?thesis using sweep_evolves [OF inv] by simp
qed

definition approval_inv :: "approval_env \<Rightarrow> approval_db \<Rightarrow> bool" where
  "approval_inv env s \<longleftrightarrow> adapters_ok env \<and> run_inv (ap_db s)"

lemma approval_step_inv: "approval_inv env s \<Longrightarrow> approval_inv env (approval_step env s e)"
proof -
  assume inv: "approval_inv env s"
  show ?thesis
  proof (cases "\<exists>r. e = RunChange r")
    case True
    with inv run_step_inv show ?thesis by (auto simp: approval_inv_def)
  next
    case False
    with inv db_evolves_inv approval_step_evolves [of s e env] show ?thesis by (auto simp: approval_inv_def)
  qed
qed

interpretation approval_system: invariant_system "approval_step env" "approval_inv env" for env
  by unfold_locales (rule approval_step_inv)

text \<open>A stored run stays stored and evolves by the contract of the run component.\<close>

lemma approval_step_row:
  assumes "run_inv (ap_db s)" and "row_by_id ar_id i (agent_runs (ap_db s)) = Some r"
  shows "\<exists>r'. row_by_id ar_id i (agent_runs (ap_db (approval_step env s e))) = Some r' \<and> evolves r r'"
proof (cases "\<exists>x. e = RunChange x")
  case True
  with run_step_row [OF assms] show ?thesis by auto
next
  case False
  then have "db_evolves (ap_db s) (ap_db (approval_step env s e))" by (intro approval_step_evolves [OF assms(1)]) blast
  then have "runs_evolve (agent_runs (ap_db s)) (agent_runs (ap_db (approval_step env s e)))" by (simp add: db_evolves_def)
  from runs_evolve_row_by_id [OF this, of i] assms(2) show ?thesis by simp
qed

section \<open>The reservation through every event\<close>

definition loaded :: "approval_env \<Rightarrow> approval_db \<Rightarrow> uuid \<Rightarrow> approval_continuation option" where
  "loaded env s i =
     (case row_by_id ar_id i (agent_runs (ap_db s)) of
        None \<Rightarrow> None
      | Some r \<Rightarrow> (case load_approval_continuation env r of Inl e \<Rightarrow> None | Inr c \<Rightarrow> Some c))"

lemma load_None: "reservation_json r = None \<Longrightarrow> load_approval_continuation env r \<noteq> Inr c"
  by (auto simp: load_approval_continuation_def reservation_json_def bind_result_Inr validate_continuation_def Let_def
      split: option.splits)

lemma loaded_row:
  "row_by_id ar_id i (agent_runs (ap_db s)) = Some r \<Longrightarrow> loaded env s i = Some c \<longleftrightarrow> load_approval_continuation env r = Inr c"
  by (auto simp: loaded_def split: sum.splits)

definition kept_reservations :: "approval_db \<Rightarrow> approval_db \<Rightarrow> bool" where
  "kept_reservations s s' \<longleftrightarrow> kept.related ''approval_continuation'' (ap_db s) (ap_db s')"

lemma kept_loaded:
  assumes "kept_reservations s s'"
  shows "loaded env s' i \<in> {loaded env s i, None}"
proof (cases "row_by_id ar_id i (agent_runs (ap_db s'))")
  case None
  then show ?thesis by (simp add: loaded_def)
next
  case (Some r')
  with assms obtain r where r: "row_by_id ar_id i (agent_runs (ap_db s)) = Some r"
      "reservation_json r' = reservation_json r \<or> reservation_json r' = None"
    unfolding kept_reservations_def kept.related_def kept_or_dropped_def reservation_json_def by blast
  from r(2) show ?thesis
  proof
    assume "reservation_json r' = reservation_json r"
    then have "load_approval_continuation env r' = load_approval_continuation env r" by (rule load_by_reservation)
    with Some r(1) show ?thesis by (simp add: loaded_def)
  next
    assume "reservation_json r' = None"
    with load_None [of r' env] Some show ?thesis by (auto simp: loaded_def split: sum.splits)
  qed
qed

lemma same_row_loaded:
  assumes "row_by_id ar_id k (agent_runs (ap_db s')) = row_by_id ar_id k (agent_runs (ap_db s))"
  shows "loaded env s' k = loaded env s k"
  using assms by (simp add: loaded_def)

lemma same_reservation_loaded:
  assumes "row_by_id ar_id k (agent_runs (ap_db s)) = Some r" "row_by_id ar_id k (agent_runs (ap_db s')) = Some r'"
    and "reservation_json r' = reservation_json r"
  shows "loaded env s' k = loaded env s k"
  using assms load_by_reservation [OF assms(3), of env] by (simp add: loaded_def)

lemma reviewed_loaded: "reviewed_db (ap_db s) (ap_db s') \<Longrightarrow> loaded env s' k = loaded env s k"
proof -
  assume rv: "reviewed_db (ap_db s) (ap_db s')"
  show ?thesis
  proof (cases "row_by_id ar_id k (agent_runs (ap_db s))")
    case None
    with rv have "row_by_id ar_id k (agent_runs (ap_db s')) = None"
      unfolding reviewed_db_def by (metis option.rel_distinct(1) option.exhaust)
    with None show ?thesis by (simp add: loaded_def)
  next
    case (Some r)
    with rv obtain r' where "row_by_id ar_id k (agent_runs (ap_db s')) = Some r'" "reviewed_row r r'"
      unfolding reviewed_db_def by (metis option_rel_Some1)
    with Some reviewed_same(3) show ?thesis by (intro same_reservation_loaded)
  qed
qed

lemma suspend_loaded:
  assumes "run_inv (ap_db s)" and "persist_suspended_run env now fresh i invocation history requests s = Inr (b, s')"
  shows "loaded env s' k \<in> {loaded env s k, None}" and "b \<Longrightarrow> loaded env s' i = None"
proof -
  have "loaded env s' k \<in> {loaded env s k, None} \<and> (b \<longrightarrow> loaded env s' i = None)"
    using assms
  proof (cases rule: persist_cases)
    case refused
    then show ?thesis by simp
  next
    case (suspended run r2 revision)
    let ?r = "case revision of None \<Rightarrow> r2 | Some v \<Rightarrow> (set_revision v r2)\<lparr>ar_updated_at := now\<rparr>"
    have "reservation_json r2 = None"
      using suspended(6) by (simp add: reservation_json_def build_suspended_run_metadata_def)
    then have "reservation_json ?r = None" by (simp add: set_revision_reservation split: option.splits)
    with load_None [of ?r env] rewroteD(2) [OF suspended(8)] have "loaded env s' i = None"
      by (simp add: loaded_def split: sum.splits)
    with same_row_loaded [OF rewroteD(3) [OF suspended(8), of k], of env] show ?thesis by (cases "k = i") auto
  qed
  then show "loaded env s' k \<in> {loaded env s k, None}" and "b \<Longrightarrow> loaded env s' i = None" by blast+
qed

lemma start_loaded:
  assumes ad: "adapters_ok env" and inv: "run_inv (ap_db s)"
    and ok: "claim_approval_continuation env now i owner s = Inr (Some x, s')"
  obtains c where "loaded env s i = Some c" "cn_phase c = Reserved" "ae_text env (cn_owner c) = owner"
    "ae_results_in env (JObj (cn_results c)) = Some (snd x)"
    "loaded env s' i = Some (c\<lparr>cn_phase := Started\<rparr>)" "\<And>k. k \<noteq> i \<Longrightarrow> loaded env s' k = loaded env s k"
  using inv ok
proof (cases rule: start_cases)
  case (started run c st results run1)
  let ?c = "c\<lparr>cn_phase := Started\<rparr>"
  have "continuation_ok env c" by (rule load_ok [OF started(4)])
  then have "continuation_ok env ?c" by (simp add: continuation_ok_def)
  from store_load [OF ad this started(9)] have "load_approval_continuation env (run1\<lparr>ar_updated_at := now\<rparr>) = Inr ?c" by simp
  with rewroteD(2) [OF started(10)] have new: "loaded env s' i = Some ?c" by (simp add: loaded_def)
  have old: "loaded env s i = Some c" using started(2,4) by (simp add: loaded_def)
  have others: "loaded env s' k = loaded env s k" if "k \<noteq> i" for k
    by (rule same_row_loaded [OF rewroteD(3) [OF started(10) that]])
  show ?thesis using started(1,5,6,8) by (intro that [OF old _ _ _ new others]) simp_all
qed simp

lemma child_loaded:
  assumes ad: "adapters_ok env" and inv: "run_inv (ap_db s)"
    and ok: "resume_child env now parent child workspace user call root_owner child_owner results s = Inr s'"
  obtains c where "loaded env s parent = Some c" "cn_phase c = Started" "ae_text env (cn_owner c) = root_owner"
    "child \<in> fst ` set (cn_child_batches c)" "child \<notin> set (cn_claimed c)"
    "loaded env s' parent = Some (c\<lparr>cn_claimed := cn_claimed c @ [child]\<rparr>)"
    "\<And>k. k \<noteq> parent \<Longrightarrow> loaded env s' k = loaded env s k"
  using inv ok
proof (cases rule: child_cases)
  case (1 main ch c st main1 child1)
  let ?c = "c\<lparr>cn_claimed := cn_claimed c @ [child]\<rparr>"
  obtain db1 where db1: "rewrote (ap_db s) parent (main1\<lparr>ar_updated_at := now\<rparr>) db1" "rewrote db1 child child1 (ap_db s')"
    using 1(15) by blast
  have "continuation_ok env c" by (rule load_ok [OF 1(7)])
  with 1(10,11) have "continuation_ok env ?c" by (simp add: continuation_ok_def)
  from store_load [OF ad this 1(14)] have "load_approval_continuation env (main1\<lparr>ar_updated_at := now\<rparr>) = Inr ?c" by simp
  moreover have row: "row_by_id ar_id parent (agent_runs (ap_db s')) = Some (main1\<lparr>ar_updated_at := now\<rparr>)"
    using rewroteD(3) [OF db1(2), of parent] rewroteD(2) [OF db1(1)] 1(16) by simp
  ultimately have new: "loaded env s' parent = Some ?c" by (simp add: loaded_def)
  have "loaded env s' k = loaded env s k" if "k \<noteq> parent" for k
  proof (cases "k = child")
    case True
    have "reservation_json child1 = reservation_json ch" using 1(17) by (simp add: reservation_json_def)
    with 1(3) rewroteD(2) [OF db1(2)] show ?thesis unfolding True by (intro same_reservation_loaded)
  next
    case False
    with that rewroteD(3) [OF db1(2), of k] rewroteD(3) [OF db1(1), of k] show ?thesis by (intro same_row_loaded) simp
  qed
  moreover have "loaded env s parent = Some c" using 1(1,7) by (simp add: loaded_def)
  ultimately show ?thesis using 1 new by (intro that [of c]) auto
qed

lemma accept_loaded:
  assumes ad: "adapters_ok env" and inv: "run_inv (ap_db s)"
    and ok: "resume_agent_run env te now generation owner members actor workspace i payload cj s = (Inr c, s')"
  shows "loaded env s i = None" "loaded env s' i = Some c" "k \<noteq> i \<Longrightarrow> loaded env s' k = loaded env s k"
    "cn_owner c = owner" "cn_phase c = Reserved" "cn_claimed c = []"
proof -
  obtain run r' where r: "row_by_id ar_id i (agent_runs (ap_db s)) = Some run" "rewrote (ap_db s) i r' (ap_db s')"
      "load_approval_continuation env r' = Inr c" "cn_owner c = owner" "cn_phase c = Reserved" "cn_claimed c = []"
    by (rule resume_loads [OF assms])
  obtain run' where "row_by_id ar_id i (agent_runs (ap_db s)) = Some run'" "reservation_json run' = None"
    by (rule resume_cases [OF inv ok])
  with r(1) load_None [of run env] show "loaded env s i = None" by (simp add: loaded_def split: sum.splits)
  show "loaded env s' i = Some c" using rewroteD(2) [OF r(2)] r(3) by (simp add: loaded_def)
  show "k \<noteq> i \<Longrightarrow> loaded env s' k = loaded env s k" by (rule same_row_loaded [OF rewroteD(3) [OF r(2)]])
  show "cn_owner c = owner" "cn_phase c = Reserved" "cn_claimed c = []" by (rule r)+
qed

lemma settle_kept:
  assumes "settle_run_family (ae_run env) now i v c m w (ap_db s) = Inr (changed, db)"
  shows "kept_reservations s (s\<lparr>ap_db := db\<rparr>)"
  using kept.settle_related [OF assms] by (simp add: kept_reservations_def)

lemma kept_refl: "kept_reservations s s"
  by (simp add: kept_reservations_def kept.related_refl)

lemma kept_trans: "kept_reservations s t \<Longrightarrow> kept_reservations t u \<Longrightarrow> kept_reservations s u"
  unfolding kept_reservations_def by (rule kept.related_trans)

lemma refused_kept:
  assumes "resume_agent_run env te now generation owner members actor workspace i payload cj s = (Inl e, s')"
  shows "kept_reservations s s'"
  using resume_refusal [OF assms] settle_kept kept_refl by blast

lemma sweep_kept:
  assumes "run_inv (ap_db s)"
  shows "kept_reservations s (snd (sweep_expired_agent_run_approvals env now days batch s))"
  by (rule sweep_chain [OF kept_refl kept_trans settle_kept assms])

text \<open>
  A run that is created with a reservation in its metadata: the code never does, the table would allow it.
\<close>

fun forges :: "approval_event \<Rightarrow> bool" where
  "forges (RunChange (CreateRun now i q)) = (dict_get (or_empty (rq_metadata q)) ''approval_continuation'' \<noteq> None)"
| "forges _ = False"

lemma create_loaded:
  assumes "\<not> forges (RunChange (CreateRun now f q))"
  shows "loaded env (approval_step env s (RunChange (CreateRun now f q))) k \<in> {loaded env s k, None}"
proof (cases "run_step (ae_run env) (ap_db s) (CreateRun now f q) = ap_db s")
  case True
  then show ?thesis by (simp add: loaded_def)
next
  case False
  with create_step [of "ae_run env" "ap_db s" now f q] obtain x where
    "create_agent_run now f q (ap_db s) = Inr (x, run_step (ae_run env) (ap_db s) (CreateRun now f q))" by blast
  note c = create_cases [OF this]
  let ?s = "approval_step env s (RunChange (CreateRun now f q))"
  have runs: "agent_runs (ap_db ?s) = agent_runs (ap_db s) @ [new_run f now q]" using c by simp
  have app: "row_by_id ar_id k (T @ [y]) = (case row_by_id ar_id k T of
      Some z \<Rightarrow> Some z | None \<Rightarrow> if ar_id y = k then Some y else None)" for T y
    by (induction T) (auto simp: row_by_id_def)
  show ?thesis
  proof (cases "row_by_id ar_id k (agent_runs (ap_db s))")
    case (Some r)
    then have "row_by_id ar_id k (agent_runs (ap_db ?s)) = row_by_id ar_id k (agent_runs (ap_db s))"
      unfolding runs app by simp
    then show ?thesis using same_row_loaded by blast
  next
    case None
    have "reservation_json (new_run f now q) = None" using assms by (simp add: reservation_json_def new_run_def)
    with load_None [of "new_run f now q" env] None show ?thesis
      unfolding loaded_def runs app by (auto split: sum.splits)
  qed
qed

lemma reservation_step:
  assumes inv: "approval_inv env s"
  obtains (kept) "loaded env (approval_step env s e) i \<in> {loaded env s i, None}"
  | (accepted) te now generation owner members actor workspace payload cj c where
      "e = ResumeRun te now generation owner members actor workspace i payload cj"
      "resume_agent_run env te now generation owner members actor workspace i payload cj s = (Inr c, approval_step env s e)"
      "loaded env s i = None" "loaded env (approval_step env s e) i = Some c"
      "cn_owner c = owner" "cn_phase c = Reserved" "cn_claimed c = []"
  | (started) now c where "e = StartContinuation now i (ae_text env (cn_owner c))" "loaded env s i = Some c"
      "cn_phase c = Reserved" "loaded env (approval_step env s e) i = Some (c\<lparr>cn_phase := Started\<rparr>)"
  | (shared) now child workspace user call child_owner results c where
      "e = StartChild now i child workspace user call (ae_text env (cn_owner c)) child_owner results"
      "loaded env s i = Some c" "cn_phase c = Started" "child \<in> fst ` set (cn_child_batches c)" "child \<notin> set (cn_claimed c)"
      "loaded env (approval_step env s e) i = Some (c\<lparr>cn_claimed := cn_claimed c @ [child]\<rparr>)"
  | (forged) "forges e"
proof -
  note ad = inv [unfolded approval_inv_def, THEN conjunct1] and rinv = inv [unfolded approval_inv_def, THEN conjunct2]
  have same: "approval_step env s e = s \<Longrightarrow> thesis" using kept by simp
  show thesis
  proof (cases e)
    case (RunChange r)
    show ?thesis
    proof (cases "\<exists>now f q. r = CreateRun now f q")
      case True
      then show ?thesis using RunChange create_loaded forged kept by blast
    next
      case False
      then have "kept_reservations s (approval_step env s e)"
        unfolding RunChange kept_reservations_def by (auto intro: kept.run_step_related)
      then show ?thesis by (intro kept kept_loaded)
    qed
  next
    case (SuspendRun now fresh j invocation history requests)
    from approved_or_cases [of s "persist_suspended_run env now fresh j invocation history requests s"]
    show ?thesis using SuspendRun same suspend_loaded(1) [OF rinv] kept by auto
  next
    case (ReviewRun te now membership actor workspace j payload)
    from approved_or_cases [of s "review_agent_run_approval env te now membership actor workspace j payload s"]
    show ?thesis
    proof
      assume "approved_or s (review_agent_run_approval env te now membership actor workspace j payload s) = s"
      then show ?thesis using ReviewRun by (intro same) simp
    next
      assume "\<exists>x. review_agent_run_approval env te now membership actor workspace j payload s =
          Inr (x, approved_or s (review_agent_run_approval env te now membership actor workspace j payload s))"
      then obtain x where "review_agent_run_approval env te now membership actor workspace j payload s = Inr (x, approval_step env s e)"
        unfolding ReviewRun by auto
      from reviewed_loaded [OF review_effect [OF rinv this], of env i] show ?thesis by (intro kept) simp
    qed
  next
    case (ResumeRun te now generation owner members actor workspace j payload cj)
    obtain r where r: "resume_agent_run env te now generation owner members actor workspace j payload cj s =
        (r, approval_step env s e)" unfolding ResumeRun by (metis approval_step.simps(4) prod.collapse)
    show ?thesis
    proof (cases r)
      case (Inl err)
      with r refused_kept have "kept_reservations s (approval_step env s e)" by blast
      then show ?thesis by (intro kept kept_loaded)
    next
      case (Inr c)
      note a = accept_loaded [OF ad rinv r [unfolded Inr]]
      show ?thesis
      proof (cases "i = j")
        case True
        have "e = ResumeRun te now generation owner members actor workspace i payload cj" using ResumeRun True by simp
        moreover have "resume_agent_run env te now generation owner members actor workspace i payload cj s =
            (Inr c, approval_step env s e)" using r Inr True by simp
        ultimately show ?thesis using a True by (metis accepted)
      next
        case False
        with a(3) show ?thesis by (intro kept) simp
      qed
    qed
  next
    case (StartContinuation now j owner)
    from approved_or_cases [of s "claim_approval_continuation env now j owner s"] show ?thesis
    proof
      assume "approved_or s (claim_approval_continuation env now j owner s) = s"
      then show ?thesis using StartContinuation by (intro same) simp
    next
      assume "\<exists>x. claim_approval_continuation env now j owner s = Inr (x, approved_or s (claim_approval_continuation env now j owner s))"
      then obtain x where x: "claim_approval_continuation env now j owner s = Inr (x, approval_step env s e)"
        unfolding StartContinuation by auto
      show ?thesis
      proof (cases x)
        case None
        from rinv x have "approval_step env s e = s" using None by (cases rule: start_cases) auto
        then show ?thesis by (rule same)
      next
        case (Some y)
        obtain c where c: "loaded env s j = Some c" "cn_phase c = Reserved" "ae_text env (cn_owner c) = owner"
            "ae_results_in env (JObj (cn_results c)) = Some (snd y)" "loaded env (approval_step env s e) j = Some (c\<lparr>cn_phase := Started\<rparr>)"
            "\<And>k. k \<noteq> j \<Longrightarrow> loaded env (approval_step env s e) k = loaded env s k"
          by (rule start_loaded [OF ad rinv x [unfolded Some]]) blast
        show ?thesis
        proof (cases "i = j")
          case True
          with c StartContinuation show ?thesis by (intro started) auto
        next
          case False
          with c(6) show ?thesis by (intro kept) simp
        qed
      qed
    qed
  next
    case (StartChild now parent child workspace user call root_owner child_owner results)
    show ?thesis
    proof (cases "resume_child env now parent child workspace user call root_owner child_owner results s")
      case (Inl err)
      then show ?thesis using StartChild by (intro same) simp
    next
      case (Inr s')
      have s': "approval_step env s e = s'" using StartChild Inr by simp
      obtain c where c: "loaded env s parent = Some c" "cn_phase c = Started" "ae_text env (cn_owner c) = root_owner"
          "child \<in> fst ` set (cn_child_batches c)" "child \<notin> set (cn_claimed c)"
          "loaded env s' parent = Some (c\<lparr>cn_claimed := cn_claimed c @ [child]\<rparr>)"
          "\<And>k. k \<noteq> parent \<Longrightarrow> loaded env s' k = loaded env s k"
        by (rule child_loaded [OF ad rinv Inr]) blast
      show ?thesis
      proof (cases "i = parent")
        case True
        with c StartChild s' show ?thesis by (intro shared) auto
      next
        case False
        with c(7) s' show ?thesis by (intro kept) simp
      qed
    qed
  next
    case (SweepApprovals now days batch)
    then have "kept_reservations s (approval_step env s e)" using sweep_kept [OF rinv] by simp
    then show ?thesis by (intro kept kept_loaded)
  qed
qed

section \<open>The two fences\<close>

text \<open>Who may still start the run's continuation, and the share of a specialist in it.\<close>

definition reserved_for :: "approval_env \<Rightarrow> approval_db \<Rightarrow> uuid \<Rightarrow> string option" where
  "reserved_for env s i =
     (case loaded env s i of
        None \<Rightarrow> None | Some c \<Rightarrow> if cn_phase c = Reserved then Some (ae_text env (cn_owner c)) else None)"

definition share_for :: "approval_env \<Rightarrow> approval_db \<Rightarrow> uuid \<times> uuid \<Rightarrow> string option" where
  "share_for env s k =
     (case loaded env s (fst k) of
        None \<Rightarrow> None
      | Some c \<Rightarrow> if snd k \<in> fst ` set (cn_child_batches c) \<and> snd k \<notin> set (cn_claimed c)
                  then Some (ae_text env (cn_owner c)) else None)"

fun starts_run :: "approval_event \<Rightarrow> string \<Rightarrow> uuid \<Rightarrow> bool" where
  "starts_run (StartContinuation now i w) owner k = (i = k \<and> w = owner)"
| "starts_run _ _ _ = False"

fun starts_share :: "approval_event \<Rightarrow> string \<Rightarrow> uuid \<times> uuid \<Rightarrow> bool" where
  "starts_share (StartChild now parent child workspace user call w child_owner results) owner k =
     (k = (parent, child) \<and> w = owner)"
| "starts_share _ _ _ = False"

fun accepts_as :: "approval_env \<Rightarrow> approval_event \<Rightarrow> string \<Rightarrow> bool" where
  "accepts_as env (ResumeRun te now generation owner members actor workspace i payload cj) w = (ae_text env owner = w)"
| "accepts_as env e w = forges e"

lemma accepts_as_forges: "\<not> accepts_as env e w \<Longrightarrow> \<not> forges e"
  by (cases e) auto

interpretation run_start: fenced_store "approval_step env" "approval_inv env" "reserved_for env" starts_run "accepts_as env" for env
proof unfold_locales
  show "approval_step env s e = s"
    if inv: "approval_inv env s" and act: "starts_run e w k" and lost: "reserved_for env s k \<noteq> Some w" for s e w k
  proof -
    obtain now where e: "e = StartContinuation now k w" using act by (cases e) auto
    have *: "run_inv (ap_db s)" "adapters_ok env" using inv by (simp_all add: approval_inv_def)
    show ?thesis
    proof (cases "claim_approval_continuation env now k w s")
      case (Inl err)
      then show ?thesis by (simp add: e approved_or_def)
    next
      case (Inr y)
      obtain x s' where y: "y = (x, s')" by fastforce
      note ok = Inr [unfolded y]
      show ?thesis
      proof (cases x)
        case None
        from *(1) ok have "s' = s" using None by (cases rule: start_cases) auto
        then show ?thesis by (simp add: e approved_or_def ok)
      next
        case (Some z)
        obtain c where "loaded env s k = Some c" "cn_phase c = Reserved" "ae_text env (cn_owner c) = w"
          by (rule start_loaded [OF *(2,1) ok [unfolded Some]])
        with lost show ?thesis by (simp add: reserved_for_def)
      qed
    qed
  qed
  show "reserved_for env (approval_step env s e) k \<noteq> Some w"
    if inv: "approval_inv env s" and quiet: "\<not> accepts_as env e w" and lost: "reserved_for env s k \<noteq> Some w" for s e w k
    using inv
  proof (cases rule: reservation_step [where e = e and i = k])
    case kept
    with lost show ?thesis by (auto simp: reserved_for_def)
  next
    case (accepted te now generation owner members actor workspace payload cj c)
    with quiet show ?thesis by (auto simp: reserved_for_def)
  next
    case (shared now child workspace user call child_owner results c)
    then show ?thesis by (simp add: reserved_for_def)
  next
    case forged
    with accepts_as_forges [OF quiet] show ?thesis by blast
  qed (simp add: reserved_for_def)
qed

interpretation share_start: fenced_store "approval_step env" "approval_inv env" "share_for env" starts_share "accepts_as env" for env
proof unfold_locales
  show "approval_step env s e = s"
    if inv: "approval_inv env s" and act: "starts_share e w k" and lost: "share_for env s k \<noteq> Some w" for s e w k
  proof -
    obtain now workspace user call child_owner results where
      e: "e = StartChild now (fst k) (snd k) workspace user call w child_owner results" using act by (cases e) auto
    have *: "run_inv (ap_db s)" "adapters_ok env" using inv by (simp_all add: approval_inv_def)
    show ?thesis
    proof (cases "resume_child env now (fst k) (snd k) workspace user call w child_owner results s")
      case (Inl err)
      then show ?thesis by (simp add: e)
    next
      case (Inr s')
      obtain c where "loaded env s (fst k) = Some c" "ae_text env (cn_owner c) = w"
          "snd k \<in> fst ` set (cn_child_batches c)" "snd k \<notin> set (cn_claimed c)"
        by (rule child_loaded [OF *(2,1) Inr])
      with lost show ?thesis by (simp add: share_for_def)
    qed
  qed
  show "share_for env (approval_step env s e) k \<noteq> Some w"
    if inv: "approval_inv env s" and quiet: "\<not> accepts_as env e w" and lost: "share_for env s k \<noteq> Some w" for s e w k
    using inv
  proof (cases rule: reservation_step [where e = e and i = "fst k"])
    case kept
    with lost show ?thesis by (auto simp: share_for_def)
  next
    case (accepted te now generation owner members actor workspace payload cj c)
    with quiet show ?thesis by (auto simp: share_for_def)
  next
    case (started now c)
    have "share_for env (approval_step env s e) k = share_for env s k" by (simp add: share_for_def started(2,4))
    with lost show ?thesis by simp
  next
    case (shared now child workspace user call child_owner results c)
    with lost show ?thesis by (auto simp: share_for_def split: if_splits)
  next
    case forged
    with accepts_as_forges [OF quiet] show ?thesis by blast
  qed
qed

end
