(* ===== verification/Approval_Provenance.thy ===== *)
theory Approval_Provenance
  imports Approval_System
begin

text \<open>
  Where a reservation comes from: along any run of the system, every stored reservation was accepted by a
  resume of that run, which compiled the results that it holds; and what edited arguments may change.
\<close>

section \<open>The origin of a reservation\<close>

definition accepted_in ::
    "approval_env \<Rightarrow> approval_db \<Rightarrow> approval_event list \<Rightarrow> uuid \<Rightarrow> approval_continuation \<Rightarrow> bool" where
  "accepted_in env s es i c \<longleftrightarrow>
     (\<exists>n te now generation owner members actor workspace payload cj.
        n < length es \<and> es ! n = ResumeRun te now generation owner members actor workspace i payload cj \<and>
        resume_agent_run env te now generation owner members actor workspace i payload cj
            (foldl (approval_step env) s (take n es)) =
          (Inr (c\<lparr>cn_phase := Reserved, cn_claimed := []\<rparr>), foldl (approval_step env) s (take (Suc n) es)))"

lemma accepted_in_later: "accepted_in env s es i c \<Longrightarrow> accepted_in env s (es @ [e]) i c"
proof -
  assume "accepted_in env s es i c"
  then obtain n te now generation owner members actor workspace payload cj where
    n: "n < length es" "es ! n = ResumeRun te now generation owner members actor workspace i payload cj"
      "resume_agent_run env te now generation owner members actor workspace i payload cj
            (foldl (approval_step env) s (take n es)) =
          (Inr (c\<lparr>cn_phase := Reserved, cn_claimed := []\<rparr>), foldl (approval_step env) s (take (Suc n) es))"
    unfolding accepted_in_def by blast
  have "n < length (es @ [e])" "(es @ [e]) ! n = es ! n" "take n (es @ [e]) = take n es"
    "take (Suc n) (es @ [e]) = take (Suc n) es"
    using n(1) by (simp_all add: nth_append)
  with n(2,3) show "accepted_in env s (es @ [e]) i c" unfolding accepted_in_def by metis
qed

lemma accepted_in_same:
  "c'\<lparr>cn_phase := Reserved, cn_claimed := []\<rparr> = c\<lparr>cn_phase := Reserved, cn_claimed := []\<rparr> \<Longrightarrow>
     accepted_in env s es i c \<Longrightarrow> accepted_in env s es i c'"
  by (simp add: accepted_in_def)

lemma reservation_origin:
  assumes "approval_inv env s" and "\<And>i. loaded env s i = None" and "\<forall>e \<in> set es. \<not> forges e"
    and "loaded env (foldl (approval_step env) s es) i = Some c"
  shows "accepted_in env s es i c"
  using assms(3,4)
proof (induction es arbitrary: c rule: rev_induct)
  case Nil
  with assms(2) show ?case by simp
next
  case (snoc e es)
  let ?t = "foldl (approval_step env) s es"
  have inv: "approval_inv env ?t" by (rule approval_system.run_inv [OF assms(1)])
  have step: "foldl (approval_step env) s (es @ [e]) = approval_step env ?t e" by simp
  have IH: "accepted_in env s es i c'" if "loaded env ?t i = Some c'" for c' using snoc that by simp
  have now: "loaded env (approval_step env ?t e) i = Some c" using snoc.prems(2) by simp
  show ?case
    using inv
  proof (cases rule: reservation_step [where e = e and i = i])
    case kept
    with now IH show ?thesis by (auto intro: accepted_in_later)
  next
    case (accepted te t generation owner members actor workspace payload cj c')
    from accepted(4) now have c: "c' = c" by simp
    have "c\<lparr>cn_phase := Reserved, cn_claimed := []\<rparr> = c" using accepted(6,7) by (simp add: c)
    with accepted(1,2) c show ?thesis
      unfolding accepted_in_def by (intro exI [of _ "length es"] exI conjI) auto
  next
    case (started t c')
    from started(4) now have "c = c'\<lparr>cn_phase := Started\<rparr>" by simp
    with IH [OF started(2)] show ?thesis by (intro accepted_in_later) (simp add: accepted_in_same)
  next
    case (shared t child workspace user call child_owner results c')
    from shared(6) now have "c = c'\<lparr>cn_claimed := cn_claimed c' @ [child]\<rparr>" by simp
    with IH [OF shared(2)] show ?thesis by (intro accepted_in_later) (simp add: accepted_in_same)
  next
    case forged
    with snoc.prems(1) show ?thesis by simp
  qed
qed

section \<open>Edited arguments\<close>

definition entity_field :: "tool_definition \<Rightarrow> string \<Rightarrow> bool" where
  "entity_field td k \<longleftrightarrow> (\<exists>f \<in> set (td_fields td). tf_key f = k \<and> tf_format f \<in> {FEntity, FEntityList})"

lemma canonicalize_field_other:
  assumes "canonicalize_entity_field te run td i f args = Inr args'"
    and "\<not> (tf_key f = k \<and> tf_format f \<in> {FEntity, FEntityList})"
  shows "dict_get args' k = dict_get args k"
  using assms
proof -
  have hd: "(case xs of [] \<Rightarrow> Inl e | c # cs \<Rightarrow> Inr (dict_set (tf_key f) c args)) = (Inr args' :: app_error + pydict) \<Longrightarrow>
      tf_key f \<noteq> k \<Longrightarrow> dict_get args' k = dict_get args k" for xs e
    by (cases xs) auto
  show ?thesis
    using assms
    by (auto simp: canonicalize_entity_field_def Let_def bind_result_Inr split: if_splits json.splits dest!: hd)
qed

lemma canonicalize_other:
  "canonicalize_entity_fields te run td i fs args = Inr args' \<Longrightarrow>
     (\<And>f. f \<in> set fs \<Longrightarrow> \<not> (tf_key f = k \<and> tf_format f \<in> {FEntity, FEntityList})) \<Longrightarrow>
     dict_get args' k = dict_get args k"
proof (induction fs arbitrary: args)
  case (Cons f fs)
  obtain args1 where a: "canonicalize_entity_field te run td i f args = Inr args1"
      "canonicalize_entity_fields te run td i fs args1 = Inr args'"
    using Cons.prems(1) by (auto simp: bind_result_Inr)
  have "dict_get args1 k = dict_get args k"
    by (rule canonicalize_field_other [OF a(1)]) (use Cons.prems(2) in auto)
  with Cons.IH [OF a(2)] Cons.prems(2) show ?case by simp
qed simp

lemma override_cases:
  assumes "validate_and_canonicalize_override_args env te run call override = Inr canonical"
  obtains td original args where "to_tool te (tc_name call) = Some td" "original_tool_args env call = Inr original"
    "validate_locked_changes td original (if_none override original) = Inr ()"
    "case td_input_model td of None \<Rightarrow> True | Some ok \<Rightarrow> ok (if_none override original)"
    "validate_all (\<lambda>f. validate_scalar f (if_none override original)) (td_fields td) = Inr ()"
    "validate_all (\<lambda>f. validate_record_field f (if_none override original)) (td_fields td) = Inr ()"
    "canonicalize_entity_fields te run td (tc_id call) (td_fields td) (if_none override original) = Inr args"
    "canonical = (if override \<noteq> None \<or> \<not> py_eq (JObj args) (JObj original) then Some args else None)"
  using assms
proof -
  obtain td where td: "to_tool te (tc_name call) = Some td"
    using assms by (auto simp: validate_and_canonicalize_override_args_def split: option.splits)
  obtain original where original: "original_tool_args env call = Inr original"
    using assms td by (auto simp: validate_and_canonicalize_override_args_def bind_result_Inr)
  have unit: "(x :: unit) = ()" for x by simp
  have ok: "validate_locked_changes td original (if_none override original) = Inr ()"
    "\<not> (case td_input_model td of None \<Rightarrow> False | Some ok \<Rightarrow> \<not> ok (if_none override original))"
    using assms td original
    by (auto simp: validate_and_canonicalize_override_args_def Let_def bind_result_Inr split: if_splits)
  have checked: "validate_all (\<lambda>f. validate_scalar f (if_none override original)) (td_fields td) = Inr ()"
    "validate_all (\<lambda>f. validate_record_field f (if_none override original)) (td_fields td) = Inr ()"
    using assms td original ok
    by (auto simp: validate_and_canonicalize_override_args_def Let_def bind_result_Inr simp del: not_None_eq)
  obtain args where "canonicalize_entity_fields te run td (tc_id call) (td_fields td) (if_none override original) = Inr args"
      "canonical = (if override \<noteq> None \<or> \<not> py_eq (JObj args) (JObj original) then Some args else None)"
    using assms td original ok checked
    by (auto simp: validate_and_canonicalize_override_args_def Let_def bind_result_Inr simp del: not_None_eq)
  with td original ok checked show ?thesis by (intro that) (auto split: option.splits)
qed

lemma dict_get_keys: "dict_get d k \<noteq> None \<Longrightarrow> k \<in> fst ` set d"
  by (force simp: dict_get_def dest: map_of_SomeD)

lemma locked_unchanged:
  assumes "validate_locked_changes td original effective = Inr ()" and "\<not> field_editable td k"
  shows "\<not> arg_changed original effective k"
proof
  assume ch: "arg_changed original effective k"
  then have "dict_get original k \<noteq> None \<or> dict_get effective k \<noteq> None"
    by (auto simp: arg_changed_def split: option.splits)
  then have "k \<in> set (map fst original @ map fst effective)" using dict_get_keys by auto
  with assms ch show False by (auto simp: validate_locked_changes_def list_ex_iff split: if_splits)
qed

lemma validate_all_Inr: "validate_all f xs = Inr () \<longleftrightarrow> (\<forall>x \<in> set xs. f x = Inr ())"
  by (induction xs) (auto simp: bind_result_Inr)

end
