(* ===== verification/Approval_Sample.thy ===== *)
theory Approval_Sample
  imports Approval_System "HOL-Library.Multiset"
begin

text \<open>
  A concrete environment for the approvals, with adapters that write JSON and read it back, and a run that
  waits for one decision; the witnesses of the properties are evaluated on it.
\<close>

section \<open>Adapters\<close>

fun part_json :: "message_part \<Rightarrow> json" where
  "part_json (CallPart c) = JArr [JStr (tc_name c), JStr (tc_id c), tc_args c]"
| "part_json (ReturnPart i) = JStr i"
| "part_json OtherPart = JNull"

fun json_part :: "json \<Rightarrow> message_part option" where
  "json_part (JArr [JStr n, JStr i, a]) = Some (CallPart \<lparr>tc_name = n, tc_id = i, tc_args = a\<rparr>)"
| "json_part (JStr i) = Some (ReturnPart i)"
| "json_part JNull = Some OtherPart"
| "json_part _ = None"

fun json_list :: "(json \<Rightarrow> 'a option) \<Rightarrow> json \<Rightarrow> 'a list option" where
  "json_list f (JArr xs) = those (map f xs)"
| "json_list f _ = None"

fun json_members :: "(json \<Rightarrow> 'a option) \<Rightarrow> json option \<Rightarrow> (string \<times> 'a) list option" where
  "json_members f (Some (JObj d)) = those (map (\<lambda>(k, v). map_option (Pair k) (f v)) d)"
| "json_members f _ = None"

definition call_json :: "tool_call \<Rightarrow> json" where
  "call_json c = JArr [JStr (tc_name c), JStr (tc_id c), tc_args c]"

fun json_call :: "json \<Rightarrow> tool_call option" where
  "json_call (JArr [JStr n, JStr i, a]) = Some \<lparr>tc_name = n, tc_id = i, tc_args = a\<rparr>"
| "json_call _ = None"

fun json_dict :: "json \<Rightarrow> pydict option" where
  "json_dict (JObj d) = Some d"
| "json_dict _ = None"

fun verdict_json :: "tool_verdict \<Rightarrow> json" where
  "verdict_json (ToolApproved None) = JNull"
| "verdict_json (ToolApproved (Some d)) = JObj d"
| "verdict_json (ToolDenied m) = JStr m"

fun json_verdict :: "json \<Rightarrow> tool_verdict option" where
  "json_verdict JNull = Some (ToolApproved None)"
| "json_verdict (JObj d) = Some (ToolApproved (Some d))"
| "json_verdict (JStr m) = Some (ToolDenied m)"
| "json_verdict _ = None"

definition members_json :: "('a \<Rightarrow> json) \<Rightarrow> (string \<times> 'a) list \<Rightarrow> json" where
  "members_json f ms = JObj (map (\<lambda>(k, v). (k, f v)) ms)"

definition json_requests :: "json \<Rightarrow> deferred_requests option" where
  "json_requests v =
     (case v of
        JObj d \<Rightarrow>
          (case (Option.bind (dict_get d ''approvals'') (json_list json_call), json_members json_dict (dict_get d ''metadata'')) of
             (Some cs, Some ms) \<Rightarrow> Some \<lparr>dr_approvals = cs, dr_metadata = ms\<rparr> | _ \<Rightarrow> None)
      | _ \<Rightarrow> None)"

definition json_results :: "json \<Rightarrow> deferred_results option" where
  "json_results v =
     (case v of
        JObj d \<Rightarrow>
          (case (json_members json_verdict (dict_get d ''approvals''), json_members json_dict (dict_get d ''metadata'')) of
             (Some vs, Some ms) \<Rightarrow> Some \<lparr>dv_approvals = vs, dv_metadata = ms\<rparr> | _ \<Rightarrow> None)
      | _ \<Rightarrow> None)"

definition zero_digest :: string where
  "zero_digest = replicate 64 (CHR ''0'')"

definition approval_sample_run_env :: run_env where
  "approval_sample_run_env =
     \<lparr>e_settings = default_agent_settings, e_job_settings = default_job_settings,
      e_registry = [DELETE_STAGED_APPROVAL_CONTENT_KIND \<mapsto>
        \<lparr>h_kind = DELETE_STAGED_APPROVAL_CONTENT_KIND, h_timeout = None, h_max_attempts = None\<rparr>],
      e_sha256 = (\<lambda>_. zero_digest), e_encode = (\<lambda>_. ''{}''), e_uuid_text = nat_text,
      e_isoformat = (\<lambda>_. ''t''), e_generation = (\<lambda>_. None), e_staged_refs = (\<lambda>_. []),
      e_evidence = (\<lambda>_. []), e_fresh_job = (\<lambda>r. 1000 + ar_id r)\<rparr>"

definition sample_ae :: approval_env where
  "sample_ae =
     \<lparr>ae_run = approval_sample_run_env,
      ae_parse_uuid = (\<lambda>s. if nat_text (digits_value s) = s then Some (digits_value s) else None),
      ae_uuid5 = (\<lambda>_. 8),
      ae_history_in = json_list (json_list json_part),
      ae_history_out = (\<lambda>h. JArr (map (\<lambda>m. JArr (map part_json m)) h)),
      ae_requests_in = json_requests,
      ae_requests_out = (\<lambda>q. JObj [(''approvals'', JArr (map call_json (dr_approvals q))),
        (''metadata'', members_json JObj (dr_metadata q))]),
      ae_results_in = json_results,
      ae_results_out = (\<lambda>r. [(''approvals'', members_json verdict_json (dv_approvals r)),
        (''metadata'', members_json JObj (dv_metadata r))]),
      ae_args_dict = (\<lambda>c. if_none (json_dict (tc_args c)) []),
      ae_json_loads = (\<lambda>_. None), ae_response_out = (\<lambda>_. JNull), ae_code_state = (\<lambda>_ _. None)\<rparr>"

lemma sample_ae_simps [simp]:
  "ae_run sample_ae = approval_sample_run_env" "e_uuid_text approval_sample_run_env = nat_text"
  "e_sha256 approval_sample_run_env = (\<lambda>_. zero_digest)"
  "ae_args_dict sample_ae = (\<lambda>c. if_none (json_dict (tc_args c)) [])"
  "ae_uuid5 sample_ae = (\<lambda>_. 8)" "ae_response_out sample_ae = (\<lambda>_. JNull)" "ae_code_state sample_ae = (\<lambda>_ _. None)"
  by (simp_all add: sample_ae_def approval_sample_run_env_def)

lemma part_roundtrip: "json_part (part_json p) = Some p"
  by (cases p) simp_all

lemma json_list_roundtrip: "(\<And>x. f (g x) = Some x) \<Longrightarrow> json_list f (JArr (map g xs)) = Some xs"
  by (induction xs) simp_all

lemma json_members_roundtrip: "(\<And>x. f (g x) = Some x) \<Longrightarrow> json_members f (Some (members_json g ms)) = Some ms"
  by (induction ms) (auto simp: members_json_def)

lemma verdict_roundtrip: "json_verdict (verdict_json v) = Some v"
proof (cases v)
  case (ToolApproved d)
  then show ?thesis by (cases d) simp_all
qed simp

lemma sample_adapters: "adapters_ok sample_ae"
proof -
  have history: "json_list (json_list json_part) (JArr (map (\<lambda>m. JArr (map part_json m)) h)) = Some h" for h
    by (intro json_list_roundtrip part_roundtrip)
  have calls: "json_list json_call (JArr (map call_json cs)) = Some cs" for cs
    by (rule json_list_roundtrip) (simp add: call_json_def)
  have dicts: "json_members json_dict (Some (members_json JObj ms)) = Some ms" for ms
    by (rule json_members_roundtrip) simp
  have verdicts: "json_members json_verdict (Some (members_json verdict_json vs)) = Some vs" for vs
    by (rule json_members_roundtrip) (rule verdict_roundtrip)
  show ?thesis
    unfolding adapters_ok_def
    by (simp add: sample_ae_def approval_sample_run_env_def nat_text_value history calls dicts verdicts
        json_requests_def json_results_def dict_get_def [of "_ # _"] del: json_list.simps)
qed

section \<open>The size of a canonical text\<close>

text \<open>A bound on the length of the text that needs no evaluation of the text.\<close>

fun json_weight :: "json \<Rightarrow> nat" where
  "json_weight JNull = 4"
| "json_weight (JBool b) = 5"
| "json_weight (JInt n) = length (int_text n)"
| "json_weight (JStr s) = 2 + 6 * length s"
| "json_weight (JArr xs) = 2 + sum_list (map (\<lambda>x. json_weight x + 1) xs)"
| "json_weight (JObj d) = 2 + sum_list (map (\<lambda>(k, v). 6 * length k + json_weight v + 4) d)"

lemma escape_length: "length (escape_char c) \<le> 6"
  by (simp add: escape_char_def Let_def)

lemma json_text_length: "length (json_text s) \<le> 2 + 6 * length s"
proof -
  have "length (concat (map escape_char s)) \<le> 6 * length s"
  proof (induction s)
    case (Cons c s)
    with escape_length [of c] show ?case by simp
  qed simp
  then show ?thesis by (simp add: json_text_def)
qed

lemma join_length: "length (join_with [c] ws) \<le> sum_list (map (\<lambda>w. length w + 1) ws)"
  by (induction "[c]" ws rule: join_with.induct) auto

lemma sum_list_bound: "(\<And>x. x \<in> set xs \<Longrightarrow> f x \<le> (g x :: nat)) \<Longrightarrow> sum_list (map f xs) \<le> sum_list (map g xs)"
  by (induction xs) (auto intro: add_mono)

lemma render_length: "length (render_json v) \<le> json_weight v"
proof (induction v rule: json_weight.induct)
  case (5 xs)
  have "sum_list (map (\<lambda>w. length w + 1) (map render_json xs)) \<le> sum_list (map (\<lambda>x. json_weight x + 1) xs)"
    unfolding map_map comp_def by (rule sum_list_bound) (use 5 in simp)
  with join_length [of "CHR '',''" "map render_json xs"] show ?case by simp
next
  case (6 d)
  let ?m = "\<lambda>(k, v). json_text k @ '':'' @ render_json v"
  have "sum_list (map (\<lambda>w. length w + 1) (map ?m d)) \<le> sum_list (map (\<lambda>(k, v). 6 * length k + json_weight v + 4) d)"
    unfolding map_map comp_def
  proof (rule sum_list_bound)
    fix p
    assume p: "p \<in> set d"
    obtain k v where kv: "p = (k, v)" by fastforce
    from 6 p kv have "length (render_json v) \<le> json_weight v" by blast
    with json_text_length [of k] show "length (?m p) + 1 \<le> (case p of (k, v) \<Rightarrow> 6 * length k + json_weight v + 4)"
      by (simp add: kv)
  qed
  with join_length [of "CHR '',''" "map ?m d"] show ?case by simp
qed (use json_text_length in simp_all)

lemma sort_weight: "json_weight (sort_json v) = json_weight v"
proof (induction v rule: json_weight.induct)
  case (5 xs)
  then have "map (\<lambda>x. json_weight x + 1) (map sort_json xs) = map (\<lambda>x. json_weight x + 1) xs" by simp
  then show ?case by (simp only: sort_json.simps json_weight.simps)
next
  case (6 d)
  let ?w = "\<lambda>(k, v). 6 * length k + json_weight v + 4" and ?d = "map (\<lambda>(k, v). (k, sort_json v)) d"
  have "sum_list (map ?w (sort_key fst ?d)) = sum_list (map ?w ?d)"
  proof -
    have "mset (map ?w (sort_key fst ?d)) = mset (map ?w ?d)" by (simp only: mset_map mset_sort)
    then show ?thesis by (simp only: sum_mset_sum_list [symmetric])
  qed
  also have "map ?w ?d = map ?w d" using 6 by (auto simp: comp_def)
  finally show ?case by simp
qed simp_all

lemma digest_small:
  assumes "json_weight v \<le> MAX_PROPOSAL_BYTES"
  shows "proposal_digest sample_ae v = Inr zero_digest"
proof -
  have "length (canonical_json v) \<le> MAX_PROPOSAL_BYTES"
    using render_length [of "sort_json v"] assms by (simp add: canonical_json_def sort_weight)
  then show ?thesis by (simp add: proposal_digest_def Let_def)
qed

section \<open>A run that waits\<close>

definition sample_call :: tool_call where
  "sample_call = \<lparr>tc_name = ''send'', tc_id = ''a'', tc_args = JObj [(''to'', JStr ''x'')]\<rparr>"

definition sample_requests :: deferred_requests where
  "sample_requests = \<lparr>dr_approvals = [sample_call], dr_metadata = []\<rparr>"

definition sample_history :: messages where
  "sample_history = [[CallPart sample_call]]"

definition plain_run :: "uuid \<Rightarrow> uuid option \<Rightarrow> run_status \<Rightarrow> pydict option \<Rightarrow> agent_run" where
  "plain_run i p st m =
     \<lparr>ar_id = i, ar_conversation_id = 2 + i, ar_agent_id = 3, ar_workspace_id = 7, ar_user_id = 5,
      ar_parent_run_id = p, ar_delegation_depth = (if p = None then 0 else 1), ar_trigger = Interactive,
      ar_status = st, ar_model_name = None, ar_started_at = Some 0, ar_completed_at = None,
      ar_failed_at = None, ar_lease_expires_at = (if st = RunRunning then Some 50000000 else None),
      ar_owner_instance_id = (if st = RunRunning then Some ''9'' else None), ar_usage = no_usage,
      ar_error_code = None, ar_error_message = None, ar_outcome = None, ar_completion_json = None,
      ar_metadata_json = m, ar_created_at = 0, ar_updated_at = 0, ar_deleted = False\<rparr>"

lemma plain_run_simps [simp]:
  "ar_id (plain_run i p st m) = i" "ar_conversation_id (plain_run i p st m) = 2 + i"
  "ar_agent_id (plain_run i p st m) = 3" "ar_workspace_id (plain_run i p st m) = 7"
  "ar_user_id (plain_run i p st m) = 5" "ar_parent_run_id (plain_run i p st m) = p"
  "ar_delegation_depth (plain_run i p st m) = (if p = None then 0 else 1)" "ar_status (plain_run i p st m) = st"
  "ar_metadata_json (plain_run i p st m) = m" "ar_updated_at (plain_run i p st m) = 0"
  "ar_lease_expires_at (plain_run i p st m) = (if st = RunRunning then Some 50000000 else None)"
  "ar_owner_instance_id (plain_run i p st m) = (if st = RunRunning then Some ''9'' else None)"
  "ar_deleted (plain_run i p st m) = False" "ar_started_at (plain_run i p st m) = Some 0"
  by (simp_all add: plain_run_def)

definition sample_waiting :: agent_run where
  "sample_waiting = plain_run 2 None RunAwaitingApproval (Some
     (build_suspended_run_metadata sample_ae 6 (plain_run 2 None RunRunning None) 4 sample_history sample_requests))"

definition rows_db :: "agent_run list \<Rightarrow> approval_db" where
  "rows_db rs =
     \<lparr>ap_db = \<lparr>agent_runs = rs,
        conversations = [\<lparr>cv_id = 4, cv_workspace_id = 7, cv_user_id = 5, cv_active_agent_id = None, cv_deleted = False\<rparr>],
        agents = [], run_jobs = [], run_audits = []\<rparr>, ap_audits = []\<rparr>"

abbreviation sample_s :: approval_db where
  "sample_s \<equiv> rows_db [sample_waiting]"

lemma plain_row_ok:
  "st \<in> {RunRunning, RunAwaitingApproval} \<Longrightarrow> run_row_ok (plain_run i p st m)"
  by (auto simp: run_row_ok_def plain_run_def terminal_iff)

lemma sample_inv: "approval_inv sample_ae sample_s"
  by (simp add: approval_inv_def sample_adapters run_inv_def run_ids_ok_def rows_db_def sample_waiting_def
      plain_row_ok parent_ok_def)

lemma sample_state: "load_suspended_run_state sample_ae sample_waiting =
    Inr \<lparr>su_history = sample_history, su_requests = sample_requests, su_batch = 6\<rparr>"
  by (rule suspended_roundtrip [OF sample_adapters, of "plain_run 2 None RunRunning None" 4]) (simp_all add: sample_waiting_def)

definition sample_leaf :: approval_leaf where
  "sample_leaf = DirectLeaf \<lparr>dn_owner = 2, dn_batch = 6, dn_call = sample_call, dn_metadata = []\<rparr>"

definition sample_graph :: approval_graph where
  "sample_graph = \<lparr>gr_root_run_id = 2, gr_conversation_id = 4, gr_root_batch_id = 6, gr_nodes = [LeafNode sample_leaf]\<rparr>"

lemma sample_graph_of:
  assumes "load_suspended_run_state sample_ae r =
      Inr \<lparr>su_history = sample_history, su_requests = sample_requests, su_batch = 6\<rparr>"
    and "ar_parent_run_id r = None" "ar_delegation_depth r = 0" "ar_status r = RunAwaitingApproval" "ar_id r = 2"
    "ar_conversation_id r = 4"
  shows "build_approval_graph sample_ae r runs = Inr sample_graph"
  by (simp add: build_approval_graph_def assms approval_calls_def sample_requests_def call_metadata_def
      check_call_metadata_def sample_call_def kind_is_def build_leaf_def MAX_PROJECTION_LEAVES_def sample_graph_def sample_leaf_def)

lemma sample_build: "build_approval_graph sample_ae sample_waiting runs = Inr sample_graph"
  by (rule sample_graph_of [OF sample_state]) (simp_all add: sample_waiting_def)

lemma sample_load: "load_approval_graph sample_ae 5 7 2 (ap_db sample_s) = Inr sample_graph"
proof -
  have row: "ar_id sample_waiting = 2" "ar_workspace_id sample_waiting = 7" "ar_user_id sample_waiting = 5"
    "ar_deleted sample_waiting = False" "ar_status sample_waiting = RunAwaitingApproval" "ar_conversation_id sample_waiting = 4"
    by (simp_all add: sample_waiting_def)
  show ?thesis
    by (simp add: load_approval_graph_def rows_db_def row conversation_available_def sample_state sample_build
        sample_requests_def MAX_PROJECTION_LEAVES_def declared_children_def sample_call_def map_filter_simps)
qed

definition sample_pending :: pending_approval where
  "sample_pending = pending_of sample_ae 2 sample_leaf None"

definition sample_shown :: approval_response where
  "sample_shown = \<lparr>as_run_id = 2, as_conversation_id = 4, as_approvals = [sample_pending], as_delegations = [],
     as_workflows = [], as_revision = zero_digest\<rparr>"

lemma small_texts [simp]:
  "nat_text 2 = ''2''" "nat_text 3 = ''3''" "nat_text 4 = ''4''" "nat_text 5 = ''5''"
  "nat_text 6 = ''6''" "nat_text 7 = ''7''" "nat_text 8 = ''8''" "nat_text 9 = ''9''"
  by code_simp+

lemma zero_digest_length [simp]: "length zero_digest = 64"
  by (simp add: zero_digest_def)

lemma zero_digest_hex [simp]: "hex64 zero_digest"
  by code_simp

lemma sample_identity: "leaf_identity sample_ae sample_leaf = 8"
  by (simp add: leaf_identity_def Let_def approval_id_def)

lemma sample_leaf_case [simp]: "(case sample_leaf of DirectLeaf d \<Rightarrow> f d | WorkflowLeaf d outer cs \<Rightarrow> g d outer cs) =
    f \<lparr>dn_owner = 2, dn_batch = 6, dn_call = sample_call, dn_metadata = []\<rparr>"
  by (simp add: sample_leaf_def)

lemma sample_leaf_direct [simp]: "leaf_direct sample_leaf = \<lparr>dn_owner = 2, dn_batch = 6, dn_call = sample_call, dn_metadata = []\<rparr>"
  by (simp add: sample_leaf_def)

lemma sample_pending_simps [simp]:
  "pa_approval_id sample_pending = 8" "pa_tool_call_id sample_pending = ''a''"
  "pa_args sample_pending = JObj [(''to'', JStr ''x'')]" "pa_derived_from_untrusted sample_pending = False"
  "pa_taint_sources sample_pending = []"
  by (simp_all add: sample_pending_def pending_of_def Let_def leaf_identity_def approval_id_def sample_leaf_def
      sample_call_def tool_args_for_display_def taint_sources_of_def)

lemma sample_project: "project_approval_graph sample_ae sample_graph = Inr sample_shown"
proof -
  have fp: "\<exists>f. leaf_fingerprint sample_ae sample_leaf None sample_pending = Inr f \<and> json_weight (JObj f) \<le> 4000"
    by (simp add: leaf_fingerprint_def Let_def sample_leaf_def sample_call_def digest_small MAX_PROPOSAL_BYTES_def json_opt_def)
  then obtain f where f: "leaf_fingerprint sample_ae sample_leaf None sample_pending = Inr f" "json_weight (JObj f) \<le> 4000"
    by blast
  have "project_leaf sample_ae 2 sample_leaf None =
      Inr \<lparr>pl_pending = sample_pending, pl_workflow = None, pl_fingerprint = f\<rparr>"
    using f by (simp add: project_leaf_def sample_pending_def [symmetric] sample_leaf_case)
  then have "project_nodes sample_ae 2 [LeafNode sample_leaf] =
      Inr ([\<lparr>pl_pending = sample_pending, pl_workflow = None, pl_fingerprint = f\<rparr>], [])" by simp
  moreover have "approval_revision sample_ae 2 6 [(''8'', f)] = Inr zero_digest"
    using f(2) by (simp add: approval_revision_def MAX_PROJECTION_LEAVES_def digest_small MAX_PROPOSAL_BYTES_def)
  ultimately show ?thesis
    by (simp add: project_approval_graph_def sample_graph_def sample_shown_def digest_small MAX_PROPOSAL_BYTES_def map_filter_simps)
qed

section \<open>A decision on it\<close>

definition sample_tool :: tool_definition where
  "sample_tool = \<lparr>td_name = ''send'',
     td_fields = [\<lparr>tf_key = ''to'', tf_format = FOther ''text'', tf_editable = True, tf_secondary = False,
       tf_entity_kind = None, tf_columns = [], tf_min_rows = 0\<rparr>],
     td_input_model = None, td_review_fields = [], td_has_display = False\<rparr>"

definition sample_te :: tool_env where
  "sample_te = \<lparr>to_tool = [''send'' \<mapsto> sample_tool], to_resolve = (\<lambda>_ _ _ _ vs _. Inr vs),
     to_identity = (\<lambda>_. None), to_display = (\<lambda>_ _ _ d. Inr d)\<rparr>"

definition sample_decision :: resume_decision where
  "sample_decision = \<lparr>rd_tool_call_id = ''a'', rd_approval_id = 8, rd_approved = True, rd_message = None,
     rd_override = Some [(''to'', JStr ''y'')]\<rparr>"

definition sample_payload :: resume_request where
  "sample_payload = \<lparr>rs_decisions = [sample_decision], rs_revision = zero_digest\<rparr>"

definition sample_results :: deferred_results where
  "sample_results = \<lparr>dv_approvals = [(''a'', ToolApproved (Some [(''to'', JStr ''y'')]))], dv_metadata = []\<rparr>"

abbreviation sample_runs :: "uuid \<rightharpoonup> agent_run" where
  "sample_runs \<equiv> [2 \<mapsto> sample_waiting]"

lemma sample_waiting_simps [simp]:
  "ar_id sample_waiting = 2" "ar_workspace_id sample_waiting = 7" "ar_user_id sample_waiting = 5"
  "ar_deleted sample_waiting = False" "ar_status sample_waiting = RunAwaitingApproval" "ar_parent_run_id sample_waiting = None"
  "ar_delegation_depth sample_waiting = 0" "ar_lease_expires_at sample_waiting = None"
  "ar_owner_instance_id sample_waiting = None" "ar_updated_at sample_waiting = 0"
  by (simp_all add: sample_waiting_def)

lemma sample_family: "lock_run_family 2 (ap_db sample_s) = [sample_waiting]"
  by (simp add: lock_run_family_def rows_db_def in_scope_def)

lemma sample_override: "validate_and_canonicalize_override_args sample_ae sample_te run sample_call (Some [(''to'', JStr ''y'')]) =
    Inr (Some [(''to'', JStr ''y'')])"
  by (simp add: validate_and_canonicalize_override_args_def sample_te_def sample_call_def sample_tool_def
      original_tool_args_def mapping_args_def validate_locked_changes_def field_editable_def field_by_key_def
      validate_scalar_def validate_record_field_def canonicalize_entity_field_def)

lemma sample_history_ok: "validate_history_call sample_ae sample_waiting sample_call = Inr ()"
  by (simp add: validate_history_call_def sample_state sample_history_def sample_call_def digest_small MAX_PROPOSAL_BYTES_def)

lemma sample_record_simps [simp]:
  "gr_nodes sample_graph = [LeafNode sample_leaf]" "gr_root_run_id sample_graph = 2" "graph_leaves sample_graph = [sample_leaf]"
  "rs_decisions sample_payload = [sample_decision]" "rs_revision sample_payload = zero_digest"
  "as_revision sample_shown = zero_digest" "as_approvals sample_shown = [sample_pending]"
  "rd_tool_call_id sample_decision = ''a''" "rd_approval_id sample_decision = 8" "rd_approved sample_decision = True"
  "rd_message sample_decision = None" "rd_override sample_decision = Some [(''to'', JStr ''y'')]"
  by (simp_all add: sample_graph_def sample_payload_def sample_shown_def sample_decision_def graph_leaves_def)

lemma sample_request_digest:
  "proposal_digest sample_ae (dump_request sample_ae [sample_decision] zero_digest) = Inr zero_digest"
  by (rule digest_small) (simp add: dump_request_def dump_decision_def json_opt_def MAX_PROPOSAL_BYTES_def)

lemma sample_results_out: "ae_results_out sample_ae sample_results =
    [(''approvals'', JObj [(''a'', JObj [(''to'', JStr ''y'')])]), (''metadata'', JObj [])]"
  by (simp add: sample_ae_def members_json_def sample_results_def)

lemma sample_results_digest:
  "proposal_digest sample_ae (JObj (ae_results_out sample_ae sample_results)) = Inr zero_digest"
  by (rule digest_small) (simp add: sample_results_out MAX_PROPOSAL_BYTES_def)

lemma sample_compiled: "compile_approval_decisions sample_ae sample_te 5 7 sample_graph sample_runs sample_payload = Inr sample_results"
proof -
  have resolved: "resolve_decisions sample_ae sample_graph [sample_leaf] sample_payload = Inr [8 \<mapsto> sample_decision]"
    by (simp add: resolve_decisions_def sample_project MAX_PROJECTION_LEAVES_def Let_def)
  have decided: "decide_leaf sample_ae sample_te sample_waiting (leaf_direct sample_leaf) sample_decision = Inr (Some [(''to'', JStr ''y'')])"
    by (simp add: decide_leaf_def sample_override)
       (simp add: validate_retained_review_def sample_te_def sample_call_def sample_tool_def)
  have compiled: "compile_leaves sample_ae sample_te sample_runs [8 \<mapsto> sample_decision] [sample_leaf] [] = Inr [(2, sample_results)]"
    using decided sample_history_ok
    by (simp add: sample_identity validate_native_history_def add_leaf_result_def results_of_def no_results_def)
       (simp add: set_verdict_def sample_results_def sample_call_def)
  show ?thesis
    by (simp add: compile_approval_decisions_def sample_build sample_project resolved compiled sample_state results_of_def
          sample_request_digest sample_results_digest del: compile_leaves.simps)
qed

section \<open>The accepted run\<close>

definition sample_cont :: approval_continuation where
  "sample_cont = \<lparr>cn_generation = 5, cn_owner = 9, cn_revision = zero_digest, cn_request_digest = zero_digest,
     cn_child_batches = [], cn_claimed = [], cn_results = ae_results_out sample_ae sample_results, cn_phase = Reserved\<rparr>"

definition with_reservation :: "approval_continuation \<Rightarrow> agent_run \<Rightarrow> agent_run" where
  "with_reservation c r = r\<lparr>ar_metadata_json := Some (dict_set ''approval_continuation''
     (JObj (dump_continuation sample_ae c)) (or_empty (ar_metadata_json r)))\<rparr>"

definition sample_accepted :: agent_run where
  "sample_accepted = (with_reservation sample_cont sample_waiting)
     \<lparr>ar_status := RunRunning, ar_started_at := Some 10, ar_lease_expires_at := Some 90000010,
      ar_owner_instance_id := Some ''9'', ar_updated_at := 10\<rparr>"

definition sample_s1 :: approval_db where
  "sample_s1 = (rows_db [sample_accepted])\<lparr>ap_audits := [ApprovalAccepted 7 2 5 zero_digest 1 0]\<rparr>"

abbreviation sample_resume :: "approval_db \<Rightarrow> (app_error + approval_continuation) \<times> approval_db" where
  "sample_resume \<equiv> resume_agent_run sample_ae sample_te 10 5 9 [(7, 5)] 5 7 2 sample_payload None"

lemma digest_small_plain:
  "json_weight v \<le> 4194304 \<Longrightarrow> proposal_digest sample_ae v = Inr zero_digest"
  by (rule digest_small) (simp add: MAX_PROPOSAL_BYTES_def)

lemma sample_cont_weight: "json_weight (JObj (dump_continuation sample_ae (sample_cont\<lparr>cn_phase := p\<rparr>))) \<le> 4194304"
proof -
  have "length (int_text 1) \<le> 2" by code_simp
  then show ?thesis
    by (cases p) (simp_all add: dump_continuation_def sample_cont_def sample_results_out)
qed

lemma sample_store: "store_approval_continuation sample_ae (sample_cont\<lparr>cn_phase := p\<rparr>) r = Inr (with_reservation (sample_cont\<lparr>cn_phase := p\<rparr>) r)"
  using digest_small_plain [OF sample_cont_weight [of p]]
  by (simp add: store_approval_continuation_def with_reservation_def)

lemma sample_reserve: "reserve_approval_continuation sample_ae 10 5 9 sample_waiting sample_graph sample_runs sample_payload zero_digest
    sample_results sample_s = Inr (sample_cont, sample_s1)"
proof -
  have same: "sample_cont\<lparr>cn_phase := Reserved\<rparr> = sample_cont" by (simp add: sample_cont_def)
  have digest: "resume_request_digest sample_ae sample_payload = Inr zero_digest"
    using sample_request_digest by (simp add: resume_request_digest_def)
  have eq: "\<lparr>cn_generation = 5, cn_owner = 9, cn_revision = zero_digest, cn_request_digest = zero_digest,
     cn_child_batches = [], cn_claimed = [], cn_results = ae_results_out sample_ae sample_results, cn_phase = Reserved\<rparr> = sample_cont"
    by (simp add: sample_cont_def)
  show ?thesis
    by (simp add: reserve_approval_continuation_def digest eq sample_store [of Reserved, unfolded same] MAX_PROJECTION_LEAVES_def)
       (simp add: start_agent_run_with_lease_def claim_agent_run_execution_def put_run_def rows_db_def write_row_def
         row_by_id_def with_reservation_def sample_waiting_def plain_run_def transition_run_status_def sample_s1_def
         sample_accepted_def timedelta_seconds_def approval_sample_run_env_def default_agent_settings_def Let_def)
qed

lemma sample_resumed: "sample_resume sample_s = (Inr sample_cont, sample_s1)"
proof -
  have runs: "runs_by_id [sample_waiting] = sample_runs" by (simp add: runs_by_id_def)
  have found: "find (\<lambda>r. ar_id r = 2 \<and> ar_workspace_id r = 7 \<and> ar_user_id r = 5 \<and> \<not> ar_deleted r) (agent_runs (ap_db sample_s)) =
      Some sample_waiting" by (simp add: rows_db_def)
  have free: "dict_get (or_empty (ar_metadata_json sample_waiting)) ''approval_continuation'' = None"
    by (simp add: sample_waiting_def build_suspended_run_metadata_def)
  have deadline: "approval_family_deadline (e_settings approval_sample_run_env) [sample_waiting] None = Inr (Some 604800000000)"
    by (simp add: approval_family_deadline_def approval_sample_run_env_def default_agent_settings_def min_list_option_def timedelta_days_def)
  show ?thesis
    by (simp add: resume_agent_run_def found require_root_approval_def sample_family free deadline projected_graph_def
        sample_load sample_project accept_decisions_def runs sample_compiled sample_reserve)
qed

end
