(* ===== verification/Approval_Properties.thy ===== *)
theory Approval_Properties
  imports Approval_Provenance Approval_Sample
begin

text \<open>The properties of tool approvals and of the continuations they authorise, each with a witness.\<close>

section \<open>A started continuation\<close>

definition sample_started :: approval_continuation where
  "sample_started = sample_cont\<lparr>cn_phase := Started\<rparr>"

definition sample_s2 :: approval_db where
  "sample_s2 = sample_s1\<lparr>ap_db := put_run 20 (with_reservation sample_started sample_accepted) (ap_db sample_s1),
     ap_audits := ap_audits sample_s1 @ [ApprovalStarted 7 2 5]\<rparr>"

lemma sample_accepted_simps [simp]:
  "ar_id sample_accepted = 2" "ar_workspace_id sample_accepted = 7" "ar_user_id sample_accepted = 5"
  "ar_deleted sample_accepted = False" "ar_status sample_accepted = RunRunning" "ar_parent_run_id sample_accepted = None"
  "ar_lease_expires_at sample_accepted = Some 90000010" "ar_owner_instance_id sample_accepted = Some ''9''"
  by (simp_all add: sample_accepted_def with_reservation_def)

lemma sample_cont_ok: "continuation_ok sample_ae sample_cont"
  using sample_adapters by (simp add: continuation_ok_def sample_cont_def MAX_PROJECTION_LEAVES_def adapters_ok_def)

lemma sample_loaded: "load_approval_continuation sample_ae sample_accepted = Inr sample_cont"
proof -
  have same: "sample_cont\<lparr>cn_phase := Reserved\<rparr> = sample_cont" by (simp add: sample_cont_def)
  show ?thesis
    by (rule store_load [OF sample_adapters sample_cont_ok sample_store [of Reserved, unfolded same]])
       (simp add: sample_accepted_def reservation_json_def)
qed

lemma sample_claimed: "claim_approval_continuation sample_ae 20 2 ''9'' sample_s1 =
    Inr (Some (\<lparr>su_history = sample_history, su_requests = sample_requests, su_batch = 6\<rparr>, sample_results), sample_s2)"
proof -
  have family: "lock_run_family 2 (ap_db sample_s1) = [sample_accepted]"
    by (simp add: lock_run_family_def sample_s1_def rows_db_def in_scope_def)
  have state: "load_suspended_run_state sample_ae sample_accepted =
      Inr \<lparr>su_history = sample_history, su_requests = sample_requests, su_batch = 6\<rparr>"
    by (rule suspended_roundtrip [OF sample_adapters, of "plain_run 2 None RunRunning None" 4])
       (simp_all add: sample_accepted_def with_reservation_def sample_waiting_def)
  have results: "ae_results_in sample_ae (JObj (cn_results sample_cont)) = Some sample_results"
    using sample_adapters by (simp add: adapters_ok_def sample_cont_def)
  show ?thesis
    by (simp add: claim_approval_continuation_def family require_execution_owner_def sample_loaded state results
        sample_store [of Started] sample_s2_def sample_started_def) (simp add: sample_cont_def)
qed

lemma sample_unreserved: "loaded sample_ae sample_s k = None"
proof -
  have "reservation_json sample_waiting = None"
    by (simp add: sample_waiting_def reservation_json_def build_suspended_run_metadata_def)
  then show ?thesis
    using load_None [of sample_waiting sample_ae]
    by (auto simp: loaded_def rows_db_def row_by_id_def split: sum.splits)
qed

abbreviation sample_accept :: approval_event where
  "sample_accept \<equiv> ResumeRun sample_te 10 5 9 [(7, 5)] 5 7 2 sample_payload None"

lemma sample_s1_inv: "approval_inv sample_ae sample_s1"
  using approval_step_inv [OF sample_inv, of sample_accept] sample_resumed by simp

section \<open>Consent\<close>

text \<open>
  C22: no agent continues with more than a person agreed to. Whenever a suspended run is continued, the
  results it continues with are what some earlier resume of that run compiled: accepted from the run's own
  user, a member of its workspace, for the very revision that the projection of the pending approvals had
  then, and reserved for the invocation that continues. Whatever happened before and in between, provided that
  no reservation was there at the start and none is created with a run.
\<close>

theorem consent_provenance:
  assumes "approval_inv env s" and "\<forall>k. loaded env s k = None" and "\<forall>e \<in> set es. \<not> forges e"
    and "claim_approval_continuation env now i owner (foldl (approval_step env) s es) = Inr (Some (st, results), s')"
  shows "\<exists>n te t generation own members actor workspace payload cj g p run.
    n < length es \<and> es ! n = ResumeRun te t generation own members actor workspace i payload cj \<and>
    ae_text env own = owner \<and> (workspace, actor) \<in> set members \<and>
    (let db = ap_db (foldl (approval_step env) s (take n es))
     in row_by_id ar_id i (agent_runs db) = Some run \<and> ar_user_id run = actor \<and> ar_workspace_id run = workspace \<and>
        ar_status run = RunAwaitingApproval \<and> projected_graph env actor workspace i db = Inr (g, p) \<and>
        rs_revision payload = as_revision p \<and>
        compile_approval_decisions env te actor workspace g (runs_by_id (lock_run_family i db)) payload = Inr results)"
proof -
  let ?t = "foldl (approval_step env) s es"
  have inv: "approval_inv env ?t" by (rule approval_system.run_inv [OF assms(1)])
  note ad = inv [unfolded approval_inv_def, THEN conjunct1]
  obtain c where c: "loaded env ?t i = Some c" "ae_text env (cn_owner c) = owner"
      "ae_results_in env (JObj (cn_results c)) = Some results"
    by (rule start_loaded [OF ad inv [unfolded approval_inv_def, THEN conjunct2] assms(4)]) simp
  obtain n te t generation own members actor workspace payload cj where
    n: "n < length es" "es ! n = ResumeRun te t generation own members actor workspace i payload cj"
    and ok: "resume_agent_run env te t generation own members actor workspace i payload cj
        (foldl (approval_step env) s (take n es)) =
      (Inr (c\<lparr>cn_phase := Reserved, cn_claimed := []\<rparr>), foldl (approval_step env) s (take (Suc n) es))"
    using reservation_origin [OF assms(1) _ assms(3) c(1)] assms(2) unfolding accepted_in_def by blast
  have rinv: "run_inv (ap_db (foldl (approval_step env) s (take n es)))"
    using approval_system.run_prefix_inv [OF assms(1)] by (simp add: approval_inv_def)
  obtain run g p r s1 where r: "row_by_id ar_id i (agent_runs (ap_db (foldl (approval_step env) s (take n es)))) = Some run"
    "ar_user_id run = actor" "ar_workspace_id run = workspace" "ar_status run = RunAwaitingApproval"
    "(workspace, actor) \<in> set members"
    "projected_graph env actor workspace i (ap_db (foldl (approval_step env) s (take n es))) = Inr (g, p)"
    "compile_approval_decisions env te actor workspace g
       (runs_by_id (lock_run_family i (ap_db (foldl (approval_step env) s (take n es))))) payload = Inr r"
    and reserved: "reserve_approval_continuation env t generation own run g
       (runs_by_id (lock_run_family i (ap_db (foldl (approval_step env) s (take n es))))) payload (as_revision p) r
       (foldl (approval_step env) s (take n es)) = (Inr (c\<lparr>cn_phase := Reserved, cn_claimed := []\<rparr>, s1))"
    by (rule resume_cases [OF rinv ok])
  have held: "cn_results c = ae_results_out env r" "cn_owner c = own"
    using reserved by (rule reserve_cases, cases c, simp)+
  have "r = results" using c(3) held(1) adapters_okD(4) [OF ad, of r] by simp
  moreover have "rs_revision payload = as_revision p"
    using r(7) projected_cases(2) [OF r(6)] by (elim compile_cases resolve_cases) simp
  ultimately show ?thesis using n r held(2) c(2) by (simp add: Let_def) metis
qed

theorem consent_provenance_witness:
  "\<exists>n te t generation own members actor workspace payload cj g p run.
    n < length [sample_accept] \<and> [sample_accept] ! n = ResumeRun te t generation own members actor workspace 2 payload cj \<and>
    ae_text sample_ae own = ''9'' \<and> (workspace, actor) \<in> set members \<and>
    (let db = ap_db (foldl (approval_step sample_ae) sample_s (take n [sample_accept]))
     in row_by_id ar_id 2 (agent_runs db) = Some run \<and> ar_user_id run = actor \<and> ar_workspace_id run = workspace \<and>
        ar_status run = RunAwaitingApproval \<and> projected_graph sample_ae actor workspace 2 db = Inr (g, p) \<and>
        rs_revision payload = as_revision p \<and>
        compile_approval_decisions sample_ae te actor workspace g (runs_by_id (lock_run_family 2 db)) payload = Inr sample_results)"
proof (rule consent_provenance [OF sample_inv])
  show "\<forall>k. loaded sample_ae sample_s k = None" by (simp add: sample_unreserved)
  show "\<forall>e \<in> set [sample_accept]. \<not> forges e" by simp
  show "claim_approval_continuation sample_ae 20 2 ''9'' (foldl (approval_step sample_ae) sample_s [sample_accept]) =
      Inr (Some (\<lparr>su_history = sample_history, su_requests = sample_requests, su_batch = 6\<rparr>, sample_results), sample_s2)"
    by (simp add: sample_resumed sample_claimed)
qed

section \<open>Once\<close>

text \<open>
  C23: an accepted continuation is started once. After an invocation has started it, no attempt in the
  same name starts it again, whatever happens in between, as long as no new acceptance draws the same owner.
  A repeated claim of the owner gets None, so the tools' calls are not executed a second time.
\<close>

theorem continuation_started_once:
  assumes "approval_inv env s" and "claim_approval_continuation env now i owner s = Inr (Some x, s1)"
    and "\<forall>e \<in> set es. \<not> accepts_as env e owner"
  shows "claim_approval_continuation env now' i owner (foldl (approval_step env) s1 es) \<noteq> Inr (Some y, s2)"
proof
  assume again: "claim_approval_continuation env now' i owner (foldl (approval_step env) s1 es) = Inr (Some y, s2)"
  have ok: "adapters_ok env" "run_inv (ap_db s)" using assms(1) by (simp_all add: approval_inv_def)
  obtain c where "loaded env s1 i = Some (c\<lparr>cn_phase := Started\<rparr>)"
    by (rule start_loaded [OF ok assms(2)]) blast
  then have "reserved_for env s1 i \<noteq> Some owner" by (simp add: reserved_for_def)
  moreover have inv1: "approval_inv env s1"
    using start_evolves [OF ok(2) assms(2)] ok db_evolves_inv by (auto simp: approval_inv_def)
  ultimately have lost: "reserved_for env (foldl (approval_step env) s1 es) i \<noteq> Some owner"
    using run_start.lost_stays_lost assms(3) by blast
  have inv2: "run_inv (ap_db (foldl (approval_step env) s1 es))"
    using approval_system.run_inv [OF inv1] by (simp add: approval_inv_def)
  show False by (rule start_loaded [OF ok(1) inv2 again]) (use lost in \<open>simp add: reserved_for_def\<close>)
qed

theorem continuation_started_once_witness:
  "claim_approval_continuation sample_ae 25 2 ''9''
     (foldl (approval_step sample_ae) sample_s2 [SweepApprovals 22 None 5, StartContinuation 23 2 ''9'']) \<noteq>
   Inr (Some (\<lparr>su_history = [], su_requests = sample_requests, su_batch = 6\<rparr>, sample_results), sample_s2)"
  by (rule continuation_started_once [OF sample_s1_inv sample_claimed]) simp

text \<open>A specialist that waits, under a root that has started.\<close>

definition child_cont :: approval_continuation where
  "child_cont = \<lparr>cn_generation = 5, cn_owner = 9, cn_revision = zero_digest, cn_request_digest = zero_digest,
     cn_child_batches = [(3, 6)], cn_claimed = [], cn_results =
       [(''approvals'', JObj [(''d'', JNull)]),
        (''metadata'', JObj [(''d'', JObj [(''child_run_id'', JStr ''3''),
           (''child_deferred_tool_results'', JObj (ae_results_out sample_ae sample_results))])])],
     cn_phase = Started\<rparr>"

definition child_run :: agent_run where
  "child_run = plain_run 3 (Some 2) RunAwaitingApproval (Some
     (build_suspended_run_metadata sample_ae 6 (plain_run 3 (Some 2) RunRunning None) 5 sample_history sample_requests))"

definition root_run :: agent_run where
  "root_run = with_reservation child_cont (plain_run 2 None RunRunning None)"

lemma family_simps [simp]:
  "ar_id child_run = 3" "ar_parent_run_id child_run = Some 2" "ar_workspace_id child_run = 7" "ar_user_id child_run = 5"
  "ar_deleted child_run = False" "ar_status child_run = RunAwaitingApproval"
  "ar_id root_run = 2" "ar_parent_run_id root_run = None" "ar_workspace_id root_run = 7" "ar_user_id root_run = 5"
  "ar_deleted root_run = False" "ar_status root_run = RunRunning" "ar_lease_expires_at root_run = Some 50000000"
  "ar_owner_instance_id root_run = Some ''9''"
  by (simp_all add: child_run_def root_run_def with_reservation_def)

abbreviation family_s :: approval_db where
  "family_s \<equiv> rows_db [root_run, child_run]"

lemma family_inv: "approval_inv sample_ae family_s"
proof -
  have ok: "run_row_ok root_run" "run_row_ok child_run"
    by (simp_all add: root_run_def child_run_def plain_row_ok with_reservation_def plain_run_def run_row_ok_def terminal_iff)
  have conv: "ar_conversation_id root_run \<noteq> ar_conversation_id child_run"
    by (simp add: root_run_def child_run_def with_reservation_def)
  show ?thesis
    using ok conv by (simp add: approval_inv_def sample_adapters run_inv_def run_ids_ok_def rows_db_def parent_ok_def)
qed

lemma child_state_loads: "load_suspended_run_state sample_ae child_run =
    Inr \<lparr>su_history = sample_history, su_requests = sample_requests, su_batch = 6\<rparr>"
  by (rule suspended_roundtrip [OF sample_adapters, of "plain_run 3 (Some 2) RunRunning None" 5]) (simp_all add: child_run_def)

lemma int_text_1: "length (int_text 1) \<le> 2"
  by code_simp

lemma child_cont_weight: "json_weight (JObj (dump_continuation sample_ae (child_cont\<lparr>cn_claimed := u\<rparr>))) \<le> 4194304"
  if "u \<in> {[], [3]}"
  using that int_text_1 by (auto simp: dump_continuation_def child_cont_def sample_results_out)

lemma child_store: "u \<in> {[], [3]} \<Longrightarrow> store_approval_continuation sample_ae (child_cont\<lparr>cn_claimed := u\<rparr>) r =
    Inr (with_reservation (child_cont\<lparr>cn_claimed := u\<rparr>) r)"
  using digest_small_plain [OF child_cont_weight [of u]]
  by (simp add: store_approval_continuation_def with_reservation_def)

lemma child_cont_ok: "continuation_ok sample_ae child_cont"
  by (simp add: continuation_ok_def child_cont_def MAX_PROJECTION_LEAVES_def sample_ae_def json_results_def
      dict_get_def [of "_ # _"])

lemma root_loaded: "load_approval_continuation sample_ae root_run = Inr child_cont"
proof -
  have same: "child_cont\<lparr>cn_claimed := []\<rparr> = child_cont" by (simp add: child_cont_def)
  have "[] \<in> {[], [3 :: uuid]}" by simp
  from child_store [OF this] have store: "store_approval_continuation sample_ae child_cont (plain_run 2 None RunRunning None) = Inr root_run"
    by (simp add: same root_run_def)
  show ?thesis by (rule store_load [OF sample_adapters child_cont_ok store]) simp
qed

lemma family_locked: "lock_run_family 2 (ap_db family_s) = [root_run, child_run]"
  by (simp add: lock_run_family_def rows_db_def in_scope_def)

lemma share_starts: "\<exists>s1. resume_child sample_ae 20 2 3 7 5 ''d'' ''9'' ''c'' sample_results family_s = Inr s1"
proof -
  have md: "saved_child_decision child_cont ''d'' = Some [(''child_run_id'', JStr ''3''),
      (''child_deferred_tool_results'', JObj (ae_results_out sample_ae sample_results))]"
    by (simp add: saved_child_decision_def child_cont_def dict_get_def)
  have found: "find (\<lambda>r. ar_id r = 3 \<and> ar_parent_run_id r = Some 2 \<and> ar_workspace_id r = 7 \<and> ar_user_id r = 5 \<and> \<not> ar_deleted r)
      (agent_runs (ap_db family_s)) = Some child_run"
    by (simp add: rows_db_def)
  have parts: "cn_phase child_cont = Started" "cn_owner child_cont = 9" "cn_child_batches child_cont = [(3, 6)]" "cn_claimed child_cont = []"
    by (simp_all add: child_cont_def)
  have gets: "dict_get [(''child_run_id'', JStr ''3''), (''child_deferred_tool_results'', v)] ''child_run_id'' = Some (JStr ''3'')"
    "dict_get [(''child_run_id'', JStr ''3''), (''child_deferred_tool_results'', v)] ''child_deferred_tool_results'' = Some v" for v
    by (simp_all add: dict_get_def)
  show ?thesis
    by (simp add: resume_child_def family_locked require_execution_owner_def found child_state_loads claim_child_approval_def
        root_loaded parts md gets sample_results_digest child_store)
       (simp add: start_agent_run_with_lease_def claim_agent_run_execution_def put_run_def rows_db_def write_row_def
         row_by_id_def with_reservation_def transition_run_status_def child_run_def root_run_def plain_run_def
         approval_sample_run_env_def default_agent_settings_def Let_def)
qed

text \<open>
  C24: a specialist's share of an accepted continuation is started once: whatever happens afterwards, a
  second start of the same specialist under the same root invocation is refused, as long as no new
  acceptance draws the same owner.
\<close>

theorem share_started_once:
  assumes "approval_inv env s"
    and "resume_child env now parent child workspace user call owner child_owner results s = Inr s1"
    and "\<forall>e \<in> set es. \<not> accepts_as env e owner"
  shows "\<exists>e. resume_child env now' parent child workspace' user' call' owner child_owner' results'
    (foldl (approval_step env) s1 es) = Inl e"
proof (rule ccontr)
  assume "\<not> ?thesis"
  then obtain s2 where again: "resume_child env now' parent child workspace' user' call' owner child_owner' results'
    (foldl (approval_step env) s1 es) = Inr s2" by (meson sum.exhaust)
  have ok: "adapters_ok env" "run_inv (ap_db s)" using assms(1) by (simp_all add: approval_inv_def)
  obtain c where "loaded env s1 parent = Some (c\<lparr>cn_claimed := cn_claimed c @ [child]\<rparr>)"
    by (rule child_loaded [OF ok assms(2)]) blast
  then have "share_for env s1 (parent, child) \<noteq> Some owner" by (simp add: share_for_def)
  moreover have inv1: "approval_inv env s1"
    using child_evolves [OF ok(2) assms(2)] ok db_evolves_inv by (auto simp: approval_inv_def)
  ultimately have lost: "share_for env (foldl (approval_step env) s1 es) (parent, child) \<noteq> Some owner"
    using share_start.lost_stays_lost assms(3) by blast
  have inv2: "run_inv (ap_db (foldl (approval_step env) s1 es))"
    using approval_system.run_inv [OF inv1] by (simp add: approval_inv_def)
  show False by (rule child_loaded [OF ok(1) inv2 again]) (use lost in \<open>simp add: share_for_def\<close>)
qed

theorem share_started_once_witness:
  "\<exists>s1 e. resume_child sample_ae 20 2 3 7 5 ''d'' ''9'' ''c'' sample_results family_s = Inr s1 \<and>
     resume_child sample_ae 21 2 3 7 5 ''d'' ''9'' ''e'' sample_results
       (foldl (approval_step sample_ae) s1 [SweepApprovals 22 None 5]) = Inl e"
proof -
  obtain s1 where s1: "resume_child sample_ae 20 2 3 7 5 ''d'' ''9'' ''c'' sample_results family_s = Inr s1"
    using share_starts by blast
  moreover from share_started_once [OF family_inv s1, of "[SweepApprovals 22 None 5]" 21 7 5 "''d''" "''e''" sample_results]
  obtain e where "resume_child sample_ae 21 2 3 7 5 ''d'' ''9'' ''e'' sample_results
       (foldl (approval_step sample_ae) s1 [SweepApprovals 22 None 5]) = Inl e" by auto
  ultimately show ?thesis by blast
qed

section \<open>What a decision becomes\<close>

lemma resolved_ids:
  assumes "resolve_decisions env g (graph_leaves g) payload = Inr decisions"
  shows "distinct (map (leaf_identity env) (graph_leaves g))"
    and "set (map (\<lambda>d. (rd_approval_id d, rd_tool_call_id d)) (rs_decisions payload)) =
      set (map (\<lambda>l. (leaf_identity env l, tc_id (dn_call (leaf_direct l)))) (graph_leaves g))"
    and "length (rs_decisions payload) = length (graph_leaves g)"
    and "decisions i = Some d \<Longrightarrow> d \<in> set (rs_decisions payload) \<and> rd_approval_id d = i"
proof -
  obtain projection where p: "project_approval_graph env g = Inr projection"
    and len: "length (rs_decisions payload) = length (graph_leaves g)"
    and dist: "distinct (map rd_approval_id (rs_decisions payload))"
    and dec: "decisions = map_of (map (\<lambda>d. (rd_approval_id d, d)) (rs_decisions payload))"
    and tools: "\<And>d. d \<in> set (rs_decisions payload) \<Longrightarrow>
       map_of (rev (map (\<lambda>p. (pa_approval_id p, pa_tool_call_id p)) (as_approvals projection))) (rd_approval_id d) =
         Some (rd_tool_call_id d)"
    by (rule resolve_cases [OF assms]) blast
  let ?L = "map (\<lambda>l. (leaf_identity env l, tc_id (dn_call (leaf_direct l)))) (graph_leaves g)"
  let ?D = "map (\<lambda>d. (rd_approval_id d, rd_tool_call_id d)) (rs_decisions payload)"
  have shown: "map (\<lambda>p. (pa_approval_id p, pa_tool_call_id p)) (as_approvals projection) = ?L"
    by (rule project_graph_shape(1) [OF p])
  have "(rd_approval_id d, rd_tool_call_id d) \<in> set ?L" if "d \<in> set (rs_decisions payload)" for d
    using map_of_SomeD [OF tools [OF that, unfolded shown]] by simp
  then have sub: "set ?D \<subseteq> set ?L" by auto
  have "distinct ?D" using dist by (auto simp: distinct_map inj_on_def)
  from distinct_card [OF this] have "card (set ?D) = length ?L" using len by (simp only: length_map)
  moreover have "card (set ?D) \<le> card (set ?L)" using sub by (intro card_mono) auto
  moreover have "card (set ?L) \<le> length ?L" by (rule card_length)
  ultimately have eq: "card (set ?D) = card (set ?L)" by linarith
  then show sets: "set ?D = set ?L" using sub by (intro card_subset_eq) auto
  let ?ids = "map (leaf_identity env) (graph_leaves g)"
  have "set (map fst ?D) = set (map fst ?L)" using sets by (metis set_map)
  moreover have "map fst ?D = map rd_approval_id (rs_decisions payload)" "map fst ?L = ?ids" by simp_all
  ultimately have "card (set ?ids) = length (rs_decisions payload)" using distinct_card [OF dist] by simp
  then show "distinct ?ids" using len by (intro card_distinct) simp
  show "length (rs_decisions payload) = length (graph_leaves g)" by (rule len)
  show "decisions i = Some d \<Longrightarrow> d \<in> set (rs_decisions payload) \<and> rd_approval_id d = i"
    unfolding dec by (auto dest!: map_of_SomeD)
qed

text \<open>
  C25: decisions are compiled exactly. When a submission is compiled, its decisions and the pending leaves
  of the graph as it is then match one to one, by approval and by tool call; and each leaf is answered by its
  decision: its run's saved history still holds the call, the edited arguments passed the server's checks,
  and the share of the results that its run will continue with, the root's own or the one attached to the
  specialist's call, holds the verdict of that decision under the leaf's own call.
\<close>

theorem decisions_compiled:
  assumes "mapped_by_id runs"
    and "compile_approval_decisions env te actor workspace g runs payload = Inr r"
  shows "\<exists>main current. runs (gr_root_run_id g) = Some main \<and> ar_user_id main = actor \<and> ar_workspace_id main = workspace \<and>
    build_approval_graph env main runs = Inr current \<and> project_approval_graph env current = project_approval_graph env g \<and>
    distinct (map (leaf_identity env) (graph_leaves current)) \<and> length (rs_decisions payload) = length (graph_leaves current) \<and>
    set (map (\<lambda>d. (rd_approval_id d, rd_tool_call_id d)) (rs_decisions payload)) =
      set (map (\<lambda>l. (leaf_identity env l, tc_id (dn_call (leaf_direct l)))) (graph_leaves current)) \<and>
    (\<forall>leaf \<in> set (graph_leaves current). \<exists>d \<in> set (rs_decisions payload). rd_approval_id d = leaf_identity env leaf \<and>
       (\<exists>share. share_of env current main r leaf share \<and> answered env te runs [leaf_identity env leaf \<mapsto> d] leaf share))"
  using assms(2)
proof (rule compile_cases)
  fix main current projection decisions R st
  assume c: "runs (gr_root_run_id g) = Some main" "ar_user_id main = actor" "ar_workspace_id main = workspace"
    "build_approval_graph env main runs = Inr current" "project_approval_graph env current = Inr projection"
    "project_approval_graph env g = Inr projection"
    "resolve_decisions env current (graph_leaves current) payload = Inr decisions"
    "compile_leaves env te runs decisions (graph_leaves current) [] = Inr R"
    "load_suspended_run_state env main = Inr st"
    "attach_children env main st R (gr_nodes current) (results_of R (ar_id main)) = Inr r"
  note ids = resolved_ids [OF c(7)]
  have "\<exists>d \<in> set (rs_decisions payload). rd_approval_id d = leaf_identity env leaf \<and>
       (\<exists>share. share_of env current main r leaf share \<and> answered env te runs [leaf_identity env leaf \<mapsto> d] leaf share)"
    if leaf: "leaf \<in> set (graph_leaves current)" for leaf
  proof -
    obtain share where share: "share_of env current main r leaf share" "answered env te runs decisions leaf share"
      using compiled_leaf [OF assms(1) c(4,8,10) leaf] by blast
    then obtain d where "decisions (leaf_identity env leaf) = Some d" by (auto simp: answered_def)
    with share ids(4) show ?thesis by (auto simp: answered_def)
  qed
  with c ids(1-3) show ?thesis by auto
qed

theorem decisions_compiled_witness:
  "\<exists>main current. sample_runs (gr_root_run_id sample_graph) = Some main \<and> ar_user_id main = 5 \<and> ar_workspace_id main = 7 \<and>
    build_approval_graph sample_ae main sample_runs = Inr current \<and>
    project_approval_graph sample_ae current = project_approval_graph sample_ae sample_graph \<and>
    length (rs_decisions sample_payload) = length (graph_leaves current)"
proof -
  have "mapped_by_id sample_runs" by (simp add: mapped_by_id_def)
  from decisions_compiled [OF this sample_compiled] show ?thesis by metis
qed



section \<open>Round trips\<close>








text \<open>
  A reservation round trips through the run's metadata. What is stored loads again to the same
  continuation and leaves every other entry of the metadata alone; and whatever loads is sound: hexadecimal
  digests, at most 1024 specialists, each once, every started specialist one of them and started once, and
  results that the run can be continued with.
\<close>

theorem reservation_roundtrip:
  assumes "adapters_ok env"
  shows "(continuation_ok env c \<and> store_approval_continuation env c run = Inr run' \<longrightarrow>
      load_approval_continuation env run' = Inr c \<and>
      (\<forall>k. k \<noteq> ''approval_continuation'' \<longrightarrow>
         dict_get (or_empty (ar_metadata_json run')) k = dict_get (or_empty (ar_metadata_json run)) k)) \<and>
    (load_approval_continuation env run'' = Inr c'' \<longrightarrow> continuation_ok env c'')"
  using store_load [OF assms, of c run run' run'] store_cases(4) [of env c run run'] load_ok [of env run'' c''] by blast

theorem reservation_roundtrip_witness:
  "load_approval_continuation sample_ae (with_reservation sample_started sample_waiting) = Inr sample_started \<and>
   continuation_ok sample_ae child_cont"
proof -
  have ok: "continuation_ok sample_ae sample_started"
    using sample_cont_ok by (simp add: continuation_ok_def sample_started_def)
  have store: "store_approval_continuation sample_ae sample_started sample_waiting = Inr (with_reservation sample_started sample_waiting)"
    using sample_store [of Started] by (simp add: sample_started_def)
  from reservation_roundtrip [OF sample_adapters, of sample_started sample_waiting _ root_run child_cont] ok store root_loaded
  show ?thesis by blast
qed

section \<open>Reviewing\<close>

lemma reviewed_rows:
  assumes "run_inv (ap_db s)" and "reviewed_db (ap_db s) (ap_db s')"
  shows "list_all2 reviewed_row (agent_runs (ap_db s)) (agent_runs (ap_db s'))"
proof -
  let ?T = "agent_runs (ap_db s)" and ?U = "agent_runs (ap_db s')"
  have keys: "map ar_id ?U = map ar_id ?T"
    using assms(2) runs_evolve_keys unfolding reviewed_db_def db_evolves_def by blast
  then have len: "length ?U = length ?T" by (metis length_map)
  have "reviewed_row (?T ! j) (?U ! j)" if j: "j < length ?T" for j
  proof -
    have id: "ar_id (?U ! j) = ar_id (?T ! j)" using keys j len by (metis nth_map)
    have "row_by_id ar_id (ar_id (?T ! j)) ?T = Some (?T ! j)"
      by (rule row_by_id_unique [OF run_invD(2) [OF assms(1)]]) (simp_all add: j)
    moreover have "row_by_id ar_id (ar_id (?T ! j)) ?U = Some (?U ! j)"
    proof -
      have "distinct (map ar_id ?U)" using keys run_invD(2) [OF assms(1)] by simp
      moreover have "?U ! j \<in> set ?U" using j len by simp
      ultimately show ?thesis using row_by_id_unique [of ar_id ?U "?U ! j"] by (simp add: id)
    qed
    moreover have "rel_option reviewed_row (row_by_id ar_id (ar_id (?T ! j)) ?T) (row_by_id ar_id (ar_id (?T ! j)) ?U)"
      using assms(2) unfolding reviewed_db_def by blast
    ultimately show ?thesis by simp
  qed
  then show ?thesis using len by (simp add: list_all2_conv_all_nth)
qed

lemma reviewed_filter:
  assumes "list_all2 reviewed_row T U" and "\<And>r r'. reviewed_row r r' \<Longrightarrow> P r' = P r"
  shows "list_all2 reviewed_row (filter P T) (filter P U)"
  using assms(1) by (induction rule: list_all2_induct) (use assms(2) in auto)

lemma reviewed_find:
  assumes "list_all2 reviewed_row T U" and "\<And>r r'. reviewed_row r r' \<Longrightarrow> P r' = P r"
  shows "rel_option reviewed_row (find P T) (find P U)"
  using assms(1) by (induction rule: list_all2_induct) (use assms(2) in auto)

lemma reviewed_times: "list_all2 reviewed_row T U \<Longrightarrow> map ar_updated_at U = map ar_updated_at T"
  by (induction rule: list_all2_induct) (auto dest: reviewed_same)

lemma reviewed_deadline:
  assumes "list_all2 reviewed_row (agent_runs db) (agent_runs db')"
  shows "read_approval_family_deadline cfg r db' = read_approval_family_deadline cfg r db"
proof -
  have ids: "reviewed_row q q' \<Longrightarrow> ar_id q' = ar_id q \<and> ar_parent_run_id q' = ar_parent_run_id q \<and>
      ar_workspace_id q' = ar_workspace_id q \<and> ar_user_id q' = ar_user_id q \<and> ar_deleted q' = ar_deleted q \<and>
      ar_status q' = ar_status q" for q q'
    using annotates_simps [OF reviewed_annotates] by simp
  let ?root = "if_none (ar_parent_run_id r) (ar_id r)"
  let ?P = "\<lambda>q. (ar_id q = ?root \<or> ar_parent_run_id q = Some ?root) \<and>
              ar_workspace_id q = ar_workspace_id r \<and> ar_user_id q = ar_user_id r \<and> \<not> ar_deleted q"
  have family: "list_all2 reviewed_row (filter ?P (agent_runs db)) (filter ?P (agent_runs db'))"
    by (rule reviewed_filter [OF assms]) (use ids in auto)
  have main: "rel_option reviewed_row (find (\<lambda>q. ar_id q = ?root) (filter ?P (agent_runs db)))
      (find (\<lambda>q. ar_id q = ?root) (filter ?P (agent_runs db')))"
    by (rule reviewed_find [OF family]) (use ids in auto)
  have waiting: "list_all2 reviewed_row (filter (\<lambda>q. ar_status q = RunAwaitingApproval) (filter ?P (agent_runs db)))
      (filter (\<lambda>q. ar_status q = RunAwaitingApproval) (filter ?P (agent_runs db')))"
    by (rule reviewed_filter [OF family]) (use ids in auto)
  have plus: "map (\<lambda>r. ar_updated_at r + d) T = map (\<lambda>t. t + d) (map ar_updated_at T)" for d T by simp
  have deadline: "approval_family_deadline cfg (filter ?P (agent_runs db')) None = approval_family_deadline cfg (filter ?P (agent_runs db)) None"
    unfolding approval_family_deadline_def plus reviewed_times [OF waiting] ..
  from main show ?thesis
    unfolding read_approval_family_deadline_def Let_def
    by (cases rule: option.rel_cases) (use ids deadline in auto)
qed

text \<open>
  C28: a review changes the proposal and nothing else. An edited proposal of a waiting run rewrites only the
  saved approval state of the affected rows: identity, status, owner, lease, times and every other entry of the
  metadata stay, so a review neither starts anything nor buys the wait more time, and every stored
  reservation stays what it is. It is accepted only from the run's user, for the revision that is shown, and
  for one of the leaves that are shown.
\<close>

theorem review_changes_only_proposal:
  assumes "run_inv (ap_db s)"
    and "review_agent_run_approval env te now membership actor workspace i payload s = Inr (updated, s')"
  shows "list_all2 reviewed_row (agent_runs (ap_db s)) (agent_runs (ap_db s')) \<and> run_inv (ap_db s') \<and>
    (\<forall>cfg r. read_approval_family_deadline cfg r (ap_db s') = read_approval_family_deadline cfg r (ap_db s)) \<and>
    (\<forall>k. loaded env s' k = loaded env s k) \<and> membership = (actor, workspace) \<and>
    (\<exists>g projection leaf. projected_graph env actor workspace i (ap_db s) = Inr (g, projection) \<and>
       leaf \<in> set (graph_leaves g) \<and> rv_revision payload = as_revision projection \<and>
       leaf_identity env leaf = rv_approval_id payload)"
proof -
  have rv: "reviewed_db (ap_db s) (ap_db s')" by (rule review_effect [OF assms])
  note rows = reviewed_rows [OF assms(1) rv]
  obtain g projection leaf item where m: "membership = (actor, workspace)"
    "projected_graph env actor workspace i (ap_db s) = Inr (g, projection)" "leaf \<in> set (graph_leaves g)"
    "rv_revision payload = as_revision projection"
    and item: "(leaf, item) \<in> set (zip (graph_leaves g) (as_approvals projection))" "pa_approval_id item = rv_approval_id payload"
    by (rule review_cases [OF assms])
  have "leaf_identity env leaf = rv_approval_id payload"
  proof -
    from item(1) obtain j where j: "j < length (graph_leaves g)" "j < length (as_approvals projection)"
        "graph_leaves g ! j = leaf" "as_approvals projection ! j = item"
      by (auto simp: in_set_zip)
    from project_graph_shape(1) [OF projected_cases(2) [OF m(2)]]
    have "map (\<lambda>a. (pa_approval_id a, pa_tool_call_id a)) (as_approvals projection) ! j =
        map (\<lambda>l. (leaf_identity env l, tc_id (dn_call (leaf_direct l)))) (graph_leaves g) ! j" by simp
    with j item(2) show ?thesis by simp
  qed
  moreover have "run_inv (ap_db s')" using rv db_evolves_inv [OF assms(1)] by (simp add: reviewed_db_def)
  ultimately show ?thesis
    using rows reviewed_deadline [OF rows] reviewed_loaded [OF rv] m by blast
qed

definition review_te :: tool_env where
  "review_te = sample_te\<lparr>to_tool := [''send'' \<mapsto> sample_tool\<lparr>td_review_fields := [''to''], td_has_display := True\<rparr>]\<rparr>"

definition sample_review :: review_request where
  "sample_review = \<lparr>rv_approval_id = 8, rv_revision = zero_digest, rv_override = [(''to'', JStr ''y'')]\<rparr>"

definition reviewed_metadata :: pydict where
  "reviewed_metadata = [(''display_args'', JObj [(''to'', JStr ''y'')]), (''reviewed_args'', JObj [(''to'', JStr ''y'')])]"

definition reviewed_leaf :: approval_leaf where
  "reviewed_leaf = DirectLeaf \<lparr>dn_owner = 2, dn_batch = 6, dn_call = sample_call, dn_metadata = reviewed_metadata\<rparr>"

lemma reviewed_project:
  "\<exists>p. project_approval_graph sample_ae (sample_graph\<lparr>gr_nodes := [LeafNode reviewed_leaf]\<rparr>) = Inr p"
proof -
  have pend: "\<exists>q. pending_of sample_ae 2 reviewed_leaf None = q \<and> pa_approval_id q = 8 \<and> pa_args q = JObj [(''to'', JStr ''y'')] \<and>
      pa_derived_from_untrusted q = False \<and> pa_taint_sources q = []"
    by (simp add: pending_of_def Let_def leaf_identity_def approval_id_def reviewed_leaf_def sample_call_def
        tool_args_for_display_def taint_sources_of_def reviewed_metadata_def dict_get_def)
  then obtain q where q: "pending_of sample_ae 2 reviewed_leaf None = q" "pa_approval_id q = 8" "pa_args q = JObj [(''to'', JStr ''y'')]"
      "pa_derived_from_untrusted q = False" "pa_taint_sources q = []" by blast
  have "\<exists>f. leaf_fingerprint sample_ae reviewed_leaf None q = Inr f \<and> json_weight (JObj f) \<le> 4000"
    by (simp add: leaf_fingerprint_def Let_def reviewed_leaf_def reviewed_metadata_def sample_call_def digest_small MAX_PROPOSAL_BYTES_def
        json_opt_def q dict_get_def)
  then obtain f where f: "leaf_fingerprint sample_ae reviewed_leaf None q = Inr f" "json_weight (JObj f) \<le> 4000" by blast
  have "approval_revision sample_ae 2 6 [(''8'', f)] = Inr zero_digest"
    using f(2) by (simp add: approval_revision_def MAX_PROJECTION_LEAVES_def digest_small MAX_PROPOSAL_BYTES_def)
  with f q show ?thesis
    by (simp add: project_approval_graph_def sample_graph_def project_leaf_def Let_def digest_small MAX_PROPOSAL_BYTES_def)
qed

lemma sample_reviews: "\<exists>p s'. review_agent_run_approval sample_ae review_te 10 (5, 7) 5 7 2 sample_review sample_s = Inr (p, s')"
proof -
  have found: "find (\<lambda>r. ar_id r = 2 \<and> ar_workspace_id r = 7 \<and> ar_user_id r = 5 \<and> \<not> ar_deleted r) (agent_runs (ap_db sample_s)) =
      Some sample_waiting" by (simp add: rows_db_def)
  have deadline: "approval_family_deadline (e_settings approval_sample_run_env) [sample_waiting] None = Inr (Some 604800000000)"
    by (simp add: approval_family_deadline_def approval_sample_run_env_def default_agent_settings_def min_list_option_def timedelta_days_def)
  have ok: "reviewable review_te (leaf_direct sample_leaf)"
    by (simp add: reviewable_def review_te_def sample_call_def sample_tool_def)
  have dump: "proposal_digest sample_ae (dump_review sample_ae sample_review) = Inr zero_digest"
    by (rule digest_small) (simp add: dump_review_def sample_review_def MAX_PROPOSAL_BYTES_def)
  have override: "validate_and_canonicalize_override_args sample_ae review_te sample_waiting sample_call (Some [(''to'', JStr ''y'')]) =
      Inr (Some [(''to'', JStr ''y'')])"
    by (simp add: validate_and_canonicalize_override_args_def review_te_def sample_te_def sample_call_def sample_tool_def
        original_tool_args_def mapping_args_def validate_locked_changes_def field_editable_def field_by_key_def
        validate_scalar_def validate_record_field_def canonicalize_entity_field_def)
  have display: "to_display review_te r n i d = Inr d" for r n i d by (simp add: review_te_def sample_te_def)
  have shown: "proposal_digest sample_ae (JObj [(''to'', JStr ''y'')]) = Inr zero_digest"
    by (rule digest_small) (simp add: MAX_PROPOSAL_BYTES_def)
  let ?md = "dict_set ''reviewed_args'' (JObj [(''to'', JStr ''y'')]) (dict_set ''display_args'' (JObj [(''to'', JStr ''y'')]) [])"
  have md: "?md = reviewed_metadata" by (simp add: dict_set_def reviewed_metadata_def)
  let ?q = "\<lparr>dr_approvals = [sample_call], dr_metadata = [(''a'', reviewed_metadata)]\<rparr>"
  let ?r = "sample_waiting\<lparr>ar_metadata_json :=
      Some (build_suspended_run_metadata sample_ae 6 (plain_run 2 None RunRunning None) 4 sample_history ?q)\<rparr>"
  have out: "ae_requests_out sample_ae q = JObj [(''approvals'', JArr (map call_json (dr_approvals q))),
        (''metadata'', members_json JObj (dr_metadata q))]" for q by (simp add: sample_ae_def)
  have "set_request_metadata ''a'' reviewed_metadata sample_waiting = Some ?r"
    by (simp add: set_request_metadata_def sample_waiting_def build_suspended_run_metadata_def out members_json_def
        dict_get_def dict_set_def dict_pop_def sample_requests_def pending_tool_call_ids_def plain_run_def)
  moreover have "load_suspended_run_state sample_ae ?r = Inr \<lparr>su_history = sample_history, su_requests = ?q, su_batch = 6\<rparr>"
    by (rule suspended_roundtrip [OF sample_adapters, of "plain_run 2 None RunRunning None" 4]) (simp_all add: sample_waiting_def)
  moreover have "ar_id ?r = 2" "ar_parent_run_id ?r = None" "ar_delegation_depth ?r = 0" "ar_status ?r = RunAwaitingApproval"
      "ar_conversation_id ?r = 4" "ar_workspace_id ?r = 7"
    by (simp_all add: sample_waiting_def)
  ultimately have "\<exists>r. set_request_metadata ''a'' ?md sample_waiting = Some r \<and> ar_id r = 2 \<and> ar_parent_run_id r = None \<and>
      ar_delegation_depth r = 0 \<and> ar_status r = RunAwaitingApproval \<and> ar_conversation_id r = 4 \<and> ar_workspace_id r = 7 \<and>
      load_suspended_run_state sample_ae r = Inr \<lparr>su_history = sample_history, su_requests = ?q, su_batch = 6\<rparr>"
    unfolding md by blast
  then obtain r where r: "set_request_metadata ''a'' ?md sample_waiting = Some r" "ar_id r = 2" "ar_parent_run_id r = None"
      "ar_delegation_depth r = 0" "ar_status r = RunAwaitingApproval" "ar_conversation_id r = 4" "ar_workspace_id r = 7"
      "load_suspended_run_state sample_ae r = Inr \<lparr>su_history = sample_history, su_requests = ?q, su_batch = 6\<rparr>" by blast
  have graph: "build_approval_graph sample_ae r runs = Inr (sample_graph\<lparr>gr_nodes := [LeafNode reviewed_leaf]\<rparr>)" for runs
    by (simp add: build_approval_graph_def r approval_calls_def call_metadata_def check_call_metadata_def sample_call_def
        kind_is_def build_leaf_def MAX_PROJECTION_LEAVES_def sample_graph_def reviewed_leaf_def reviewed_metadata_def dict_get_def)
  obtain p where p: "project_approval_graph sample_ae (sample_graph\<lparr>gr_nodes := [LeafNode reviewed_leaf]\<rparr>) = Inr p"
    using reviewed_project by blast
  have parts: "rv_revision sample_review = zero_digest" "rv_approval_id sample_review = 8" "rv_override sample_review = [(''to'', JStr ''y'')]"
    "leaf_outer sample_leaf = None" "tc_id sample_call = ''a''"
    by (simp_all add: sample_review_def sample_leaf_def sample_call_def)
  show ?thesis
    by (simp add: review_agent_run_approval_def found require_root_approval_def sample_family deadline projected_graph_def
        sample_load sample_project parts apply_review_def Let_def)
       (simp add: ok [simplified] dump override display shown r [simplified] graph p)
qed

theorem review_changes_only_proposal_witness:
  "\<exists>p s'. review_agent_run_approval sample_ae review_te 10 (5, 7) 5 7 2 sample_review sample_s = Inr (p, s') \<and>
     read_approval_family_deadline default_agent_settings sample_waiting (ap_db s') =
       read_approval_family_deadline default_agent_settings sample_waiting (ap_db sample_s) \<and>
     loaded sample_ae s' 2 = None"
proof -
  obtain p s' where ok: "review_agent_run_approval sample_ae review_te 10 (5, 7) 5 7 2 sample_review sample_s = Inr (p, s')"
    using sample_reviews by blast
  have inv: "run_inv (ap_db sample_s)" using sample_inv by (simp add: approval_inv_def)
  from review_changes_only_proposal [OF inv ok] ok sample_unreserved show ?thesis by metis
qed

end
