(* ===== verification/Rate_Limits.thy ===== *)
theory Rate_Limits
  imports Job_Runner
begin

text \<open>
  Rate limiting (\<^verbatim>\<open>core/rate_limiting.py\<close>, \<^verbatim>\<open>middleware/rate_limit.py\<close>): fixed windows counted in the database
  for authentication and in process memory for everything else, the client address behind trusted
  proxies, the middleware's decision, and the retention sweep of the counters. The parsing of
  addresses and networks (\<^verbatim>\<open>ipaddress\<close>) is an argument.
\<close>

section \<open>Windows\<close>

definition window_start :: "timestamp \<Rightarrow> int \<Rightarrow> timestamp" where
  "window_start now window_seconds = now div 1000000 div window_seconds * window_seconds * 1000000"

text \<open>\<^verbatim>\<open>max(1, math.ceil((reset_time - now).total_seconds()))\<close>.\<close>

definition seconds_until :: "timestamp \<Rightarrow> timestamp \<Rightarrow> int" where
  "seconds_until reset_time now = max 1 (- ((now - reset_time) div 1000000))"

record rate_result =
  rr_allowed :: bool
  rr_attempts :: int
  rr_limit :: "int option"
  rr_window_seconds :: int
  rr_reset_time :: timestamp
  rr_retry_after :: "int option"

definition default_limits :: "rate_limit_settings \<Rightarrow> string \<rightharpoonup> int \<times> int" where
  "default_limits cfg =
     [''requests_per_minute'' \<mapsto> (RATE_LIMIT_REQUESTS_PER_MINUTE cfg, 60),
      ''requests_per_hour'' \<mapsto> (RATE_LIMIT_REQUESTS_PER_HOUR cfg, 3600),
      ''login_attempts'' \<mapsto> (RATE_LIMIT_LOGIN_ATTEMPTS_PER_HOUR cfg, 3600),
      ''registration'' \<mapsto> (RATE_LIMIT_REGISTRATION_PER_DAY cfg, 86400),
      ''password_reset'' \<mapsto> (RATE_LIMIT_PASSWORD_RESET_PER_DAY cfg, 86400)]"

text \<open>
  \<open>parse_ip\<close> is \<^verbatim>\<open>str(ip_address(s))\<close>, None for its \<^verbatim>\<open>ValueError\<close>; a stored address is its canonical text.
  \<open>trusted\<close> says whether a canonical address lies in a network of \<^verbatim>\<open>TRUSTED_PROXY_CIDRS\<close>.
\<close>

record rate_env =
  rl_settings :: rate_limit_settings
  parse_ip :: "string \<Rightarrow> string option"
  trusted :: "string \<Rightarrow> bool"
  rl_sha256 :: "string \<Rightarrow> string"

definition window_result :: "int \<Rightarrow> int \<Rightarrow> timestamp \<Rightarrow> bool \<Rightarrow> int \<Rightarrow> rate_result" where
  "window_result limit window_seconds now allowed attempts =
     (let reset_time = window_start now window_seconds + timedelta_seconds window_seconds
      in \<lparr>rr_allowed = allowed, rr_attempts = attempts, rr_limit = Some limit, rr_window_seconds = window_seconds,
          rr_reset_time = reset_time,
          rr_retry_after = (if allowed then None else Some (seconds_until reset_time now))\<rparr>)"

definition unchecked_result :: "rate_env \<Rightarrow> timestamp \<Rightarrow> string \<Rightarrow> rate_result option" where
  "unchecked_result env now ip =
     (if \<not> RATE_LIMIT_ENABLED (rl_settings env)
      then Some \<lparr>rr_allowed = True, rr_attempts = 0, rr_limit = None, rr_window_seconds = 0, rr_reset_time = now,
                 rr_retry_after = None\<rparr>
      else if parse_ip env ip = None
      then Some \<lparr>rr_allowed = False, rr_attempts = 999, rr_limit = Some 1, rr_window_seconds = 3600,
                 rr_reset_time = now + timedelta_seconds 3600, rr_retry_after = Some 3600\<rparr>
      else None)"

section \<open>Budgets in memory\<close>

type_synonym memory_key = "string \<times> string \<times> string"
type_synonym memory_buckets = "(memory_key \<times> timestamp \<times> int) list"

definition MEMORY_BUCKET_LIMIT :: nat where
  "MEMORY_BUCKET_LIMIT = 20000"

definition bucket_expired :: "rate_limit_settings \<Rightarrow> timestamp \<Rightarrow> memory_key \<times> timestamp \<times> int \<Rightarrow> bool" where
  "bucket_expired cfg now b =
     (case b of ((_, _, limit_type), start, _) \<Rightarrow>
        (case default_limits cfg limit_type of
           None \<Rightarrow> False | Some (_, window_seconds) \<Rightarrow> start + timedelta_seconds window_seconds \<le> now))"

definition prune_memory_buckets :: "rate_limit_settings \<Rightarrow> nat \<Rightarrow> timestamp \<Rightarrow> memory_buckets \<Rightarrow> memory_buckets" where
  "prune_memory_buckets cfg cap now B =
     (let live = filter (\<lambda>b. \<not> bucket_expired cfg now b) B
      in if length live > cap then drop (length live - cap * 9 div 10) live else live)"

text \<open>None: the \<^verbatim>\<open>KeyError\<close> of an unknown limit type. The source's cap is \<open>MEMORY_BUCKET_LIMIT\<close>.\<close>

definition check_memory_rate_limit ::
    "rate_env \<Rightarrow> nat \<Rightarrow> timestamp \<Rightarrow> string \<Rightarrow> string \<Rightarrow> string \<Rightarrow> memory_buckets \<Rightarrow> (rate_result \<times> memory_buckets) option" where
  "check_memory_rate_limit env cap now ip endpoint limit_type B =
     (case unchecked_result env now ip of
        Some r \<Rightarrow> Some (r, B)
      | None \<Rightarrow>
          (case default_limits (rl_settings env) limit_type of
             None \<Rightarrow> None
           | Some (limit, window_seconds) \<Rightarrow>
               (let start = window_start now window_seconds;
                    key = (ip, endpoint, limit_type);
                    attempts = (case map_of B key of
                        None \<Rightarrow> 1
                      | Some (bucket_start, n) \<Rightarrow> if bucket_start = start then n + 1 else 1);
                    B1 = AList.update key (start, attempts) B;
                    B2 = (if length B1 > cap then prune_memory_buckets (rl_settings env) cap now B1 else B1)
                in Some (window_result limit window_seconds now (attempts \<le> limit) attempts, B2))))"

section \<open>Durable budgets\<close>

record rate_row =
  ra_ip :: string
  ra_endpoint :: string
  ra_limit_type :: string
  ra_window_seconds :: int
  ra_window_start :: timestamp
  ra_attempts :: int
  ra_created_at :: timestamp
  ra_updated_at :: timestamp

definition bucket_key :: "rate_row \<Rightarrow> string \<times> string \<times> string \<times> int \<times> timestamp" where
  "bucket_key r = (ra_ip r, ra_endpoint r, ra_limit_type r, ra_window_seconds r, ra_window_start r)"

text \<open>\<^verbatim>\<open>INSERT ... ON CONFLICT DO UPDATE SET attempts = attempts + 1 RETURNING attempts\<close>.\<close>

definition check_rate_limit_db ::
    "timestamp \<Rightarrow> string \<Rightarrow> string \<Rightarrow> string \<Rightarrow> int \<Rightarrow> int \<Rightarrow> rate_row list \<Rightarrow> rate_result \<times> rate_row list" where
  "check_rate_limit_db now ip endpoint limit_type limit window_seconds T =
     (let key = (ip, endpoint, limit_type, window_seconds, window_start now window_seconds)
      in case find (\<lambda>r. bucket_key r = key) T of
           Some r \<Rightarrow>
             (window_result limit window_seconds now (ra_attempts r + 1 \<le> limit) (ra_attempts r + 1),
              update_where (\<lambda>x. bucket_key x = key) (\<lambda>x. x\<lparr>ra_attempts := ra_attempts x + 1, ra_updated_at := now\<rparr>) T)
         | None \<Rightarrow>
             (window_result limit window_seconds now (1 \<le> limit) 1,
              T @ [\<lparr>ra_ip = ip, ra_endpoint = endpoint, ra_limit_type = limit_type, ra_window_seconds = window_seconds,
                    ra_window_start = window_start now window_seconds, ra_attempts = 1, ra_created_at = now,
                    ra_updated_at = now\<rparr>]))"

definition limit_configuration :: "rate_limit_settings \<Rightarrow> string \<Rightarrow> int option \<Rightarrow> int option \<Rightarrow> int \<times> int" where
  "limit_configuration cfg limit_type custom_limit custom_window =
     (case (custom_limit, custom_window) of
        (Some limit, Some window) \<Rightarrow> (limit, window)
      | _ \<Rightarrow> if_none (default_limits cfg limit_type) (RATE_LIMIT_REQUESTS_PER_MINUTE cfg, 60))"

definition check_rate_limit ::
    "rate_env \<Rightarrow> timestamp \<Rightarrow> string \<Rightarrow> string \<Rightarrow> string \<Rightarrow> int option \<Rightarrow> int option \<Rightarrow> rate_row list \<Rightarrow>
     rate_result \<times> rate_row list" where
  "check_rate_limit env now ip endpoint limit_type custom_limit custom_window T =
     (case unchecked_result env now ip of
        Some r \<Rightarrow> (r, T)
      | None \<Rightarrow>
          (case limit_configuration (rl_settings env) limit_type custom_limit custom_window of
             (limit, window_seconds) \<Rightarrow>
               check_rate_limit_db now (if_none (parse_ip env ip) ip) endpoint limit_type limit window_seconds T))"

text \<open>Reading a budget without using it.\<close>

definition get_rate_limit_status :: "rate_env \<Rightarrow> timestamp \<Rightarrow> string \<Rightarrow> string \<Rightarrow> string \<Rightarrow> rate_row list \<Rightarrow> rate_result" where
  "get_rate_limit_status env now ip endpoint limit_type T =
     (case unchecked_result env now ip of
        Some r \<Rightarrow> r
      | None \<Rightarrow>
          (case if_none (default_limits (rl_settings env) limit_type)
                  (RATE_LIMIT_REQUESTS_PER_MINUTE (rl_settings env), 60) of
             (limit, window_seconds) \<Rightarrow>
               (let attempts = (case find (\<lambda>r. bucket_key r = (if_none (parse_ip env ip) ip, endpoint, limit_type,
                          window_seconds, window_start now window_seconds)) T of
                      None \<Rightarrow> 0 | Some r \<Rightarrow> ra_attempts r)
                in window_result limit window_seconds now (attempts < limit) attempts)))"

text \<open>The retention sweep, which also schedules its successor.\<close>

definition SWEEP_RATE_LIMIT_ATTEMPTS_KIND :: string where
  "SWEEP_RATE_LIMIT_ATTEMPTS_KIND = ''rate_limits.sweep_attempts''"

definition expired_attempts :: "rate_limit_settings \<Rightarrow> timestamp \<Rightarrow> rate_row \<Rightarrow> bool" where
  "expired_attempts cfg now r \<longleftrightarrow> ra_created_at r < now - timedelta_seconds (RATE_LIMIT_RETENTION_SECONDS cfg)"

definition sweep_rate_limit_attempts ::
    "rate_limit_settings \<Rightarrow> job_settings \<Rightarrow> job_registry \<Rightarrow> (string \<Rightarrow> string) \<Rightarrow> (pydict \<Rightarrow> string) \<Rightarrow> (uuid \<Rightarrow> string) \<Rightarrow>
     timestamp \<Rightarrow> uuid \<Rightarrow> uuid \<Rightarrow> rate_row list \<times> job list \<Rightarrow> app_error + job \<times> rate_row list \<times> job list" where
  "sweep_rate_limit_attempts cfg jcfg registry sha256 encode uuid_text now fresh i s =
     bind_result (enqueue_job jcfg registry sha256 encode now fresh (snd s)
         (system_request SWEEP_RATE_LIMIT_ATTEMPTS_KIND
            (Some [(''scheduled_by_job_id'', JStr (uuid_text i))])
            (''rate-limit-sweep:'' @ uuid_text i)
            (now + timedelta_seconds (JOBS_SWEEP_INTERVAL_SECONDS jcfg)))) (\<lambda>(j, jobs).
       Inr (j, delete_where (expired_attempts cfg now) (fst s), jobs))"

definition ensure_rate_limit_sweep_job ::
    "job_settings \<Rightarrow> job_registry \<Rightarrow> (string \<Rightarrow> string) \<Rightarrow> (pydict \<Rightarrow> string) \<Rightarrow> timestamp \<Rightarrow> uuid \<Rightarrow>
     job list \<Rightarrow> app_error + job \<times> job list" where
  "ensure_rate_limit_sweep_job cfg registry sha256 encode now fresh T =
     (case find (\<lambda>j. j_kind j = SWEEP_RATE_LIMIT_ATTEMPTS_KIND \<and> in_flight (j_status j)) T of
        Some existing \<Rightarrow> Inr (existing, T)
      | None \<Rightarrow> enqueue_job cfg registry sha256 encode now fresh T
          (system_request SWEEP_RATE_LIMIT_ATTEMPTS_KIND None ''rate-limit-sweep:ensure'' now))"

section \<open>Bucket names\<close>

definition redact_capability_path :: "string \<Rightarrow> string" where
  "redact_capability_path path =
     (if starts_with ''/artifacts/shared/'' path then ''/artifacts/shared/{token}'' else path)"

definition hex_char :: "char \<Rightarrow> bool" where
  "hex_char c = (let n = (of_char c :: nat) in (48 \<le> n \<and> n \<le> 57) \<or> (97 \<le> n \<and> n \<le> 102) \<or> (65 \<le> n \<and> n \<le> 70))"

definition decimal_char :: "char \<Rightarrow> bool" where
  "decimal_char c = (let n = (of_char c :: nat) in 48 \<le> n \<and> n \<le> 57)"

text \<open>A trailing newline is accepted: \<^verbatim>\<open>$\<close> matches before it.\<close>

definition drop_final_newline :: "string \<Rightarrow> string" where
  "drop_final_newline s = (if s \<noteq> [] \<and> last s = CHR 0x0A then butlast s else s)"

definition uuid_segment :: "string \<Rightarrow> bool" where
  "uuid_segment s =
     (let t = drop_final_newline s
      in map length (split_on (CHR ''-'') t) = [8, 4, 4, 4, 12] \<and> list_all (list_all hex_char) (split_on (CHR ''-'') t))"

definition numeric_segment :: "string \<Rightarrow> bool" where
  "numeric_segment s = (let t = drop_final_newline s in t \<noteq> [] \<and> list_all decimal_char t)"

definition normalize_endpoint :: "string \<Rightarrow> string" where
  "normalize_endpoint path =
     join_with ''/'' (map (\<lambda>s. if uuid_segment s \<or> numeric_segment s then ''{id}'' else s)
       (split_on (CHR ''/'') (redact_capability_path path)))"

definition login_failure_endpoint :: "rate_env \<Rightarrow> string option \<Rightarrow> string option \<Rightarrow> string" where
  "login_failure_endpoint env email anonymous_scope =
     (let subject = (case email of
            Some e \<Rightarrow> if e = [] then ''anonymous:'' @ or_string anonymous_scope ''login'' else py_lower (py_strip e)
          | None \<Rightarrow> ''anonymous:'' @ or_string anonymous_scope ''login'')
      in ''/api/v1/auth/login/'' @ rl_sha256 env subject)"

definition get_login_failure_status ::
    "rate_env \<Rightarrow> timestamp \<Rightarrow> string \<Rightarrow> string option \<Rightarrow> string option \<Rightarrow> rate_row list \<Rightarrow> rate_result" where
  "get_login_failure_status env now ip email scope T =
     get_rate_limit_status env now ip (login_failure_endpoint env email scope) ''login_attempts'' T"

definition record_login_failure ::
    "rate_env \<Rightarrow> timestamp \<Rightarrow> string \<Rightarrow> string option \<Rightarrow> string option \<Rightarrow> rate_row list \<Rightarrow> rate_result \<times> rate_row list" where
  "record_login_failure env now ip email scope T =
     check_rate_limit env now ip (login_failure_endpoint env email scope) ''login_attempts'' None None T"

section \<open>The client's address\<close>

text \<open>\<^verbatim>\<open>str.isdigit\<close> on code points below 256: the decimal digits and three superscripts.\<close>

definition py_isdigit :: "string \<Rightarrow> bool" where
  "py_isdigit s \<longleftrightarrow> s \<noteq> [] \<and> list_all (\<lambda>c. decimal_char c \<or> (of_char c :: nat) \<in> {178, 179, 185}) s"

definition normalize_ip_candidate :: "rate_env \<Rightarrow> string option \<Rightarrow> string option" where
  "normalize_ip_candidate env value =
     (case value of
        None \<Rightarrow> None
      | Some v \<Rightarrow>
          (let quote = CHR 0x22;
               c0 = strip_char quote (py_strip v)
           in if c0 = [] \<or> py_lower c0 = ''unknown'' then None
              else
                (let c1 = (if starts_with ''for='' (py_lower c0) then strip_char quote (py_strip (drop 4 c0)) else c0);
                     c2 = (if starts_with ''['' c1 \<and> CHR '']'' \<in> set c1 then takeWhile ((\<noteq>) (CHR '']'')) (drop 1 c1) else c1);
                     c3 = (if count_list c2 (CHR '':'') = 1 \<and> CHR ''.'' \<in> set c2
                           then (let host = takeWhile ((\<noteq>) (CHR '':'')) c2;
                                     port = drop 1 (dropWhile ((\<noteq>) (CHR '':'')) c2)
                                 in if py_isdigit port then host else c2)
                           else c2)
                 in parse_ip env c3)))"

definition is_trusted_proxy_ip :: "rate_env \<Rightarrow> string \<Rightarrow> bool" where
  "is_trusted_proxy_ip env ip = (case parse_ip env ip of None \<Rightarrow> False | Some a \<Rightarrow> trusted env a)"

definition extract_forwarded_chain :: "rate_env \<Rightarrow> string option \<Rightarrow> string list" where
  "extract_forwarded_chain env forwarded_for =
     (case forwarded_for of
        None \<Rightarrow> []
      | Some v \<Rightarrow> if v = [] then [] else
          concat (map (\<lambda>raw. case normalize_ip_candidate env (Some raw) of
             None \<Rightarrow> [] | Some ip \<Rightarrow> if ip = [] then [] else [ip]) (split_on (CHR '','') v)))"

definition resolve_ip_from_forwarded_chain :: "rate_env \<Rightarrow> string list \<Rightarrow> string \<Rightarrow> string option" where
  "resolve_ip_from_forwarded_chain env chain socket_ip =
     (case chain of
        [] \<Rightarrow> None
      | first # _ \<Rightarrow>
          (case find (\<lambda>ip. \<not> is_trusted_proxy_ip env ip) (rev (chain @ [socket_ip])) of
             Some ip \<Rightarrow> Some ip | None \<Rightarrow> Some first))"

text \<open>\<open>host\<close> is \<^verbatim>\<open>request.client.host\<close>, \<open>forwarded_for\<close> and \<open>real_ip\<close> the two headers.\<close>

definition get_client_ip :: "rate_env \<Rightarrow> string option \<Rightarrow> string option \<Rightarrow> string option \<Rightarrow> string" where
  "get_client_ip env host forwarded_for real_ip =
     (let socket_host = (case host of None \<Rightarrow> [] | Some h \<Rightarrow> if h = [] then [] else py_strip h)
      in if socket_host = [] then ''unknown''
         else case normalize_ip_candidate env (Some socket_host) of
                None \<Rightarrow> socket_host
              | Some socket_ip \<Rightarrow>
                  if \<not> is_trusted_proxy_ip env socket_ip then socket_ip
                  else
                    (let resolved = or_string (resolve_ip_from_forwarded_chain env
                           (extract_forwarded_chain env forwarded_for) socket_ip) []
                     in if resolved \<noteq> [] then resolved
                        else or_string (normalize_ip_candidate env real_ip) socket_ip))"

section \<open>The middleware\<close>

definition get_limit_type :: "string \<Rightarrow> string \<Rightarrow> string" where
  "get_limit_type endpoint request_method =
     (let ep = py_lower endpoint; tail = rstrip_char (CHR ''/'') ep
      in if ends_with ''/auth/totp/verify'' tail then ''login_attempts''
         else if ends_with ''/auth/login'' tail then ''login_attempts''
         else if starts_with ''/api/v1/auth/oauth/'' ep \<and> ends_with ''/callback'' tail \<and> \<not> contains_text ''/link/'' ep
         then ''login_attempts''
         else if (contains_text ''/auth/'' ep \<and> ends_with ''/register'' tail) \<or>
                 (contains_text ''/api/v1/users'' ep \<and> request_method = ''POST'')
         then ''registration''
         else if contains_text ''/auth/'' ep \<and> contains_text ''/password/reset'' ep then ''password_reset''
         else ''requests_per_minute'')"

definition DURABLE_LIMIT_TYPES :: "string set" where
  "DURABLE_LIMIT_TYPES = {''login_attempts'', ''registration'', ''password_reset''}"

definition EXCLUDE_PATHS :: "string list" where
  "EXCLUDE_PATHS = [''/healthz'', ''/readyz'', ''/api/metrics'']"

text \<open>
  \<open>hr_body_email\<close> is the text of the \<^verbatim>\<open>email\<close> member of a JSON body, None when there is none.
\<close>

record http_request =
  hr_method :: string
  hr_path :: string
  hr_client_ip :: string
  hr_body_email :: "string option"

definition login_email :: "http_request \<Rightarrow> string \<Rightarrow> string \<Rightarrow> string option" where
  "login_email q endpoint limit_type =
     (if limit_type \<noteq> ''login_attempts'' \<or> \<not> ends_with ''/auth/login'' (rstrip_char (CHR ''/'') (py_lower endpoint))
      then None else map_option (\<lambda>e. py_lower (py_strip e)) (hr_body_email q))"

datatype rate_decision =
    PassThrough "rate_result option"
  | TooManyRequests string rate_result
  | ServiceUnavailable

text \<open>The check of a durable budget in its own session; no budget is checked for a login without an account.\<close>

definition check_durable_limit ::
    "rate_env \<Rightarrow> timestamp \<Rightarrow> string \<Rightarrow> string \<Rightarrow> string \<Rightarrow> string option \<Rightarrow> rate_row list \<Rightarrow> rate_result option \<times> rate_row list" where
  "check_durable_limit env now ip endpoint limit_type email T =
     (if limit_type \<noteq> ''login_attempts''
      then (case check_rate_limit env now ip endpoint limit_type None None T of (r, T') \<Rightarrow> (Some r, T'))
      else case email of
             None \<Rightarrow> (None, T)
           | Some e \<Rightarrow> (Some (get_login_failure_status env now ip (Some e) None T), T))"

fun check_memory_limits ::
    "rate_env \<Rightarrow> timestamp \<Rightarrow> string \<Rightarrow> string \<Rightarrow> string list \<Rightarrow> rate_result option \<Rightarrow> memory_buckets \<Rightarrow>
     (rate_decision \<times> memory_buckets) option" where
  "check_memory_limits env now ip endpoint [] result B = Some (PassThrough result, B)"
| "check_memory_limits env now ip endpoint (t # ts) result B =
     (case check_memory_rate_limit env MEMORY_BUCKET_LIMIT now ip endpoint t B of
        None \<Rightarrow> None
      | Some (r, B1) \<Rightarrow>
          if \<not> rr_allowed r then Some (TooManyRequests t r, B1)
          else check_memory_limits env now ip endpoint ts (case result of None \<Rightarrow> Some r | Some x \<Rightarrow> Some x) B1)"

text \<open>\<open>db_fails\<close>: the durable check raised, and its session was rolled back.\<close>

definition rate_limit_dispatch ::
    "rate_env \<Rightarrow> timestamp \<Rightarrow> bool \<Rightarrow> http_request \<Rightarrow> rate_row list \<times> memory_buckets \<Rightarrow>
     (rate_decision \<times> rate_row list \<times> memory_buckets) option" where
  "rate_limit_dispatch env now db_fails q s =
     (if hr_method q \<in> {''OPTIONS'', ''HEAD''} then Some (PassThrough None, s)
      else if list_ex (\<lambda>p. starts_with p (hr_path q)) EXCLUDE_PATHS then Some (PassThrough None, s)
      else
        (let endpoint = redact_capability_path (hr_path q);
             rate_limit_endpoint = normalize_endpoint endpoint;
             limit_type = get_limit_type endpoint (hr_method q);
             email = login_email q endpoint limit_type;
             memory_types = (if limit_type = ''requests_per_minute'' then [''requests_per_minute'', ''requests_per_hour'']
                             else [''requests_per_hour''])
         in if limit_type \<in> DURABLE_LIMIT_TYPES \<and> db_fails then Some (ServiceUnavailable, s)
            else
              (case (if limit_type \<in> DURABLE_LIMIT_TYPES
                     then check_durable_limit env now (hr_client_ip q) rate_limit_endpoint limit_type email (fst s)
                     else (None, fst s)) of
                 (result, T) \<Rightarrow>
                   if (case result of None \<Rightarrow> False | Some r \<Rightarrow> \<not> rr_allowed r)
                   then Some (TooManyRequests limit_type (the result), T, snd s)
                   else map_option (\<lambda>(d, B). (d, T, B))
                     (check_memory_limits env now (hr_client_ip q) rate_limit_endpoint memory_types result (snd s)))))"

text \<open>The public details of a refusal.\<close>

definition remaining_attempts :: "rate_result \<Rightarrow> int option" where
  "remaining_attempts r = map_option (\<lambda>limit. max 0 (limit - rr_attempts r)) (rr_limit r)"

end
