(* ===== verification/Auth_Sessions.thy ===== *)
theory Auth_Sessions
  imports Rate_Limits
begin

text \<open>
  Sessions and their tokens (\<^verbatim>\<open>models/session.py\<close>, \<^verbatim>\<open>core/auth/sessions\<close>, \<^verbatim>\<open>services/auth/sessions\<close>,
  \<^verbatim>\<open>services/auth/logout.py\<close>), with the rows of the users as authentication reads them
  (\<^verbatim>\<open>models/user.py\<close>).

  A request works in one transaction: an operation maps the tables to its result and the tables after it.
  When it raises, its own writes are gone and what it committed in transactions of its own (failure
  counters, security events) stays, so the result is a pair. The columns \<^verbatim>\<open>created_at\<close> and the
  \<^verbatim>\<open>deleted_at\<close> of a session are its time of creation and of revocation.
\<close>

section \<open>Rows\<close>

record auth_user =
  au_id :: uuid
  au_email :: string
  au_is_active :: bool
  au_deleted :: bool
  au_default_workspace :: "uuid option"
  au_password_hash :: "string option"
  au_totp_secret :: "string option"
  au_totp_enabled :: bool
  au_last_counter :: "int option"
  au_backup_codes :: "string option"
  au_failed :: int
  au_locked_until :: "timestamp option"
  au_lockout_reason :: "string option"

record auth_session =
  se_id :: uuid
  se_user :: uuid
  se_token_hash :: string
  se_ip :: "string option"
  se_user_agent :: "string option"
  se_created_at :: timestamp
  se_expires_at :: timestamp
  se_last_accessed :: timestamp
  se_twofa :: bool
  se_deleted :: bool

record auth_identity =
  id_user :: uuid
  id_provider :: string
  id_subject :: string
  id_email :: string
  id_verified :: bool
  id_deleted :: bool

text \<open>
  What is recorded beside the tables: security and audit events by name, and the calls into the
  workspace services (\<^verbatim>\<open>provision_personal_workspace\<close>, \<^verbatim>\<open>accept_pending_invitations_for_user\<close>,
  \<^verbatim>\<open>accept_invitation\<close>), which \<open>Workspaces\<close> and \<open>Workspace_Provisioning\<close> model.
\<close>

datatype auth_entry =
    AuthEvent string "string option"
  | AuthAudit string uuid
  | WorkspaceProvisioned uuid
  | PendingInvitationsAccepted uuid
  | InvitationAccepted uuid uuid

record auth_db =
  au_users :: "auth_user list"
  au_sessions :: "auth_session list"
  au_identities :: "auth_identity list"
  au_attempts :: "rate_row list"
  au_log :: "auth_entry list"

section \<open>The environment\<close>

text \<open>
  The libraries: \<open>pw_verify\<close> and \<open>pw_hash\<close> are pwdlib's hasher (None for an exception; the salt is an
  argument), \<open>encrypt\<close> and \<open>decrypt\<close> Fernet's (the nonce is an argument), \<open>otp\<close>, \<open>timecode\<close> and \<open>strings_equal\<close>
  pyotp's, \<open>codes_out\<close> and \<open>codes_in\<close> \<^verbatim>\<open>json.dumps\<close> and \<^verbatim>\<open>json.loads\<close> on a list of strings, \<open>jwt_encode\<close> and
  \<open>jwt_decode\<close> PyJWT's with the application's secret (at a time, for the expiry), \<open>uuid_text\<close> is \<^verbatim>\<open>str(uuid)\<close> and
  \<open>read_uuid_text\<close> the reader of UUIDs. SHA-256 is the one of
  \<open>ve_rate\<close>.
\<close>

datatype jwt_error = JwtExpired | JwtInvalid

record auth_env =
  ve_rate :: rate_env
  ve_settings :: auth_settings
  pw_verify :: "string \<Rightarrow> string \<Rightarrow> bool option"
  pw_hash :: "nat \<Rightarrow> string \<Rightarrow> string"
  encrypt :: "nat \<Rightarrow> string \<Rightarrow> string"
  decrypt :: "string \<Rightarrow> string option"
  otp :: "string \<Rightarrow> int \<Rightarrow> string option"
  timecode :: "timestamp \<Rightarrow> int"
  strings_equal :: "string \<Rightarrow> string \<Rightarrow> bool"
  codes_out :: "string list \<Rightarrow> string"
  codes_in :: "string \<Rightarrow> string list option"
  jwt_encode :: "pydict \<Rightarrow> string"
  jwt_decode :: "timestamp \<Rightarrow> string \<Rightarrow> jwt_error + pydict"
  uuid_text :: "uuid \<Rightarrow> string"
  read_uuid_text :: "string \<Rightarrow> uuid option"

abbreviation ve_sha256 :: "auth_env \<Rightarrow> string \<Rightarrow> string" where
  "ve_sha256 env \<equiv> rl_sha256 (ve_rate env)"

text \<open>A request, with the client address that \<^verbatim>\<open>get_client_ip\<close> finds.\<close>

record auth_request =
  rq_cookie :: "string option"
  rq_authorization :: "string option"
  rq_client_ip :: string
  rq_user_agent :: "string option"

definition request_ip :: "auth_env \<Rightarrow> auth_request \<Rightarrow> string" where
  "request_ip env rq =
     (case parse_ip (ve_rate env) (rq_client_ip rq) of Some _ \<Rightarrow> rq_client_ip rq | None \<Rightarrow> ''127.0.0.1'')"

text \<open>\<^verbatim>\<open>authorization.partition(" ")\<close>: the text before the first blank and the text after it.\<close>

definition session_token_from_request :: "auth_request \<Rightarrow> string option" where
  "session_token_from_request rq =
     (if or_string (rq_cookie rq) [] \<noteq> [] then rq_cookie rq
      else
        (let authorization = or_string (rq_authorization rq) [];
             scheme = takeWhile (\<lambda>c. c \<noteq> CHR '' '') authorization;
             credentials = drop (length scheme + 1) authorization
         in if py_lower scheme = ''bearer'' \<and> credentials \<noteq> [] then Some (py_strip credentials) else None))"

section \<open>Tokens (utils/security.py)\<close>

definition hash_token :: "auth_env \<Rightarrow> string \<Rightarrow> app_error + string" where
  "hash_token env token =
     (if py_strip token = [] then Inl (CustomValueError ''Token cannot be empty'')
      else Inr (ve_sha256 env token))"

definition verify_password_hash :: "auth_env \<Rightarrow> string \<Rightarrow> string \<Rightarrow> bool" where
  "verify_password_hash env plain hashed = (hashed \<noteq> [] \<and> pw_verify env plain hashed = Some True)"

section \<open>The session manager\<close>

definition LAST_ACCESSED_RESOLUTION :: timestamp where
  "LAST_ACCESSED_RESOLUTION = timedelta_minutes 5"

definition default_session_duration :: "auth_env \<Rightarrow> int" where
  "default_session_duration env = timedelta_days (SESSION_DURATION_DAYS (ve_settings env))"

text \<open>\<^verbatim>\<open>scalar_one_or_none\<close> raises on two rows; token hashes are unique, so the first match is the only one.\<close>

definition get_valid_session ::
    "auth_env \<Rightarrow> timestamp \<Rightarrow> string \<Rightarrow> bool \<Rightarrow> auth_db \<Rightarrow> (auth_session \<times> auth_user) option" where
  "get_valid_session env now token require_twofa db =
     (case hash_token env token of
        Inl _ \<Rightarrow> None
      | Inr h \<Rightarrow>
          (case find (\<lambda>s. se_token_hash s = h \<and> se_expires_at s > now \<and> \<not> se_deleted s \<and>
                          (require_twofa \<longrightarrow> se_twofa s)) (au_sessions db) of
             None \<Rightarrow> None
           | Some s \<Rightarrow>
               (case row_by_id au_id (se_user s) (au_users db) of
                  None \<Rightarrow> None
                | Some u \<Rightarrow> if au_deleted u \<or> \<not> au_is_active u then None else Some (s, u))))"

record session_result =
  sx_token :: string
  sx_expires_at :: timestamp
  sx_session_id :: uuid
  sx_twofa :: bool

text \<open>The drawn token and the new row's id are arguments; \<^verbatim>\<open>token_hash\<close> is unique, also among revoked rows.\<close>

definition create_session ::
    "auth_env \<Rightarrow> timestamp \<Rightarrow> string \<Rightarrow> uuid \<Rightarrow> uuid \<Rightarrow> string option \<Rightarrow> string option \<Rightarrow> int option \<Rightarrow> bool \<Rightarrow>
     auth_session list \<Rightarrow> app_error + session_result \<times> auth_session list" where
  "create_session env now token sid user_id ip agent duration twofa T =
     bind_result (hash_token env token) (\<lambda>h.
       (let expires = now + or_default duration (default_session_duration env)
        in if h \<in> se_token_hash ` set T \<or> sid \<in> se_id ` set T then Inl (IntegrityError ''sessions'')
           else Inr (\<lparr>sx_token = token, sx_expires_at = expires, sx_session_id = sid, sx_twofa = twofa\<rparr>,
             T @ [\<lparr>se_id = sid, se_user = user_id, se_token_hash = h, se_ip = ip, se_user_agent = agent,
                    se_created_at = now, se_expires_at = expires, se_last_accessed = now, se_twofa = twofa,
                    se_deleted = False\<rparr>])))"

text \<open>\<open>unlocked\<close> says whether the row's lock is free: a row another request is touching is skipped.\<close>

definition validate_session ::
    "auth_env \<Rightarrow> timestamp \<Rightarrow> bool \<Rightarrow> string \<Rightarrow> bool \<Rightarrow> bool \<Rightarrow> auth_db \<Rightarrow> auth_user option \<times> auth_db" where
  "validate_session env now unlocked token update_last_accessed require_twofa db =
     (case get_valid_session env now token require_twofa db of
        None \<Rightarrow> (None, db)
      | Some (s, u) \<Rightarrow>
          (Some u,
           if update_last_accessed \<and> se_last_accessed s \<le> now - LAST_ACCESSED_RESOLUTION \<and> unlocked
           then db\<lparr>au_sessions := update_where (\<lambda>x. se_id x = se_id s) (\<lambda>x. x\<lparr>se_last_accessed := now\<rparr>) (au_sessions db)\<rparr>
           else db))"

definition manager_refresh ::
    "auth_env \<Rightarrow> timestamp \<Rightarrow> string \<Rightarrow> int option \<Rightarrow> auth_db \<Rightarrow> (timestamp \<times> uuid) option \<times> auth_db" where
  "manager_refresh env now token duration db =
     (case get_valid_session env now token True db of
        None \<Rightarrow> (None, db)
      | Some (s, u) \<Rightarrow>
          (let expires = now + or_default duration (default_session_duration env)
           in (Some (expires, se_id s),
               db\<lparr>au_sessions := write_row se_id (s\<lparr>se_expires_at := expires, se_last_accessed := now\<rparr>) (au_sessions db)\<rparr>)))"

definition revoke :: "auth_session \<Rightarrow> auth_session" where
  "revoke s = s\<lparr>se_deleted := True\<rparr>"

definition revoke_session :: "auth_env \<Rightarrow> string \<Rightarrow> auth_session list \<Rightarrow> bool \<times> auth_session list" where
  "revoke_session env token T =
     (case hash_token env token of
        Inl _ \<Rightarrow> (False, T)
      | Inr h \<Rightarrow>
          (case find (\<lambda>s. se_token_hash s = h \<and> \<not> se_deleted s) T of
             None \<Rightarrow> (False, T)
           | Some s \<Rightarrow> (True, write_row se_id (revoke s) T)))"

definition revoke_user_sessions :: "auth_env \<Rightarrow> uuid \<Rightarrow> string option \<Rightarrow> auth_session list \<Rightarrow> nat \<times> auth_session list" where
  "revoke_user_sessions env user_id exclude T =
     (let kept = (case exclude of
            None \<Rightarrow> None
          | Some token \<Rightarrow> if token = [] then None else (case hash_token env token of Inl _ \<Rightarrow> None | Inr h \<Rightarrow> Some h));
          selected = (\<lambda>s. se_user s = user_id \<and> \<not> se_deleted s \<and> kept \<noteq> Some (se_token_hash s))
      in (rowcount selected T, update_where selected revoke T))"

definition get_user_sessions :: "timestamp \<Rightarrow> uuid \<Rightarrow> auth_session list \<Rightarrow> auth_session list" where
  "get_user_sessions now user_id T =
     sort_key (\<lambda>s. - se_last_accessed s)
       (filter (\<lambda>s. se_user s = user_id \<and> se_expires_at s > now \<and> \<not> se_deleted s) T)"

section \<open>Partial sessions (partial\_sessions.py)\<close>

definition revoke_user_partial_sessions :: "uuid \<Rightarrow> auth_session list \<Rightarrow> nat \<times> auth_session list" where
  "revoke_user_partial_sessions user_id T =
     (let selected = (\<lambda>s. se_user s = user_id \<and> \<not> se_twofa s \<and> \<not> se_deleted s)
      in (rowcount selected T, update_where selected revoke T))"

definition create_partial_session ::
    "auth_env \<Rightarrow> timestamp \<Rightarrow> string \<Rightarrow> uuid \<Rightarrow> uuid \<Rightarrow> string option \<Rightarrow> string option \<Rightarrow> int option \<Rightarrow>
     auth_session list \<Rightarrow> app_error + session_result \<times> auth_session list" where
  "create_partial_session env now token sid user_id ip agent duration T =
     create_session env now token sid user_id ip agent (Some (or_default duration (timedelta_minutes 10))) False T"

definition find_partial :: "auth_env \<Rightarrow> timestamp \<Rightarrow> string \<Rightarrow> auth_session list \<Rightarrow> auth_session option" where
  "find_partial env now token T =
     (case hash_token env token of
        Inl _ \<Rightarrow> None
      | Inr h \<Rightarrow> find (\<lambda>s. se_token_hash s = h \<and> se_expires_at s > now \<and> \<not> se_twofa s \<and> \<not> se_deleted s) T)"

definition upgrade_partial_session ::
    "auth_env \<Rightarrow> timestamp \<Rightarrow> string \<Rightarrow> uuid \<Rightarrow> string \<Rightarrow> auth_session list \<Rightarrow>
     app_error + session_result option \<times> auth_session list" where
  "upgrade_partial_session env now fresh sid token T =
     (case find_partial env now token T of
        None \<Rightarrow> Inr (None, T)
      | Some s \<Rightarrow>
          bind_result (create_session env now fresh sid (se_user s) (se_ip s) (se_user_agent s) None True
              (write_row se_id (revoke s) T))
            (\<lambda>(r, T'). Inr (Some r, T')))"

section \<open>Removing old rows (cleanup.py)\<close>

definition cleanup_expired_sessions :: "timestamp \<Rightarrow> auth_session list \<Rightarrow> nat \<times> auth_session list" where
  "cleanup_expired_sessions now T =
     (rowcount (\<lambda>s. se_expires_at s \<le> now) T, filter (\<lambda>s. \<not> se_expires_at s \<le> now) T)"

definition cleanup_old_sessions :: "timestamp \<Rightarrow> int \<Rightarrow> bool \<Rightarrow> auth_session list \<Rightarrow> nat \<times> auth_session list" where
  "cleanup_old_sessions now days_old keep_active T =
     (let old = (\<lambda>s. se_created_at s \<le> now - timedelta_days days_old \<and> (keep_active \<longrightarrow> se_expires_at s \<le> now))
      in (rowcount old T, filter (\<lambda>s. \<not> old s) T))"

definition cleanup_inactive_sessions :: "timestamp \<Rightarrow> int \<Rightarrow> bool \<Rightarrow> auth_session list \<Rightarrow> nat \<times> auth_session list" where
  "cleanup_inactive_sessions now days_inactive keep_active T =
     (let idle = (\<lambda>s. se_last_accessed s \<le> now - timedelta_days days_inactive \<and> (keep_active \<longrightarrow> se_expires_at s \<le> now))
      in (rowcount idle T, filter (\<lambda>s. \<not> idle s) T))"

section \<open>The services over it\<close>

definition record_event :: "string \<Rightarrow> string option \<Rightarrow> auth_db \<Rightarrow> auth_db" where
  "record_event name email db = db\<lparr>au_log := au_log db @ [AuthEvent name email]\<rparr>"

definition record_audit :: "string \<Rightarrow> uuid \<Rightarrow> auth_db \<Rightarrow> auth_db" where
  "record_audit name user_id db = db\<lparr>au_log := au_log db @ [AuthAudit name user_id]\<rparr>"

definition current_session_id :: "auth_env \<Rightarrow> auth_request \<Rightarrow> auth_session list \<Rightarrow> uuid option" where
  "current_session_id env rq T =
     (case session_token_from_request rq of
        None \<Rightarrow> None
      | Some token \<Rightarrow>
          if token = [] then None
          else
            (case hash_token env token of
               Inl _ \<Rightarrow> None
             | Inr h \<Rightarrow> map_option se_id (find (\<lambda>s. se_token_hash s = h \<and> \<not> se_deleted s) T)))"

definition list_sessions :: "auth_env \<Rightarrow> timestamp \<Rightarrow> auth_request \<Rightarrow> uuid \<Rightarrow> auth_session list \<Rightarrow> (auth_session \<times> bool) list" where
  "list_sessions env now rq user_id T =
     map (\<lambda>s. (s, Some (se_id s) = current_session_id env rq T)) (get_user_sessions now user_id T)"

definition refresh_session ::
    "auth_env \<Rightarrow> timestamp \<Rightarrow> auth_request \<Rightarrow> auth_user \<Rightarrow> auth_db \<Rightarrow> (app_error + timestamp) \<times> auth_db" where
  "refresh_session env now rq user db =
     (case session_token_from_request rq of
        None \<Rightarrow> (Inl (AuthenticationError ''No active session''), db)
      | Some token \<Rightarrow>
          if token = [] then (Inl (AuthenticationError ''No active session''), db)
          else
            (case manager_refresh env now token None db of
               (None, _) \<Rightarrow> (Inl (AuthenticationError ''No active session''), db)
             | (Some (expires, sid), db') \<Rightarrow>
                 (Inr expires, record_event ''auth_session_refreshed'' (Some (au_email user)) db')))"

definition revoke_session_by_id :: "auth_user \<Rightarrow> uuid \<Rightarrow> auth_db \<Rightarrow> (app_error + unit) \<times> auth_db" where
  "revoke_session_by_id user session_id db =
     (case find (\<lambda>s. se_id s = session_id \<and> se_user s = au_id user \<and> \<not> se_deleted s) (au_sessions db) of
        None \<Rightarrow> (Inl (NotFoundError ''Session not found''), db)
      | Some s \<Rightarrow>
          (Inr (), record_event ''auth_session_revoked'' (Some (au_email user))
             (db\<lparr>au_sessions := write_row se_id (revoke s) (au_sessions db)\<rparr>)))"

definition revoke_sessions :: "auth_env \<Rightarrow> auth_request \<Rightarrow> auth_user \<Rightarrow> bool \<Rightarrow> auth_db \<Rightarrow> nat \<times> auth_db" where
  "revoke_sessions env rq user keep_current db =
     (case revoke_user_sessions env (au_id user)
         (if keep_current then session_token_from_request rq else None) (au_sessions db) of
        (n, T) \<Rightarrow> (n, record_event ''auth_session_revoked'' (Some (au_email user)) (db\<lparr>au_sessions := T\<rparr>)))"

definition logout :: "auth_env \<Rightarrow> auth_request \<Rightarrow> auth_user option \<Rightarrow> auth_db \<Rightarrow> auth_db" where
  "logout env rq user db =
     (let (revoked, T) =
            (case session_token_from_request rq of
               None \<Rightarrow> (False, au_sessions db)
             | Some token \<Rightarrow> if token = [] then (False, au_sessions db) else revoke_session env token (au_sessions db));
          db' = db\<lparr>au_sessions := T\<rparr>
      in if user \<noteq> None \<or> revoked
         then record_event ''auth_logout_succeeded'' (map_option au_email user) db' else db')"

end
