(* ===== verification/Auth_Login.thy ===== *)
theory Auth_Login
  imports Auth_Sessions
begin

text \<open>
  Signing in (\<^verbatim>\<open>services/auth/utils.py\<close>, \<^verbatim>\<open>services/auth/password\<close>, \<^verbatim>\<open>services/auth/totp\<close>), with the methods of
  \<^verbatim>\<open>models/user.py\<close> and the user management of the super admins (\<^verbatim>\<open>services/users\<close>).

  What an operation draws (tokens, identifiers, salts, nonces, codes) is collected in one record. Columns
  that encrypt or hash store the ciphertext or the hash.
\<close>

record auth_draws =
  dw_token :: string
  dw_session_id :: uuid
  dw_user_id :: uuid
  dw_workspace_id :: uuid
  dw_salt :: nat
  dw_nonce :: nat
  dw_secret :: string
  dw_codes :: "string list"

section \<open>A user's factors (models/user.py)\<close>

definition is_locked :: "timestamp \<Rightarrow> auth_user \<Rightarrow> bool" where
  "is_locked now u = null_gt (au_locked_until u) now"

definition has_password :: "auth_user \<Rightarrow> bool" where
  "has_password u \<longleftrightarrow> or_string (au_password_hash u) [] \<noteq> []"

definition set_password :: "auth_env \<Rightarrow> nat \<Rightarrow> string \<Rightarrow> auth_user \<Rightarrow> auth_user" where
  "set_password env salt password u = u\<lparr>au_password_hash := Some (pw_hash env salt password)\<rparr>"

definition verify_password :: "auth_env \<Rightarrow> auth_user \<Rightarrow> string \<Rightarrow> bool" where
  "verify_password env u password = verify_password_hash env password (or_string (au_password_hash u) [])"

definition decrypt_data :: "auth_env \<Rightarrow> string \<Rightarrow> app_error + string" where
  "decrypt_data env text =
     (case decrypt env text of
        None \<Rightarrow> Inl (CustomValueError ''Failed to decrypt data with any available key'') | Some s \<Rightarrow> Inr s)"

definition get_totp_secret :: "auth_env \<Rightarrow> auth_user \<Rightarrow> app_error + string option" where
  "get_totp_secret env u =
     (if or_string (au_totp_secret u) [] = [] then Inr None
      else bind_result (decrypt_data env (or_string (au_totp_secret u) [])) (\<lambda>s. Inr (Some s)))"

definition generate_totp_secret :: "auth_env \<Rightarrow> nat \<Rightarrow> string \<Rightarrow> auth_user \<Rightarrow> auth_user" where
  "generate_totp_secret env nonce secret u = u\<lparr>au_totp_secret := Some (encrypt env nonce secret), au_last_counter := None\<rparr>"

definition enable_totp :: "auth_user \<Rightarrow> auth_user" where
  "enable_totp u = u\<lparr>au_totp_enabled := True\<rparr>"

definition disable_totp :: "auth_user \<Rightarrow> auth_user" where
  "disable_totp u = u\<lparr>au_totp_enabled := False, au_totp_secret := None, au_last_counter := None, au_backup_codes := None\<rparr>"

text \<open>An exception while a code is generated ends the search with None.\<close>

fun match_counters :: "auth_env \<Rightarrow> string \<Rightarrow> string \<Rightarrow> int list \<Rightarrow> int option" where
  "match_counters env secret token [] = None"
| "match_counters env secret token (c # cs) =
     (if c < 0 then match_counters env secret token cs
      else case otp env secret c of
             None \<Rightarrow> None
           | Some code \<Rightarrow> if strings_equal env token code then Some c else match_counters env secret token cs)"

definition matching_totp_counter :: "auth_env \<Rightarrow> timestamp \<Rightarrow> auth_user \<Rightarrow> string \<Rightarrow> int option" where
  "matching_totp_counter env now u token =
     (case get_totp_secret env u of
        Inr (Some secret) \<Rightarrow>
          match_counters env secret token [timecode env now - 1, timecode env now, timecode env now + 1]
      | _ \<Rightarrow> None)"

definition verify_totp_code :: "auth_env \<Rightarrow> timestamp \<Rightarrow> auth_user \<Rightarrow> string \<Rightarrow> bool" where
  "verify_totp_code env now u token \<longleftrightarrow> matching_totp_counter env now u token \<noteq> None"

fun matching_hash_index :: "auth_env \<Rightarrow> string \<Rightarrow> string list \<Rightarrow> nat option" where
  "matching_hash_index env code [] = None"
| "matching_hash_index env code (h # hs) =
     (if verify_password_hash env code h then Some 0 else map_option Suc (matching_hash_index env code hs))"

definition load_backup_code_hashes :: "auth_env \<Rightarrow> string \<Rightarrow> string list option" where
  "load_backup_code_hashes env text = Option.bind (decrypt env text) (codes_in env)"

definition store_backup_code_hashes :: "auth_env \<Rightarrow> nat \<Rightarrow> string list \<Rightarrow> auth_user \<Rightarrow> auth_user" where
  "store_backup_code_hashes env nonce hashes u = u\<lparr>au_backup_codes := Some (encrypt env nonce (codes_out env hashes))\<rparr>"

definition remove_at :: "nat \<Rightarrow> 'a list \<Rightarrow> 'a list" where
  "remove_at i xs = take i xs @ drop (Suc i) xs"

definition consume_backup_code_hash :: "auth_env \<Rightarrow> nat \<Rightarrow> string list \<Rightarrow> nat \<Rightarrow> auth_user \<Rightarrow> auth_user" where
  "consume_backup_code_hash env nonce hashes i u =
     (let rest = remove_at i hashes
      in if rest \<noteq> [] then u\<lparr>au_backup_codes := Some (encrypt env nonce (codes_out env rest))\<rparr>
         else u\<lparr>au_backup_codes := None\<rparr>)"

definition verify_backup_code :: "auth_env \<Rightarrow> nat \<Rightarrow> auth_user \<Rightarrow> string \<Rightarrow> app_error + bool \<times> auth_user" where
  "verify_backup_code env nonce u code =
     (if or_string (au_backup_codes u) [] = [] then Inr (False, u)
      else
        (case load_backup_code_hashes env (or_string (au_backup_codes u) []) of
           None \<Rightarrow> Inl (CustomValueError ''Failed to verify backup code'')
         | Some hashes \<Rightarrow>
             (case matching_hash_index env code hashes of
                None \<Rightarrow> Inr (False, u)
              | Some i \<Rightarrow> Inr (True, consume_backup_code_hash env nonce hashes i u))))"

definition clear_failures :: "auth_user \<Rightarrow> auth_user" where
  "clear_failures u = u\<lparr>au_failed := 0, au_locked_until := None, au_lockout_reason := None\<rparr>"

section \<open>Shared steps (services/auth/utils.py)\<close>

definition put_user :: "auth_user \<Rightarrow> auth_db \<Rightarrow> auth_db" where
  "put_user u db = db\<lparr>au_users := write_row au_id u (au_users db)\<rparr>"

definition get_user_by_email :: "string \<Rightarrow> bool \<Rightarrow> auth_db \<Rightarrow> auth_user option" where
  "get_user_by_email email include_deleted db =
     find (\<lambda>u. citext_eq (au_email u) email \<and> (include_deleted \<or> \<not> au_deleted u)) (au_users db)"

text \<open>
  The failed-login budget and its events are committed on their own, so they stay when the request is refused.
\<close>

definition count_login_failure :: "auth_env \<Rightarrow> timestamp \<Rightarrow> auth_request \<Rightarrow> string option \<Rightarrow> string option \<Rightarrow> auth_db \<Rightarrow> rate_result \<times> auth_db" where
  "count_login_failure env now rq email scope db =
     (case record_login_failure (ve_rate env) now (request_ip env rq) email scope (au_attempts db) of
        (r, T) \<Rightarrow> (r, db\<lparr>au_attempts := T\<rparr>))"

definition raise_audited_login_rate_limit :: "rate_result \<Rightarrow> string option \<Rightarrow> auth_db \<Rightarrow> (app_error + unit) \<times> auth_db" where
  "raise_audited_login_rate_limit r email db =
     (if rr_allowed r then (Inr (), db)
      else (Inl (RateLimitError ''Rate limit exceeded''), record_event ''rate_limit_exceeded'' email db))"

definition enforce_login_failure_limit ::
    "auth_env \<Rightarrow> timestamp \<Rightarrow> auth_request \<Rightarrow> string option \<Rightarrow> string option \<Rightarrow> auth_db \<Rightarrow> (app_error + unit) \<times> auth_db" where
  "enforce_login_failure_limit env now rq email scope db =
     raise_audited_login_rate_limit
       (get_login_failure_status (ve_rate env) now (request_ip env rq) email scope (au_attempts db)) email db"

definition record_and_enforce_login_failure ::
    "auth_env \<Rightarrow> timestamp \<Rightarrow> auth_request \<Rightarrow> string option \<Rightarrow> string option \<Rightarrow> auth_db \<Rightarrow> (app_error + unit) \<times> auth_db" where
  "record_and_enforce_login_failure env now rq email scope db =
     (case count_login_failure env now rq email scope db of (r, db') \<Rightarrow> raise_audited_login_rate_limit r email db')"

definition record_failed_login_attempt ::
    "auth_env \<Rightarrow> timestamp \<Rightarrow> uuid \<Rightarrow> string \<Rightarrow> string option \<Rightarrow> bool \<Rightarrow> auth_db \<Rightarrow> auth_db" where
  "record_failed_login_attempt env now user_id reason email revoke_partial db =
     (case row_by_id au_id user_id (au_users db) of
        None \<Rightarrow> db
      | Some u \<Rightarrow>
          (let u1 = u\<lparr>au_failed := au_failed u + 1\<rparr>
           in if au_failed u1 \<ge> SECURITY_SUSPICIOUS_ACTIVITY_THRESHOLD (ve_settings env)
              then
                (let u2 = u1\<lparr>au_locked_until := Some (now + timedelta_minutes (SECURITY_LOCKOUT_DURATION_MINUTES (ve_settings env))),
                        au_lockout_reason := Some reason\<rparr>;
                     db1 = put_user u2 db;
                     db2 = (if revoke_partial
                            then db1\<lparr>au_sessions := snd (revoke_user_partial_sessions user_id (au_sessions db1))\<rparr> else db1)
                 in record_event ''auth_account_locked'' email db2)
              else put_user u1 db))"

record auth_reply =
  ay_session :: session_result
  ay_user :: "uuid option"
  ay_requires_twofa :: bool

definition issue_auth_response ::
    "auth_env \<Rightarrow> timestamp \<Rightarrow> auth_draws \<Rightarrow> auth_request \<Rightarrow> auth_user \<Rightarrow> string \<Rightarrow> bool \<Rightarrow> auth_db \<Rightarrow>
     app_error + auth_reply \<times> auth_db" where
  "issue_auth_response env now dw rq user event require_twofa db =
     bind_result
       (if require_twofa
        then create_partial_session env now (dw_token dw) (dw_session_id dw) (au_id user) (Some (request_ip env rq))
               (rq_user_agent rq) None (au_sessions db)
        else create_session env now (dw_token dw) (dw_session_id dw) (au_id user) (Some (request_ip env rq))
               (rq_user_agent rq) None True (au_sessions db))
       (\<lambda>(r, T).
         (let db1 = record_event event (Some (au_email user)) (db\<lparr>au_sessions := T\<rparr>);
              db2 = (if require_twofa then db1 else db1\<lparr>au_log := au_log db1 @ [PendingInvitationsAccepted (au_id user)]\<rparr>)
          in Inr (\<lparr>ay_session = r, ay_user = (if require_twofa then None else Some (au_id user)),
                   ay_requires_twofa = require_twofa\<rparr>, db2)))"

text \<open>The end of a request: its writes are kept when it returns and gone when it raises.\<close>

definition commit :: "auth_db \<Rightarrow> app_error + 'a \<times> auth_db \<Rightarrow> (app_error + 'a) \<times> auth_db" where
  "commit db0 r = (case r of Inl e \<Rightarrow> (Inl e, db0) | Inr (x, db) \<Rightarrow> (Inr x, db))"

definition provisioned :: "auth_draws \<Rightarrow> auth_user \<Rightarrow> auth_db \<Rightarrow> auth_db" where
  "provisioned dw u db =
     (let db' = put_user (u\<lparr>au_default_workspace := Some (dw_workspace_id dw)\<rparr>) db
      in db'\<lparr>au_log := au_log db' @ [WorkspaceProvisioned (au_id u)]\<rparr>)"

section \<open>Password sign-in (login\_with\_password.py)\<close>

definition normalize_email :: "string \<Rightarrow> string" where
  "normalize_email email = py_lower (py_strip email)"

definition login_failed :: "string \<Rightarrow> string option \<Rightarrow> auth_db \<Rightarrow> (app_error + 'a) \<times> auth_db" where
  "login_failed message email db = (Inl (AuthenticationError message), record_event ''auth_login_failed'' email db)"

definition login_with_password ::
    "auth_env \<Rightarrow> timestamp \<Rightarrow> auth_draws \<Rightarrow> auth_request \<Rightarrow> string \<Rightarrow> string \<Rightarrow> auth_db \<Rightarrow> (app_error + auth_reply) \<times> auth_db" where
  "login_with_password env now dw rq address password db =
     (let email = normalize_email address; count = (\<lambda>d. snd (count_login_failure env now rq (Some email) None d))
      in case enforce_login_failure_limit env now rq (Some email) None db of
           (Inl e, db1) \<Rightarrow> (Inl e, db1)
         | (Inr _, db1) \<Rightarrow>
             if \<not> EMAIL_AUTH_ENABLED (ve_settings env)
             then (Inl (AuthorizationError ''Email authentication is disabled''),
                   record_event ''auth_login_failed'' (Some address) (count db1))
             else
               (case get_user_by_email email False db1 of
                  None \<Rightarrow> login_failed ''Invalid email or password'' (Some email) (count db1)
                | Some user \<Rightarrow>
                    if is_locked now user then login_failed ''Account is temporarily locked'' (Some email) (count db1)
                    else if \<not> au_is_active user \<or> au_deleted user \<or> \<not> has_password user \<or> \<not> verify_password env user password
                    then login_failed ''Invalid email or password'' (Some email)
                      (record_failed_login_attempt env now (au_id user) ''invalid_credentials'' (Some email) False (count db1))
                    else
                      (let user1 = (if au_totp_enabled user then user else clear_failures user);
                           db2 = put_user user1 db1;
                           db3 = (if au_default_workspace user1 = None then provisioned dw user1 db2 else db2)
                       in commit db1 (issue_auth_response env now dw rq user1
                            (if au_totp_enabled user then ''auth_totp_challenge_created'' else ''auth_login_succeeded'')
                            (au_totp_enabled user) db3))))"

section \<open>The second factor (totp/utils.py, verify\_totp.py)\<close>

text \<open>The UPDATE compares the stored counter with the matching one, so a code that was used does not match again.\<close>

definition counter_unused :: "int \<Rightarrow> auth_user \<Rightarrow> bool" where
  "counter_unused c u \<longleftrightarrow> (case au_last_counter u of None \<Rightarrow> True | Some l \<Rightarrow> l < c)"

definition verify_and_consume_login_second_factor ::
    "auth_env \<Rightarrow> timestamp \<Rightarrow> nat \<Rightarrow> auth_user \<Rightarrow> string option \<Rightarrow> string option \<Rightarrow> auth_user list \<Rightarrow>
     app_error + bool \<times> auth_user list" where
  "verify_and_consume_login_second_factor env now nonce user token backup_code T =
     (case (if or_string token [] = [] then None else matching_totp_counter env now user (or_string token [])) of
        Some counter \<Rightarrow>
          (let hit = (\<lambda>u. au_id u = au_id user \<and> counter_unused counter u)
           in Inr (rowcount hit T \<noteq> 0, update_where hit (\<lambda>u. clear_failures (u\<lparr>au_last_counter := Some counter\<rparr>)) T))
      | None \<Rightarrow>
          if or_string backup_code [] = [] then Inr (False, T)
          else
            bind_result (verify_backup_code env nonce user (or_string backup_code [])) (\<lambda>(ok, user1).
              Inr (ok, if ok then write_row au_id (clear_failures user1) T else T)))"

text \<open>\<open>later\<close> is the time at which the partial session is looked up again, after the factor was verified.\<close>

definition verify_totp ::
    "auth_env \<Rightarrow> timestamp \<Rightarrow> timestamp \<Rightarrow> auth_draws \<Rightarrow> auth_request \<Rightarrow> string option \<Rightarrow> string option \<Rightarrow> auth_db \<Rightarrow>
     (app_error + auth_reply) \<times> auth_db" where
  "verify_totp env now later dw rq token backup_code db =
     (let anonymous = (\<lambda>message event.
            (case record_and_enforce_login_failure env now rq None (Some ''totp'') db of
               (Inl e, db1) \<Rightarrow> (Inl e, db1)
             | (Inr _, db1) \<Rightarrow> (Inl (AuthenticationError message), if event then record_event ''auth_totp_failed'' None db1 else db1)))
      in case session_token_from_request rq of
           None \<Rightarrow> anonymous ''No partial session'' False
         | Some session_token \<Rightarrow>
             if session_token = [] then anonymous ''No partial session'' False
             else
               (case find_partial env now session_token (au_sessions db) of
                  None \<Rightarrow> anonymous ''Invalid or expired partial session'' True
                | Some partial \<Rightarrow>
                    (case row_by_id au_id (se_user partial) (au_users db) of
                       None \<Rightarrow> anonymous ''Invalid or expired partial session'' True
                     | Some user \<Rightarrow>
                         if au_deleted user \<or> \<not> au_is_active user then anonymous ''Invalid or expired partial session'' True
                         else
                           (case enforce_login_failure_limit env now rq (Some (au_email user)) None db of
                              (Inl e, db1) \<Rightarrow> (Inl e, db1)
                            | (Inr _, db1) \<Rightarrow>
                                (case verify_and_consume_login_second_factor env now (dw_nonce dw) user token backup_code (au_users db1) of
                                   Inl e \<Rightarrow> (Inl e, db1)
                                 | Inr (False, _) \<Rightarrow>
                                     (Inl (AuthenticationError ''Invalid TOTP code''),
                                      record_event ''auth_totp_failed'' (Some (au_email user))
                                        (record_failed_login_attempt env now (au_id user) ''invalid_totp'' (Some (au_email user)) True
                                          (snd (count_login_failure env now rq (Some (au_email user)) None db1))))
                                 | Inr (True, users) \<Rightarrow>
                                     commit db1
                                       (bind_result (upgrade_partial_session env later (dw_token dw) (dw_session_id dw) session_token
                                           (au_sessions db1)) (\<lambda>(r, T).
                                         (case r of
                                            None \<Rightarrow> Inl (AuthenticationError ''Invalid or expired partial session'')
                                          | Some session \<Rightarrow>
                                              (let db2 = record_event ''auth_totp_verified'' (Some (au_email user))
                                                     (db1\<lparr>au_users := users, au_sessions := T\<rparr>)
                                               in Inr (\<lparr>ay_session = session, ay_user = Some (au_id user), ay_requires_twofa = False\<rparr>,
                                                    db2\<lparr>au_log := au_log db2 @ [PendingInvitationsAccepted (au_id user)]\<rparr>))))))))))"

end
