(* ===== verification/Auth_Accounts.thy ===== *)
theory Auth_Accounts
  imports Auth_Login
begin

text \<open>
  Accounts: registration and password changes (\<^verbatim>\<open>services/auth/password\<close>), enrolling and removing the second
  factor (\<^verbatim>\<open>services/auth/totp\<close>), and the super admins' management of users (\<^verbatim>\<open>services/users\<close>).
\<close>

section \<open>Validation (utils/validation.py)\<close>

text \<open>\<^verbatim>\<open>str.isalpha\<close> and \<^verbatim>\<open>str.isdigit\<close> of one character below 256.\<close>

definition alpha_char :: "char \<Rightarrow> bool" where
  "alpha_char c =
     (let n = (of_char c :: nat)
      in (65 \<le> n \<and> n \<le> 90) \<or> (97 \<le> n \<and> n \<le> 122) \<or> n \<in> {170, 181, 186} \<or> (192 \<le> n \<and> n \<noteq> 215 \<and> n \<noteq> 247))"

definition validate_password_strength :: "string \<Rightarrow> app_error + unit" where
  "validate_password_strength password =
     (if length password < 8 then Inl (AppValidationError ''Password must be at least 8 characters'')
      else if py_strip password \<noteq> password
      then Inl (AppValidationError ''Password cannot start or end with whitespace'')
      else if \<not> list_ex alpha_char password \<or> \<not> list_ex (\<lambda>c. py_isdigit [c]) password
      then Inl (AppValidationError ''Password must contain at least one letter and one number'')
      else Inr ())"

definition is_super_admin_email :: "auth_env \<Rightarrow> string \<Rightarrow> bool" where
  "is_super_admin_email env email \<longleftrightarrow> py_lower email \<in> set (super_admin_emails_list (ve_settings env))"

definition new_user :: "uuid \<Rightarrow> string \<Rightarrow> bool \<Rightarrow> auth_user" where
  "new_user i email active =
     \<lparr>au_id = i, au_email = email, au_is_active = active, au_deleted = False, au_default_workspace = None,
      au_password_hash = None, au_totp_secret = None, au_totp_enabled = False, au_last_counter = None,
      au_backup_codes = None, au_failed = 0, au_locked_until = None, au_lockout_reason = None\<rparr>"

text \<open>The insert: ids and addresses (CITEXT) are unique, also among deleted users.\<close>

definition insert_user :: "auth_user \<Rightarrow> auth_db \<Rightarrow> app_error + auth_db" where
  "insert_user u db =
     (if au_id u \<in> au_id ` set (au_users db) \<or> list_ex (\<lambda>x. citext_eq (au_email x) (au_email u)) (au_users db)
      then Inl (IntegrityError ''users'') else Inr (db\<lparr>au_users := au_users db @ [u]\<rparr>))"

section \<open>Registration (register\_with\_password.py)\<close>

text \<open>
  \<open>invitation\<close> is the live invitation for the token and the address, when the query finds one.
\<close>

definition register_with_password ::
    "auth_env \<Rightarrow> timestamp \<Rightarrow> auth_draws \<Rightarrow> auth_request \<Rightarrow> string \<Rightarrow> string \<Rightarrow> uuid option \<Rightarrow> auth_db \<Rightarrow>
     (app_error + auth_reply) \<times> auth_db" where
  "register_with_password env now dw rq address password invitation db =
     (let email = normalize_email address; cfg = ve_settings env;
          refused = (\<lambda>e shown. (Inl e, record_event ''auth_register_failed'' (Some shown) db));
          invited = (if ALLOW_SIGNUP cfg then None else invitation)
      in if \<not> EMAIL_AUTH_ENABLED cfg then refused (AuthorizationError ''Email authentication is disabled'') address
         else
           (case bind_result (validate_email email) (\<lambda>_. validate_password_strength password) of
              Inl e \<Rightarrow> (Inl e, db)
            | Inr _ \<Rightarrow>
                if is_super_admin_email env email then refused (AuthorizationError ''Signup is disabled'') email
                else if \<not> ALLOW_SIGNUP cfg \<and> invited = None then refused (AuthorizationError ''Signup is disabled'') address
                else if get_user_by_email email True db \<noteq> None
                then refused (ConflictError ''A user with that email already exists'') email
                else
                  (let user = set_password env (dw_salt dw) password (new_user (dw_user_id dw) email True)
                   in case insert_user user db of
                        Inl _ \<Rightarrow> refused (ConflictError ''A user with that email already exists'') email
                      | Inr db1 \<Rightarrow>
                          (let db2 = record_audit ''create'' (au_id user) (provisioned dw user db1);
                               db3 = (case invited of None \<Rightarrow> db2
                                      | Some v \<Rightarrow> db2\<lparr>au_log := au_log db2 @ [InvitationAccepted v (au_id user)]\<rparr>)
                           in commit db (issue_auth_response env now dw rq user ''auth_register_succeeded'' False db3)))))"

section \<open>Changing the password (change\_password.py)\<close>

definition change_password ::
    "auth_env \<Rightarrow> auth_draws \<Rightarrow> auth_request \<Rightarrow> auth_user \<Rightarrow> string \<Rightarrow> string \<Rightarrow> auth_db \<Rightarrow> (app_error + nat) \<times> auth_db" where
  "change_password env dw rq user current_password new_password db =
     (case validate_password_strength new_password of
        Inl e \<Rightarrow> (Inl e, db)
      | Inr _ \<Rightarrow>
          if \<not> has_password user \<or> \<not> verify_password env user current_password
          then (Inl (AuthenticationError ''Current password is incorrect''),
                record_event ''auth_login_failed'' (Some (au_email user)) db)
          else
            (let db1 = put_user (set_password env (dw_salt dw) new_password user) db
             in case revoke_user_sessions env (au_id user) (session_token_from_request rq) (au_sessions db1) of
                  (n, T) \<Rightarrow> (Inr n, record_audit ''update'' (au_id user)
                    (record_event ''auth_password_changed'' (Some (au_email user)) (db1\<lparr>au_sessions := T\<rparr>)))))"

section \<open>Enrolling the second factor (setup\_totp.py, enable\_totp.py, disable\_totp.py)\<close>

definition TOTP_ENROLLMENT_TTL :: timestamp where
  "TOTP_ENROLLMENT_TTL = timedelta_minutes 10"

definition require_totp_enrollment_step_up ::
    "auth_env \<Rightarrow> timestamp \<Rightarrow> auth_request \<Rightarrow> auth_user \<Rightarrow> string option \<Rightarrow> auth_db \<Rightarrow> app_error + unit" where
  "require_totp_enrollment_step_up env now rq user current_password db =
     (case current_password of
        Some password \<Rightarrow>
          if has_password user \<and> verify_password env user password then Inr ()
          else Inl (AuthenticationError ''Current password is incorrect'')
      | None \<Rightarrow>
          (case session_token_from_request rq of
             None \<Rightarrow> Inl (AuthenticationError ''Recent authentication is required'')
           | Some token \<Rightarrow>
               (case hash_token env token of
                  Inl _ \<Rightarrow> Inl (AuthenticationError ''Recent authentication is required'')
                | Inr h \<Rightarrow>
                    if list_ex (\<lambda>s. se_token_hash s = h \<and> se_user s = au_id user \<and>
                         se_created_at s \<ge> now - TOTP_ENROLLMENT_TTL \<and> se_expires_at s > now \<and> se_twofa s \<and> \<not> se_deleted s)
                         (au_sessions db)
                    then Inr ()
                    else Inl (AuthenticationError ''Recent authentication is required; sign in again before setting up two-factor authentication''))))"

text \<open>\<^verbatim>\<open>int(now.timestamp())\<close> of a time after the epoch.\<close>

definition epoch_seconds :: "timestamp \<Rightarrow> int" where
  "epoch_seconds t = t div 1000000"

definition create_totp_enrollment_token :: "auth_env \<Rightarrow> timestamp \<Rightarrow> string \<Rightarrow> auth_user \<Rightarrow> string \<Rightarrow> string" where
  "create_totp_enrollment_token env now jti user secret =
     jwt_encode env
       [(''type'', JStr ''totp_enrollment''), (''user_id'', JStr (uuid_text env (au_id user))),
        (''secret_hash'', JStr (ve_sha256 env secret)), (''jti'', JStr jti),
        (''iat'', JInt (epoch_seconds now)), (''exp'', JInt (epoch_seconds (now + TOTP_ENROLLMENT_TTL)))]"

definition verify_totp_enrollment_token :: "auth_env \<Rightarrow> timestamp \<Rightarrow> string \<Rightarrow> auth_user \<Rightarrow> string \<Rightarrow> app_error + unit" where
  "verify_totp_enrollment_token env now token user secret =
     (case jwt_decode env now token of
        Inl _ \<Rightarrow> Inl (AuthenticationError ''TOTP enrollment authorization is invalid or expired'')
      | Inr payload \<Rightarrow>
          if dict_get payload ''type'' \<noteq> Some (JStr ''totp_enrollment'') \<or>
             dict_get payload ''user_id'' \<noteq> Some (JStr (uuid_text env (au_id user))) \<or>
             dict_get payload ''secret_hash'' \<noteq> Some (JStr (ve_sha256 env secret))
          then Inl (AuthenticationError ''TOTP enrollment authorization is invalid or expired'')
          else Inr ())"

definition setup_totp ::
    "auth_env \<Rightarrow> timestamp \<Rightarrow> auth_draws \<Rightarrow> auth_request \<Rightarrow> auth_user \<Rightarrow> string option \<Rightarrow> auth_db \<Rightarrow>
     (app_error + string \<times> string) \<times> auth_db" where
  "setup_totp env now dw rq user current_password db =
     (if au_totp_enabled user then (Inl (ConflictError ''TOTP is already enabled''), db)
      else
        (case require_totp_enrollment_step_up env now rq user current_password db of
           Inl e \<Rightarrow> (Inl e, record_event ''auth_totp_failed'' (Some (au_email user)) db)
         | Inr _ \<Rightarrow>
             (let user1 = generate_totp_secret env (dw_nonce dw) (dw_secret dw) user
              in (Inr (dw_secret dw, create_totp_enrollment_token env now (dw_token dw) user1 (dw_secret dw)),
                  record_event ''auth_totp_challenge_created'' (Some (au_email user)) (put_user user1 db)))))"

text \<open>The codes are hashed with consecutive salts.\<close>

definition generate_backup_codes :: "auth_env \<Rightarrow> auth_draws \<Rightarrow> auth_user \<Rightarrow> auth_user" where
  "generate_backup_codes env dw u =
     store_backup_code_hashes env (dw_nonce dw)
       (map (\<lambda>(i, code). pw_hash env (dw_salt dw + i) code) (enumerate 0 (dw_codes dw))) u"

definition enable_totp_service ::
    "auth_env \<Rightarrow> timestamp \<Rightarrow> auth_draws \<Rightarrow> auth_user \<Rightarrow> string \<Rightarrow> string \<Rightarrow> auth_db \<Rightarrow> (app_error + string list) \<times> auth_db" where
  "enable_totp_service env now dw user enrollment_token token db =
     (if au_totp_enabled user then (Inl (ConflictError ''TOTP is already enabled''), db)
      else
        (case get_totp_secret env user of
           Inl e \<Rightarrow> (Inl e, db)
         | Inr None \<Rightarrow> (Inl (AuthenticationError ''TOTP setup must be started before it can be enabled''), db)
         | Inr (Some secret) \<Rightarrow>
             (case verify_totp_enrollment_token env now enrollment_token user secret of
                Inl e \<Rightarrow> (Inl e, record_event ''auth_totp_failed'' (Some (au_email user)) db)
              | Inr _ \<Rightarrow>
                  if \<not> verify_totp_code env now user token
                  then (Inl (AuthenticationError ''Invalid TOTP code''), record_event ''auth_totp_failed'' (Some (au_email user)) db)
                  else
                    (let user1 = generate_backup_codes env dw (enable_totp user)
                     in (Inr (dw_codes dw),
                         record_audit ''enable'' (au_id user)
                           (record_event ''auth_totp_enabled'' (Some (au_email user)) (put_user user1 db)))))))"

definition verify_totp_or_backup ::
    "auth_env \<Rightarrow> timestamp \<Rightarrow> nat \<Rightarrow> auth_user \<Rightarrow> string option \<Rightarrow> string option \<Rightarrow> app_error + bool \<times> auth_user" where
  "verify_totp_or_backup env now nonce user token backup_code =
     (if or_string token [] \<noteq> [] \<and> verify_totp_code env now user (or_string token []) then Inr (True, user)
      else if or_string backup_code [] = [] then Inr (False, user)
      else verify_backup_code env nonce user (or_string backup_code []))"

definition disable_totp_service ::
    "auth_env \<Rightarrow> timestamp \<Rightarrow> auth_draws \<Rightarrow> auth_user \<Rightarrow> string option \<Rightarrow> string option \<Rightarrow> auth_db \<Rightarrow> (app_error + unit) \<times> auth_db" where
  "disable_totp_service env now dw user token backup_code db =
     (if \<not> au_totp_enabled user then (Inr (), db)
      else
        (case verify_totp_or_backup env now (dw_nonce dw) user token backup_code of
           Inl e \<Rightarrow> (Inl e, db)
         | Inr (False, _) \<Rightarrow>
             (Inl (AuthenticationError ''Invalid TOTP code''), record_event ''auth_totp_failed'' (Some (au_email user)) db)
         | Inr (True, user1) \<Rightarrow>
             (Inr (), record_audit ''disable'' (au_id user)
               (record_event ''auth_totp_disabled'' (Some (au_email user)) (put_user (disable_totp user1) db)))))"

section \<open>User management (services/users)\<close>

definition get_account_or_raise :: "uuid \<Rightarrow> bool \<Rightarrow> auth_db \<Rightarrow> app_error + auth_user" where
  "get_account_or_raise user_id include_deleted db =
     (case find (\<lambda>u. au_id u = user_id \<and> (include_deleted \<or> \<not> au_deleted u)) (au_users db) of
        None \<Rightarrow> Inl (NotFoundError ''User not found'') | Some u \<Rightarrow> Inr u)"

definition create_user ::
    "auth_env \<Rightarrow> auth_draws \<Rightarrow> string \<Rightarrow> string option \<Rightarrow> bool \<Rightarrow> auth_db \<Rightarrow> (app_error + uuid) \<times> auth_db" where
  "create_user env dw address password active db =
     commit db
       (let email = normalize_email address; given = or_string password [] \<noteq> []
        in bind_result (validate_email email) (\<lambda>_.
           bind_result (if given then validate_password_strength (or_string password []) else Inr ()) (\<lambda>_.
             (let user0 = new_user (dw_user_id dw) email active;
                  user = (if given then set_password env (dw_salt dw) (or_string password []) user0 else user0)
              in case insert_user user db of
                   Inl _ \<Rightarrow> Inl (ConflictError ''A user with that email already exists'')
                 | Inr db1 \<Rightarrow> Inr (au_id user, record_audit ''create'' (au_id user) (provisioned dw user db1))))))"

definition set_user_password :: "auth_env \<Rightarrow> auth_draws \<Rightarrow> uuid \<Rightarrow> string \<Rightarrow> auth_db \<Rightarrow> (app_error + nat) \<times> auth_db" where
  "set_user_password env dw user_id password db =
     commit db
       (bind_result (validate_password_strength password) (\<lambda>_.
        bind_result (get_account_or_raise user_id False db) (\<lambda>user.
          (let db1 = put_user (set_password env (dw_salt dw) password user) db
           in case revoke_user_sessions env (au_id user) None (au_sessions db1) of
                (n, T) \<Rightarrow> Inr (n, record_audit ''update'' (au_id user) (db1\<lparr>au_sessions := T\<rparr>))))))"

text \<open>
  Of \<^verbatim>\<open>update_user\<close> and \<^verbatim>\<open>delete_user\<close>: what they do to the account, its sessions and its identities.
  The schedules they disable and the memberships they delete are in \<open>Schedules\<close> and \<open>Workspace_Provisioning\<close>.
\<close>

definition update_user_active :: "auth_env \<Rightarrow> uuid \<Rightarrow> bool option \<Rightarrow> auth_db \<Rightarrow> (app_error + unit) \<times> auth_db" where
  "update_user_active env user_id active db =
     commit db
       (bind_result (get_account_or_raise user_id False db) (\<lambda>user.
         (case active of
            None \<Rightarrow> Inl (AppValidationError ''is_active cannot be null'')
          | Some b \<Rightarrow>
              if b = au_is_active user then Inr ((), db)
              else
                (let db1 = put_user (user\<lparr>au_is_active := b\<rparr>) db;
                     db2 = (if b then db1 else db1\<lparr>au_sessions := snd (revoke_user_sessions env (au_id user) None (au_sessions db1))\<rparr>)
                 in Inr ((), record_audit ''update'' (au_id user) db2)))))"

definition delete_user_account :: "auth_env \<Rightarrow> uuid \<Rightarrow> uuid \<Rightarrow> auth_db \<Rightarrow> (app_error + unit) \<times> auth_db" where
  "delete_user_account env actor user_id db =
     commit db
       (if actor = user_id then Inl (AppValidationError ''You cannot delete your own user account'')
        else
          bind_result (get_account_or_raise user_id False db) (\<lambda>user.
            (let db1 = put_user (user\<lparr>au_is_active := False, au_deleted := True\<rparr>) db;
                 db2 = db1\<lparr>au_sessions := snd (revoke_user_sessions env (au_id user) None (au_sessions db1)),
                   au_identities := update_where (\<lambda>x. id_user x = au_id user \<and> \<not> id_deleted x)
                     (\<lambda>x. x\<lparr>id_deleted := True\<rparr>) (au_identities db1)\<rparr>
             in Inr ((), record_audit ''delete'' (au_id user) db2))))"

end
