(* ===== verification/Auth_OAuth.thy ===== *)
theory Auth_OAuth
  imports Auth_Accounts
begin

text \<open>
  Signing in with an OAuth provider and linking one to an account (\<^verbatim>\<open>services/auth/oauth\<close>), the session
  dependency of the routes (\<^verbatim>\<open>core/dependencies.py\<close>) and the linked identities. The provider's answers (the token
  payload and the profile, or the exception) are arguments; of a profile the model keeps what the code reads.
\<close>

section \<open>Profiles\<close>

definition truthy :: "json option \<Rightarrow> bool" where
  "truthy v =
     (case v of None \<Rightarrow> False | Some JNull \<Rightarrow> False | Some (JBool b) \<Rightarrow> b | Some (JInt n) \<Rightarrow> n \<noteq> 0
      | Some (JStr s) \<Rightarrow> s \<noteq> [] | Some (JArr xs) \<Rightarrow> xs \<noteq> [] | Some (JObj d) \<Rightarrow> d \<noteq> [])"

text \<open>\<open>js_str\<close> is \<^verbatim>\<open>str\<close> of a JSON value that is a string or an integer; other values get no text.\<close>

definition js_str :: "json \<Rightarrow> string" where
  "js_str v = (case v of JStr s \<Rightarrow> s | JInt n \<Rightarrow> (if n < 0 then CHR ''-'' # nat_text (nat (- n)) else nat_text (nat n)) | _ \<Rightarrow> [])"

definition json_or :: "json option \<Rightarrow> json option \<Rightarrow> json option" where
  "json_or a b = (if truthy a then a else b)"

definition provider_user_id_from_profile :: "string \<Rightarrow> pydict \<Rightarrow> string option" where
  "provider_user_id_from_profile provider profile =
     (let value = json_or (dict_get profile ''id'') (dict_get profile ''sub'');
          chosen = (if value \<in> {None, Some JNull} \<and> provider = ''github'' then dict_get profile ''node_id'' else value)
      in case chosen of None \<Rightarrow> None | Some JNull \<Rightarrow> None | Some v \<Rightarrow> Some (js_str v))"

definition py_upper_ascii :: "string \<Rightarrow> string" where
  "py_upper_ascii s = map (\<lambda>c. let n = (of_char c :: nat) in if 97 \<le> n \<and> n \<le> 122 then char_of (n - 32) else c) s"

text \<open>Only letters of the marker matter for \<^verbatim>\<open>"#EXT#" in value.upper()\<close>, and these are ASCII.\<close>

definition provider_email :: "string \<Rightarrow> pydict \<Rightarrow> string option" where
  "provider_email provider profile =
     (if provider = ''microsoft''
      then
        (let value = py_strip (if truthy (dict_get profile ''userPrincipalName'')
               then js_str (the (dict_get profile ''userPrincipalName'')) else [])
         in if CHR ''@'' \<notin> set value \<or> contains_text ''#EXT#'' (py_upper_ascii value) then None
            else Some (normalize_email value))
      else if truthy (dict_get profile ''email'') then Some (normalize_email (js_str (the (dict_get profile ''email''))))
      else None)"

definition provider_email_verified :: "string \<Rightarrow> pydict \<Rightarrow> bool" where
  "provider_email_verified provider profile \<longleftrightarrow>
     (if provider = ''google'' then truthy (dict_get profile ''verified_email'') \<or> truthy (dict_get profile ''email_verified'')
      else if provider = ''github'' then truthy (dict_get profile ''email'')
      else if provider = ''microsoft'' then or_string (provider_email provider profile) [] \<noteq> [] else False)"

section \<open>The account of an identity (upsert\_oauth\_user)\<close>

definition identity_is :: "string \<Rightarrow> string \<Rightarrow> auth_identity \<Rightarrow> bool" where
  "identity_is provider subject x \<longleftrightarrow> id_provider x = provider \<and> id_subject x = subject \<and> \<not> id_deleted x"

text \<open>
  The unique constraint on the provider and its user id does not leave out soft-deleted rows: the insert fails
  when such a row is there.
\<close>

definition insert_identity :: "auth_identity \<Rightarrow> auth_db \<Rightarrow> app_error + auth_db" where
  "insert_identity x db =
     (if (id_provider x, id_subject x) \<in> (\<lambda>y. (id_provider y, id_subject y)) ` set (au_identities db)
      then Inl (IntegrityError ''user_auth'') else Inr (db\<lparr>au_identities := au_identities db @ [x]\<rparr>))"

text \<open>\<open>invited\<close> is \<^verbatim>\<open>has_pending_invitation_for_email\<close>.\<close>

definition oauth_new_user ::
    "auth_env \<Rightarrow> auth_draws \<Rightarrow> (string \<Rightarrow> bool) \<Rightarrow> string \<Rightarrow> pydict \<Rightarrow> string \<Rightarrow> auth_db \<Rightarrow> app_error + auth_user \<times> auth_db" where
  "oauth_new_user env dw invited provider profile email db =
     (let cfg = ve_settings env; verified = provider_email_verified provider profile;
          bootstrap = (verified \<and> email \<in> set (super_admin_emails_list cfg));
          invited_signup = (\<not> ALLOW_SIGNUP cfg \<and> \<not> bootstrap \<and> verified \<and> invited email)
      in if \<not> ALLOW_SIGNUP cfg \<and> \<not> bootstrap \<and> \<not> invited_signup then Inl (AuthorizationError ''Signup is disabled'')
         else
           (let user = new_user (dw_user_id dw) email True
            in bind_result (insert_user user db) (\<lambda>db1.
                 Inr (user\<lparr>au_default_workspace := Some (dw_workspace_id dw)\<rparr>,
                   record_audit ''create'' (au_id user) (provisioned dw user db1)))))"

definition upsert_oauth_user ::
    "auth_env \<Rightarrow> auth_draws \<Rightarrow> (string \<Rightarrow> bool) \<Rightarrow> string \<Rightarrow> pydict \<Rightarrow> auth_db \<Rightarrow> app_error + auth_user \<times> auth_db" where
  "upsert_oauth_user env dw invited provider profile db =
     (case (or_string (provider_user_id_from_profile provider profile) [], or_string (provider_email provider profile) []) of
        (subject, email) \<Rightarrow>
          if subject = [] then Inl (AuthenticationError ''OAuth provider did not return a stable user ID'')
          else if email = [] then Inl (AuthenticationError ''OAuth provider did not return a verified email'')
          else
            (let record = find (identity_is provider subject) (au_identities db);
                 user = Option.bind record (\<lambda>x. row_by_id au_id (id_user x) (au_users db))
             in if record = None \<and> get_user_by_email email False db \<noteq> None
                then Inl (ConflictError ''An account with this email already exists. Sign in first, then link this provider.'')
                else
                  bind_result (case user of Some u \<Rightarrow> Inr (u, db) | None \<Rightarrow> oauth_new_user env dw invited provider profile email db)
                    (\<lambda>(u, db1).
                      if au_deleted u \<or> \<not> au_is_active u then Inl (AuthenticationError ''User account is disabled'')
                      else
                        (case record of
                           None \<Rightarrow>
                             bind_result (insert_identity \<lparr>id_user = au_id u, id_provider = provider, id_subject = subject,
                                 id_email = email, id_verified = provider_email_verified provider profile, id_deleted = False\<rparr> db1)
                               (\<lambda>db2. Inr (u, record_audit ''create'' (au_id u) db2))
                         | Some _ \<Rightarrow>
                             Inr (u, record_audit ''update'' (au_id u) (db1\<lparr>au_identities :=
                               update_where (identity_is provider subject) (\<lambda>x. x\<lparr>id_email := email,
                                 id_verified := provider_email_verified provider profile\<rparr>) (au_identities db1)\<rparr>))))))"

section \<open>The state that a sign-in carries\<close>

definition OAUTH_STATE_TTL :: timestamp where
  "OAUTH_STATE_TTL = timedelta_minutes 10"

definition json_text_of :: "json option \<Rightarrow> string" where
  "json_text_of v = (case v of Some (JStr s) \<Rightarrow> s | _ \<Rightarrow> [])"

definition json_opt_text :: "string option \<Rightarrow> json" where
  "json_opt_text v = (case v of None \<Rightarrow> JNull | Some s \<Rightarrow> JStr s)"

text \<open>\<open>next_path\<close> stands for \<^verbatim>\<open>safe_next_path(next_path)\<close>.\<close>

definition create_oauth_state ::
    "auth_env \<Rightarrow> timestamp \<Rightarrow> string \<Rightarrow> string \<Rightarrow> string \<Rightarrow> string \<Rightarrow> string option \<Rightarrow> string \<times> timestamp \<times> string" where
  "create_oauth_state env now browser_binding jti provider redirect_uri next_path =
     (jwt_encode env
        [(''type'', JStr ''oauth_state''), (''provider'', JStr provider), (''redirect_uri'', JStr redirect_uri),
         (''next_path'', json_opt_text next_path), (''browser_binding_hash'', JStr (ve_sha256 env browser_binding)),
         (''jti'', JStr jti), (''exp'', JInt (epoch_seconds (now + OAUTH_STATE_TTL))), (''iat'', JInt (epoch_seconds now))],
      now + OAUTH_STATE_TTL, browser_binding)"

definition create_oauth_link_state ::
    "auth_env \<Rightarrow> timestamp \<Rightarrow> string \<Rightarrow> string \<Rightarrow> string \<Rightarrow> uuid \<Rightarrow> string option \<Rightarrow> string \<times> timestamp" where
  "create_oauth_link_state env now jti provider redirect_uri user_id next_path =
     (jwt_encode env
        [(''type'', JStr ''oauth_link_state''), (''provider'', JStr provider), (''redirect_uri'', JStr redirect_uri),
         (''user_id'', JStr (uuid_text env user_id)), (''next_path'', json_opt_text next_path), (''jti'', JStr jti),
         (''exp'', JInt (epoch_seconds (now + OAUTH_STATE_TTL))), (''iat'', JInt (epoch_seconds now))],
      now + OAUTH_STATE_TTL)"

definition decode_state :: "auth_env \<Rightarrow> timestamp \<Rightarrow> string \<Rightarrow> app_error + pydict" where
  "decode_state env now state =
     (case jwt_decode env now state of
        Inl JwtExpired \<Rightarrow> Inl (AuthenticationError ''OAuth state has expired'')
      | Inl JwtInvalid \<Rightarrow> Inl (AuthenticationError ''OAuth state is invalid'')
      | Inr payload \<Rightarrow> Inr payload)"

definition verify_oauth_state :: "auth_env \<Rightarrow> timestamp \<Rightarrow> string \<Rightarrow> app_error + pydict" where
  "verify_oauth_state env now state =
     bind_result (decode_state env now state) (\<lambda>payload.
       if dict_get payload ''type'' \<noteq> Some (JStr ''oauth_state'') then Inl (AuthenticationError ''OAuth state is invalid'')
       else if \<not> truthy (dict_get payload ''provider'') \<or> \<not> truthy (dict_get payload ''redirect_uri'') \<or>
          \<not> truthy (dict_get payload ''browser_binding_hash'')
       then Inl (AuthenticationError ''OAuth state is incomplete'') else Inr payload)"

definition verify_oauth_link_state :: "auth_env \<Rightarrow> timestamp \<Rightarrow> string \<Rightarrow> app_error + pydict" where
  "verify_oauth_link_state env now state =
     bind_result (decode_state env now state) (\<lambda>payload.
       if dict_get payload ''type'' \<noteq> Some (JStr ''oauth_link_state'') then Inl (AuthenticationError ''OAuth state is invalid'')
       else if \<not> truthy (dict_get payload ''provider'') \<or> \<not> truthy (dict_get payload ''redirect_uri'') \<or>
          \<not> truthy (dict_get payload ''user_id'')
       then Inl (AuthenticationError ''OAuth state is incomplete'') else Inr payload)"

text \<open>\<open>binding\<close> is the cookie of the browser, encrypted.\<close>

definition verify_oauth_login_browser_binding :: "auth_env \<Rightarrow> pydict \<Rightarrow> string option \<Rightarrow> app_error + unit" where
  "verify_oauth_login_browser_binding env payload binding =
     (let browser_binding = (if or_string binding [] = [] then None else decrypt env (or_string binding []))
      in case (dict_get payload ''browser_binding_hash'', browser_binding) of
           (Some (JStr expected), Some b) \<Rightarrow>
             if b = [] \<or> expected \<noteq> ve_sha256 env b
             then Inl (AuthenticationError ''OAuth login was not initiated by this browser'') else Inr ()
         | _ \<Rightarrow> Inl (AuthenticationError ''OAuth login was not initiated by this browser''))"

text \<open>\<open>configured\<close> holds the configured redirect URI of each provider.\<close>

definition resolve_provider_redirect_uri ::
    "(string \<Rightarrow> string option) \<Rightarrow> string \<Rightarrow> string option \<Rightarrow> app_error + string" where
  "resolve_provider_redirect_uri configured provider supplied =
     (if or_string (configured provider) [] = []
      then Inl (ValueError ''OAuth provider redirect URI is not configured'')
      else
        (let uri = rstrip_char (CHR ''/'') (or_string (configured provider) [])
         in if or_string supplied [] \<noteq> [] \<and> rstrip_char (CHR ''/'') (or_string supplied []) \<noteq> uri
            then Inl (AuthenticationError ''OAuth redirect URI is not allowed'') else Inr uri))"

section \<open>Completing a sign-in (complete\_oauth\_login.py)\<close>

text \<open>What the routes hand over: the provider, its registered clients, the callback and the browser's cookie.\<close>

record oauth_call =
  oc_provider :: string
  oc_registered :: "string \<Rightarrow> bool"
  oc_configured :: "string \<Rightarrow> string option"
  oc_state :: string
  oc_redirect :: "string option"
  oc_binding :: "string option"
  oc_tokens :: "app_error + pydict"
  oc_profile :: "app_error + pydict"

definition oauth_provider_name :: "oauth_call \<Rightarrow> string" where
  "oauth_provider_name c = py_lower (py_strip (oc_provider c))"

text \<open>The state checks and the exchange, up to the profile.\<close>

definition oauth_exchange :: "auth_env \<Rightarrow> timestamp \<Rightarrow> oauth_call \<Rightarrow> app_error + pydict" where
  "oauth_exchange env now c =
     (let provider = oauth_provider_name c
      in bind_result (verify_oauth_state env now (oc_state c)) (\<lambda>payload.
         bind_result (verify_oauth_login_browser_binding env payload (oc_binding c)) (\<lambda>_.
           if dict_get payload ''provider'' \<noteq> Some (JStr provider)
           then Inl (AuthenticationError ''OAuth state provider mismatch'')
           else
             bind_result (resolve_provider_redirect_uri (oc_configured c) provider (oc_redirect c)) (\<lambda>uri.
               if dict_get payload ''redirect_uri'' \<noteq> Some (JStr uri)
               then Inl (AuthenticationError ''OAuth redirect URI mismatch'')
               else
                 bind_result (oc_tokens c) (\<lambda>tokens.
                   if \<not> truthy (dict_get tokens ''access_token'')
                   then Inl (AuthenticationError ''OAuth provider did not return an access token'')
                   else oc_profile c)))))"

definition oauth_failed :: "auth_env \<Rightarrow> timestamp \<Rightarrow> auth_request \<Rightarrow> string option \<Rightarrow> app_error \<Rightarrow> auth_db \<Rightarrow> (app_error + 'a) \<times> auth_db" where
  "oauth_failed env now rq email e db =
     (case email of
        None \<Rightarrow>
          (case record_and_enforce_login_failure env now rq None (Some ''oauth'') db of
             (Inl e', db1) \<Rightarrow> (Inl e', db1)
           | (Inr _, db1) \<Rightarrow> (Inl e, record_event ''auth_oauth_failed'' None db1))
      | Some _ \<Rightarrow> (Inl e, record_event ''auth_oauth_failed'' None (snd (count_login_failure env now rq email None db))))"

definition oauth_sign_in ::
    "auth_env \<Rightarrow> timestamp \<Rightarrow> auth_draws \<Rightarrow> auth_request \<Rightarrow> auth_user \<Rightarrow> auth_db \<Rightarrow> auth_db \<Rightarrow> (app_error + auth_reply) \<times> auth_db" where
  "oauth_sign_in env now dw rq user db0 db =
     (case enforce_login_failure_limit env now rq (Some (au_email user)) None db0 of
        (Inl e, db0') \<Rightarrow> (Inl e, db0')
      | (Inr _, _) \<Rightarrow>
          if is_locked now user
          then (Inl (AuthenticationError ''Account is temporarily locked''),
                record_event ''auth_oauth_failed'' (Some (au_email user))
                  (snd (count_login_failure env now rq (Some (au_email user)) None db0)))
          else
            commit db0 (issue_auth_response env now dw rq user
              (if au_totp_enabled user then ''auth_totp_challenge_created'' else ''auth_oauth_succeeded'')
              (au_totp_enabled user) db))"

definition complete_oauth_login ::
    "auth_env \<Rightarrow> timestamp \<Rightarrow> auth_draws \<Rightarrow> (string \<Rightarrow> bool) \<Rightarrow> auth_request \<Rightarrow> oauth_call \<Rightarrow> auth_db \<Rightarrow>
     (app_error + auth_reply) \<times> auth_db" where
  "complete_oauth_login env now dw invited rq c db =
     (let provider = oauth_provider_name c
      in if \<not> oc_registered c provider then oauth_failed env now rq None (NotFoundError ''OAuth provider is not configured'') db
         else
           (case oauth_exchange env now c of
              Inl e \<Rightarrow> oauth_failed env now rq None e db
            | Inr profile \<Rightarrow>
                (case (case provider_email provider profile of
                         None \<Rightarrow> (Inr (), db)
                       | Some email \<Rightarrow> enforce_login_failure_limit env now rq (Some email) None db) of
                   (Inl e, db1) \<Rightarrow> (Inl e, db1)
                 | (Inr _, _) \<Rightarrow>
                     (case upsert_oauth_user env dw invited provider profile db of
                        Inl e \<Rightarrow> oauth_failed env now rq (provider_email provider profile) e db
                      | Inr (user, db2) \<Rightarrow> oauth_sign_in env now dw rq user db db2))))"

section \<open>Linking and unlinking\<close>

definition complete_oauth_link ::
    "auth_env \<Rightarrow> timestamp \<Rightarrow> auth_user \<Rightarrow> oauth_call \<Rightarrow> auth_db \<Rightarrow> (app_error + unit) \<times> auth_db" where
  "complete_oauth_link env now user c db =
     (let provider = oauth_provider_name c
      in if \<not> oc_registered c provider then (Inl (NotFoundError ''OAuth provider is not configured''), db)
         else
           (case bind_result (verify_oauth_link_state env now (oc_state c)) (\<lambda>payload.
                   if dict_get payload ''provider'' \<noteq> Some (JStr provider)
                   then Inl (AuthenticationError ''OAuth state provider mismatch'')
                   else if dict_get payload ''user_id'' \<noteq> Some (JStr (uuid_text env (au_id user)))
                   then Inl (AuthenticationError ''OAuth state user mismatch'')
                   else
                     bind_result (resolve_provider_redirect_uri (oc_configured c) provider (oc_redirect c)) (\<lambda>uri.
                       if dict_get payload ''redirect_uri'' \<noteq> Some (JStr uri)
                       then Inl (AuthenticationError ''OAuth redirect URI mismatch'')
                       else
                         bind_result (oc_tokens c) (\<lambda>tokens.
                           if \<not> truthy (dict_get tokens ''access_token'')
                           then Inl (AuthenticationError ''OAuth provider did not return an access token'')
                           else oc_profile c))) of
              Inl e \<Rightarrow> (Inl e, record_event ''auth_oauth_failed'' (Some (au_email user)) db)
            | Inr profile \<Rightarrow>
                (let subject = or_string (provider_user_id_from_profile provider profile) [];
                     email = or_string (provider_email provider profile) []
                 in commit db
                   (if subject = [] then Inl (AuthenticationError ''OAuth provider did not return a stable user ID'')
                    else if email = [] then Inl (AuthenticationError ''OAuth provider did not return a verified email'')
                    else if list_ex (\<lambda>x. identity_is provider subject x \<and> id_user x \<noteq> au_id user) (au_identities db)
                    then Inl (ConflictError ''This account is already linked to another user'')
                    else
                      (case find (\<lambda>x. id_user x = au_id user \<and> id_provider x = provider \<and> \<not> id_deleted x) (au_identities db) of
                         Some x \<Rightarrow>
                           if id_subject x \<noteq> subject
                           then Inl (ConflictError ''An account is already linked. Remove it before linking another.'')
                           else Inr ((), record_event ''auth_oauth_succeeded'' (Some (au_email user)) (record_audit ''create'' (au_id user)
                             (db\<lparr>au_identities := update_where (identity_is provider subject) (\<lambda>y. y\<lparr>id_email := email,
                                id_verified := provider_email_verified provider profile\<rparr>) (au_identities db)\<rparr>)))
                       | None \<Rightarrow>
                           bind_result (insert_identity \<lparr>id_user = au_id user, id_provider = provider, id_subject = subject,
                               id_email = email, id_verified = provider_email_verified provider profile, id_deleted = False\<rparr> db)
                             (\<lambda>db1. Inr ((), record_event ''auth_oauth_succeeded'' (Some (au_email user))
                               (record_audit ''create'' (au_id user) db1))))))))"

definition unlink_oauth_provider :: "auth_user \<Rightarrow> string \<Rightarrow> auth_db \<Rightarrow> (app_error + unit) \<times> auth_db" where
  "unlink_oauth_provider user provider_name db =
     commit db
       (let provider = py_lower (py_strip provider_name);
            records = filter (\<lambda>x. id_user x = au_id user \<and> \<not> id_deleted x) (au_identities db);
            remaining = length (filter (\<lambda>x. id_provider x \<noteq> provider) records) + (if has_password user then 1 else 0)
        in if filter (\<lambda>x. id_provider x = provider) records = []
           then Inl (NotFoundError ''No linked account for this provider'')
           else if remaining < 1 then Inl (ConflictError ''You can't remove your only sign-in method'')
           else Inr ((), record_audit ''delete'' (au_id user)
             (db\<lparr>au_identities := update_where (\<lambda>x. id_user x = au_id user \<and> \<not> id_deleted x \<and> id_provider x = provider)
                (\<lambda>x. x\<lparr>id_deleted := True\<rparr>) (au_identities db)\<rparr>)))"

section \<open>The user of a request (core/dependencies.py)\<close>

text \<open>The token of the cookie, or the credentials of a bearer header as they stand.\<close>

definition auth_token :: "auth_request \<Rightarrow> string option" where
  "auth_token rq =
     (if or_string (rq_cookie rq) [] \<noteq> [] then rq_cookie rq
      else
        (let authorization = or_string (rq_authorization rq) [];
             scheme = takeWhile (\<lambda>c. c \<noteq> CHR '' '') authorization;
             credentials = drop (length scheme + 1) authorization
         in if py_lower scheme = ''bearer'' \<and> credentials \<noteq> [] then Some credentials else None))"

text \<open>
  A token that is no session may be an internal token of a scheduled task. \<open>run_ok\<close> says whether the payload
  names no scheduled run, or one of its workspace and user that is not deleted.
\<close>

definition jwt_session_user :: "auth_env \<Rightarrow> timestamp \<Rightarrow> (pydict \<Rightarrow> bool) \<Rightarrow> string \<Rightarrow> auth_db \<Rightarrow> auth_user option" where
  "jwt_session_user env now run_ok token db =
     (case jwt_decode env now token of
        Inl _ \<Rightarrow> None
      | Inr payload \<Rightarrow>
          if dict_get payload ''type'' \<noteq> Some (JStr ''user_session_token'') \<or> \<not> truthy (dict_get payload ''jti'') \<or>
             dict_get payload ''internal'' \<noteq> Some (JBool True) \<or> \<not> truthy (dict_get payload ''user_id'')
          then None
          else
            (case (read_uuid_text env (json_text_of (dict_get payload ''user_id'')), read_uuid_text env (json_text_of (dict_get payload ''workspace_id''))) of
               (Some user_id, Some workspace_id) \<Rightarrow>
                 if run_ok payload then find (\<lambda>u. au_id u = user_id \<and> au_is_active u) (au_users db) else None
             | _ \<Rightarrow> None))"

definition authenticate ::
    "auth_env \<Rightarrow> timestamp \<Rightarrow> bool \<Rightarrow> (pydict \<Rightarrow> bool) \<Rightarrow> string option \<Rightarrow> auth_db \<Rightarrow>
     auth_user option \<times> auth_db" where
  "authenticate env now unlocked run_ok token db =
     (case token of
        None \<Rightarrow> (None, db)
      | Some t \<Rightarrow>
          if t = [] then (None, db)
          else
            (case validate_session env now unlocked t True True db of
               (Some u, db') \<Rightarrow> (Some u, db')
             | (None, _) \<Rightarrow> (jwt_session_user env now run_ok t db, db)))"

end
