(* ===== verification/Auth_Effects.thy ===== *)
theory Auth_Effects
  imports Auth_OAuth
begin

text \<open>
  How the tables of the accounts evolve: the invariant of the tables, and the contract that every operation
  keeps. \<open>advance D R db db'\<close> says that the invariant holds after it; that every session is an old one, with
  its token, user and factor and revoked if it was revoked, or a new one with a token hash in \<open>D\<close>; that every
  identity is kept, with its user, and deleted if it was deleted; and that every user is kept, with the last
  used counter not smaller, except for the users in \<open>R\<close>.
\<close>

section \<open>The invariant\<close>

definition user_ok :: "auth_user \<Rightarrow> bool" where
  "user_ok u \<longleftrightarrow> 0 \<le> au_failed u \<and> (au_totp_enabled u \<longrightarrow> or_string (au_totp_secret u) [] \<noteq> [])"

definition auth_inv :: "auth_db \<Rightarrow> bool" where
  "auth_inv db \<longleftrightarrow>
     distinct (map au_id (au_users db)) \<and> distinct (map (\<lambda>u. py_lower (au_email u)) (au_users db)) \<and>
     (\<forall>u \<in> set (au_users db). user_ok u) \<and>
     distinct (map se_id (au_sessions db)) \<and> distinct (map se_token_hash (au_sessions db)) \<and>
     (\<forall>s \<in> set (au_sessions db). se_user s \<in> au_id ` set (au_users db)) \<and>
     distinct (map (\<lambda>x. (id_provider x, id_subject x)) (au_identities db)) \<and>
     (\<forall>x \<in> set (au_identities db). id_user x \<in> au_id ` set (au_users db))"

lemma auth_inv_users: "auth_inv db \<Longrightarrow> distinct (map au_id (au_users db))"
  by (simp add: auth_inv_def)

section \<open>Evolution of rows\<close>

definition session_after :: "auth_session \<Rightarrow> auth_session \<Rightarrow> bool" where
  "session_after s t \<longleftrightarrow> se_id t = se_id s \<and> se_token_hash t = se_token_hash s \<and> se_user t = se_user s \<and>
     se_twofa t = se_twofa s \<and> se_created_at t = se_created_at s \<and> (se_deleted s \<longrightarrow> se_deleted t)"

definition sessions_from :: "string set \<Rightarrow> auth_session list \<Rightarrow> auth_session list \<Rightarrow> bool" where
  "sessions_from D T T' \<longleftrightarrow>
     (\<forall>t \<in> set T'. (\<exists>s \<in> set T. session_after s t) \<or> se_token_hash t \<in> D - se_token_hash ` set T)"

definition identity_after :: "auth_identity \<Rightarrow> auth_identity \<Rightarrow> bool" where
  "identity_after x y \<longleftrightarrow> id_user y = id_user x \<and> id_provider y = id_provider x \<and> id_subject y = id_subject x \<and>
     (id_deleted x \<longrightarrow> id_deleted y)"

definition identities_from :: "auth_identity list \<Rightarrow> auth_identity list \<Rightarrow> bool" where
  "identities_from I I' \<longleftrightarrow> (\<forall>x \<in> set I. \<exists>y \<in> set I'. identity_after x y)"

definition counter_kept :: "auth_user \<Rightarrow> auth_user \<Rightarrow> bool" where
  "counter_kept u v \<longleftrightarrow> (\<forall>c. au_last_counter u = Some c \<longrightarrow> (\<exists>d. au_last_counter v = Some d \<and> c \<le> d))"

definition user_after :: "uuid set \<Rightarrow> auth_user \<Rightarrow> auth_user \<Rightarrow> bool" where
  "user_after R u v \<longleftrightarrow> au_id v = au_id u \<and> au_email v = au_email u \<and> (au_id u \<in> R \<or> counter_kept u v)"

definition users_from :: "uuid set \<Rightarrow> auth_user list \<Rightarrow> auth_user list \<Rightarrow> bool" where
  "users_from R U U' \<longleftrightarrow> (\<forall>u \<in> set U. \<exists>v \<in> set U'. user_after R u v)"

definition advance :: "string set \<Rightarrow> uuid set \<Rightarrow> auth_db \<Rightarrow> auth_db \<Rightarrow> bool" where
  "advance D R db db' \<longleftrightarrow> auth_inv db' \<and> sessions_from D (au_sessions db) (au_sessions db') \<and>
     identities_from (au_identities db) (au_identities db') \<and> users_from R (au_users db) (au_users db')"

named_theorems auth_moves \<open>primitive steps that advance the tables\<close>

lemma session_after_refl [simp]: "session_after s s"
  by (simp add: session_after_def)

lemma session_after_trans: "session_after s t \<Longrightarrow> session_after t v \<Longrightarrow> session_after s v"
  by (simp add: session_after_def)

lemma identity_after_refl [simp]: "identity_after x x"
  by (simp add: identity_after_def)

lemma identity_after_trans: "identity_after x y \<Longrightarrow> identity_after y z \<Longrightarrow> identity_after x z"
  by (simp add: identity_after_def)

lemma counter_kept_refl [simp]: "counter_kept u u"
  by (simp add: counter_kept_def)

lemma counter_kept_trans: "counter_kept u v \<Longrightarrow> counter_kept v w \<Longrightarrow> counter_kept u w"
  by (fastforce simp: counter_kept_def)

lemma user_after_refl [simp]: "user_after R u u"
  by (simp add: user_after_def)

lemma user_after_trans: "user_after R u v \<Longrightarrow> user_after R v w \<Longrightarrow> user_after R u w"
  by (auto simp: user_after_def intro: counter_kept_trans)

lemma sessions_from_refl [simp]: "sessions_from D T T"
  by (auto simp: sessions_from_def intro: session_after_refl)

lemma identities_from_refl [simp]: "identities_from I I"
  by (auto simp: identities_from_def intro: identity_after_refl)

lemma users_from_refl [simp]: "users_from R U U"
  by (auto simp: users_from_def intro: user_after_refl)

lemma advance_refl: "auth_inv db \<Longrightarrow> advance D R db db"
  by (simp add: advance_def)

lemma advance_inv: "advance D R db db' \<Longrightarrow> auth_inv db'"
  by (simp add: advance_def)

lemma advance_trans:
  assumes "advance D R a b" and "advance E R b c" and "\<And>h. h \<in> se_token_hash ` set (au_sessions a) \<Longrightarrow>
    h \<in> E \<Longrightarrow> h \<in> se_token_hash ` set (au_sessions b)"
  shows "advance (D \<union> E) R a c"
proof -
  have "sessions_from (D \<union> E) (au_sessions a) (au_sessions c)"
    unfolding sessions_from_def
  proof
    fix v
    assume "v \<in> set (au_sessions c)"
    with assms(2) consider (old) t where "t \<in> set (au_sessions b)" "session_after t v"
      | (new) "se_token_hash v \<in> E - se_token_hash ` set (au_sessions b)"
      unfolding advance_def sessions_from_def by blast
    then show "(\<exists>s \<in> set (au_sessions a). session_after s v) \<or> se_token_hash v \<in> (D \<union> E) - se_token_hash ` set (au_sessions a)"
    proof cases
      case old
      with assms(1) have "(\<exists>s \<in> set (au_sessions a). session_after s t) \<or> se_token_hash t \<in> D - se_token_hash ` set (au_sessions a)"
        unfolding advance_def sessions_from_def by blast
      with old(2) show ?thesis by (auto simp: session_after_def)
    next
      case new
      with assms(3) show ?thesis by blast
    qed
  qed
  moreover have "identities_from (au_identities a) (au_identities c)"
    using assms(1,2) unfolding advance_def identities_from_def by (meson identity_after_trans)
  moreover have "users_from R (au_users a) (au_users c)"
    using assms(1,2) unfolding advance_def users_from_def by (meson user_after_trans)
  ultimately show ?thesis using assms(2) by (simp add: advance_def)
qed

text \<open>A step before which nothing was removed can be followed by any other.\<close>

lemma advance_then:
  assumes "advance {} R a b" and "advance E R b c" and "se_token_hash ` set (au_sessions b) = se_token_hash ` set (au_sessions a)"
  shows "advance E R a c"
  using advance_trans [OF assms(1,2)] assms(3) by simp

section \<open>Primitive steps\<close>

lemma advance_log [simp]: "advance D R db (db'\<lparr>au_log := l\<rparr>) = advance D R db db'"
  by (simp add: advance_def auth_inv_def)

lemma advance_attempts [simp]: "advance D R db (db'\<lparr>au_attempts := l\<rparr>) = advance D R db db'"
  by (simp add: advance_def auth_inv_def)

lemma advance_event [simp]: "advance D R db (record_event e m db') = advance D R db db'"
  by (simp add: record_event_def)

lemma advance_audit [simp]: "advance D R db (record_audit e m db') = advance D R db db'"
  by (simp add: record_audit_def)

lemma advance_from_log [simp]: "advance D R (db\<lparr>au_log := l\<rparr>) db' = advance D R db db'"
  by (simp add: advance_def)

lemma advance_from_attempts [simp]: "advance D R (db\<lparr>au_attempts := l\<rparr>) db' = advance D R db db'"
  by (simp add: advance_def)

lemma auth_inv_log [simp]: "auth_inv (db\<lparr>au_log := l\<rparr>) = auth_inv db"
  by (simp add: auth_inv_def)

lemma auth_inv_attempts [simp]: "auth_inv (db\<lparr>au_attempts := l\<rparr>) = auth_inv db"
  by (simp add: auth_inv_def)

lemma auth_inv_event [simp]: "auth_inv (record_event e m db) = auth_inv db"
  by (simp add: record_event_def)

lemma auth_inv_audit [simp]: "auth_inv (record_audit e m db) = auth_inv db"
  by (simp add: record_audit_def)

lemma record_tables [simp]:
  "au_users (record_event e m db) = au_users db" "au_sessions (record_event e m db) = au_sessions db"
  "au_identities (record_event e m db) = au_identities db" "au_attempts (record_event e m db) = au_attempts db"
  "au_users (record_audit e' i db) = au_users db" "au_sessions (record_audit e' i db) = au_sessions db"
  "au_identities (record_audit e' i db) = au_identities db"
  by (simp_all add: record_event_def record_audit_def)

lemma put_user_tables [simp]:
  "au_sessions (put_user u db) = au_sessions db" "au_identities (put_user u db) = au_identities db"
  "au_attempts (put_user u db) = au_attempts db" "au_log (put_user u db) = au_log db"
  "au_users (put_user u db) = write_row au_id u (au_users db)"
  by (simp_all add: put_user_def)

text \<open>Writing a user back with the same id and address.\<close>

lemma distinct_email_write:
  assumes "u \<in> set U" and "au_id v = au_id u" and "au_email v = au_email u" and "distinct (map au_id U)"
  shows "map (\<lambda>x. py_lower (au_email x)) (write_row au_id v U) = map (\<lambda>x. py_lower (au_email x)) U"
proof -
  have "py_lower (au_email (if au_id x = au_id v then v else x)) = py_lower (au_email x)" if "x \<in> set U" for x
    using that assms distinct_key_eq [OF assms(4), of x u] by auto
  then show ?thesis by (simp add: write_row_def update_where_def)
qed

lemma advance_put_user [auth_moves]:
  assumes inv: "auth_inv db" and u: "u \<in> set (au_users db)" and same: "au_id v = au_id u" "au_email v = au_email u"
    and ok: "user_ok v" and kept: "au_id u \<in> R \<or> counter_kept u v"
  shows "advance D R db (put_user v db)"
proof -
  have "\<exists>y \<in> set (write_row au_id v (au_users db)). user_after R x y" if "x \<in> set (au_users db)" for x
  proof (cases "au_id x = au_id v")
    case True
    then have "x = u" using distinct_key_eq [OF auth_inv_users [OF inv] that u] same by simp
    then show ?thesis using same kept u by (intro bexI [of _ v]) (auto simp: user_after_def in_write_row)
  next
    case False
    then show ?thesis using that by (intro bexI [of _ x]) (auto simp: in_write_row)
  qed
  moreover have "auth_inv (put_user v db)"
    using inv ok distinct_email_write [OF u same auth_inv_users [OF inv]]
    by (auto simp: auth_inv_def in_write_row)
  ultimately show ?thesis by (simp add: advance_def users_from_def)
qed

lemma advance_sessions [auth_moves]:
  assumes inv: "auth_inv db" and keys: "map se_id T = map se_id (au_sessions db)"
    "map se_token_hash T = map se_token_hash (au_sessions db)" and "sessions_from {} (au_sessions db) T"
  shows "advance D R db (db\<lparr>au_sessions := T\<rparr>)"
proof -
  have "se_user t \<in> au_id ` set (au_users db)" if "t \<in> set T" for t
    using that assms(4) inv by (auto simp: sessions_from_def session_after_def auth_inv_def)
  moreover have "sessions_from D (au_sessions db) T" using assms(4) by (auto simp: sessions_from_def)
  ultimately show ?thesis using inv keys by (simp add: advance_def auth_inv_def)
qed

lemma sessions_update:
  assumes "\<And>s. session_after s (f s)"
  shows "map se_id (update_where P f T) = map se_id T" "map se_token_hash (update_where P f T) = map se_token_hash T"
    "sessions_from {} T (update_where P f T)"
proof -
  have "se_id (f s) = se_id s \<and> se_token_hash (f s) = se_token_hash s" for s using assms [of s] by (simp add: session_after_def)
  then show "map se_id (update_where P f T) = map se_id T" "map se_token_hash (update_where P f T) = map se_token_hash T"
    by (simp_all add: update_where_def)
  show "sessions_from {} T (update_where P f T)"
    using assms by (fastforce simp: sessions_from_def in_update_where)
qed

lemma advance_update_sessions [auth_moves]:
  "auth_inv db \<Longrightarrow> (\<And>s. session_after s (f s)) \<Longrightarrow>
     advance D R db (db\<lparr>au_sessions := update_where P f (au_sessions db)\<rparr>)"
  by (rule advance_sessions) (simp_all add: sessions_update)

text \<open>A loaded session is written back as an update of its row.\<close>

lemma write_session:
  assumes "auth_inv db" and "s \<in> set (au_sessions db)" and "f s = t" and "se_id t = se_id s"
  shows "write_row se_id t (au_sessions db) = update_where (\<lambda>x. se_id x = se_id s) f (au_sessions db)"
  unfolding write_row_def update_where_def
proof (rule map_cong [OF refl])
  fix x
  assume "x \<in> set (au_sessions db)"
  with assms(1,2) have "se_id x = se_id s \<Longrightarrow> x = s"
    using distinct_key_eq [of se_id "au_sessions db" x s] by (simp add: auth_inv_def)
  then show "(if se_id x = se_id t then t else x) = (if se_id x = se_id s then f x else x)" using assms(3,4) by auto
qed

lemma revoke_after [simp]: "session_after s (revoke s)"
  by (simp add: session_after_def revoke_def)

lemma advance_filter_sessions [auth_moves]:
  assumes "auth_inv db"
  shows "advance D R db (db\<lparr>au_sessions := filter P (au_sessions db)\<rparr>)"
proof -
  have "distinct (map se_id (filter P (au_sessions db)))" and "distinct (map se_token_hash (filter P (au_sessions db)))"
    using assms by (simp_all add: auth_inv_def distinct_map_filter)
  moreover have "sessions_from D (au_sessions db) (filter P (au_sessions db))"
    by (auto simp: sessions_from_def intro: session_after_refl)
  ultimately show ?thesis using assms by (auto simp: advance_def auth_inv_def)
qed

lemma advance_insert_user [auth_moves]:
  assumes "auth_inv db" and "insert_user u db = Inr db'" and "user_ok u"
  shows "advance D R db db'"
proof -
  have "db' = db\<lparr>au_users := au_users db @ [u]\<rparr>" and "au_id u \<notin> au_id ` set (au_users db)"
    and "py_lower (au_email u) \<notin> (\<lambda>x. py_lower (au_email x)) ` set (au_users db)"
    using assms(2) by (auto simp: insert_user_def citext_eq_def list_ex_iff split: if_splits)
  moreover have "users_from R (au_users db) (au_users db @ [u])"
    by (auto simp: users_from_def intro: user_after_refl)
  ultimately show ?thesis using assms(1,3) by (auto simp: advance_def auth_inv_def)
qed

lemma advance_insert_identity [auth_moves]:
  assumes "auth_inv db" and "insert_identity x db = Inr db'" and "id_user x \<in> au_id ` set (au_users db)"
  shows "advance D R db db'"
proof -
  have "db' = db\<lparr>au_identities := au_identities db @ [x]\<rparr>"
    and "(id_provider x, id_subject x) \<notin> (\<lambda>y. (id_provider y, id_subject y)) ` set (au_identities db)"
    using assms(2) by (auto simp: insert_identity_def split: if_splits)
  moreover have "identities_from (au_identities db) (au_identities db @ [x])"
    by (auto simp: identities_from_def intro: identity_after_refl)
  ultimately show ?thesis using assms(1,3) by (auto simp: advance_def auth_inv_def)
qed

lemma advance_identities [auth_moves]:
  assumes "auth_inv db" and after: "\<And>x. identity_after x (f x)"
  shows "advance D R db (db\<lparr>au_identities := update_where P f (au_identities db)\<rparr>)"
proof -
  have f: "id_user (f x) = id_user x" "id_provider (f x) = id_provider x" "id_subject (f x) = id_subject x" for x
    using after [of x] by (simp_all add: identity_after_def)
  have "identities_from (au_identities db) (update_where P f (au_identities db))"
    unfolding identities_from_def
  proof
    fix x assume "x \<in> set (au_identities db)"
    then have "(if P x then f x else x) \<in> set (update_where P f (au_identities db))" by (auto simp: in_update_where)
    moreover have "identity_after x (if P x then f x else x)" using after by simp
    ultimately show "\<exists>y \<in> set (update_where P f (au_identities db)). identity_after x y" by blast
  qed
  moreover have "map (\<lambda>x. (id_provider x, id_subject x)) (update_where P f (au_identities db)) =
      map (\<lambda>x. (id_provider x, id_subject x)) (au_identities db)"
    using f by (simp add: update_where_def)
  moreover have "\<forall>y \<in> set (update_where P f (au_identities db)). id_user y \<in> au_id ` set (au_users db)"
    using assms(1) f by (auto simp: auth_inv_def in_update_where)
  ultimately show ?thesis using assms(1) by (simp add: advance_def auth_inv_def)
qed

text \<open>A new session of a stored user.\<close>

lemma create_session_cases:
  assumes "create_session env now token sid user ip agent duration twofa T = Inr (r, T')"
  obtains h s where "hash_token env token = Inr h" "h = ve_sha256 env token" "h \<notin> se_token_hash ` set T" "sid \<notin> se_id ` set T"
    "T' = T @ [s]" "se_id s = sid" "se_user s = user" "se_token_hash s = h" "se_twofa s = twofa" "\<not> se_deleted s"
    "se_expires_at s = now + or_default duration (default_session_duration env)"
    "r = \<lparr>sx_token = token, sx_expires_at = se_expires_at s, sx_session_id = sid, sx_twofa = twofa\<rparr>"
  using assms by (auto simp: create_session_def bind_result_Inr hash_token_def Let_def split: if_splits)

lemma advance_new_session [auth_moves]:
  assumes inv: "auth_inv db" and "create_session env now token sid user ip agent duration twofa (au_sessions db) = Inr (r, T)"
    and "user \<in> au_id ` set (au_users db)"
  shows "advance {ve_sha256 env token} R db (db\<lparr>au_sessions := T\<rparr>)"
  using assms(2)
proof (rule create_session_cases)
  fix h s
  assume "h = ve_sha256 env token" "h \<notin> se_token_hash ` set (au_sessions db)" "sid \<notin> se_id ` set (au_sessions db)"
    "T = au_sessions db @ [s]" "se_id s = sid" "se_user s = user" "se_token_hash s = h"
  then show ?thesis using inv assms(3)
    by (auto simp: advance_def auth_inv_def sessions_from_def intro: session_after_refl)
qed

end
