(* ===== verification/Auth_Steps.thy ===== *)
theory Auth_Steps
  imports Auth_Effects
begin

text \<open>
  Every operation of the accounts advances the tables: one lemma per operation, in the order of the code.
\<close>

lemma advance_commit:
  "auth_inv before \<Longrightarrow> (\<And>x db'. r = Inr (x, db') \<Longrightarrow> advance D R before db') \<Longrightarrow> advance D R before (snd (commit before r))"
  by (auto simp: commit_def advance_refl split: sum.splits prod.splits)

lemma put_user_mem: "v \<in> set (au_users db) \<Longrightarrow> au_id u = au_id v \<Longrightarrow> u \<in> set (au_users (put_user u db))"
  by (auto simp: in_write_row)

section \<open>Sessions\<close>

lemma valid_session_cases:
  assumes "get_valid_session env now token b db = Some (s, u)"
  obtains h where "hash_token env token = Inr h" "h = ve_sha256 env token" "s \<in> set (au_sessions db)" "se_token_hash s = h"
    "se_expires_at s > now" "\<not> se_deleted s" "b \<longrightarrow> se_twofa s" "row_by_id au_id (se_user s) (au_users db) = Some u"
    "\<not> au_deleted u" "au_is_active u"
  using assms
  by (auto simp: get_valid_session_def hash_token_def split: sum.splits option.splits if_splits dest!: find_SomeD)

lemma advance_touch [auth_moves]:
  "auth_inv db \<Longrightarrow> advance D R db (snd (validate_session env now unlocked token b c db))"
  by (auto simp: validate_session_def session_after_def split: option.splits intro!: advance_refl advance_update_sessions)

lemma validate_user:
  assumes "fst (validate_session env now unlocked token b c db) = Some u"
  shows "u \<in> set (au_users db)" and "au_users (snd (validate_session env now unlocked token b c db)) = au_users db"
  using assms
  by (auto simp: validate_session_def split: option.splits if_splits elim!: valid_session_cases dest!: row_by_id_Some)

lemma advance_manager_refresh [auth_moves]:
  assumes "auth_inv db"
  shows "advance D R db (snd (manager_refresh env now token duration db))"
proof (cases "get_valid_session env now token True db")
  case None
  then show ?thesis using assms by (simp add: manager_refresh_def advance_refl)
next
  case (Some p)
  obtain s u where p: "p = (s, u)" by (cases p)
  let ?f = "\<lambda>s. s\<lparr>se_expires_at := now + or_default duration (default_session_duration env), se_last_accessed := now\<rparr>"
  have "s \<in> set (au_sessions db)" using Some p by (auto elim: valid_session_cases)
  then have "write_row se_id (?f s) (au_sessions db) = update_where (\<lambda>x. se_id x = se_id s) ?f (au_sessions db)"
    by (intro write_session [OF assms]) simp_all
  with Some p show ?thesis
    using advance_update_sessions [OF assms, of ?f D R "\<lambda>x. se_id x = se_id s"]
    by (simp add: manager_refresh_def session_after_def Let_def)
qed

lemma advance_refresh [auth_moves]:
  assumes "auth_inv db"
  shows "advance D R db (snd (refresh_session env now rq user db))"
proof -
  have "advance D R db (snd (manager_refresh env now token None db))" for token
    by (rule advance_manager_refresh [OF assms])
  then show ?thesis using assms
    by (auto simp: refresh_session_def advance_refl split: option.splits prod.splits) (metis snd_conv)
qed

lemma write_revoked:
  "auth_inv db \<Longrightarrow> s \<in> set (au_sessions db) \<Longrightarrow>
     advance D R db (db\<lparr>au_sessions := write_row se_id (revoke s) (au_sessions db)\<rparr>)"
  using write_session [of db s revoke "revoke s"] advance_update_sessions [of db revoke D R "\<lambda>x. se_id x = se_id s"]
  by (simp add: revoke_def session_after_def)

lemma advance_revoke_by_id [auth_moves]: "auth_inv db \<Longrightarrow> advance D R db (snd (revoke_session_by_id user i db))"
  by (auto simp: revoke_session_by_id_def advance_refl split: option.splits dest!: find_SomeD intro!: write_revoked)

lemma advance_revoke_user [auth_moves]:
  "auth_inv db \<Longrightarrow> advance D R db (db\<lparr>au_sessions := snd (revoke_user_sessions env i ex (au_sessions db))\<rparr>)"
  unfolding revoke_user_sessions_def Let_def snd_conv by (rule advance_update_sessions) simp_all

lemma advance_revoke_partial [auth_moves]:
  "auth_inv db \<Longrightarrow> advance D R db (db\<lparr>au_sessions := snd (revoke_user_partial_sessions i (au_sessions db))\<rparr>)"
  unfolding revoke_user_partial_sessions_def Let_def snd_conv by (rule advance_update_sessions) simp_all

lemma advance_revoke_sessions [auth_moves]: "auth_inv db \<Longrightarrow> advance D R db (snd (revoke_sessions env rq user keep db))"
  using advance_revoke_user [of db D R env "au_id user" "if keep then session_token_from_request rq else None"]
  by (simp add: revoke_sessions_def case_prod_beta)

lemma advance_revoke_session [auth_moves]:
  "auth_inv db \<Longrightarrow> advance D R db (db\<lparr>au_sessions := snd (revoke_session env token (au_sessions db))\<rparr>)"
  by (auto simp: revoke_session_def advance_refl split: sum.splits option.splits dest!: find_SomeD intro!: write_revoked)

lemma advance_logout [auth_moves]:
  assumes "auth_inv db"
  shows "advance D R db (logout env rq user db)"
proof -
  have "advance D R db (db\<lparr>au_sessions := snd (revoke_session env token (au_sessions db))\<rparr>)" for token
    by (rule advance_revoke_session [OF assms])
  then show ?thesis using assms
    by (auto simp: logout_def Let_def advance_refl case_prod_beta split: option.splits)
qed

lemma advance_cleanup [auth_moves]:
  "auth_inv db \<Longrightarrow> advance D R db (db\<lparr>au_sessions := snd (cleanup_expired_sessions now (au_sessions db))\<rparr>)"
  "auth_inv db \<Longrightarrow> advance D R db (db\<lparr>au_sessions := snd (cleanup_old_sessions now d k (au_sessions db))\<rparr>)"
  "auth_inv db \<Longrightarrow> advance D R db (db\<lparr>au_sessions := snd (cleanup_inactive_sessions now d k (au_sessions db))\<rparr>)"
  by (simp_all add: cleanup_expired_sessions_def cleanup_old_sessions_def cleanup_inactive_sessions_def Let_def
    advance_filter_sessions)

section \<open>Signing in\<close>

lemma count_tables [simp]:
  "au_users (snd (count_login_failure env now rq m sc db)) = au_users db"
  "au_sessions (snd (count_login_failure env now rq m sc db)) = au_sessions db"
  "au_identities (snd (count_login_failure env now rq m sc db)) = au_identities db"
  by (simp_all add: count_login_failure_def split: prod.splits)

lemma advance_count [simp]:
  "advance D R db (snd (count_login_failure env now rq m sc db')) = advance D R db db'"
  by (simp add: count_login_failure_def split: prod.splits)

lemma advance_from_count [simp]:
  "advance D R (snd (count_login_failure env now rq m sc db)) db' = advance D R db db'"
  by (simp add: advance_def)

lemma auth_inv_count [simp]: "auth_inv (snd (count_login_failure env now rq m sc db)) = auth_inv db"
  by (simp add: auth_inv_def)

lemma advance_limit [simp]:
  "advance D R db (snd (enforce_login_failure_limit env now rq m sc db')) = advance D R db db'"
  "advance D R db (snd (record_and_enforce_login_failure env now rq m sc db')) = advance D R db db'"
  using advance_count [of D R db env now rq m sc db']
  by (simp_all add: enforce_login_failure_limit_def record_and_enforce_login_failure_def raise_audited_login_rate_limit_def
    case_prod_beta)

lemma limit_passed: "enforce_login_failure_limit env now rq m sc db = (Inr x, db') \<Longrightarrow> db' = db"
  by (auto simp: enforce_login_failure_limit_def raise_audited_login_rate_limit_def split: if_splits)

lemma limit_refused:
  "enforce_login_failure_limit env now rq m sc db = (Inl e, db') \<Longrightarrow> db' = record_event ''rate_limit_exceeded'' m db"
  by (auto simp: enforce_login_failure_limit_def raise_audited_login_rate_limit_def split: if_splits)

lemma user_ok_mem: "auth_inv db \<Longrightarrow> u \<in> set (au_users db) \<Longrightarrow> user_ok u"
  by (simp add: auth_inv_def)

lemma advance_failed_attempt [auth_moves]:
  assumes inv: "auth_inv db"
  shows "advance D R db (record_failed_login_attempt env now i reason m b db)"
proof (cases "row_by_id au_id i (au_users db)")
  case None
  then show ?thesis using inv by (simp add: record_failed_login_attempt_def advance_refl)
next
  case (Some u)
  let ?u1 = "u\<lparr>au_failed := au_failed u + 1\<rparr>"
  let ?u2 = "?u1\<lparr>au_locked_until := Some (now + timedelta_minutes (SECURITY_LOCKOUT_DURATION_MINUTES (ve_settings env))),
    au_lockout_reason := Some reason\<rparr>"
  have u: "u \<in> set (au_users db)" using Some by (auto dest: row_by_id_Some)
  have ok: "user_ok ?u1" "user_ok ?u2" using user_ok_mem [OF inv u] by (simp_all add: user_ok_def)
  have p: "advance D R db (put_user ?u1 db)" "advance {} R db (put_user ?u2 db)" "advance D R db (put_user ?u2 db)"
    by (rule advance_put_user [OF inv u]; simp add: ok counter_kept_def)+
  have "advance D R db ((put_user ?u2 db)\<lparr>au_sessions := snd (revoke_user_partial_sessions i (au_sessions (put_user ?u2 db)))\<rparr>)"
    by (rule advance_then [OF p(2) advance_revoke_partial]) (use advance_inv [OF p(2)] in simp_all)
  with p Some show ?thesis by (simp add: record_failed_login_attempt_def Let_def)
qed

lemma advance_issue [auth_moves]:
  assumes "auth_inv db" and "issue_auth_response env now dw rq user event twofa db = Inr (r, db')"
    and "au_id user \<in> au_id ` set (au_users db)"
  shows "advance {ve_sha256 env (dw_token dw)} R db db'"
  using assms advance_new_session [OF assms(1)]
  by (auto simp: issue_auth_response_def create_partial_session_def bind_result_Inr Let_def split: if_splits)

lemma advance_provisioned [auth_moves]:
  assumes "auth_inv db" and "u \<in> set (au_users db)"
  shows "advance D R db (provisioned dw u db)"
  unfolding provisioned_def Let_def advance_log
  by (rule advance_put_user [OF assms]) (use user_ok_mem [OF assms] in \<open>simp_all add: user_ok_def counter_kept_def\<close>)

lemma provisioned_sessions [simp]: "au_sessions (provisioned dw u db) = au_sessions db"
  by (simp add: provisioned_def Let_def)

lemma provisioned_ids [simp]: "au_id ` set (au_users (provisioned dw u db)) = au_id ` set (au_users db)"
  by (simp add: provisioned_def Let_def)

lemma email_user: "get_user_by_email m b db = Some u \<Longrightarrow> u \<in> set (au_users db) \<and> citext_eq (au_email u) m \<and> (b \<or> \<not> au_deleted u)"
  by (auto simp: get_user_by_email_def dest!: find_SomeD)

lemma advance_signed_in:
  assumes inv: "auth_inv db" and u: "u \<in> set (au_users db)" and "au_id v = au_id u" "au_email v = au_email u" "user_ok v"
    and kept: "counter_kept u v"
    and issued: "issue_auth_response env now dw rq v event twofa
      (if au_default_workspace v = None then provisioned dw v (put_user v db) else put_user v db) = Inr (r, db')"
  shows "advance {ve_sha256 env (dw_token dw)} R db db'"
proof -
  have one: "advance {} R db (put_user v db)" by (rule advance_put_user [OF inv u]) (use assms in simp_all)
  have v: "v \<in> set (au_users (put_user v db))" by (rule put_user_mem [OF u assms(3)])
  have two: "advance {} R db (if au_default_workspace v = None then provisioned dw v (put_user v db) else put_user v db)"
    using one advance_then [OF one advance_provisioned [OF advance_inv [OF one] v]] by simp
  show ?thesis
    by (rule advance_then [OF two advance_issue [OF advance_inv [OF two] issued]]) (use u assms(3) in auto)
qed

lemma clear_failures_ok [simp]: "user_ok u \<Longrightarrow> user_ok (clear_failures u)"
  by (simp add: user_ok_def clear_failures_def)

lemma clear_failures_simps [simp]:
  "au_id (clear_failures u) = au_id u" "au_email (clear_failures u) = au_email u"
  "au_last_counter (clear_failures u) = au_last_counter u" "au_totp_enabled (clear_failures u) = au_totp_enabled u"
  "au_default_workspace (clear_failures u) = au_default_workspace u" "au_backup_codes (clear_failures u) = au_backup_codes u"
  "au_totp_secret (clear_failures u) = au_totp_secret u" "au_failed (clear_failures u) = 0" "au_locked_until (clear_failures u) = None"
  by (simp_all add: clear_failures_def)

lemma counter_kept_clear [simp]: "counter_kept u (clear_failures u)"
  by (simp add: counter_kept_def)

text \<open>A sign-in with a password, case by case.\<close>

lemma login_cases:
  assumes "login_with_password env now dw rq address password db = (r, db')"
  obtains
    (limited) e where "r = Inl e" "db' = record_event ''rate_limit_exceeded'' (Some (normalize_email address)) db"
  | (refused) e where "r = Inl e" "au_users db' = au_users db" "au_sessions db' = au_sessions db" "au_identities db' = au_identities db"
      "au_attempts db' = au_attempts (snd (count_login_failure env now rq (Some (normalize_email address)) None db))"
  | (wrong) u e where "r = Inl e" "get_user_by_email (normalize_email address) False db = Some u" "\<not> is_locked now u"
      "\<not> au_is_active u \<or> \<not> has_password u \<or> \<not> verify_password env u password"
      "db' = record_event ''auth_login_failed'' (Some (normalize_email address))
         (record_failed_login_attempt env now (au_id u) ''invalid_credentials'' (Some (normalize_email address)) False
           (snd (count_login_failure env now rq (Some (normalize_email address)) None db)))"
  | (rolled) e where "r = Inl e" "db' = db"
  | (signed) u v a where "r = Inr a" "get_user_by_email (normalize_email address) False db = Some u" "\<not> is_locked now u"
      "EMAIL_AUTH_ENABLED (ve_settings env)" "au_is_active u" "has_password u" "verify_password env u password"
      "rr_allowed (get_login_failure_status (ve_rate env) now (request_ip env rq) (Some (normalize_email address)) None (au_attempts db))"
      "v = (if au_totp_enabled u then u else clear_failures u)"
      "issue_auth_response env now dw rq v (if au_totp_enabled u then ''auth_totp_challenge_created'' else ''auth_login_succeeded'')
         (au_totp_enabled u) (if au_default_workspace v = None then provisioned dw v (put_user v db) else put_user v db) = Inr (a, db')"
proof -
  define email where "email = normalize_email address"
  consider (no) e d where "enforce_login_failure_limit env now rq (Some email) None db = (Inl e, d)"
    | (yes) x d where "enforce_login_failure_limit env now rq (Some email) None db = (Inr x, d)"
    by (cases "enforce_login_failure_limit env now rq (Some email) None db") (metis sum.exhaust)
  then show ?thesis
  proof cases
    case no
    then have "r = Inl e \<and> db' = record_event ''rate_limit_exceeded'' (Some email) db"
      using assms limit_refused [OF no] by (simp add: login_with_password_def Let_def flip: email_def)
    then show ?thesis using limited [of e] by (simp add: email_def)
  next
    case yes
    have d: "d = db" by (rule limit_passed [OF yes])
    have allowed: "rr_allowed (get_login_failure_status (ve_rate env) now (request_ip env rq) (Some email) None (au_attempts db))"
      using yes by (auto simp: enforce_login_failure_limit_def raise_audited_login_rate_limit_def split: if_splits)
    show ?thesis
    proof (cases "get_user_by_email email False db")
      case None
      then show ?thesis using assms yes d refused
        by (auto simp: login_with_password_def Let_def login_failed_def simp flip: email_def split: if_splits)
    next
      case (Some u)
      then have "\<not> au_deleted u" by (auto dest!: email_user)
      then show ?thesis
        using assms yes d Some allowed refused wrong [of _ u] rolled signed [of _ u]
        by (auto simp: login_with_password_def Let_def login_failed_def commit_def simp flip: email_def
            split: if_splits sum.splits)
    qed
  qed
qed

lemma advance_same_tables:
  "auth_inv db \<Longrightarrow> au_users db' = au_users db \<Longrightarrow> au_sessions db' = au_sessions db \<Longrightarrow>
     au_identities db' = au_identities db \<Longrightarrow> advance D R db db'"
  by (simp add: advance_def auth_inv_def)

lemma advance_login [auth_moves]:
  assumes inv: "auth_inv db"
  shows "advance {ve_sha256 env (dw_token dw)} R db (snd (login_with_password env now dw rq address password db))"
proof -
  obtain r db' where res: "login_with_password env now dw rq address password db = (r, db')"
    by (cases "login_with_password env now dw rq address password db")
  from res have "advance {ve_sha256 env (dw_token dw)} R db db'"
  proof (cases rule: login_cases)
    case limited
    then show ?thesis using inv by (simp add: advance_refl)
  next
    case refused
    then show ?thesis using inv by (intro advance_same_tables)
  next
    case (wrong u)
    then show ?thesis using inv advance_failed_attempt [of "snd (count_login_failure env now rq (Some (normalize_email address)) None db)"]
      by simp
  next
    case rolled
    then show ?thesis using inv by (simp add: advance_refl)
  next
    case (signed u v)
    have u: "u \<in> set (au_users db)" using signed(2) by (blast dest: email_user)
    show ?thesis
      by (rule advance_signed_in [OF inv u _ _ _ _ signed(10)]) (use signed(9) user_ok_mem [OF inv u] in simp_all)
  qed
  with res show ?thesis by simp
qed

section \<open>The second factor\<close>

lemma verify_backup_user:
  "verify_backup_code env nonce u code = Inr (b, v) \<Longrightarrow> v = u\<lparr>au_backup_codes := au_backup_codes v\<rparr>"
  by (auto simp: verify_backup_code_def consume_backup_code_hash_def Let_def split: if_splits option.splits)

lemma update_where_one:
  assumes "distinct (map key U)" and "u \<in> set U" and "key (f u) = key u"
  shows "update_where (\<lambda>x. key x = key u \<and> Q x) f U = (if Q u then write_row key (f u) U else U)"
proof -
  have same: "x = u" if "x \<in> set U" "key x = key u" for x using that assms distinct_key_eq by metis
  have eq: "update_where (\<lambda>x. key x = key u \<and> Q x) f U = map (\<lambda>x. if key x = key u \<and> Q u then f u else x) U"
    unfolding update_where_def by (rule map_cong [OF refl]) (auto dest: same)
  show ?thesis unfolding eq using assms(3) by (cases "Q u") (simp_all add: update_where_def write_row_def)
qed

lemma factor_cases:
  assumes "auth_inv db" and "user \<in> set (au_users db)"
    and "verify_and_consume_login_second_factor env now nonce user token code (au_users db) = Inr (True, U)"
  obtains
    (totp) c where "or_string token [] \<noteq> []" "matching_totp_counter env now user (or_string token []) = Some c"
      "counter_unused c user" "U = write_row au_id (clear_failures (user\<lparr>au_last_counter := Some c\<rparr>)) (au_users db)"
  | (backup) v where "or_string code [] \<noteq> []" "verify_backup_code env nonce user (or_string code []) = Inr (True, v)"
      "U = write_row au_id (clear_failures v) (au_users db)"
proof (cases "if or_string token [] = [] then None else matching_totp_counter env now user (or_string token [])")
  case None
  then show ?thesis using assms(3) backup
    by (auto simp: verify_and_consume_login_second_factor_def bind_result_Inr split: if_splits)
next
  case (Some c)
  let ?f = "\<lambda>u. clear_failures (u\<lparr>au_last_counter := Some c\<rparr>)"
  let ?hit = "\<lambda>u. au_id u = au_id user \<and> counter_unused c u"
  have eq: "update_where ?hit ?f (au_users db) = (if counter_unused c user then write_row au_id (?f user) (au_users db) else au_users db)"
    by (rule update_where_one [OF auth_inv_users [OF assms(1)] assms(2)]) simp
  have "rowcount ?hit (au_users db) \<noteq> 0 \<Longrightarrow> counter_unused c user"
    using distinct_key_eq [OF auth_inv_users [OF assms(1)] _ assms(2)] by (auto simp: rowcount_0_iff)
  with assms(3) Some eq totp show ?thesis
    by (auto simp: verify_and_consume_login_second_factor_def split: if_splits)
qed

lemma factor_kept:
  assumes "auth_inv db" and "user \<in> set (au_users db)"
    and "verify_and_consume_login_second_factor env now nonce user token code (au_users db) = Inr (True, U)"
  obtains v where "U = write_row au_id v (au_users db)" "au_id v = au_id user" "au_email v = au_email user" "user_ok v"
    "counter_kept user v" "au_totp_enabled v = au_totp_enabled user"
  using assms(3)
proof (cases rule: factor_cases [OF assms, case_names totp backup])
  case (totp c)
  then have "counter_kept user (clear_failures (user\<lparr>au_last_counter := Some c\<rparr>))"
    by (auto simp: counter_unused_def counter_kept_def)
  with totp user_ok_mem [OF assms(1,2)] that show ?thesis by (simp add: user_ok_def)
next
  case (backup v)
  have v: "v = user\<lparr>au_backup_codes := au_backup_codes v\<rparr>" by (rule verify_backup_user [OF backup(2)])
  have "user_ok v" "counter_kept user v" "au_id v = au_id user" "au_email v = au_email user"
      "au_totp_enabled v = au_totp_enabled user"
    using user_ok_mem [OF assms(1,2)] by (subst v; simp add: user_ok_def counter_kept_def)+
  with backup that [of "clear_failures v"] show ?thesis by (auto simp: counter_kept_def)
qed

lemma partial_cases:
  assumes "find_partial env now token T = Some s"
  obtains h where "hash_token env token = Inr h" "h = ve_sha256 env token" "s \<in> set T" "se_token_hash s = h" "se_expires_at s > now"
    "\<not> se_twofa s" "\<not> se_deleted s"
  using assms by (auto simp: find_partial_def hash_token_def split: sum.splits if_splits dest!: find_SomeD)

lemma advance_upgrade [auth_moves]:
  assumes inv: "auth_inv db"
    and ok: "upgrade_partial_session env later fresh sid token (au_sessions db) = Inr (Some r, T)"
  shows "advance {ve_sha256 env fresh} R db (db\<lparr>au_sessions := T\<rparr>)"
proof -
  obtain s where s: "find_partial env later token (au_sessions db) = Some s"
    and new: "create_session env later fresh sid (se_user s) (se_ip s) (se_user_agent s) None True
      (write_row se_id (revoke s) (au_sessions db)) = Inr (r, T)"
    using ok by (auto simp: upgrade_partial_session_def bind_result_Inr split: option.splits)
  have mem: "s \<in> set (au_sessions db)" using s by (rule partial_cases)
  let ?db1 = "db\<lparr>au_sessions := write_row se_id (revoke s) (au_sessions db)\<rparr>"
  have one: "advance {} R db ?db1" by (rule write_revoked [OF inv mem])
  have "se_user s \<in> au_id ` set (au_users db)" using inv mem by (auto simp: auth_inv_def)
  then have two: "advance {ve_sha256 env fresh} R ?db1 (db\<lparr>au_sessions := T\<rparr>)"
    using advance_new_session [OF advance_inv [OF one], of env later fresh sid "se_user s"] new by simp
  have "write_row se_id (revoke s) (au_sessions db) = update_where (\<lambda>x. se_id x = se_id s) revoke (au_sessions db)"
    by (rule write_session [OF inv mem]) (simp_all add: revoke_def)
  then have "map se_token_hash (au_sessions ?db1) = map se_token_hash (au_sessions db)"
    by (simp add: sessions_update)
  then have "se_token_hash ` set (au_sessions ?db1) = se_token_hash ` set (au_sessions db)" by (metis set_map)
  with one two show ?thesis by (rule advance_then)
qed

text \<open>The verification of a second factor, case by case.\<close>

lemma verify_totp_cases:
  assumes "verify_totp env now later dw rq token code db = (r, db')"
  obtains
    (refused) e where "r = Inl e" "au_users db' = au_users db" "au_sessions db' = au_sessions db" "au_identities db' = au_identities db"
  | (wrong) e s u where "r = Inl e" "session_token_from_request rq = Some s" "u \<in> set (au_users db)"
      "db' = record_event ''auth_totp_failed'' (Some (au_email u))
         (record_failed_login_attempt env now (au_id u) ''invalid_totp'' (Some (au_email u)) True
           (snd (count_login_failure env now rq (Some (au_email u)) None db)))"
  | (verified) t p u U T x a where "r = Inr a" "session_token_from_request rq = Some t" "find_partial env now t (au_sessions db) = Some p"
      "row_by_id au_id (se_user p) (au_users db) = Some u" "\<not> au_deleted u" "au_is_active u"
      "rr_allowed (get_login_failure_status (ve_rate env) now (request_ip env rq) (Some (au_email u)) None (au_attempts db))"
      "verify_and_consume_login_second_factor env now (dw_nonce dw) u token code (au_users db) = Inr (True, U)"
      "upgrade_partial_session env later (dw_token dw) (dw_session_id dw) t (au_sessions db) = Inr (Some x, T)"
      "ay_session a = x" "ay_user a = Some (au_id u)"
      "au_users db' = U" "au_sessions db' = T" "au_identities db' = au_identities db" "au_attempts db' = au_attempts db"
proof -
  obtain x d0 where anon: "record_and_enforce_login_failure env now rq None (Some ''totp'') db = (x, d0)"
    by (cases "record_and_enforce_login_failure env now rq None (Some ''totp'') db")
  then have d0: "au_users d0 = au_users db" "au_sessions d0 = au_sessions db" "au_identities d0 = au_identities db"
    by (auto simp: record_and_enforce_login_failure_def raise_audited_login_rate_limit_def
        count_login_failure_def split: prod.splits if_splits)
  note def = assms [unfolded verify_totp_def Let_def]
  show thesis
  proof (cases "session_token_from_request rq")
    case None
    with def anon d0 refused show thesis by (auto split: sum.splits)
  next
    case (Some t)
    show thesis
    proof (cases "if t = [] then None else find_partial env now t (au_sessions db)")
      case None
      with def Some anon d0 refused show thesis by (auto split: if_splits sum.splits)
    next
      case p: (Some p)
      then have t: "t \<noteq> []" "find_partial env now t (au_sessions db) = Some p" by (auto split: if_splits)
      show thesis
      proof (cases "row_by_id au_id (se_user p) (au_users db)")
        case None
        with def Some t anon d0 refused show thesis by (auto split: sum.splits)
      next
        case u: (Some u)
        then have mem: "u \<in> set (au_users db)" by (auto dest: row_by_id_Some)
        show thesis
        proof (cases "au_deleted u \<or> \<not> au_is_active u")
          case True
          with def Some t u anon d0 refused show thesis by (auto split: sum.splits)
        next
          case False
          show thesis
          proof (cases "enforce_login_failure_limit env now rq (Some (au_email u)) None db")
            case lim: (Pair l db1)
            show thesis
            proof (cases l)
              case (Inl e)
              with lim have "db1 = record_event ''rate_limit_exceeded'' (Some (au_email u)) db" by (auto dest: limit_refused)
              with def Some t u False lim Inl refused [of e] show thesis by auto
            next
              case (Inr z)
              with lim have d: "db1 = db" and allowed: "rr_allowed (get_login_failure_status (ve_rate env) now (request_ip env rq)
                  (Some (au_email u)) None (au_attempts db))"
                by (auto dest: limit_passed simp: enforce_login_failure_limit_def raise_audited_login_rate_limit_def split: if_splits)
              show thesis
                using def Some t u False lim Inr d allowed mem refused wrong [of _ t u] verified [of _ t p u]
                by (auto simp: commit_def bind_result_def split: sum.splits bool.splits option.splits if_splits)
            qed
          qed
        qed
      qed
    qed
  qed
qed

lemma advance_verify_totp [auth_moves]:
  assumes inv: "auth_inv db"
  shows "advance {ve_sha256 env (dw_token dw)} R db (snd (verify_totp env now later dw rq token code db))"
proof -
  obtain r db' where res: "verify_totp env now later dw rq token code db = (r, db')"
    by (cases "verify_totp env now later dw rq token code db")
  from res have "advance {ve_sha256 env (dw_token dw)} R db db'"
  proof (cases rule: verify_totp_cases)
    case refused
    then show ?thesis using inv by (intro advance_same_tables)
  next
    case (wrong e s u)
    then show ?thesis using inv advance_failed_attempt [of "snd (count_login_failure env now rq (Some (au_email u)) None db)"]
      by simp
  next
    case (verified t p u U T x a)
    have u: "u \<in> set (au_users db)" using verified(4) by (auto dest: row_by_id_Some)
    obtain v where v: "U = write_row au_id v (au_users db)" "au_id v = au_id u" "au_email v = au_email u" "user_ok v" "counter_kept u v"
      by (rule factor_kept [OF inv u verified(8)])
    have one: "advance {} R db (put_user v db)" by (rule advance_put_user [OF inv u]) (use v in simp_all)
    have "advance {ve_sha256 env (dw_token dw)} R (put_user v db) ((put_user v db)\<lparr>au_sessions := T\<rparr>)"
      using advance_upgrade [OF advance_inv [OF one]] verified(9) by simp
    with one have "advance {ve_sha256 env (dw_token dw)} R db ((put_user v db)\<lparr>au_sessions := T\<rparr>)"
      by (rule advance_then) simp
    with verified v show ?thesis by (simp add: advance_def auth_inv_def)
  qed
  with res show ?thesis by simp
qed

end
