(* ===== verification/Auth_Changes.thy ===== *)
theory Auth_Changes
  imports Auth_Steps
begin

text \<open>
  The operations on accounts and identities advance the tables (continued from \<open>Auth_Steps\<close>): registration,
  passwords, the enrolment of the second factor, user management, and OAuth.
\<close>

section \<open>Accounts\<close>

lemma insert_user_tables:
  assumes "insert_user u db = Inr db'"
  shows "db' = db\<lparr>au_users := au_users db @ [u]\<rparr>" and "au_id u \<notin> au_id ` set (au_users db)"
    and "\<And>x. x \<in> set (au_users db) \<Longrightarrow> \<not> citext_eq (au_email x) (au_email u)"
  using assms by (auto simp: insert_user_def list_ex_iff split: if_splits)

lemma advance_new_account:
  assumes inv: "auth_inv db" and ins: "insert_user u db = Inr db1" and ok: "user_ok u"
  shows "advance {} R db (provisioned dw u db1)" and "au_id u \<in> au_id ` set (au_users (provisioned dw u db1))"
    and "au_sessions db1 = au_sessions db" and "au_identities db1 = au_identities db"
proof -
  note t = insert_user_tables(1) [OF ins]
  have one: "advance {} R db db1" by (rule advance_insert_user [OF inv ins ok])
  have two: "advance {} R db1 (provisioned dw u db1)"
    by (rule advance_provisioned [OF advance_inv [OF one]]) (simp add: t)
  show "advance {} R db (provisioned dw u db1)" by (rule advance_then [OF one two]) (simp add: t)
  show "au_id u \<in> au_id ` set (au_users (provisioned dw u db1))" "au_sessions db1 = au_sessions db"
    "au_identities db1 = au_identities db" by (simp_all add: t)
qed

lemma new_user_ok [simp]: "user_ok (new_user i m a)" "user_ok (set_password env salt p u) = user_ok u"
  by (simp_all add: new_user_def set_password_def user_ok_def)

lemma set_password_simps [simp]:
  "au_id (set_password env salt p u) = au_id u" "au_email (set_password env salt p u) = au_email u"
  "au_totp_enabled (set_password env salt p u) = au_totp_enabled u"
  "counter_kept u (set_password env salt p u)"
  by (simp_all add: set_password_def counter_kept_def)

lemma new_user_simps [simp]: "au_id (new_user i m a) = i" "au_email (new_user i m a) = m" "\<not> au_totp_enabled (new_user i m a)"
    "au_is_active (new_user i m a) = a" "\<not> au_deleted (new_user i m a)"
  by (simp_all add: new_user_def)

lemma register_cases:
  assumes "register_with_password env now dw rq address password invitation db = (r, db')"
  obtains (refused) e where "r = Inl e" "au_users db' = au_users db" "au_sessions db' = au_sessions db" "au_identities db' = au_identities db"
  | (registered) u db1 l a where "r = Inr a" "u = set_password env (dw_salt dw) password (new_user (dw_user_id dw) (normalize_email address) True)"
      "insert_user u db = Inr db1"
      "issue_auth_response env now dw rq u ''auth_register_succeeded'' False ((provisioned dw u db1)\<lparr>au_log := l\<rparr>) = Inr (a, db')"
proof -
  let ?u = "set_password env (dw_salt dw) password (new_user (dw_user_id dw) (normalize_email address) True)"
  show thesis
  proof (cases "insert_user ?u db")
    case (Inl e)
    then show thesis using assms refused
      by (auto simp: register_with_password_def Let_def split: if_splits sum.splits)
  next
    case (Inr db1)
    have "\<exists>l. (case if ALLOW_SIGNUP (ve_settings env) then None else invitation of
          None \<Rightarrow> record_audit ''create'' (au_id ?u) (provisioned dw ?u db1)
        | Some v \<Rightarrow> record_audit ''create'' (au_id ?u) (provisioned dw ?u db1)\<lparr>au_log :=
            au_log (record_audit ''create'' (au_id ?u) (provisioned dw ?u db1)) @ [InvitationAccepted v (au_id ?u)]\<rparr>) =
        (provisioned dw ?u db1)\<lparr>au_log := l\<rparr>"
      by (auto simp: record_audit_def split: option.splits)
    then obtain l where l: "(case if ALLOW_SIGNUP (ve_settings env) then None else invitation of
          None \<Rightarrow> record_audit ''create'' (au_id ?u) (provisioned dw ?u db1)
        | Some v \<Rightarrow> record_audit ''create'' (au_id ?u) (provisioned dw ?u db1)\<lparr>au_log :=
            au_log (record_audit ''create'' (au_id ?u) (provisioned dw ?u db1)) @ [InvitationAccepted v (au_id ?u)]\<rparr>) =
        (provisioned dw ?u db1)\<lparr>au_log := l\<rparr>" by blast
    from assms show thesis unfolding register_with_password_def Let_def Inr sum.case l
      using refused registered [OF _ refl Inr, of _ l]
      by (auto simp: commit_def split: if_splits sum.splits prod.splits)
  qed
qed

lemma advance_register [auth_moves]:
  assumes inv: "auth_inv db"
  shows "advance {ve_sha256 env (dw_token dw)} R db (snd (register_with_password env now dw rq address password invitation db))"
proof -
  obtain r db' where res: "register_with_password env now dw rq address password invitation db = (r, db')"
    by (cases "register_with_password env now dw rq address password invitation db")
  from res have "advance {ve_sha256 env (dw_token dw)} R db db'"
  proof (cases rule: register_cases)
    case refused
    then show ?thesis using inv by (intro advance_same_tables)
  next
    case (registered u db1 l a)
    have "user_ok u" using registered(2) by simp
    note new = advance_new_account [OF inv registered(3) this]
    have one: "advance {} R db ((provisioned dw u db1)\<lparr>au_log := l\<rparr>)" using new(1) by simp
    show ?thesis
      by (rule advance_then [OF one advance_issue [OF advance_inv [OF one] registered(4)]]) (use new in simp_all)
  qed
  with res show ?thesis by simp
qed

lemma advance_put_revoke:
  assumes inv: "auth_inv db" and u: "u \<in> set (au_users db)" and "au_id v = au_id u" "au_email v = au_email u" "user_ok v" "counter_kept u v"
  shows "advance D R db ((put_user v db)\<lparr>au_sessions := snd (revoke_user_sessions env i ex (au_sessions (put_user v db)))\<rparr>)"
proof -
  have one: "advance {} R db (put_user v db)" by (rule advance_put_user [OF inv u]) (use assms in simp_all)
  show ?thesis by (rule advance_then [OF one advance_revoke_user [OF advance_inv [OF one]]]) simp
qed

lemma advance_change_password [auth_moves]:
  assumes "auth_inv db" and "u \<in> set (au_users db)"
  shows "advance D R db (snd (change_password env dw rq u old new db))"
  using assms advance_put_revoke [OF assms, of "set_password env (dw_salt dw) new u" D R env "au_id u" "session_token_from_request rq"]
    user_ok_mem [OF assms]
  by (auto simp: change_password_def Let_def case_prod_beta advance_refl split: sum.splits)

lemma advance_setup_totp [auth_moves]:
  assumes inv: "auth_inv db" and u: "u \<in> set (au_users db)" and "au_id u \<in> R"
  shows "advance D R db (snd (setup_totp env now dw rq u password db))"
proof -
  have "advance D R db (put_user (generate_totp_secret env (dw_nonce dw) (dw_secret dw) u) db)" if "\<not> au_totp_enabled u"
    by (rule advance_put_user [OF inv u])
      (use that assms(3) user_ok_mem [OF inv u] in \<open>simp_all add: generate_totp_secret_def user_ok_def\<close>)
  then show ?thesis using inv by (auto simp: setup_totp_def Let_def advance_refl split: sum.splits)
qed

lemma get_secret_Some: "get_totp_secret env u = Inr (Some x) \<Longrightarrow> or_string (au_totp_secret u) [] \<noteq> []"
  by (auto simp: get_totp_secret_def split: if_splits)

lemma advance_enable_totp [auth_moves]:
  assumes inv: "auth_inv db" and u: "u \<in> set (au_users db)"
  shows "advance D R db (snd (enable_totp_service env now dw u grant token db))"
proof -
  have "advance D R db (put_user (generate_backup_codes env dw (enable_totp u)) db)" if "get_totp_secret env u = Inr (Some x)" for x
    by (rule advance_put_user [OF inv u])
      (use get_secret_Some [OF that] user_ok_mem [OF inv u] in \<open>simp_all add: generate_backup_codes_def
        store_backup_code_hashes_def enable_totp_def user_ok_def counter_kept_def\<close>)
  then show ?thesis using inv
    by (auto simp: enable_totp_service_def Let_def advance_refl split: sum.splits option.splits)
qed

lemma totp_or_backup_user:
  "verify_totp_or_backup env now nonce u token code = Inr (b, v) \<Longrightarrow> v = u\<lparr>au_backup_codes := au_backup_codes v\<rparr>"
  by (auto simp: verify_totp_or_backup_def split: if_splits dest: verify_backup_user)

lemma advance_disable_totp [auth_moves]:
  assumes inv: "auth_inv db" and u: "u \<in> set (au_users db)" and "au_id u \<in> R"
  shows "advance D R db (snd (disable_totp_service env now dw u token code db))"
proof -
  have "advance D R db (put_user (disable_totp v) db)" if "verify_totp_or_backup env now (dw_nonce dw) u token code = Inr (b, v)" for b v
  proof (rule advance_put_user [OF inv u])
    note v = totp_or_backup_user [OF that]
    show "au_id (disable_totp v) = au_id u" "au_email (disable_totp v) = au_email u" "user_ok (disable_totp v)"
      using user_ok_mem [OF inv u] by (subst v; simp add: disable_totp_def user_ok_def)+
  qed (use assms(3) in simp)
  then show ?thesis using inv
    by (auto simp: disable_totp_service_def advance_refl split: sum.splits bool.splits prod.splits)
qed

lemma account_or_raise: "get_account_or_raise i b db = Inr u \<Longrightarrow> u \<in> set (au_users db) \<and> au_id u = i"
  by (auto simp: get_account_or_raise_def split: option.splits dest!: find_SomeD)

lemma advance_create_user [auth_moves]:
  assumes inv: "auth_inv db"
  shows "advance D R db (snd (create_user env dw address password active db))"
proof -
  have "advance D R db (provisioned dw u db1)" if "insert_user u db = Inr db1" "user_ok u" for u db1
    using advance_new_account(1) [OF inv that] by (auto simp: advance_def sessions_from_def)
  then show ?thesis unfolding create_user_def
    by (intro advance_commit [OF inv]) (auto simp: bind_result_Inr Let_def split: sum.splits if_splits)
qed

lemma advance_set_user_password [auth_moves]:
  assumes inv: "auth_inv db"
  shows "advance D R db (snd (set_user_password env dw i password db))"
  unfolding set_user_password_def
proof (rule advance_commit [OF inv])
  fix n db'
  assume "bind_result (validate_password_strength password) (\<lambda>_. bind_result (get_account_or_raise i False db) (\<lambda>user.
      let db1 = put_user (set_password env (dw_salt dw) password user) db
      in case revoke_user_sessions env (au_id user) None (au_sessions db1) of
           (n, T) \<Rightarrow> Inr (n, record_audit ''update'' (au_id user) (db1\<lparr>au_sessions := T\<rparr>)))) = Inr (n, db')"
  then obtain u where u: "u \<in> set (au_users db)" and db': "db' = record_audit ''update'' (au_id u)
      ((put_user (set_password env (dw_salt dw) password u) db)\<lparr>au_sessions := snd (revoke_user_sessions env (au_id u) None
        (au_sessions (put_user (set_password env (dw_salt dw) password u) db)))\<rparr>)"
    by (auto simp: bind_result_Inr Let_def case_prod_beta dest!: account_or_raise)
  show "advance D R db db'" unfolding db' advance_audit
    by (rule advance_put_revoke [OF inv u]) (use user_ok_mem [OF inv u] in simp_all)
qed

lemma advance_update_active [auth_moves]:
  assumes inv: "auth_inv db"
  shows "advance D R db (snd (update_user_active env i active db))"
proof -
  have one: "advance D R db (put_user (u\<lparr>au_is_active := b\<rparr>) db)"
    and two: "advance D R db ((put_user (u\<lparr>au_is_active := b\<rparr>) db)\<lparr>au_sessions := snd (revoke_user_sessions env (au_id u) None
      (au_sessions (put_user (u\<lparr>au_is_active := b\<rparr>) db)))\<rparr>)" if "u \<in> set (au_users db)" for u b
    using user_ok_mem [OF inv that]
    by (intro advance_put_user [OF inv that] advance_put_revoke [OF inv that]; simp add: user_ok_def counter_kept_def)+
  show ?thesis
  proof (cases "get_account_or_raise i False db")
    case (Inl e)
    then show ?thesis using inv by (simp add: update_user_active_def commit_def advance_refl)
  next
    case (Inr u)
    then have "u \<in> set (au_users db)" by (blast dest: account_or_raise)
    with Inr one two inv show ?thesis
      by (simp add: update_user_active_def commit_def Let_def advance_refl split: option.splits)
  qed
qed

lemma revoke_user_hashes:
  "se_token_hash ` set (snd (revoke_user_sessions env i ex T)) = se_token_hash ` set T"
proof -
  have "map se_token_hash (snd (revoke_user_sessions env i ex T)) = map se_token_hash T"
    by (simp add: revoke_user_sessions_def Let_def sessions_update)
  then show ?thesis by (metis set_map)
qed

lemma advance_delete_account [auth_moves]:
  assumes inv: "auth_inv db"
  shows "advance D R db (snd (delete_user_account env actor i db))"
proof -
  have main: "advance D R db (d\<lparr>au_sessions := snd (revoke_user_sessions env (au_id u) None (au_sessions d)),
      au_identities := update_where (\<lambda>x. id_user x = au_id u \<and> \<not> id_deleted x) (\<lambda>x. x\<lparr>id_deleted := True\<rparr>) (au_identities d)\<rparr>)"
    if u: "u \<in> set (au_users db)" and d: "d = put_user (u\<lparr>au_is_active := False, au_deleted := True\<rparr>) db" for u d
  proof -
    have one: "advance {} R db (d\<lparr>au_sessions := snd (revoke_user_sessions env (au_id u) None (au_sessions d))\<rparr>)"
      unfolding d by (rule advance_put_revoke [OF inv u]) (use user_ok_mem [OF inv u] in \<open>simp_all add: user_ok_def counter_kept_def\<close>)
    have "advance D R (d\<lparr>au_sessions := snd (revoke_user_sessions env (au_id u) None (au_sessions d))\<rparr>)
      (d\<lparr>au_sessions := snd (revoke_user_sessions env (au_id u) None (au_sessions d)),
      au_identities := update_where (\<lambda>x. id_user x = au_id u \<and> \<not> id_deleted x) (\<lambda>x. x\<lparr>id_deleted := True\<rparr>) (au_identities d)\<rparr>)"
      using advance_identities [OF advance_inv [OF one], of "\<lambda>x. x\<lparr>id_deleted := True\<rparr>"] by (simp add: identity_after_def)
    with one show ?thesis
      by (rule advance_then) (simp add: d revoke_user_hashes)
  qed
  show ?thesis
  proof (cases "get_account_or_raise i False db")
    case (Inl e)
    then show ?thesis using inv by (simp add: delete_user_account_def commit_def advance_refl)
  next
    case (Inr u)
    then have "u \<in> set (au_users db)" by (blast dest: account_or_raise)
    note kept = main [OF this refl]
    show ?thesis
    proof (cases "actor = i")
      case True
      then show ?thesis using inv by (simp add: delete_user_account_def commit_def advance_refl)
    next
      case False
      then show ?thesis unfolding delete_user_account_def Let_def Inr
        by (simp only: if_False bind_result_simps commit_def sum.case prod.case snd_conv advance_audit) (rule kept)
    qed
  qed
qed

section \<open>OAuth\<close>

lemma advance_oauth_failed [auth_moves]:
  "auth_inv db \<Longrightarrow> advance D R db (snd (oauth_failed env now rq m e db))"
  by (auto simp: oauth_failed_def record_and_enforce_login_failure_def raise_audited_login_rate_limit_def case_prod_beta advance_refl
    split: option.splits)

lemma oauth_failed_tables:
  "au_users (snd (oauth_failed env now rq m e db)) = au_users db"
  "au_sessions (snd (oauth_failed env now rq m e db)) = au_sessions db"
  "au_identities (snd (oauth_failed env now rq m e db)) = au_identities db"
  "\<exists>e'. fst (oauth_failed env now rq m e db) = Inl e'"
  by (auto simp: oauth_failed_def record_and_enforce_login_failure_def raise_audited_login_rate_limit_def case_prod_beta
    split: option.splits)

text \<open>The account of an identity: the linked one, or a new one with an address of its own.\<close>

lemma upsert_cases:
  assumes "auth_inv db" and "upsert_oauth_user env dw invited provider profile db = Inr (u, db')"
  obtains
    (linked) x subject where "provider_user_id_from_profile provider profile = Some subject" "x \<in> set (au_identities db)"
      "identity_is provider subject x" "id_user x = au_id u" "u \<in> set (au_users db)" "\<not> au_deleted u" "au_is_active u"
      "au_users db' = au_users db" "au_sessions db' = au_sessions db" "\<exists>f. (\<forall>y. identity_after y (f y)) \<and> au_identities db' = update_where (identity_is provider subject) f (au_identities db)"
  | (created) subject email db1 v l where "provider_user_id_from_profile provider profile = Some subject"
      "provider_email provider profile = Some email" "\<forall>x \<in> set (au_identities db). \<not> identity_is provider subject x"
      "v = new_user (dw_user_id dw) email True" "insert_user v db = Inr db1" "u = v\<lparr>au_default_workspace := Some (dw_workspace_id dw)\<rparr>"
      "insert_identity \<lparr>id_user = au_id u, id_provider = provider, id_subject = subject, id_email = email,
         id_verified = provider_email_verified provider profile, id_deleted = False\<rparr> (record_audit ''create'' (au_id u) (provisioned dw v db1)) = Inr (db'\<lparr>au_log := l\<rparr>)"
proof -
  define subject where "subject = or_string (provider_user_id_from_profile provider profile) []"
  define email where "email = or_string (provider_email provider profile) []"
  define entry where "entry = find (identity_is provider subject) (au_identities db)"
  have s: "subject \<noteq> []" "email \<noteq> []"
    using assms(2) by (auto simp: upsert_oauth_user_def subject_def email_def split: if_splits)
  then have sub: "provider_user_id_from_profile provider profile = Some subject" "provider_email provider profile = Some email"
    by (auto simp: subject_def email_def or_string_def split: option.splits if_splits)
  show thesis
  proof (cases entry)
    case None
    then obtain v db1 db2 where v: "v = new_user (dw_user_id dw) email True" "insert_user v db = Inr db1"
      "u = v\<lparr>au_default_workspace := Some (dw_workspace_id dw)\<rparr>"
      "insert_identity \<lparr>id_user = au_id u, id_provider = provider, id_subject = subject, id_email = email,
         id_verified = provider_email_verified provider profile, id_deleted = False\<rparr> (record_audit ''create'' (au_id v) (provisioned dw v db1)) = Inr db2"
      "db' = record_audit ''create'' (au_id u) db2"
      using assms(2) s
      by (auto simp: upsert_oauth_user_def oauth_new_user_def bind_result_Inr Let_def entry_def
          simp flip: subject_def email_def split: if_splits)
    then have "db'\<lparr>au_log := au_log db2\<rparr> = db2" by (simp add: record_audit_def)
    with None v sub show thesis
      by (intro created [of subject email v db1 "au_log db2"]) (auto simp: entry_def find_None_iff)
  next
    case (Some x)
    then have x: "x \<in> set (au_identities db)" "identity_is provider subject x" by (auto simp: entry_def dest!: find_SomeD)
    then have "id_user x \<in> au_id ` set (au_users db)" using assms(1) by (auto simp: auth_inv_def)
    then obtain w where w: "row_by_id au_id (id_user x) (au_users db) = Some w"
      using row_by_id_None [of au_id "id_user x" "au_users db"] by (cases "row_by_id au_id (id_user x) (au_users db)") auto
    have "u = w" "\<not> au_deleted w" "au_is_active w" "db' = record_audit ''update'' (au_id w) (db\<lparr>au_identities :=
        update_where (identity_is provider subject) (\<lambda>x. x\<lparr>id_email := email,
          id_verified := provider_email_verified provider profile\<rparr>) (au_identities db)\<rparr>)"
      using assms(2) s w Some
      by (auto simp: upsert_oauth_user_def Let_def entry_def simp flip: subject_def email_def split: if_splits)
    moreover have "identity_after y (y\<lparr>id_email := email, id_verified := b\<rparr>)" for y b by (simp add: identity_after_def)
    ultimately show thesis using w x sub
      by (intro linked [of subject x]) (auto dest!: row_by_id_Some intro!: exI conjI)
  qed
qed

lemma advance_upsert [auth_moves]:
  assumes inv: "auth_inv db" and ok: "upsert_oauth_user env dw invited provider profile db = Inr (u, db')"
  shows "advance {} R db db' \<and> au_id u \<in> au_id ` set (au_users db') \<and> au_sessions db' = au_sessions db"
  using ok
proof (cases rule: upsert_cases [OF inv ok, case_names linked created])
  case (linked x subject)
  then obtain f where f: "\<And>y. identity_after y (f y)" "au_identities db' = update_where (identity_is provider subject) f (au_identities db)"
    by blast
  have "advance {} R db (db\<lparr>au_identities := update_where (identity_is provider subject) f (au_identities db)\<rparr>)"
    by (rule advance_identities [OF inv f(1)])
  then have "advance {} R db db'" using linked f by (simp add: advance_def auth_inv_def)
  with linked show ?thesis by simp
next
  case (created subject email db1 v l)
  have v: "user_ok v" using created(4) by simp
  note new = advance_new_account [OF inv created(5) v]
  let ?d = "record_audit ''create'' (au_id u) (provisioned dw v db1)"
  have one: "advance {} R db ?d" using new(1) by simp
  have same: "au_id u = au_id v" using created(6) by simp
  have two: "advance {} R ?d (db'\<lparr>au_log := l\<rparr>)"
    by (rule advance_insert_identity [OF advance_inv [OF one] created(7)]) (use new(2) same in simp)
  have "advance {} R db (db'\<lparr>au_log := l\<rparr>)" by (rule advance_then [OF one two]) (use new in simp)
  then have adv: "advance {} R db db'" by simp
  obtain I where ins: "?d\<lparr>au_identities := I\<rparr> = db'\<lparr>au_log := l\<rparr>"
    using created(7) by (auto simp: insert_identity_def split: if_splits)
  have "au_users db' = au_users ?d" "au_sessions db' = au_sessions ?d"
    using arg_cong [OF ins, of au_users] arg_cong [OF ins, of au_sessions] by simp_all
  with new same adv show ?thesis by simp
qed

lemma advance_oauth_sign_in:
  assumes inv: "auth_inv before" and up: "advance {} R before db" "au_id user \<in> au_id ` set (au_users db)"
    "au_sessions db = au_sessions before"
  shows "advance {ve_sha256 env (dw_token dw)} R before (snd (oauth_sign_in env now dw rq user before db))"
proof (cases "enforce_login_failure_limit env now rq (Some (au_email user)) None before")
  case (Pair l before')
  show ?thesis
  proof (cases l)
    case (Inl e)
    then have "before' = record_event ''rate_limit_exceeded'' (Some (au_email user)) before"
      using Pair by (auto dest: limit_refused)
    then show ?thesis using Pair Inl inv by (simp add: oauth_sign_in_def advance_refl)
  next
    case (Inr x)
    have "advance {ve_sha256 env (dw_token dw)} R before db'"
      if "issue_auth_response env now dw rq user ev b db = Inr (r, db')" for ev b r db'
      by (rule advance_then [OF up(1) advance_issue [OF advance_inv [OF up(1)] that up(2)]]) (simp add: up(3))
    then have "advance {ve_sha256 env (dw_token dw)} R before (snd (commit before (issue_auth_response env now dw rq user ev b db)))" for ev b
      by (intro advance_commit [OF inv])
    then show ?thesis using Pair Inr inv by (simp add: oauth_sign_in_def advance_refl)
  qed
qed

lemma advance_oauth_login [auth_moves]:
  assumes inv: "auth_inv db"
  shows "advance {ve_sha256 env (dw_token dw)} R db (snd (complete_oauth_login env now dw invited rq c db))"
proof -
  have signed: "advance {ve_sha256 env (dw_token dw)} R db (snd (oauth_sign_in env now dw rq u db d))"
    if "upsert_oauth_user env dw invited (oauth_provider_name c) profile db = Inr (u, d)" for u d profile
  proof -
    have "advance {} R db d \<and> au_id u \<in> au_id ` set (au_users d) \<and> au_sessions d = au_sessions db"
      by (rule advance_upsert [OF inv that])
    then show ?thesis by (blast intro: advance_oauth_sign_in [OF inv])
  qed
  have limit: "advance {ve_sha256 env (dw_token dw)} R db d"
    if "enforce_login_failure_limit env now rq m None db = (Inl e, d)" for m e d
    using limit_refused [OF that] inv by (simp add: advance_refl)
  show ?thesis using inv
    by (auto simp: complete_oauth_login_def Let_def advance_oauth_failed split: sum.splits option.splits prod.splits
      intro: signed limit)
qed

lemma advance_oauth_link [auth_moves]:
  assumes inv: "auth_inv db" and u: "u \<in> set (au_users db)"
  shows "advance D R db (snd (complete_oauth_link env now u c db))"
proof -
  have ins: "advance D R db d"
    if "insert_identity \<lparr>id_user = au_id u, id_provider = p, id_subject = s, id_email = m, id_verified = b, id_deleted = False\<rparr> db = Inr d"
    for p s m b d
    by (rule advance_insert_identity [OF inv that]) (use u in simp)
  have upd: "advance D R db (db\<lparr>au_identities := update_where P (\<lambda>y. y\<lparr>id_email := m, id_verified := b\<rparr>) (au_identities db)\<rparr>)"
    for P m b
    by (rule advance_identities [OF inv]) (simp add: identity_after_def)
  show ?thesis
    unfolding complete_oauth_link_def Let_def
    by (auto simp: advance_refl inv upd bind_result_Inr commit_def split: sum.splits option.splits if_splits dest: ins)
qed

lemma advance_unlink [auth_moves]:
  assumes inv: "auth_inv db"
  shows "advance D R db (snd (unlink_oauth_provider u p db))"
proof -
  have upd: "advance D R db (db\<lparr>au_identities := update_where P (\<lambda>x. x\<lparr>id_deleted := True\<rparr>) (au_identities db)\<rparr>)" for P
    by (rule advance_identities [OF inv]) (simp add: identity_after_def)
  show ?thesis by (simp add: unlink_oauth_provider_def Let_def commit_def advance_refl inv upd)
qed

section \<open>The user of a request\<close>

lemma advance_authenticate [auth_moves]:
  "auth_inv db \<Longrightarrow> advance D R db (snd (authenticate env now unlocked run_ok token db))"
  using advance_touch [of db D R env now unlocked "the token" True True]
  by (auto simp: authenticate_def advance_refl split: option.splits prod.splits)

lemma authenticate_user:
  assumes "authenticate env now unlocked run_ok token db = (Some u, db')"
  shows "u \<in> set (au_users db)" and "au_users db' = au_users db" and "au_identities db' = au_identities db"
proof -
  have "u \<in> set (au_users db) \<and> au_users db' = au_users db \<and> au_identities db' = au_identities db"
    using assms
    by (auto simp: authenticate_def jwt_session_user_def validate_session_def split: option.splits if_splits sum.splits
      elim!: valid_session_cases dest!: row_by_id_Some find_SomeD)
  then show "u \<in> set (au_users db)" "au_users db' = au_users db" "au_identities db' = au_identities db" by auto
qed

end
