(* ===== verification/Auth_System.thy ===== *)
theory Auth_System
  imports Auth_Changes
begin

text \<open>
  The accounts as a system of events: requests that sign in or out, requests of a signed-in user, and the
  clean-up of the sessions. The tables keep their invariant along every run, and a session that was
  revoked is out of the system: the interpretations of \<open>invariant_system\<close> and \<open>fenced_store\<close>.
\<close>

section \<open>Events\<close>

text \<open>What a signed-in user can ask for; the last four need a super admin.\<close>

datatype auth_action =
    ChangePassword auth_draws string string
  | SetupTotp timestamp auth_draws "string option"
  | EnableTotp timestamp auth_draws string string
  | DisableTotp timestamp auth_draws "string option" "string option"
  | LinkOauth timestamp oauth_call
  | UnlinkOauth string
  | RefreshSession timestamp
  | RevokeSession uuid
  | RevokeSessions bool
  | CreateUser auth_draws string "string option" bool
  | SetUserPassword auth_draws uuid string
  | UpdateActive uuid "bool option"
  | DeleteUser uuid

datatype auth_event =
    Login timestamp auth_draws auth_request string string
  | VerifyTotp timestamp timestamp auth_draws auth_request "string option" "string option"
  | OauthLogin timestamp auth_draws "string \<Rightarrow> bool" auth_request oauth_call
  | Register timestamp auth_draws auth_request string string "uuid option"
  | Logout timestamp bool "pydict \<Rightarrow> bool" auth_request
  | Signed timestamp bool "pydict \<Rightarrow> bool" auth_request auth_action
  | CleanupExpired timestamp
  | CleanupOld timestamp int bool
  | CleanupInactive timestamp int bool

text \<open>Whether an action returns, and the tables after it.\<close>

definition outcome :: "(app_error + 'a) \<times> auth_db \<Rightarrow> bool \<times> auth_db" where
  "outcome r = (\<not> isl (fst r), snd r)"

definition require_super_admin :: "auth_env \<Rightarrow> auth_user \<Rightarrow> bool \<times> auth_db \<Rightarrow> auth_db \<Rightarrow> bool \<times> auth_db" where
  "require_super_admin env user r db = (if is_super_admin_email env (au_email user) then r else (False, db))"

fun perform :: "auth_env \<Rightarrow> auth_request \<Rightarrow> auth_user \<Rightarrow> auth_db \<Rightarrow> auth_action \<Rightarrow> bool \<times> auth_db" where
  "perform env rq u db (ChangePassword dw old new) = outcome (change_password env dw rq u old new db)"
| "perform env rq u db (SetupTotp now dw password) = outcome (setup_totp env now dw rq u password db)"
| "perform env rq u db (EnableTotp now dw grant token) = outcome (enable_totp_service env now dw u grant token db)"
| "perform env rq u db (DisableTotp now dw token code) = outcome (disable_totp_service env now dw u token code db)"
| "perform env rq u db (LinkOauth now c) = outcome (complete_oauth_link env now u c db)"
| "perform env rq u db (UnlinkOauth provider) = outcome (unlink_oauth_provider u provider db)"
| "perform env rq u db (RefreshSession now) = outcome (refresh_session env now rq u db)"
| "perform env rq u db (RevokeSession i) = outcome (revoke_session_by_id u i db)"
| "perform env rq u db (RevokeSessions keep) = (True, snd (revoke_sessions env rq u keep db))"
| "perform env rq u db (CreateUser dw address password active) =
     require_super_admin env u (outcome (create_user env dw address password active db)) db"
| "perform env rq u db (SetUserPassword dw i password) =
     require_super_admin env u (outcome (set_user_password env dw i password db)) db"
| "perform env rq u db (UpdateActive i active) =
     require_super_admin env u (outcome (update_user_active env i active db)) db"
| "perform env rq u db (DeleteUser i) =
     require_super_admin env u (outcome (delete_user_account env (au_id u) i db)) db"

text \<open>
  A request that raises keeps what was recorded on its own; the touch of its session is rolled back with it.
\<close>

definition signed_request ::
    "auth_env \<Rightarrow> timestamp \<Rightarrow> bool \<Rightarrow> (pydict \<Rightarrow> bool) \<Rightarrow> auth_request \<Rightarrow> auth_action \<Rightarrow> auth_db \<Rightarrow> auth_db" where
  "signed_request env now unlocked run_ok rq act db =
     (case authenticate env now unlocked run_ok (auth_token rq) db of
        (None, _) \<Rightarrow> db
      | (Some u, db1) \<Rightarrow>
          (case perform env rq u db1 act of
             (True, db2) \<Rightarrow> db2
           | (False, db2) \<Rightarrow> db2\<lparr>au_sessions := au_sessions db\<rparr>))"

fun auth_step :: "auth_env \<Rightarrow> auth_db \<Rightarrow> auth_event \<Rightarrow> auth_db" where
  "auth_step env db (Login now dw rq address password) = snd (login_with_password env now dw rq address password db)"
| "auth_step env db (VerifyTotp now later dw rq token code) = snd (verify_totp env now later dw rq token code db)"
| "auth_step env db (OauthLogin now dw invited rq c) = snd (complete_oauth_login env now dw invited rq c db)"
| "auth_step env db (Register now dw rq address password invitation) =
     snd (register_with_password env now dw rq address password invitation db)"
| "auth_step env db (Logout now unlocked run_ok rq) =
     (case authenticate env now unlocked run_ok (auth_token rq) db of (u, db1) \<Rightarrow> logout env rq u db1)"
| "auth_step env db (Signed now unlocked run_ok rq act) = signed_request env now unlocked run_ok rq act db"
| "auth_step env db (CleanupExpired now) = db\<lparr>au_sessions := snd (cleanup_expired_sessions now (au_sessions db))\<rparr>"
| "auth_step env db (CleanupOld now days keep) = db\<lparr>au_sessions := snd (cleanup_old_sessions now days keep (au_sessions db))\<rparr>"
| "auth_step env db (CleanupInactive now days keep) =
     db\<lparr>au_sessions := snd (cleanup_inactive_sessions now days keep (au_sessions db))\<rparr>"

section \<open>Every event advances the tables\<close>

text \<open>The token hashes that an event draws, and the users whose second factor it may reset.\<close>

fun drawn :: "auth_env \<Rightarrow> auth_event \<Rightarrow> string set" where
  "drawn env (Login now dw rq address password) = {ve_sha256 env (dw_token dw)}"
| "drawn env (VerifyTotp now later dw rq token code) = {ve_sha256 env (dw_token dw)}"
| "drawn env (OauthLogin now dw invited rq c) = {ve_sha256 env (dw_token dw)}"
| "drawn env (Register now dw rq address password invitation) = {ve_sha256 env (dw_token dw)}"
| "drawn env _ = {}"

fun resets :: "auth_env \<Rightarrow> auth_db \<Rightarrow> auth_event \<Rightarrow> uuid set" where
  "resets env db (Signed now unlocked run_ok rq act) =
     (case fst (authenticate env now unlocked run_ok (auth_token rq) db) of
        None \<Rightarrow> {}
      | Some u \<Rightarrow> (case act of SetupTotp _ _ _ \<Rightarrow> {au_id u} | DisableTotp _ _ _ _ \<Rightarrow> {au_id u} | _ \<Rightarrow> {}))"
| "resets env db _ = {}"

lemma outcome_snd [simp]: "snd (outcome r) = snd r"
  by (simp add: outcome_def)

lemma advance_perform:
  assumes inv: "auth_inv db" and u: "u \<in> set (au_users db)"
    and "case act of SetupTotp _ _ _ \<Rightarrow> au_id u \<in> R | DisableTotp _ _ _ _ \<Rightarrow> au_id u \<in> R | _ \<Rightarrow> True"
  shows "advance {} R db (snd (perform env rq u db act))"
  using assms
  by (cases act) (simp_all add: require_super_admin_def advance_refl auth_moves)

lemma advance_rollback:
  assumes "auth_inv db" and "advance D R db d"
  shows "advance {} R db (d\<lparr>au_sessions := au_sessions db\<rparr>)"
proof -
  have "\<forall>u \<in> set (au_users db). \<exists>v \<in> set (au_users d). au_id v = au_id u"
    using assms(2) unfolding advance_def users_from_def user_after_def by blast
  then have "au_id u \<in> au_id ` set (au_users d)" if "u \<in> set (au_users db)" for u
    using that by (auto simp: image_iff) metis
  then have "\<forall>s \<in> set (au_sessions db). se_user s \<in> au_id ` set (au_users d)"
    using assms(1) by (auto simp: auth_inv_def)
  then show ?thesis using assms by (simp add: advance_def auth_inv_def)
qed

lemma touched_hashes:
  "se_token_hash ` set (au_sessions (snd (authenticate env now unlocked run_ok token db))) = se_token_hash ` set (au_sessions db)"
proof -
  have "map se_token_hash (au_sessions (snd (authenticate env now unlocked run_ok token db))) = map se_token_hash (au_sessions db)"
    by (auto simp: authenticate_def validate_session_def update_where_def split: option.splits prod.splits)
  then show ?thesis by (metis set_map)
qed

lemma advance_signed:
  assumes inv: "auth_inv db"
  shows "advance {} (resets env db (Signed now unlocked run_ok rq act)) db (signed_request env now unlocked run_ok rq act db)"
proof (cases "authenticate env now unlocked run_ok (auth_token rq) db")
  case (Pair w db1)
  show ?thesis
  proof (cases w)
    case None
    then show ?thesis using Pair inv by (simp add: signed_request_def advance_refl)
  next
    case (Some u)
    let ?R = "resets env db (Signed now unlocked run_ok rq act)"
    have one: "advance {} ?R db db1" using advance_authenticate [OF inv, of "{}" ?R env now unlocked run_ok "auth_token rq"] Pair by simp
    have u: "u \<in> set (au_users db1)" using authenticate_user [of env now unlocked run_ok "auth_token rq" db u db1] Pair Some by simp
    have R: "case act of SetupTotp _ _ _ \<Rightarrow> au_id u \<in> ?R | DisableTotp _ _ _ _ \<Rightarrow> au_id u \<in> ?R | _ \<Rightarrow> True"
      using Pair Some by (simp split: auth_action.splits)
    have "advance {} ?R db (snd (perform env rq u db1 act))"
      by (rule advance_then [OF one advance_perform [OF advance_inv [OF one] u R]])
        (use touched_hashes [of env now unlocked run_ok "auth_token rq" db] Pair in simp)
    then show ?thesis using Pair Some advance_rollback [OF inv]
      by (auto simp: signed_request_def split: prod.splits bool.splits)
  qed
qed

lemma advance_step:
  assumes inv: "auth_inv db"
  shows "advance (drawn env e) (resets env db e) db (auth_step env db e)"
proof (cases e)
  case (Signed now unlocked run_ok rq act)
  then show ?thesis using advance_signed [OF inv] by simp
next
  case (Logout now unlocked run_ok rq)
  have one: "advance {} {} db (snd (authenticate env now unlocked run_ok (auth_token rq) db))"
    by (rule advance_authenticate [OF inv])
  have "advance {} {} db (logout env rq u (snd (authenticate env now unlocked run_ok (auth_token rq) db)))" for u
    by (rule advance_then [OF one advance_logout [OF advance_inv [OF one]] touched_hashes])
  with Logout show ?thesis by (simp add: case_prod_beta)
qed (simp_all add: inv auth_moves)

lemma auth_step_inv: "auth_inv db \<Longrightarrow> auth_inv (auth_step env db e)"
  by (rule advance_inv [OF advance_step])

interpretation auth_system: invariant_system "auth_step env" auth_inv for env
  by unfold_locales (rule auth_step_inv)

section \<open>Fencing by live sessions\<close>

text \<open>
  The resource is the hash of a session token, and the session is held while its row is verified and
  not revoked. A request of a signed-in user acts by the session of its token, unless the token is an
  internal one.
\<close>

definition session_live :: "auth_session \<Rightarrow> bool" where
  "session_live s \<longleftrightarrow> se_twofa s \<and> \<not> se_deleted s"

definition live_hash :: "auth_db \<Rightarrow> string \<Rightarrow> string option" where
  "live_hash db h = (if \<exists>s \<in> set (au_sessions db). se_token_hash s = h \<and> session_live s then Some h else None)"

fun acts_by :: "auth_env \<Rightarrow> auth_event \<Rightarrow> string \<Rightarrow> string \<Rightarrow> bool" where
  "acts_by env (Signed now unlocked run_ok rq act) w k \<longleftrightarrow> w = k \<and>
     (\<exists>t. auth_token rq = Some t \<and> ve_sha256 env t = k \<and> isl (jwt_decode env now t))"
| "acts_by env _ w k \<longleftrightarrow> False"

lemma dead_session:
  assumes "live_hash db (ve_sha256 env t) = None"
  shows "get_valid_session env now t True db = None"
proof (rule ccontr)
  assume "get_valid_session env now t True db \<noteq> None"
  then obtain s u where "get_valid_session env now t True db = Some (s, u)" by auto
  then show False using assms by (auto simp: live_hash_def session_live_def split: if_splits elim!: valid_session_cases)
qed

lemma dead_token:
  assumes "live_hash db (ve_sha256 env t) = None" and "isl (jwt_decode env now t)"
  shows "authenticate env now unlocked run_ok (Some t) db = (None, db)"
  using dead_session [OF assms(1)] assms(2)
  by (auto simp: authenticate_def validate_session_def jwt_session_user_def isl_def split: sum.splits)

lemma live_advance:
  assumes "advance D R db db'" and "h \<notin> D" and "live_hash db h = None"
  shows "live_hash db' h = None"
proof -
  have False if t: "t \<in> set (au_sessions db')" "se_token_hash t = h" "session_live t" for t
  proof -
    from assms(1) t(1) consider (old) s where "s \<in> set (au_sessions db)" "session_after s t" | (new) "se_token_hash t \<in> D"
      unfolding advance_def sessions_from_def by blast
    then show False
      by cases (use assms(2,3) t in \<open>auto simp: live_hash_def session_live_def session_after_def split: if_splits\<close>)
  qed
  then show ?thesis by (auto simp: live_hash_def)
qed

lemma live_hash_ne: "live_hash db k \<noteq> Some w \<longleftrightarrow> live_hash db k = None \<or> w \<noteq> k"
  by (auto simp: live_hash_def)

interpretation session_fencing: fenced_store "auth_step env" auth_inv live_hash "acts_by env" "\<lambda>e w. w \<in> drawn env e" for env
proof unfold_locales
  show "auth_step env db e = db" if "auth_inv db" and "acts_by env e w k" and "live_hash db k \<noteq> Some w" for db e w k
    using that dead_token by (cases e) (auto simp: live_hash_ne signed_request_def)
  show "live_hash (auth_step env db e) k \<noteq> Some w"
    if "auth_inv db" and "w \<notin> drawn env e" and "live_hash db k \<noteq> Some w" for db e w k
    using that live_advance [OF advance_step [OF that(1)]] by (auto simp: live_hash_ne)
qed

end
