(* ===== verification/Auth_Guarantees.thy ===== *)
theory Auth_Guarantees
  imports Auth_System
begin

text \<open>
  What the events guarantee, as lemmas: where verified sessions come from, that a used code is not accepted
  again, how the session operations act on the map of live sessions, how backup codes are used up, and
  whom a sign-in with a provider signs in.
\<close>

section \<open>Where verified sessions come from\<close>

lemma issued_session:
  assumes "issue_auth_response env now dw rq user ev b db = Inr (a, db')" and "t \<in> set (au_sessions db')"
    and "se_token_hash t \<notin> se_token_hash ` set (au_sessions db)"
  shows "se_user t = au_id user \<and> (se_twofa t \<longleftrightarrow> \<not> b)"
  using assms
  by (auto simp: issue_auth_response_def create_partial_session_def bind_result_Inr Let_def elim!: create_session_cases split: if_splits)

lemma login_session:
  assumes inv: "auth_inv db" and u: "u \<in> set (au_users db)" "au_totp_enabled u"
    and t: "t \<in> set (au_sessions (snd (login_with_password env now dw rq address password db)))"
      "se_token_hash t \<notin> se_token_hash ` set (au_sessions db)" "se_user t = au_id u"
  shows "\<not> se_twofa t"
proof -
  obtain r db' where res: "login_with_password env now dw rq address password db = (r, db')"
    by (cases "login_with_password env now dw rq address password db")
  have new: "au_sessions db' \<noteq> au_sessions db" using t(1,2) res by auto
  from res show ?thesis
  proof (cases rule: login_cases)
    case (wrong w e)
    have "advance {} {} (snd (count_login_failure env now rq (Some (normalize_email address)) None db)) db'"
      using wrong(5) inv advance_failed_attempt [of "snd (count_login_failure env now rq (Some (normalize_email address)) None db)"] by simp
    then have "advance {} {} db db'" by simp
    then show ?thesis using t res by (auto simp: advance_def sessions_from_def session_after_def)
  next
    case (signed w v a)
    let ?d = "if au_default_workspace v = None then provisioned dw v (put_user v db) else put_user v db"
    have "au_sessions ?d = au_sessions db" by simp
    then have s: "se_user t = au_id v" "se_twofa t \<longleftrightarrow> \<not> au_totp_enabled w"
      using issued_session [OF signed(10), of t] t res by simp_all
    have w: "w \<in> set (au_users db)" using signed(2) by (blast dest: email_user)
    have "au_id v = au_id w" using signed(9) by simp
    then have "au_id w = au_id u" using s(1) t(3) by simp
    then have "w = u" by (rule distinct_key_eq [OF auth_inv_users [OF inv] w u(1)])
    with s(2) u(2) show ?thesis by simp
  next
    case limited
    then show ?thesis using new by simp
  next
    case refused
    then show ?thesis using new by simp
  next
    case rolled
    then show ?thesis using new by simp
  qed
qed

lemma register_session:
  assumes "t \<in> set (au_sessions (snd (register_with_password env now dw rq address password invitation db)))"
      "se_token_hash t \<notin> se_token_hash ` set (au_sessions db)" 
  shows "se_user t \<notin> au_id ` set (au_users db)"
proof -
  obtain r db' where res: "register_with_password env now dw rq address password invitation db = (r, db')"
    by (cases "register_with_password env now dw rq address password invitation db")
  from res show ?thesis
  proof (cases rule: register_cases)
    case (registered u db1 l a)
    have "au_sessions ((provisioned dw u db1)\<lparr>au_log := l\<rparr>) = au_sessions db"
      using insert_user_tables(1) [OF registered(3)] by simp
    then have "se_user t = au_id u" using issued_session [OF registered(4), of t] assms res by simp
    then show ?thesis using insert_user_tables(2) [OF registered(3)] by simp
  qed (use assms res in auto)
qed

lemma oauth_login_cases:
  assumes "complete_oauth_login env now dw invited rq c db = (r, db')"
  obtains (refused) e where "r = Inl e" "au_users db' = au_users db" "au_sessions db' = au_sessions db" "au_identities db' = au_identities db"
  | (signed) profile u d a where "r = Inr a" "oauth_exchange env now c = Inr profile" "\<not> is_locked now u"
      "upsert_oauth_user env dw invited (oauth_provider_name c) profile db = Inr (u, d)"
      "issue_auth_response env now dw rq u (if au_totp_enabled u then ''auth_totp_challenge_created'' else ''auth_oauth_succeeded'')
              (au_totp_enabled u) d = Inr (a, db')"
proof -
  have failed: thesis if "oauth_failed env now rq m e db = (r, db')" for m e
    using refused oauth_failed_tables(1-3) [of env now rq m e db] oauth_failed_tables(4) [of env now rq m e db] that
    by (metis fst_conv snd_conv)
  have limit: "au_users d = au_users db \<and> au_sessions d = au_sessions db \<and> au_identities d = au_identities db"
    if "enforce_login_failure_limit env now rq m None db = (Inl e, d)" for m e d
    using limit_refused [OF that] by simp
  show thesis
  proof (cases "oc_registered c (oauth_provider_name c)")
    case False
    then show thesis using assms failed by (simp add: complete_oauth_login_def)
  next
    case reg: True
    show thesis
    proof (cases "oauth_exchange env now c")
      case (Inl e)
      then show thesis using assms failed reg by (simp add: complete_oauth_login_def)
    next
      case (Inr profile)
      define lim where "lim = (case provider_email (oauth_provider_name c) profile of
                         None \<Rightarrow> (Inr (), db)
                       | Some email \<Rightarrow> enforce_login_failure_limit env now rq (Some email) None db)"
      show thesis
      proof (cases "fst lim")
        case (Inl e)
        then obtain m d where m: "provider_email (oauth_provider_name c) profile = Some m"
            "enforce_login_failure_limit env now rq (Some m) None db = (Inl e, d)"
          by (cases lim) (auto simp: lim_def split: option.splits)
        then have "r = Inl e" "db' = d" using assms reg Inr by (simp_all add: complete_oauth_login_def Let_def)
        with limit [OF m(2)] show thesis by (intro refused) simp_all
      next
        case unlimited: (Inr x)
        show thesis
        proof (cases "upsert_oauth_user env dw invited (oauth_provider_name c) profile db")
          case (Inl e)
          then show thesis using assms reg Inr unlimited failed
            by (auto simp: complete_oauth_login_def lim_def case_prod_beta split: option.splits sum.splits)
        next
          case up: (Inr p)
          obtain u d where p: "p = (u, d)" by (cases p)
          have "oauth_sign_in env now dw rq u db d = (r, db')"
            using assms reg Inr unlimited up p
            by (auto simp: complete_oauth_login_def lim_def case_prod_beta split: option.splits sum.splits)
          then show thesis using refused signed [OF _ Inr _ up [unfolded p]] limit
            by (auto simp: oauth_sign_in_def commit_def split: prod.splits sum.splits if_splits)
        qed
      qed
    qed
  qed
qed

lemma oauth_session:
  assumes inv: "auth_inv db" and u: "u \<in> set (au_users db)" "au_totp_enabled u"
    and t: "t \<in> set (au_sessions (snd (complete_oauth_login env now dw invited rq c db)))"
      "se_token_hash t \<notin> se_token_hash ` set (au_sessions db)" "se_user t = au_id u"
  shows "\<not> se_twofa t"
proof -
  obtain r db' where res: "complete_oauth_login env now dw invited rq c db = (r, db')"
    by (cases "complete_oauth_login env now dw invited rq c db")
  from res show ?thesis
  proof (cases rule: oauth_login_cases)
    case (signed profile w d a)
    have "advance {} {} db d \<and> au_id w \<in> au_id ` set (au_users d) \<and> au_sessions d = au_sessions db"
      by (rule advance_upsert [OF inv signed(4)])
    then have s: "se_user t = au_id w" "se_twofa t \<longleftrightarrow> \<not> au_totp_enabled w"
      using issued_session [OF signed(5), of t] t res by simp_all
    from signed(4) show ?thesis
    proof (cases rule: upsert_cases [OF inv signed(4), case_names linked created])
      case (linked x subject)
      have "au_id w = au_id u" using t(3) s(1) by simp
      then have "w = u" by (rule distinct_key_eq [OF auth_inv_users [OF inv] linked(5) u(1)])
      with s(2) u(2) show ?thesis by simp
    next
      case (created subject email db1 v l)
      then have "au_id w \<notin> au_id ` set (au_users db)" using insert_user_tables(2) [OF created(5)] by simp
      then show ?thesis using s(1) t(3) u(1) by (metis imageI)
    qed
  qed (use t res in auto)
qed

lemma upgraded_session:
  assumes "auth_inv db" and "upgrade_partial_session env later fresh sid token (au_sessions db) = Inr (Some r, T)"
    and "t \<in> set T" and "se_token_hash t \<notin> se_token_hash ` set (au_sessions db)"
  obtains p where "find_partial env later token (au_sessions db) = Some p" "se_user t = se_user p"
  using assms
  by (auto simp: upgrade_partial_session_def bind_result_Inr in_write_row revoke_def split: option.splits elim!: create_session_cases partial_cases)

text \<open>A second factor of a user: an unused one-time code or a backup code.\<close>

definition factor_accepted :: "auth_env \<Rightarrow> timestamp \<Rightarrow> nat \<Rightarrow> auth_user \<Rightarrow> string option \<Rightarrow> string option \<Rightarrow> bool" where
  "factor_accepted env now nonce u token code \<longleftrightarrow>
     (\<exists>c. matching_totp_counter env now u (or_string token []) = Some c \<and> counter_unused c u) \<or>
     (\<exists>v. verify_backup_code env nonce u (or_string code []) = Inr (True, v))"

lemma find_partial_unique:
  assumes "auth_inv db" and "find_partial env now t (au_sessions db) = Some p" and "find_partial env later t (au_sessions db) = Some q"
  shows "p = q"
proof -
  have "distinct (map se_token_hash (au_sessions db))" using assms(1) by (simp add: auth_inv_def)
  then show ?thesis using assms(2,3)
    by (metis distinct_key_eq partial_cases)
qed

lemma verify_totp_session:
  assumes inv: "auth_inv db" and u: "u \<in> set (au_users db)"
    and t: "t \<in> set (au_sessions (snd (verify_totp env now later dw rq token code db)))"
      "se_token_hash t \<notin> se_token_hash ` set (au_sessions db)" "se_user t = au_id u"
  shows "factor_accepted env now (dw_nonce dw) u token code"
proof -
  obtain r db' where res: "verify_totp env now later dw rq token code db = (r, db')"
    by (cases "verify_totp env now later dw rq token code db")
  from res show ?thesis
  proof (cases rule: verify_totp_cases)
    case refused
    with t res show ?thesis by auto
  next
    case (wrong e s w)
    have "advance {} {} (snd (count_login_failure env now rq (Some (au_email w)) None db)) db'"
      using wrong(4) inv advance_failed_attempt [of "snd (count_login_failure env now rq (Some (au_email w)) None db)"] by simp
    then have "advance {} {} db db'" by simp
    then show ?thesis using t res by (auto simp: advance_def sessions_from_def session_after_def)
  next
    case (verified tok p w U T x a)
    obtain q where q: "find_partial env later tok (au_sessions db) = Some q" "se_user t = se_user q"
      by (rule upgraded_session [OF inv verified(9), of t]) (use t res verified in auto)
    then have "q = p" using find_partial_unique [OF inv _ verified(3)] by metis
    then have "au_id w = au_id u" using q(2) t(3) verified(4) by (auto dest: row_by_id_Some)
    moreover have w: "w \<in> set (au_users db)" using verified(4) by (auto dest: row_by_id_Some)
    ultimately have "w = u" using distinct_key_eq [OF auth_inv_users [OF inv]] u by metis
    then show ?thesis
      using factor_cases [OF inv w verified(8)] by (metis factor_accepted_def)
  qed
qed

end
