(* ===== verification/Auth_Factors.thy ===== *)
theory Auth_Factors
  imports Auth_Guarantees
begin

text \<open>
  The second factor over time: the last used counter along a run, and backup codes as a set that shrinks.
\<close>

section \<open>The last used counter\<close>

text \<open>No event of the run resets the factor of a user.\<close>

fun unreset :: "auth_env \<Rightarrow> uuid \<Rightarrow> auth_db \<Rightarrow> auth_event list \<Rightarrow> bool" where
  "unreset env i db [] = True"
| "unreset env i db (e # es) = (i \<notin> resets env db e \<and> unreset env i (auth_step env db e) es)"

lemma row_by_id_of:
  assumes "auth_inv db" and "u \<in> set (au_users db)"
  shows "row_by_id au_id (au_id u) (au_users db) = Some u"
proof -
  obtain v where v: "row_by_id au_id (au_id u) (au_users db) = Some v"
    using assms(2) row_by_id_None [of au_id "au_id u" "au_users db"] by (cases "row_by_id au_id (au_id u) (au_users db)") auto
  then have "v \<in> set (au_users db)" "au_id v = au_id u" by (auto dest: row_by_id_Some)
  then have "v = u" using distinct_key_eq [OF auth_inv_users [OF assms(1)]] assms(2) by metis
  with v show ?thesis by simp
qed

lemma counter_along:
  assumes "auth_inv db" and "row_by_id au_id i (au_users db) = Some u" and "au_last_counter u = Some c" and "unreset env i db es"
  shows "\<exists>v d. row_by_id au_id i (au_users (foldl (auth_step env) db es)) = Some v \<and> au_last_counter v = Some d \<and> c \<le> d"
  using assms
proof (induction es arbitrary: db u c)
  case (Cons e es)
  have u: "u \<in> set (au_users db)" "au_id u = i" using Cons.prems(2) by (auto dest: row_by_id_Some)
  have adv: "advance (drawn env e) (resets env db e) db (auth_step env db e)" by (rule advance_step [OF Cons.prems(1)])
  then obtain v where v: "v \<in> set (au_users (auth_step env db e))" "user_after (resets env db e) u v"
    using u(1) unfolding advance_def users_from_def by blast
  then have "counter_kept u v" "au_id v = i" using Cons.prems(4) u(2) by (auto simp: user_after_def)
  then obtain d where d: "au_last_counter v = Some d" "c \<le> d" using Cons.prems(3) by (auto simp: counter_kept_def)
  have row: "row_by_id au_id i (au_users (auth_step env db e)) = Some v"
    using row_by_id_of [OF advance_inv [OF adv] v(1)] \<open>au_id v = i\<close> by simp
  from Cons.IH [OF advance_inv [OF adv] row d(1)] Cons.prems(4) d(2) show ?case by fastforce
qed auto

lemma no_empty_backup: "or_string (None :: string option) [] = []"
  by (simp add: or_string_def)

text \<open>A verification with a one-time code alone: the counter it matched is recorded.\<close>

lemma verified_counter:
  assumes inv: "auth_inv db" and ok: "verify_totp env now later dw rq (Some k) None db = (Inr a, db')"
  obtains u c v where "ay_user a = Some (au_id u)" "row_by_id au_id (au_id u) (au_users db) = Some u"
    "matching_totp_counter env now u k = Some c" "counter_unused c u"
    "row_by_id au_id (au_id u) (au_users db') = Some v" "au_last_counter v = Some c"
  using ok
proof (cases rule: verify_totp_cases)
  case (verified t p u U T x b)
  have u: "u \<in> set (au_users db)" using verified(4) by (auto dest: row_by_id_Some)
  from verified(8) obtain c where c: "matching_totp_counter env now u k = Some c" "counter_unused c u"
      "U = write_row au_id (clear_failures (u\<lparr>au_last_counter := Some c\<rparr>)) (au_users db)"
    by (rule factor_cases [OF inv u]) (auto simp: or_string_def split: if_splits)
  have "row_by_id au_id (au_id u) U = Some (clear_failures (u\<lparr>au_last_counter := Some c\<rparr>))"
    using u unfolding c(3) by (simp add: row_by_id_write_row)
  then show thesis
    using that [of u c] verified c row_by_id_of [OF inv u] by simp
qed auto

section \<open>Backup codes\<close>

text \<open>What the code relies on of the libraries.\<close>

definition secrets_law :: "auth_env \<Rightarrow> bool" where
  "secrets_law env \<longleftrightarrow> (\<forall>n s. decrypt env (encrypt env n s) = Some s \<and> encrypt env n s \<noteq> []) \<and>
     (\<forall>xs. codes_in env (codes_out env xs) = Some xs) \<and>
     (\<forall>salt p x. pw_verify env x (pw_hash env salt p) = Some (x = p) \<and> pw_hash env salt p \<noteq> [])"

fun use_codes :: "auth_env \<Rightarrow> nat \<Rightarrow> auth_user \<Rightarrow> string list \<Rightarrow> auth_user option" where
  "use_codes env nonce u [] = Some u"
| "use_codes env nonce u (c # cs) =
     (case verify_backup_code env nonce u c of Inr (True, v) \<Rightarrow> use_codes env nonce v cs | _ \<Rightarrow> None)"

text \<open>\<open>u\<close> has the codes \<open>cs\<close> left, hashed with the salts \<open>ss\<close>.\<close>

definition codes_left :: "auth_env \<Rightarrow> auth_user \<Rightarrow> (nat \<times> string) list \<Rightarrow> bool" where
  "codes_left env u ps \<longleftrightarrow>
     (if ps = [] then or_string (au_backup_codes u) [] = [] \<or> load_backup_code_hashes env (or_string (au_backup_codes u) []) = Some []
      else or_string (au_backup_codes u) [] \<noteq> [] \<and>
        load_backup_code_hashes env (or_string (au_backup_codes u) []) = Some (map (\<lambda>(s, c). pw_hash env s c) ps))"

lemma matching_index:
  assumes "secrets_law env"
  shows "matching_hash_index env c (map (\<lambda>(s, c). pw_hash env s c) ps) =
    (if c \<in> snd ` set ps then Some (length (takeWhile (\<lambda>p. snd p \<noteq> c) ps)) else None)"
  using assms by (induction ps) (auto simp: secrets_law_def verify_password_hash_def)

lemma remove_at_map: "remove_at i (map f xs) = map f (remove_at i xs)"
  by (simp add: remove_at_def take_map drop_map)

lemma remove_first:
  assumes "distinct (map snd ps)" and "c \<in> snd ` set ps"
  shows "distinct (map snd (remove_at (length (takeWhile (\<lambda>p. snd p \<noteq> c) ps)) ps)) \<and>
    snd ` set (remove_at (length (takeWhile (\<lambda>p. snd p \<noteq> c) ps)) ps) = snd ` set ps - {c}"
  using assms
proof (induction ps)
  case (Cons p ps)
  show ?case
  proof (cases "snd p = c")
    case True
    then show ?thesis using Cons.prems by (auto simp: remove_at_def)
  next
    case False
    then have "c \<in> snd ` set ps" using Cons.prems by auto
    with Cons False show ?thesis by (auto simp: remove_at_def)
  qed
qed simp

lemma or_string_Some [simp]: "or_string (Some s) [] = s"
  by (simp add: or_string_def)

lemma verify_codes_left:
  assumes law: "secrets_law env" and left: "codes_left env u ps" and "distinct (map snd ps)"
  shows "if c \<in> snd ` set ps
    then \<exists>v qs. verify_backup_code env nonce u c = Inr (True, v) \<and> codes_left env v qs \<and> distinct (map snd qs) \<and>
      snd ` set qs = snd ` set ps - {c}
    else verify_backup_code env nonce u c = Inr (False, u)"
proof (cases "or_string (au_backup_codes u) [] = []")
  case True
  then show ?thesis using left by (auto simp: codes_left_def verify_backup_code_def split: if_splits)
next
  case False
  let ?f = "\<lambda>(s, c). pw_hash env s c"
  have load: "load_backup_code_hashes env (or_string (au_backup_codes u) []) = Some (map ?f ps)"
    using left False by (auto simp: codes_left_def split: if_splits)
  show ?thesis
  proof (cases "c \<in> snd ` set ps")
    case False
    then show ?thesis using load \<open>or_string (au_backup_codes u) [] \<noteq> []\<close>
      by (simp add: verify_backup_code_def matching_index [OF law])
  next
    case True
    define qs where "qs = remove_at (length (takeWhile (\<lambda>p. snd p \<noteq> c) ps)) ps"
    define v where "v = consume_backup_code_hash env nonce (map ?f ps) (length (takeWhile (\<lambda>p. snd p \<noteq> c) ps)) u"
    have "verify_backup_code env nonce u c = Inr (True, v)"
      using load \<open>or_string (au_backup_codes u) [] \<noteq> []\<close> True by (simp add: verify_backup_code_def matching_index [OF law] v_def)
    moreover have "codes_left env v qs"
      using law by (auto simp: v_def consume_backup_code_hash_def remove_at_map codes_left_def load_backup_code_hashes_def
          secrets_law_def no_empty_backup simp flip: qs_def)
    moreover have "distinct (map snd qs)" "snd ` set qs = snd ` set ps - {c}"
      using remove_first [OF assms(3) True] by (simp_all add: qs_def)
    ultimately show ?thesis using True by auto
  qed
qed

lemma use_codes_iff:
  assumes law: "secrets_law env"
  shows "codes_left env u ps \<Longrightarrow> distinct (map snd ps) \<Longrightarrow>
    use_codes env nonce u cs \<noteq> None \<longleftrightarrow> distinct cs \<and> set cs \<subseteq> snd ` set ps"
proof (induction cs arbitrary: u ps)
  case (Cons c cs)
  note step = verify_codes_left [OF law Cons.prems, of c nonce]
  show ?case
  proof (cases "c \<in> snd ` set ps")
    case False
    then show ?thesis using step by simp
  next
    case True
    then obtain v qs where v: "verify_backup_code env nonce u c = Inr (True, v)" "codes_left env v qs" "distinct (map snd qs)"
        "snd ` set qs = snd ` set ps - {c}" using step by auto
    from Cons.IH [OF v(2,3)] v(1,4) True show ?thesis by auto
  qed
qed simp

lemma generated_codes_left:
  assumes "secrets_law env"
  shows "codes_left env (generate_backup_codes env dw u) (map (\<lambda>(i, c). (dw_salt dw + i, c)) (enumerate 0 (dw_codes dw)))"
  using assms
  by (auto simp: codes_left_def generate_backup_codes_def store_backup_code_hashes_def load_backup_code_hashes_def secrets_law_def
    case_prod_beta comp_def)

lemma generated_codes:
  "map snd (map (\<lambda>(i, c). (k + i, c)) (enumerate n cs)) = cs"
  by (induction cs arbitrary: n) auto

end
