(* ===== verification/Auth_Contracts.thy ===== *)
theory Auth_Contracts
  imports Auth_Factors
begin

text \<open>
  The session table as a map from token hashes to live sessions, and how every session operation acts on the
  map; the operations that end sessions; identities that were unlinked.
\<close>

section \<open>The map of live sessions\<close>

type_synonym session_map = "string \<rightharpoonup> uuid \<times> bool \<times> timestamp"

definition live_sessions :: "auth_session list \<Rightarrow> session_map" where
  "live_sessions T h =
     map_option (\<lambda>s. (se_user s, se_twofa s, se_expires_at s)) (find (\<lambda>s. se_token_hash s = h \<and> \<not> se_deleted s) T)"

definition map_lookup :: "timestamp \<Rightarrow> bool \<Rightarrow> auth_user list \<Rightarrow> session_map \<Rightarrow> string \<Rightarrow> auth_user option" where
  "map_lookup now require_twofa users m h =
     (case m h of
        Some (i, twofa, expires) \<Rightarrow>
          if now < expires \<and> (require_twofa \<longrightarrow> twofa)
          then (case row_by_id au_id i users of Some u \<Rightarrow> if au_deleted u \<or> \<not> au_is_active u then None else Some u | None \<Rightarrow> None)
          else None
      | None \<Rightarrow> None)"

definition map_restrict :: "(string \<Rightarrow> uuid \<Rightarrow> bool \<Rightarrow> timestamp \<Rightarrow> bool) \<Rightarrow> session_map \<Rightarrow> session_map" where
  "map_restrict P m h = (case m h of Some (i, twofa, expires) \<Rightarrow> if P h i twofa expires then m h else None | None \<Rightarrow> None)"

text \<open>The hash that \<^verbatim>\<open>exclude_token\<close> stands for.\<close>

definition kept_hash :: "auth_env \<Rightarrow> string option \<Rightarrow> string option" where
  "kept_hash env exclude =
     (case exclude of None \<Rightarrow> None | Some token \<Rightarrow> if py_strip token = [] then None else Some (ve_sha256 env token))"

lemma find_conj_unique:
  assumes "distinct (map key T)"
  shows "find (\<lambda>s. key s = k \<and> P s \<and> Q s) T =
    (case find (\<lambda>s. key s = k \<and> Q s) T of None \<Rightarrow> None | Some s \<Rightarrow> if P s then Some s else None)"
  using assms
proof (induction T)
  case (Cons s T)
  show ?case
  proof (cases "key s = k \<and> Q s")
    case True
    have "find (\<lambda>s. key s = k \<and> P s \<and> Q s) T = None"
      using Cons.prems True by (auto simp: find_None_iff image_iff)
    with True show ?thesis by simp
  next
    case False
    with Cons show ?thesis by auto
  qed
qed simp

lemma find_update_where:
  assumes "distinct (map se_token_hash T)"
  shows "find (\<lambda>s. se_token_hash s = h \<and> \<not> se_deleted s) (update_where P revoke T) =
    (case find (\<lambda>s. se_token_hash s = h \<and> \<not> se_deleted s) T of None \<Rightarrow> None | Some s \<Rightarrow> if P s then None else Some s)"
  using assms
proof (induction T)
  case (Cons s T)
  show ?case
  proof (cases "se_token_hash s = h \<and> \<not> se_deleted s \<and> P s")
    case True
    have "find (\<lambda>s. se_token_hash s = h \<and> \<not> se_deleted s) T = None"
      using Cons.prems True by (auto simp: find_None_iff image_iff)
    with Cons True show ?thesis by (simp add: update_where_def revoke_def)
  next
    case False
    with Cons show ?thesis by (auto simp: update_where_def revoke_def)
  qed
qed (simp add: update_where_def)

lemma find_filter_unique:
  assumes "distinct (map se_token_hash T)"
  shows "find (\<lambda>s. se_token_hash s = h \<and> \<not> se_deleted s) (filter P T) =
    (case find (\<lambda>s. se_token_hash s = h \<and> \<not> se_deleted s) T of None \<Rightarrow> None | Some s \<Rightarrow> if P s then Some s else None)"
  using assms
proof (induction T)
  case (Cons s T)
  show ?case
  proof (cases "se_token_hash s = h \<and> \<not> se_deleted s")
    case True
    have "find (\<lambda>s. se_token_hash s = h \<and> \<not> se_deleted s) (filter P T) = None"
      using Cons.prems True by (auto simp: find_None_iff image_iff)
    with True show ?thesis by simp
  qed (use Cons in auto)
qed simp

lemma hashes_distinct: "auth_inv db \<Longrightarrow> distinct (map se_token_hash (au_sessions db))"
  by (simp add: auth_inv_def)

lemma live_lookup:
  assumes "auth_inv db"
  shows "map_option snd (get_valid_session env now token b db) =
    (if py_strip token = [] then None else map_lookup now b (au_users db) (live_sessions (au_sessions db)) (ve_sha256 env token))"
proof -
  have eq: "find (\<lambda>s. se_token_hash s = h \<and> se_expires_at s > now \<and> \<not> se_deleted s \<and> (b \<longrightarrow> se_twofa s)) (au_sessions db) =
      (case find (\<lambda>s. se_token_hash s = h \<and> \<not> se_deleted s) (au_sessions db) of None \<Rightarrow> None
       | Some s \<Rightarrow> if se_expires_at s > now \<and> (b \<longrightarrow> se_twofa s) then Some s else None)" for h
    using find_conj_unique [OF hashes_distinct [OF assms], of h "\<lambda>s. se_expires_at s > now \<and> (b \<longrightarrow> se_twofa s)" "\<lambda>s. \<not> se_deleted s"]
    by (simp add: conj_ac)
  show ?thesis
    by (auto simp: get_valid_session_def hash_token_def eq map_lookup_def live_sessions_def split: option.splits)
qed

lemma live_create:
  assumes "create_session env now token sid user ip agent duration twofa T = Inr (r, T')"
  shows "live_sessions T' = (live_sessions T)(ve_sha256 env token \<mapsto> (user, twofa, sx_expires_at r))"
  using assms
proof (rule create_session_cases)
  fix h s
  assume new: "h = ve_sha256 env token" "h \<notin> se_token_hash ` set T" "T' = T @ [s]" "se_user s = user" "se_token_hash s = h"
    "se_twofa s = twofa" "\<not> se_deleted s" "r = \<lparr>sx_token = token, sx_expires_at = se_expires_at s, sx_session_id = sid, sx_twofa = twofa\<rparr>"
  have snoc: "find P (T @ [s]) = (case find P T of None \<Rightarrow> if P s then Some s else None | Some x \<Rightarrow> Some x)" for P
    by (induction T) auto
  have "find (\<lambda>s. se_token_hash s = h \<and> \<not> se_deleted s) T = None" using new(2) by (force simp: find_None_iff)
  with new show ?thesis by (auto simp: fun_eq_iff live_sessions_def snoc split: option.splits)
qed

lemma live_update_where:
  "distinct (map se_token_hash T) \<Longrightarrow> (\<And>s. s \<in> set T \<Longrightarrow> \<not> se_deleted s \<Longrightarrow> P s = (\<not> Q (se_token_hash s) (se_user s) (se_twofa s) (se_expires_at s))) \<Longrightarrow>
     live_sessions (update_where P revoke T) = map_restrict Q (live_sessions T)"
  by (auto simp: fun_eq_iff live_sessions_def find_update_where map_restrict_def split: option.splits dest!: find_SomeD)

lemma live_revoke_row:
  assumes inv: "auth_inv db" and "s \<in> set (au_sessions db)"
  shows "live_sessions (write_row se_id (revoke s) (au_sessions db)) = (live_sessions (au_sessions db))(se_token_hash s := None)"
proof -
  have "write_row se_id (revoke s) (au_sessions db) = update_where (\<lambda>x. se_id x = se_id s) revoke (au_sessions db)"
    by (rule write_session [OF assms]) (simp_all add: revoke_def)
  moreover have "se_id x = se_id s \<longleftrightarrow> se_token_hash x = se_token_hash s" if "x \<in> set (au_sessions db)" for x
    using inv that assms(2) distinct_key_eq [of se_id "au_sessions db" x s] distinct_key_eq [of se_token_hash "au_sessions db" x s]
    by (auto simp: auth_inv_def)
  then have "live_sessions (update_where (\<lambda>x. se_id x = se_id s) revoke (au_sessions db)) =
      map_restrict (\<lambda>h i f e. h \<noteq> se_token_hash s) (live_sessions (au_sessions db))"
    by (intro live_update_where hashes_distinct [OF inv]) auto
  moreover have "map_restrict (\<lambda>h i f e. h \<noteq> k) m = m(k := None)" for k m
    by (auto simp: fun_eq_iff map_restrict_def split: option.splits)
  ultimately show ?thesis by simp
qed

lemma live_revoke:
  assumes inv: "auth_inv db"
  shows "live_sessions (snd (revoke_session env token (au_sessions db))) =
    (if py_strip token = [] then live_sessions (au_sessions db) else (live_sessions (au_sessions db))(ve_sha256 env token := None))"
proof (cases "find (\<lambda>s. se_token_hash s = ve_sha256 env token \<and> \<not> se_deleted s) (au_sessions db)")
  case None
  then have "live_sessions (au_sessions db) (ve_sha256 env token) = None" by (simp add: live_sessions_def)
  then have "(live_sessions (au_sessions db))(ve_sha256 env token := None) = live_sessions (au_sessions db)"
    by (simp add: fun_upd_idem)
  with None show ?thesis by (simp add: revoke_session_def hash_token_def)
next
  case (Some s)
  then have "s \<in> set (au_sessions db)" "se_token_hash s = ve_sha256 env token" by (auto dest!: find_SomeD)
  with Some live_revoke_row [OF inv, of s] show ?thesis by (simp add: revoke_session_def hash_token_def)
qed

lemma live_revoke_user:
  assumes "distinct (map se_token_hash T)"
  shows "live_sessions (snd (revoke_user_sessions env i exclude T)) =
    map_restrict (\<lambda>h u f e. u \<noteq> i \<or> kept_hash env exclude = Some h) (live_sessions T)"
proof -
  have strip: "py_strip [] = []" by (simp add: py_strip_def)
  show ?thesis
    unfolding revoke_user_sessions_def Let_def snd_conv
    by (rule live_update_where [OF assms]) (auto simp: kept_hash_def hash_token_def strip split: option.splits if_splits)
qed

lemma live_revoke_partial:
  "distinct (map se_token_hash T) \<Longrightarrow>
     live_sessions (snd (revoke_user_partial_sessions i T)) = map_restrict (\<lambda>h u f e. u \<noteq> i \<or> f) (live_sessions T)"
  unfolding revoke_user_partial_sessions_def Let_def snd_conv by (rule live_update_where) auto

lemma live_upgrade:
  assumes inv: "auth_inv db"
    and ok: "upgrade_partial_session env later fresh sid token (au_sessions db) = Inr (Some r, T)"
  shows "\<exists>i expires. live_sessions (au_sessions db) (ve_sha256 env token) = Some (i, False, expires) \<and> later < expires \<and>
    live_sessions T = (live_sessions (au_sessions db))(ve_sha256 env token := None, ve_sha256 env fresh \<mapsto> (i, True, sx_expires_at r))"
proof -
  obtain s where s: "find_partial env later token (au_sessions db) = Some s"
    and new: "create_session env later fresh sid (se_user s) (se_ip s) (se_user_agent s) None True
      (write_row se_id (revoke s) (au_sessions db)) = Inr (r, T)"
    using ok by (auto simp: upgrade_partial_session_def bind_result_Inr split: option.splits)
  have mem: "s \<in> set (au_sessions db)" "se_token_hash s = ve_sha256 env token" "se_expires_at s > later" "\<not> se_twofa s" "\<not> se_deleted s"
    using s by (auto elim!: partial_cases)
  have "find (\<lambda>x. se_token_hash x = ve_sha256 env token \<and> \<not> se_deleted x) (au_sessions db) = Some s"
  proof (cases "find (\<lambda>x. se_token_hash x = ve_sha256 env token \<and> \<not> se_deleted x) (au_sessions db)")
    case None
    with mem show ?thesis by (auto simp: find_None_iff)
  next
    case (Some x)
    then have "x \<in> set (au_sessions db)" "se_token_hash x = se_token_hash s" using mem by (auto dest!: find_SomeD)
    then have "x = s" using distinct_key_eq [OF hashes_distinct [OF inv]] mem(1) by metis
    with Some show ?thesis by simp
  qed
  then have "live_sessions (au_sessions db) (ve_sha256 env token) = Some (se_user s, False, se_expires_at s)"
    using mem by (simp add: live_sessions_def)
  with live_create [OF new] live_revoke_row [OF inv mem(1)] mem(2,3) show ?thesis by auto
qed

lemma live_cleanup:
  "distinct (map se_token_hash T) \<Longrightarrow>
     live_sessions (snd (cleanup_expired_sessions now T)) = map_restrict (\<lambda>h u f e. now < e) (live_sessions T)"
  by (auto simp: fun_eq_iff live_sessions_def cleanup_expired_sessions_def find_filter_unique map_restrict_def split: option.splits)

end
