(* ===== verification/Auth_Endings.thy ===== *)
theory Auth_Endings
  imports Auth_Contracts
begin

text \<open>
  What ends a session, what unlinking an identity leaves behind, and the lock of an account.
\<close>

section \<open>The ends of a session\<close>

text \<open>\<open>ends_session env t db db'\<close>: one of the operations that end the session of token \<open>t\<close> led from \<open>db\<close> to \<open>db'\<close>.\<close>

inductive ends_session :: "auth_env \<Rightarrow> string \<Rightarrow> auth_db \<Rightarrow> auth_db \<Rightarrow> bool" for env t db where
  by_logout: "session_token_from_request rq = Some t \<Longrightarrow> py_strip t \<noteq> [] \<Longrightarrow> ends_session env t db (logout env rq u db)"
| by_id: "s \<in> set (au_sessions db) \<Longrightarrow> se_token_hash s = ve_sha256 env t \<Longrightarrow>
     revoke_session_by_id u (se_id s) db = (Inr (), db') \<Longrightarrow> ends_session env t db db'"
| by_revocation: "s \<in> set (au_sessions db) \<Longrightarrow> se_token_hash s = ve_sha256 env t \<Longrightarrow> se_user s = au_id u \<Longrightarrow>
     revoke_sessions env rq u keep db = (n, db') \<Longrightarrow>
     \<not> keep \<or> kept_hash env (session_token_from_request rq) \<noteq> Some (ve_sha256 env t) \<Longrightarrow> ends_session env t db db'"
| by_new_password: "s \<in> set (au_sessions db) \<Longrightarrow> se_token_hash s = ve_sha256 env t \<Longrightarrow>
     row_by_id au_id (se_user s) (au_users db) = Some u \<Longrightarrow>
     change_password env dw rq u old new db = (Inr n, db') \<Longrightarrow>
     kept_hash env (session_token_from_request rq) \<noteq> Some (ve_sha256 env t) \<Longrightarrow> ends_session env t db db'"
| by_reset: "s \<in> set (au_sessions db) \<Longrightarrow> se_token_hash s = ve_sha256 env t \<Longrightarrow>
     set_user_password env dw (se_user s) password db = (Inr n, db') \<Longrightarrow> ends_session env t db db'"
| by_deactivation: "s \<in> set (au_sessions db) \<Longrightarrow> se_token_hash s = ve_sha256 env t \<Longrightarrow>
     row_by_id au_id (se_user s) (au_users db) = Some u \<Longrightarrow> au_is_active u \<Longrightarrow>
     update_user_active env (se_user s) (Some False) db = (Inr (), db') \<Longrightarrow> ends_session env t db db'"
| by_deletion: "s \<in> set (au_sessions db) \<Longrightarrow> se_token_hash s = ve_sha256 env t \<Longrightarrow>
     delete_user_account env actor (se_user s) db = (Inr (), db') \<Longrightarrow> ends_session env t db db'"

inductive_cases ends_sessionE: "ends_session env t db db'"

lemma live_hash_gone: "live_sessions (au_sessions db) h = None \<Longrightarrow> live_hash db h = None"
  by (auto simp: live_hash_def live_sessions_def session_live_def find_None_iff)

lemma revoked_of_user:
  assumes inv: "auth_inv db" and s: "s \<in> set (au_sessions db)" "se_token_hash s = h" "se_user s = i"
    and T: "au_sessions db' = snd (revoke_user_sessions env i exclude (au_sessions db))" and "kept_hash env exclude \<noteq> Some h"
  shows "live_hash db' h = None"
proof (rule live_hash_gone)
  have "u = i" if "live_sessions (au_sessions db) h = Some (u, f, e)" for u f e
  proof -
    from that obtain x where "x \<in> set (au_sessions db)" "se_token_hash x = h" "se_user x = u"
      by (auto simp: live_sessions_def dest!: find_SomeD)
    then show ?thesis using distinct_key_eq [OF hashes_distinct [OF inv], of x s] s by simp
  qed
  then show "live_sessions (au_sessions db') h = None"
    using assms(6) unfolding T live_revoke_user [OF hashes_distinct [OF inv]]
    by (auto simp: map_restrict_def split: option.splits)
qed

lemma revoked_row_dead:
  assumes "auth_inv db" and "s \<in> set (au_sessions db)" and "au_sessions db' = write_row se_id (revoke s) (au_sessions db)"
  shows "live_hash db' (se_token_hash s) = None"
  by (rule live_hash_gone) (simp add: assms(3) live_revoke_row [OF assms(1,2)])

lemma kept_none [simp]: "kept_hash env None = None"
  by (simp add: kept_hash_def)

lemma ended_dead:
  assumes inv: "auth_inv db" and "ends_session env t db db'"
  shows "live_hash db' (ve_sha256 env t) = None"
  using assms(2)
proof (cases rule: ends_session.cases)
  case (by_logout rq u)
  have "t \<noteq> []" using by_logout(3) by (auto simp: py_strip_def)
  then have "au_sessions db' = snd (revoke_session env t (au_sessions db))"
    using by_logout by (simp add: logout_def Let_def case_prod_beta)
  then show ?thesis using live_revoke [OF inv, of env t] by_logout(3) by (intro live_hash_gone) simp
next
  case (by_id s u)
  from by_id(3) obtain x where x: "find (\<lambda>x. se_id x = se_id s \<and> se_user x = au_id u \<and> \<not> se_deleted x) (au_sessions db) = Some x"
      "au_sessions db' = write_row se_id (revoke x) (au_sessions db)"
    by (auto simp: revoke_session_by_id_def split: option.splits)
  then have "x \<in> set (au_sessions db)" "se_id x = se_id s" by (auto dest!: find_SomeD)
  then have "x = s" using distinct_key_eq [of se_id "au_sessions db" x s] inv by_id(1) by (simp add: auth_inv_def)
  with x(2) by_id(1,2) revoked_row_dead [OF inv by_id(1)] show ?thesis by simp
next
  case (by_revocation s u rq keep n)
  then have T: "au_sessions db' = snd (revoke_user_sessions env (au_id u) (if keep then session_token_from_request rq else None) (au_sessions db))"
    by (auto simp: revoke_sessions_def split: prod.splits)
  show ?thesis by (rule revoked_of_user [OF inv by_revocation(1-3) T]) (use by_revocation(5) in auto)
next
  case (by_new_password s u dw rq old new n)
  then have T: "au_sessions db' = snd (revoke_user_sessions env (au_id u) (session_token_from_request rq) (au_sessions db))"
    by (auto simp: change_password_def Let_def case_prod_beta split: sum.splits if_splits)
  have "se_user s = au_id u" using by_new_password(3) by (auto dest: row_by_id_Some)
  then show ?thesis by (rule revoked_of_user [OF inv by_new_password(1,2) _ T by_new_password(5)])
next
  case (by_reset s dw password n)
  then have T: "au_sessions db' = snd (revoke_user_sessions env (se_user s) None (au_sessions db))"
    by (auto simp: set_user_password_def commit_def bind_result_def Let_def case_prod_beta split: sum.splits dest!: account_or_raise)
  show ?thesis by (rule revoked_of_user [OF inv by_reset(1,2) refl T]) simp
next
  case (by_deactivation s u)
  have u: "get_account_or_raise (se_user s) False db = Inr v \<Longrightarrow> v = u" for v
    using by_deactivation(3) row_by_id_of [OF inv, of v] by (auto dest!: account_or_raise)
  have T: "au_sessions db' = snd (revoke_user_sessions env (se_user s) None (au_sessions db))"
  proof (cases "get_account_or_raise (se_user s) False db")
    case (Inl e)
    then show ?thesis using by_deactivation(5) by (simp add: update_user_active_def commit_def)
  next
    case (Inr v)
    then have "v = u" "au_id v = se_user s" using u by (auto dest: account_or_raise)
    with Inr by_deactivation(4,5) show ?thesis by (auto simp: update_user_active_def commit_def Let_def)
  qed
  show ?thesis by (rule revoked_of_user [OF inv by_deactivation(1,2) refl T]) simp
next
  case (by_deletion s actor)
  then have T: "au_sessions db' = snd (revoke_user_sessions env (se_user s) None (au_sessions db))"
    by (auto simp: delete_user_account_def commit_def bind_result_def Let_def split: sum.splits if_splits dest!: account_or_raise)
  show ?thesis by (rule revoked_of_user [OF inv by_deletion(1,2) refl T]) simp
qed

lemma ended_state_inv:
  assumes inv: "auth_inv db" and "ends_session env t db db'"
  shows "auth_inv db'"
  using assms(2)
proof (cases rule: ends_session.cases)
  case (by_logout rq u)
  then show ?thesis using advance_logout [OF inv] by (metis advance_inv)
next
  case (by_id s u)
  then show ?thesis using advance_revoke_by_id [OF inv, of _ _ u "se_id s"] by (auto dest: advance_inv)
next
  case (by_revocation s u rq keep n)
  then show ?thesis using advance_revoke_sessions [OF inv, of _ _ env rq u keep] by (auto dest: advance_inv)
next
  case (by_new_password s u dw rq old new n)
  then show ?thesis using advance_change_password [OF inv, of u _ _ env dw rq old new] by (auto dest: advance_inv row_by_id_Some)
next
  case (by_reset s dw password n)
  then show ?thesis using advance_set_user_password [OF inv, of _ _ env dw "se_user s" password] by (auto dest: advance_inv)
next
  case (by_deactivation s u)
  then show ?thesis using advance_update_active [OF inv, of _ _ env "se_user s" "Some False"] by (auto dest: advance_inv)
next
  case (by_deletion s actor)
  then show ?thesis using advance_delete_account [OF inv, of _ _ env actor "se_user s"] by (auto dest: advance_inv)
qed

section \<open>Identities that were unlinked\<close>

lemma identities_step:
  "auth_inv db \<Longrightarrow> identities_from (au_identities db) (au_identities (auth_step env db e))"
  using advance_step [of db env e] by (simp add: advance_def)

lemma deleted_along:
  assumes "auth_inv db" and "x \<in> set (au_identities db)" and "id_deleted x"
  shows "\<exists>y \<in> set (au_identities (foldl (auth_step env) db es)).
    id_provider y = id_provider x \<and> id_subject y = id_subject x \<and> id_deleted y"
  using assms
proof (induction es arbitrary: db x)
  case (Cons e es)
  obtain y where y: "y \<in> set (au_identities (auth_step env db e))" "identity_after x y"
    using identities_step [OF Cons.prems(1)] Cons.prems(2) unfolding identities_from_def by blast
  then show ?case
    using Cons.IH [OF auth_step_inv [OF Cons.prems(1)] y(1)] Cons.prems(3) by (auto simp: identity_after_def)
qed auto

lemma deleted_blocks:
  assumes inv: "auth_inv db" and x: "x \<in> set (au_identities db)" "id_deleted x"
  shows "y \<in> set (au_identities db) \<Longrightarrow> \<not> identity_is (id_provider x) (id_subject x) y"
    and "id_provider z = id_provider x \<Longrightarrow> id_subject z = id_subject x \<Longrightarrow> au_identities d = au_identities db \<Longrightarrow>
      insert_identity z d = Inl (IntegrityError ''user_auth'')"
proof -
  have "distinct (map (\<lambda>x. (id_provider x, id_subject x)) (au_identities db))" using inv by (simp add: auth_inv_def)
  from distinct_key_eq [OF this, of _ x] x
  show "y \<in> set (au_identities db) \<Longrightarrow> \<not> identity_is (id_provider x) (id_subject x) y"
    by (auto simp: identity_is_def)
  show "id_provider z = id_provider x \<Longrightarrow> id_subject z = id_subject x \<Longrightarrow> au_identities d = au_identities db \<Longrightarrow>
      insert_identity z d = Inl (IntegrityError ''user_auth'')"
    using x(1) by (auto simp: insert_identity_def image_iff)
qed

lemma upsert_blocked:
  assumes inv: "auth_inv db" and x: "x \<in> set (au_identities db)" "id_deleted x"
    and "provider_user_id_from_profile (id_provider x) profile = Some (id_subject x)"
  shows "upsert_oauth_user env dw invited (id_provider x) profile db \<noteq> Inr (u, d)"
proof
  assume ok: "upsert_oauth_user env dw invited (id_provider x) profile db = Inr (u, d)"
  from ok show False
  proof (cases rule: upsert_cases [OF inv ok, case_names linked created])
    case (linked y subject)
    then show False using deleted_blocks(1) [OF inv x linked(2)] assms(4) by simp
  next
    case (created subject email db1 v l)
    have "au_identities (record_audit ''create'' (au_id u) (provisioned dw v db1)) = au_identities db"
      using insert_user_tables(1) [OF created(5)] by (simp add: provisioned_def Let_def)
    then show False using created(1,7) assms(4) deleted_blocks(2) [OF inv x, of "\<lparr>id_user = au_id u, id_provider = id_provider x, id_subject = subject, id_email = email,
         id_verified = provider_email_verified (id_provider x) profile, id_deleted = False\<rparr>"] by simp
  qed
qed

lemma link_blocked:
  assumes inv: "auth_inv db" and x: "x \<in> set (au_identities db)" "id_deleted x" and "oauth_provider_name c = id_provider x"
    and "oc_profile c = Inr profile" and "provider_user_id_from_profile (id_provider x) profile = Some (id_subject x)"
  shows "isl (fst (complete_oauth_link env now u c db))"
proof -
  have "\<not> (y \<in> set (au_identities db) \<and> id_provider y = id_provider x \<and> \<not> id_deleted y \<and> id_subject y = id_subject x)" for y
    using deleted_blocks(1) [OF inv x, of y] by (auto simp: identity_is_def)
  then have other: "id_subject y \<noteq> id_subject x"
    if "find (\<lambda>y. id_user y = au_id u \<and> id_provider y = id_provider x \<and> \<not> id_deleted y) (au_identities db) = Some y" for y
    using that by (blast dest: find_SomeD)
  show ?thesis
    using assms(4-6) other deleted_blocks(2) [OF inv x]
    by (auto simp: complete_oauth_link_def commit_def bind_result_def Let_def split: sum.splits option.splits)
qed

section \<open>The lock of an account\<close>

lemma locked_login:
  assumes "get_user_by_email (normalize_email address) False db = Some u" and "is_locked now u"
  shows "\<exists>e. fst (login_with_password env now dw rq address password db) = Inl e"
proof -
  obtain r db' where res: "login_with_password env now dw rq address password db = (r, db')"
    by (cases "login_with_password env now dw rq address password db")
  from res have "\<exists>e. r = Inl e" by (cases rule: login_cases) (use assms in auto)
  with res show ?thesis by simp
qed

lemma email_unique:
  assumes "auth_inv db" and "u \<in> set (au_users db)" and "citext_eq (au_email u) m" and "\<not> au_deleted u"
  shows "get_user_by_email m False db = Some u"
proof -
  have "distinct (map (\<lambda>u. py_lower (au_email u)) (au_users db))" using assms(1) by (simp add: auth_inv_def)
  note one = distinct_key_eq [OF this _ assms(2)]
  have "x = u" if "x \<in> set (au_users db)" "citext_eq (au_email x) m" for x
    by (rule one [OF that(1)]) (use that(2) assms(3) in \<open>simp add: citext_eq_def\<close>)
  then show ?thesis
    using assms(2-4) unfolding get_user_by_email_def by (intro find_unique) blast+
qed

text \<open>A wrong password that reaches the threshold locks the account until the lock expires.\<close>

lemma wrong_login_locks:
  assumes inv: "auth_inv db" and u: "get_user_by_email (normalize_email address) False db = Some u"
    and cfg: "EMAIL_AUTH_ENABLED (ve_settings env)" and "\<not> is_locked now u" and "\<not> verify_password env u password"
    and ok: "rr_allowed (get_login_failure_status (ve_rate env) now (request_ip env rq) (Some (normalize_email address)) None (au_attempts db))"
    and "au_failed u + 1 \<ge> SECURITY_SUSPICIOUS_ACTIVITY_THRESHOLD (ve_settings env)"
  shows "\<exists>v db'. login_with_password env now dw rq address password db = (Inl (AuthenticationError ''Invalid email or password''), db') \<and>
    get_user_by_email (normalize_email address) False db' = Some v \<and> au_id v = au_id u \<and>
    au_locked_until v = Some (now + timedelta_minutes (SECURITY_LOCKOUT_DURATION_MINUTES (ve_settings env)))"
proof -
  define email where "email = normalize_email address"
  let ?v = "u\<lparr>au_failed := au_failed u + 1, au_locked_until := Some (now + timedelta_minutes (SECURITY_LOCKOUT_DURATION_MINUTES (ve_settings env))),
      au_lockout_reason := Some ''invalid_credentials''\<rparr>"
  let ?c = "snd (count_login_failure env now rq (Some email) None db)"
  have mem: "u \<in> set (au_users db)" "citext_eq (au_email u) email" "\<not> au_deleted u"
    using email_user [OF u] by (simp_all add: email_def)
  have lim: "enforce_login_failure_limit env now rq (Some email) None db = (Inr (), db)"
    using ok by (simp add: enforce_login_failure_limit_def raise_audited_login_rate_limit_def email_def)
  define db' where "db' = record_event ''auth_login_failed'' (Some email)
      (record_failed_login_attempt env now (au_id u) ''invalid_credentials'' (Some email) False ?c)"
  have "login_with_password env now dw rq address password db = (Inl (AuthenticationError ''Invalid email or password''), db')"
    using assms(3-5) u lim mem by (simp add: login_with_password_def Let_def login_failed_def db'_def flip: email_def)
  moreover have users: "au_users db' = write_row au_id ?v (au_users db)"
    using row_by_id_of [OF inv mem(1)] assms(7) by (simp add: db'_def record_failed_login_attempt_def Let_def)
  have "advance {} {} db db'"
    using advance_failed_attempt [of ?c "{}" "{}" env now "au_id u" "''invalid_credentials''" "Some email" False] inv
    by (simp add: db'_def)
  then have "auth_inv db'" by (rule advance_inv)
  then have "get_user_by_email email False db' = Some ?v"
    by (rule email_unique) (use mem in \<open>auto simp: users in_write_row\<close>)
  ultimately show ?thesis by (intro exI [of _ ?v] exI [of _ db']) (simp add: email_def)
qed

section \<open>What a sign-in with a provider needs\<close>

lemma exchange_ok:
  assumes "oauth_exchange env now c = Inr profile"
  obtains payload b where "verify_oauth_state env now (oc_state c) = Inr payload" "decrypt env (or_string (oc_binding c) []) = Some b"
    "dict_get payload ''browser_binding_hash'' = Some (JStr (ve_sha256 env b))"
    "dict_get payload ''provider'' = Some (JStr (oauth_provider_name c))" "oc_profile c = Inr profile"
proof -
  from assms obtain payload where p: "verify_oauth_state env now (oc_state c) = Inr payload"
      "verify_oauth_login_browser_binding env payload (oc_binding c) = Inr ()"
      "dict_get payload ''provider'' = Some (JStr (oauth_provider_name c))" "oc_profile c = Inr profile"
    by (auto simp: oauth_exchange_def bind_result_Inr Let_def split: if_splits)
  from p(2) obtain b where "decrypt env (or_string (oc_binding c) []) = Some b"
      "dict_get payload ''browser_binding_hash'' = Some (JStr (ve_sha256 env b))"
    by (auto simp: verify_oauth_login_browser_binding_def Let_def split: option.splits json.splits if_splits)
  with p that show thesis by blast
qed

lemma issued_reply:
  assumes "issue_auth_response env now dw rq user ev b db = Inr (a, db')"
  shows "\<exists>t \<in> set (au_sessions db'). se_id t = sx_session_id (ay_session a) \<and> se_token_hash t = ve_sha256 env (dw_token dw) \<and>
    se_user t = au_id user \<and> (se_twofa t \<longleftrightarrow> \<not> b)"
  using assms
  by (auto simp: issue_auth_response_def create_partial_session_def bind_result_Inr Let_def elim!: create_session_cases split: if_splits)

lemma upsert_account:
  assumes inv: "auth_inv db" and ok: "upsert_oauth_user env dw invited provider profile db = Inr (u, d)"
  obtains subject where "provider_user_id_from_profile provider profile = Some subject"
    "(\<exists>x \<in> set (au_identities db). identity_is provider subject x \<and> id_user x = au_id u) \<or>
     (\<exists>m. provider_email provider profile = Some m \<and> (\<forall>w \<in> set (au_users db). au_id w \<noteq> au_id u \<and> \<not> citext_eq (au_email w) m))"
  using ok
proof (cases rule: upsert_cases [OF inv ok, case_names linked created])
  case (linked x subject)
  then show thesis using that by blast
next
  case (created subject email db1 v l)
  have "au_id v \<notin> au_id ` set (au_users db)" "\<And>x. x \<in> set (au_users db) \<Longrightarrow> \<not> citext_eq (au_email x) (au_email v)"
    using insert_user_tables(2,3) [OF created(5)] by blast+
  then have "\<forall>w \<in> set (au_users db). au_id w \<noteq> au_id u \<and> \<not> citext_eq (au_email w) email"
    using created(4,6) by (auto simp: image_iff)
  then show thesis using that created(1,2) by blast
qed

end
