(* ===== verification/Auth_Csrf.thy ===== *)
theory Auth_Csrf
  imports Auth_Sessions Canonical_Json
begin

text \<open>
  The protection of cookie-authenticated requests (\<^verbatim>\<open>middleware/csrf.py\<close>, the signed tokens of
  \<^verbatim>\<open>utils/security.py\<close>): the check of the origin, the token and its binding to the session, and who is exempt.
  HMAC-SHA256 under the application's secret and the origin that \<^verbatim>\<open>urlparse\<close> finds in a referer are arguments.
\<close>

record csrf_env =
  cv_sha256 :: "string \<Rightarrow> string"
  cv_hmac :: "string \<Rightarrow> string"
  cv_settings :: auth_settings
  cv_origins :: "string list"
  cv_frontend :: string
  cv_url_origin :: "string \<Rightarrow> string"

section \<open>Signed tokens\<close>

definition CSRF_TOKEN_MAX_AGE :: "csrf_env \<Rightarrow> int" where
  "CSRF_TOKEN_MAX_AGE env = SESSION_DURATION_DAYS (cv_settings env) * 86400"

definition session_hash_prefix :: "csrf_env \<Rightarrow> string \<Rightarrow> string" where
  "session_hash_prefix env session_token = take 16 (cv_sha256 env session_token)"

text \<open>\<open>now\<close> is \<^verbatim>\<open>int(time.time())\<close>, a number of seconds.\<close>

definition generate_csrf_token :: "csrf_env \<Rightarrow> nat \<Rightarrow> string \<Rightarrow> string" where
  "generate_csrf_token env now session_token =
     (let prefix = session_hash_prefix env session_token; timestamp = nat_text now
      in prefix @ ''.'' @ timestamp @ ''.'' @ cv_hmac env (prefix @ '':'' @ timestamp))"

text \<open>\<^verbatim>\<open>int(s)\<close>: blanks around, a sign, and decimal digits with single underscores between them.\<close>

fun digit_groups :: "bool \<Rightarrow> int \<Rightarrow> string \<Rightarrow> int option" where
  "digit_groups after_digit v [] = (if after_digit then Some v else None)"
| "digit_groups after_digit v (c # cs) =
     (if decimal_char c then digit_groups True (10 * v + (of_char c - 48)) cs
      else if c = CHR ''_'' \<and> after_digit then digit_groups False v cs else None)"

definition py_int :: "string \<Rightarrow> int option" where
  "py_int s =
     (case py_strip s of
        [] \<Rightarrow> None
      | c # cs \<Rightarrow>
          if c = CHR ''-'' then map_option uminus (digit_groups False 0 cs)
          else if c = CHR ''+'' then digit_groups False 0 cs
          else digit_groups False 0 (c # cs))"

definition verify_csrf_token :: "csrf_env \<Rightarrow> nat \<Rightarrow> string \<Rightarrow> string \<Rightarrow> int \<Rightarrow> app_error + unit" where
  "verify_csrf_token env now csrf_token session_token max_age =
     (case split_on (CHR ''.'') csrf_token of
        [token_prefix, timestamp_str, signature] \<Rightarrow>
          (case py_int timestamp_str of
             None \<Rightarrow> Inl (AuthorizationError ''Invalid CSRF token'')
           | Some timestamp \<Rightarrow>
               if int now - timestamp > max_age then Inl (AuthorizationError ''CSRF token expired'')
               else if token_prefix \<noteq> session_hash_prefix env session_token
               then Inl (AuthorizationError ''Invalid CSRF token'')
               else if signature \<noteq> cv_hmac env (token_prefix @ '':'' @ timestamp_str)
               then Inl (AuthorizationError ''Invalid CSRF token'') else Inr ())
      | _ \<Rightarrow> Inl (AuthorizationError ''Invalid CSRF token''))"

section \<open>The middleware\<close>

record csrf_request =
  cr_method :: string
  cr_path :: string
  cr_session :: "string option"
  cr_header :: "string option"
  cr_origin :: "string option"
  cr_referer :: "string option"

text \<open>The exempt patterns by the segments of the path; \<^verbatim>\<open>.\<close> matches everything but a line feed.\<close>

definition is_exempt :: "csrf_request \<Rightarrow> bool" where
  "is_exempt rq \<longleftrightarrow>
     (cr_method rq = ''POST'' \<and>
        (case split_on (CHR ''/'') (cr_path rq) of
           [[], a, v, auth, x] \<Rightarrow>
             a = ''api'' \<and> v = ''v1'' \<and> auth = ''auth'' \<and> x \<in> {''register'', ''login''}
         | [[], a, v, auth, o', provider, x] \<Rightarrow>
             a = ''api'' \<and> v = ''v1'' \<and> auth = ''auth'' \<and> o' = ''oauth'' \<and> provider \<noteq> [] \<and>
             x \<in> {''authorization-url'', ''callback''}
         | _ \<Rightarrow> False)) \<or>
     (cr_method rq = ''PUT'' \<and>
        (case split_on (CHR ''/'') (cr_path rq) of
           [] # a # v # st # up # key # rest \<Rightarrow>
             a = ''api'' \<and> v = ''v1'' \<and> st = ''storage'' \<and> up = ''upload'' \<and> key \<noteq> [] \<and>
             rest \<notin> {[], [[]]} \<and> list_all (\<lambda>w. CHR 0x0A \<notin> set w) rest
         | _ \<Rightarrow> False))"

definition should_enforce_csrf :: "csrf_request \<Rightarrow> bool" where
  "should_enforce_csrf rq \<longleftrightarrow>
     cr_method rq \<in> {''POST'', ''PUT'', ''PATCH'', ''DELETE''} \<and> \<not> is_exempt rq \<and> or_string (cr_session rq) [] \<noteq> []"

definition allowed_origins :: "csrf_env \<Rightarrow> string list" where
  "allowed_origins env =
     map (rstrip_char (CHR ''/'')) (cv_origins env) @
     (if cv_frontend env = [] then [] else [rstrip_char (CHR ''/'') (cv_frontend env)])"

definition check_origin :: "csrf_env \<Rightarrow> csrf_request \<Rightarrow> app_error + unit" where
  "check_origin env rq =
     (if or_string (cr_origin rq) [] \<noteq> []
      then
        (if rstrip_char (CHR ''/'') (or_string (cr_origin rq) []) \<notin> set (allowed_origins env)
         then Inl (AuthorizationError ''CSRF origin rejected'') else Inr ())
      else if or_string (cr_referer rq) [] \<noteq> []
      then
        (if rstrip_char (CHR ''/'') (cv_url_origin env (or_string (cr_referer rq) [])) \<notin> set (allowed_origins env)
         then Inl (AuthorizationError ''CSRF referer rejected'') else Inr ())
      else Inr ())"

text \<open>What the middleware decides before the request is handed on: None lets it pass.\<close>

definition csrf_decision :: "csrf_env \<Rightarrow> nat \<Rightarrow> csrf_request \<Rightarrow> app_error option" where
  "csrf_decision env now rq =
     (if \<not> should_enforce_csrf rq then None
      else
        (case bind_result (check_origin env rq) (\<lambda>_.
                if or_string (cr_header rq) [] = [] then Inl (AuthorizationError ''CSRF token missing'')
                else verify_csrf_token env now (or_string (cr_header rq) []) (or_string (cr_session rq) []) (CSRF_TOKEN_MAX_AGE env)) of
           Inl e \<Rightarrow> Some e | Inr _ \<Rightarrow> None))"

text \<open>The fresh token of an answer.\<close>

definition refreshed_csrf_cookie :: "csrf_env \<Rightarrow> nat \<Rightarrow> csrf_request \<Rightarrow> int \<Rightarrow> bool \<Rightarrow> string option" where
  "refreshed_csrf_cookie env now rq status artifact_path =
     (if or_string (cr_session rq) [] \<noteq> [] \<and> status < 400 \<and> \<not> artifact_path
      then Some (generate_csrf_token env now (or_string (cr_session rq) [])) else None)"

section \<open>Reading back a generated token\<close>

lemma split_on_ne: "split_on c s \<noteq> []"
  by (induction s) (auto split: list.splits)

lemma split_on_plain: "c \<notin> set s \<Longrightarrow> split_on c s = [s]"
  by (induction s) auto

lemma split_on_skip: "c \<notin> set s \<Longrightarrow> split_on c (s @ c # t) = s # split_on c t"
  by (induction s) (auto split: list.splits simp: split_on_ne)

lemma split_on_two:
  "c \<notin> set s \<Longrightarrow> c \<notin> set t \<Longrightarrow> c \<notin> set u \<Longrightarrow> split_on c (s @ c # t @ c # u) = [s, t, u]"
  by (simp add: split_on_skip split_on_plain)

lemma split_on_join: "split_on c s = ws \<Longrightarrow> s = join_with [c] ws"
proof (induction s arbitrary: ws)
  case (Cons x s)
  obtain w vs where w: "split_on c s = w # vs" using split_on_ne by (cases "split_on c s") blast+
  from Cons.IH [OF w] Cons.prems w show ?case by (cases vs) (auto split: if_splits)
qed auto

lemma decimal_digit: "decimal_char = digit_char"
  by (rule ext) (simp add: decimal_char_def digit_char_def)

lemma digit_groups_digits:
  "list_all digit_char s \<Longrightarrow> s \<noteq> [] \<Longrightarrow>
     digit_groups b v s = Some (foldl (\<lambda>v c. 10 * v + (of_char c - 48)) v s)"
proof (induction s arbitrary: b v)
  case (Cons c s)
  then show ?case by (cases "s = []") (simp_all add: decimal_digit)
qed simp

lemma foldl_digits:
  "list_all digit_char s \<Longrightarrow>
     foldl (\<lambda>v c. 10 * v + (of_char c - 48)) (int v) s = int (foldl (\<lambda>v c. 10 * v + (of_char c - 48)) v s)"
proof (induction s arbitrary: v)
  case (Cons c s)
  have "(of_char c :: int) = int (of_char c)" by (simp only: of_nat_of_char)
  moreover have "48 \<le> (of_char c :: nat)" using Cons.prems by (simp add: digit_char_def Let_def)
  ultimately have "10 * int v + (of_char c - 48) = int (10 * v + (of_char c - 48))" by (simp add: of_nat_diff)
  with Cons.prems Cons.IH [of "10 * v + (of_char c - 48)"] show ?case by (simp only: foldl_Cons list.pred_inject)
qed simp

lemma digit_not:
  assumes "digit_char c"
  shows "c \<noteq> CHR ''.''" "c \<noteq> CHR ''-''" "c \<noteq> CHR ''+''" "\<not> py_space c"
  using assms by (auto simp: digit_char_def py_space_def Let_def)

lemma py_strip_id: "\<forall>c \<in> set s. \<not> py_space c \<Longrightarrow> py_strip s = s"
proof -
  assume plain: "\<forall>c \<in> set s. \<not> py_space c"
  then have "dropWhile py_space s = s" by (cases s) auto
  moreover have "dropWhile py_space (rev s) = rev s" using plain by (cases "rev s") (auto simp: rev_eq_Cons_iff)
  ultimately show ?thesis by (simp add: py_strip_def)
qed

lemma py_int_nat_text: "py_int (nat_text n) = Some (int n)"
proof -
  have digits: "nat_text n \<noteq> []" "list_all digit_char (nat_text n)" using nat_text_digits by blast+
  then have "py_strip (nat_text n) = nat_text n" by (intro py_strip_id) (auto simp: list_all_iff dest: digit_not)
  moreover have "digit_groups False 0 (nat_text n) = Some (int n)"
    using digit_groups_digits [OF digits(2,1)] foldl_digits [OF digits(2), of 0] nat_text_value [of n]
    by (simp add: digits_value_def)
  moreover obtain c cs where "nat_text n = c # cs" "digit_char c" using digits by (cases "nat_text n") auto
  ultimately show ?thesis by (simp add: py_int_def digit_not)
qed

lemma nat_text_no_dot: "CHR ''.'' \<notin> set (nat_text n)"
  using nat_text_digits [of n] by (auto simp: list_all_iff dest: digit_not)

lemma verify_generated:
  assumes "\<And>x. CHR ''.'' \<notin> set (cv_sha256 env x)" and "\<And>x. CHR ''.'' \<notin> set (cv_hmac env x)"
  shows "verify_csrf_token env now (generate_csrf_token env issued s) t max_age =
    (if int now - int issued > max_age then Inl (AuthorizationError ''CSRF token expired'')
     else if session_hash_prefix env s \<noteq> session_hash_prefix env t then Inl (AuthorizationError ''Invalid CSRF token'')
     else Inr ())"
proof -
  have "CHR ''.'' \<notin> set (session_hash_prefix env s)"
    using assms(1) by (auto simp: session_hash_prefix_def dest: in_set_takeD)
  then have "split_on (CHR ''.'') (generate_csrf_token env issued s) =
      [session_hash_prefix env s, nat_text issued, cv_hmac env (session_hash_prefix env s @ '':'' @ nat_text issued)]"
    using split_on_two [OF _ nat_text_no_dot assms(2)] by (simp add: generate_csrf_token_def Let_def)
  then show ?thesis by (simp add: verify_csrf_token_def py_int_nat_text)
qed

lemma verified_shape:
  assumes "verify_csrf_token env now token s max_age = Inr ()"
  shows "\<exists>stamp k. token = session_hash_prefix env s @ ''.'' @ stamp @ ''.'' @ cv_hmac env (session_hash_prefix env s @ '':'' @ stamp) \<and>
    py_int stamp = Some k \<and> int now - k \<le> max_age"
proof -
  from assms obtain a b d where parts: "split_on (CHR ''.'') token = [a, b, d]"
    by (auto simp: verify_csrf_token_def split: list.splits)
  from split_on_join [OF parts] have "token = a @ ''.'' @ b @ ''.'' @ d" by simp
  with assms parts show ?thesis by (auto simp: verify_csrf_token_def split: option.splits if_splits)
qed

end
