(* ===== verification/Auth_Sample.thy ===== *)
theory Auth_Sample
  imports Auth_Endings Auth_Csrf
begin

text \<open>
  A concrete environment for the accounts, with a reader and a writer for each library function, and tables
  with two users, on which the witnesses of the properties are evaluated.
\<close>

section \<open>Lists of strings as one string\<close>

fun pack_codes :: "string list \<Rightarrow> string" where
  "pack_codes [] = []"
| "pack_codes ([] # ws) = CHR ''0'' # pack_codes ws"
| "pack_codes ((c # w) # ws) = CHR ''1'' # c # pack_codes (w # ws)"

fun unpack_codes :: "string \<Rightarrow> string \<Rightarrow> string list option" where
  "unpack_codes acc [] = Some []"
| "unpack_codes acc [x] = map_option (Cons (rev acc)) (if x = CHR ''0'' then Some [] else None)"
| "unpack_codes acc (x # c # s) =
     (if x = CHR ''0'' then map_option (Cons (rev acc)) (unpack_codes [] (c # s)) else unpack_codes (c # acc) s)"

lemma unpack_pack: "unpack_codes acc (pack_codes (w # ws)) = Some ((rev acc @ w) # ws)"
proof (induction "w # ws" arbitrary: acc w ws rule: pack_codes.induct)
  case (2 ws)
  then show ?case
  proof (cases ws)
    case (Cons v vs)
    with 2 have "unpack_codes [] (pack_codes ws) = Some ws" by simp
    moreover have "pack_codes ws \<noteq> []" using Cons by (cases v) simp_all
    ultimately show ?thesis by (cases "pack_codes ws") simp_all
  qed simp
next
  case (3 c w ws)
  have "unpack_codes (c # acc) (pack_codes (w # ws)) = Some ((rev (c # acc) @ w) # ws)" by (rule 3)
  then show ?case by simp
qed

lemma unpack_pack_all: "unpack_codes [] (pack_codes ws) = Some ws"
  using unpack_pack [of "[]"] by (cases ws) simp_all

section \<open>The environment\<close>

definition sample_state_payload :: pydict where
  "sample_state_payload =
     [(''type'', JStr ''oauth_state''), (''provider'', JStr ''google''), (''redirect_uri'', JStr ''u''),
      (''browser_binding_hash'', JStr ''b'')]"

definition sample_link_payload :: pydict where
  "sample_link_payload =
     [(''type'', JStr ''oauth_link_state''), (''provider'', JStr ''google''), (''redirect_uri'', JStr ''u''),
      (''user_id'', JStr ''1'')]"

definition sample_auth_env :: auth_env where
  "sample_auth_env =
     \<lparr>ve_rate = \<lparr>rl_settings = default_rate_limit_settings\<lparr>RATE_LIMIT_ENABLED := False\<rparr>, parse_ip = Some,
        trusted = (\<lambda>_. False), rl_sha256 = (\<lambda>s. s)\<rparr>,
      ve_settings = default_auth_settings\<lparr>super_admin_emails_list := [''b@x'']\<rparr>,
      pw_verify = (\<lambda>x h. Some (h = CHR ''p'' # x)), pw_hash = (\<lambda>_ x. CHR ''p'' # x),
      encrypt = (\<lambda>_ s. CHR ''e'' # s), decrypt = (\<lambda>s. Some (tl s)),
      otp = (\<lambda>secret c. Some (if even c then ''0'' else ''1'')), timecode = (\<lambda>t. t div 30000000), strings_equal = (=),
      codes_out = pack_codes, codes_in = unpack_codes [],
      jwt_encode = (\<lambda>_. ''j''),
      jwt_decode = (\<lambda>_ t. if t = ''state'' then Inr sample_state_payload
        else if t = ''link'' then Inr sample_link_payload else Inl JwtInvalid),
      uuid_text = nat_text, read_uuid_text = (\<lambda>_. None)\<rparr>"

lemma sample_secrets: "secrets_law sample_auth_env"
  by (auto simp: secrets_law_def sample_auth_env_def unpack_pack_all)

definition sample_account :: auth_user where
  "sample_account =
     \<lparr>au_id = 1, au_email = ''a@x'', au_is_active = True, au_deleted = False, au_default_workspace = Some 7,
      au_password_hash = Some ''psecret1'', au_totp_secret = Some ''ek'', au_totp_enabled = True, au_last_counter = None,
      au_backup_codes = None, au_failed = 0, au_locked_until = None, au_lockout_reason = None\<rparr>"

definition sample_admin :: auth_user where
  "sample_admin = sample_account\<lparr>au_id := 2, au_email := ''b@x'', au_totp_secret := None, au_totp_enabled := False\<rparr>"

definition sample_session :: "uuid \<Rightarrow> uuid \<Rightarrow> string \<Rightarrow> bool \<Rightarrow> auth_session" where
  "sample_session i u h f =
     \<lparr>se_id = i, se_user = u, se_token_hash = h, se_ip = None, se_user_agent = None, se_created_at = 0,
      se_expires_at = 600000000, se_last_accessed = 0, se_twofa = f, se_deleted = False\<rparr>"

definition sample_linked :: "bool \<Rightarrow> auth_identity" where
  "sample_linked d =
     \<lparr>id_user = 1, id_provider = ''google'', id_subject = ''s'', id_email = ''a@x'', id_verified = True, id_deleted = d\<rparr>"

text \<open>The user 1 has a verified session \<open>t\<close> and a partial session \<open>p\<close>; the admin has the session \<open>q\<close>.\<close>

definition sample_auth_db :: auth_db where
  "sample_auth_db =
     \<lparr>au_users = [sample_account, sample_admin],
      au_sessions = [sample_session 11 1 ''t'' True, sample_session 12 1 ''p'' False, sample_session 13 2 ''q'' True],
      au_identities = [sample_linked False], au_attempts = [], au_log = []\<rparr>"

definition sample_auth_rq :: "string \<Rightarrow> auth_request" where
  "sample_auth_rq t = \<lparr>rq_cookie = Some t, rq_authorization = None, rq_client_ip = ''1'', rq_user_agent = None\<rparr>"

definition sample_draws :: "string \<Rightarrow> uuid \<Rightarrow> auth_draws" where
  "sample_draws t i =
     \<lparr>dw_token = t, dw_session_id = i, dw_user_id = 100 + i, dw_workspace_id = 200 + i, dw_salt = 0, dw_nonce = 0,
      dw_secret = ''k'', dw_codes = [''c1'', ''c2'', ''c3'']\<rparr>"

definition sample_oauth_call :: "string \<Rightarrow> oauth_call" where
  "sample_oauth_call state =
     \<lparr>oc_provider = ''google'', oc_registered = (\<lambda>_. True), oc_configured = (\<lambda>_. Some ''u''), oc_state = state,
      oc_redirect = None, oc_binding = Some ''eb'', oc_tokens = Inr [(''access_token'', JStr ''x'')],
      oc_profile = Inr [(''id'', JStr ''s''), (''email'', JStr ''a@x''), (''verified_email'', JBool True)]\<rparr>"

lemmas auth_sample_defs = sample_auth_env_def sample_account_def sample_admin_def sample_session_def sample_linked_def
  sample_auth_db_def sample_auth_rq_def sample_draws_def sample_oauth_call_def sample_state_payload_def sample_link_payload_def

lemma sample_lower: "py_lower ''a@x'' = ''a@x''" "py_lower ''b@x'' = ''b@x''"
  by code_simp+

lemma sample_auth_inv: "auth_inv sample_auth_db"
  by (simp add: auth_inv_def auth_sample_defs sample_lower user_ok_def or_string_def)

end
