(* ===== verification/Auth_Properties.thy ===== *)
theory Auth_Properties
  imports Auth_Sample
begin

text \<open>
  The properties of the accounts: the second factor, sessions and their ends, the lock of an account, sign-in
  with a provider, and the CSRF protection of requests.
\<close>

section \<open>The second factor\<close>

text \<open>
  C29: A verified session of an account whose second factor is enabled comes into being in one way only, whatever
  the event: the verification of the second factor, with an unused one-time code or an unused backup code
  of this account. A password, a provider, a registration or any request of a signed-in user gives at most a
  partial session.\<close>

theorem second_factor_required:
  assumes "auth_inv db" and "u \<in> set (au_users db)" and "au_totp_enabled u"
    and "t \<in> set (au_sessions (auth_step env db e))" and "se_token_hash t \<notin> se_token_hash ` set (au_sessions db)"
    and "se_user t = au_id u" and "se_twofa t"
  shows "\<exists>now later dw rq token code. e = VerifyTotp now later dw rq token code \<and>
    factor_accepted env now (dw_nonce dw) u token code"
proof (cases "drawn env e = {}")
  case True
  with advance_step [OF assms(1), of env e] assms(4,5) have False
    by (auto simp: advance_def sessions_from_def session_after_def)
  then show ?thesis ..
next
  case False
  then consider (login) now dw rq m p where "e = Login now dw rq m p" | (totp) now later dw rq k c where "e = VerifyTotp now later dw rq k c"
    | (oauth) now dw invited rq c where "e = OauthLogin now dw invited rq c" | (register) now dw rq m p i where "e = Register now dw rq m p i"
    by (cases e) auto
  then show ?thesis
  proof cases
    case login
    then show ?thesis using login_session [OF assms(1-3)] assms(4-7) by auto
  next
    case totp
    then show ?thesis using verify_totp_session [OF assms(1,2)] assms(4-6) by auto
  next
    case oauth
    then show ?thesis using oauth_session [OF assms(1-3)] assms(4-7) by auto
  next
    case register
    then show ?thesis using register_session assms(2,4-6) by (metis auth_step.simps(4) imageI)
  qed
qed

definition verified_row :: auth_session where
  "verified_row = \<lparr>se_id = 20, se_user = 1, se_token_hash = ''n'', se_ip = None, se_user_agent = None, se_created_at = 5,
     se_expires_at = 604800000005, se_last_accessed = 5, se_twofa = True, se_deleted = False\<rparr>"

lemma sample_sessions_distinct: "''n'' \<notin> se_token_hash ` set (au_sessions sample_auth_db)"
  by (simp add: auth_sample_defs)

definition totp_event :: auth_event where
  "totp_event = VerifyTotp 5 5 (sample_draws ''n'' 20) (sample_auth_rq ''p'') (Some ''0'') None"

lemma sample_verified_row: "verified_row \<in> set (au_sessions (auth_step sample_auth_env sample_auth_db totp_event))"
  unfolding totp_event_def verified_row_def by code_simp

theorem second_factor_required_witness:
  "\<exists>now later dw rq token code. totp_event = VerifyTotp now later dw rq token code \<and>
    factor_accepted sample_auth_env now (dw_nonce dw) sample_account token code"
proof (rule second_factor_required [OF sample_auth_inv _ _ sample_verified_row])
  show "sample_account \<in> set (au_users sample_auth_db)" by (simp add: sample_auth_db_def)
qed (simp_all add: verified_row_def sample_sessions_distinct sample_account_def)

text \<open>
  C30: A one-time code is accepted once. Of two accepted verifications of an account by one-time code, with any
  events in between as long as none enrols the factor anew or removes it, the second matched a strictly later
  counter than the first; so a code that was seen in transit, and every older one, is worthless.\<close>

theorem totp_code_single_use:
  assumes "auth_inv db" and "verify_totp env n1 l1 dw1 rq1 (Some k1) None db = (Inr a1, db1)"
    and "db2 = foldl (auth_step env) db1 es" and "ay_user a1 = Some i" and "unreset env i db1 es"
    and "verify_totp env n2 l2 dw2 rq2 (Some k2) None db2 = (Inr a2, db3)" and "ay_user a2 = Some i"
  shows "\<exists>u v c1 c2. row_by_id au_id i (au_users db) = Some u \<and> matching_totp_counter env n1 u k1 = Some c1 \<and>
    row_by_id au_id i (au_users db2) = Some v \<and> matching_totp_counter env n2 v k2 = Some c2 \<and> c1 < c2"
proof -
  have inv1: "auth_inv db1" using advance_verify_totp [OF assms(1), of env dw1 "{}" n1 l1 rq1 "Some k1" None] assms(2)
    by (auto dest: advance_inv)
  have inv2: "auth_inv db2" unfolding assms(3) by (rule auth_system.run_inv [OF inv1])
  obtain u c1 u1 where u: "au_id u = i" "row_by_id au_id i (au_users db) = Some u" "matching_totp_counter env n1 u k1 = Some c1"
      "row_by_id au_id i (au_users db1) = Some u1" "au_last_counter u1 = Some c1"
    using verified_counter [OF assms(1,2)] assms(4) by (metis option.inject)
  obtain v c2 where v: "row_by_id au_id i (au_users db2) = Some v" "matching_totp_counter env n2 v k2 = Some c2" "counter_unused c2 v"
    using verified_counter [OF inv2 assms(6)] assms(7) by (metis option.inject)
  obtain d where "au_last_counter v = Some d" "c1 \<le> d"
    using counter_along [OF inv1 u(4,5) assms(5)] v(1) by (auto simp: assms(3))
  with v(3) have "c1 < c2" by (simp add: counter_unused_def)
  with u v show ?thesis by blast
qed

text \<open>In the sample a second partial session is verified half a minute later, with the next code.\<close>

definition second_login :: auth_event where
  "second_login = Login 6 (sample_draws ''p2'' 21) (sample_auth_rq ''x'') ''a@x'' ''secret1''"

definition first_verified :: "(app_error + auth_reply) \<times> auth_db" where
  "first_verified = verify_totp sample_auth_env 5 5 (sample_draws ''n'' 20) (sample_auth_rq ''p'') (Some ''0'') None sample_auth_db"

definition second_verified :: "(app_error + auth_reply) \<times> auth_db" where
  "second_verified = verify_totp sample_auth_env 30000001 30000001 (sample_draws ''n2'' 22) (sample_auth_rq ''p2'') (Some ''1'') None
     (foldl (auth_step sample_auth_env) (snd first_verified) [second_login])"

definition accepted_for :: "(app_error + auth_reply) \<times> auth_db \<Rightarrow> uuid option" where
  "accepted_for r = (case fst r of Inr a \<Rightarrow> ay_user a | Inl _ \<Rightarrow> None)"

lemma sample_verified: "accepted_for first_verified = Some 1" "accepted_for second_verified = Some 1"
  by code_simp+

lemma accepted_reply: "accepted_for r = Some i \<Longrightarrow> \<exists>a. r = (Inr a, snd r) \<and> ay_user a = Some i"
  by (cases r) (auto simp: accepted_for_def split: sum.splits)

theorem totp_code_single_use_witness:
  "\<exists>u v c1 c2. row_by_id au_id 1 (au_users sample_auth_db) = Some u \<and> matching_totp_counter sample_auth_env 5 u ''0'' = Some c1 \<and>
    row_by_id au_id 1 (au_users (foldl (auth_step sample_auth_env) (snd first_verified) [second_login])) = Some v \<and>
    matching_totp_counter sample_auth_env 30000001 v ''1'' = Some c2 \<and> c1 < c2"
proof -
  obtain a1 where a1: "first_verified = (Inr a1, snd first_verified)" "ay_user a1 = Some 1"
    using accepted_reply [OF sample_verified(1)] by blast
  obtain a2 where a2: "second_verified = (Inr a2, snd second_verified)" "ay_user a2 = Some 1"
    using accepted_reply [OF sample_verified(2)] by blast
  have free: "unreset sample_auth_env 1 (snd first_verified) [second_login]" by (simp add: second_login_def)
  show ?thesis
    by (rule totp_code_single_use [OF sample_auth_inv first_verified_def [symmetric, THEN trans, OF a1(1)] refl a1(2) free
          second_verified_def [symmetric, THEN trans, OF a2(1)] a2(2)])
qed



section \<open>Sessions\<close>

text \<open>
  C32: The session table implements a map from token hashes to (user, verified, expiry). Looking a session up is looking its
  hash up in the map; creating one binds a fresh hash; revoking one, those of a user except the kept one, and
  the partial ones removes exactly these bindings; completing a second factor replaces the binding of the
  partial token by a verified one of the same user; and the clean-up removes exactly the expired ones.\<close>

theorem session_store_refines:
  assumes inv: "auth_inv db"
  shows "let m = live_sessions (au_sessions db) in
    map_option snd (get_valid_session env now token b db) =
      (if py_strip token = [] then None else map_lookup now b (au_users db) m (ve_sha256 env token)) \<and>
    (\<forall>r T. create_session env now token sid user ip agent duration twofa (au_sessions db) = Inr (r, T) \<longrightarrow>
      live_sessions T = m(ve_sha256 env token \<mapsto> (user, twofa, sx_expires_at r))) \<and>
    live_sessions (snd (revoke_session env token (au_sessions db))) =
      (if py_strip token = [] then m else m(ve_sha256 env token := None)) \<and>
    live_sessions (snd (revoke_user_sessions env i exclude (au_sessions db))) =
      map_restrict (\<lambda>h u f e. u \<noteq> i \<or> kept_hash env exclude = Some h) m \<and>
    live_sessions (snd (revoke_user_partial_sessions i (au_sessions db))) = map_restrict (\<lambda>h u f e. u \<noteq> i \<or> f) m \<and>
    (\<forall>r T. upgrade_partial_session env later fresh sid token (au_sessions db) = Inr (Some r, T) \<longrightarrow>
      (\<exists>i expires. m (ve_sha256 env token) = Some (i, False, expires) \<and> later < expires \<and>
        live_sessions T = m(ve_sha256 env token := None, ve_sha256 env fresh \<mapsto> (i, True, sx_expires_at r)))) \<and>
    live_sessions (snd (cleanup_expired_sessions now (au_sessions db))) = map_restrict (\<lambda>h u f e. now < e) m"
proof -
  note u = hashes_distinct [OF inv]
  show ?thesis
    unfolding Let_def live_lookup [OF inv] live_revoke [OF inv] live_revoke_user [OF u] live_revoke_partial [OF u] live_cleanup [OF u]
    by (intro conjI allI impI refl live_create live_upgrade [OF inv]) assumption+
qed

theorem session_store_refines_witness:
  "live_sessions (snd (revoke_user_sessions sample_auth_env 1 (Some ''t'') (au_sessions sample_auth_db))) =
     [''t'' \<mapsto> (1, True, 600000000), ''q'' \<mapsto> (2, True, 600000000)]"
proof -
  have strip: "py_strip ''t'' = ''t''" by code_simp
  have "live_sessions (au_sessions sample_auth_db) =
      [''t'' \<mapsto> (1, True, 600000000), ''p'' \<mapsto> (1, False, 600000000), ''q'' \<mapsto> (2, True, 600000000)]"
    by (auto simp: fun_eq_iff live_sessions_def auth_sample_defs)
  then show ?thesis
    using session_store_refines [OF sample_auth_inv, of sample_auth_env 0 "[]" True 0 0 None None None True 1 "Some ''t''" 0 "[]"]
    by (auto simp: Let_def fun_eq_iff map_restrict_def kept_hash_def strip sample_auth_env_def split: option.splits)
qed

text \<open>
  C33: A session that was ended stays ended. After a logout, a revocation by its owner, a change or a reset of the
  password (a change spares the session it was made in), a deactivation or a deletion of the account, the
  token of the session authenticates nobody, in every state that any further events lead to, as long as the
  same token is not drawn again. Internal tokens, which are no session tokens, are excluded.\<close>

theorem ended_session_final:
  assumes "auth_inv db" and "ends_session env t db db'" and "\<forall>e \<in> set es. ve_sha256 env t \<notin> drawn env e"
    and "isl (jwt_decode env now t)"
  shows "authenticate env now unlocked run_ok (Some t) (foldl (auth_step env) db' es) = (None, foldl (auth_step env) db' es)"
proof (rule dead_token [OF _ assms(4)])
  have "live_hash db' (ve_sha256 env t) \<noteq> Some (ve_sha256 env t)" using ended_dead [OF assms(1,2)] by simp
  from session_fencing.lost_stays_lost [OF ended_state_inv [OF assms(1,2)] this assms(3)]
  show "live_hash (foldl (auth_step env) db' es) (ve_sha256 env t) = None" by (simp add: live_hash_ne)
qed

text \<open>In the sample the admin resets the password of user 1, who then signs in again.\<close>

definition sample_reset :: "(app_error + nat) \<times> auth_db" where
  "sample_reset = set_user_password sample_auth_env (sample_draws ''n'' 20) 1 ''secret22'' sample_auth_db"

theorem ended_session_final_witness:
  "authenticate sample_auth_env 7 True (\<lambda>_. True) (Some ''t'')
     (foldl (auth_step sample_auth_env) (snd sample_reset)
       [Login 6 (sample_draws ''p2'' 21) (sample_auth_rq ''x'') ''a@x'' ''secret22'']) =
   (None, foldl (auth_step sample_auth_env) (snd sample_reset)
       [Login 6 (sample_draws ''p2'' 21) (sample_auth_rq ''x'') ''a@x'' ''secret22''])"
proof (rule ended_session_final [OF sample_auth_inv])
  have "fst sample_reset = Inr 2" by code_simp
  then have "sample_reset = (Inr 2, snd sample_reset)" by (metis prod.collapse)
  then have "set_user_password sample_auth_env (sample_draws ''n'' 20) (se_user (sample_session 11 1 ''t'' True)) ''secret22'' sample_auth_db =
      (Inr 2, snd sample_reset)"
    by (simp add: sample_session_def sample_reset_def)
  then show "ends_session sample_auth_env ''t'' sample_auth_db (snd sample_reset)"
    by (rule ends_session.by_reset [rotated 2]) (simp_all add: auth_sample_defs)
  show "\<forall>e \<in> set [Login 6 (sample_draws ''p2'' 21) (sample_auth_rq ''x'') ''a@x'' ''secret22'']. ve_sha256 sample_auth_env ''t'' \<notin> drawn sample_auth_env e"
    by (simp add: sample_auth_env_def sample_draws_def)
  show "isl (jwt_decode sample_auth_env 7 ''t'')" by (simp add: sample_auth_env_def)
qed





section \<open>Providers\<close>

text \<open>
  C35: A completed sign-in with a provider was started in this browser, and opens a session of the right account. The
  signed state is valid and carries the hash of the secret in the browser's cookie; and the session belongs to an
  account that was already linked with the provider's user, or to a new account whose address no account
  had. So a provider that reports the address of an existing account does not open it.\<close>

theorem oauth_login_bound:
  assumes "auth_inv db" and "complete_oauth_login env now dw invited rq c db = (Inr a, db')"
  shows "\<exists>payload b profile subject t. verify_oauth_state env now (oc_state c) = Inr payload \<and>
    decrypt env (or_string (oc_binding c) []) = Some b \<and> dict_get payload ''browser_binding_hash'' = Some (JStr (ve_sha256 env b)) \<and>
    oc_profile c = Inr profile \<and> provider_user_id_from_profile (oauth_provider_name c) profile = Some subject \<and>
    t \<in> set (au_sessions db') \<and> se_id t = sx_session_id (ay_session a) \<and> se_token_hash t = ve_sha256 env (dw_token dw) \<and>
    ((\<exists>x \<in> set (au_identities db). identity_is (oauth_provider_name c) subject x \<and> id_user x = se_user t) \<or>
     (\<exists>m. provider_email (oauth_provider_name c) profile = Some m \<and>
       (\<forall>w \<in> set (au_users db). au_id w \<noteq> se_user t \<and> \<not> citext_eq (au_email w) m)))"
  using assms(2)
proof (cases rule: oauth_login_cases)
  case (signed profile u d r)
  obtain payload b where pb: "verify_oauth_state env now (oc_state c) = Inr payload" "decrypt env (or_string (oc_binding c) []) = Some b"
      "dict_get payload ''browser_binding_hash'' = Some (JStr (ve_sha256 env b))" "oc_profile c = Inr profile"
    using exchange_ok [OF signed(2)] by metis
  obtain subject where subject: "provider_user_id_from_profile (oauth_provider_name c) profile = Some subject"
      "(\<exists>x \<in> set (au_identities db). identity_is (oauth_provider_name c) subject x \<and> id_user x = au_id u) \<or>
       (\<exists>m. provider_email (oauth_provider_name c) profile = Some m \<and> (\<forall>w \<in> set (au_users db). au_id w \<noteq> au_id u \<and> \<not> citext_eq (au_email w) m))"
    by (rule upsert_account [OF assms(1) signed(4)])
  obtain t where "t \<in> set (au_sessions db')" "se_id t = sx_session_id (ay_session a)" "se_token_hash t = ve_sha256 env (dw_token dw)"
      "se_user t = au_id u"
    using issued_reply [OF signed(5)] signed(1) by auto
  with pb subject show ?thesis by (metis (no_types, lifting))
qed simp

definition sample_signin :: "(app_error + auth_reply) \<times> auth_db" where
  "sample_signin = complete_oauth_login sample_auth_env 5 (sample_draws ''n'' 20) (\<lambda>_. False) (sample_auth_rq ''x'')
     (sample_oauth_call ''state'') sample_auth_db"

theorem oauth_login_bound_witness:
  "\<exists>payload b t. verify_oauth_state sample_auth_env 5 ''state'' = Inr payload \<and> decrypt sample_auth_env ''eb'' = Some b \<and>
    dict_get payload ''browser_binding_hash'' = Some (JStr b) \<and> t \<in> set (au_sessions (snd sample_signin)) \<and> se_token_hash t = ''n''"
proof -
  have "\<not> isl (fst sample_signin)" by code_simp
  then obtain a where "fst sample_signin = Inr a" by (cases "fst sample_signin") auto
  then have "sample_signin = (Inr a, snd sample_signin)" by (metis prod.collapse)
  from oauth_login_bound [OF sample_auth_inv sample_signin_def [symmetric, THEN trans, OF this]]
  show ?thesis by (auto simp: sample_auth_env_def sample_draws_def sample_oauth_call_def)
qed




section \<open>CSRF protection\<close>

text \<open>
  C37: What a state-changing request with a session cookie must show to pass, unless its path is exempt: a token that was
  signed for this session with a time stamp not older than the maximal age, and, when the browser names the origin,
  an origin of the deployment.\<close>

theorem csrf_request_bound:
  assumes "csrf_decision env now rq = None" and "cr_method rq \<in> {''POST'', ''PUT'', ''PATCH'', ''DELETE''}" and "\<not> is_exempt rq"
    and "cr_session rq = Some s" and "s \<noteq> []"
  shows "(\<exists>stamp k. cr_header rq =
      Some (session_hash_prefix env s @ ''.'' @ stamp @ ''.'' @ cv_hmac env (session_hash_prefix env s @ '':'' @ stamp)) \<and>
      py_int stamp = Some k \<and> int now - k \<le> CSRF_TOKEN_MAX_AGE env) \<and>
    (if or_string (cr_origin rq) [] \<noteq> [] then rstrip_char (CHR ''/'') (or_string (cr_origin rq) []) \<in> set (allowed_origins env)
     else or_string (cr_referer rq) [] = [] \<or>
       rstrip_char (CHR ''/'') (cv_url_origin env (or_string (cr_referer rq) [])) \<in> set (allowed_origins env))"
proof -
  have "or_string (cr_session rq) [] = s" using assms(4) by (simp add: or_string_def)
  then have pass: "check_origin env rq = Inr ()" "or_string (cr_header rq) [] \<noteq> []"
      "verify_csrf_token env now (or_string (cr_header rq) []) s (CSRF_TOKEN_MAX_AGE env) = Inr ()"
    using assms by (auto simp: csrf_decision_def should_enforce_csrf_def bind_result_def split: sum.splits if_splits)
  have "cr_header rq = Some (or_string (cr_header rq) [])" using pass(2) by (auto simp: or_string_def split: option.splits if_splits)
  with verified_shape [OF pass(3)] pass(1) show ?thesis
    by (auto simp: check_origin_def split: if_splits)
qed

definition sample_csrf_env :: csrf_env where
  "sample_csrf_env =
     \<lparr>cv_sha256 = filter (\<lambda>c. c \<noteq> CHR ''.''), cv_hmac = filter (\<lambda>c. c \<noteq> CHR ''.''), cv_settings = default_auth_settings,
      cv_origins = [''https://a''], cv_frontend = [], cv_url_origin = (\<lambda>u. u)\<rparr>"

definition sample_csrf_rq :: csrf_request where
  "sample_csrf_rq = \<lparr>cr_method = ''POST'', cr_path = ''/api/v1/agents'', cr_session = Some ''s1'', cr_header = Some ''s1.5.s1:5'',
     cr_origin = Some ''https://a/'', cr_referer = None\<rparr>"

theorem csrf_request_bound_witness:
  "\<exists>stamp k. ''s1.5.s1:5'' = ''s1.'' @ stamp @ ''.'' @ cv_hmac sample_csrf_env (''s1:'' @ stamp) \<and> py_int stamp = Some k \<and> 7 - k \<le> 604800"
proof -
  have "csrf_decision sample_csrf_env 7 sample_csrf_rq = None" by code_simp
  moreover have "\<not> is_exempt sample_csrf_rq" by code_simp
  moreover have "session_hash_prefix sample_csrf_env ''s1'' = ''s1''" by code_simp
  ultimately show ?thesis
    using csrf_request_bound [of sample_csrf_env 7 sample_csrf_rq "''s1''"]
    by (simp add: sample_csrf_rq_def CSRF_TOKEN_MAX_AGE_def sample_csrf_env_def default_auth_settings_def)
qed

text \<open>
  C38: A token that the server generated is accepted for the session it was generated for, at any time up to the
  maximal age, and for no session with a different hash prefix. The digests are assumed to contain no dot, as
  hexadecimal digits do.\<close>

theorem csrf_token_roundtrip:
  assumes "\<And>x. CHR ''.'' \<notin> set (cv_sha256 env x)" and "\<And>x. CHR ''.'' \<notin> set (cv_hmac env x)"
  shows "verify_csrf_token env now (generate_csrf_token env issued s) t max_age = Inr () \<longleftrightarrow>
    int now - int issued \<le> max_age \<and> session_hash_prefix env s = session_hash_prefix env t"
  by (simp add: verify_generated [OF assms])

theorem csrf_token_roundtrip_witness:
  "verify_csrf_token sample_csrf_env 9 (generate_csrf_token sample_csrf_env 5 ''s1'') ''s1'' 604800 = Inr () \<and>
   verify_csrf_token sample_csrf_env 9 (generate_csrf_token sample_csrf_env 5 ''s1'') ''s2'' 604800 \<noteq> Inr ()"
proof -
  have dots: "CHR ''.'' \<notin> set (cv_sha256 sample_csrf_env x)" "CHR ''.'' \<notin> set (cv_hmac sample_csrf_env x)" for x
    by (simp_all add: sample_csrf_env_def)
  show ?thesis unfolding csrf_token_roundtrip [OF dots] by (simp add: session_hash_prefix_def sample_csrf_env_def)
qed

end
