(* ===== verification/Rate_Windows.thy ===== *)
theory Rate_Windows
  imports Rate_Limits
begin

text \<open>
  The durable budgets against their specification, a counter per address, endpoint, type and window;
  the size of the memory budgets; and the address behind the proxies.
\<close>

section \<open>Windows\<close>

lemma window_start_le:
  assumes "0 < w"
  shows "window_start now w \<le> now" and "now < window_start now w + timedelta_seconds w"
proof -
  let ?s = "now div 1000000"
  have s: "?s * 1000000 \<le> now" "now < ?s * 1000000 + 1000000"
    using minus_mod_eq_div_mult [of now 1000000, symmetric] pos_mod_bound [of 1000000 now] pos_mod_sign [of 1000000 now] by linarith+
  have q: "?s div w * w \<le> ?s" "?s + 1 \<le> ?s div w * w + w"
    using assms minus_mod_eq_div_mult [of ?s w, symmetric] pos_mod_bound [of w ?s] pos_mod_sign [of w ?s] by linarith+
  have "?s div w * w * 1000000 \<le> ?s * 1000000" using q(1) by (rule mult_right_mono) simp
  with s(1) show "window_start now w \<le> now" by (simp add: window_start_def)
  have "(?s + 1) * 1000000 \<le> (?s div w * w + w) * 1000000" using q(2) by (rule mult_right_mono) simp
  with s(2) show "now < window_start now w + timedelta_seconds w"
    by (simp add: window_start_def timedelta_seconds_def distrib_right)
qed

lemma seconds_until_enough: "1 \<le> seconds_until t now" "t \<le> now + timedelta_seconds (seconds_until t now)"
proof -
  have "(now - t) div 1000000 * 1000000 \<le> now - t"
    using minus_mod_eq_div_mult [of "now - t" 1000000, symmetric] pos_mod_sign [of 1000000 "now - t"] by linarith
  then show "t \<le> now + timedelta_seconds (seconds_until t now)"
    by (auto simp: seconds_until_def timedelta_seconds_def max_def)
qed (simp add: seconds_until_def)

section \<open>The durable budget as a counter\<close>

datatype rate_event =
    Attempt timestamp string string string "int option" "int option"
  | SweepAttempts timestamp

fun event_time :: "rate_event \<Rightarrow> timestamp" where
  "event_time (Attempt now _ _ _ _ _) = now"
| "event_time (SweepAttempts now) = now"

fun rate_step :: "rate_env \<Rightarrow> rate_row list \<Rightarrow> rate_event \<Rightarrow> rate_row list" where
  "rate_step env T (Attempt now ip endpoint limit_type cl cw) =
     snd (check_rate_limit env now ip endpoint limit_type cl cw T)"
| "rate_step env T (SweepAttempts now) = delete_where (expired_attempts (rl_settings env) now) T"

text \<open>The specification: the bucket an attempt falls into, and how many attempts fell into it.\<close>

fun event_bucket :: "rate_env \<Rightarrow> rate_event \<Rightarrow> (string \<times> string \<times> string \<times> int \<times> timestamp) option" where
  "event_bucket env (Attempt now ip endpoint limit_type cl cw) =
     (if unchecked_result env now ip \<noteq> None then None
      else let w = snd (limit_configuration (rl_settings env) limit_type cl cw)
           in Some (if_none (parse_ip env ip) ip, endpoint, limit_type, w, window_start now w))"
| "event_bucket env (SweepAttempts now) = None"

definition bucket_count :: "rate_env \<Rightarrow> rate_event list \<Rightarrow> string \<times> string \<times> string \<times> int \<times> timestamp \<Rightarrow> nat" where
  "bucket_count env es k = length (filter (\<lambda>e. event_bucket env e = Some k) es)"

fun window_valid :: "rate_limit_settings \<Rightarrow> rate_event \<Rightarrow> bool" where
  "window_valid cfg (Attempt now ip endpoint limit_type cl cw) =
     (case (cl, cw) of (Some _, Some w) \<Rightarrow> 1 \<le> w \<and> w \<le> RATE_LIMIT_RETENTION_SECONDS cfg | _ \<Rightarrow> True)"
| "window_valid cfg (SweepAttempts now) = True"

lemma limit_window_bounds:
  assumes "valid_rate_limit_settings cfg" and "window_valid cfg (Attempt now ip ep lt cl cw)"
  shows "1 \<le> snd (limit_configuration cfg lt cl cw) \<and> snd (limit_configuration cfg lt cl cw) \<le> RATE_LIMIT_RETENTION_SECONDS cfg"
proof (cases "cl \<noteq> None \<and> cw \<noteq> None")
  case True
  with assms(2) show ?thesis by (auto simp: limit_configuration_def)
next
  case False
  then have "limit_configuration cfg lt cl cw = if_none (default_limits cfg lt) (RATE_LIMIT_REQUESTS_PER_MINUTE cfg, 60)"
    by (auto simp: limit_configuration_def split: option.splits)
  moreover have "86400 \<le> RATE_LIMIT_RETENTION_SECONDS cfg" using assms(1) by (simp add: valid_rate_limit_settings_def)
  ultimately show ?thesis by (auto simp: default_limits_def)
qed

definition stored_count :: "rate_row list \<Rightarrow> string \<times> string \<times> string \<times> int \<times> timestamp \<Rightarrow> int" where
  "stored_count T k = (case find (\<lambda>r. bucket_key r = k) T of None \<Rightarrow> 0 | Some r \<Rightarrow> ra_attempts r)"

text \<open>\<open>counts t T es\<close>: at time \<open>t\<close> the table counts the history \<open>es\<close> for every window that is not over.\<close>

definition window_open :: "timestamp \<Rightarrow> string \<times> string \<times> string \<times> int \<times> timestamp \<Rightarrow> bool" where
  "window_open t k = (case k of (_, _, _, w, start) \<Rightarrow> t < start + timedelta_seconds w)"

definition counts :: "rate_env \<Rightarrow> timestamp \<Rightarrow> rate_row list \<Rightarrow> rate_event list \<Rightarrow> bool" where
  "counts env t T es \<longleftrightarrow>
     (\<forall>r \<in> set T. ra_window_start r \<le> ra_created_at r \<and> ra_window_seconds r \<le> RATE_LIMIT_RETENTION_SECONDS (rl_settings env)) \<and>
     (\<forall>k. window_open t k \<longrightarrow> stored_count T k = int (bucket_count env es k))"

lemma countsD: "counts env t T es \<Longrightarrow> window_open t k \<Longrightarrow> stored_count T k = int (bucket_count env es k)"
  unfolding counts_def by blast

lemma countsI:
  "(\<And>r. r \<in> set T \<Longrightarrow> ra_window_start r \<le> ra_created_at r \<and> ra_window_seconds r \<le> RATE_LIMIT_RETENTION_SECONDS (rl_settings env)) \<Longrightarrow>
   (\<And>k. window_open t k \<Longrightarrow> stored_count T k = int (bucket_count env es k)) \<Longrightarrow> counts env t T es"
  unfolding counts_def by blast

lemma counts_later: "counts env t T es \<Longrightarrow> t \<le> t' \<Longrightarrow> counts env t' T es"
  by (auto simp: counts_def window_open_def split: prod.splits)

lemma find_filter_key:
  "(\<And>r. r \<in> set T \<Longrightarrow> f r = k \<Longrightarrow> \<not> P r) \<Longrightarrow> find (\<lambda>r. f r = k) (filter (\<lambda>r. \<not> P r) T) = find (\<lambda>r. f r = k) T"
  by (induction T) auto

lemma counts_sweep:
  assumes "counts env t T es" and "t \<le> now"
  shows "counts env now (delete_where (expired_attempts (rl_settings env) now) T) (es @ [SweepAttempts now])"
proof -
  let ?P = "expired_attempts (rl_settings env) now"
  have "stored_count (delete_where ?P T) k = int (bucket_count env (es @ [SweepAttempts now]) k)" if k: "window_open now k" for k
  proof -
    have "\<not> ?P r" if "r \<in> set T" "bucket_key r = k" for r
    proof -
      have "ra_window_start r \<le> ra_created_at r" "ra_window_seconds r \<le> RATE_LIMIT_RETENTION_SECONDS (rl_settings env)"
        using assms(1) that(1) by (simp_all add: counts_def)
      moreover have "now < ra_window_start r + ra_window_seconds r * 1000000"
        using k that(2) by (auto simp: window_open_def bucket_key_def timedelta_seconds_def split: prod.splits)
      ultimately show ?thesis by (auto simp: expired_attempts_def timedelta_seconds_def)
    qed
    then have "stored_count (delete_where ?P T) k = stored_count T k"
      unfolding stored_count_def delete_where_def by (subst find_filter_key) auto
    moreover have "window_open t k" using k assms(2) by (auto simp: window_open_def split: prod.splits)
    ultimately show ?thesis using countsD [OF assms(1)] by (simp add: bucket_count_def)
  qed
  then show ?thesis using assms(1) by (intro countsI) (auto simp: counts_def delete_where_def)
qed

lemma find_update_key:
  "find (\<lambda>r. bucket_key r = k') (update_where (\<lambda>x. bucket_key x = k) (\<lambda>x. x\<lparr>ra_attempts := ra_attempts x + 1, ra_updated_at := now\<rparr>) T) =
     map_option (\<lambda>x. if bucket_key x = k then x\<lparr>ra_attempts := ra_attempts x + 1, ra_updated_at := now\<rparr> else x)
       (find (\<lambda>r. bucket_key r = k') T)"
proof (induction T)
  case (Cons r T)
  have "bucket_key (r\<lparr>ra_attempts := a, ra_updated_at := u\<rparr>) = bucket_key r" for a u by (simp add: bucket_key_def)
  with Cons show ?case by simp
qed simp

lemma find_append: "find P (T @ [r]) = (case find P T of Some x \<Rightarrow> Some x | None \<Rightarrow> if P r then Some r else None)"
  by (induction T) auto

lemma attempt_stored:
  assumes "check_rate_limit_db now ip ep lt limit w T = (r, T')"
  shows "stored_count T' k = stored_count T k + (if k = (ip, ep, lt, w, window_start now w) then 1 else 0)"
    and "rr_attempts r = stored_count T (ip, ep, lt, w, window_start now w) + 1"
    and "r = window_result limit w now (rr_attempts r \<le> limit) (rr_attempts r)"
    and "q \<in> set T' \<Longrightarrow> (\<exists>q0 \<in> set T. ra_window_start q = ra_window_start q0 \<and> ra_created_at q = ra_created_at q0 \<and>
        ra_window_seconds q = ra_window_seconds q0) \<or>
      ra_window_start q = window_start now w \<and> ra_created_at q = now \<and> ra_window_seconds q = w"
proof -
  let ?k = "(ip, ep, lt, w, window_start now w)"
  have "stored_count T' k = stored_count T k + (if k = ?k then 1 else 0) \<and> rr_attempts r = stored_count T ?k + 1 \<and>
    r = window_result limit w now (rr_attempts r \<le> limit) (rr_attempts r) \<and>
    (\<forall>q \<in> set T'. (\<exists>q0 \<in> set T. ra_window_start q = ra_window_start q0 \<and> ra_created_at q = ra_created_at q0 \<and>
        ra_window_seconds q = ra_window_seconds q0) \<or>
      ra_window_start q = window_start now w \<and> ra_created_at q = now \<and> ra_window_seconds q = w)"
  proof (cases "find (\<lambda>r. bucket_key r = ?k) T")
    case None
    let ?r = "\<lparr>ra_ip = ip, ra_endpoint = ep, ra_limit_type = lt, ra_window_seconds = w, ra_window_start = window_start now w,
       ra_attempts = 1, ra_created_at = now, ra_updated_at = now\<rparr>"
    have T': "T' = T @ [?r]" and r: "r = window_result limit w now (1 \<le> limit) 1"
      using assms None by (simp_all add: check_rate_limit_db_def)
    have key: "bucket_key ?r = ?k" by (simp add: bucket_key_def)
    have "stored_count T' k = stored_count T k + (if k = ?k then 1 else 0)"
      using None unfolding stored_count_def T' find_append key by (auto split: option.splits)
    moreover have "stored_count T ?k = 0" by (simp add: stored_count_def None)
    moreover have "rr_attempts r = 1" by (simp add: r window_result_def Let_def)
    ultimately show ?thesis using r by (auto simp: T')
  next
    case (Some q)
    have q: "bucket_key q = ?k" using find_SomeD [OF Some] by blast
    have T': "T' = update_where (\<lambda>x. bucket_key x = ?k) (\<lambda>x. x\<lparr>ra_attempts := ra_attempts x + 1, ra_updated_at := now\<rparr>) T"
      and r: "r = window_result limit w now (ra_attempts q + 1 \<le> limit) (ra_attempts q + 1)"
      using assms Some by (simp_all add: check_rate_limit_db_def)
    have "stored_count T' k = stored_count T k + (if k = ?k then 1 else 0)"
    proof (cases "k = ?k")
      case True
      then show ?thesis using Some q by (simp add: stored_count_def T' find_update_key)
    next
      case False
      then show ?thesis
        by (auto simp: stored_count_def T' find_update_key split: option.splits dest: find_SomeD)
    qed
    moreover have "stored_count T ?k = ra_attempts q" by (simp add: stored_count_def Some)
    moreover have "rr_attempts r = ra_attempts q + 1" by (simp add: r window_result_def Let_def)
    moreover have "\<exists>q0 \<in> set T. ra_window_start p = ra_window_start q0 \<and> ra_created_at p = ra_created_at q0 \<and>
        ra_window_seconds p = ra_window_seconds q0" if "p \<in> set T'" for p
    proof -
      from that obtain q0 where "q0 \<in> set T"
        "p = (if bucket_key q0 = ?k then q0\<lparr>ra_attempts := ra_attempts q0 + 1, ra_updated_at := now\<rparr> else q0)"
        unfolding T' in_update_where by blast
      then show ?thesis by (intro bexI [of _ q0]) simp_all
    qed
    ultimately show ?thesis using r by simp
  qed
  then show "stored_count T' k = stored_count T k + (if k = ?k then 1 else 0)" "rr_attempts r = stored_count T ?k + 1"
    "r = window_result limit w now (rr_attempts r \<le> limit) (rr_attempts r)"
    "q \<in> set T' \<Longrightarrow> (\<exists>q0 \<in> set T. ra_window_start q = ra_window_start q0 \<and> ra_created_at q = ra_created_at q0 \<and>
        ra_window_seconds q = ra_window_seconds q0) \<or>
      ra_window_start q = window_start now w \<and> ra_created_at q = now \<and> ra_window_seconds q = w" by blast+
qed

lemma counts_attempt:
  assumes "counts env t T es" and "t \<le> now" and "valid_rate_limit_settings (rl_settings env)"
    and "window_valid (rl_settings env) (Attempt now ip ep lt cl cw)"
  shows "counts env now (rate_step env T (Attempt now ip ep lt cl cw)) (es @ [Attempt now ip ep lt cl cw])"
    and "event_bucket env (Attempt now ip ep lt cl cw) = Some k \<Longrightarrow>
      rr_attempts (fst (check_rate_limit env now ip ep lt cl cw T)) = int (bucket_count env es k) + 1"
proof -
  let ?e = "Attempt now ip ep lt cl cw"
  have now_counts: "counts env now T es" by (rule counts_later [OF assms(1,2)])
  have "counts env now (rate_step env T ?e) (es @ [?e]) \<and>
    (\<forall>k. event_bucket env ?e = Some k \<longrightarrow> rr_attempts (fst (check_rate_limit env now ip ep lt cl cw T)) = int (bucket_count env es k) + 1)"
  proof (cases "unchecked_result env now ip")
    case (Some r)
    then show ?thesis using now_counts by (simp add: check_rate_limit_def counts_def bucket_count_def)
  next
    case None
    obtain limit w where lw: "limit_configuration (rl_settings env) lt cl cw = (limit, w)" by fastforce
    let ?ip = "if_none (parse_ip env ip) ip"
    let ?k = "(?ip, ep, lt, w, window_start now w)"
    obtain r T' where c: "check_rate_limit_db now ?ip ep lt limit w T = (r, T')" by fastforce
    have check: "check_rate_limit env now ip ep lt cl cw T = (r, T')"
      by (simp add: check_rate_limit_def None lw c)
    note A = attempt_stored [OF c]
    have w: "1 \<le> w" "w \<le> RATE_LIMIT_RETENTION_SECONDS (rl_settings env)"
      using limit_window_bounds [OF assms(3,4)] by (simp_all add: lw)
    have bucket: "event_bucket env ?e = Some ?k" by (simp add: None lw)
    have "window_open now ?k" using window_start_le(2) [of w now] w(1) by (simp add: window_open_def)
    then have "stored_count T ?k = int (bucket_count env es ?k)" by (rule countsD [OF now_counts])
    then have att: "rr_attempts r = int (bucket_count env es ?k) + 1" using A(2) by simp
    have "ra_window_start q \<le> ra_created_at q \<and> ra_window_seconds q \<le> RATE_LIMIT_RETENTION_SECONDS (rl_settings env)"
      if "q \<in> set T'" for q
      using A(4) [OF that] now_counts w window_start_le(1) [of w now] by (auto simp: counts_def)
    moreover have "stored_count T' k = int (bucket_count env (es @ [?e]) k)" if "window_open now k" for k
      using A(1) [of k] countsD [OF now_counts that] bucket by (auto simp: bucket_count_def)
    ultimately have "counts env now T' (es @ [?e])" by (rule countsI)
    then show ?thesis using check att bucket by simp
  qed
  then show "counts env now (rate_step env T ?e) (es @ [?e])"
    "event_bucket env ?e = Some k \<Longrightarrow>
      rr_attempts (fst (check_rate_limit env now ip ep lt cl cw T)) = int (bucket_count env es k) + 1" by blast+
qed

lemma counts_history:
  assumes "valid_rate_limit_settings (rl_settings env)" and "\<forall>e \<in> set es. window_valid (rl_settings env) e"
    and "sorted (map event_time es)" and "\<forall>e \<in> set es. event_time e \<le> t"
  shows "counts env t (foldl (rate_step env) [] es) es"
  using assms(2-4)
proof (induction es arbitrary: t rule: rev_induct)
  case Nil
  then show ?case by (simp add: counts_def stored_count_def bucket_count_def)
next
  case (snoc e es)
  have before: "counts env (event_time e) (foldl (rate_step env) [] es) es"
    using snoc.prems(1,2) by (intro snoc.IH) (simp_all add: sorted_append)
  have "counts env (event_time e) (rate_step env (foldl (rate_step env) [] es) e) (es @ [e])"
  proof (cases e)
    case (Attempt now ip ep lt cl cw)
    then show ?thesis
      using counts_attempt(1) [OF before _ assms(1), of now ip ep lt cl cw] snoc.prems(1) by simp
  next
    case (SweepAttempts now)
    then show ?thesis using counts_sweep [OF before, of now] by simp
  qed
  with snoc.prems(3) show ?case by (auto intro: counts_later)
qed

section \<open>The budgets in memory\<close>

lemma length_update_le: "length (AList.update k v B) \<le> Suc (length B)"
  by (induction B) auto

lemma prune_length: "length (prune_memory_buckets cfg cap now B) \<le> cap"
proof -
  have "cap * 9 div 10 \<le> cap" by presburger
  then show ?thesis by (simp add: prune_memory_buckets_def Let_def)
qed

lemma memory_bounded:
  assumes "length B \<le> cap" and "check_memory_rate_limit env cap now ip ep lt B = Some (r, B')"
  shows "length B' \<le> cap"
  using assms prune_length [of "rl_settings env" cap now]
  by (auto simp: check_memory_rate_limit_def Let_def split: option.splits if_splits)

text \<open>Below the cap only windows that are over leave the table.\<close>

lemma prune_keeps_live:
  "length (filter (\<lambda>b. \<not> bucket_expired cfg now b) B) \<le> cap \<Longrightarrow>
     set (prune_memory_buckets cfg cap now B) = {b \<in> set B. \<not> bucket_expired cfg now b}"
  by (simp add: prune_memory_buckets_def)

section \<open>The client's address\<close>

lemma get_client_ip_direct:
  assumes "normalize_ip_candidate env (Some (py_strip h)) = Some peer" and "\<not> is_trusted_proxy_ip env peer"
    and "py_strip h \<noteq> []"
  shows "get_client_ip env (Some h) forwarded real_ip = peer"
  using assms by (auto simp: get_client_ip_def Let_def py_strip_def)

lemma find_rev_last:
  "P x \<Longrightarrow> \<forall>y \<in> set ys. \<not> P y \<Longrightarrow> find P (rev (xs @ x # ys)) = Some x"
proof -
  assume x: "P x" and ys: "\<forall>y \<in> set ys. \<not> P y"
  have "find P (us @ x # vs) = Some x" if "\<forall>y \<in> set us. \<not> P y" for us vs
    using that x by (induction us) auto
  from this [of "rev ys" "rev xs"] ys show ?thesis by simp
qed

lemma resolve_rightmost:
  assumes "\<not> is_trusted_proxy_ip env ip" and "\<forall>y \<in> set ys. is_trusted_proxy_ip env y" and "is_trusted_proxy_ip env peer"
  shows "resolve_ip_from_forwarded_chain env (xs @ ip # ys) peer = Some ip"
proof -
  have found: "find (\<lambda>i. \<not> is_trusted_proxy_ip env i) (rev (xs @ ip # (ys @ [peer]))) = Some ip"
    by (rule find_rev_last) (use assms in auto)
  obtain c cs where "xs @ ip # ys = c # cs" by (cases xs) auto
  with found show ?thesis by (auto simp: resolve_ip_from_forwarded_chain_def simp flip: append_Cons append_assoc)
qed

text \<open>What is written to the left of a comma only adds hops to the left.\<close>

lemma split_on_append: "split_on c (a @ c # b) = split_on c a @ split_on c b"
proof (induction a)
  case (Cons x a)
  have "split_on c a \<noteq> []" by (cases a) (simp_all split: list.splits)
  with Cons show ?case by (auto split: list.splits)
qed simp

lemma extract_append:
  "extract_forwarded_chain env (Some (a @ CHR '','' # b)) =
     extract_forwarded_chain env (Some a) @ extract_forwarded_chain env (Some b)"
proof -
  have empty: "normalize_ip_candidate env (Some []) = None"
    by (simp add: normalize_ip_candidate_def Let_def py_strip_def strip_char_def rstrip_char_def)
  show ?thesis by (simp add: extract_forwarded_chain_def split_on_append empty)
qed

lemma extract_nonempty: "ip \<in> set (extract_forwarded_chain env v) \<Longrightarrow> ip \<noteq> []"
  by (auto simp: extract_forwarded_chain_def split: option.splits if_splits)

end
