(* ===== verification/Limit_Properties.thy ===== *)
theory Limit_Properties
  imports Rate_Windows
begin

text \<open>The properties of rate limiting, with witnesses.\<close>

text \<open>
  C39: the durable budget refines a plain counter. Along any history of attempts and retention sweeps in the order
  of their times, an attempt is counted exactly as the number of attempts that fell into the same
  bucket (address, endpoint, type and window) plus one, and is allowed exactly when that is within the
  limit: so no window ever admits more than its limit, no sweep hands a budget back, and a
  refused client that waits as long as it is told has reached the next window.
\<close>

theorem durable_budget_refines_counter:
  assumes "valid_rate_limit_settings (rl_settings env)" and "sorted (map event_time (es @ [Attempt now ip ep lt cl cw]))"
    and "\<forall>e \<in> set (es @ [Attempt now ip ep lt cl cw]). window_valid (rl_settings env) e"
    and "event_bucket env (Attempt now ip ep lt cl cw) = Some k"
  shows "let r = fst (check_rate_limit env now ip ep lt cl cw (foldl (rate_step env) [] es));
           limit = fst (limit_configuration (rl_settings env) lt cl cw)
    in rr_attempts r = int (bucket_count env es k) + 1 \<and> rr_limit r = Some limit \<and>
      (rr_allowed r \<longleftrightarrow> int (bucket_count env es k) + 1 \<le> limit) \<and>
      (if rr_allowed r then rr_retry_after r = None
       else \<exists>s. rr_retry_after r = Some s \<and> 1 \<le> s \<and> rr_reset_time r \<le> now + timedelta_seconds s \<and>
         now < rr_reset_time r)"
proof -
  let ?e = "Attempt now ip ep lt cl cw" and ?T = "foldl (rate_step env) [] es"
  have "sorted (map event_time es)" "\<forall>e \<in> set es. event_time e \<le> now" using assms(2) by (simp_all add: sorted_append)
  moreover have "\<forall>e \<in> set es. window_valid (rl_settings env) e" and valid: "window_valid (rl_settings env) ?e"
    using assms(3) by simp_all
  ultimately have counts: "counts env now ?T es" by (intro counts_history [OF assms(1)])
  have att: "rr_attempts (fst (check_rate_limit env now ip ep lt cl cw ?T)) = int (bucket_count env es k) + 1"
    by (rule counts_attempt(2) [OF counts _ assms(1) valid assms(4)]) simp
  have none: "unchecked_result env now ip = None" using assms(4) by (simp split: if_splits)
  obtain limit w where lw: "limit_configuration (rl_settings env) lt cl cw = (limit, w)" by fastforce
  let ?ip = "if_none (parse_ip env ip) ip"
  obtain r T' where c: "check_rate_limit_db now ?ip ep lt limit w ?T = (r, T')" by fastforce
  have check: "fst (check_rate_limit env now ip ep lt cl cw ?T) = r" by (simp add: check_rate_limit_def none lw c)
  have r: "r = window_result limit w now (rr_attempts r \<le> limit) (rr_attempts r)" by (rule attempt_stored(3) [OF c])
  have "0 < w" using limit_window_bounds [OF assms(1) valid] by (simp add: lw)
  note soon = window_start_le(2) [OF this, of now]
  let ?s = "window_result limit w now (rr_attempts r \<le> limit) (rr_attempts r)"
  have fields: "rr_limit r = Some limit" "rr_allowed r = (rr_attempts r \<le> limit)"
      "rr_reset_time r = window_start now w + timedelta_seconds w"
      "rr_retry_after r = (if rr_attempts r \<le> limit then None else Some (seconds_until (window_start now w + timedelta_seconds w) now))"
    using arg_cong [OF r, of rr_limit] arg_cong [OF r, of rr_allowed] arg_cong [OF r, of rr_reset_time] arg_cong [OF r, of rr_retry_after]
    by (simp_all add: window_result_def Let_def)
  show ?thesis
    using att seconds_until_enough soon unfolding check Let_def lw fields by auto
qed

definition sample_rate_env :: rate_env where
  "sample_rate_env = \<lparr>rl_settings = default_rate_limit_settings, parse_ip = Some, trusted = (\<lambda>a. a = ''10.0.0.1''), rl_sha256 = take 64\<rparr>"

theorem durable_budget_refines_counter_witness:
  "\<not> rr_allowed (fst (check_rate_limit sample_rate_env 5000000 ''a'' ''e'' ''registration'' None None
      (foldl (rate_step sample_rate_env) []
        [Attempt 1 ''a'' ''e'' ''registration'' None None, Attempt 2 ''a'' ''e'' ''registration'' None None,
         SweepAttempts 3, Attempt 4 ''a'' ''e'' ''registration'' None None])))"
proof -
  let ?es = "[Attempt 1 ''a'' ''e'' ''registration'' None None, Attempt 2 ''a'' ''e'' ''registration'' None None,
     SweepAttempts 3, Attempt 4 ''a'' ''e'' ''registration'' None None]"
  have valid: "valid_rate_limit_settings (rl_settings sample_rate_env)" by (simp add: sample_rate_env_def)
  have times: "sorted (map event_time (?es @ [Attempt 5000000 ''a'' ''e'' ''registration'' None None]))" by simp
  have windows: "\<forall>e \<in> set (?es @ [Attempt 5000000 ''a'' ''e'' ''registration'' None None]). window_valid (rl_settings sample_rate_env) e"
    by simp
  let ?k = "(''a'', ''e'', ''registration'', 86400 :: int, 0 :: int)"
  have cfg: "limit_configuration (rl_settings sample_rate_env) ''registration'' None None = (3, 86400)"
    by (simp add: limit_configuration_def default_limits_def sample_rate_env_def default_rate_limit_settings_def)
  have none: "unchecked_result sample_rate_env t ''a'' = None" for t
    by (simp add: unchecked_result_def sample_rate_env_def default_rate_limit_settings_def)
  have ip: "parse_ip sample_rate_env ''a'' = Some ''a''" by (simp add: sample_rate_env_def)
  have bucket: "event_bucket sample_rate_env (Attempt 5000000 ''a'' ''e'' ''registration'' None None) = Some ?k"
    by (simp add: none cfg ip window_start_def)
  have "bucket_count sample_rate_env ?es ?k = 3" by (simp add: bucket_count_def none cfg ip window_start_def)
  with durable_budget_refines_counter [OF valid times windows bucket] show ?thesis by (simp add: Let_def cfg)
qed

text \<open>
  C40: a client cannot choose its address. When the peer is not a trusted proxy the headers are not read at all. When it
  is, the address is the rightmost one of what the proxies appended that is not itself a trusted
  proxy: whatever text the client wrote to the left of it, well formed or not, is ignored.
\<close>

theorem client_ip_not_spoofable:
  assumes "normalize_ip_candidate env (Some (py_strip h)) = Some peer" and "py_strip h \<noteq> []"
  shows "(is_trusted_proxy_ip env peer \<or> get_client_ip env (Some h) forwarded real_ip = peer) \<and>
    (\<forall>claimed appended hops ip proxies. is_trusted_proxy_ip env peer \<longrightarrow>
       extract_forwarded_chain env (Some appended) = hops @ ip # proxies \<longrightarrow>
       \<not> is_trusted_proxy_ip env ip \<longrightarrow> (\<forall>p \<in> set proxies. is_trusted_proxy_ip env p) \<longrightarrow>
       get_client_ip env (Some h) (Some (claimed @ CHR '','' # appended)) real_ip = ip)"
proof -
  have "get_client_ip env (Some h) (Some (claimed @ CHR '','' # appended)) real_ip = ip"
    if "is_trusted_proxy_ip env peer" and chain: "extract_forwarded_chain env (Some appended) = hops @ ip # proxies"
      and "\<not> is_trusted_proxy_ip env ip" "\<forall>p \<in> set proxies. is_trusted_proxy_ip env p"
    for claimed appended hops ip proxies
  proof -
    have "extract_forwarded_chain env (Some (claimed @ CHR '','' # appended)) =
        (extract_forwarded_chain env (Some claimed) @ hops) @ ip # proxies"
      by (simp add: extract_append chain)
    then have "resolve_ip_from_forwarded_chain env (extract_forwarded_chain env (Some (claimed @ CHR '','' # appended))) peer =
        Some ip"
      using resolve_rightmost [OF that(3,4,1)] by metis
    moreover have "ip \<noteq> []" using extract_nonempty [of ip env "Some appended"] chain by simp
    ultimately show ?thesis using assms that(1) by (auto simp: get_client_ip_def Let_def or_string_def py_strip_def)
  qed
  moreover have "is_trusted_proxy_ip env peer \<or> get_client_ip env (Some h) forwarded real_ip = peer"
    using get_client_ip_direct [OF assms(1) _ assms(2)] by blast
  ultimately show ?thesis by blast
qed

theorem client_ip_not_spoofable_witness:
  "get_client_ip sample_rate_env (Some ''10.0.0.1'') (Some ''6.6.6.6, 9.9.9.9,10.0.0.1'') None = ''9.9.9.9''"
proof -
  have strip: "py_strip ''10.0.0.1'' = ''10.0.0.1''" by (simp add: py_strip_def py_space_def)
  have peer: "normalize_ip_candidate sample_rate_env (Some (py_strip ''10.0.0.1'')) = Some ''10.0.0.1''"
    unfolding strip by (simp add: normalize_ip_candidate_def Let_def sample_rate_env_def py_strip_def py_space_def strip_char_def
        rstrip_char_def starts_with_def py_lower_def lower_char_def)
  have chain: "extract_forwarded_chain sample_rate_env (Some '' 9.9.9.9,10.0.0.1'') = [] @ ''9.9.9.9'' # [''10.0.0.1'']"
    by (simp add: extract_forwarded_chain_def normalize_ip_candidate_def Let_def sample_rate_env_def py_strip_def py_space_def
        strip_char_def rstrip_char_def starts_with_def py_lower_def lower_char_def)
  have trust: "is_trusted_proxy_ip sample_rate_env ''10.0.0.1''" "\<not> is_trusted_proxy_ip sample_rate_env ''9.9.9.9''"
    by (simp_all add: is_trusted_proxy_ip_def sample_rate_env_def)
  have proxies: "\<forall>p \<in> set [''10.0.0.1'']. is_trusted_proxy_ip sample_rate_env p" using trust(1) by simp
  have "get_client_ip sample_rate_env (Some ''10.0.0.1'') (Some (''6.6.6.6'' @ CHR '','' # '' 9.9.9.9,10.0.0.1'')) None = ''9.9.9.9''"
    by (rule client_ip_not_spoofable [OF peer, of None None, THEN conjunct2, rule_format, OF _ trust(1) chain trust(2)])
      (use proxies strip in auto)
  then show ?thesis by simp
qed

end
