(* ===== verification/Spec2Isabelle.thy ===== *)
theory Spec2Isabelle
  imports Job_Properties Run_Properties Workspace_Properties Schedule_Properties Approval_Properties Auth_Properties
    Limit_Properties
begin

text \<open>
  Praxis Agents OS: the core of its API server, \<^verbatim>\<open>src/apps/api\<close>. Paths below are relative to it.

  The server keeps its state in PostgreSQL. Web requests, the job worker processes and the reapers all
  work on the same tables, each in transactions of its own; what makes the program correct is that
  these transactions, in any order, keep the tables consistent and that a process that lost the right
  to a row can no longer write it. The development models the services that carry this.

  The parts and their theories:
  \<^item> \<open>Prelude\<close>: identifiers, times, exceptions, NULL comparisons, tables, JSON values, text helpers, and the
    interfaces (locales) \<open>row_update\<close>, \<open>invariant_system\<close> and \<open>fenced_store\<close>.
  \<^item> \<open>Settings\<close>: the settings that the services read, with their admissible ranges and defaults.
  \<^item> \<open>Jobs\<close>, \<open>Job_Runner\<close>: \<^verbatim>\<open>services/jobs\<close> and \<^verbatim>\<open>workers/job_runner.py\<close>. A job is enqueued, claimed by a
    worker under a lease and concurrency limits, renewed, finished or failed, reclaimed when its lease
    expires, and swept when old. \<open>Job_Queue\<close> proves what each operation does and that it keeps the
    queue's invariant; \<open>Job_System\<close> turns the operations into events and interprets the interfaces;
    \<open>Job_Properties\<close> holds the properties.
  \<^item> \<open>Agent_Runs\<close>, \<open>Run_Execution\<close>: \<^verbatim>\<open>services/agent_runs\<close>. A run is created, claimed by an invocation
    under a lease, suspended for approval, settled with its children, cancelled or reaped; it uses the
    job queue to clean up staged content. \<open>Run_Lifecycle\<close> states the contract of a run's evolution,
    \<open>Run_Families\<close> the effect of the family operations, \<open>Run_System\<close> the events and interpretations,
    \<open>Run_Properties\<close> the properties.
  \<^item> \<open>Workspaces\<close>, \<open>Workspace_Provisioning\<close>: \<^verbatim>\<open>services/workspaces\<close>, the deletion of a user, and
    \<^verbatim>\<open>utils/slugify.py\<close>. \<open>Workspace_System\<close>, \<open>Workspace_Steps\<close> and \<open>Workspace_Events\<close> prove the
    invariant operation by operation and interpret \<open>invariant_system\<close>; \<open>Workspace_Rules\<close> proves who
    may change a membership and that accepted invitations stay accepted; \<open>Slugs\<close> is about slugs;
    \<open>Workspace_Properties\<close> holds the properties.
  \<^item> \<open>Schedules\<close>, \<open>Schedule_Runs\<close>: \<^verbatim>\<open>services/agent_schedules\<close> and the steps of \<^verbatim>\<open>workers/agent_runner.py\<close>. A
    schedule is created and edited by its owner; when it is due the worker claims its scheduled run,
    prepares a conversation and an agent run for it, mirrors the end of the agent run onto it, and
    reconciles what was left open. \<open>Schedule_Ledger\<close> and \<open>Schedule_Steps\<close> prove the invariant of the
    ledger and the effect of a claiming pass; \<open>Schedule_Links\<close>, \<open>Schedule_Worker\<close> and \<open>Schedule_System\<close>
    prove that schedules, scheduled runs and agent runs stay linked, operation by operation and as a
    system of events that includes those of the agent runs; \<open>Schedule_Timing\<close> is about the timing;
    \<open>Schedule_Properties\<close> holds the properties.
  \<^item> The approval of tool calls (\<^verbatim>\<open>services/agent_runs\<close>, \<^verbatim>\<open>services/agents/runtime\<close>): an agent run that wants
    to call a guarded tool is suspended with its conversation; a person reviews and decides; the decisions
    are compiled into results, reserved for one invocation, and started once by it and once by every
    specialist it had delegated to. \<open>Canonical_Json\<close> is the canonical JSON text that is hashed, with a proof
    that it determines the value; \<open>Approval_State\<close> the stored state and the reservation; \<open>Approval_Graph\<close> the
    graph of pending leaves and its projection and revision; \<open>Approval_Overrides\<close> the checks of edited
    arguments; \<open>Approval_Decisions\<close> the compilation; \<open>Approval_Flow\<close> suspending, accepting and starting;
    \<open>Approval_Review\<close> reviews, listings and the expiry sweep. \<open>Approval_Metadata\<close>, \<open>Approval_Roundtrip\<close>,
    \<open>Approval_Leaves\<close>, \<open>Approval_Compiled\<close>, \<open>Approval_Steps\<close> and \<open>Approval_Effects\<close> prove the effect of each
    operation; \<open>Approval_System\<close> the events, which include those of the agent runs, and the interpretations
    of the interfaces; \<open>Approval_Provenance\<close> where a reservation comes from; \<open>Approval_Sample\<close> is a concrete
    run with a delegated specialist, used by the witnesses; \<open>Approval_Properties\<close> holds the properties.
  \<^item> Accounts and sessions (\<^verbatim>\<open>services/auth\<close>, \<^verbatim>\<open>core/auth/sessions\<close>, \<^verbatim>\<open>services/users\<close>, \<^verbatim>\<open>models/user.py\<close>,
    \<^verbatim>\<open>core/dependencies.py\<close>, \<^verbatim>\<open>middleware/csrf.py\<close>): a sign-in with a password or a provider opens a session, or a
    partial one that the second factor completes; requests are authenticated by their session; sessions are
    revoked by their owner, with the password, or with the account. \<open>Auth_Sessions\<close> is the session store,
    \<open>Auth_Login\<close> factors, failure budgets and sign-in, \<open>Auth_Accounts\<close> registration, passwords, enrolment and user
    management, \<open>Auth_OAuth\<close> providers and the user of a request, \<open>Auth_Csrf\<close> the CSRF tokens and the middleware's
    decision. \<open>Auth_Effects\<close> states the contract \<open>advance\<close> of every operation, \<open>Auth_Steps\<close> and \<open>Auth_Changes\<close> prove it;
    \<open>Auth_System\<close> holds the events and interprets \<open>invariant_system\<close> and \<open>fenced_store\<close> (a revoked session is an owner
    that lost its resource); \<open>Auth_Guarantees\<close>, \<open>Auth_Factors\<close>, \<open>Auth_Contracts\<close> and \<open>Auth_Endings\<close> prove where sessions
    come from, the use of codes, the map that the session table implements, and what ends a session;
    \<open>Auth_Sample\<close> is a concrete environment; \<open>Auth_Properties\<close> holds the properties.
  \<^item> \<open>Rate_Limits\<close>: \<^verbatim>\<open>core/rate_limiting.py\<close> and \<^verbatim>\<open>middleware/rate_limit.py\<close>. Requests are counted in fixed
    windows, in the database for authentication and in a bounded table in memory otherwise, under the
    client's address, which is taken from the forwarding headers only behind trusted proxies; a job
    sweeps the counters. \<open>Rate_Windows\<close> relates the stored counters to the history of attempts and proves
    the bounds of the table and the reading of the headers; \<open>Limit_Properties\<close> holds the properties.

  How the code is read:
  \<^item> A service call inside one transaction is a function on the tables it touches. A row lock
    (\<^verbatim>\<open>FOR UPDATE\<close>) makes the rows it returns current; \<^verbatim>\<open>SKIP LOCKED\<close> is the argument \<open>unlocked\<close>, the rows no
    other transaction holds. An exception is a value of \<open>app_error\<close>, and an operation that raises
    is rolled back, except for what it commits on its own.
  \<^item> What the code draws from outside is an argument: the current time, fresh identifiers, the jitter of
    the retry delay, the SHA-256 function, the JSON encoder, the text of identifiers and times, password hashing, encryption,
    signed tokens, one-time codes and the answers of the OAuth providers.
  \<^item> Integers are unbounded as in Python. Floats occur only in delays and timeouts, where they are the exact
    rationals. A time is an integer number of microseconds. A string is a list of code points
    below 256.

  The groups of lemmas: for every operation its effect on each branch (lemmas named \<open>..._effect\<close>), the
  preservation of the component's invariant (\<open>..._inv\<close>), and from the interpretations the same along
  every sequence of events. Recursions are structural, or bounded by the code's own limits (ten slug
  candidates); no fuel is used.

  Not modelled: the agent runtime that talks to language models (of which only the approvals are modelled), the integrations with third-party
  services, storage, documents and media, knowledge retrieval, conversations, the
  HTTP layer except the decisions of the rate limiter and of the CSRF middleware, the database migrations, and the web client; they call third-party libraries or render
  and persist data around the modelled services. Concurrent snapshots of one table are not modelled:
  the concurrency limit of the job queue is proved for each claiming transaction.
\<close>

end
